(* ===== verification/Prelude.thy ===== *)
theory Prelude
  imports Main "HOL-Library.Char_ord" "HOL-Library.List_Lexorder" "HOL-Library.AList"
    "HOL-Library.Multiset" "HOL-Library.Code_Target_Nat"
begin

text \<open>
  What every component of the development shares: the result type in which a Python exception is
  a value, left-to-right iteration with early exit, Python dictionaries as association lists, and
  the collections of theorems that carry the component proofs.
\<close>

named_theorems parse_defs \<comment> \<open>definitions of the field validators, unfolded together\<close>
named_theorems result_dests \<comment> \<open>inversion of a successful or failed result\<close>

section \<open>Exceptions as values\<close>

text \<open>
  One constructor per exception class that the modelled code raises; the two strings are the
  stable \<open>code\<close> and the \<open>detail\<close> of the class. The standard \<open>ValueError\<close>, \<open>TypeError\<close>,
  \<open>KeyError\<close> and \<open>AssertionError\<close> carry their message. All the platform's own validation errors are subclasses of
  \<open>ValueError\<close>, which \<open>is_value_error\<close> records for the \<open>except ValueError\<close> clauses.
\<close>

datatype exn =
    Research_Record_Error string string
  | Agenda_Schema_Error string string
  | Agenda_Snapshot_Error string string
  | Agenda_Arm_Error string string
  | Usage_Evidence_Error string string
  | Runtime_Contract_Error string string
  | Research_World_Error string string
  | Runtime_Store_Error string string
  | Orchestration_Error string string
  | Runtime_Error string
  | Value_Error string
  | Type_Error string
  | Key_Error string
  | Assertion_Error string

fun is_value_error :: "exn \<Rightarrow> bool" where
  "is_value_error (Type_Error _) = False"
| "is_value_error (Key_Error _) = False"
| "is_value_error (Assertion_Error _) = False"
| "is_value_error (Research_World_Error _ _) = False"
| "is_value_error (Orchestration_Error _ _) = False"
| "is_value_error (Runtime_Error _) = False"
| "is_value_error _ = True"

type_synonym 'a result = "exn + 'a"

definition rbind :: "'a result \<Rightarrow> ('a \<Rightarrow> 'b result) \<Rightarrow> 'b result" where
  "rbind m f = (case m of Inl e \<Rightarrow> Inl e | Inr x \<Rightarrow> f x)"

definition require :: "bool \<Rightarrow> exn \<Rightarrow> unit result" where
  "require b e = (if b then Inr () else Inl e)"

definition try_catch :: "'a result \<Rightarrow> (exn \<Rightarrow> 'a result) \<Rightarrow> 'a result" where
  "try_catch m h = (case m of Inl e \<Rightarrow> h e | Inr x \<Rightarrow> Inr x)"

fun rmap :: "('a \<Rightarrow> 'b result) \<Rightarrow> 'a list \<Rightarrow> 'b list result" where
  "rmap f [] = Inr []"
| "rmap f (x # xs) = rbind (f x) (\<lambda>y. rbind (rmap f xs) (\<lambda>ys. Inr (y # ys)))"

lemma rbind_simps [simp]: "rbind (Inr x) f = f x" "rbind (Inl e) f = Inl e"
  by (simp_all add: rbind_def)

lemma require_simps [simp]: "require True e = Inr ()" "require False e = Inl e"
  by (simp_all add: require_def)

lemma rbind_Inr_iff [result_dests]: "rbind m f = Inr y \<longleftrightarrow> (\<exists>x. m = Inr x \<and> f x = Inr y)"
  by (cases m) simp_all

lemma Inr_rbind_iff: "Inr y = rbind m f \<longleftrightarrow> (\<exists>x. m = Inr x \<and> f x = Inr y)"
  by (cases m) auto

lemma require_Inr_iff [result_dests]: "require b e = Inr u \<longleftrightarrow> b"
  by (simp add: require_def)

lemma rbind_cong [fundef_cong]:
  "m = m' \<Longrightarrow> (\<And>x. m' = Inr x \<Longrightarrow> f x = g x) \<Longrightarrow> rbind m f = rbind m' g"
  by (cases m') simp_all

lemma if_Inr_iff [result_dests]:
  "(if b then Inl e else m) = Inr y \<longleftrightarrow> \<not> b \<and> m = Inr y"
  "(if b then m else Inl e) = Inr y \<longleftrightarrow> b \<and> m = Inr y"
  by auto

lemma rmap_Inr_length: "rmap f xs = Inr ys \<Longrightarrow> length ys = length xs"
  by (induction xs arbitrary: ys) (auto simp: rbind_Inr_iff)

lemma rmap_Inr_iff: "rmap f xs = Inr ys \<longleftrightarrow> list_all2 (\<lambda>x y. f x = Inr y) xs ys"
  by (induction xs arbitrary: ys) (auto simp: rbind_Inr_iff list_all2_Cons1)

lemma rmap_all_Inr: "(\<And>x. x \<in> set xs \<Longrightarrow> f x = Inr (g x)) \<Longrightarrow> rmap f xs = Inr (map g xs)"
  by (induction xs) simp_all

lemma rmap_Inr_mem:
  assumes "rmap f xs = Inr ys" and "y \<in> set ys"
  shows "\<exists>x \<in> set xs. f x = Inr y"
proof -
  from assms(2) obtain i where i: "i < length ys" "y = ys ! i"
    by (auto simp: in_set_conv_nth)
  with assms(1) have "f (xs ! i) = Inr y" "i < length xs"
    by (auto simp: rmap_Inr_iff list_all2_conv_all_nth)
  then show ?thesis by auto
qed

lemma rmap_map: "rmap f (map g xs) = rmap (f \<circ> g) xs"
  by (induction xs) simp_all

lemma rmap_Inl_mem: "rmap f xs = Inl e \<Longrightarrow> \<exists>x \<in> set xs. f x = Inl e"
proof (induction xs)
  case Nil
  then show ?case by simp
next
  case (Cons x xs)
  show ?case
  proof (cases "f x")
    case (Inl e')
    with Cons.prems show ?thesis by simp
  next
    case (Inr y)
    with Cons show ?thesis by (cases "rmap f xs") auto
  qed
qed

section \<open>Dictionaries\<close>

text \<open>
  A Python dictionary with text keys is the list of its items in insertion order, keys distinct.
  Reading is \<open>map_of\<close>; assignment is \<open>AList.update\<close>, which keeps the position of an existing key
  and appends a new one, as Python does.
\<close>

definition keys :: "(string \<times> 'v) list \<Rightarrow> string list" where
  "keys d = map fst d"

lemma keys_simps [simp]: "keys [] = []" "keys ((k, v) # d) = k # keys d"
  by (simp_all add: keys_def)

lemma set_keys_dom: "set (keys d) = dom (map_of d)"
  by (simp add: keys_def dom_map_of_conv_image_fst)

lemma keys_map_of: "k \<in> set (keys d) \<longleftrightarrow> (\<exists>v. map_of d k = Some v)"
  by (auto simp: set_keys_dom)

section \<open>Sorted lists of texts\<close>

text \<open>
  Python compares texts by code point. Texts are kept in their UTF-8 form here (theory
  \<open>Py_Text\<close>), whose byte order is the same, so the library's lexicographic order on \<open>string\<close> is
  Python's order and the library's \<open>sort\<close> is its \<open>sorted\<close>.
\<close>

lemma sort_distinct_set_eq:
  fixes xs ys :: "'a :: linorder list"
  assumes "distinct xs" "distinct ys" "set xs = set ys"
  shows "sort xs = sort ys"
  using assms by (metis sorted_distinct_set_unique distinct_sort set_sort sorted_sort)

lemma sort_key_sorted_id: "sorted (map f xs) \<Longrightarrow> sort_key f xs = xs"
  by (induction xs) (simp_all add: insort_is_Cons)

lemma map_of_sort_key_fst:
  fixes d :: "('k :: linorder \<times> 'v) list"
  assumes "distinct (map fst d)"
  shows "map_of (sort_key fst d) = map_of d"
proof (rule map_of_eqI)
  show "set (map fst (sort_key fst d)) = set (map fst d)" by simp
next
  show "\<forall>k\<in>set (map fst (sort_key fst d)). map_of (sort_key fst d) k = map_of d k"
  proof
    fix k assume "k \<in> set (map fst (sort_key fst d))"
    then obtain v where kv: "(k, v) \<in> set d" by auto
    have "mset (map fst (sort_key fst d)) = mset (map fst d)" by (simp add: mset_map)
    with assms have "distinct (map fst (sort_key fst d))"
      by (metis mset_eq_imp_distinct_iff)
    with kv assms show "map_of (sort_key fst d) k = map_of d k"
      by (simp add: map_of_is_SomeI)
  qed
qed

lemma distinct_map_sort_key: "distinct (map f (sort_key g xs)) = distinct (map f xs)"
  by (rule mset_eq_imp_distinct_iff) (simp add: mset_map)

lemma pred_option_code [code]: "pred_option P None = True" "pred_option P (Some x) = P x"
  by simp_all

end
