(* ===== verification/Py_Text.thy ===== *)
theory Py_Text
  imports Prelude
begin

text \<open>
  Python text. A \<open>str\<close> is kept in its UTF-8 form (each lone surrogate as the three bytes that
  \<open>surrogatepass\<close> gives it), one \<open>char\<close> per byte. On this form \<open>len(s.encode("utf-8"))\<close> is
  \<open>length\<close>, comparison by code point is the library's order on \<open>string\<close>, a strict
  \<open>encode\<close>/\<open>decode\<close> is the identity guarded by \<open>utf8_valid\<close>, and a regular expression over ASCII
  classes reads the same characters. Slicing by code point and the two lenient codecs are written
  out below.
\<close>

definition cc :: "char \<Rightarrow> nat" where
  "cc c = of_char c"

section \<open>UTF-8\<close>

definition is_cont :: "char \<Rightarrow> bool" where
  "is_cont c \<longleftrightarrow> 128 \<le> cc c \<and> cc c < 192"

definition lead2 :: "char \<Rightarrow> char \<Rightarrow> bool" where
  "lead2 a b \<longleftrightarrow> 194 \<le> cc a \<and> cc a \<le> 223 \<and> is_cont b"

definition lead3 :: "char \<Rightarrow> char \<Rightarrow> char \<Rightarrow> bool" where
  "lead3 a b c \<longleftrightarrow> is_cont b \<and> is_cont c \<and>
     (cc a = 224 \<and> 160 \<le> cc b \<or> 225 \<le> cc a \<and> cc a \<le> 236 \<or>
      cc a = 237 \<and> cc b < 160 \<or> 238 \<le> cc a \<and> cc a \<le> 239)"

definition lead4 :: "char \<Rightarrow> char \<Rightarrow> char \<Rightarrow> char \<Rightarrow> bool" where
  "lead4 a b c d \<longleftrightarrow> is_cont b \<and> is_cont c \<and> is_cont d \<and>
     (cc a = 240 \<and> 144 \<le> cc b \<or> 241 \<le> cc a \<and> cc a \<le> 243 \<or> cc a = 244 \<and> cc b < 144)"

text \<open>The bytes that a strict UTF-8 decoder accepts: no surrogate, no overlong form.\<close>

definition utf8_next :: "string \<Rightarrow> string option" where
  "utf8_next s = (case s of
      a # r \<Rightarrow>
        if cc a < 128 then Some r
        else (case r of
            b # r1 \<Rightarrow>
              if lead2 a b then Some r1
              else (case r1 of
                  c # r2 \<Rightarrow>
                    if lead3 a b c then Some r2
                    else (case r2 of
                        d # r3 \<Rightarrow> if lead4 a b c d then Some r3 else None
                      | [] \<Rightarrow> None)
                | [] \<Rightarrow> None)
          | [] \<Rightarrow> None)
    | [] \<Rightarrow> None)"

lemma utf8_next_append: "utf8_next s = Some r \<Longrightarrow> utf8_next (s @ t) = Some (r @ t)"
  by (auto simp: utf8_next_def split: list.splits if_splits)

lemma utf8_next_shorter: "utf8_next s = Some r \<Longrightarrow> length r < length s"
  by (auto simp: utf8_next_def split: list.splits if_splits)

lemma utf8_next_ascii: "cc a < 128 \<Longrightarrow> utf8_next (a # r) = Some r"
  by (simp add: utf8_next_def)

function utf8_valid :: "string \<Rightarrow> bool" where
  "utf8_valid s =
     (if s = [] then True
      else (case utf8_next s of None \<Rightarrow> False | Some r \<Rightarrow> utf8_valid r))"
  by pat_completeness auto
termination
  by (relation "measure length") (auto dest: utf8_next_shorter)

declare utf8_valid.simps [simp del]

lemma utf8_valid_Nil [simp]: "utf8_valid []"
  by (simp add: utf8_valid.simps)

lemma utf8_valid_ascii: "cc a < 128 \<Longrightarrow> utf8_valid (a # s) = utf8_valid s"
  by (simp add: utf8_valid.simps [of "a # s"] utf8_next_ascii)

lemma utf8_valid_append: "utf8_valid s \<Longrightarrow> utf8_valid (s @ t) = utf8_valid t"
proof (induction s rule: utf8_valid.induct)
  case (1 s)
  show ?case
  proof (cases "s = []")
    case False
    with "1.prems" obtain r where r: "utf8_next s = Some r" "utf8_valid r"
      by (auto simp: utf8_valid.simps [of s] split: option.splits)
    with False "1.IH" have "utf8_valid (r @ t) = utf8_valid t" by blast
    with r False show ?thesis
      by (simp add: utf8_valid.simps [of "s @ t"] utf8_next_append)
  qed simp
qed

lemma utf8_valid_ascii_list: "list_all (\<lambda>c. cc c < 128) s \<Longrightarrow> utf8_valid s"
  by (induction s) (simp_all add: utf8_valid_ascii)

text \<open>Slicing \<open>s[:n]\<close> by code points: continuation bytes belong to the point before them.\<close>

fun cp_take :: "nat \<Rightarrow> string \<Rightarrow> string" where
  "cp_take n [] = []"
| "cp_take n (c # s) =
     (if is_cont c then c # cp_take n s
      else (case n of 0 \<Rightarrow> [] | Suc m \<Rightarrow> c # cp_take m s))"

lemma cp_take_prefix: "\<exists>t. s = cp_take n s @ t"
proof (induction n s rule: cp_take.induct)
  case (2 n c s)
  then show ?case by (cases n) auto
qed simp

lemma cp_take_short: "length s \<le> n \<Longrightarrow> cp_take n s = s"
proof (induction n s rule: cp_take.induct)
  case (2 n c s)
  then show ?case by (cases n) auto
qed simp

text \<open>\<open>encode("utf-8", errors="replace")\<close>: every surrogate becomes a question mark.\<close>

fun utf8_replace :: "string \<Rightarrow> string" where
  "utf8_replace (a # b # c # s) =
     (if cc a = 237 \<and> 160 \<le> cc b then CHR ''?'' # utf8_replace s
      else a # utf8_replace (b # c # s))"
| "utf8_replace s = s"

text \<open>
  \<open>encoded[:n].decode("utf-8", errors="ignore")\<close> for a valid \<open>encoded\<close>: the first \<open>n\<close> bytes less
  the code point that the cut splits, if it splits one.
\<close>

definition utf8_cut :: "nat \<Rightarrow> string \<Rightarrow> string" where
  "utf8_cut n s =
     (let t = take n s
      in case drop n s of
           [] \<Rightarrow> t
         | c # _ \<Rightarrow> if is_cont c then rev (tl (dropWhile is_cont (rev t))) else t)"

lemma utf8_cut_length: "length (utf8_cut n s) \<le> n"
proof -
  have "length (dropWhile is_cont (rev (take n s))) \<le> n"
    by (metis length_dropWhile_le length_rev length_take min.boundedE min.cobounded2 order_trans)
  then show ?thesis by (auto simp: utf8_cut_def Let_def split: list.splits)
qed

lemma dropWhile_is_suffix: "\<exists>xs. s = xs @ dropWhile P s"
  by (metis takeWhile_dropWhile_id)

lemma utf8_cut_prefix: "\<exists>t. s = utf8_cut n s @ t"
proof -
  let ?d = "dropWhile is_cont (rev (take n s))"
  obtain xs where "rev (take n s) = xs @ ?d"
    using dropWhile_is_suffix [of "rev (take n s)" is_cont] by blast
  then have "take n s = rev ?d @ rev xs"
    by (metis rev_append rev_rev_ident)
  moreover have "\<exists>ys. rev ?d = rev (tl ?d) @ ys"
    by (cases ?d) (simp_all del: dropWhile_eq_Nil_conv)
  ultimately have "\<exists>ys. take n s = rev (tl ?d) @ ys"
    by (metis append.assoc)
  then have "\<exists>ys. s = rev (tl ?d) @ ys"
    by (metis append.assoc append_take_drop_id)
  moreover have "\<exists>ys. s = take n s @ ys"
    by (metis append_take_drop_id)
  ultimately show ?thesis
    by (auto simp: utf8_cut_def Let_def split: list.splits)
qed

section \<open>Decimal numerals and \<open>repr\<close>\<close>

fun nat_digits :: "nat \<Rightarrow> string" where
  "nat_digits n =
     (if n < 10 then [char_of (48 + n)] else nat_digits (n div 10) @ [char_of (48 + n mod 10)])"

declare nat_digits.simps [simp del]

definition int_digits :: "int \<Rightarrow> string" where
  "int_digits i = (if i < 0 then CHR ''-'' # nat_digits (nat (- i)) else nat_digits (nat i))"

definition is_digit :: "char \<Rightarrow> bool" where
  "is_digit c \<longleftrightarrow> 48 \<le> cc c \<and> cc c \<le> 57"

lemma cc_char_of: "n < 256 \<Longrightarrow> cc (char_of n) = n"
  by (simp add: cc_def)

lemma nat_digits_not_Nil [simp]: "nat_digits n \<noteq> []"
  by (subst nat_digits.simps) simp

lemma nat_digits_is_digit: "list_all is_digit (nat_digits n)"
proof (induction n rule: nat_digits.induct)
  case (1 n)
  show ?case
  proof (cases "n < 10")
    case True
    then show ?thesis by (subst nat_digits.simps) (simp add: is_digit_def cc_char_of)
  next
    case False
    with 1 have "list_all is_digit (nat_digits (n div 10))" by simp
    moreover have "n mod 10 < 10" by simp
    then have "is_digit (char_of (48 + n mod 10))"
      by (simp add: is_digit_def cc_char_of)
    ultimately show ?thesis using False by (subst nat_digits.simps) simp
  qed
qed

lemma nat_digits_ascii: "list_all (\<lambda>c. cc c < 128) (nat_digits n)"
  using nat_digits_is_digit [of n] by (auto simp: list_all_iff is_digit_def)

text \<open>The first digit is \<open>0\<close> for the number zero only, as in canonical decimal text.\<close>

lemma nat_digits_hd: "0 < n \<Longrightarrow> 49 \<le> cc (hd (nat_digits n)) \<and> cc (hd (nat_digits n)) \<le> 57"
proof (induction n rule: nat_digits.induct)
  case (1 n)
  show ?case
  proof (cases "n < 10")
    case True
    with 1 show ?thesis by (subst (1 2) nat_digits.simps) (simp add: cc_char_of)
  next
    case False
    with 1 have "49 \<le> cc (hd (nat_digits (n div 10))) \<and> cc (hd (nat_digits (n div 10))) \<le> 57"
      by simp
    with False show ?thesis by (subst (1 2) nat_digits.simps) simp
  qed
qed

lemma nat_digits_0: "nat_digits 0 = ''0''"
  by code_simp

definition hex_digit :: "nat \<Rightarrow> char" where
  "hex_digit n = char_of (if n < 10 then 48 + n else 87 + n)"

text \<open>
  \<open>repr\<close> of a text: single quotes unless the text holds a single and no double quote; the quote,
  the backslash and the control characters escaped. Characters beyond ASCII are copied, as
  \<open>repr\<close> does for the printable ones.
\<close>

definition repr_char :: "char \<Rightarrow> char \<Rightarrow> string" where
  "repr_char q c =
     (if c = q \<or> cc c = 92 then [CHR 0x5C, c]
      else if cc c = 9 then [CHR 0x5C, CHR ''t'']
      else if cc c = 10 then [CHR 0x5C, CHR ''n'']
      else if cc c = 13 then [CHR 0x5C, CHR ''r'']
      else if cc c < 32 \<or> cc c = 127
        then [CHR 0x5C, CHR ''x'', hex_digit (cc c div 16), hex_digit (cc c mod 16)]
      else [c])"

definition repr_text :: "string \<Rightarrow> string" where
  "repr_text s =
     (let q = (if CHR 0x27 \<in> set s \<and> CHR 0x22 \<notin> set s then CHR 0x22 else CHR 0x27)
      in q # concat (map (repr_char q) s) @ [q])"

fun join :: "string \<Rightarrow> string list \<Rightarrow> string" where
  "join sep [] = []"
| "join sep [s] = s"
| "join sep (s # t # r) = s @ sep @ join sep (t # r)"

definition repr_texts :: "string list \<Rightarrow> string" where
  "repr_texts ss = CHR ''['' # join '', '' (map repr_text ss) @ '']''"

section \<open>Regular expressions the code matches in full\<close>

definition is_lower_hex :: "char \<Rightarrow> bool" where
  "is_lower_hex c \<longleftrightarrow> is_digit c \<or> 97 \<le> cc c \<and> cc c \<le> 102"

definition is_lower :: "char \<Rightarrow> bool" where
  "is_lower c \<longleftrightarrow> 97 \<le> cc c \<and> cc c \<le> 122"

definition is_upper :: "char \<Rightarrow> bool" where
  "is_upper c \<longleftrightarrow> 65 \<le> cc c \<and> cc c \<le> 90"

definition is_ident_tail :: "char \<Rightarrow> bool" where
  "is_ident_tail c \<longleftrightarrow> is_lower c \<or> is_upper c \<or> is_digit c \<or> c \<in> set ''._-''"

definition is_lower_ident_tail :: "char \<Rightarrow> bool" where
  "is_lower_ident_tail c \<longleftrightarrow> is_lower c \<or> is_digit c \<or> c \<in> set ''._-''"

text \<open>\<open>first rest{0,n}\<close>\<close>

fun matches_ident :: "(char \<Rightarrow> bool) \<Rightarrow> (char \<Rightarrow> bool) \<Rightarrow> nat \<Rightarrow> string \<Rightarrow> bool" where
  "matches_ident p q n [] = False"
| "matches_ident p q n (c # s) = (p c \<and> length s \<le> n \<and> list_all q s)"

text \<open>\<open>[0-9a-f]{64}\<close>, and the same after a fixed prefix\<close>

definition matches_sha256 :: "string \<Rightarrow> bool" where
  "matches_sha256 s \<longleftrightarrow> length s = 64 \<and> list_all is_lower_hex s"

definition matches_prefixed_sha256 :: "string \<Rightarrow> string \<Rightarrow> bool" where
  "matches_prefixed_sha256 p s \<longleftrightarrow>
     take (length p) s = p \<and> matches_sha256 (drop (length p) s)"

lemma matches_sha256_not_Nil [simp]: "matches_sha256 s \<Longrightarrow> s \<noteq> []"
  by (auto simp: matches_sha256_def)

lemma matches_sha256_ascii: "matches_sha256 s \<Longrightarrow> list_all (\<lambda>c. cc c < 128) s"
  by (auto simp: matches_sha256_def list_all_iff is_lower_hex_def is_digit_def)

lemma matches_prefixed_sha256_split:
  "matches_prefixed_sha256 p s \<Longrightarrow> s = p @ drop (length p) s \<and> matches_sha256 (drop (length p) s)"
  by (metis append_take_drop_id matches_prefixed_sha256_def)

lemma matches_prefixed_sha256_length:
  "matches_prefixed_sha256 p s \<Longrightarrow> length s = length p + 64"
  using matches_prefixed_sha256_split [of p s]
  by (metis length_append matches_sha256_def)

lemma matches_prefixed_sha256_ascii:
  "list_all (\<lambda>c. cc c < 128) p \<Longrightarrow> matches_prefixed_sha256 p s \<Longrightarrow> list_all (\<lambda>c. cc c < 128) s"
  using matches_prefixed_sha256_split [of p s] matches_sha256_ascii
  by (metis list_all_append)

lemma matches_ident_length: "matches_ident p q n s \<Longrightarrow> s \<noteq> [] \<and> length s \<le> Suc n"
  by (cases s) simp_all

end
