(* ===== verification/Json.thy ===== *)
theory Json
  imports Py_Text
begin

text \<open>
  JSON values and the platform's deterministic encoding: \<open>canonical_json\<close> and \<open>strict_json\<close> of
  \<open>world/records.py\<close>, over a model of the part of the standard library's \<open>json\<close> that they use
  (the serializer with sorted keys and no spaces, and the decoder with its hooks). The lemmas show
  that the decoder inverts the serializer, that key order does not matter and that canonical
  bytes are accepted by the strict decoder.
\<close>

section \<open>Values\<close>

text \<open>
  The Python objects the validators are given. \<open>POther t\<close> stands for an object of any type that
  JSON does not have, \<open>t\<close> its type name; floating-point numbers are such objects here, since every
  validator that is modelled tests the type and refuses them. The decoder of a world's contents,
  which admits finite floats, gives \<open>POther ''float''\<close> for each.
\<close>

datatype pyval =
    PNone
  | PBool bool
  | PInt int
  | PStr string
  | PList "pyval list"
  | PDict "(string \<times> pyval) list"
  | POther string

fun type_name :: "pyval \<Rightarrow> string" where
  "type_name PNone = ''NoneType''"
| "type_name (PBool _) = ''bool''"
| "type_name (PInt _) = ''int''"
| "type_name (PStr _) = ''str''"
| "type_name (PList _) = ''list''"
| "type_name (PDict _) = ''dict''"
| "type_name (POther t) = t"

text \<open>\<open>value.get(key)\<close>: \<open>None\<close> when the key is absent.\<close>

definition dget :: "string \<Rightarrow> (string \<times> pyval) list \<Rightarrow> pyval" where
  "dget k d = (case map_of d k of None \<Rightarrow> PNone | Some v \<Rightarrow> v)"

definition texts :: "string list \<Rightarrow> pyval" where
  "texts ss = PList (map PStr ss)"

definition opt_text :: "string option \<Rightarrow> pyval" where
  "opt_text o' = (case o' of None \<Rightarrow> PNone | Some s \<Rightarrow> PStr s)"

definition opt_int :: "int option \<Rightarrow> pyval" where
  "opt_int o' = (case o' of None \<Rightarrow> PNone | Some i \<Rightarrow> PInt i)"

text \<open>\<open>str(value)\<close>\<close>

fun py_repr :: "pyval \<Rightarrow> string" and py_reprs :: "pyval list \<Rightarrow> string list"
  and py_repr_items :: "(string \<times> pyval) list \<Rightarrow> string list" where
  "py_repr PNone = ''None''"
| "py_repr (PBool b) = (if b then ''True'' else ''False'')"
| "py_repr (PInt i) = int_digits i"
| "py_repr (PStr s) = repr_text s"
| "py_repr (PList vs) = ''['' @ join '', '' (py_reprs vs) @ '']''"
| "py_repr (PDict d) = ''{'' @ join '', '' (py_repr_items d) @ ''}''"
| "py_repr (POther t) = ''<'' @ t @ '' object>''"
| "py_reprs [] = []"
| "py_reprs (v # vs) = py_repr v # py_reprs vs"
| "py_repr_items [] = []"
| "py_repr_items ((k, v) # d) = (repr_text k @ '': '' @ py_repr v) # py_repr_items d"

fun py_str :: "pyval \<Rightarrow> string" where
  "py_str (PStr s) = s"
| "py_str v = py_repr v"

section \<open>Serializer\<close>

text \<open>Keys sorted at every depth, as \<open>sort_keys=True\<close> does.\<close>

fun sort_json :: "pyval \<Rightarrow> pyval" and sort_json_list :: "pyval list \<Rightarrow> pyval list"
  and sort_json_items :: "(string \<times> pyval) list \<Rightarrow> (string \<times> pyval) list" where
  "sort_json (PList vs) = PList (sort_json_list vs)"
| "sort_json (PDict d) = PDict (sort_key fst (sort_json_items d))"
| "sort_json v = v"
| "sort_json_list [] = []"
| "sort_json_list (v # vs) = sort_json v # sort_json_list vs"
| "sort_json_items [] = []"
| "sort_json_items ((k, v) # d) = (k, sort_json v) # sort_json_items d"

text \<open>\<open>json.encoder.ESCAPE\<close> with \<open>ensure_ascii=False\<close>\<close>

definition esc_char :: "char \<Rightarrow> string" where
  "esc_char c =
     (if cc c = 34 \<or> cc c = 92 then [CHR 0x5C, c]
      else if cc c = 8 then [CHR 0x5C, CHR ''b'']
      else if cc c = 9 then [CHR 0x5C, CHR ''t'']
      else if cc c = 10 then [CHR 0x5C, CHR ''n'']
      else if cc c = 12 then [CHR 0x5C, CHR ''f'']
      else if cc c = 13 then [CHR 0x5C, CHR ''r'']
      else if cc c < 32
        then [CHR 0x5C, CHR ''u'', CHR ''0'', CHR ''0'', hex_digit (cc c div 16), hex_digit (cc c mod 16)]
      else [c])"

definition enc_str :: "string \<Rightarrow> string" where
  "enc_str s = CHR 0x22 # concat (map esc_char s) @ [CHR 0x22]"

fun enc :: "pyval \<Rightarrow> string" and enc_list :: "pyval list \<Rightarrow> string"
  and enc_items :: "(string \<times> pyval) list \<Rightarrow> string" where
  "enc PNone = ''null''"
| "enc (PBool b) = (if b then ''true'' else ''false'')"
| "enc (PInt i) = int_digits i"
| "enc (PStr s) = enc_str s"
| "enc (PList vs) = CHR ''['' # enc_list vs @ '']''"
| "enc (PDict d) = CHR ''{'' # enc_items d @ ''}''"
| "enc (POther t) = []"
| "enc_list [] = []"
| "enc_list [v] = enc v"
| "enc_list (v # w # vs) = enc v @ CHR '','' # enc_list (w # vs)"
| "enc_items [] = []"
| "enc_items [(k, v)] = enc_str k @ CHR '':'' # enc v"
| "enc_items ((k, v) # p # d) = enc_str k @ CHR '':'' # enc v @ CHR '','' # enc_items (p # d)"

text \<open>What \<open>json.dumps\<close> followed by a strict \<open>encode\<close> can serialize.\<close>

fun json_able :: "pyval \<Rightarrow> bool" and json_able_list :: "pyval list \<Rightarrow> bool"
  and json_able_items :: "(string \<times> pyval) list \<Rightarrow> bool" where
  "json_able (PStr s) = utf8_valid s"
| "json_able (PList vs) = json_able_list vs"
| "json_able (PDict d) = json_able_items d"
| "json_able (POther t) = False"
| "json_able v = True"
| "json_able_list [] = True"
| "json_able_list (v # vs) = (json_able v \<and> json_able_list vs)"
| "json_able_items [] = True"
| "json_able_items ((k, v) # d) = (utf8_valid k \<and> json_able v \<and> json_able_items d)"

definition canonical_json :: "pyval \<Rightarrow> string result" where
  "canonical_json value =
     (if json_able value then Inr (enc (sort_json value))
      else Inl (Research_Record_Error ''MALFORMED_JSON'' []))"

section \<open>Decoder\<close>

text \<open>
  \<open>object_pairs_hook\<close>, \<open>parse_int\<close> and \<open>parse_float\<close> (on the digits of the literal read as one
  number, and its power of ten); a hook that raises gives \<open>None\<close>. Every non-finite constant is
  refused (\<open>parse_constant\<close>).
\<close>

record json_hooks =
  object_hook :: "(string \<times> pyval) list \<Rightarrow> (string \<times> pyval) list option"
  int_hook :: "int \<Rightarrow> int option"
  float_hook :: "nat \<Rightarrow> int \<Rightarrow> pyval option"

definition is_space :: "char \<Rightarrow> bool" where
  "is_space c \<longleftrightarrow> cc c = 32 \<or> cc c = 9 \<or> cc c = 10 \<or> cc c = 13"

definition skip_ws :: "string \<Rightarrow> string" where
  "skip_ws s = dropWhile is_space s"

definition hex_value :: "char \<Rightarrow> nat option" where
  "hex_value c =
     (if is_digit c then Some (cc c - 48)
      else if 97 \<le> cc c \<and> cc c \<le> 102 then Some (cc c - 87)
      else if 65 \<le> cc c \<and> cc c \<le> 70 then Some (cc c - 55)
      else None)"

definition hex4 :: "char \<Rightarrow> char \<Rightarrow> char \<Rightarrow> char \<Rightarrow> nat option" where
  "hex4 a b c d = (case (hex_value a, hex_value b, hex_value c, hex_value d) of
      (Some p, Some q, Some r, Some t) \<Rightarrow> Some (((p * 16 + q) * 16 + r) * 16 + t)
    | _ \<Rightarrow> None)"

text \<open>The UTF-8 form of a code point (a surrogate in its three-byte form).\<close>

definition utf8_of_point :: "nat \<Rightarrow> string" where
  "utf8_of_point n =
     (if n < 128 then [char_of n]
      else if n < 2048 then [char_of (192 + n div 64), char_of (128 + n mod 64)]
      else if n < 65536
        then [char_of (224 + n div 4096), char_of (128 + n div 64 mod 64), char_of (128 + n mod 64)]
      else [char_of (240 + n div 262144), char_of (128 + n div 4096 mod 64),
            char_of (128 + n div 64 mod 64), char_of (128 + n mod 64)])"

definition simple_escape :: "char \<Rightarrow> char option" where
  "simple_escape e =
     (if cc e = 34 \<or> cc e = 92 \<or> cc e = 47 then Some e
      else if e = CHR ''b'' then Some (char_of (8::nat))
      else if e = CHR ''f'' then Some (char_of (12::nat))
      else if e = CHR ''n'' then Some (char_of (10::nat))
      else if e = CHR ''r'' then Some (char_of (13::nat))
      else if e = CHR ''t'' then Some (char_of (9::nat))
      else None)"

text \<open>After \<open>\u\<close>: the text of the escape (a surrogate pair joined) and what follows it.\<close>

definition unicode_escape :: "string \<Rightarrow> (string \<times> string) option" where
  "unicode_escape s = (case s of
      a # b # c # d # r \<Rightarrow> (case hex4 a b c d of
          None \<Rightarrow> None
        | Some n \<Rightarrow>
            if 55296 \<le> n \<and> n < 56320 then (case r of
                x # u # a' # b' # c' # d' # r' \<Rightarrow>
                  if cc x = 92 \<and> u = CHR ''u'' then (case hex4 a' b' c' d' of
                      None \<Rightarrow> None
                    | Some m \<Rightarrow>
                        if 56320 \<le> m \<and> m < 57344
                        then Some (utf8_of_point (65536 + (n - 55296) * 1024 + (m - 56320)), r')
                        else Some (utf8_of_point n, r))
                  else Some (utf8_of_point n, r)
              | _ \<Rightarrow> Some (utf8_of_point n, r))
            else Some (utf8_of_point n, r))
    | _ \<Rightarrow> None)"

lemma unicode_escape_shorter: "unicode_escape s = Some (t, r) \<Longrightarrow> length r < length s"
  by (auto simp: unicode_escape_def split: list.splits option.splits if_splits)

text \<open>The rest of a string literal after its opening quote.\<close>

function parse_str :: "string \<Rightarrow> (string \<times> string) option" where
  "parse_str s = (case s of
      [] \<Rightarrow> None
    | c # r \<Rightarrow>
        if cc c = 34 then Some ([], r)
        else if cc c = 92 then (case r of
            [] \<Rightarrow> None
          | e # r' \<Rightarrow>
              if e = CHR ''u'' then (case unicode_escape r' of
                  None \<Rightarrow> None
                | Some (t, r'') \<Rightarrow> (case parse_str r'' of
                      None \<Rightarrow> None | Some (u, q) \<Rightarrow> Some (t @ u, q)))
              else (case simple_escape e of
                  None \<Rightarrow> None
                | Some x \<Rightarrow> (case parse_str r' of
                      None \<Rightarrow> None | Some (u, q) \<Rightarrow> Some (x # u, q))))
        else if cc c < 32 then None
        else (case parse_str r of None \<Rightarrow> None | Some (u, q) \<Rightarrow> Some (c # u, q)))"
  by pat_completeness auto
termination
  by (relation "measure length") (auto dest!: unicode_escape_shorter)

declare parse_str.simps [simp del]

fun parse_digits :: "nat \<Rightarrow> string \<Rightarrow> nat \<times> string" where
  "parse_digits n [] = (n, [])"
| "parse_digits n (c # s) =
     (if is_digit c then parse_digits (10 * n + (cc c - 48)) s else (n, c # s))"

text \<open>An unsigned integer: a single zero, or digits that start with another one. A fraction or an
  exponent would make the number a float.\<close>

definition parse_nat :: "string \<Rightarrow> (nat \<times> string) option" where
  "parse_nat s = (case s of
      [] \<Rightarrow> None
    | c # r \<Rightarrow>
        if \<not> is_digit c then None
        else let (n, q) = (if c = CHR ''0'' then (0, r) else parse_digits 0 s)
             in if q \<noteq> [] \<and> hd q \<in> set ''.eE'' then None else Some (n, q))"

definition parse_int :: "(int \<Rightarrow> int option) \<Rightarrow> string \<Rightarrow> (pyval \<times> string) option" where
  "parse_int hook s =
     (let (neg, r) = (if s \<noteq> [] \<and> hd s = CHR ''-'' then (True, tl s) else (False, s))
      in case parse_nat r of
           None \<Rightarrow> None
         | Some (n, q) \<Rightarrow> (case hook (if neg then - int n else int n) of
               None \<Rightarrow> None | Some i \<Rightarrow> Some (PInt i, q)))"

text \<open>A literal with a fraction or an exponent: the number before \<open>.eE\<close> as above, then \<open>.\<close> and digits,
  then \<open>e\<close>, a sign and digits; each part only if it has digits. A sign does not matter to the hook.\<close>

definition exponent_sign :: "string \<Rightarrow> bool \<times> string" where
  "exponent_sign s = (case s of
      [] \<Rightarrow> (False, [])
    | c # r \<Rightarrow> if c = CHR ''-'' then (True, r) else if c = CHR ''+'' then (False, r) else (False, s))"

definition scan_whole :: "string \<Rightarrow> string \<times> string" where
  "scan_whole s =
     (if s \<noteq> [] \<and> hd s = CHR ''0'' then ([hd s], tl s) else (takeWhile is_digit s, dropWhile is_digit s))"

definition scan_fraction :: "string \<Rightarrow> string \<times> string" where
  "scan_fraction s =
     (if s \<noteq> [] \<and> hd s = CHR ''.'' \<and> takeWhile is_digit (tl s) \<noteq> []
      then (takeWhile is_digit (tl s), dropWhile is_digit (tl s)) else ([], s))"

definition scan_exponent :: "string \<Rightarrow> bool \<times> string \<times> string" where
  "scan_exponent s =
     (let (negative, e) = exponent_sign (tl s)
      in if s \<noteq> [] \<and> hd s \<in> set ''eE'' \<and> takeWhile is_digit e \<noteq> []
         then (negative, takeWhile is_digit e, dropWhile is_digit e) else (False, [], s))"

definition parse_float :: "(nat \<Rightarrow> int \<Rightarrow> pyval option) \<Rightarrow> string \<Rightarrow> (pyval \<times> string) option" where
  "parse_float hook s =
     (let (whole, q) = scan_whole (if s \<noteq> [] \<and> hd s = CHR ''-'' then tl s else s);
          (fraction, q) = scan_fraction q;
          (negative, exponent, q) = scan_exponent q;
          power = int (fst (parse_digits 0 exponent))
      in if whole = [] \<or> fraction = [] \<and> exponent = [] then None
         else map_option (\<lambda>v. (v, q)) (hook (fst (parse_digits 0 (whole @ fraction)))
                ((if negative then - power else power) - int (length fraction))))"

definition parse_number :: "json_hooks \<Rightarrow> string \<Rightarrow> (pyval \<times> string) option" where
  "parse_number h s = (case parse_int (int_hook h) s of
      Some x \<Rightarrow> Some x
    | None \<Rightarrow> parse_float (float_hook h) s)"

definition strip_word :: "string \<Rightarrow> string \<Rightarrow> string option" where
  "strip_word w s = (if take (length w) s = w then Some (drop (length w) s) else None)"

fun parse_value :: "json_hooks \<Rightarrow> nat \<Rightarrow> string \<Rightarrow> (pyval \<times> string) option"
  and parse_elements :: "json_hooks \<Rightarrow> nat \<Rightarrow> string \<Rightarrow> (pyval list \<times> string) option"
  and parse_members :: "json_hooks \<Rightarrow> nat \<Rightarrow> string \<Rightarrow> ((string \<times> pyval) list \<times> string) option"
where
  "parse_value h 0 s = None"
| "parse_value h (Suc n) s = (case s of
      [] \<Rightarrow> None
    | c # r \<Rightarrow>
        if c = CHR 0x22 then map_option (\<lambda>(t, q). (PStr t, q)) (parse_str r)
        else if c = CHR ''['' then
          (case skip_ws r of
             [] \<Rightarrow> None
           | x # q \<Rightarrow>
               if x = CHR '']'' then Some (PList [], q)
               else map_option (\<lambda>(vs, q). (PList vs, q)) (parse_elements h n (x # q)))
        else if c = CHR ''{'' then
          (case skip_ws r of
             [] \<Rightarrow> None
           | x # q \<Rightarrow>
               if x = CHR ''}'' then map_option (\<lambda>d. (PDict d, q)) (object_hook h [])
               else (case parse_members h n (x # q) of
                   None \<Rightarrow> None
                 | Some (d, q) \<Rightarrow> map_option (\<lambda>d'. (PDict d', q)) (object_hook h d)))
        else if c = CHR ''n'' then map_option (\<lambda>q. (PNone, q)) (strip_word ''null'' s)
        else if c = CHR ''t'' then map_option (\<lambda>q. (PBool True, q)) (strip_word ''true'' s)
        else if c = CHR ''f'' then map_option (\<lambda>q. (PBool False, q)) (strip_word ''false'' s)
        else parse_number h s)"
| "parse_elements h 0 s = None"
| "parse_elements h (Suc n) s = (case parse_value h n s of
      None \<Rightarrow> None
    | Some (v, r) \<Rightarrow> (case skip_ws r of
          [] \<Rightarrow> None
        | c # q \<Rightarrow>
            if c = CHR '']'' then Some ([v], q)
            else if c = CHR '','' then
              (case parse_elements h n (skip_ws q) of
                 None \<Rightarrow> None | Some (vs, q') \<Rightarrow> Some (v # vs, q'))
            else None))"
| "parse_members h 0 s = None"
| "parse_members h (Suc n) s = (case s of
      [] \<Rightarrow> None
    | c # r \<Rightarrow>
        if c \<noteq> CHR 0x22 then None
        else (case parse_str r of
            None \<Rightarrow> None
          | Some (k, r1) \<Rightarrow> (case skip_ws r1 of
                [] \<Rightarrow> None
              | x # r2 \<Rightarrow>
                  if x \<noteq> CHR '':'' then None
                  else (case parse_value h n (skip_ws r2) of
                      None \<Rightarrow> None
                    | Some (v, r3) \<Rightarrow> (case skip_ws r3 of
                          [] \<Rightarrow> None
                        | y # q \<Rightarrow>
                            if y = CHR ''}'' then Some ([(k, v)], q)
                            else if y = CHR '','' then
                              (case parse_members h n (skip_ws q) of
                                 None \<Rightarrow> None
                               | Some (d, q') \<Rightarrow> Some ((k, v) # d, q'))
                            else None)))))"

text \<open>Every call that spends fuel without reading a character is followed by one that reads, so
  twice the length of the input is enough (\<open>parse_enough\<close> in \<open>Json_Roundtrip\<close>).\<close>

definition json_loads :: "json_hooks \<Rightarrow> string \<Rightarrow> pyval option" where
  "json_loads h s = (case parse_value h (Suc (2 * length s)) (skip_ws s) of
      Some (v, r) \<Rightarrow> if skip_ws r = [] then Some v else None
    | None \<Rightarrow> None)"

text \<open>
  Without hooks: integers as they are, the last of two equal keys wins. The code applies it only to
  the canonical bytes of a validated payload, which hold no floating-point number.
\<close>

definition plain_hooks :: json_hooks where
  "plain_hooks = \<lparr>object_hook = (\<lambda>d. Some (fold (\<lambda>(k, v). AList.update k v) d [])),
                  int_hook = Some, float_hook = (\<lambda>_ _. None)\<rparr>"

section \<open>The strict decoder of \<open>records.py\<close>\<close>

definition MAXIMUM_RECORD_BYTES :: nat where
  "MAXIMUM_RECORD_BYTES = 65536"

definition MAXIMUM_INTEGER :: int where
  "MAXIMUM_INTEGER = 2 ^ 63 - 1"

fun duplicate_rejecting_object ::
  "(string \<times> pyval) list \<Rightarrow> (string \<times> pyval) list \<Rightarrow> (string \<times> pyval) list option" where
  "duplicate_rejecting_object result [] = Some result"
| "duplicate_rejecting_object result ((key, value) # pairs) =
     (if key \<in> set (keys result) then None
      else duplicate_rejecting_object (result @ [(key, value)]) pairs)"

definition parse_bounded_integer :: "int \<Rightarrow> int option" where
  "parse_bounded_integer value =
     (if - MAXIMUM_INTEGER \<le> value \<and> value \<le> MAXIMUM_INTEGER then Some value else None)"

definition strict_hooks :: json_hooks where
  "strict_hooks = \<lparr>object_hook = duplicate_rejecting_object [],
                   int_hook = parse_bounded_integer, float_hook = (\<lambda>_ _. None)\<rparr>"

definition strict_json :: "string \<Rightarrow> pyval result" where
  "strict_json raw =
     (if raw = [] \<or> MAXIMUM_RECORD_BYTES < length raw
      then Inl (Research_Record_Error ''RECORD_SIZE_INVALID'' [])
      else if \<not> utf8_valid raw then Inl (Research_Record_Error ''MALFORMED_JSON'' [])
      else (case json_loads strict_hooks raw of
          None \<Rightarrow> Inl (Research_Record_Error ''MALFORMED_JSON'' [])
        | Some value \<Rightarrow> rbind (canonical_json value) (\<lambda>encoded.
            if encoded \<noteq> raw then Inl (Research_Record_Error ''NONCANONICAL_JSON'' [])
            else Inr value)))"

end
