(* ===== verification/Json_Roundtrip.thy ===== *)
theory Json_Roundtrip
  imports Json
begin

text \<open>
  The decoder inverts the serializer. The locale \<open>json_decoder\<close> states what a decoder's hooks must
  promise (distinct keys are kept, the integers of the value are kept); both hook sets of the code,
  the strict ones of \<open>strict_json\<close> and the empty ones of a plain \<open>json.loads\<close>, are
  interpretations of it.
\<close>

section \<open>Strings\<close>

lemma char_of_cc [simp]: "char_of (cc c) = c"
  by (simp add: cc_def)

lemma cc_eqD: "cc c = n \<Longrightarrow> c = char_of n"
  by auto

lemma cc_eq_iff: "cc c = cc d \<longleftrightarrow> c = d"
  by (metis char_of_cc)

lemma cc_less [simp]: "cc c < 256"
  by (simp add: cc_def)

lemma hex_value_digit: "n < 16 \<Longrightarrow> hex_value (hex_digit n) = Some n"
  by (simp add: hex_value_def hex_digit_def is_digit_def cc_char_of)

lemma cc_code: "cc CHR 0x5C = 92" "cc CHR 0x22 = 34" "cc CHR ''0'' = 48" "cc CHR '','' = 44" 
  "cc CHR '']'' = 93" "cc CHR ''}'' = 125" "cc CHR '':'' = 58" "cc CHR ''b'' = 98" "cc CHR ''f'' = 102"
  "cc CHR ''n'' = 110" "cc CHR ''r'' = 114" "cc CHR ''t'' = 116" "cc CHR ''u'' = 117"
  "cc CHR ''{'' = 123" "cc CHR ''['' = 91" "cc CHR ''-'' = 45"
  by (simp_all add: cc_def)

lemma unicode_escape_control:
  assumes "cc c < 32"
  shows "unicode_escape (CHR ''0'' # CHR ''0'' # hex_digit (cc c div 16) # hex_digit (cc c mod 16) # t)
         = Some ([c], t)"
proof -
  have h0: "hex_value CHR ''0'' = Some 0" by (simp add: hex_value_def is_digit_def cc_code)
  have "hex_value (hex_digit (cc c div 16)) = Some (cc c div 16)"
       "hex_value (hex_digit (cc c mod 16)) = Some (cc c mod 16)"
    using assms by (simp_all add: hex_value_digit)
  then have "hex4 CHR ''0'' CHR ''0'' (hex_digit (cc c div 16)) (hex_digit (cc c mod 16)) = Some (cc c)"
    by (simp add: hex4_def h0)
  with assms show ?thesis by (simp add: unicode_escape_def utf8_of_point_def)
qed

lemma simple_escape_code:
  "simple_escape CHR ''b'' = Some (char_of (8::nat))" "simple_escape CHR ''t'' = Some (char_of (9::nat))"
  "simple_escape CHR ''n'' = Some (char_of (10::nat))" "simple_escape CHR ''f'' = Some (char_of (12::nat))"
  "simple_escape CHR ''r'' = Some (char_of (13::nat))"
  by (simp_all add: simple_escape_def cc_code)

lemma parse_str_simple:
  assumes "simple_escape e = Some x" "e \<noteq> CHR ''u''"
  shows "parse_str (CHR 0x5C # e # t) = map_option (\<lambda>(u, q). (x # u, q)) (parse_str t)"
  using assms by (auto simp: parse_str.simps [of "CHR 0x5C # e # t"] cc_code split: option.splits)

lemma parse_str_esc_char:
  "parse_str (esc_char c @ t) = map_option (\<lambda>(u, q). (c # u, q)) (parse_str t)"
proof -
  consider (quote) "cc c = 34 \<or> cc c = 92" | (named) n where "cc c = n" "n \<in> {8, 9, 10, 12, 13}"
    | (control) "cc c < 32" "cc c \<notin> {8, 9, 10, 12, 13}" | (plain) "32 \<le> cc c" "cc c \<noteq> 34" "cc c \<noteq> 92"
    by fastforce
  then show ?thesis
  proof cases
    case quote
    then have "simple_escape c = Some c" "c \<noteq> CHR ''u''"
      by (auto simp: simple_escape_def cc_code)
    with quote show ?thesis
      by (auto simp: esc_char_def parse_str_simple)
  next
    case named
    then have "c = char_of n" by (simp add: cc_eqD)
    with named show ?thesis
      by (auto simp: esc_char_def parse_str_simple simple_escape_code cc_char_of)
  next
    case control
    then show ?thesis
      by (auto simp: esc_char_def parse_str.simps [of "CHR 0x5C # r" for r] cc_code
          unicode_escape_control split: option.splits)
  next
    case plain
    then show ?thesis
      by (auto simp: esc_char_def parse_str.simps [of "c # r" for r] split: option.splits)
  qed
qed

lemma parse_str_enc: "parse_str (concat (map esc_char s) @ CHR 0x22 # t) = Some (s, t)"
proof (induction s)
  case Nil
  then show ?case by (simp add: parse_str.simps cc_code)
next
  case (Cons c s)
  then show ?case by (simp add: parse_str_esc_char)
qed

section \<open>Numbers\<close>

lemma parse_digits_append:
  "list_all is_digit s \<Longrightarrow> (t = [] \<or> \<not> is_digit (hd t)) \<Longrightarrow>
   parse_digits n (s @ t) = (foldl (\<lambda>a c. 10 * a + (cc c - 48)) n s, t)"
proof (induction s arbitrary: n)
  case Nil
  then show ?case by (cases t) auto
qed simp

lemma foldl_nat_digits: "foldl (\<lambda>a c. 10 * a + (cc c - 48)) 0 (nat_digits n) = n"
proof (induction n rule: nat_digits.induct)
  case (1 n)
  show ?case
  proof (cases "n < 10")
    case True
    then show ?thesis by (subst nat_digits.simps) (simp add: cc_char_of)
  next
    case False
    moreover have "cc (char_of (48 + n mod 10)) = 48 + n mod 10"
      by (rule cc_char_of) (simp add: less_le_trans [of _ 10])
    ultimately show ?thesis using 1 by (subst nat_digits.simps) simp
  qed
qed

definition delim :: "string \<Rightarrow> bool" where
  "delim t \<longleftrightarrow> t = [] \<or> hd t \<in> {CHR '','', CHR '']'', CHR ''}''}"

lemma delim_simps [simp]: "delim []" "delim (CHR '','' # t)" "delim (CHR '']'' # t)"
  "delim (CHR ''}'' # t)"
  by (simp_all add: delim_def)

lemma delim_not_digit: "delim t \<Longrightarrow> t = [] \<or> \<not> is_digit (hd t)"
  by (auto simp: delim_def is_digit_def cc_code)

lemma delim_not_float: "delim t \<Longrightarrow> t \<noteq> [] \<Longrightarrow> hd t \<notin> set ''.eE''"
  by (auto simp: delim_def)

lemma parse_nat_enc:
  assumes "delim t" shows "parse_nat (nat_digits n @ t) = Some (n, t)"
proof (cases "n = 0")
  case True
  with assms show ?thesis
    using delim_not_float [OF assms] by (cases t) (auto simp: parse_nat_def nat_digits_0 is_digit_def cc_code)
next
  case False
  then have "49 \<le> cc (hd (nat_digits n))" "cc (hd (nat_digits n)) \<le> 57"
    using nat_digits_hd [of n] by simp_all
  moreover obtain c s where cs: "nat_digits n = c # s" by (cases "nat_digits n") auto
  ultimately have c: "is_digit c" "c \<noteq> CHR ''0''"
    by (auto simp: is_digit_def cc_code)
  have "parse_digits 0 (nat_digits n @ t) = (n, t)"
    using parse_digits_append [OF nat_digits_is_digit delim_not_digit [OF assms]]
    by (simp add: foldl_nat_digits)
  with c cs delim_not_float [OF assms] show ?thesis
    by (auto simp: parse_nat_def)
qed

lemma nat_digits_hd_digit: "is_digit (hd (nat_digits n))"
  using nat_digits_is_digit [of n] by (cases "nat_digits n") auto

lemma parse_int_enc:
  assumes "delim t" "hook i = Some i" shows "parse_int hook (int_digits i @ t) = Some (PInt i, t)"
proof (cases "i < 0")
  case True
  with assms show ?thesis by (simp add: parse_int_def int_digits_def parse_nat_enc)
next
  case False
  moreover have "hd (nat_digits (nat i) @ t) \<noteq> CHR ''-''"
    using nat_digits_hd_digit [of "nat i"] by (auto simp: is_digit_def cc_code)
  ultimately show ?thesis using assms by (simp add: parse_int_def int_digits_def parse_nat_enc)
qed

section \<open>Values\<close>

text \<open>Values as the serializer and the decoder both know them: dictionary keys distinct, integers
  that the decoder's hook keeps, no foreign object.\<close>

fun json_wf :: "(int \<Rightarrow> bool) \<Rightarrow> pyval \<Rightarrow> bool" and json_wf_list :: "(int \<Rightarrow> bool) \<Rightarrow> pyval list \<Rightarrow> bool"
  and json_wf_items :: "(int \<Rightarrow> bool) \<Rightarrow> (string \<times> pyval) list \<Rightarrow> bool" where
  "json_wf ok (PInt i) = ok i"
| "json_wf ok (PList vs) = json_wf_list ok vs"
| "json_wf ok (PDict d) = (distinct (keys d) \<and> json_wf_items ok d)"
| "json_wf ok (POther t) = False"
| "json_wf ok v = True"
| "json_wf_list ok [] = True"
| "json_wf_list ok (v # vs) = (json_wf ok v \<and> json_wf_list ok vs)"
| "json_wf_items ok [] = True"
| "json_wf_items ok ((k, v) # d) = (json_wf ok v \<and> json_wf_items ok d)"

lemma skip_ws_cons [simp]: "\<not> is_space c \<Longrightarrow> skip_ws (c # s) = c # s"
  by (simp add: skip_ws_def)

lemma not_space_code [simp]:
  "\<not> is_space CHR 0x22" "\<not> is_space CHR '',''" "\<not> is_space CHR '']''" "\<not> is_space CHR ''}''"
  "\<not> is_space CHR '':''" "\<not> is_space CHR ''{''" "\<not> is_space CHR ''[''" "\<not> is_space CHR ''-''"
  "\<not> is_space CHR ''n''" "\<not> is_space CHR ''t''" "\<not> is_space CHR ''f''"
  by (simp_all add: is_space_def cc_code)

lemma not_space_digit: "is_digit c \<Longrightarrow> \<not> is_space c"
  by (auto simp: is_space_def is_digit_def)

lemma int_digits_hd: "\<exists>c r. int_digits i = c # r \<and> (c = CHR ''-'' \<or> is_digit c)"
proof (cases "i < 0")
  case False
  then show ?thesis
    using nat_digits_hd_digit [of "nat i"] by (cases "nat_digits (nat i)") (auto simp: int_digits_def)
qed (simp add: int_digits_def)

lemma enc_hd: "json_wf ok v \<Longrightarrow> \<exists>c r. enc v = c # r \<and> \<not> is_space c \<and> c \<noteq> CHR '']''"
proof (cases v)
  case (PInt i)
  then show ?thesis
    using int_digits_hd [of i] by (auto simp: not_space_digit is_digit_def cc_code dest: not_space_digit)
qed (auto simp: enc_str_def)

lemma skip_ws_enc: "json_wf ok v \<Longrightarrow> skip_ws (enc v @ t) = enc v @ t"
  using enc_hd [of ok v] by auto

lemma enc_list_hd: "json_wf_list ok (v # vs) \<Longrightarrow> \<exists>c r. enc_list (v # vs) = c # r \<and> \<not> is_space c \<and> c \<noteq> CHR '']''"
  using enc_hd [of ok v] by (cases vs) auto

lemma enc_items_hd: "\<exists>r. enc_items (p # d) = CHR 0x22 # r"
  by (cases p; cases d) (auto simp: enc_str_def)

lemma strip_word_append: "strip_word w (w @ t) = Some t"
  by (simp add: strip_word_def)

lemma strip_words:
  "strip_word ''null'' (CHR ''n'' # CHR ''u'' # CHR ''l'' # CHR ''l'' # t) = Some t"
  "strip_word ''true'' (CHR ''t'' # CHR ''r'' # CHR ''u'' # CHR ''e'' # t) = Some t"
  "strip_word ''false'' (CHR ''f'' # CHR ''a'' # CHR ''l'' # CHR ''s'' # CHR ''e'' # t) = Some t"
  by (simp_all add: strip_word_def)

lemma digit_not_special:
  "is_digit c \<Longrightarrow> c \<notin> {CHR 0x22, CHR ''['', CHR ''{'', CHR ''n'', CHR ''t'', CHR ''f''}"
  by (auto simp: is_digit_def cc_code)

lemma parse_value_int:
  assumes "delim t" "int_hook h i = Some i"
  shows "parse_value h (Suc n) (int_digits i @ t) = Some (PInt i, t)"
proof -
  obtain c r where "int_digits i = c # r" "c = CHR ''-'' \<or> is_digit c"
    using int_digits_hd by blast
  with parse_int_enc [OF assms(1), of "int_hook h" i] assms(2) digit_not_special [of c] show ?thesis
    by (auto simp: parse_number_def)
qed

locale json_decoder =
  fixes h :: json_hooks and int_ok :: "int \<Rightarrow> bool"
  assumes object_hook_distinct: "distinct (keys d) \<Longrightarrow> object_hook h d = Some d"
    and int_hook_ok: "int_ok i \<Longrightarrow> int_hook h i = Some i"
begin

lemma parse_enc:
  "json_wf int_ok v \<Longrightarrow> length (enc v) < n \<Longrightarrow> delim t \<Longrightarrow>
     parse_value h n (enc v @ t) = Some (v, t)"
  "json_wf_list int_ok vs \<Longrightarrow> vs \<noteq> [] \<Longrightarrow> Suc (length (enc_list vs)) < n \<Longrightarrow>
     parse_elements h n (enc_list vs @ CHR '']'' # t) = Some (vs, t)"
  "json_wf_items int_ok d \<Longrightarrow> d \<noteq> [] \<Longrightarrow> Suc (length (enc_items d)) < n \<Longrightarrow>
     parse_members h n (enc_items d @ CHR ''}'' # t) = Some (d, t)"
proof (induction v and vs and d arbitrary: n t and n t and n t rule: enc_enc_list_enc_items.induct)
  case 1
  then show ?case by (cases n) (simp_all add: strip_words)
next
  case (2 b)
  then show ?case by (cases n) (auto simp: strip_words)
next
  case (3 i)
  then obtain m where "n = Suc m" by (cases n) auto
  with 3 show ?case by (simp del: parse_value.simps add: parse_value_int int_hook_ok)
next
  case (4 s)
  then show ?case by (cases n) (simp_all add: enc_str_def parse_str_enc)
next
  case (5 vs)
  then obtain m where n: "n = Suc m" by (cases n) auto
  show ?case
  proof (cases vs)
    case Nil
    with n show ?thesis by simp
  next
    case (Cons w ws)
    with 5 n obtain c r where "enc_list vs = c # r" "\<not> is_space c" "c \<noteq> CHR '']''"
      using enc_list_hd [of int_ok w ws] by auto
    with 5 n Cons show ?thesis by simp
  qed
next
  case (6 d)
  then obtain m where n: "n = Suc m" by (cases n) auto
  show ?case
  proof (cases d)
    case Nil
    with n show ?thesis using object_hook_distinct [of "[]"] by simp
  next
    case (Cons p ps)
    with 6 n obtain r where "enc_items d = CHR 0x22 # r"
      using enc_items_hd by blast
    with 6 n Cons show ?thesis using object_hook_distinct [of d] by simp
  qed
next
  case (7 t)
  then show ?case by simp
next
  case 8
  then show ?case by simp
next
  case (9 v)
  then show ?case by (cases n) simp_all
next
  case (10 v w vs)
  then obtain m where n: "n = Suc m" by (cases n) auto
  from 10 n have "parse_value h m (enc v @ CHR '','' # enc_list (w # vs) @ CHR '']'' # t)
      = Some (v, CHR '','' # enc_list (w # vs) @ CHR '']'' # t)" by simp
  moreover have "parse_elements h m (enc_list (w # vs) @ CHR '']'' # t) = Some (w # vs, t)"
    using 10 n by simp
  moreover have "skip_ws (enc_list (w # vs) @ CHR '']'' # t) = enc_list (w # vs) @ CHR '']'' # t"
    using enc_list_hd [of int_ok w vs] "10.prems" by auto
  ultimately show ?case using n by simp
next
  case 11
  then show ?case by simp
next
  case (12 k v)
  then obtain m where n: "n = Suc m" by (cases n) auto
  with 12 have "parse_value h m (enc v @ CHR ''}'' # t) = Some (v, CHR ''}'' # t)" by simp
  with n 12 show ?case by (simp add: enc_str_def parse_str_enc skip_ws_enc [of int_ok])
next
  case (13 k v p d)
  then obtain m where n: "n = Suc m" by (cases n) auto
  from 13 n have "parse_value h m (enc v @ CHR '','' # enc_items (p # d) @ CHR ''}'' # t)
      = Some (v, CHR '','' # enc_items (p # d) @ CHR ''}'' # t)" by (simp add: enc_str_def)
  moreover have "parse_members h m (enc_items (p # d) @ CHR ''}'' # t) = Some (p # d, t)"
    using 13 n by (simp add: enc_str_def)
  moreover obtain r where "enc_items (p # d) = CHR 0x22 # r"
    using enc_items_hd by blast
  ultimately show ?case using n 13
    by (simp add: enc_str_def parse_str_enc skip_ws_enc [of int_ok])
qed

lemma loads_enc: "json_wf int_ok v \<Longrightarrow> json_loads h (enc v) = Some v"
  using parse_enc(1) [of v "Suc (2 * length (enc v))" "[]"] skip_ws_enc [of int_ok v "[]"]
  by (simp add: json_loads_def skip_ws_def)

end

lemma duplicate_rejecting_distinct:
  "distinct (keys (r @ d)) \<Longrightarrow> duplicate_rejecting_object r d = Some (r @ d)"
proof (induction r d rule: duplicate_rejecting_object.induct)
  case (2 result key v pairs)
  then show ?case by (auto simp: keys_def)
qed simp

lemma fold_update_distinct:
  "distinct (keys (r @ d)) \<Longrightarrow> fold (\<lambda>(k, v). AList.update k v) d r = r @ d"
proof (induction d arbitrary: r)
  case (Cons p d)
  obtain k v where p: "p = (k, v)" by (cases p)
  with Cons.prems have "k \<notin> fst ` set r" by (auto simp: keys_def)
  then have "AList.update k v r = r @ [(k, v)]"
    by (induction r) auto
  with Cons p show ?case by (simp add: keys_def)
qed simp

interpretation strict: json_decoder strict_hooks "\<lambda>i. - MAXIMUM_INTEGER \<le> i \<and> i \<le> MAXIMUM_INTEGER"
  by unfold_locales
    (simp_all add: strict_hooks_def parse_bounded_integer_def duplicate_rejecting_distinct [of "[]", simplified])

interpretation plain: json_decoder plain_hooks "\<lambda>i. True"
  by unfold_locales (simp_all add: plain_hooks_def fold_update_distinct [of "[]", simplified])

section \<open>Key order\<close>

lemma sort_json_list_map: "sort_json_list vs = map sort_json vs"
  by (induction vs) simp_all

lemma sort_json_items_map: "sort_json_items d = map (\<lambda>(k, v). (k, sort_json v)) d"
  by (induction d) auto

lemma json_wf_list_iff: "json_wf_list ok vs \<longleftrightarrow> (\<forall>v \<in> set vs. json_wf ok v)"
  by (induction vs) simp_all

lemma json_wf_items_iff: "json_wf_items ok d \<longleftrightarrow> (\<forall>p \<in> set d. json_wf ok (snd p))"
  by (induction d) auto

lemma json_able_list_iff: "json_able_list vs \<longleftrightarrow> (\<forall>v \<in> set vs. json_able v)"
  by (induction vs) simp_all

lemma json_able_items_iff: "json_able_items d \<longleftrightarrow> (\<forall>p \<in> set d. utf8_valid (fst p) \<and> json_able (snd p))"
  by (induction d) auto

lemma keys_sort_json_items [simp]: "keys (sort_json_items d) = keys d"
  by (induction d) auto

lemma distinct_keys_sort_key [simp]: "distinct (keys (sort_key fst d)) = distinct (keys d)"
  by (simp add: keys_def distinct_map_sort_key)

lemma set_keys_sort_key [simp]: "set (keys (sort_key fst d)) = set (keys d)"
  by (simp add: keys_def)

lemma json_wf_sort_json:
  "json_wf ok (sort_json v) = json_wf ok v"
  "json_wf_list ok (sort_json_list vs) = json_wf_list ok vs"
  "json_wf_items ok (sort_json_items d) = json_wf_items ok d"
  by (induction v and vs and d rule: sort_json_sort_json_list_sort_json_items.induct)
    (simp_all add: json_wf_items_iff)

lemma json_able_sort_json:
  "json_able (sort_json v) = json_able v"
  "json_able_list (sort_json_list vs) = json_able_list vs"
  "json_able_items (sort_json_items d) = json_able_items d"
  by (induction v and vs and d rule: sort_json_sort_json_list_sort_json_items.induct)
    (simp_all add: json_able_items_iff)

lemma sort_key_map_snd:
  "sort_key fst (map (\<lambda>(k, v). (k, f v)) d) = map (\<lambda>(k, v). (k, f v)) (sort_key fst d)"
proof (induction d)
  case (Cons p d)
  have "insort_key fst (k, f v) (map (\<lambda>(k, v). (k, f v)) xs)
      = map (\<lambda>(k, v). (k, f v)) (insort_key fst (k, v) xs)" for k v xs
    by (induction xs) auto
  with Cons show ?case by (cases p) simp
qed simp

lemma sort_key_sort_key: "sort_key f (sort_key f xs) = sort_key f xs"
  by (rule sort_key_sorted_id) (rule sorted_sort_key)

lemma sort_json_items_sort_key:
  "sort_json_items (sort_key fst d) = sort_key fst (sort_json_items d)"
  by (simp add: sort_json_items_map sort_key_map_snd)

lemma sort_json_idem:
  "sort_json (sort_json v) = sort_json v"
  "sort_json_list (sort_json_list vs) = sort_json_list vs"
  "sort_json_items (sort_json_items d) = sort_json_items d"
  by (induction v and vs and d rule: sort_json_sort_json_list_sort_json_items.induct)
    (simp_all add: sort_json_items_sort_key sort_key_sort_key)

lemma canonical_json_sort_json: "canonical_json (sort_json v) = canonical_json v"
  by (simp add: canonical_json_def json_able_sort_json sort_json_idem)

lemma sort_json_items_same_map:
  assumes "distinct (keys d)" "distinct (keys e)" "map_of d = map_of e"
  shows "sort_key fst (sort_json_items d) = sort_key fst (sort_json_items e)"
proof (rule map_sorted_distinct_set_unique [where f = fst])
  have "set d = set e"
    using assms by (simp add: keys_def map_of_inject_set)
  then have s: "set (sort_key fst (sort_json_items d)) = set (sort_key fst (sort_json_items e))"
    by (simp add: sort_json_items_map)
  then show "set (sort_key fst (sort_json_items d)) = set (sort_key fst (sort_json_items e))" .
  have dd: "distinct (map fst (sort_key fst (sort_json_items d)))"
    using assms by (metis distinct_keys_sort_key keys_def keys_sort_json_items)
  then show "distinct (map fst (sort_key fst (sort_json_items d)))" .
  have de: "distinct (map fst (sort_key fst (sort_json_items e)))"
    using assms by (metis distinct_keys_sort_key keys_def keys_sort_json_items)
  then show "distinct (map fst (sort_key fst (sort_json_items e)))" .
  show "sorted (map fst (sort_key fst (sort_json_items d)))"
    "sorted (map fst (sort_key fst (sort_json_items e)))"
    by (rule sorted_sort_key)+
  show "inj_on fst (set (sort_key fst (sort_json_items d)) \<union> set (sort_key fst (sort_json_items e)))"
    using dd s by (simp add: distinct_map)
qed

lemma json_able_same_map:
  assumes "distinct (keys d)" "distinct (keys e)" "map_of d = map_of e"
  shows "json_able_items d = json_able_items e"
proof -
  have "set d = set e" using assms by (simp add: keys_def map_of_inject_set)
  then show ?thesis by (simp add: json_able_items_iff)
qed

lemma canonical_json_same_map:
  "distinct (keys d) \<Longrightarrow> distinct (keys e) \<Longrightarrow> map_of d = map_of e \<Longrightarrow>
   canonical_json (PDict d) = canonical_json (PDict e)"
  using sort_json_items_same_map [of d e] json_able_same_map [of d e]
  by (simp add: canonical_json_def)

section \<open>Canonical bytes are valid UTF-8 and are accepted by the strict decoder\<close>

lemma esc_char_ascii: "cc c < 128 \<Longrightarrow> list_all (\<lambda>x. cc x < 128) (esc_char c)"
  by (auto simp: esc_char_def hex_digit_def cc_code cc_char_of)

lemma esc_char_high: "128 \<le> cc c \<Longrightarrow> esc_char c = [c]"
  by (simp add: esc_char_def)

lemma utf8_next_point:
  "utf8_next s = Some r \<Longrightarrow> \<exists>p. s = p @ r \<and> p \<noteq> [] \<and> utf8_next p = Some []"
  by (auto simp: utf8_next_def split: list.splits if_splits)

lemma utf8_next_high:
  "utf8_next (a # p) = Some [] \<Longrightarrow> 128 \<le> cc a \<Longrightarrow> \<forall>c \<in> set (a # p). 128 \<le> cc c"
  by (auto simp: utf8_next_def lead2_def lead3_def lead4_def is_cont_def
       split: list.splits if_splits)

lemma utf8_valid_point: "utf8_next p = Some [] \<Longrightarrow> utf8_valid p"
  by (simp add: utf8_valid.simps [of p])

lemma utf8_valid_esc: "utf8_valid s \<Longrightarrow> utf8_valid (concat (map esc_char s))"
proof (induction s rule: utf8_valid.induct)
  case (1 s)
  show ?case
  proof (cases s)
    case Nil
    then show ?thesis by simp
  next
    case (Cons a s')
    then have ne: "s \<noteq> []" by simp
    with "1.prems" obtain r where r: "utf8_next s = Some r" "utf8_valid r"
      by (cases "utf8_next s") (simp_all add: utf8_valid.simps [of s])
    with ne "1.IH" have IH: "utf8_valid (concat (map esc_char r))" by blast
    show ?thesis
    proof (cases "cc a < 128")
      case True
      with r Cons have "r = s'" by (simp add: utf8_next_ascii)
      with True Cons IH show ?thesis
        by (simp add: utf8_valid_append utf8_valid_ascii_list esc_char_ascii)
    next
      case False
      from r utf8_next_point obtain p where p: "s = p @ r" "p \<noteq> []" "utf8_next p = Some []"
        by blast
      with Cons False have "\<forall>c \<in> set p. 128 \<le> cc c"
        using utf8_next_high [of a "tl p"] by (cases p) auto
      then have "concat (map esc_char p) = p"
        by (induction p) (auto simp: esc_char_high)
      with p IH show ?thesis by (simp add: utf8_valid_append utf8_valid_point)
    qed
  qed
qed

lemma utf8_valid_snoc_ascii: "utf8_valid s \<Longrightarrow> cc c < 128 \<Longrightarrow> utf8_valid (s @ c # t) = utf8_valid t"
  by (simp add: utf8_valid_append utf8_valid_ascii)

lemma utf8_valid_enc_str: "utf8_valid s \<Longrightarrow> utf8_valid (enc_str s)"
  by (simp add: enc_str_def utf8_valid_ascii utf8_valid_append utf8_valid_esc cc_code)

lemma utf8_valid_int_digits: "utf8_valid (int_digits i)"
  by (simp add: int_digits_def utf8_valid_ascii utf8_valid_ascii_list nat_digits_ascii cc_code)

lemma utf8_valid_enc:
  "json_able v \<Longrightarrow> utf8_valid (enc v)"
  "json_able_list vs \<Longrightarrow> utf8_valid (enc_list vs)"
  "json_able_items d \<Longrightarrow> utf8_valid (enc_items d)"
  by (induction v and vs and d rule: enc_enc_list_enc_items.induct)
    (simp_all add: utf8_valid_ascii utf8_valid_append utf8_valid_int_digits utf8_valid_enc_str cc_code
       utf8_valid_ascii_list cc_def)

lemma enc_not_Nil: "json_able v \<Longrightarrow> enc v \<noteq> []"
  by (cases v) (auto simp: int_digits_def enc_str_def)

lemma canonical_json_Inr: "canonical_json v = Inr raw \<longleftrightarrow> json_able v \<and> raw = enc (sort_json v)"
  by (auto simp: canonical_json_def)

lemma strict_json_canonical:
  assumes "canonical_json v = Inr raw" and "length raw \<le> MAXIMUM_RECORD_BYTES"
    and "json_wf (\<lambda>i. - MAXIMUM_INTEGER \<le> i \<and> i \<le> MAXIMUM_INTEGER) v"
  shows "strict_json raw = Inr (sort_json v)"
proof -
  from assms(1) have raw: "json_able v" "raw = enc (sort_json v)"
    by (simp_all add: canonical_json_Inr)
  then have "raw \<noteq> []" "utf8_valid raw"
    by (simp_all add: enc_not_Nil utf8_valid_enc json_able_sort_json)
  moreover have "json_loads strict_hooks raw = Some (sort_json v)"
    using assms(3) raw by (simp add: strict.loads_enc json_wf_sort_json)
  ultimately show ?thesis
    using assms(2) raw by (simp add: strict_json_def canonical_json_def sort_json_idem
        json_able_sort_json)
qed

text \<open>Conversely, what the strict decoder returns has exactly the given bytes as its encoding.\<close>

lemma strict_json_sound: "strict_json raw = Inr v \<Longrightarrow> canonical_json v = Inr raw"
  by (auto simp: strict_json_def rbind_Inr_iff split: if_splits option.splits)

lemma plain_loads_canonical:
  "canonical_json v = Inr raw \<Longrightarrow> json_wf (\<lambda>i. True) v \<Longrightarrow> json_loads plain_hooks raw = Some (sort_json v)"
  by (simp add: canonical_json_Inr plain.loads_enc json_wf_sort_json)

section \<open>Trees\<close>

text \<open>Objects with distinct keys: what a decoder that refuses duplicate keys returns, finite floats
  included.\<close>

fun json_tree :: "pyval \<Rightarrow> bool" where
  "json_tree (PList vs) \<longleftrightarrow> (\<forall>v \<in> set vs. json_tree v)"
| "json_tree (PDict d) \<longleftrightarrow> distinct (keys d) \<and> (\<forall>p \<in> set d. json_tree (snd p))"
| "json_tree (POther t) \<longleftrightarrow> t = ''float''"
| "json_tree v \<longleftrightarrow> True"

lemma json_wf_tree: "json_wf ok v \<Longrightarrow> json_tree v"
  by (induction v rule: json_tree.induct) (auto simp: json_wf_list_iff json_wf_items_iff)

lemma json_tree_dget: "json_tree (PDict d) \<Longrightarrow> json_tree (dget k d)"
  by (force simp: dget_def split: option.splits dest: map_of_SomeD)

section \<open>Fuel\<close>

lemma skip_ws_length: "length (skip_ws s) \<le> length s"
  by (simp add: skip_ws_def length_dropWhile_le)

lemma parse_str_shorter: "parse_str s = Some (t, r) \<Longrightarrow> length r < length s"
proof (induction s arbitrary: t rule: parse_str.induct)
  case (1 s)
  show ?case
  proof (cases s)
    case Nil
    with "1.prems" show ?thesis by (simp add: parse_str.simps)
  next
    case (Cons c q)
    with 1 show ?thesis
      by (fastforce simp: parse_str.simps [of "c # q"] split: list.splits if_splits option.splits
          dest: unicode_escape_shorter)
  qed
qed

lemma parse_digits_length: "length (snd (parse_digits n s)) \<le> length s"
  by (induction n s rule: parse_digits.induct) auto

lemma parse_nat_shorter: "parse_nat s = Some (n, r) \<Longrightarrow> length r < length s"
proof (cases s)
  case (Cons c q)
  assume "parse_nat s = Some (n, r)"
  with Cons parse_digits_length [of "cc c - 48" q] show ?thesis
    by (auto simp: parse_nat_def Let_def split: if_splits prod.splits)
qed (simp add: parse_nat_def)

lemma parse_int_shorter: "parse_int hook s = Some (v, r) \<Longrightarrow> length r < length s"
  by (cases s) (auto simp: parse_int_def Let_def split: if_splits option.splits prod.splits dest!: parse_nat_shorter)

lemma exponent_sign_length: "length (snd (exponent_sign s)) \<le> length s"
  by (auto simp: exponent_sign_def split: list.splits)

lemma scan_whole_shorter: "scan_whole s = (w, q) \<Longrightarrow> w \<noteq> [] \<Longrightarrow> length q < length s"
proof (cases "s \<noteq> [] \<and> hd s = CHR ''0''")
  case False
  moreover assume "scan_whole s = (w, q)" "w \<noteq> []"
  moreover have "length s = length (takeWhile is_digit s) + length (dropWhile is_digit s)"
    by (metis length_append takeWhile_dropWhile_id)
  ultimately show ?thesis by (auto simp: scan_whole_def)
qed (auto simp: scan_whole_def)

lemma scan_fraction_length: "scan_fraction s = (f, q) \<Longrightarrow> length q \<le> length s"
  using length_dropWhile_le [of is_digit "tl s"] by (auto simp: scan_fraction_def split: if_splits)

lemma scan_exponent_shorter: "scan_exponent s = (n, e, q) \<Longrightarrow> length q \<le> length s"
proof -
  assume "scan_exponent s = (n, e, q)"
  moreover have "length (dropWhile is_digit (snd (exponent_sign (tl s)))) \<le> length s"
    using length_dropWhile_le [of is_digit "snd (exponent_sign (tl s))"] exponent_sign_length [of "tl s"]
    by (simp add: le_trans)
  ultimately show ?thesis by (auto simp: scan_exponent_def prod.case_eq_if split: if_splits)
qed

lemma parse_float_shorter: "parse_float hook s = Some (v, r) \<Longrightarrow> length r < length s"
proof -
  assume p: "parse_float hook s = Some (v, r)"
  let ?t = "if s \<noteq> [] \<and> hd s = CHR ''-'' then tl s else s"
  obtain w q f q' n e q'' where scan: "scan_whole ?t = (w, q)" "scan_fraction q = (f, q')"
    "scan_exponent q' = (n, e, q'')" by (metis prod.exhaust)
  with p have "w \<noteq> []" "r = q''" by (simp_all add: parse_float_def Let_def split: if_splits)
  with scan_whole_shorter [OF scan(1)] scan_fraction_length [OF scan(2)] scan_exponent_shorter [OF scan(3)]
  have "length r < length ?t" by simp
  moreover have "length ?t \<le> length s" by simp
  ultimately show ?thesis by linarith
qed

lemma parse_number_shorter: "parse_number h s = Some (v, r) \<Longrightarrow> length r < length s"
  by (auto simp: parse_number_def split: option.splits dest: parse_int_shorter parse_float_shorter)

lemma strip_word_length: "strip_word w s = Some r \<Longrightarrow> length r \<le> length s"
  by (auto simp: strip_word_def split: if_splits)

lemma skip_ws_Cons_length: "skip_ws s = c # q \<Longrightarrow> length q < length s"
  using skip_ws_length [of s] by simp
lemma strip_word_shorter: "strip_word w s = Some r \<Longrightarrow> w \<noteq> [] \<Longrightarrow> s \<noteq> [] \<Longrightarrow> length r < length s"
  by (auto simp: strip_word_def split: if_splits)

lemma parse_shorter:
  "parse_value h n s = Some (v, r) \<Longrightarrow> length r < length s"
  "parse_elements h n s = Some (vs, r) \<Longrightarrow> length r < length s"
  "parse_members h n s = Some (d, r) \<Longrightarrow> length r < length s"
proof (induction h n s and h n s and h n s arbitrary: v r and vs r and d r rule: parse_value_parse_elements_parse_members.induct)
  case (2 h n s)
  then show ?case
    apply (auto split: list.splits if_splits option.splits dest!: parse_str_shorter parse_number_shorter skip_ws_Cons_length strip_word_shorter)
    apply (fastforce dest: order_less_trans)+
    done
next
  case (4 h n s)
  then show ?case
    by (auto split: list.splits if_splits option.splits dest!: skip_ws_Cons_length)
      (meson le_less_trans less_trans order_less_le_trans skip_ws_length less_imp_le)+
next
  case (6 h n s)
  then show ?case
    by (auto split: list.splits if_splits option.splits dest!: parse_str_shorter skip_ws_Cons_length)
      (meson le_less_trans less_trans order_less_le_trans skip_ws_length less_imp_le less_SucI)+
qed simp_all

text \<open>A result does not depend on the fuel once there is enough of it.\<close>

lemma parse_value_flat:
  assumes "c \<noteq> CHR ''['' \<and> c \<noteq> CHR ''{'' \<or> skip_ws r = []"
  shows "parse_value h (Suc m) (c # r) = parse_value h (Suc k) (c # r)"
  using assms by auto

lemma parse_enough:
  "parse_value h m s = Some x \<Longrightarrow> 2 * length s < n \<Longrightarrow> parse_value h n s = Some x"
  "parse_elements h m s = Some y \<Longrightarrow> Suc (2 * length s) < n \<Longrightarrow> parse_elements h n s = Some y"
  "parse_members h m s = Some z \<Longrightarrow> Suc (2 * length s) < n \<Longrightarrow> parse_members h n s = Some z"
proof (induction h m s and h m s and h m s arbitrary: n x and n y and n z
    rule: parse_value_parse_elements_parse_members.induct)
  case (2 h m s)
  then obtain k where n: "n = Suc k" by (cases n) auto
  show ?case
  proof (cases s)
    case Nil
    with 2 show ?thesis by simp
  next
    case s: (Cons c r)
    show ?thesis
    proof (cases "(c = CHR ''['' \<or> c = CHR ''{'') \<and> skip_ws r \<noteq> []")
      case False
      then have "c \<noteq> CHR ''['' \<and> c \<noteq> CHR ''{'' \<or> skip_ws r = []" by blast
      from parse_value_flat [OF this, of h m k] s n "2.prems"(1) show ?thesis by metis
    next
      case True
      then obtain w q where q: "skip_ws r = w # q" by (cases "skip_ws r") auto
      then have k: "Suc (2 * length (w # q)) < k"
        using s n "2.prems" skip_ws_length [of r] by simp
      show ?thesis
      proof (cases "c = CHR ''[''")
        case True
        then have c: "c \<noteq> CHR 0x22" by simp
        have e: "parse_elements h k (w # q) = Some y"
          if "w \<noteq> CHR '']''" "parse_elements h m (w # q) = Some y" for y
          by (rule "2.IH"(1) [OF s c True q that k])
        with s n True q "2.prems"(1) show ?thesis
          by (cases "w = CHR '']''"; cases "parse_elements h m (w # q)") simp_all
      next
        case False
        with \<open>(c = CHR ''['' \<or> c = CHR ''{'') \<and> skip_ws r \<noteq> []\<close> have c: "c = CHR ''{''" by simp
        then have c': "c \<noteq> CHR 0x22" by simp
        have e: "parse_members h k (w # q) = Some z"
          if "w \<noteq> CHR ''}''" "parse_members h m (w # q) = Some z" for z
          by (rule "2.IH"(2) [OF s c' False c q that k])
        with s n c q "2.prems"(1) show ?thesis
          by (cases "w = CHR ''}''"; cases "parse_members h m (w # q)") auto
      qed
    qed
  qed
next
  case (4 h m s)
  obtain k where n: "n = Suc k" using "4.prems"(2) by (cases n) simp_all
  from "4.prems"(1) obtain v r where v: "parse_value h m s = Some (v, r)"
    by (cases "parse_value h m s") auto
  have k: "parse_value h k s = Some (v, r)"
    by (rule "4.IH"(1) [OF v]) (use "4.prems"(2) n in simp)
  from "4.prems"(1) v obtain c q where q: "skip_ws r = c # q"
    by (cases "skip_ws r") auto
  have len: "Suc (2 * length (skip_ws q)) < k"
    using skip_ws_Cons_length [OF q] skip_ws_length [of q] parse_shorter(1) [OF v] "4.prems"(2) n
    by linarith
  show ?case
  proof (cases "c \<noteq> CHR '']'' \<and> c = CHR '','' \<and> parse_elements h m (skip_ws q) \<noteq> None")
    case False
    with v k q n "4.prems"(1) show ?thesis by (auto split: if_splits option.splits)
  next
    case True
    then obtain y' where y': "parse_elements h m (skip_ws q) = Some y'" by auto
    have "parse_elements h k (skip_ws q) = Some y'"
      by (rule "4.IH"(2) [OF v refl q _ _ y' len]) (use True in auto)
    with True y' v k q n "4.prems"(1) show ?thesis by simp
  qed
next
  case (6 h m s)
  obtain k where n: "n = Suc k" using "6.prems"(2) by (cases n) simp_all
  from "6.prems"(1) obtain c0 r0 where s: "s = c0 # r0" by (cases s) auto
  with "6.prems"(1) have c0: "c0 = CHR 0x22" by (cases "c0 = CHR 0x22") auto
  from "6.prems"(1) s c0 obtain key r1 where key: "parse_str r0 = Some (key, r1)"
    by (cases "parse_str r0") auto
  from "6.prems"(1) s c0 key obtain x r2 where r2: "skip_ws r1 = x # r2"
    by (cases "skip_ws r1") auto
  with "6.prems"(1) s c0 key have x: "x = CHR '':''" by (cases "x = CHR '':''") auto
  from "6.prems"(1) s c0 key r2 x obtain v r3 where v: "parse_value h m (skip_ws r2) = Some (v, r3)"
    by (cases "parse_value h m (skip_ws r2)") auto
  have len2: "length (skip_ws r2) < length s"
    using skip_ws_Cons_length [OF r2] skip_ws_length [of r2] parse_str_shorter [OF key] s by simp
  have k: "parse_value h k (skip_ws r2) = Some (v, r3)"
    by (rule "6.IH"(1) [OF s _ key refl r2 _ v]) (use c0 x len2 "6.prems"(2) n in auto)
  from "6.prems"(1) s c0 key r2 x v obtain c q where q: "skip_ws r3 = c # q"
    by (cases "skip_ws r3") auto
  have len: "Suc (2 * length (skip_ws q)) < k"
    using skip_ws_Cons_length [OF q] skip_ws_length [of q] parse_shorter(1) [OF v] len2
      "6.prems"(2) n by linarith
  show ?case
  proof (cases "c \<noteq> CHR ''}'' \<and> c = CHR '','' \<and> parse_members h m (skip_ws q) \<noteq> None")
    case False
    with s c0 x key r2 v k q n "6.prems"(1) show ?thesis by (auto split: if_splits option.splits)
  next
    case True
    then obtain z' where z': "parse_members h m (skip_ws q) = Some z'" by auto
    have "parse_members h k (skip_ws q) = Some z'"
      by (rule "6.IH"(2) [OF s _ key refl r2 _ v refl q _ _ z' len]) (use True c0 x in auto)
    with True z' s c0 x key r2 v k q n "6.prems"(1) show ?thesis by simp
  qed
qed simp_all

lemma json_loads_fuel:
  "2 * length s < n \<Longrightarrow> 2 * length s < m \<Longrightarrow> parse_value h n (skip_ws s) = parse_value h m (skip_ws s)"
  using parse_enough(1) [of h n "skip_ws s" _ m] parse_enough(1) [of h m "skip_ws s" _ n]
    skip_ws_length [of s]
  by (cases "parse_value h n (skip_ws s)"; cases "parse_value h m (skip_ws s)") auto

end
