(* ===== verification/Records.thy ===== *)
theory Records
  imports Json_Roundtrip
begin

text \<open>
  The records authored by research sessions, \<open>world/records.py\<close>: the field validators, the bounded
  payload walk, the identity-free contribution and the durable record with their wire forms. The
  lemmas give the invariant that the constructors establish, the exact set of payloads the bounded
  walk accepts, and the round trips between objects, wire values and bytes.
\<close>

definition RESEARCH_RECORD_SCHEMA :: string where
  "RESEARCH_RECORD_SCHEMA = ''PMW_RESEARCH_RECORD_1''"

definition RESEARCH_CONTRIBUTION_SCHEMA :: string where
  "RESEARCH_CONTRIBUTION_SCHEMA = ''PMW_RESEARCH_CONTRIBUTION_1''"

definition RESEARCH_KINDS :: "string list" where
  "RESEARCH_KINDS = [''NOTE'', ''NEED'', ''ATTEMPT'', ''RESULT'', ''OBJECTION'', ''CHECKPOINT'']"

definition MAXIMUM_BODY_BYTES :: nat where
  "MAXIMUM_BODY_BYTES = 48000"

definition MAXIMUM_TITLE_BYTES :: nat where
  "MAXIMUM_TITLE_BYTES = 1024"

definition MAXIMUM_PAYLOAD_NODES :: nat where
  "MAXIMUM_PAYLOAD_NODES = 4096"

definition MAXIMUM_PAYLOAD_DEPTH :: nat where
  "MAXIMUM_PAYLOAD_DEPTH = 32"

definition MAXIMUM_COLLECTION_ITEMS :: nat where
  "MAXIMUM_COLLECTION_ITEMS = 1024"

definition MAXIMUM_STRING_BYTES :: nat where
  "MAXIMUM_STRING_BYTES = 65536"

definition RECORD_FIELDS :: "string list" where
  "RECORD_FIELDS = [''schema'', ''world_id'', ''cohort_id'', ''session_id'', ''base_snapshot_ref'',
     ''kind'', ''problem_ids'', ''parent_refs'', ''title'', ''body'', ''artifact_refs'', ''payload'']"

definition CONTRIBUTION_FIELDS :: "string list" where
  "CONTRIBUTION_FIELDS = [''schema'', ''kind'', ''problem_ids'', ''parent_refs'', ''title'', ''body'',
     ''artifact_refs'', ''payload'']"

section \<open>Field validators\<close>

abbreviation malformed :: "string \<Rightarrow> exn" where
  "malformed \<equiv> Research_Record_Error ''MALFORMED_FIELD''"

abbreviation limit_exceeded :: "string \<Rightarrow> exn" where
  "limit_exceeded \<equiv> Research_Record_Error ''FIELD_LIMIT_EXCEEDED''"

definition py_text :: "string \<Rightarrow> nat \<Rightarrow> bool \<Rightarrow> pyval \<Rightarrow> string result" where
  "py_text label maximum allow_empty value = (case value of
      PStr s \<Rightarrow>
        if \<not> allow_empty \<and> s = [] then Inl (malformed label)
        else if \<not> utf8_valid s then Inl (malformed label)
        else if maximum < length s then Inl (limit_exceeded label)
        else Inr s
    | _ \<Rightarrow> Inl (malformed label))"

text \<open>The five patterns of the module.\<close>

definition is_ID :: "string \<Rightarrow> bool" where
  "is_ID = matches_ident (\<lambda>c. is_lower c \<or> is_upper c \<or> is_digit c) is_ident_tail 127"

definition is_PROBLEM_ID :: "string \<Rightarrow> bool" where
  "is_PROBLEM_ID = matches_ident (\<lambda>c. is_lower c \<or> is_digit c) is_lower_ident_tail 127"

definition is_SNAPSHOT_REF :: "string \<Rightarrow> bool" where
  "is_SNAPSHOT_REF = matches_prefixed_sha256 ''snapshot/sha256/''"

definition is_ADMISSION_REF :: "string \<Rightarrow> bool" where
  "is_ADMISSION_REF = matches_prefixed_sha256 ''admission/sha256/''"

definition is_ARTIFACT_REF :: "string \<Rightarrow> bool" where
  "is_ARTIFACT_REF = matches_prefixed_sha256 ''artifact/sha256/''"

definition py_identifier :: "string \<Rightarrow> (string \<Rightarrow> bool) \<Rightarrow> pyval \<Rightarrow> string result" where
  "py_identifier label pattern value =
     rbind (py_text label 128 False value) (\<lambda>selected.
       if pattern selected then Inr selected else Inl (malformed label))"

definition py_reference :: "string \<Rightarrow> (string \<Rightarrow> bool) \<Rightarrow> pyval \<Rightarrow> string result" where
  "py_reference label pattern value =
     rbind (py_text label 96 False value) (\<lambda>selected.
       if pattern selected then Inr selected else Inl (malformed label))"

definition py_sorted_unique ::
  "string \<Rightarrow> (pyval \<Rightarrow> string result) \<Rightarrow> nat \<Rightarrow> pyval \<Rightarrow> string list result" where
  "py_sorted_unique label validator maximum values = (case values of
      PList vs \<Rightarrow>
        if maximum < length vs then Inl (limit_exceeded label)
        else rbind (rmap validator vs) (\<lambda>selected.
          if distinct selected then Inr (sort selected)
          else Inl (malformed (label @ '': duplicate'')))
    | _ \<Rightarrow> Inl (malformed label))"

section \<open>Bounded payload walk\<close>

text \<open>
  The explicit stack of the code, its top first; the children of a node are pushed in order, so the
  last one is visited next. \<open>remaining\<close> is the node budget left.
\<close>

abbreviation payload_limit :: exn where
  "payload_limit \<equiv> Research_Record_Error ''PAYLOAD_LIMIT_EXCEEDED'' []"

fun payload_loop :: "nat \<Rightarrow> (pyval \<times> nat) list \<Rightarrow> unit result" where
  "payload_loop remaining [] = Inr ()"
| "payload_loop 0 ((item, depth) # stack) = Inl payload_limit"
| "payload_loop (Suc remaining) ((item, depth) # stack) =
     (if MAXIMUM_PAYLOAD_DEPTH < depth then Inl payload_limit
      else (case item of
          PDict d \<Rightarrow>
            if MAXIMUM_COLLECTION_ITEMS < length d then Inl payload_limit
            else rbind (rmap (\<lambda>key. py_text ''payload key'' 256 False (PStr key)) (keys d)) (\<lambda>_.
              payload_loop remaining (rev (map (\<lambda>(_, child). (child, Suc depth)) d) @ stack))
        | PList vs \<Rightarrow>
            if MAXIMUM_COLLECTION_ITEMS < length vs then Inl payload_limit
            else payload_loop remaining (rev (map (\<lambda>child. (child, Suc depth)) vs) @ stack)
        | PStr s \<Rightarrow>
            rbind (py_text ''payload string'' MAXIMUM_STRING_BYTES True item) (\<lambda>_.
              payload_loop remaining stack)
        | PInt i \<Rightarrow>
            if - MAXIMUM_INTEGER \<le> i \<and> i \<le> MAXIMUM_INTEGER then payload_loop remaining stack
            else Inl (Research_Record_Error ''PAYLOAD_INTEGER_OUT_OF_BOUNDS'' [])
        | PNone \<Rightarrow> payload_loop remaining stack
        | PBool _ \<Rightarrow> payload_loop remaining stack
        | POther _ \<Rightarrow> Inl (Research_Record_Error ''PAYLOAD_TYPE_UNSUPPORTED'' [])))"

definition validate_payload :: "pyval \<Rightarrow> string result" where
  "validate_payload value =
     rbind (payload_loop MAXIMUM_PAYLOAD_NODES [(value, 0)]) (\<lambda>_. canonical_json value)"

section \<open>Contributions\<close>

record research_contribution =
  co_kind :: string
  co_problem_ids :: "string list"
  co_parent_refs :: "string list"
  co_title :: string
  co_body :: string
  co_artifact_refs :: "string list"
  co_payload_bytes :: string

definition check_kind :: "pyval \<Rightarrow> string result" where
  "check_kind kind = (case kind of
      PStr k \<Rightarrow> if k \<in> set RESEARCH_KINDS then Inr k else Inl (malformed ''kind'')
    | _ \<Rightarrow> Inl (malformed ''kind''))"

definition check_problem_ids :: "pyval \<Rightarrow> string list result" where
  "check_problem_ids = py_sorted_unique ''problem_ids'' (py_identifier ''problem_id'' is_PROBLEM_ID) 64"

definition check_parent_refs :: "pyval \<Rightarrow> string list result" where
  "check_parent_refs = py_sorted_unique ''parent_refs'' (py_reference ''parent_ref'' is_ADMISSION_REF) 16"

definition check_artifact_refs :: "pyval \<Rightarrow> string list result" where
  "check_artifact_refs =
     py_sorted_unique ''artifact_refs'' (py_reference ''artifact_ref'' is_ARTIFACT_REF) 64"

text \<open>An omitted payload is the empty object.\<close>

definition check_payload :: "pyval \<Rightarrow> string result" where
  "check_payload payload =
     (let selected = (case payload of PNone \<Rightarrow> PDict [] | _ \<Rightarrow> payload)
      in case selected of
           PDict _ \<Rightarrow> validate_payload selected
         | _ \<Rightarrow> Inl (malformed ''payload''))"

definition research_contribution_init ::
  "pyval \<Rightarrow> pyval \<Rightarrow> pyval \<Rightarrow> pyval \<Rightarrow> pyval \<Rightarrow> pyval \<Rightarrow> pyval \<Rightarrow> research_contribution result" where
  "research_contribution_init kind title body problem_ids parent_refs artifact_refs payload =
     rbind (check_kind kind) (\<lambda>kind.
     rbind (check_problem_ids problem_ids) (\<lambda>selected_problems.
     rbind (check_parent_refs parent_refs) (\<lambda>selected_parents.
     rbind (check_artifact_refs artifact_refs) (\<lambda>selected_artifacts.
     rbind (py_text ''title'' MAXIMUM_TITLE_BYTES False title) (\<lambda>selected_title.
     rbind (py_text ''body'' MAXIMUM_BODY_BYTES False body) (\<lambda>selected_body.
     rbind (check_payload payload) (\<lambda>payload_bytes.
       Inr \<lparr>co_kind = kind, co_problem_ids = selected_problems, co_parent_refs = selected_parents,
            co_title = selected_title, co_body = selected_body,
            co_artifact_refs = selected_artifacts, co_payload_bytes = payload_bytes\<rparr>)))))))"

text \<open>The \<open>payload\<close> property: the stored bytes decoded again.\<close>

definition decode_payload :: "string \<Rightarrow> string \<Rightarrow> (string \<times> pyval) list result" where
  "decode_payload what raw = (case json_loads plain_hooks raw of
      None \<Rightarrow> Inl (Value_Error ''JSONDecodeError'')
    | Some (PDict d) \<Rightarrow> Inr d
    | Some _ \<Rightarrow> Inl (Assertion_Error (what @ '' payload is not an object'')))"

definition co_payload :: "research_contribution \<Rightarrow> (string \<times> pyval) list result" where
  "co_payload c = decode_payload ''research contribution'' (co_payload_bytes c)"

definition contribution_to_value :: "research_contribution \<Rightarrow> pyval result" where
  "contribution_to_value c =
     rbind (co_payload c) (\<lambda>payload. Inr (PDict [
       (''schema'', PStr RESEARCH_CONTRIBUTION_SCHEMA),
       (''kind'', PStr (co_kind c)),
       (''problem_ids'', texts (co_problem_ids c)),
       (''parent_refs'', texts (co_parent_refs c)),
       (''title'', PStr (co_title c)),
       (''body'', PStr (co_body c)),
       (''artifact_refs'', texts (co_artifact_refs c)),
       (''payload'', PDict payload)]))"

fun is_PList :: "pyval \<Rightarrow> bool" where
  "is_PList (PList _) = True"
| "is_PList _ = False"

fun is_PDict :: "pyval \<Rightarrow> bool" where
  "is_PDict (PDict _) = True"
| "is_PDict _ = False"

text \<open>The common start of both \<open>from_value\<close> methods: the exact fields, the schema, the containers.\<close>

definition check_envelope ::
  "string \<Rightarrow> string list \<Rightarrow> string \<Rightarrow> pyval \<Rightarrow> (string \<times> pyval) list result" where
  "check_envelope code expected schema value = (case value of
      PDict d \<Rightarrow>
        if set (keys d) \<noteq> set expected then Inl (Research_Record_Error code ''fields'')
        else if dget ''schema'' d \<noteq> PStr schema then Inl (Research_Record_Error code ''schema'')
        else rbind (rmap (\<lambda>label. require (is_PList (dget label d)) (Research_Record_Error code label))
                     [''problem_ids'', ''parent_refs'', ''artifact_refs'']) (\<lambda>_.
          if is_PDict (dget ''payload'' d) then Inr d
          else Inl (Research_Record_Error code ''payload''))
    | _ \<Rightarrow> Inl (Research_Record_Error code ''fields''))"

definition contribution_from_value :: "pyval \<Rightarrow> research_contribution result" where
  "contribution_from_value value =
     rbind (check_envelope ''MALFORMED_CONTRIBUTION'' CONTRIBUTION_FIELDS
              RESEARCH_CONTRIBUTION_SCHEMA value) (\<lambda>d.
       research_contribution_init (dget ''kind'' d) (dget ''title'' d) (dget ''body'' d)
         (dget ''problem_ids'' d) (dget ''parent_refs'' d) (dget ''artifact_refs'' d)
         (dget ''payload'' d))"

section \<open>Records\<close>

record research_record =
  re_world_id :: string
  re_cohort_id :: string
  re_session_id :: string
  re_base_snapshot_ref :: string
  re_kind :: string
  re_problem_ids :: "string list"
  re_parent_refs :: "string list"
  re_title :: string
  re_body :: string
  re_artifact_refs :: "string list"
  re_payload_bytes :: string

definition re_payload :: "research_record \<Rightarrow> (string \<times> pyval) list result" where
  "re_payload r = decode_payload ''research'' (re_payload_bytes r)"

definition record_to_value :: "research_record \<Rightarrow> pyval result" where
  "record_to_value r =
     rbind (re_payload r) (\<lambda>payload. Inr (PDict [
       (''schema'', PStr RESEARCH_RECORD_SCHEMA),
       (''world_id'', PStr (re_world_id r)),
       (''cohort_id'', PStr (re_cohort_id r)),
       (''session_id'', PStr (re_session_id r)),
       (''base_snapshot_ref'', PStr (re_base_snapshot_ref r)),
       (''kind'', PStr (re_kind r)),
       (''problem_ids'', texts (re_problem_ids r)),
       (''parent_refs'', texts (re_parent_refs r)),
       (''title'', PStr (re_title r)),
       (''body'', PStr (re_body r)),
       (''artifact_refs'', texts (re_artifact_refs r)),
       (''payload'', PDict payload)]))"

definition record_to_bytes :: "research_record \<Rightarrow> string result" where
  "record_to_bytes r = rbind (record_to_value r) canonical_json"

definition content_sha256 :: "(string \<Rightarrow> string) \<Rightarrow> research_record \<Rightarrow> string result" where
  "content_sha256 sha256 r = rbind (record_to_bytes r) (\<lambda>raw. Inr (sha256 raw))"

definition research_record_init ::
  "pyval \<Rightarrow> pyval \<Rightarrow> pyval \<Rightarrow> pyval \<Rightarrow> pyval \<Rightarrow> pyval \<Rightarrow> pyval \<Rightarrow> pyval \<Rightarrow> pyval \<Rightarrow> pyval \<Rightarrow> pyval \<Rightarrow>
   research_record result" where
  "research_record_init world_id cohort_id session_id base_snapshot_ref kind title body problem_ids
     parent_refs artifact_refs payload =
     rbind (py_identifier ''world_id'' is_ID world_id) (\<lambda>selected_world.
     rbind (py_identifier ''cohort_id'' is_ID cohort_id) (\<lambda>selected_cohort.
     rbind (py_identifier ''session_id'' is_ID session_id) (\<lambda>selected_session.
     rbind (py_reference ''base_snapshot_ref'' is_SNAPSHOT_REF base_snapshot_ref) (\<lambda>selected_snapshot.
     rbind (check_kind kind) (\<lambda>kind.
     rbind (check_problem_ids problem_ids) (\<lambda>selected_problems.
     rbind (check_parent_refs parent_refs) (\<lambda>selected_parents.
     rbind (check_artifact_refs artifact_refs) (\<lambda>selected_artifacts.
     rbind (py_text ''title'' MAXIMUM_TITLE_BYTES False title) (\<lambda>selected_title.
     rbind (py_text ''body'' MAXIMUM_BODY_BYTES False body) (\<lambda>selected_body.
     rbind (check_payload payload) (\<lambda>payload_bytes.
       let self = \<lparr>re_world_id = selected_world, re_cohort_id = selected_cohort,
                   re_session_id = selected_session, re_base_snapshot_ref = selected_snapshot,
                   re_kind = kind, re_problem_ids = selected_problems,
                   re_parent_refs = selected_parents, re_title = selected_title,
                   re_body = selected_body, re_artifact_refs = selected_artifacts,
                   re_payload_bytes = payload_bytes\<rparr>
       in rbind (record_to_bytes self) (\<lambda>raw.
            if MAXIMUM_RECORD_BYTES < length raw
            then Inl (Research_Record_Error ''RECORD_SIZE_INVALID'' []) else Inr self))))))))))))"

definition record_from_value :: "pyval \<Rightarrow> research_record result" where
  "record_from_value value =
     rbind (check_envelope ''MALFORMED_RECORD'' RECORD_FIELDS RESEARCH_RECORD_SCHEMA value) (\<lambda>d.
       research_record_init (dget ''world_id'' d) (dget ''cohort_id'' d) (dget ''session_id'' d)
         (dget ''base_snapshot_ref'' d) (dget ''kind'' d) (dget ''title'' d) (dget ''body'' d)
         (dget ''problem_ids'' d) (dget ''parent_refs'' d) (dget ''artifact_refs'' d)
         (dget ''payload'' d))"

definition record_from_bytes :: "string \<Rightarrow> research_record result" where
  "record_from_bytes raw =
     rbind (strict_json raw) (\<lambda>value.
     rbind (record_from_value value) (\<lambda>record.
     rbind (record_to_bytes record) (\<lambda>again.
       if again \<noteq> raw then Inl (Research_Record_Error ''NONCANONICAL_RECORD'' []) else Inr record)))"

section \<open>What the validators accept\<close>

lemma py_text_Inr [result_dests]:
  "py_text label n e v = Inr s \<longleftrightarrow> v = PStr s \<and> (e \<or> s \<noteq> []) \<and> utf8_valid s \<and> length s \<le> n"
  by (auto simp: py_text_def split: pyval.splits)

lemma ident_tail_ascii: "is_ident_tail c \<Longrightarrow> cc c < 128"
  by (auto simp: is_ident_tail_def is_lower_def is_upper_def is_digit_def cc_code cc_def)

lemma lower_ident_tail_ascii: "is_lower_ident_tail c \<Longrightarrow> cc c < 128"
  by (auto simp: is_lower_ident_tail_def is_lower_def is_digit_def cc_def)

lemma matches_ident_valid:
  assumes "matches_ident p q n s" "\<And>c. p c \<Longrightarrow> cc c < 128" "\<And>c. q c \<Longrightarrow> cc c < 128"
  shows "utf8_valid s"
  using assms by (cases s) (auto intro!: utf8_valid_ascii_list simp: list_all_iff)

lemma ident_text:
  "is_ID s \<Longrightarrow> s \<noteq> [] \<and> utf8_valid s \<and> length s \<le> 128"
  "is_PROBLEM_ID s \<Longrightarrow> s \<noteq> [] \<and> utf8_valid s \<and> length s \<le> 128"
  using matches_ident_length
  by (fastforce simp: is_ID_def is_PROBLEM_ID_def is_lower_def is_upper_def is_digit_def
        intro: ident_tail_ascii lower_ident_tail_ascii elim!: matches_ident_valid)+

lemma ref_text:
  "is_SNAPSHOT_REF s \<Longrightarrow> s \<noteq> [] \<and> utf8_valid s \<and> length s \<le> 96"
  "is_ADMISSION_REF s \<Longrightarrow> s \<noteq> [] \<and> utf8_valid s \<and> length s \<le> 96"
  "is_ARTIFACT_REF s \<Longrightarrow> s \<noteq> [] \<and> utf8_valid s \<and> length s \<le> 96"
  using matches_prefixed_sha256_length matches_prefixed_sha256_ascii utf8_valid_ascii_list
  by (force simp: is_SNAPSHOT_REF_def is_ADMISSION_REF_def is_ARTIFACT_REF_def cc_def)+

lemma py_identifier_Inr [result_dests]:
  "py_identifier label is_ID v = Inr s \<longleftrightarrow> v = PStr s \<and> is_ID s"
  "py_identifier label is_PROBLEM_ID v = Inr s \<longleftrightarrow> v = PStr s \<and> is_PROBLEM_ID s"
  using ident_text by (auto simp: py_identifier_def result_dests)

lemma py_reference_Inr [result_dests]:
  "py_reference label is_SNAPSHOT_REF v = Inr s \<longleftrightarrow> v = PStr s \<and> is_SNAPSHOT_REF s"
  "py_reference label is_ADMISSION_REF v = Inr s \<longleftrightarrow> v = PStr s \<and> is_ADMISSION_REF s"
  "py_reference label is_ARTIFACT_REF v = Inr s \<longleftrightarrow> v = PStr s \<and> is_ARTIFACT_REF s"
  using ref_text by (auto simp: py_reference_def result_dests)

lemma rmap_validator_Inr:
  assumes "\<And>v s. f v = Inr s \<longleftrightarrow> v = PStr s \<and> P s"
  shows "rmap f vs = Inr ss \<longleftrightarrow> vs = map PStr ss \<and> list_all P ss"
proof (induction vs arbitrary: ss)
  case (Cons v vs)
  show ?case by (cases ss) (simp_all add: rbind_Inr_iff assms Cons, blast)
qed auto

lemma py_sorted_unique_Inr:
  assumes "\<And>v s. f v = Inr s \<longleftrightarrow> v = PStr s \<and> P s"
  shows "py_sorted_unique label f n v = Inr sel \<longleftrightarrow>
    (\<exists>ss. v = texts ss \<and> length ss \<le> n \<and> list_all P ss \<and> distinct ss \<and> sel = sort ss)"
proof (cases v)
  case (PList vs)
  then show ?thesis
    by (auto simp: py_sorted_unique_def result_dests rmap_validator_Inr [of f P, OF assms] texts_def)
qed (auto simp: py_sorted_unique_def texts_def)

text \<open>A sorted list of distinct texts of one form, at most \<open>n\<close> of them.\<close>

definition sorted_refs :: "nat \<Rightarrow> (string \<Rightarrow> bool) \<Rightarrow> string list \<Rightarrow> bool" where
  "sorted_refs n P ss \<longleftrightarrow> sorted ss \<and> distinct ss \<and> length ss \<le> n \<and> list_all P ss"

lemma sorted_refs_sort:
  "distinct ss \<Longrightarrow> length ss \<le> n \<Longrightarrow> list_all P ss \<Longrightarrow> sorted_refs n P (sort ss)"
  by (simp add: sorted_refs_def list_all_iff)

lemma check_refs_Inr [result_dests]:
  "check_problem_ids v = Inr sel \<longleftrightarrow> (\<exists>ss. v = texts ss \<and> length ss \<le> 64 \<and> list_all is_PROBLEM_ID ss \<and> distinct ss \<and> sel = sort ss)"
  "check_parent_refs v = Inr sel \<longleftrightarrow> (\<exists>ss. v = texts ss \<and> length ss \<le> 16 \<and> list_all is_ADMISSION_REF ss \<and> distinct ss \<and> sel = sort ss)"
  "check_artifact_refs v = Inr sel \<longleftrightarrow> (\<exists>ss. v = texts ss \<and> length ss \<le> 64 \<and> list_all is_ARTIFACT_REF ss \<and> distinct ss \<and> sel = sort ss)"
  by (simp_all add: check_problem_ids_def check_parent_refs_def check_artifact_refs_def
      py_sorted_unique_Inr py_identifier_Inr py_reference_Inr)

lemma check_refs_sorted:
  "sorted_refs 64 is_PROBLEM_ID ss \<Longrightarrow> check_problem_ids (texts ss) = Inr ss"
  "sorted_refs 16 is_ADMISSION_REF ss \<Longrightarrow> check_parent_refs (texts ss) = Inr ss"
  "sorted_refs 64 is_ARTIFACT_REF ss \<Longrightarrow> check_artifact_refs (texts ss) = Inr ss"
  by (auto simp: result_dests sorted_refs_def sort_key_sorted_id [where f = id, simplified, folded id_def] sorted_sort_id)

lemma check_kind_Inr [result_dests]: "check_kind v = Inr k \<longleftrightarrow> v = PStr k \<and> k \<in> set RESEARCH_KINDS"
  by (auto simp: check_kind_def split: pyval.splits)

section \<open>The payloads that the bounded walk accepts\<close>

text \<open>
  The reference definition: every node within the depth limit and its own bounds; the node count
  apart. The walk accepts exactly the values that satisfy it within the budget.
\<close>

fun payload_nodes :: "pyval \<Rightarrow> nat" where
  "payload_nodes (PList vs) = Suc (sum_list (map payload_nodes vs))"
| "payload_nodes (PDict d) = Suc (sum_list (map (\<lambda>p. payload_nodes (snd p)) d))"
| "payload_nodes _ = 1"

fun payload_fits :: "nat \<Rightarrow> pyval \<Rightarrow> bool" where
  "payload_fits depth (PList vs) \<longleftrightarrow> depth \<le> MAXIMUM_PAYLOAD_DEPTH \<and>
     length vs \<le> MAXIMUM_COLLECTION_ITEMS \<and> (\<forall>v \<in> set vs. payload_fits (Suc depth) v)"
| "payload_fits depth (PDict d) \<longleftrightarrow> depth \<le> MAXIMUM_PAYLOAD_DEPTH \<and>
     length d \<le> MAXIMUM_COLLECTION_ITEMS \<and>
     (\<forall>p \<in> set d. fst p \<noteq> [] \<and> utf8_valid (fst p) \<and> length (fst p) \<le> 256 \<and>
        payload_fits (Suc depth) (snd p))"
| "payload_fits depth (PStr s) \<longleftrightarrow> depth \<le> MAXIMUM_PAYLOAD_DEPTH \<and>
     utf8_valid s \<and> length s \<le> MAXIMUM_STRING_BYTES"
| "payload_fits depth (PInt i) \<longleftrightarrow> depth \<le> MAXIMUM_PAYLOAD_DEPTH \<and>
     - MAXIMUM_INTEGER \<le> i \<and> i \<le> MAXIMUM_INTEGER"
| "payload_fits depth (POther t) \<longleftrightarrow> False"
| "payload_fits depth _ \<longleftrightarrow> depth \<le> MAXIMUM_PAYLOAD_DEPTH"

lemma payload_nodes_pos: "0 < payload_nodes v"
  by (cases v) simp_all

lemma rmap_keys_Inr:
  "(\<exists>ks. rmap (\<lambda>key. py_text label n e (PStr key)) ks0 = Inr ks) \<longleftrightarrow>
   (\<forall>key \<in> set ks0. (e \<or> key \<noteq> []) \<and> utf8_valid key \<and> length key \<le> n)"
  by (induction ks0) (auto simp: result_dests)

lemma payload_loop_Inr:
  "payload_loop n stack = Inr () \<longleftrightarrow>
   (\<forall>(v, depth) \<in> set stack. payload_fits depth v) \<and> (\<Sum>a\<leftarrow>stack. payload_nodes (fst a)) \<le> n"
proof (induction n stack rule: payload_loop.induct)
  case (2 item depth stack)
  then show ?case using payload_nodes_pos [of item] by simp
next
  case (3 n item depth stack)
  show ?case
  proof (cases item)
    case (PDict d)
    let ?st = "rev (map (\<lambda>(_, child). (child, Suc depth)) d) @ stack"
    have IH: "payload_loop n ?st = Inr () \<longleftrightarrow>
      (\<forall>(v, depth) \<in> set ?st. payload_fits depth v) \<and> (\<Sum>a\<leftarrow>?st. payload_nodes (fst a)) \<le> n"
      if "depth \<le> MAXIMUM_PAYLOAD_DEPTH" "length d \<le> MAXIMUM_COLLECTION_ITEMS"
        "rmap (\<lambda>key. py_text ''payload key'' 256 False (PStr key)) (keys d) = Inr ks" for ks
      by (rule 3(6) [OF _ PDict _ that(3)]) (use that in simp_all)
    have sums: "(\<Sum>a\<leftarrow>?st. payload_nodes (fst a)) =
        sum_list (map (\<lambda>p. payload_nodes (snd p)) d) + (\<Sum>a\<leftarrow>stack. payload_nodes (fst a))"
      by (simp add: rev_map [symmetric] sum_list_rev comp_def case_prod_beta)
    have "(\<exists>ks. rmap (\<lambda>key. py_text ''payload key'' 256 False (PStr key)) (keys d) = Inr ks) \<longleftrightarrow>
        (\<forall>p \<in> set d. fst p \<noteq> [] \<and> utf8_valid (fst p) \<and> length (fst p) \<le> 256)"
      by (simp add: rmap_keys_Inr keys_def)
    moreover have "(\<forall>(v, depth) \<in> set ?st. payload_fits depth v) \<longleftrightarrow>
        (\<forall>p \<in> set d. payload_fits (Suc depth) (snd p)) \<and> (\<forall>(v, depth) \<in> set stack. payload_fits depth v)"
      by (auto simp: case_prod_beta ball_Un simp del: split_paired_All)
    ultimately show ?thesis
      using IH by (simp add: PDict rbind_Inr_iff sums if_Inr_iff not_less add.assoc del: rev_append map_append) blast
  next
    case (PList vs)
    let ?st = "rev (map (\<lambda>child. (child, Suc depth)) vs) @ stack"
    have sums: "(\<Sum>a\<leftarrow>?st. payload_nodes (fst a)) =
        sum_list (map payload_nodes vs) + (\<Sum>a\<leftarrow>stack. payload_nodes (fst a))"
      by (simp add: rev_map [symmetric] sum_list_rev comp_def)
    have IH: "payload_loop n ?st = Inr () \<longleftrightarrow>
      (\<forall>(v, depth) \<in> set ?st. payload_fits depth v) \<and> (\<Sum>a\<leftarrow>?st. payload_nodes (fst a)) \<le> n"
      if "depth \<le> MAXIMUM_PAYLOAD_DEPTH" "length vs \<le> MAXIMUM_COLLECTION_ITEMS"
      using 3(5) PList that by simp
    have "(\<forall>(v, depth) \<in> set ?st. payload_fits depth v) \<longleftrightarrow>
        (\<forall>v \<in> set vs. payload_fits (Suc depth) v) \<and> (\<forall>(v, depth) \<in> set stack. payload_fits depth v)"
      by (auto simp: case_prod_beta ball_Un simp del: split_paired_All)
    with IH show ?thesis
      by (simp add: PList sums if_Inr_iff not_less add.assoc del: rev_append map_append) blast
  next
    case PNone
    with 3(1) show ?thesis by (auto simp: if_Inr_iff not_less)
  next
    case (PBool b)
    with 3(2) show ?thesis by (auto simp: if_Inr_iff not_less)
  next
    case (PInt i)
    with 3(3) show ?thesis by (auto simp: if_Inr_iff not_less)
  next
    case (PStr s)
    with 3(4) show ?thesis by (auto simp: if_Inr_iff not_less rbind_Inr_iff py_text_Inr)
  qed simp
qed simp

lemma payload_fits_json_able: "payload_fits n v \<Longrightarrow> json_able v"
  by (induction n v rule: payload_fits.induct) (auto simp: json_able_list_iff json_able_items_iff)

lemma payload_fits_bounded:
  "payload_fits n v \<Longrightarrow> json_wf (\<lambda>_. True) v \<Longrightarrow>
   json_wf (\<lambda>i. - MAXIMUM_INTEGER \<le> i \<and> i \<le> MAXIMUM_INTEGER) v"
  by (induction n v rule: payload_fits.induct) (auto simp: json_wf_list_iff json_wf_items_iff)

lemma fits_tree_wf: "payload_fits n v \<Longrightarrow> json_tree v \<Longrightarrow> json_wf (\<lambda>_. True) v"
  by (induction n v rule: payload_fits.induct) (auto simp: json_wf_list_iff json_wf_items_iff)

lemma validate_payload_Inr [result_dests]:
  "validate_payload v = Inr raw \<longleftrightarrow>
   payload_fits 0 v \<and> payload_nodes v \<le> MAXIMUM_PAYLOAD_NODES \<and> raw = enc (sort_json v)"
  by (auto simp: validate_payload_def rbind_Inr_iff payload_loop_Inr canonical_json_Inr
      payload_fits_json_able)

lemma sum_list_sort_key: "sum_list (map f (sort_key g xs)) = sum_list (map f xs)" for f :: "_ \<Rightarrow> nat"
  by (metis mset_map mset_sort sum_mset_sum_list)

lemma payload_sort_json [simp]:
  "payload_nodes (sort_json v) = payload_nodes v"
  "payload_fits n (sort_json v) = payload_fits n v"
proof -
  show "payload_nodes (sort_json v) = payload_nodes v"
    by (induction v rule: payload_nodes.induct)
      (auto simp: sort_json_list_map sort_json_items_map sum_list_sort_key comp_def case_prod_beta
        intro!: arg_cong [where f = sum_list])
  show "payload_fits n (sort_json v) = payload_fits n v"
    by (induction n v rule: payload_fits.induct)
      (auto simp: sort_json_list_map sort_json_items_map case_prod_beta)
qed

section \<open>The invariant of the constructors\<close>

definition text_ok :: "nat \<Rightarrow> string \<Rightarrow> bool" where
  "text_ok n s \<longleftrightarrow> s \<noteq> [] \<and> utf8_valid s \<and> length s \<le> n"

definition payload_bytes_ok :: "string \<Rightarrow> bool" where
  "payload_bytes_ok raw \<longleftrightarrow>
     (\<exists>d. json_wf (\<lambda>_. True) (PDict d) \<and> validate_payload (PDict d) = Inr raw)"

definition contribution_ok :: "research_contribution \<Rightarrow> bool" where
  "contribution_ok c \<longleftrightarrow>
     co_kind c \<in> set RESEARCH_KINDS \<and>
     sorted_refs 64 is_PROBLEM_ID (co_problem_ids c) \<and>
     sorted_refs 16 is_ADMISSION_REF (co_parent_refs c) \<and>
     sorted_refs 64 is_ARTIFACT_REF (co_artifact_refs c) \<and>
     text_ok MAXIMUM_TITLE_BYTES (co_title c) \<and> text_ok MAXIMUM_BODY_BYTES (co_body c) \<and>
     payload_bytes_ok (co_payload_bytes c)"

definition record_ok :: "research_record \<Rightarrow> bool" where
  "record_ok r \<longleftrightarrow>
     is_ID (re_world_id r) \<and> is_ID (re_cohort_id r) \<and> is_ID (re_session_id r) \<and>
     is_SNAPSHOT_REF (re_base_snapshot_ref r) \<and>
     re_kind r \<in> set RESEARCH_KINDS \<and>
     sorted_refs 64 is_PROBLEM_ID (re_problem_ids r) \<and>
     sorted_refs 16 is_ADMISSION_REF (re_parent_refs r) \<and>
     sorted_refs 64 is_ARTIFACT_REF (re_artifact_refs r) \<and>
     text_ok MAXIMUM_TITLE_BYTES (re_title r) \<and> text_ok MAXIMUM_BODY_BYTES (re_body r) \<and>
     payload_bytes_ok (re_payload_bytes r) \<and>
     (\<exists>raw. record_to_bytes r = Inr raw \<and> length raw \<le> MAXIMUM_RECORD_BYTES)"

text \<open>Decoding the stored bytes gives the payload back in key order; it never fails.\<close>

lemma decode_payload_canonical:
  assumes "json_wf (\<lambda>_. True) (PDict d)" "validate_payload (PDict d) = Inr raw"
  shows "decode_payload what raw = Inr (sort_key fst (sort_json_items d))"
proof -
  from assms(2) have "canonical_json (PDict d) = Inr raw"
    by (auto simp: validate_payload_def rbind_Inr_iff)
  then have "json_loads plain_hooks raw = Some (sort_json (PDict d))"
    using assms(1) by (rule plain_loads_canonical)
  then show ?thesis by (simp add: decode_payload_def)
qed

lemma payload_bytes_okE:
  assumes "payload_bytes_ok raw"
  obtains d where "\<And>what. decode_payload what raw = Inr d" "json_wf (\<lambda>_. True) (PDict d)"
    "sort_json (PDict d) = PDict d" "validate_payload (PDict d) = Inr raw"
proof -
  from assms obtain e where e: "json_wf (\<lambda>_. True) (PDict e)" "validate_payload (PDict e) = Inr raw"
    by (auto simp: payload_bytes_ok_def)
  let ?d = "sort_key fst (sort_json_items e)"
  have d: "PDict ?d = sort_json (PDict e)" by simp
  show thesis
  proof (rule that [of ?d])
    show "decode_payload what raw = Inr ?d" for what
      by (rule decode_payload_canonical [OF e])
    show "json_wf (\<lambda>_. True) (PDict ?d)"
      unfolding d using e(1) by (simp add: json_wf_sort_json del: sort_json.simps)
    show "sort_json (PDict ?d) = PDict ?d"
      unfolding d by (rule sort_json_idem(1))
    show "validate_payload (PDict ?d) = Inr raw"
      unfolding d using e(2) by (simp add: validate_payload_Inr sort_json_idem(1) del: sort_json.simps)
  qed
qed

lemma check_payload_Inr [result_dests]:
  "check_payload v = Inr raw \<longleftrightarrow>
   (\<exists>d. (v = PDict d \<or> v = PNone \<and> d = []) \<and> validate_payload (PDict d) = Inr raw)"
  by (cases v) (auto simp: check_payload_def)

lemma check_payload_ok: "check_payload v = Inr raw \<Longrightarrow> json_wf (\<lambda>_. True) v \<Longrightarrow> payload_bytes_ok raw"
  by (auto simp: check_payload_Inr payload_bytes_ok_def) (rule exI [of _ "[]"], simp)

lemma check_payload_tree: "check_payload v = Inr raw \<Longrightarrow> json_tree v \<Longrightarrow> json_wf (\<lambda>_. True) v"
  by (cases v) (auto simp: check_payload_Inr validate_payload_Inr simp del: json_wf.simps(3) json_tree.simps payload_fits.simps
      dest: fits_tree_wf)

lemma is_PDict_iff: "is_PDict v \<longleftrightarrow> (\<exists>d. v = PDict d)"
  by (cases v) simp_all

lemma is_PList_iff: "is_PList v \<longleftrightarrow> (\<exists>d. v = PList d)"
  by (cases v) simp_all

lemma check_envelope_Inr [result_dests]:
  "check_envelope code expected schema v = Inr d \<longleftrightarrow>
   v = PDict d \<and> set (keys d) = set expected \<and> dget ''schema'' d = PStr schema \<and>
   is_PList (dget ''problem_ids'' d) \<and> is_PList (dget ''parent_refs'' d) \<and>
   is_PList (dget ''artifact_refs'' d) \<and> is_PDict (dget ''payload'' d)"
  by (cases v) (auto simp: check_envelope_def rbind_Inr_iff require_Inr_iff if_Inr_iff)

lemma is_PList_texts [simp]: "is_PList (texts ss)"
  by (simp add: texts_def)

lemma json_wf_dget: "json_wf ok (PDict d) \<Longrightarrow> json_wf ok (dget k d)"
  by (force simp: dget_def json_wf_items_iff split: option.splits dest: map_of_SomeD)

lemma init_contribution_Inr:
  "research_contribution_init kind title body problem_ids parent_refs artifact_refs payload = Inr c \<longleftrightarrow>
   check_kind kind = Inr (co_kind c) \<and> check_problem_ids problem_ids = Inr (co_problem_ids c) \<and>
   check_parent_refs parent_refs = Inr (co_parent_refs c) \<and>
   check_artifact_refs artifact_refs = Inr (co_artifact_refs c) \<and>
   py_text ''title'' MAXIMUM_TITLE_BYTES False title = Inr (co_title c) \<and>
   py_text ''body'' MAXIMUM_BODY_BYTES False body = Inr (co_body c) \<and>
   check_payload payload = Inr (co_payload_bytes c)"
  by (cases c) (auto simp: research_contribution_init_def rbind_Inr_iff)

lemma init_contribution_ok:
  assumes "research_contribution_init kind title body problem_ids parent_refs artifact_refs payload = Inr c"
    and "json_wf (\<lambda>_. True) payload"
  shows "contribution_ok c"
  using assms check_payload_ok [OF _ assms(2)]
  by (auto simp: init_contribution_Inr check_kind_Inr check_refs_Inr py_text_Inr
      contribution_ok_def text_ok_def intro!: sorted_refs_sort)

lemma contribution_from_value_ok:
  "contribution_from_value v = Inr c \<Longrightarrow> json_wf (\<lambda>_. True) v \<Longrightarrow> contribution_ok c"
  by (auto simp: contribution_from_value_def rbind_Inr_iff check_envelope_Inr
      simp del: json_wf.simps intro!: init_contribution_ok json_wf_dget)

lemma dget_simps [simp]: "dget k [] = PNone" "dget k ((k', v) # d) = (if k = k' then v else dget k d)"
  by (simp_all add: dget_def)

lemma contribution_roundtrip:
  assumes "contribution_ok c"
  shows "rbind (contribution_to_value c) contribution_from_value = Inr c"
proof -
  from assms obtain p where p: "\<And>what. decode_payload what (co_payload_bytes c) = Inr p"
    "validate_payload (PDict p) = Inr (co_payload_bytes c)"
    by (auto simp: contribution_ok_def elim: payload_bytes_okE)
  from assms p show ?thesis
    by (simp add: contribution_to_value_def co_payload_def contribution_from_value_def rbind_Inr_iff
        check_envelope_Inr CONTRIBUTION_FIELDS_def insert_commute init_contribution_Inr check_kind_Inr
        check_refs_sorted py_text_Inr check_payload_Inr contribution_ok_def text_ok_def)
qed

lemma init_record_Inr:
  "research_record_init world_id cohort_id session_id base kind title body problem_ids parent_refs
     artifact_refs payload = Inr r \<longleftrightarrow>
   py_identifier ''world_id'' is_ID world_id = Inr (re_world_id r) \<and>
   py_identifier ''cohort_id'' is_ID cohort_id = Inr (re_cohort_id r) \<and>
   py_identifier ''session_id'' is_ID session_id = Inr (re_session_id r) \<and>
   py_reference ''base_snapshot_ref'' is_SNAPSHOT_REF base = Inr (re_base_snapshot_ref r) \<and>
   check_kind kind = Inr (re_kind r) \<and> check_problem_ids problem_ids = Inr (re_problem_ids r) \<and>
   check_parent_refs parent_refs = Inr (re_parent_refs r) \<and>
   check_artifact_refs artifact_refs = Inr (re_artifact_refs r) \<and>
   py_text ''title'' MAXIMUM_TITLE_BYTES False title = Inr (re_title r) \<and>
   py_text ''body'' MAXIMUM_BODY_BYTES False body = Inr (re_body r) \<and>
   check_payload payload = Inr (re_payload_bytes r) \<and>
   (\<exists>raw. record_to_bytes r = Inr raw \<and> length raw \<le> MAXIMUM_RECORD_BYTES)"
  by (cases r) (auto simp: research_record_init_def rbind_Inr_iff Let_def if_Inr_iff not_less)

lemma init_record_ok:
  assumes "research_record_init world_id cohort_id session_id base kind title body problem_ids
     parent_refs artifact_refs payload = Inr r"
    and "json_wf (\<lambda>_. True) payload"
  shows "record_ok r"
  using assms check_payload_ok [OF _ assms(2)]
  by (auto simp: init_record_Inr check_kind_Inr check_refs_Inr py_text_Inr py_identifier_Inr
      py_reference_Inr record_ok_def text_ok_def intro!: sorted_refs_sort)

lemma record_from_value_ok:
  "record_from_value v = Inr r \<Longrightarrow> json_wf (\<lambda>_. True) v \<Longrightarrow> record_ok r"
  by (auto simp: record_from_value_def rbind_Inr_iff check_envelope_Inr
      simp del: json_wf.simps intro!: init_record_ok json_wf_dget)

lemma record_roundtrip:
  assumes "record_ok r"
  shows "rbind (record_to_value r) record_from_value = Inr r"
proof -
  from assms obtain p where p: "\<And>what. decode_payload what (re_payload_bytes r) = Inr p"
    "validate_payload (PDict p) = Inr (re_payload_bytes r)"
    by (auto simp: record_ok_def elim: payload_bytes_okE)
  from assms p show ?thesis
    by (simp add: record_to_value_def re_payload_def record_from_value_def rbind_Inr_iff
        check_envelope_Inr RECORD_FIELDS_def insert_commute init_record_Inr check_kind_Inr
        check_refs_sorted py_text_Inr py_identifier_Inr py_reference_Inr check_payload_Inr
        record_ok_def text_ok_def)
qed

lemma dget_sorted:
  assumes "distinct (keys d)"
  shows "dget k (sort_key fst (sort_json_items d)) = sort_json (dget k d)"
proof -
  have "distinct (map fst (sort_json_items d))"
    using assms keys_sort_json_items [of d] by (simp add: keys_def)
  then have "map_of (sort_key fst (sort_json_items d)) = map_of (sort_json_items d)"
    by (rule map_of_sort_key_fst)
  moreover have "map_of (sort_json_items d) k = map_option sort_json (map_of d k)"
    by (simp add: sort_json_items_map map_of_map)
  ultimately show ?thesis by (simp add: dget_def split: option.splits)
qed

lemma sort_json_texts [simp]: "sort_json (texts ss) = texts ss"
  by (simp add: texts_def sort_json_list_map)

text \<open>The bytes of a record encode an object, with small integers, that reads back as the record.\<close>

lemma record_bytes_value:
  assumes "record_ok r"
  obtains d raw where "record_to_bytes r = Inr raw" "length raw \<le> MAXIMUM_RECORD_BYTES"
    "canonical_json (PDict d) = Inr raw"
    "json_wf (\<lambda>i. - MAXIMUM_INTEGER \<le> i \<and> i \<le> MAXIMUM_INTEGER) (PDict d)"
    "record_from_value (sort_json (PDict d)) = Inr r"
proof -
  from assms obtain p where p: "\<And>what. decode_payload what (re_payload_bytes r) = Inr p"
    "json_wf (\<lambda>_. True) (PDict p)" "sort_json (PDict p) = PDict p"
    "validate_payload (PDict p) = Inr (re_payload_bytes r)"
    by (auto simp: record_ok_def elim: payload_bytes_okE)
  from assms obtain raw where raw: "record_to_bytes r = Inr raw" "length raw \<le> MAXIMUM_RECORD_BYTES"
    by (auto simp: record_ok_def)
  then obtain d where d: "record_to_value r = Inr (PDict d)" "canonical_json (PDict d) = Inr raw"
    by (auto simp: record_to_bytes_def record_to_value_def rbind_Inr_iff)
  have wf: "json_wf (\<lambda>i. - MAXIMUM_INTEGER \<le> i \<and> i \<le> MAXIMUM_INTEGER) (PDict d)"
    using d(1) p payload_fits_bounded [of 0 "PDict p"]
    by (auto simp: record_to_value_def re_payload_def validate_payload_Inr texts_def json_wf_list_iff
        simp del: payload_fits.simps)
  have "record_from_value (sort_json (PDict d)) = Inr r"
  proof -
    have dk: "distinct (keys d)" using wf by simp
    have "record_from_value (PDict d) = Inr r"
      using record_roundtrip [OF assms] d(1) by simp
    then have "is_PDict (dget ''payload'' d)" "dget ''payload'' d = PDict p"
      using d(1) p by (auto simp: record_to_value_def re_payload_def)
    with \<open>record_from_value (PDict d) = Inr r\<close> show ?thesis
      using p(3) by (auto simp: record_from_value_def rbind_Inr_iff check_envelope_Inr dget_sorted [OF dk]
         init_record_Inr check_kind_Inr check_refs_Inr py_text_Inr py_identifier_Inr py_reference_Inr)
  qed
  with raw d(2) wf show thesis by (rule that)
qed

lemma record_bytes_roundtrip:
  assumes "record_ok r"
  shows "rbind (record_to_bytes r) record_from_bytes = Inr r"
proof -
  obtain d raw where r: "record_to_bytes r = Inr raw" "record_from_value (sort_json (PDict d)) = Inr r"
    and raw: "canonical_json (PDict d) = Inr raw" "length raw \<le> MAXIMUM_RECORD_BYTES"
      "json_wf (\<lambda>i. - MAXIMUM_INTEGER \<le> i \<and> i \<le> MAXIMUM_INTEGER) (PDict d)"
    by (rule record_bytes_value [OF assms])
  from strict_json_canonical [OF raw] r show ?thesis
    by (simp add: record_from_bytes_def del: sort_json.simps)
qed

text \<open>The converse: bytes that are accepted are the canonical bytes of the record.\<close>

lemma record_from_bytes_sound: "record_from_bytes raw = Inr r \<Longrightarrow> record_to_bytes r = Inr raw"
  by (auto simp: record_from_bytes_def rbind_Inr_iff if_Inr_iff)

end
