(* ===== verification/Verdict.thy ===== *)
theory Verdict
  imports Records
begin

text \<open>
  The verdict vocabulary of the treatment validators, \<open>agenda_treatments/verdict.py\<close>: the closed
  set of codes, the constructor with its code check and its byte bound on the detail, and the two
  builders.
\<close>

definition ACCEPTED :: string where
  "ACCEPTED = ''ACCEPTED''"

declare ACCEPTED_def [simp]

definition MAXIMUM_VERDICT_DETAIL_BYTES :: nat where
  "MAXIMUM_VERDICT_DETAIL_BYTES = 2000"

definition VERDICT_CODES :: "string list" where
  "VERDICT_CODES =
     [ACCEPTED, ''CANDIDATE_NOT_IDENTITY_FREE'', ''PAYLOAD_SCHEMA_MISMATCH'', ''PAYLOAD_MALFORMED'',
      ''RECORD_KIND_NOT_ALLOWED'', ''IDENTITY_FIELD_SELF_ASSERTED'', ''AUTHOR_IDENTITY_REQUIRED'',
      ''TASK_UNKNOWN'', ''TASK_ALREADY_COMPLETED'', ''TASK_DEPENDENCY_UNKNOWN'',
      ''TASK_DEPENDENCIES_UNREADY'', ''TASK_CLAIM_CONFLICT'', ''CLAIM_UNKNOWN'',
      ''CLAIM_TASK_MISMATCH'', ''CLAIM_NOT_HELD_BY_AUTHOR'', ''CLAIM_ALREADY_CLOSED'',
      ''LEASE_EXPIRED'', ''LEASE_LIVENESS_UNDECIDABLE'', ''PROPOSAL_UNKNOWN'',
      ''COMPLETION_CONTRACT_MISMATCH'', ''COMPLETION_EVIDENCE_MISSING'', ''NOT_AN_ADMITTING_SLOT'',
      ''NOT_A_COORDINATOR_SLOT'', ''DIRECTIVE_UNKNOWN'', ''DIRECTIVE_NOT_LIVE'',
      ''DIRECTIVE_CITATION_MISSING'', ''SUPERSEDED_DIRECTIVE_UNKNOWN'',
      ''DECOMPOSITION_TARGET_UNKNOWN'', ''DECOMPOSITION_SUBLEMMA_UNKNOWN'',
      ''DECOMPOSITION_STATEMENT_MISMATCH'', ''ROUTE_TRIGGER_REF_UNKNOWN'']"

record verdict =
  v_code :: string
  v_detail :: string

definition verdict_init :: "string \<Rightarrow> string \<Rightarrow> verdict result" where
  "verdict_init code detail =
     (if code \<notin> set VERDICT_CODES then Inl (Value_Error (''unknown verdict code: '' @ repr_text code))
      else let encoded = utf8_replace detail
           in Inr \<lparr>v_code = code,
                   v_detail = (if MAXIMUM_VERDICT_DETAIL_BYTES < length encoded
                               then utf8_cut MAXIMUM_VERDICT_DETAIL_BYTES encoded else detail)\<rparr>)"

definition accepted :: "verdict \<Rightarrow> bool" where
  "accepted v \<longleftrightarrow> v_code v = ACCEPTED"

definition verdict_to_value :: "verdict \<Rightarrow> pyval" where
  "verdict_to_value v = PDict [(''accepted'', PBool (accepted v)), (''code'', PStr (v_code v)),
     (''detail'', PStr (v_detail v))]"

definition accept :: "string \<Rightarrow> verdict result" where
  "accept detail = verdict_init ACCEPTED detail"

definition reject :: "string \<Rightarrow> string \<Rightarrow> verdict result" where
  "reject code detail =
     (if code = ACCEPTED then Inl (Value_Error ''reject() requires a rejection code'')
      else verdict_init code detail)"

section \<open>Building a verdict from a code of the vocabulary\<close>

definition verdict_of :: "string \<Rightarrow> string \<Rightarrow> verdict" where
  "verdict_of code detail =
     \<lparr>v_code = code,
      v_detail = (if MAXIMUM_VERDICT_DETAIL_BYTES < length (utf8_replace detail)
                  then utf8_cut MAXIMUM_VERDICT_DETAIL_BYTES (utf8_replace detail) else detail)\<rparr>"

lemma verdict_of_code [simp]: "v_code (verdict_of code detail) = code"
  by (simp add: verdict_of_def)

lemma accepted_verdict_of [simp]:
  "accepted (verdict_of ACCEPTED detail)" "accepted (verdict_of code detail) \<longleftrightarrow> code = ''ACCEPTED''"
  by (simp_all add: accepted_def ACCEPTED_def)

lemma verdict_init_known: "code \<in> set VERDICT_CODES \<Longrightarrow> verdict_init code detail = Inr (verdict_of code detail)"
  by (simp add: verdict_init_def verdict_of_def Let_def)

lemma accept_simp [simp]: "accept detail = Inr (verdict_of ACCEPTED detail)"
  by (simp add: accept_def verdict_init_known VERDICT_CODES_def)

lemma reject_known:
  "code \<in> set VERDICT_CODES \<Longrightarrow> code \<noteq> ACCEPTED \<Longrightarrow> reject code detail = Inr (verdict_of code detail)"
  by (simp add: reject_def verdict_init_known)

text \<open>Every code that the validators pass to \<open>reject\<close> is a rejection code of the vocabulary.\<close>

lemma reject_simps [simp]:
  "reject ''CANDIDATE_NOT_IDENTITY_FREE'' x = Inr (verdict_of ''CANDIDATE_NOT_IDENTITY_FREE'' x)"
  "reject ''PAYLOAD_SCHEMA_MISMATCH'' x = Inr (verdict_of ''PAYLOAD_SCHEMA_MISMATCH'' x)"
  "reject ''PAYLOAD_MALFORMED'' x = Inr (verdict_of ''PAYLOAD_MALFORMED'' x)"
  "reject ''RECORD_KIND_NOT_ALLOWED'' x = Inr (verdict_of ''RECORD_KIND_NOT_ALLOWED'' x)"
  "reject ''AUTHOR_IDENTITY_REQUIRED'' x = Inr (verdict_of ''AUTHOR_IDENTITY_REQUIRED'' x)"
  "reject ''TASK_UNKNOWN'' x = Inr (verdict_of ''TASK_UNKNOWN'' x)"
  "reject ''TASK_ALREADY_COMPLETED'' x = Inr (verdict_of ''TASK_ALREADY_COMPLETED'' x)"
  "reject ''TASK_DEPENDENCY_UNKNOWN'' x = Inr (verdict_of ''TASK_DEPENDENCY_UNKNOWN'' x)"
  "reject ''TASK_DEPENDENCIES_UNREADY'' x = Inr (verdict_of ''TASK_DEPENDENCIES_UNREADY'' x)"
  "reject ''TASK_CLAIM_CONFLICT'' x = Inr (verdict_of ''TASK_CLAIM_CONFLICT'' x)"
  "reject ''CLAIM_UNKNOWN'' x = Inr (verdict_of ''CLAIM_UNKNOWN'' x)"
  "reject ''CLAIM_TASK_MISMATCH'' x = Inr (verdict_of ''CLAIM_TASK_MISMATCH'' x)"
  "reject ''CLAIM_NOT_HELD_BY_AUTHOR'' x = Inr (verdict_of ''CLAIM_NOT_HELD_BY_AUTHOR'' x)"
  "reject ''CLAIM_ALREADY_CLOSED'' x = Inr (verdict_of ''CLAIM_ALREADY_CLOSED'' x)"
  "reject ''LEASE_EXPIRED'' x = Inr (verdict_of ''LEASE_EXPIRED'' x)"
  "reject ''LEASE_LIVENESS_UNDECIDABLE'' x = Inr (verdict_of ''LEASE_LIVENESS_UNDECIDABLE'' x)"
  "reject ''PROPOSAL_UNKNOWN'' x = Inr (verdict_of ''PROPOSAL_UNKNOWN'' x)"
  "reject ''COMPLETION_CONTRACT_MISMATCH'' x = Inr (verdict_of ''COMPLETION_CONTRACT_MISMATCH'' x)"
  "reject ''COMPLETION_EVIDENCE_MISSING'' x = Inr (verdict_of ''COMPLETION_EVIDENCE_MISSING'' x)"
  "reject ''NOT_AN_ADMITTING_SLOT'' x = Inr (verdict_of ''NOT_AN_ADMITTING_SLOT'' x)"
  "reject ''NOT_A_COORDINATOR_SLOT'' x = Inr (verdict_of ''NOT_A_COORDINATOR_SLOT'' x)"
  "reject ''DIRECTIVE_UNKNOWN'' x = Inr (verdict_of ''DIRECTIVE_UNKNOWN'' x)"
  "reject ''DIRECTIVE_NOT_LIVE'' x = Inr (verdict_of ''DIRECTIVE_NOT_LIVE'' x)"
  "reject ''DIRECTIVE_CITATION_MISSING'' x = Inr (verdict_of ''DIRECTIVE_CITATION_MISSING'' x)"
  "reject ''SUPERSEDED_DIRECTIVE_UNKNOWN'' x = Inr (verdict_of ''SUPERSEDED_DIRECTIVE_UNKNOWN'' x)"
  "reject ''DECOMPOSITION_TARGET_UNKNOWN'' x = Inr (verdict_of ''DECOMPOSITION_TARGET_UNKNOWN'' x)"
  "reject ''DECOMPOSITION_SUBLEMMA_UNKNOWN'' x = Inr (verdict_of ''DECOMPOSITION_SUBLEMMA_UNKNOWN'' x)"
  "reject ''DECOMPOSITION_STATEMENT_MISMATCH'' x = Inr (verdict_of ''DECOMPOSITION_STATEMENT_MISMATCH'' x)"
  "reject ''ROUTE_TRIGGER_REF_UNKNOWN'' x = Inr (verdict_of ''ROUTE_TRIGGER_REF_UNKNOWN'' x)"
  by (simp_all add: reject_known VERDICT_CODES_def ACCEPTED_def)

lemma reject_not_accepted: "reject code detail = Inr v \<Longrightarrow> \<not> accepted v"
  by (auto simp: reject_def verdict_init_def Let_def accepted_def split: if_splits)

text \<open>The detail that is kept never exceeds the bound in its replaced form, and it is a prefix of it
  when it was cut.\<close>

lemma verdict_init_Inr:
  "verdict_init code detail = Inr v \<longleftrightarrow> code \<in> set VERDICT_CODES \<and> v = verdict_of code detail"
  by (auto simp: verdict_init_def verdict_of_def Let_def)

end
