(* ===== verification/Schemas.thy ===== *)
theory Schemas
  imports Verdict
begin

text \<open>
  The agenda-treatment payloads, \<open>agenda_treatments/schemas.py\<close>: the strict field validators, the
  walk that refuses self-asserted identities, one record with its parser and its wire form for each
  of the eight schemas, and the builders that wrap a payload in a contribution.
\<close>

definition TASK_PROPOSAL_SCHEMA :: string where
  "TASK_PROPOSAL_SCHEMA = ''PMW_AGENDA_TASK_PROPOSAL_1''"

definition TASK_ADMISSION_SCHEMA :: string where
  "TASK_ADMISSION_SCHEMA = ''PMW_AGENDA_TASK_ADMISSION_1''"

definition TASK_CLAIM_SCHEMA :: string where
  "TASK_CLAIM_SCHEMA = ''PMW_AGENDA_TASK_CLAIM_1''"

definition TASK_RELEASE_SCHEMA :: string where
  "TASK_RELEASE_SCHEMA = ''PMW_AGENDA_TASK_RELEASE_1''"

definition TASK_OUTCOME_SCHEMA :: string where
  "TASK_OUTCOME_SCHEMA = ''PMW_AGENDA_TASK_OUTCOME_1''"

definition DIRECTIVE_SCHEMA :: string where
  "DIRECTIVE_SCHEMA = ''PMW_AGENDA_DIRECTIVE_1''"

definition DECOMPOSITION_SCHEMA :: string where
  "DECOMPOSITION_SCHEMA = ''PMW_AGENDA_DECOMPOSITION_1''"

definition ROUTE_DECLARATION_SCHEMA :: string where
  "ROUTE_DECLARATION_SCHEMA = ''PMW_AGENDA_ROUTE_DECLARATION_1''"

lemmas schema_names = TASK_PROPOSAL_SCHEMA_def TASK_ADMISSION_SCHEMA_def TASK_CLAIM_SCHEMA_def
  TASK_RELEASE_SCHEMA_def TASK_OUTCOME_SCHEMA_def DIRECTIVE_SCHEMA_def DECOMPOSITION_SCHEMA_def
  ROUTE_DECLARATION_SCHEMA_def

definition AGENDA_TREATMENT_SCHEMAS :: "string list" where
  "AGENDA_TREATMENT_SCHEMAS =
     [TASK_PROPOSAL_SCHEMA, TASK_ADMISSION_SCHEMA, TASK_CLAIM_SCHEMA, TASK_RELEASE_SCHEMA,
      TASK_OUTCOME_SCHEMA, DIRECTIVE_SCHEMA, DECOMPOSITION_SCHEMA, ROUTE_DECLARATION_SCHEMA]"

definition TREATMENT_KIND_BINDING :: "(string \<times> string list) list" where
  "TREATMENT_KIND_BINDING =
     [(TASK_PROPOSAL_SCHEMA, [''NEED'']),
      (TASK_ADMISSION_SCHEMA, [''CHECKPOINT'']),
      (TASK_CLAIM_SCHEMA, [''NOTE'']),
      (TASK_RELEASE_SCHEMA, [''NOTE'']),
      (TASK_OUTCOME_SCHEMA, [''RESULT'', ''ATTEMPT'']),
      (DIRECTIVE_SCHEMA, [''CHECKPOINT'']),
      (DECOMPOSITION_SCHEMA, [''RESULT'']),
      (ROUTE_DECLARATION_SCHEMA, [''ATTEMPT''])]"

text \<open>The check at import: no binding leaves the vocabulary of the six kinds.\<close>

lemma TREATMENT_KIND_BINDING_kinds:
  "\<forall>(schema, kinds) \<in> set TREATMENT_KIND_BINDING. kinds \<noteq> [] \<and> set kinds \<subseteq> set RESEARCH_KINDS"
  by (simp add: TREATMENT_KIND_BINDING_def RESEARCH_KINDS_def)

definition OUTCOME_DISPOSITIONS :: "string list" where
  "OUTCOME_DISPOSITIONS = [''ABANDONED'', ''BLOCKED'', ''COMPLETED'']"

definition OUTCOME_DISPOSITION_KIND :: "(string \<times> string) list" where
  "OUTCOME_DISPOSITION_KIND =
     [(''COMPLETED'', ''RESULT''), (''ABANDONED'', ''ATTEMPT''), (''BLOCKED'', ''ATTEMPT'')]"

definition COMPLETION_CONTRACT_KINDS :: "string list" where
  "COMPLETION_CONTRACT_KINDS = [''AMF_VERIFIER_PASS'', ''PEER_CHECKPOINT'', ''DECLARED_STATEMENT'']"

definition ARTIFACT_BACKED_CONTRACT_KINDS :: "string list" where
  "ARTIFACT_BACKED_CONTRACT_KINDS = [''AMF_VERIFIER_PASS'']"

definition PRIMARY_ACTION_KINDS :: "string list" where
  "PRIMARY_ACTION_KINDS = [''ATTEMPT'', ''RESULT'', ''CHECKPOINT'']"

definition CITED_DIRECTIVE_REFS_FIELD :: string where
  "CITED_DIRECTIVE_REFS_FIELD = ''cited_directive_refs''"

definition HOST_INJECTED_IDENTITY_KEYS :: "string list" where
  "HOST_INJECTED_IDENTITY_KEYS =
     [''agent_id'', ''base_snapshot_ref'', ''claimant'', ''claimant_session_id'', ''cohort_id'',
      ''holder_session_id'', ''principal_ref'', ''session_id'', ''world_id'', ''world_ref'']"

definition MAXIMUM_STATEMENT_BYTES :: nat where
  "MAXIMUM_STATEMENT_BYTES = 8000"

definition MAXIMUM_DETAIL_BYTES :: nat where
  "MAXIMUM_DETAIL_BYTES = 8000"

definition MAXIMUM_INSTRUCTION_BYTES :: nat where
  "MAXIMUM_INSTRUCTION_BYTES = 8000"

definition MAXIMUM_ROUTE_STATEMENT_BYTES :: nat where
  "MAXIMUM_ROUTE_STATEMENT_BYTES = 8000"

definition MAXIMUM_DIFFERENTIATION_NOTE_BYTES :: nat where
  "MAXIMUM_DIFFERENTIATION_NOTE_BYTES = 8000"

definition MAXIMUM_DEPENDENCY_REFS :: nat where
  "MAXIMUM_DEPENDENCY_REFS = 32"

definition MAXIMUM_SUPERSEDES_REFS :: nat where
  "MAXIMUM_SUPERSEDES_REFS = 16"

definition MAXIMUM_CITED_DIRECTIVE_REFS :: nat where
  "MAXIMUM_CITED_DIRECTIVE_REFS = 16"

definition MAXIMUM_PEER_TRIGGER_REFS :: nat where
  "MAXIMUM_PEER_TRIGGER_REFS = 16"

definition MAXIMUM_SUBLEMMAS :: nat where
  "MAXIMUM_SUBLEMMAS = 64"

definition MAXIMUM_LEASE_TICKS :: int where
  "MAXIMUM_LEASE_TICKS = 2 ^ 31"

section \<open>Strict field validators\<close>

text \<open>\<open>AgendaSchemaError\<close> keeps the first 2000 characters of its detail.\<close>

definition schema_error :: "string \<Rightarrow> string \<Rightarrow> exn" where
  "schema_error code detail = Agenda_Schema_Error code (cp_take 2000 detail)"

definition payload_malformed :: "string \<Rightarrow> exn" where
  "payload_malformed detail = schema_error ''PAYLOAD_MALFORMED'' detail"

definition sc_text :: "string \<Rightarrow> nat \<Rightarrow> pyval \<Rightarrow> string result" where
  "sc_text label maximum value = (case value of
      PStr s \<Rightarrow>
        if s = [] then Inl (payload_malformed label)
        else if \<not> utf8_valid s then Inl (payload_malformed label)
        else if maximum < length s then Inl (payload_malformed (label @ '': too long''))
        else Inr s
    | _ \<Rightarrow> Inl (payload_malformed label))"

definition sc_identifier :: "string \<Rightarrow> (string \<Rightarrow> bool) \<Rightarrow> pyval \<Rightarrow> string result" where
  "sc_identifier label pattern value = (case value of
      PStr s \<Rightarrow> if pattern s then Inr s else Inl (payload_malformed label)
    | _ \<Rightarrow> Inl (payload_malformed label))"

definition sc_admission_ref :: "string \<Rightarrow> pyval \<Rightarrow> string result" where
  "sc_admission_ref label value = (case value of
      PStr s \<Rightarrow> if is_ADMISSION_REF s then Inr s else Inl (payload_malformed label)
    | _ \<Rightarrow> Inl (payload_malformed label))"

definition sc_positive_integer :: "string \<Rightarrow> int \<Rightarrow> pyval \<Rightarrow> int result" where
  "sc_positive_integer label maximum value = (case value of
      PInt i \<Rightarrow> if 1 \<le> i \<and> i \<le> maximum then Inr i else Inl (payload_malformed label)
    | _ \<Rightarrow> Inl (payload_malformed label))"

definition sc_member :: "string \<Rightarrow> string list \<Rightarrow> pyval \<Rightarrow> string result" where
  "sc_member label allowed value = (case value of
      PStr s \<Rightarrow> if s \<in> set allowed then Inr s else Inl (payload_malformed label)
    | _ \<Rightarrow> Inl (payload_malformed label))"

definition exact_fields :: "string \<Rightarrow> string list \<Rightarrow> pyval \<Rightarrow> (string \<times> pyval) list result" where
  "exact_fields label expected value = (case value of
      PDict d \<Rightarrow>
        if set (keys d) \<noteq> set expected
        then Inl (payload_malformed (label @ '': fields '' @ repr_texts (sort (remdups (keys d)))))
        else Inr d
    | _ \<Rightarrow> Inl (payload_malformed label))"

definition ref_tuple :: "string \<Rightarrow> nat \<Rightarrow> pyval \<Rightarrow> string list result" where
  "ref_tuple label maximum values = (case values of
      PList vs \<Rightarrow>
        if maximum < length vs then Inl (payload_malformed (label @ '': too many''))
        else rbind (rmap (sc_admission_ref label) vs) (\<lambda>selected.
          if \<not> distinct selected then Inl (payload_malformed (label @ '': duplicate''))
          else if selected \<noteq> sort selected then Inl (payload_malformed (label @ '': unsorted''))
          else Inr selected)
    | _ \<Rightarrow> Inl (payload_malformed label))"

text \<open>The walk over the whole payload; the top of the stack first.\<close>

lemma payload_nodes_children:
  "sum_list (map payload_nodes (rev (map snd d) @ stack)) <
     sum_list (map payload_nodes (PDict d # stack))"
  "sum_list (map payload_nodes (rev vs @ stack)) < sum_list (map payload_nodes (PList vs # stack))"
  by (simp_all add: rev_map [symmetric] comp_def)

function identity_walk :: "pyval list \<Rightarrow> unit result" where
  "identity_walk stack = (case stack of
      [] \<Rightarrow> Inr ()
    | item # rest \<Rightarrow> (case item of
          PDict d \<Rightarrow> (case find (\<lambda>key. key \<in> set HOST_INJECTED_IDENTITY_KEYS) (keys d) of
              Some key \<Rightarrow> Inl (schema_error ''IDENTITY_FIELD_SELF_ASSERTED'' key)
            | None \<Rightarrow> identity_walk (rev (map snd d) @ rest))
        | PList vs \<Rightarrow> identity_walk (rev vs @ rest)
        | _ \<Rightarrow> identity_walk rest))"
  by pat_completeness auto
termination
  by (relation "measure (\<lambda>stack. sum_list (map payload_nodes stack))")
    (use payload_nodes_children in \<open>auto simp: rev_map [symmetric] comp_def\<close>)

declare identity_walk.simps [simp del]

definition reject_self_asserted_identity :: "pyval \<Rightarrow> unit result" where
  "reject_self_asserted_identity payload = identity_walk [payload]"

definition typed_fields ::
  "string \<Rightarrow> string list \<Rightarrow> pyval \<Rightarrow> (string \<times> pyval) list result" where
  "typed_fields schema expected value = (case value of
      PDict d \<Rightarrow>
        if dget ''schema'' d \<noteq> PStr schema
        then Inl (schema_error ''PAYLOAD_SCHEMA_MISMATCH'' (cp_take 128 (py_str (dget ''schema'' d))))
        else rbind (reject_self_asserted_identity value) (\<lambda>_.
          if CITED_DIRECTIVE_REFS_FIELD \<in> set (keys d) then
            rbind (ref_tuple CITED_DIRECTIVE_REFS_FIELD MAXIMUM_CITED_DIRECTIVE_REFS (dget CITED_DIRECTIVE_REFS_FIELD d)) (\<lambda>_.
              exact_fields schema expected
                (PDict (filter (\<lambda>(key, _). key \<noteq> CITED_DIRECTIVE_REFS_FIELD) d)))
          else exact_fields schema expected value)
    | _ \<Rightarrow> Inl (payload_malformed ''payload is not an object''))"

section \<open>Completion contracts and evidence\<close>

record completion_contract =
  cc_contract_kind :: string
  cc_target_id :: "string option"
  cc_detail :: string

definition completion_contract_to_value :: "completion_contract \<Rightarrow> pyval" where
  "completion_contract_to_value c = PDict [(''contract_kind'', PStr (cc_contract_kind c)),
     (''target_id'', opt_text (cc_target_id c)), (''detail'', PStr (cc_detail c))]"

text \<open>\<open>value\<close> when it is \<open>None\<close>, the validated value otherwise.\<close>

definition optional :: "(pyval \<Rightarrow> 'a result) \<Rightarrow> pyval \<Rightarrow> 'a option result" where
  "optional validator value =
     (if value = PNone then Inr None else rbind (validator value) (\<lambda>x. Inr (Some x)))"

definition completion_contract_parse :: "string \<Rightarrow> pyval \<Rightarrow> completion_contract result" where
  "completion_contract_parse label value =
     rbind (exact_fields label [''contract_kind'', ''target_id'', ''detail''] value) (\<lambda>selected.
     rbind (optional (sc_identifier (label @ ''.target_id'') is_PROBLEM_ID)
              (dget ''target_id'' selected)) (\<lambda>target.
     rbind (sc_member (label @ ''.contract_kind'') COMPLETION_CONTRACT_KINDS
              (dget ''contract_kind'' selected)) (\<lambda>kind.
     rbind (sc_text (label @ ''.detail'') MAXIMUM_DETAIL_BYTES (dget ''detail'' selected)) (\<lambda>detail.
       Inr \<lparr>cc_contract_kind = kind, cc_target_id = target, cc_detail = detail\<rparr>))))"

record completion_evidence =
  ce_contract_kind :: string
  ce_detail :: string

definition completion_evidence_to_value :: "completion_evidence \<Rightarrow> pyval" where
  "completion_evidence_to_value c =
     PDict [(''contract_kind'', PStr (ce_contract_kind c)), (''detail'', PStr (ce_detail c))]"

definition completion_evidence_parse :: "string \<Rightarrow> pyval \<Rightarrow> completion_evidence result" where
  "completion_evidence_parse label value =
     rbind (exact_fields label [''contract_kind'', ''detail''] value) (\<lambda>selected.
     rbind (sc_member (label @ ''.contract_kind'') COMPLETION_CONTRACT_KINDS
              (dget ''contract_kind'' selected)) (\<lambda>kind.
     rbind (sc_text (label @ ''.detail'') MAXIMUM_DETAIL_BYTES (dget ''detail'' selected)) (\<lambda>detail.
       Inr \<lparr>ce_contract_kind = kind, ce_detail = detail\<rparr>)))"

section \<open>Payloads\<close>

record task_proposal =
  tp_statement :: string
  tp_dependency_task_refs :: "string list"
  tp_completion_contract :: completion_contract

definition task_proposal_to_value :: "task_proposal \<Rightarrow> pyval" where
  "task_proposal_to_value p = PDict [
     (''schema'', PStr TASK_PROPOSAL_SCHEMA),
     (''statement'', PStr (tp_statement p)),
     (''dependency_task_refs'', texts (tp_dependency_task_refs p)),
     (''completion_contract'', completion_contract_to_value (tp_completion_contract p))]"

definition task_proposal_parse :: "pyval \<Rightarrow> task_proposal result" where
  "task_proposal_parse value =
     rbind (typed_fields TASK_PROPOSAL_SCHEMA
              [''schema'', ''statement'', ''dependency_task_refs'', ''completion_contract''] value) (\<lambda>selected.
     rbind (sc_text ''statement'' MAXIMUM_STATEMENT_BYTES (dget ''statement'' selected)) (\<lambda>statement.
     rbind (ref_tuple ''dependency_task_refs'' MAXIMUM_DEPENDENCY_REFS (dget ''dependency_task_refs'' selected)) (\<lambda>deps.
     rbind (completion_contract_parse ''completion_contract'' (dget ''completion_contract'' selected)) (\<lambda>contract.
       Inr \<lparr>tp_statement = statement, tp_dependency_task_refs = deps,
            tp_completion_contract = contract\<rparr>))))"

record task_admission =
  ta_statement :: string
  ta_dependency_task_refs :: "string list"
  ta_completion_contract :: completion_contract
  ta_proposal_ref :: "string option"

definition task_admission_to_value :: "task_admission \<Rightarrow> pyval" where
  "task_admission_to_value p = PDict [
     (''schema'', PStr TASK_ADMISSION_SCHEMA),
     (''statement'', PStr (ta_statement p)),
     (''dependency_task_refs'', texts (ta_dependency_task_refs p)),
     (''completion_contract'', completion_contract_to_value (ta_completion_contract p)),
     (''proposal_ref'', opt_text (ta_proposal_ref p))]"

definition task_admission_parse :: "pyval \<Rightarrow> task_admission result" where
  "task_admission_parse value =
     rbind (typed_fields TASK_ADMISSION_SCHEMA
              [''schema'', ''statement'', ''dependency_task_refs'', ''completion_contract'',
               ''proposal_ref''] value) (\<lambda>selected.
     rbind (optional (sc_admission_ref ''proposal_ref'') (dget ''proposal_ref'' selected)) (\<lambda>proposal.
     rbind (sc_text ''statement'' MAXIMUM_STATEMENT_BYTES (dget ''statement'' selected)) (\<lambda>statement.
     rbind (ref_tuple ''dependency_task_refs'' MAXIMUM_DEPENDENCY_REFS (dget ''dependency_task_refs'' selected)) (\<lambda>deps.
     rbind (completion_contract_parse ''completion_contract'' (dget ''completion_contract'' selected)) (\<lambda>contract.
       Inr \<lparr>ta_statement = statement, ta_dependency_task_refs = deps,
            ta_completion_contract = contract, ta_proposal_ref = proposal\<rparr>)))))"

record task_claim =
  tc_task_ref :: string
  tc_lease_ticks :: int

definition task_claim_to_value :: "task_claim \<Rightarrow> pyval" where
  "task_claim_to_value p = PDict [
     (''schema'', PStr TASK_CLAIM_SCHEMA),
     (''task_ref'', PStr (tc_task_ref p)),
     (''lease_ticks'', PInt (tc_lease_ticks p))]"

definition task_claim_parse :: "pyval \<Rightarrow> task_claim result" where
  "task_claim_parse value =
     rbind (typed_fields TASK_CLAIM_SCHEMA [''schema'', ''task_ref'', ''lease_ticks''] value) (\<lambda>selected.
     rbind (sc_admission_ref ''task_ref'' (dget ''task_ref'' selected)) (\<lambda>task_ref.
     rbind (sc_positive_integer ''lease_ticks'' MAXIMUM_LEASE_TICKS (dget ''lease_ticks'' selected)) (\<lambda>ticks.
       Inr \<lparr>tc_task_ref = task_ref, tc_lease_ticks = ticks\<rparr>)))"

record task_release =
  tr_task_ref :: string
  tr_claim_ref :: string

definition task_release_to_value :: "task_release \<Rightarrow> pyval" where
  "task_release_to_value p = PDict [
     (''schema'', PStr TASK_RELEASE_SCHEMA),
     (''task_ref'', PStr (tr_task_ref p)),
     (''claim_ref'', PStr (tr_claim_ref p))]"

definition task_release_parse :: "pyval \<Rightarrow> task_release result" where
  "task_release_parse value =
     rbind (typed_fields TASK_RELEASE_SCHEMA [''schema'', ''task_ref'', ''claim_ref''] value) (\<lambda>selected.
     rbind (sc_admission_ref ''task_ref'' (dget ''task_ref'' selected)) (\<lambda>task_ref.
     rbind (sc_admission_ref ''claim_ref'' (dget ''claim_ref'' selected)) (\<lambda>claim_ref.
       Inr \<lparr>tr_task_ref = task_ref, tr_claim_ref = claim_ref\<rparr>)))"

record task_outcome =
  to_task_ref :: string
  to_claim_ref :: string
  to_disposition :: string
  to_completion_evidence :: "completion_evidence option"

definition task_outcome_to_value :: "task_outcome \<Rightarrow> pyval" where
  "task_outcome_to_value p = PDict [
     (''schema'', PStr TASK_OUTCOME_SCHEMA),
     (''task_ref'', PStr (to_task_ref p)),
     (''claim_ref'', PStr (to_claim_ref p)),
     (''disposition'', PStr (to_disposition p)),
     (''completion_evidence'', (case to_completion_evidence p of
          None \<Rightarrow> PNone | Some evidence \<Rightarrow> completion_evidence_to_value evidence))]"

definition task_outcome_parse :: "pyval \<Rightarrow> task_outcome result" where
  "task_outcome_parse value =
     rbind (typed_fields TASK_OUTCOME_SCHEMA
              [''schema'', ''task_ref'', ''claim_ref'', ''disposition'', ''completion_evidence''] value) (\<lambda>selected.
     rbind (sc_member ''disposition'' OUTCOME_DISPOSITIONS (dget ''disposition'' selected)) (\<lambda>disposition.
     rbind (let raw_evidence = dget ''completion_evidence'' selected
            in if disposition = ''COMPLETED'' then
                 (if raw_evidence = PNone
                  then Inl (schema_error ''COMPLETION_EVIDENCE_MISSING'' ''COMPLETED outcome'')
                  else rbind (completion_evidence_parse ''completion_evidence'' raw_evidence)
                         (\<lambda>evidence. Inr (Some evidence)))
               else if raw_evidence \<noteq> PNone
                 then Inl (payload_malformed
                             ''completion_evidence: only a COMPLETED outcome carries it'')
                 else Inr None) (\<lambda>evidence.
     rbind (sc_admission_ref ''task_ref'' (dget ''task_ref'' selected)) (\<lambda>task_ref.
     rbind (sc_admission_ref ''claim_ref'' (dget ''claim_ref'' selected)) (\<lambda>claim_ref.
       Inr \<lparr>to_task_ref = task_ref, to_claim_ref = claim_ref, to_disposition = disposition,
            to_completion_evidence = evidence\<rparr>)))))"

record directive =
  di_directive_id :: string
  di_instruction :: string
  di_supersedes_refs :: "string list"

definition directive_to_value :: "directive \<Rightarrow> pyval" where
  "directive_to_value p = PDict [
     (''schema'', PStr DIRECTIVE_SCHEMA),
     (''directive_id'', PStr (di_directive_id p)),
     (''instruction'', PStr (di_instruction p)),
     (''supersedes_refs'', texts (di_supersedes_refs p))]"

definition directive_parse :: "pyval \<Rightarrow> directive result" where
  "directive_parse value =
     rbind (typed_fields DIRECTIVE_SCHEMA
              [''schema'', ''directive_id'', ''instruction'', ''supersedes_refs''] value) (\<lambda>selected.
     rbind (sc_identifier ''directive_id'' is_PROBLEM_ID (dget ''directive_id'' selected)) (\<lambda>directive_id.
     rbind (sc_text ''instruction'' MAXIMUM_INSTRUCTION_BYTES (dget ''instruction'' selected)) (\<lambda>instruction.
     rbind (ref_tuple ''supersedes_refs'' MAXIMUM_SUPERSEDES_REFS (dget ''supersedes_refs'' selected)) (\<lambda>refs.
       Inr \<lparr>di_directive_id = directive_id, di_instruction = instruction,
            di_supersedes_refs = refs\<rparr>))))"

record sublemma =
  sl_statement :: string
  sl_admission_ref :: string

definition sublemma_to_value :: "sublemma \<Rightarrow> pyval" where
  "sublemma_to_value s =
     PDict [(''statement'', PStr (sl_statement s)), (''admission_ref'', PStr (sl_admission_ref s))]"

definition sublemma_parse :: "string \<Rightarrow> pyval \<Rightarrow> sublemma result" where
  "sublemma_parse label value =
     rbind (exact_fields label [''statement'', ''admission_ref''] value) (\<lambda>selected.
     rbind (sc_text (label @ ''.statement'') MAXIMUM_STATEMENT_BYTES (dget ''statement'' selected)) (\<lambda>statement.
     rbind (sc_admission_ref (label @ ''.admission_ref'') (dget ''admission_ref'' selected)) (\<lambda>ref.
       Inr \<lparr>sl_statement = statement, sl_admission_ref = ref\<rparr>)))"

record decomposition =
  dc_target_ref :: string
  dc_sublemmas :: "sublemma list"

definition decomposition_to_value :: "decomposition \<Rightarrow> pyval" where
  "decomposition_to_value p = PDict [
     (''schema'', PStr DECOMPOSITION_SCHEMA),
     (''target_ref'', PStr (dc_target_ref p)),
     (''sublemmas'', PList (map sublemma_to_value (dc_sublemmas p))),
     (''coverage_claim'', PStr ''SUBLEMMAS_JOINTLY_SUFFICE_FOR_TARGET'')]"

definition decomposition_parse :: "pyval \<Rightarrow> decomposition result" where
  "decomposition_parse value =
     rbind (typed_fields DECOMPOSITION_SCHEMA
              [''schema'', ''target_ref'', ''sublemmas'', ''coverage_claim''] value) (\<lambda>selected.
     if dget ''coverage_claim'' selected \<noteq> PStr ''SUBLEMMAS_JOINTLY_SUFFICE_FOR_TARGET''
     then Inl (payload_malformed ''coverage_claim'')
     else case dget ''sublemmas'' selected of
         PList raw \<Rightarrow>
           if raw = [] then Inl (payload_malformed ''sublemmas'')
           else if MAXIMUM_SUBLEMMAS < length raw then Inl (payload_malformed ''sublemmas: too many'')
           else rbind (rmap (\<lambda>(index, item). sublemma_parse (''sublemmas['' @ nat_digits index @ '']'') item)
                         (enumerate 0 raw)) (\<lambda>parsed.
             if \<not> distinct (map sl_admission_ref parsed)
             then Inl (payload_malformed ''sublemmas: duplicate admission_ref'')
             else rbind (sc_admission_ref ''target_ref'' (dget ''target_ref'' selected)) (\<lambda>target.
               Inr \<lparr>dc_target_ref = target, dc_sublemmas = parsed\<rparr>))
       | _ \<Rightarrow> Inl (payload_malformed ''sublemmas''))"

record route_declaration =
  rd_route_statement :: string
  rd_peer_trigger_refs :: "string list"
  rd_differentiation_note :: "string option"

definition route_declaration_to_value :: "route_declaration \<Rightarrow> pyval" where
  "route_declaration_to_value p = PDict [
     (''schema'', PStr ROUTE_DECLARATION_SCHEMA),
     (''route_statement'', PStr (rd_route_statement p)),
     (''peer_trigger_refs'', texts (rd_peer_trigger_refs p)),
     (''differentiation_note'', opt_text (rd_differentiation_note p))]"

definition route_declaration_parse :: "pyval \<Rightarrow> route_declaration result" where
  "route_declaration_parse value =
     rbind (typed_fields ROUTE_DECLARATION_SCHEMA
              [''schema'', ''route_statement'', ''peer_trigger_refs'', ''differentiation_note''] value) (\<lambda>selected.
     rbind (optional (sc_text ''differentiation_note'' MAXIMUM_DIFFERENTIATION_NOTE_BYTES) (dget ''differentiation_note'' selected)) (\<lambda>note.
     rbind (sc_text ''route_statement'' MAXIMUM_ROUTE_STATEMENT_BYTES (dget ''route_statement'' selected)) (\<lambda>statement.
     rbind (ref_tuple ''peer_trigger_refs'' MAXIMUM_PEER_TRIGGER_REFS (dget ''peer_trigger_refs'' selected)) (\<lambda>refs.
       Inr \<lparr>rd_route_statement = statement, rd_peer_trigger_refs = refs,
            rd_differentiation_note = note\<rparr>))))"

section \<open>Dispatch and builders\<close>

definition payload_schema :: "pyval \<Rightarrow> string option" where
  "payload_schema payload = (case payload of
      PDict d \<Rightarrow> (case dget ''schema'' d of
          PStr schema \<Rightarrow> if schema \<in> set AGENDA_TREATMENT_SCHEMAS then Some schema else None
        | _ \<Rightarrow> None)
    | _ \<Rightarrow> None)"

definition cited_directive_refs :: "pyval \<Rightarrow> string list option result" where
  "cited_directive_refs payload = (case payload of
      PDict d \<Rightarrow>
        if CITED_DIRECTIVE_REFS_FIELD \<in> set (keys d)
        then rbind (ref_tuple CITED_DIRECTIVE_REFS_FIELD MAXIMUM_CITED_DIRECTIVE_REFS (dget CITED_DIRECTIVE_REFS_FIELD d))
               (\<lambda>refs. Inr (Some refs))
        else Inr None
    | _ \<Rightarrow> Inr None)"

text \<open>\<open>PAYLOAD_PARSERS[schema](payload)\<close>, the parsed value dropped.\<close>

definition PAYLOAD_PARSERS :: "(string \<times> (pyval \<Rightarrow> unit result)) list" where
  "PAYLOAD_PARSERS =
     [(TASK_PROPOSAL_SCHEMA, \<lambda>v. rbind (task_proposal_parse v) (\<lambda>_. Inr ())),
      (TASK_ADMISSION_SCHEMA, \<lambda>v. rbind (task_admission_parse v) (\<lambda>_. Inr ())),
      (TASK_CLAIM_SCHEMA, \<lambda>v. rbind (task_claim_parse v) (\<lambda>_. Inr ())),
      (TASK_RELEASE_SCHEMA, \<lambda>v. rbind (task_release_parse v) (\<lambda>_. Inr ())),
      (TASK_OUTCOME_SCHEMA, \<lambda>v. rbind (task_outcome_parse v) (\<lambda>_. Inr ())),
      (DIRECTIVE_SCHEMA, \<lambda>v. rbind (directive_parse v) (\<lambda>_. Inr ())),
      (DECOMPOSITION_SCHEMA, \<lambda>v. rbind (decomposition_parse v) (\<lambda>_. Inr ())),
      (ROUTE_DECLARATION_SCHEMA, \<lambda>v. rbind (route_declaration_parse v) (\<lambda>_. Inr ()))]"

fun text_or_empty :: "pyval \<Rightarrow> string" where
  "text_or_empty (PStr s) = s"
| "text_or_empty _ = []"

definition wrap_contribution ::
  "pyval \<Rightarrow> (string \<times> pyval) list \<Rightarrow> pyval \<Rightarrow> pyval \<Rightarrow> pyval \<Rightarrow> pyval \<Rightarrow> pyval \<Rightarrow> pyval \<Rightarrow>
   research_contribution result" where
  "wrap_contribution kind payload title body problem_ids parent_refs artifact_refs directive_refs =
     rbind (case directive_refs of
              PNone \<Rightarrow> Inr payload
            | PList refs \<Rightarrow>
                rbind (ref_tuple CITED_DIRECTIVE_REFS_FIELD MAXIMUM_CITED_DIRECTIVE_REFS (PList (sort_key text_or_empty refs))) (\<lambda>selected.
                  Inr (AList.update CITED_DIRECTIVE_REFS_FIELD (texts selected) payload))
            | _ \<Rightarrow> Inl (payload_malformed CITED_DIRECTIVE_REFS_FIELD)) (\<lambda>selected.
     rbind (reject_self_asserted_identity (PDict selected)) (\<lambda>_.
       research_contribution_init kind title body problem_ids parent_refs artifact_refs (PDict selected)))"

definition build_treatment_contribution ::
  "pyval \<Rightarrow> pyval \<Rightarrow> pyval \<Rightarrow> pyval \<Rightarrow> pyval \<Rightarrow> pyval \<Rightarrow> pyval \<Rightarrow> pyval \<Rightarrow> research_contribution result" where
  "build_treatment_contribution payload kind title body problem_ids parent_refs artifact_refs directive_refs =
     (case (payload, payload_schema payload) of
        (PDict d, Some schema) \<Rightarrow>
          (let allowed = the (map_of TREATMENT_KIND_BINDING schema)
           in rbind (require (text_or_empty kind \<in> set allowed)
                      (schema_error ''RECORD_KIND_NOT_ALLOWED''
                        (schema @ '' accepts '' @ repr_texts (sort allowed)))) (\<lambda>_.
              rbind (if schema = TASK_OUTCOME_SCHEMA then
                       rbind (task_outcome_parse payload) (\<lambda>parsed.
                         let required = the (map_of OUTCOME_DISPOSITION_KIND (to_disposition parsed))
                         in require (text_or_empty kind = required)
                              (schema_error ''RECORD_KIND_NOT_ALLOWED''
                                (to_disposition parsed @ '' outcome must ride '' @ required)))
                     else the (map_of PAYLOAD_PARSERS schema) payload) (\<lambda>_.
                wrap_contribution kind d title body problem_ids parent_refs artifact_refs directive_refs)))
      | _ \<Rightarrow> Inl (schema_error ''PAYLOAD_SCHEMA_MISMATCH'' ''not an agenda-treatment payload''))"

definition build_action_contribution ::
  "pyval \<Rightarrow> pyval \<Rightarrow> pyval \<Rightarrow> pyval \<Rightarrow> (string \<times> pyval) list option \<Rightarrow> pyval \<Rightarrow> pyval \<Rightarrow> pyval \<Rightarrow>
   research_contribution result" where
  "build_action_contribution kind title body directive_refs payload problem_ids parent_refs artifact_refs =
     (if text_or_empty kind \<notin> set RESEARCH_KINDS
      then Inl (schema_error ''RECORD_KIND_NOT_ALLOWED'' (cp_take 64 (py_str kind)))
      else wrap_contribution kind (case payload of None \<Rightarrow> [] | Some d \<Rightarrow> d) title body problem_ids
             parent_refs artifact_refs directive_refs)"

end
