(* ===== verification/Schema_Codecs.thy ===== *)
theory Schema_Codecs
  imports Schemas
begin

text \<open>
  Correctness of the payload parsers of \<open>agenda_treatments/schemas.py\<close>. The locales
  \<open>payload_codec\<close> and \<open>treatment_codec\<close> state what a parser and its wire form promise each other:
  the parser accepts only well-formed payloads, reads its own wire form back, loses nothing but the
  citations, and fails only with the stable errors of the module. Each of the eight schemas is an
  interpretation. The last section is about the builders.
\<close>

section \<open>What the validators accept\<close>

lemma sc_text_Inr [result_dests]: "sc_text label n v = Inr s \<longleftrightarrow> v = PStr s \<and> text_ok n s"
  by (auto simp: sc_text_def text_ok_def split: pyval.splits)

lemma sc_identifier_Inr [result_dests]: "sc_identifier label pattern v = Inr s \<longleftrightarrow> v = PStr s \<and> pattern s"
  by (auto simp: sc_identifier_def split: pyval.splits)

lemma sc_admission_ref_Inr [result_dests]: "sc_admission_ref label v = Inr s \<longleftrightarrow> v = PStr s \<and> is_ADMISSION_REF s"
  by (auto simp: sc_admission_ref_def split: pyval.splits)

lemma sc_positive_integer_Inr [result_dests]:
  "sc_positive_integer label n v = Inr i \<longleftrightarrow> v = PInt i \<and> 1 \<le> i \<and> i \<le> n"
  by (auto simp: sc_positive_integer_def split: pyval.splits)

lemma sc_member_Inr [result_dests]: "sc_member label allowed v = Inr s \<longleftrightarrow> v = PStr s \<and> s \<in> set allowed"
  by (auto simp: sc_member_def split: pyval.splits)

lemma exact_fields_Inr [result_dests]:
  "exact_fields label expected v = Inr d \<longleftrightarrow> v = PDict d \<and> set (keys d) = set expected"
  by (auto simp: exact_fields_def split: pyval.splits)

lemma sort_eq_iff_sorted: "xs = sort xs \<longleftrightarrow> sorted xs"
  by (metis sorted_sort sorted_sort_id)

lemma ref_tuple_Inr [result_dests]:
  "ref_tuple label n v = Inr ss \<longleftrightarrow> v = texts ss \<and> sorted_refs n is_ADMISSION_REF ss"
proof (cases v)
  case (PList vs)
  then show ?thesis
    by (auto simp: ref_tuple_def result_dests rmap_validator_Inr [OF sc_admission_ref_Inr] texts_def
        sorted_refs_def sort_eq_iff_sorted [symmetric])
qed (auto simp: ref_tuple_def texts_def)

lemma optional_Inr [result_dests]:
  "optional f v = Inr o' \<longleftrightarrow> (v = PNone \<and> o' = None \<or> v \<noteq> PNone \<and> (\<exists>x. f v = Inr x \<and> o' = Some x))"
  by (auto simp: optional_def rbind_Inr_iff)

section \<open>The identity walk\<close>

fun asserts_identity :: "pyval \<Rightarrow> bool" where
  "asserts_identity (PDict d) \<longleftrightarrow>
     (\<exists>p \<in> set d. fst p \<in> set HOST_INJECTED_IDENTITY_KEYS \<or> asserts_identity (snd p))"
| "asserts_identity (PList vs) \<longleftrightarrow> (\<exists>v \<in> set vs. asserts_identity v)"
| "asserts_identity v \<longleftrightarrow> False"

lemma find_SomeD: "find P xs = Some x \<Longrightarrow> x \<in> set xs \<and> P x"
  by (induction xs) (auto split: if_splits)

lemma identity_walk_simps [simp]:
  "identity_walk [] = Inr ()"
  "identity_walk (PDict d # rest) = (case find (\<lambda>key. key \<in> set HOST_INJECTED_IDENTITY_KEYS) (keys d) of
     Some key \<Rightarrow> Inl (schema_error ''IDENTITY_FIELD_SELF_ASSERTED'' key)
   | None \<Rightarrow> identity_walk (rev (map snd d) @ rest))"
  "identity_walk (PList vs # rest) = identity_walk (rev vs @ rest)"
  "identity_walk (PNone # rest) = identity_walk rest" "identity_walk (PBool b # rest) = identity_walk rest"
  "identity_walk (PInt i # rest) = identity_walk rest" "identity_walk (PStr s # rest) = identity_walk rest"
  "identity_walk (POther t # rest) = identity_walk rest"
  by (subst identity_walk.simps, simp)+

lemma identity_walk_Inr: "identity_walk stack = Inr () \<longleftrightarrow> (\<forall>v \<in> set stack. \<not> asserts_identity v)"
proof (induction stack rule: identity_walk.induct)
  case (1 stack)
  show ?case
  proof (cases stack)
    case (Cons item rest)
    show ?thesis
    proof (cases item)
      case (PDict d)
      show ?thesis
      proof (cases "find (\<lambda>key. key \<in> set HOST_INJECTED_IDENTITY_KEYS) (keys d)")
        case None
        with 1(6) [OF Cons PDict] have
          "identity_walk stack = Inr () \<longleftrightarrow> (\<forall>v \<in> set (map snd d @ rest). \<not> asserts_identity v)"
          by (simp add: Cons PDict)
        moreover have "\<forall>p \<in> set d. fst p \<notin> set HOST_INJECTED_IDENTITY_KEYS"
          using None by (auto simp: find_None_iff keys_def)
        ultimately show ?thesis using Cons PDict by auto
      next
        case (Some key)
        then obtain p where "p \<in> set d" "fst p \<in> set HOST_INJECTED_IDENTITY_KEYS"
          by (auto simp: keys_def dest!: find_SomeD)
        with Some Cons PDict show ?thesis by auto
      qed
    next
      case (PList vs)
      with 1(5) [OF Cons PList] Cons show ?thesis
        by auto
    qed (use 1 Cons in \<open>auto\<close>)
  qed simp
qed

lemma identity_walk_Inl:
  "identity_walk stack = Inl e \<Longrightarrow>
   \<exists>key \<in> set HOST_INJECTED_IDENTITY_KEYS. e = schema_error ''IDENTITY_FIELD_SELF_ASSERTED'' key"
proof (induction stack rule: identity_walk.induct)
  case (1 stack)
  show ?case
  proof (cases stack)
    case (Cons item rest)
    show ?thesis
    proof (cases item)
      case (PDict d)
      show ?thesis
      proof (cases "find (\<lambda>key. key \<in> set HOST_INJECTED_IDENTITY_KEYS) (keys d)")
        case None
        with 1(6) [OF Cons PDict] 1(8) show ?thesis
          by (simp add: Cons PDict)
      next
        case (Some key)
        with Cons PDict 1(8) show ?thesis
          by (auto dest: find_SomeD)
      qed
    qed (use 1 Cons in \<open>simp_all\<close>)
  qed (use 1(8) in \<open>simp\<close>)
qed

lemma reject_self_asserted_identity_Inr [result_dests]:
  "reject_self_asserted_identity v = Inr u \<longleftrightarrow> \<not> asserts_identity v"
  by (simp add: reject_self_asserted_identity_def identity_walk_Inr)

section \<open>Top-level fields\<close>

text \<open>A payload object less its directive citations.\<close>

definition uncited :: "(string \<times> pyval) list \<Rightarrow> (string \<times> pyval) list" where
  "uncited d = filter (\<lambda>(key, _). key \<noteq> CITED_DIRECTIVE_REFS_FIELD) d"

lemma uncited_id: "CITED_DIRECTIVE_REFS_FIELD \<notin> set (keys d) \<Longrightarrow> uncited d = d"
  by (force simp: uncited_def keys_def filter_id_conv)

text \<open>The conditions every treatment payload meets before its own fields are read.\<close>

definition payload_header :: "string \<Rightarrow> pyval \<Rightarrow> (string \<times> pyval) list \<Rightarrow> bool" where
  "payload_header schema v d \<longleftrightarrow> v = PDict d \<and> dget ''schema'' d = PStr schema \<and>
     \<not> asserts_identity v \<and>
     (CITED_DIRECTIVE_REFS_FIELD \<in> set (keys d) \<longrightarrow>
        (\<exists>ss. dget CITED_DIRECTIVE_REFS_FIELD d = texts ss \<and>
              sorted_refs MAXIMUM_CITED_DIRECTIVE_REFS is_ADMISSION_REF ss))"

lemma typed_fields_Inr [result_dests]:
  "typed_fields schema expected v = Inr e \<longleftrightarrow>
   (\<exists>d. payload_header schema v d \<and> e = uncited d \<and> set (keys e) = set expected)"
proof (cases v)
  case (PDict d)
  show ?thesis
  proof (cases "CITED_DIRECTIVE_REFS_FIELD \<in> set (keys d)")
    case True
    with PDict show ?thesis
      by (auto simp: typed_fields_def payload_header_def uncited_def rbind_Inr_iff if_Inr_iff
          reject_self_asserted_identity_Inr ref_tuple_Inr exact_fields_Inr simp del: asserts_identity.simps)
  next
    case False
    with PDict show ?thesis
      by (auto simp: typed_fields_def payload_header_def uncited_id rbind_Inr_iff if_Inr_iff
          reject_self_asserted_identity_Inr exact_fields_Inr simp del: asserts_identity.simps)
  qed
qed (simp_all add: typed_fields_def payload_header_def)

section \<open>Failures\<close>

text \<open>Every failure of a parser is an \<open>AgendaSchemaError\<close> with a rejection code of the vocabulary.\<close>

definition schema_failure :: "exn \<Rightarrow> bool" where
  "schema_failure e \<longleftrightarrow>
     (\<exists>code detail. e = Agenda_Schema_Error code detail \<and> code \<in> set VERDICT_CODES \<and> code \<noteq> ACCEPTED)"

lemma rbind_Inl_iff: "rbind m f = Inl e \<longleftrightarrow> m = Inl e \<or> (\<exists>x. m = Inr x \<and> f x = Inl e)"
  by (cases m) auto

lemma schema_failure_simps [simp]:
  "schema_failure (payload_malformed x)" "schema_failure (schema_error ''PAYLOAD_SCHEMA_MISMATCH'' x)"
  "schema_failure (schema_error ''COMPLETION_EVIDENCE_MISSING'' x)"
  "schema_failure (schema_error ''IDENTITY_FIELD_SELF_ASSERTED'' x)"
  by (simp_all add: schema_failure_def payload_malformed_def schema_error_def VERDICT_CODES_def ACCEPTED_def)

definition schema_safe :: "'a result \<Rightarrow> bool" where
  "schema_safe m \<longleftrightarrow> (\<forall>e. m = Inl e \<longrightarrow> schema_failure e)"

lemma schema_safe_simps [simp]:
  "schema_safe (Inr x)" "schema_safe (Inl e) = schema_failure e"
  by (simp_all add: schema_safe_def)

lemma schema_safe_rbind [intro!]:
  "schema_safe m \<Longrightarrow> (\<And>x. m = Inr x \<Longrightarrow> schema_safe (f x)) \<Longrightarrow> schema_safe (rbind m f)"
  by (auto simp: schema_safe_def rbind_Inl_iff)

lemma schema_safe_rmap: "(\<And>x. x \<in> set xs \<Longrightarrow> schema_safe (f x)) \<Longrightarrow> schema_safe (rmap f xs)"
  by (auto simp: schema_safe_def dest!: rmap_Inl_mem)

lemma schema_safe_validators [simp]:
  "schema_safe (sc_text label n v)" "schema_safe (sc_identifier label pattern v)"
  "schema_safe (sc_admission_ref label v)" "schema_safe (sc_positive_integer label i v)"
  "schema_safe (sc_member label allowed v)" "schema_safe (exact_fields label expected v)"
  by (simp_all add: sc_text_def sc_identifier_def sc_admission_ref_def sc_positive_integer_def
      sc_member_def exact_fields_def split: pyval.splits)

lemma schema_safe_ref_tuple [simp]: "schema_safe (ref_tuple label n v)"
  by (auto simp: ref_tuple_def intro!: schema_safe_rmap split: pyval.splits)

lemma schema_safe_optional: "(\<And>v. schema_safe (f v)) \<Longrightarrow> schema_safe (optional f v)"
  by (auto simp: optional_def)

lemma schema_safe_identity [simp]: "schema_safe (reject_self_asserted_identity v)"
  by (auto simp: schema_safe_def reject_self_asserted_identity_def dest!: identity_walk_Inl)

lemma schema_safe_typed_fields [simp]: "schema_safe (typed_fields schema expected v)"
  by (auto simp: typed_fields_def split: pyval.splits)

lemma schema_safe_nested [simp]:
  "schema_safe (completion_contract_parse label v)" "schema_safe (completion_evidence_parse label v)"
  "schema_safe (sublemma_parse label v)"
  by (auto simp: completion_contract_parse_def completion_evidence_parse_def sublemma_parse_def
      intro!: schema_safe_optional)

lemma schema_safe_parse:
  "schema_safe (task_proposal_parse v)" "schema_safe (task_admission_parse v)"
  "schema_safe (task_claim_parse v)" "schema_safe (task_release_parse v)"
  "schema_safe (task_outcome_parse v)" "schema_safe (directive_parse v)"
  "schema_safe (decomposition_parse v)" "schema_safe (route_declaration_parse v)"
  by (auto simp: task_proposal_parse_def task_admission_parse_def task_claim_parse_def
      task_release_parse_def task_outcome_parse_def directive_parse_def decomposition_parse_def
      route_declaration_parse_def Let_def intro!: schema_safe_optional schema_safe_rmap
      split: pyval.splits)

section \<open>Equality up to key order\<close>

lemma sort_json_dict_eq:
  assumes "distinct (keys d)" "distinct (keys e)" "set (keys d) = set (keys e)"
    and "\<And>k. k \<in> set (keys e) \<Longrightarrow> sort_json (dget k d) = sort_json (dget k e)"
  shows "sort_json (PDict d) = sort_json (PDict e)"
proof -
  have get: "map_of (sort_json_items a) k = map_option sort_json (map_of a k)" for a k
    by (simp add: sort_json_items_map map_of_map)
  have "map_of (sort_json_items d) = map_of (sort_json_items e)"
  proof
    fix k
    show "map_of (sort_json_items d) k = map_of (sort_json_items e) k"
    proof (cases "k \<in> set (keys e)")
      case True
      with assms(3) obtain v w where vw: "map_of d k = Some v" "map_of e k = Some w"
        by (metis keys_map_of)
      with assms(4) [OF True] show ?thesis by (simp add: get dget_def)
    next
      case False
      with assms(3) have "map_of d k = None" "map_of e k = None"
        by (metis keys_map_of not_Some_eq)+
      then show ?thesis by (simp add: get)
    qed
  qed
  then have "sort_key fst (sort_json_items (sort_json_items d)) = sort_key fst (sort_json_items (sort_json_items e))"
    using assms(1,2) by (intro sort_json_items_same_map) simp_all
  then show ?thesis by (simp add: sort_json_idem)
qed

lemma keys_uncited: "set (keys (uncited d)) = set (keys d) - {CITED_DIRECTIVE_REFS_FIELD}"
  by (auto simp: uncited_def keys_def)

lemma json_wf_uncited: "json_wf ok (PDict d) \<Longrightarrow> json_wf ok (PDict (uncited d))"
  by (auto simp: uncited_def keys_def json_wf_items_iff intro: distinct_map_filter)

lemma sort_json_opt_text [simp]: "sort_json (opt_text x) = opt_text x"
  by (simp add: opt_text_def split: option.splits)

lemma opt_text_simps [simp]: "opt_text None = PNone" "opt_text (Some s) = PStr s"
  by (simp_all add: opt_text_def)

lemma asserts_identity_texts [simp]: "\<not> asserts_identity (texts ss)" "\<not> asserts_identity (opt_text t)"
  by (auto simp: texts_def opt_text_def split: option.splits)

section \<open>Codecs\<close>

text \<open>What a parser and a wire form promise each other.\<close>

locale payload_codec =
  fixes parse :: "pyval \<Rightarrow> 'a result" and to_value :: "'a \<Rightarrow> pyval" and ok :: "'a \<Rightarrow> bool"
  assumes parse_ok: "parse v = Inr p \<Longrightarrow> ok p"
    and parse_to_value: "ok p \<Longrightarrow> parse (to_value p) = Inr p"
    and lossless: "parse v = Inr p \<Longrightarrow> json_wf (\<lambda>_. True) v \<Longrightarrow>
      \<exists>d. v = PDict d \<and> sort_json (PDict (uncited d)) = sort_json (to_value p)"
    and failures: "parse v = Inl e \<Longrightarrow> schema_failure e"
begin

lemma reparse: "parse v = Inr p \<Longrightarrow> parse (to_value p) = Inr p"
  by (rule parse_to_value) (rule parse_ok)

lemma to_value_inj: "ok p \<Longrightarrow> ok q \<Longrightarrow> to_value p = to_value q \<Longrightarrow> p = q"
  by (metis parse_to_value sum.inject(2))

lemma ok_iff: "ok p \<longleftrightarrow> (\<exists>v. parse v = Inr p)"
  using parse_to_value parse_ok by blast

text \<open>Two values with one reading have the same canonical bytes once their citations are dropped.\<close>

lemma canonical_unique:
  assumes "parse (PDict d) = Inr p" "parse (PDict e) = Inr p"
    "json_wf (\<lambda>_. True) (PDict d)" "json_wf (\<lambda>_. True) (PDict e)"
  shows "canonical_json (PDict (uncited d)) = canonical_json (PDict (uncited e))"
proof -
  from assms have "sort_json (PDict (uncited d)) = sort_json (PDict (uncited e))"
    using lossless [OF assms(1)] lossless [OF assms(2)] by auto
  then show ?thesis
    by (metis canonical_json_sort_json)
qed

end

text \<open>A codec of one of the eight schemas: its values carry the schema and no identity.\<close>

locale treatment_codec = payload_codec parse to_value ok
  for parse :: "pyval \<Rightarrow> 'a result" and to_value :: "'a \<Rightarrow> pyval" and ok :: "'a \<Rightarrow> bool" +
  fixes schema :: string
  assumes header: "parse v = Inr p \<Longrightarrow> \<exists>d. payload_header schema v d"
    and known: "schema \<in> set AGENDA_TREATMENT_SCHEMAS"
begin

lemma identity_free: "parse v = Inr p \<Longrightarrow> \<not> asserts_identity v"
  using header by (auto simp: payload_header_def)

lemma payload_schema: "parse v = Inr p \<Longrightarrow> payload_schema v = Some schema"
  using header known by (fastforce simp: payload_header_def payload_schema_def)

lemma cited_total: "parse v = Inr p \<Longrightarrow> \<exists>c. cited_directive_refs v = Inr c"
  using header [of v p]
  by (auto simp: payload_header_def cited_directive_refs_def ref_tuple_Inr rbind_Inr_iff)

end

section \<open>The nested objects\<close>

definition completion_contract_ok :: "completion_contract \<Rightarrow> bool" where
  "completion_contract_ok c \<longleftrightarrow> cc_contract_kind c \<in> set COMPLETION_CONTRACT_KINDS \<and>
     pred_option is_PROBLEM_ID (cc_target_id c) \<and> text_ok MAXIMUM_DETAIL_BYTES (cc_detail c)"

definition completion_evidence_ok :: "completion_evidence \<Rightarrow> bool" where
  "completion_evidence_ok c \<longleftrightarrow> ce_contract_kind c \<in> set COMPLETION_CONTRACT_KINDS \<and>
     text_ok MAXIMUM_DETAIL_BYTES (ce_detail c)"

definition sublemma_ok :: "sublemma \<Rightarrow> bool" where
  "sublemma_ok s \<longleftrightarrow> text_ok MAXIMUM_STATEMENT_BYTES (sl_statement s) \<and>
     is_ADMISSION_REF (sl_admission_ref s)"

lemma optional_text_Inr:
  assumes "\<And>v s. f v = Inr s \<longleftrightarrow> v = PStr s \<and> P s"
  shows "optional f v = Inr x \<longleftrightarrow> v = opt_text x \<and> pred_option P x"
  by (cases x) (auto simp: optional_Inr assms)

lemmas optional_Inrs = optional_text_Inr [OF sc_text_Inr] optional_text_Inr [OF sc_identifier_Inr]
  optional_text_Inr [OF sc_admission_ref_Inr]

lemmas validator_Inrs = rbind_Inr_iff sc_text_Inr sc_identifier_Inr sc_admission_ref_Inr
  sc_positive_integer_Inr sc_member_Inr exact_fields_Inr ref_tuple_Inr optional_Inrs typed_fields_Inr

lemma completion_contract_parse_Inr:
  "completion_contract_parse label v = Inr c \<longleftrightarrow> completion_contract_ok c \<and>
   (\<exists>d. v = PDict d \<and> set (keys d) = {''contract_kind'', ''target_id'', ''detail''} \<and>
      dget ''contract_kind'' d = PStr (cc_contract_kind c) \<and> dget ''target_id'' d = opt_text (cc_target_id c) \<and>
      dget ''detail'' d = PStr (cc_detail c))"
  by (cases c) (auto simp: completion_contract_parse_def completion_contract_ok_def validator_Inrs)

lemma completion_evidence_parse_Inr:
  "completion_evidence_parse label v = Inr c \<longleftrightarrow> completion_evidence_ok c \<and>
   (\<exists>d. v = PDict d \<and> set (keys d) = {''contract_kind'', ''detail''} \<and>
      dget ''contract_kind'' d = PStr (ce_contract_kind c) \<and> dget ''detail'' d = PStr (ce_detail c))"
  by (cases c) (auto simp: completion_evidence_parse_def completion_evidence_ok_def validator_Inrs)

lemma sublemma_parse_Inr:
  "sublemma_parse label v = Inr c \<longleftrightarrow> sublemma_ok c \<and>
   (\<exists>d. v = PDict d \<and> set (keys d) = {''statement'', ''admission_ref''} \<and>
      dget ''statement'' d = PStr (sl_statement c) \<and> dget ''admission_ref'' d = PStr (sl_admission_ref c))"
  by (cases c) (auto simp: sublemma_parse_def sublemma_ok_def validator_Inrs)

lemma nested_roundtrips:
  "completion_contract_ok c \<Longrightarrow> completion_contract_parse label (completion_contract_to_value c) = Inr c"
  "completion_evidence_ok e \<Longrightarrow> completion_evidence_parse label (completion_evidence_to_value e) = Inr e"
  "sublemma_ok s \<Longrightarrow> sublemma_parse label (sublemma_to_value s) = Inr s"
  by (auto simp: completion_contract_parse_Inr completion_contract_to_value_def
      completion_evidence_parse_Inr completion_evidence_to_value_def sublemma_parse_Inr sublemma_to_value_def)

lemma dict_canonical:
  assumes "json_wf ok (PDict d)" "set (keys d) = set (keys e)" "distinct (keys e)"
    and "list_all (\<lambda>(k, v). sort_json (dget k d) = sort_json v) e"
  shows "sort_json (PDict d) = sort_json (PDict e)"
proof (rule sort_json_dict_eq)
  fix k assume "k \<in> set (keys e)"
  then obtain v where "(k, v) \<in> set e" by (auto simp: keys_def)
  moreover from this have "dget k e = v"
    using assms(3) by (simp add: dget_def keys_def)
  ultimately show "sort_json (dget k d) = sort_json (dget k e)"
    using assms(4) by (auto simp: list_all_iff)
qed (use assms in simp_all)

lemma completion_contract_canonical:
  assumes "completion_contract_parse label v = Inr c" "json_wf ok v"
  shows "sort_json v = sort_json (completion_contract_to_value c)"
proof -
  from assms(1) obtain d where d: "v = PDict d" "set (keys d) = {''contract_kind'', ''target_id'', ''detail''}"
      "dget ''contract_kind'' d = PStr (cc_contract_kind c)" "dget ''target_id'' d = opt_text (cc_target_id c)"
      "dget ''detail'' d = PStr (cc_detail c)"
    by (auto simp: completion_contract_parse_Inr)
  show ?thesis
    unfolding d(1) completion_contract_to_value_def
    by (rule dict_canonical [of ok]) (use assms(2) d in simp_all)
qed

lemma completion_evidence_canonical:
  assumes "completion_evidence_parse label v = Inr c" "json_wf ok v"
  shows "sort_json v = sort_json (completion_evidence_to_value c)"
proof -
  from assms(1) obtain d where d: "v = PDict d" "set (keys d) = {''contract_kind'', ''detail''}"
      "dget ''contract_kind'' d = PStr (ce_contract_kind c)" "dget ''detail'' d = PStr (ce_detail c)"
    by (auto simp: completion_evidence_parse_Inr)
  show ?thesis
    unfolding d(1) completion_evidence_to_value_def
    by (rule dict_canonical [of ok]) (use assms(2) d in simp_all)
qed

lemma sublemma_canonical:
  assumes "sublemma_parse label v = Inr c" "json_wf ok v"
  shows "sort_json v = sort_json (sublemma_to_value c)"
proof -
  from assms(1) obtain d where d: "v = PDict d" "set (keys d) = {''statement'', ''admission_ref''}"
      "dget ''statement'' d = PStr (sl_statement c)" "dget ''admission_ref'' d = PStr (sl_admission_ref c)"
    by (auto simp: sublemma_parse_Inr)
  show ?thesis
    unfolding d(1) sublemma_to_value_def
    by (rule dict_canonical [of ok]) (use assms(2) d in simp_all)
qed

lemma nested_no_identity [simp]:
  "\<not> asserts_identity (completion_contract_to_value c)" "\<not> asserts_identity (completion_evidence_to_value e)"
  "\<not> asserts_identity (sublemma_to_value s)"
  by (simp_all add: completion_contract_to_value_def completion_evidence_to_value_def
      sublemma_to_value_def HOST_INJECTED_IDENTITY_KEYS_def opt_text_def split: option.splits)

section \<open>The payloads\<close>

definition task_claim_ok :: "task_claim \<Rightarrow> bool" where
  "task_claim_ok p \<longleftrightarrow> is_ADMISSION_REF (tc_task_ref p) \<and>
     1 \<le> tc_lease_ticks p \<and> tc_lease_ticks p \<le> MAXIMUM_LEASE_TICKS"

text \<open>The shared form of a wire value: its items hold no citations and no identity.\<close>

lemma payload_header_literal:
  "CITED_DIRECTIVE_REFS_FIELD \<notin> set (keys d) \<Longrightarrow> dget ''schema'' d = PStr schema \<Longrightarrow>
   \<not> asserts_identity (PDict d) \<Longrightarrow> payload_header schema (PDict d) d"
  by (simp add: payload_header_def)

lemma payload_canonical:
  assumes "payload_header schema v d" "json_wf (\<lambda>_. True) v"
    and "set (keys (uncited d)) = set (keys e)" "distinct (keys e)"
    and "list_all (\<lambda>(k, w). sort_json (dget k (uncited d)) = sort_json w) e"
  shows "\<exists>d. v = PDict d \<and> sort_json (PDict (uncited d)) = sort_json (PDict e)"
proof -
  from assms(1) have v: "v = PDict d" by (simp add: payload_header_def)
  with assms(2) have "json_wf (\<lambda>_. True) (PDict (uncited d))" using json_wf_uncited by fastforce
  then have "sort_json (PDict (uncited d)) = sort_json (PDict e)"
    using assms(3-5) by (intro dict_canonical)
  with v show ?thesis by blast
qed

lemma json_wf_payload_field: "payload_header schema v d \<Longrightarrow> json_wf ok v \<Longrightarrow> json_wf ok (dget k (uncited d))"
  by (auto simp: payload_header_def simp del: json_wf.simps intro!: json_wf_dget json_wf_uncited)

lemma task_claim_parse_Inr:
  "task_claim_parse v = Inr p \<longleftrightarrow> task_claim_ok p \<and>
   (\<exists>d. payload_header TASK_CLAIM_SCHEMA v d \<and>
      set (keys (uncited d)) = {''schema'', ''task_ref'', ''lease_ticks''} \<and>
      dget ''task_ref'' (uncited d) = PStr (tc_task_ref p) \<and>
      dget ''lease_ticks'' (uncited d) = PInt (tc_lease_ticks p))"
  by (cases p) (auto simp: task_claim_parse_def task_claim_ok_def validator_Inrs)

lemma dget_uncited: "k \<noteq> CITED_DIRECTIVE_REFS_FIELD \<Longrightarrow> dget k (uncited d) = dget k d"
  by (induction d) (auto simp: uncited_def)

lemma payload_schema_field: "payload_header schema v d \<Longrightarrow> dget ''schema'' (uncited d) = PStr schema"
  by (simp add: dget_uncited CITED_DIRECTIVE_REFS_FIELD_def payload_header_def)

text \<open>What simplification needs to see that a literal wire value is a payload.\<close>

lemmas literal_payload = payload_header_def uncited_id CITED_DIRECTIVE_REFS_FIELD_def
  HOST_INJECTED_IDENTITY_KEYS_def

lemma task_claim_roundtrip: "task_claim_ok p \<Longrightarrow> task_claim_parse (task_claim_to_value p) = Inr p"
  by (simp add: task_claim_parse_Inr task_claim_to_value_def literal_payload)

lemma task_claim_lossless:
  assumes "task_claim_parse v = Inr p" "json_wf (\<lambda>_. True) v"
  shows "\<exists>d. v = PDict d \<and> sort_json (PDict (uncited d)) = sort_json (task_claim_to_value p)"
proof -
  from assms(1) obtain d where d: "payload_header TASK_CLAIM_SCHEMA v d"
      "set (keys (uncited d)) = {''schema'', ''task_ref'', ''lease_ticks''}"
      "dget ''task_ref'' (uncited d) = PStr (tc_task_ref p)"
      "dget ''lease_ticks'' (uncited d) = PInt (tc_lease_ticks p)"
    by (auto simp: task_claim_parse_Inr)
  show ?thesis
    unfolding task_claim_to_value_def
    by (rule payload_canonical [OF d(1) assms(2)]) (use d in \<open>simp_all add: payload_schema_field\<close>)
qed

lemmas parse_failures = schema_safe_parse [unfolded schema_safe_def, rule_format]

interpretation task_claim: treatment_codec task_claim_parse task_claim_to_value task_claim_ok TASK_CLAIM_SCHEMA
  by (unfold_locales; (erule task_claim_roundtrip | erule (1) task_claim_lossless | erule parse_failures |
      auto simp: task_claim_parse_Inr AGENDA_TREATMENT_SCHEMAS_def))

definition task_release_ok :: "task_release \<Rightarrow> bool" where
  "task_release_ok p \<longleftrightarrow> is_ADMISSION_REF (tr_task_ref p) \<and> is_ADMISSION_REF (tr_claim_ref p)"

lemma task_release_parse_Inr:
  "task_release_parse v = Inr p \<longleftrightarrow> task_release_ok p \<and>
   (\<exists>d. payload_header TASK_RELEASE_SCHEMA v d \<and>
      set (keys (uncited d)) = {''schema'', ''task_ref'', ''claim_ref''} \<and>
      dget ''task_ref'' (uncited d) = PStr (tr_task_ref p) \<and>
      dget ''claim_ref'' (uncited d) = PStr (tr_claim_ref p))"
  by (cases p) (auto simp: task_release_parse_def task_release_ok_def validator_Inrs)

lemma task_release_roundtrip: "task_release_ok p \<Longrightarrow> task_release_parse (task_release_to_value p) = Inr p"
  by (simp add: task_release_parse_Inr task_release_to_value_def literal_payload)

lemma task_release_lossless:
  assumes "task_release_parse v = Inr p" "json_wf (\<lambda>_. True) v"
  shows "\<exists>d. v = PDict d \<and> sort_json (PDict (uncited d)) = sort_json (task_release_to_value p)"
proof -
  from assms(1) obtain d where d: "payload_header TASK_RELEASE_SCHEMA v d"
      "set (keys (uncited d)) = {''schema'', ''task_ref'', ''claim_ref''}"
      "dget ''task_ref'' (uncited d) = PStr (tr_task_ref p)"
      "dget ''claim_ref'' (uncited d) = PStr (tr_claim_ref p)"
    by (auto simp: task_release_parse_Inr)
  show ?thesis
    unfolding task_release_to_value_def
    by (rule payload_canonical [OF d(1) assms(2)]) (use d in \<open>simp_all add: payload_schema_field\<close>)
qed

interpretation task_release: treatment_codec task_release_parse task_release_to_value task_release_ok
  TASK_RELEASE_SCHEMA
  by (unfold_locales; (erule task_release_roundtrip | erule (1) task_release_lossless | erule parse_failures |
      auto simp: task_release_parse_Inr AGENDA_TREATMENT_SCHEMAS_def))

definition task_proposal_ok :: "task_proposal \<Rightarrow> bool" where
  "task_proposal_ok p \<longleftrightarrow> text_ok MAXIMUM_STATEMENT_BYTES (tp_statement p) \<and>
     sorted_refs MAXIMUM_DEPENDENCY_REFS is_ADMISSION_REF (tp_dependency_task_refs p) \<and>
     completion_contract_ok (tp_completion_contract p)"

lemma task_proposal_parse_Inr:
  "task_proposal_parse v = Inr p \<longleftrightarrow> task_proposal_ok p \<and>
   (\<exists>d. payload_header TASK_PROPOSAL_SCHEMA v d \<and>
      set (keys (uncited d)) = {''schema'', ''statement'', ''dependency_task_refs'', ''completion_contract''} \<and>
      dget ''statement'' (uncited d) = PStr (tp_statement p) \<and>
      dget ''dependency_task_refs'' (uncited d) = texts (tp_dependency_task_refs p) \<and>
      completion_contract_parse ''completion_contract'' (dget ''completion_contract'' (uncited d)) =
        Inr (tp_completion_contract p))"
  by (cases p) (auto simp: task_proposal_parse_def task_proposal_ok_def validator_Inrs
      completion_contract_parse_Inr)

lemma task_proposal_roundtrip: "task_proposal_ok p \<Longrightarrow> task_proposal_parse (task_proposal_to_value p) = Inr p"
  by (simp add: task_proposal_parse_Inr task_proposal_to_value_def literal_payload nested_roundtrips
      task_proposal_ok_def)

lemma task_proposal_lossless:
  assumes "task_proposal_parse v = Inr p" "json_wf (\<lambda>_. True) v"
  shows "\<exists>d. v = PDict d \<and> sort_json (PDict (uncited d)) = sort_json (task_proposal_to_value p)"
proof -
  from assms(1) obtain d where d: "payload_header TASK_PROPOSAL_SCHEMA v d"
      "set (keys (uncited d)) = {''schema'', ''statement'', ''dependency_task_refs'', ''completion_contract''}"
      "dget ''statement'' (uncited d) = PStr (tp_statement p)"
      "dget ''dependency_task_refs'' (uncited d) = texts (tp_dependency_task_refs p)"
      "completion_contract_parse ''completion_contract'' (dget ''completion_contract'' (uncited d)) =
        Inr (tp_completion_contract p)"
    by (auto simp: task_proposal_parse_Inr)
  note contract = completion_contract_canonical [OF d(5) json_wf_payload_field [OF d(1) assms(2)]]
  show ?thesis
    unfolding task_proposal_to_value_def
    by (rule payload_canonical [OF d(1) assms(2)]) (use d contract in \<open>simp_all add: payload_schema_field\<close>)
qed

interpretation task_proposal: treatment_codec task_proposal_parse task_proposal_to_value task_proposal_ok
  TASK_PROPOSAL_SCHEMA
  by (unfold_locales; (erule task_proposal_roundtrip | erule (1) task_proposal_lossless |
      erule parse_failures | auto simp: task_proposal_parse_Inr AGENDA_TREATMENT_SCHEMAS_def))

definition task_admission_ok :: "task_admission \<Rightarrow> bool" where
  "task_admission_ok p \<longleftrightarrow> text_ok MAXIMUM_STATEMENT_BYTES (ta_statement p) \<and>
     sorted_refs MAXIMUM_DEPENDENCY_REFS is_ADMISSION_REF (ta_dependency_task_refs p) \<and>
     completion_contract_ok (ta_completion_contract p) \<and> pred_option is_ADMISSION_REF (ta_proposal_ref p)"

lemma task_admission_parse_Inr:
  "task_admission_parse v = Inr p \<longleftrightarrow> task_admission_ok p \<and>
   (\<exists>d. payload_header TASK_ADMISSION_SCHEMA v d \<and>
      set (keys (uncited d)) =
        {''schema'', ''statement'', ''dependency_task_refs'', ''completion_contract'', ''proposal_ref''} \<and>
      dget ''statement'' (uncited d) = PStr (ta_statement p) \<and>
      dget ''dependency_task_refs'' (uncited d) = texts (ta_dependency_task_refs p) \<and>
      completion_contract_parse ''completion_contract'' (dget ''completion_contract'' (uncited d)) =
        Inr (ta_completion_contract p) \<and>
      dget ''proposal_ref'' (uncited d) = opt_text (ta_proposal_ref p))"
  by (cases p) (auto simp: task_admission_parse_def task_admission_ok_def validator_Inrs
      completion_contract_parse_Inr)

lemma task_admission_roundtrip: "task_admission_ok p \<Longrightarrow> task_admission_parse (task_admission_to_value p) = Inr p"
  by (simp add: task_admission_parse_Inr task_admission_to_value_def literal_payload nested_roundtrips
      task_admission_ok_def)

lemma task_admission_lossless:
  assumes "task_admission_parse v = Inr p" "json_wf (\<lambda>_. True) v"
  shows "\<exists>d. v = PDict d \<and> sort_json (PDict (uncited d)) = sort_json (task_admission_to_value p)"
proof -
  from assms(1) obtain d where d: "payload_header TASK_ADMISSION_SCHEMA v d"
      "set (keys (uncited d)) =
        {''schema'', ''statement'', ''dependency_task_refs'', ''completion_contract'', ''proposal_ref''}"
      "dget ''statement'' (uncited d) = PStr (ta_statement p)"
      "dget ''dependency_task_refs'' (uncited d) = texts (ta_dependency_task_refs p)"
      "completion_contract_parse ''completion_contract'' (dget ''completion_contract'' (uncited d)) =
        Inr (ta_completion_contract p)"
      "dget ''proposal_ref'' (uncited d) = opt_text (ta_proposal_ref p)"
    by (auto simp: task_admission_parse_Inr)
  note contract = completion_contract_canonical [OF d(5) json_wf_payload_field [OF d(1) assms(2)]]
  show ?thesis
    unfolding task_admission_to_value_def
    by (rule payload_canonical [OF d(1) assms(2)]) (use d contract in \<open>simp_all add: payload_schema_field\<close>)
qed

interpretation task_admission: treatment_codec task_admission_parse task_admission_to_value
  task_admission_ok TASK_ADMISSION_SCHEMA
  by (unfold_locales; (erule task_admission_roundtrip | erule (1) task_admission_lossless |
      erule parse_failures | auto simp: task_admission_parse_Inr AGENDA_TREATMENT_SCHEMAS_def))

text \<open>An outcome carries evidence exactly when it is a completion.\<close>

definition task_outcome_ok :: "task_outcome \<Rightarrow> bool" where
  "task_outcome_ok p \<longleftrightarrow> is_ADMISSION_REF (to_task_ref p) \<and> is_ADMISSION_REF (to_claim_ref p) \<and>
     to_disposition p \<in> set OUTCOME_DISPOSITIONS \<and>
     (to_completion_evidence p \<noteq> None \<longleftrightarrow> to_disposition p = ''COMPLETED'') \<and>
     pred_option completion_evidence_ok (to_completion_evidence p)"

definition opt_evidence :: "completion_evidence option \<Rightarrow> pyval" where
  "opt_evidence x = (case x of None \<Rightarrow> PNone | Some e \<Rightarrow> completion_evidence_to_value e)"

definition evidence_field :: "pyval \<Rightarrow> completion_evidence option \<Rightarrow> bool" where
  "evidence_field v x \<longleftrightarrow> (case x of None \<Rightarrow> v = PNone
     | Some e \<Rightarrow> completion_evidence_parse ''completion_evidence'' v = Inr e)"

lemma completion_evidence_not_None: "completion_evidence_parse label PNone \<noteq> Inr e"
  by (simp add: completion_evidence_parse_Inr)

lemma evidence_step_Inr:
  "(let raw_evidence = v
    in if disposition = ''COMPLETED'' then
         (if raw_evidence = PNone
          then Inl (schema_error ''COMPLETION_EVIDENCE_MISSING'' ''COMPLETED outcome'')
          else rbind (completion_evidence_parse ''completion_evidence'' raw_evidence)
                 (\<lambda>evidence. Inr (Some evidence)))
       else if raw_evidence \<noteq> PNone
         then Inl (payload_malformed ''completion_evidence: only a COMPLETED outcome carries it'')
         else Inr None) = Inr x \<longleftrightarrow>
   evidence_field v x \<and> (x \<noteq> None \<longleftrightarrow> disposition = ''COMPLETED'')"
  by (cases x) (auto simp: evidence_field_def rbind_Inr_iff completion_evidence_not_None)

lemma evidence_field_ok: "evidence_field v x \<Longrightarrow> pred_option completion_evidence_ok x"
  by (cases x) (auto simp: evidence_field_def completion_evidence_parse_Inr)

lemma task_outcome_parse_Inr:
  "task_outcome_parse v = Inr p \<longleftrightarrow> task_outcome_ok p \<and>
   (\<exists>d. payload_header TASK_OUTCOME_SCHEMA v d \<and>
      set (keys (uncited d)) =
        {''schema'', ''task_ref'', ''claim_ref'', ''disposition'', ''completion_evidence''} \<and>
      dget ''task_ref'' (uncited d) = PStr (to_task_ref p) \<and>
      dget ''claim_ref'' (uncited d) = PStr (to_claim_ref p) \<and>
      dget ''disposition'' (uncited d) = PStr (to_disposition p) \<and>
      evidence_field (dget ''completion_evidence'' (uncited d)) (to_completion_evidence p))"
  unfolding task_outcome_parse_def evidence_step_Inr rbind_Inr_iff
  by (cases p) (auto simp: task_outcome_ok_def validator_Inrs simp del: not_None_eq dest: evidence_field_ok)

lemma task_outcome_roundtrip: "task_outcome_ok p \<Longrightarrow> task_outcome_parse (task_outcome_to_value p) = Inr p"
  by (cases "to_completion_evidence p")
    (auto simp: task_outcome_parse_Inr task_outcome_to_value_def literal_payload nested_roundtrips
      task_outcome_ok_def evidence_field_def OUTCOME_DISPOSITIONS_def)

lemma evidence_field_canonical:
  "evidence_field v x \<Longrightarrow> json_wf ok v \<Longrightarrow> sort_json v =
     sort_json (case x of None \<Rightarrow> PNone | Some e \<Rightarrow> completion_evidence_to_value e)"
  by (cases x) (auto simp: evidence_field_def dest: completion_evidence_canonical)

lemma task_outcome_lossless:
  assumes "task_outcome_parse v = Inr p" "json_wf (\<lambda>_. True) v"
  shows "\<exists>d. v = PDict d \<and> sort_json (PDict (uncited d)) = sort_json (task_outcome_to_value p)"
proof -
  from assms(1) obtain d where d: "payload_header TASK_OUTCOME_SCHEMA v d"
      "set (keys (uncited d)) =
        {''schema'', ''task_ref'', ''claim_ref'', ''disposition'', ''completion_evidence''}"
      "dget ''task_ref'' (uncited d) = PStr (to_task_ref p)"
      "dget ''claim_ref'' (uncited d) = PStr (to_claim_ref p)"
      "dget ''disposition'' (uncited d) = PStr (to_disposition p)"
      "evidence_field (dget ''completion_evidence'' (uncited d)) (to_completion_evidence p)"
    unfolding task_outcome_parse_Inr by blast
  note evidence = evidence_field_canonical [OF d(6) json_wf_payload_field [OF d(1) assms(2)]]
  show ?thesis
    unfolding task_outcome_to_value_def
    by (rule payload_canonical [OF d(1) assms(2)]) (use d(2-5) evidence payload_schema_field [OF d(1)] in simp_all)
qed

lemma task_outcome_parsed:
  "task_outcome_parse v = Inr p \<Longrightarrow> task_outcome_ok p"
  "task_outcome_parse v = Inr p \<Longrightarrow> \<exists>d. payload_header TASK_OUTCOME_SCHEMA v d"
  unfolding task_outcome_parse_Inr by blast+

interpretation task_outcome: treatment_codec task_outcome_parse task_outcome_to_value
  task_outcome_ok TASK_OUTCOME_SCHEMA
  by (unfold_locales; (erule task_outcome_roundtrip | erule (1) task_outcome_lossless |
      erule parse_failures | erule task_outcome_parsed | simp add: AGENDA_TREATMENT_SCHEMAS_def))

definition directive_ok :: "directive \<Rightarrow> bool" where
  "directive_ok p \<longleftrightarrow> is_PROBLEM_ID (di_directive_id p) \<and>
     text_ok MAXIMUM_INSTRUCTION_BYTES (di_instruction p) \<and>
     sorted_refs MAXIMUM_SUPERSEDES_REFS is_ADMISSION_REF (di_supersedes_refs p)"

lemma directive_parse_Inr:
  "directive_parse v = Inr p \<longleftrightarrow> directive_ok p \<and>
   (\<exists>d. payload_header DIRECTIVE_SCHEMA v d \<and>
      set (keys (uncited d)) = {''schema'', ''directive_id'', ''instruction'', ''supersedes_refs''} \<and>
      dget ''directive_id'' (uncited d) = PStr (di_directive_id p) \<and>
      dget ''instruction'' (uncited d) = PStr (di_instruction p) \<and>
      dget ''supersedes_refs'' (uncited d) = texts (di_supersedes_refs p))"
  by (cases p) (auto simp: directive_parse_def directive_ok_def validator_Inrs)

lemma directive_roundtrip: "directive_ok p \<Longrightarrow> directive_parse (directive_to_value p) = Inr p"
  by (simp add: directive_parse_Inr directive_to_value_def literal_payload)

lemma directive_lossless:
  assumes "directive_parse v = Inr p" "json_wf (\<lambda>_. True) v"
  shows "\<exists>d. v = PDict d \<and> sort_json (PDict (uncited d)) = sort_json (directive_to_value p)"
proof -
  from assms(1) obtain d where d: "payload_header DIRECTIVE_SCHEMA v d"
      "set (keys (uncited d)) = {''schema'', ''directive_id'', ''instruction'', ''supersedes_refs''}"
      "dget ''directive_id'' (uncited d) = PStr (di_directive_id p)"
      "dget ''instruction'' (uncited d) = PStr (di_instruction p)"
      "dget ''supersedes_refs'' (uncited d) = texts (di_supersedes_refs p)"
    by (auto simp: directive_parse_Inr)
  show ?thesis
    unfolding directive_to_value_def
    by (rule payload_canonical [OF d(1) assms(2)]) (use d in \<open>simp_all add: payload_schema_field\<close>)
qed

interpretation directive: treatment_codec directive_parse directive_to_value directive_ok DIRECTIVE_SCHEMA
  by (unfold_locales; (erule directive_roundtrip | erule (1) directive_lossless | erule parse_failures |
      auto simp: directive_parse_Inr AGENDA_TREATMENT_SCHEMAS_def))

definition route_declaration_ok :: "route_declaration \<Rightarrow> bool" where
  "route_declaration_ok p \<longleftrightarrow> text_ok MAXIMUM_ROUTE_STATEMENT_BYTES (rd_route_statement p) \<and>
     sorted_refs MAXIMUM_PEER_TRIGGER_REFS is_ADMISSION_REF (rd_peer_trigger_refs p) \<and>
     pred_option (text_ok MAXIMUM_DIFFERENTIATION_NOTE_BYTES) (rd_differentiation_note p)"

lemma route_declaration_parse_Inr:
  "route_declaration_parse v = Inr p \<longleftrightarrow> route_declaration_ok p \<and>
   (\<exists>d. payload_header ROUTE_DECLARATION_SCHEMA v d \<and>
      set (keys (uncited d)) = {''schema'', ''route_statement'', ''peer_trigger_refs'', ''differentiation_note''} \<and>
      dget ''route_statement'' (uncited d) = PStr (rd_route_statement p) \<and>
      dget ''peer_trigger_refs'' (uncited d) = texts (rd_peer_trigger_refs p) \<and>
      dget ''differentiation_note'' (uncited d) = opt_text (rd_differentiation_note p))"
  by (cases p) (auto simp: route_declaration_parse_def route_declaration_ok_def validator_Inrs)

lemma route_declaration_roundtrip:
  "route_declaration_ok p \<Longrightarrow> route_declaration_parse (route_declaration_to_value p) = Inr p"
  by (simp add: route_declaration_parse_Inr route_declaration_to_value_def literal_payload)

lemma route_declaration_lossless:
  assumes "route_declaration_parse v = Inr p" "json_wf (\<lambda>_. True) v"
  shows "\<exists>d. v = PDict d \<and> sort_json (PDict (uncited d)) = sort_json (route_declaration_to_value p)"
proof -
  from assms(1) obtain d where d: "payload_header ROUTE_DECLARATION_SCHEMA v d"
      "set (keys (uncited d)) = {''schema'', ''route_statement'', ''peer_trigger_refs'', ''differentiation_note''}"
      "dget ''route_statement'' (uncited d) = PStr (rd_route_statement p)"
      "dget ''peer_trigger_refs'' (uncited d) = texts (rd_peer_trigger_refs p)"
      "dget ''differentiation_note'' (uncited d) = opt_text (rd_differentiation_note p)"
    by (auto simp: route_declaration_parse_Inr)
  show ?thesis
    unfolding route_declaration_to_value_def
    by (rule payload_canonical [OF d(1) assms(2)]) (use d in \<open>simp_all add: payload_schema_field\<close>)
qed

interpretation route_declaration: treatment_codec route_declaration_parse route_declaration_to_value
  route_declaration_ok ROUTE_DECLARATION_SCHEMA
  by (unfold_locales; (erule route_declaration_roundtrip | erule (1) route_declaration_lossless |
      erule parse_failures | auto simp: route_declaration_parse_Inr AGENDA_TREATMENT_SCHEMAS_def))

text \<open>The label of a sublemma only appears in errors.\<close>

lemma rmap_sublemmas_Inr:
  "rmap (\<lambda>(index, item). sublemma_parse (label index) item) (enumerate n vs) = Inr parsed \<longleftrightarrow>
   list_all2 (\<lambda>v s. sublemma_parse [] v = Inr s) vs parsed"
proof (induction vs arbitrary: n parsed)
  case (Cons v vs)
  have "sublemma_parse (label n) v = Inr s \<longleftrightarrow> sublemma_parse [] v = Inr s" for s
    by (simp add: sublemma_parse_Inr)
  with Cons show ?case by (auto simp: rbind_Inr_iff list_all2_Cons1)
qed auto

lemma rbind_typed_fields:
  "rbind (typed_fields schema expected v) f = Inr p \<longleftrightarrow>
   (\<exists>d. payload_header schema v d \<and> set (keys (uncited d)) = set expected \<and> f (uncited d) = Inr p)"
  by (auto simp: rbind_Inr_iff typed_fields_Inr)

lemma case_PList_Inr:
  "(case v of PList raw \<Rightarrow> f raw | _ \<Rightarrow> Inl e) = Inr p \<longleftrightarrow> (\<exists>raw. v = PList raw \<and> f raw = Inr p)"
  by (cases v) simp_all

definition decomposition_ok :: "decomposition \<Rightarrow> bool" where
  "decomposition_ok p \<longleftrightarrow> is_ADMISSION_REF (dc_target_ref p) \<and> dc_sublemmas p \<noteq> [] \<and>
     length (dc_sublemmas p) \<le> MAXIMUM_SUBLEMMAS \<and> list_all sublemma_ok (dc_sublemmas p) \<and>
     distinct (map sl_admission_ref (dc_sublemmas p))"

lemma sublemmas_ok: "list_all2 (\<lambda>v s. sublemma_parse [] v = Inr s) vs ss \<Longrightarrow> list_all sublemma_ok ss"
  by (induction rule: list_all2_induct) (simp_all add: sublemma_parse_Inr)

lemma decomposition_parse_Inr:
  "decomposition_parse v = Inr p \<longleftrightarrow> decomposition_ok p \<and>
   (\<exists>d vs. payload_header DECOMPOSITION_SCHEMA v d \<and>
      set (keys (uncited d)) = {''schema'', ''target_ref'', ''sublemmas'', ''coverage_claim''} \<and>
      dget ''target_ref'' (uncited d) = PStr (dc_target_ref p) \<and>
      dget ''sublemmas'' (uncited d) = PList vs \<and>
      list_all2 (\<lambda>v s. sublemma_parse [] v = Inr s) vs (dc_sublemmas p) \<and>
      dget ''coverage_claim'' (uncited d) = PStr ''SUBLEMMAS_JOINTLY_SUFFICE_FOR_TARGET'')"
proof -
  have "decomposition_parse v = Inr p \<longleftrightarrow>
    (\<exists>d vs. payload_header DECOMPOSITION_SCHEMA v d \<and>
      set (keys (uncited d)) = {''schema'', ''target_ref'', ''sublemmas'', ''coverage_claim''} \<and>
      dget ''coverage_claim'' (uncited d) = PStr ''SUBLEMMAS_JOINTLY_SUFFICE_FOR_TARGET'' \<and>
      dget ''sublemmas'' (uncited d) = PList vs \<and> vs \<noteq> [] \<and> length vs \<le> MAXIMUM_SUBLEMMAS \<and>
      list_all2 (\<lambda>v s. sublemma_parse [] v = Inr s) vs (dc_sublemmas p) \<and>
      distinct (map sl_admission_ref (dc_sublemmas p)) \<and>
      dget ''target_ref'' (uncited d) = PStr (dc_target_ref p) \<and> is_ADMISSION_REF (dc_target_ref p))"
    unfolding decomposition_parse_def rbind_typed_fields
    by (cases p) (simp add: rbind_Inr_iff sc_admission_ref_Inr rmap_sublemmas_Inr if_Inr_iff not_less case_PList_Inr)
  moreover have "vs \<noteq> [] \<and> length vs \<le> MAXIMUM_SUBLEMMAS \<longleftrightarrow> dc_sublemmas p \<noteq> [] \<and>
      length (dc_sublemmas p) \<le> MAXIMUM_SUBLEMMAS \<and> list_all sublemma_ok (dc_sublemmas p)"
    if "list_all2 (\<lambda>v s. sublemma_parse [] v = Inr s) vs (dc_sublemmas p)" for vs
    using list_all2_lengthD [OF that] sublemmas_ok [OF that] by fastforce
  ultimately show ?thesis
    unfolding decomposition_ok_def by blast
qed

lemma sublemmas_canonical:
  "list_all2 (\<lambda>v s. sublemma_parse [] v = Inr s) vs ss \<Longrightarrow> json_wf ok (PList vs) \<Longrightarrow>
   sort_json (PList vs) = sort_json (PList (map sublemma_to_value ss))"
  by (induction rule: list_all2_induct) (auto dest: sublemma_canonical)

lemma sublemmas_roundtrip:
  "list_all sublemma_ok ss \<Longrightarrow> list_all2 (\<lambda>v s. sublemma_parse [] v = Inr s) (map sublemma_to_value ss) ss"
  by (induction ss) (simp_all add: nested_roundtrips)

lemma decomposition_roundtrip: "decomposition_ok p \<Longrightarrow> decomposition_parse (decomposition_to_value p) = Inr p"
  by (simp add: decomposition_parse_Inr decomposition_to_value_def literal_payload sublemmas_roundtrip
      decomposition_ok_def)

lemma decomposition_lossless:
  assumes "decomposition_parse v = Inr p" "json_wf (\<lambda>_. True) v"
  shows "\<exists>d. v = PDict d \<and> sort_json (PDict (uncited d)) = sort_json (decomposition_to_value p)"
proof -
  from assms(1) obtain d vs where d: "payload_header DECOMPOSITION_SCHEMA v d"
      "set (keys (uncited d)) = {''schema'', ''target_ref'', ''sublemmas'', ''coverage_claim''}"
      "dget ''target_ref'' (uncited d) = PStr (dc_target_ref p)"
      "dget ''sublemmas'' (uncited d) = PList vs"
      "list_all2 (\<lambda>v s. sublemma_parse [] v = Inr s) vs (dc_sublemmas p)"
      "dget ''coverage_claim'' (uncited d) = PStr ''SUBLEMMAS_JOINTLY_SUFFICE_FOR_TARGET''"
    unfolding decomposition_parse_Inr by blast
  have "json_wf (\<lambda>_. True) (PList vs)"
    using json_wf_payload_field [OF d(1) assms(2), of "''sublemmas''"] d(4) by simp
  note subs = sublemmas_canonical [OF d(5) this]
  show ?thesis
    unfolding decomposition_to_value_def
    by (rule payload_canonical [OF d(1) assms(2)])
      (use d(2,3,4,6) subs payload_schema_field [OF d(1)] in simp_all)
qed

lemma decomposition_parsed:
  "decomposition_parse v = Inr p \<Longrightarrow> decomposition_ok p"
  "decomposition_parse v = Inr p \<Longrightarrow> \<exists>d. payload_header DECOMPOSITION_SCHEMA v d"
  unfolding decomposition_parse_Inr by blast+

interpretation decomposition: treatment_codec decomposition_parse decomposition_to_value
  decomposition_ok DECOMPOSITION_SCHEMA
  by (unfold_locales; (erule decomposition_roundtrip | erule (1) decomposition_lossless |
      erule parse_failures | erule decomposition_parsed | simp add: AGENDA_TREATMENT_SCHEMAS_def))

section \<open>Builders\<close>

lemma asserts_identity_sort_json [simp]: "asserts_identity (sort_json v) = asserts_identity v"
  by (induction v rule: asserts_identity.induct)
    (auto simp: sort_json_list_map sort_json_items_map case_prod_beta)

lemma dget_update: "dget k (AList.update k' v d) = (if k = k' then v else dget k d)"
  by (simp add: dget_def update_conv')

lemma set_update_cases: "p \<in> set (AList.update k v d) \<Longrightarrow> p = (k, v) \<or> p \<in> set d"
  by (induction d) (auto split: if_splits)

lemma json_wf_update: "json_wf ok (PDict d) \<Longrightarrow> json_wf ok v \<Longrightarrow> json_wf ok (PDict (AList.update k v d))"
  by (auto simp: keys_def json_wf_items_iff distinct_update dest!: set_update_cases)

lemma json_wf_texts [simp]: "json_wf ok (texts ss)"
  by (simp add: texts_def json_wf_list_iff)

lemma insort_PStr: "insort_key text_or_empty (PStr x) (map PStr xs) = map PStr (insort x xs)"
  by (induction xs) auto

lemma sort_key_PStr: "sort_key text_or_empty (map PStr rs) = map PStr (sort rs)"
  by (induction rs) (simp_all add: insort_PStr)

text \<open>The payload that the builders pass on, with the citations written into it when there are some.\<close>

definition with_citations :: "pyval \<Rightarrow> (string \<times> pyval) list \<Rightarrow> (string \<times> pyval) list \<Rightarrow> bool" where
  "with_citations refs payload selected \<longleftrightarrow> (refs = PNone \<and> selected = payload \<or>
     (\<exists>ss. refs \<noteq> PNone \<and> sorted_refs MAXIMUM_CITED_DIRECTIVE_REFS is_ADMISSION_REF ss \<and>
           (\<forall>rs. refs = texts rs \<longrightarrow> ss = sort rs) \<and>
           selected = AList.update CITED_DIRECTIVE_REFS_FIELD (texts ss) payload))"

lemma map_PStr_eq: "map PStr xs = map PStr ys \<longleftrightarrow> xs = ys"
  by (auto intro!: map_injective [of PStr] injI)

lemma wrap_contribution_Inr:
  assumes "wrap_contribution kind payload title body problem_ids parent_refs artifact_refs refs = Inr c"
  shows "\<exists>selected. with_citations refs payload selected \<and> \<not> asserts_identity (PDict selected) \<and>
     research_contribution_init kind title body problem_ids parent_refs artifact_refs (PDict selected) = Inr c"
proof (cases refs)
  case (PList vs)
  with assms obtain ss where ss: "sort_key text_or_empty vs = map PStr ss"
    "sorted_refs MAXIMUM_CITED_DIRECTIVE_REFS is_ADMISSION_REF ss"
    "\<not> asserts_identity (PDict (AList.update CITED_DIRECTIVE_REFS_FIELD (texts ss) payload))"
    "research_contribution_init kind title body problem_ids parent_refs artifact_refs
       (PDict (AList.update CITED_DIRECTIVE_REFS_FIELD (texts ss) payload)) = Inr c"
    by (auto simp: wrap_contribution_def rbind_Inr_iff ref_tuple_Inr texts_def
        reject_self_asserted_identity_Inr simp del: asserts_identity.simps)
  have "with_citations refs payload (AList.update CITED_DIRECTIVE_REFS_FIELD (texts ss) payload)"
    unfolding with_citations_def
    by (rule disjI2, rule exI [of _ ss])
      (use ss(1,2) PList in \<open>auto simp: texts_def sort_key_PStr map_PStr_eq\<close>)
  with ss show ?thesis by blast
qed (use assms in \<open>auto simp: wrap_contribution_def with_citations_def rbind_Inr_iff
       reject_self_asserted_identity_Inr simp del: asserts_identity.simps\<close>)

lemma with_citations_wf:
  "with_citations refs payload selected \<Longrightarrow> json_wf ok (PDict payload) \<Longrightarrow> json_wf ok (PDict selected)"
  by (auto simp: with_citations_def simp del: json_wf.simps intro: json_wf_update)

lemma with_citations_dget:
  "with_citations refs payload selected \<Longrightarrow> k \<noteq> CITED_DIRECTIVE_REFS_FIELD \<Longrightarrow>
   dget k selected = dget k payload"
  by (auto simp: with_citations_def dget_update)

lemma init_contribution_payload:
  assumes "research_contribution_init kind title body problem_ids parent_refs artifact_refs (PDict d) = Inr c"
    and "json_wf (\<lambda>_. True) (PDict d)"
  shows "contribution_ok c" "kind = PStr (co_kind c)"
    "co_payload c = Inr (sort_key fst (sort_json_items d))"
proof -
  show "contribution_ok c" by (rule init_contribution_ok [OF assms])
  from assms(1) have "validate_payload (PDict d) = Inr (co_payload_bytes c)" "kind = PStr (co_kind c)"
    by (auto simp: init_contribution_Inr check_payload_Inr check_kind_Inr)
  with assms(2) show "co_payload c = Inr (sort_key fst (sort_json_items d))" "kind = PStr (co_kind c)"
    by (simp_all add: co_payload_def decode_payload_canonical)
qed

lemma payload_schema_sorted:
  "distinct (keys d) \<Longrightarrow> payload_schema (PDict (sort_key fst (sort_json_items d))) = payload_schema (PDict d)"
  by (cases "dget ''schema'' d") (simp_all add: payload_schema_def dget_sorted)

lemma payload_schema_eq:
  "dget ''schema'' d = dget ''schema'' e \<Longrightarrow> payload_schema (PDict d) = payload_schema (PDict e)"
  by (simp add: payload_schema_def)

lemma build_treatment_Inr:
  assumes "build_treatment_contribution payload kind title body problem_ids parent_refs artifact_refs refs = Inr c"
    and wf: "json_wf (\<lambda>_. True) payload"
  shows "\<exists>schema p. contribution_ok c \<and> payload_schema payload = Some schema \<and>
    co_kind c \<in> set (the (map_of TREATMENT_KIND_BINDING schema)) \<and>
    co_payload c = Inr p \<and> payload_schema (PDict p) = Some schema \<and> \<not> asserts_identity (PDict p) \<and>
    (schema = TASK_OUTCOME_SCHEMA \<longrightarrow> (\<exists>outcome. task_outcome_parse payload = Inr outcome \<and>
       co_kind c = the (map_of OUTCOME_DISPOSITION_KIND (to_disposition outcome))))"
proof -
  from assms(1) obtain d schema where d: "payload = PDict d" "payload_schema payload = Some schema"
    by (auto simp: build_treatment_contribution_def split: pyval.splits option.splits)
  with assms(1) have allowed: "text_or_empty kind \<in> set (the (map_of TREATMENT_KIND_BINDING schema))"
    and outcome: "schema = TASK_OUTCOME_SCHEMA \<Longrightarrow> \<exists>outcome. task_outcome_parse payload = Inr outcome \<and>
       text_or_empty kind = the (map_of OUTCOME_DISPOSITION_KIND (to_disposition outcome))"
    and wrap: "wrap_contribution kind d title body problem_ids parent_refs artifact_refs refs = Inr c"
    by (auto simp: build_treatment_contribution_def Let_def rbind_Inr_iff require_Inr_iff split: if_splits)
  from wrap_contribution_Inr [OF wrap] obtain selected where s: "with_citations refs d selected"
    "\<not> asserts_identity (PDict selected)"
    "research_contribution_init kind title body problem_ids parent_refs artifact_refs (PDict selected) = Inr c"
    by blast
  have swf: "json_wf (\<lambda>_. True) (PDict selected)"
    using with_citations_wf [OF s(1)] wf d(1) by blast
  note facts = init_contribution_payload [OF s(3) swf]
  have "\<not> asserts_identity (sort_json (PDict selected))"
    using s(2) by (simp only: asserts_identity_sort_json not_False_eq_True)
  moreover have "payload_schema (PDict selected) = Some schema"
    using d with_citations_dget [OF s(1), of "''schema''"] payload_schema_eq [of selected d]
    by (simp add: CITED_DIRECTIVE_REFS_FIELD_def)
  ultimately show ?thesis
    using allowed outcome d(2) facts swf
    by (auto simp: payload_schema_sorted simp del: asserts_identity.simps)
qed

end
