(* ===== verification/Candidates.thy ===== *)
theory Candidates
  imports Schema_Codecs
begin

text \<open>
  The shape gate of \<open>agenda_treatments/candidates.py\<close>: a candidate must be an identity-free
  contribution of a kind that its schema allows, with a payload that parses. A refusal is a verdict,
  a value; only an exception outside \<open>ValueError\<close> leaves the gate.
\<close>

text \<open>What a validator can be handed: a contribution, a bound record, or any other object.\<close>

datatype candidate =
    Contribution research_contribution
  | Bound research_record
  | Other_Object string

fun candidate_type_name :: "candidate \<Rightarrow> string" where
  "candidate_type_name (Contribution _) = ''ResearchContribution''"
| "candidate_type_name (Bound _) = ''ResearchRecord''"
| "candidate_type_name (Other_Object t) = t"

text \<open>\<open>str(error)\<close>\<close>

fun exn_text :: "exn \<Rightarrow> string" where
  "exn_text (Value_Error m) = m"
| "exn_text (Type_Error m) = m"
| "exn_text (Key_Error m) = repr_text m"
| "exn_text (Assertion_Error m) = m"
| "exn_text (Research_Record_Error c d) = (if d = [] then c else c @ '': '' @ d)"
| "exn_text (Agenda_Schema_Error c d) = (if d = [] then c else c @ '': '' @ d)"
| "exn_text (Agenda_Snapshot_Error c d) = (if d = [] then c else c @ '': '' @ d)"
| "exn_text (Agenda_Arm_Error c d) = (if d = [] then c else c @ '': '' @ d)"
| "exn_text (Usage_Evidence_Error c d) = (if d = [] then c else c @ '': '' @ d)"
| "exn_text (Runtime_Contract_Error c d) = (if d = [] then c else c @ '': '' @ d)"

definition require_contribution :: "candidate \<Rightarrow> verdict option result" where
  "require_contribution candidate = (case candidate of
      Contribution _ \<Rightarrow> Inr None
    | _ \<Rightarrow> rbind (reject ''CANDIDATE_NOT_IDENTITY_FREE''
                   (''expected ResearchContribution, got '' @ candidate_type_name candidate))
             (\<lambda>v. Inr (Some v)))"

definition schema_rejection :: "string \<Rightarrow> string \<Rightarrow> verdict result" where
  "schema_rejection code detail =
     reject (if code \<in> set VERDICT_CODES then code else ''PAYLOAD_MALFORMED'') detail"

text \<open>\<open>(None, verdict)\<close> is \<open>Inl verdict\<close> here and \<open>(parsed, None)\<close> is \<open>Inr parsed\<close>.\<close>

definition rejected :: "verdict result \<Rightarrow> (verdict + 'a) result" where
  "rejected m = rbind m (\<lambda>v. Inr (Inl v))"

definition parse_candidate ::
  "string \<Rightarrow> (pyval \<Rightarrow> 'a result) \<Rightarrow> candidate \<Rightarrow> (verdict + 'a) result" where
  "parse_candidate schema parser candidate =
     rbind (require_contribution candidate) (\<lambda>rejection.
       case rejection of
         Some v \<Rightarrow> Inr (Inl v)
       | None \<Rightarrow> (case candidate of
             Contribution c \<Rightarrow>
               (let allowed = the (map_of TREATMENT_KIND_BINDING schema)
                in if co_kind c \<notin> set allowed then
                     rejected (reject ''RECORD_KIND_NOT_ALLOWED''
                       (schema @ '' accepts '' @ repr_texts (sort allowed) @ '', got '' @ repr_text (co_kind c)))
                   else (case rbind (co_payload c) (\<lambda>payload. parser (PDict payload)) of
                       Inr parsed \<Rightarrow> Inr (Inr parsed)
                     | Inl (Agenda_Schema_Error code detail) \<Rightarrow> rejected (schema_rejection code detail)
                     | Inl e \<Rightarrow>
                         if is_value_error e
                         then rejected (reject ''PAYLOAD_MALFORMED'' (cp_take 256 (exn_text e)))
                         else Inl e))
           | _ \<Rightarrow> Inl (Assertion_Error [])))"

lemma rejected_simp [simp]: "rejected (Inr v) = Inr (Inl v)"
  by (simp add: rejected_def)

text \<open>For a parser that fails only with the stable errors, the gate always answers.\<close>

definition gate_accepts :: "string \<Rightarrow> (pyval \<Rightarrow> 'a result) \<Rightarrow> candidate \<Rightarrow> 'a \<Rightarrow> bool" where
  "gate_accepts schema parser candidate p \<longleftrightarrow>
     (\<exists>c d. candidate = Contribution c \<and> co_kind c \<in> set (the (map_of TREATMENT_KIND_BINDING schema)) \<and>
        co_payload c = Inr d \<and> parser (PDict d) = Inr p)"

text \<open>A candidate the platform can produce: a contribution that its constructor built.\<close>

definition candidate_ok :: "candidate \<Rightarrow> bool" where
  "candidate_ok candidate \<longleftrightarrow> (case candidate of Contribution c \<Rightarrow> contribution_ok c | _ \<Rightarrow> True)"

lemma contribution_payload_Inr: "contribution_ok c \<Longrightarrow> \<exists>d. co_payload c = Inr d"
  by (auto simp: contribution_ok_def co_payload_def elim: payload_bytes_okE)

lemma parse_candidate_Inr_Inr:
  "parse_candidate schema parser candidate = Inr (Inr p) \<longleftrightarrow> gate_accepts schema parser candidate p"
proof (cases candidate)
  case (Contribution c)
  show ?thesis
  proof (cases "rbind (co_payload c) (\<lambda>payload. parser (PDict payload))")
    case (Inl e)
    have "\<not> gate_accepts schema parser candidate p"
      using Inl Contribution by (auto simp: gate_accepts_def)
    moreover have "parse_candidate schema parser candidate \<noteq> Inr (Inr p)"
      using Inl Contribution
      by (auto simp: parse_candidate_def require_contribution_def Let_def rejected_def rbind_def
          split: exn.splits sum.splits)
    ultimately show ?thesis by simp
  next
    case (Inr q)
    with Contribution show ?thesis
      by (auto simp: parse_candidate_def require_contribution_def gate_accepts_def Let_def
          rbind_Inr_iff)
  qed
qed (simp_all add: parse_candidate_def require_contribution_def gate_accepts_def)

lemma parse_candidate_answers:
  assumes "\<And>v. schema_safe (parser v)" and "candidate_ok candidate"
  shows "(\<exists>p. parse_candidate schema parser candidate = Inr (Inr p)) \<or>
    (\<exists>v. parse_candidate schema parser candidate = Inr (Inl v) \<and> \<not> accepted v)"
proof (cases candidate)
  case (Contribution c)
  with assms(2) obtain d where d: "co_payload c = Inr d"
    using contribution_payload_Inr by (auto simp: candidate_ok_def)
  show ?thesis
  proof (cases "parser (PDict d)")
    case (Inl e)
    with assms(1) [of "PDict d"] obtain code detail where e: "e = Agenda_Schema_Error code detail"
      "code \<in> set VERDICT_CODES" "code \<noteq> ACCEPTED"
      by (auto simp: schema_safe_def schema_failure_def)
    with Inl d Contribution show ?thesis
      by (auto simp: parse_candidate_def require_contribution_def Let_def schema_rejection_def
          reject_known ACCEPTED_def)
  next
    case (Inr p)
    with d Contribution show ?thesis
      by (auto simp: parse_candidate_def require_contribution_def Let_def ACCEPTED_def)
  qed
qed (auto simp: parse_candidate_def require_contribution_def ACCEPTED_def)

end
