(* ===== verification/Snapshot.thy ===== *)
theory Snapshot
  imports Candidates
begin

text \<open>
  The agenda projection of one world snapshot, \<open>agenda_treatments/snapshot.py\<close>: entries, the
  builder with its host clock, the typed scan and its audit, and the roles. The lemmas show that a
  built snapshot is sorted, indexed and closed under decoding, that the order in which the world
  lists its admissions does not matter, and that the scan splits what declares a schema into the
  valid and the invalid.
\<close>

definition MAXIMUM_TICK :: int where
  "MAXIMUM_TICK = 2 ^ 63 - 1"

definition snapshot_error :: "string \<Rightarrow> string \<Rightarrow> exn" where
  "snapshot_error code detail = Agenda_Snapshot_Error code (cp_take 2000 detail)"

definition check_tick :: "string \<Rightarrow> pyval \<Rightarrow> int result" where
  "check_tick label value = (case value of
      PInt i \<Rightarrow> if 0 \<le> i \<and> i \<le> MAXIMUM_TICK then Inr i
                else Inl (snapshot_error ''MALFORMED_AGENDA_CLOCK'' label)
    | _ \<Rightarrow> Inl (snapshot_error ''MALFORMED_AGENDA_CLOCK'' label))"

section \<open>Entries\<close>

record agenda_entry =
  en_admission_ref :: string
  en_session_id :: "string option"
  en_kind :: "string option"
  en_parent_refs :: "string list"
  en_problem_ids :: "string list"
  en_artifact_refs :: "string list"
  en_observed_at_tick :: "int option"
  en_malformed :: bool
  en_payload_bytes :: "string option"

text \<open>
  The \<open>payload\<close> property: \<open>None\<close> for an opaque entry, the decoded object otherwise. Bytes that do
  not decode to an object would make the property raise; \<open>build_payload\<close> below shows that no entry of
  a built snapshot holds such bytes.
\<close>

definition en_payload :: "agenda_entry \<Rightarrow> (string \<times> pyval) list option" where
  "en_payload e = (case en_payload_bytes e of
      None \<Rightarrow> None
    | Some raw \<Rightarrow> (case decode_payload ''agenda entry'' raw of Inr d \<Rightarrow> Some d | Inl _ \<Rightarrow> None))"

definition is_research_record :: "agenda_entry \<Rightarrow> bool" where
  "is_research_record e \<longleftrightarrow> en_payload_bytes e \<noteq> None"

definition opaque_entry :: "string \<Rightarrow> int option \<Rightarrow> bool \<Rightarrow> agenda_entry" where
  "opaque_entry ref tick bad =
     \<lparr>en_admission_ref = ref, en_session_id = None, en_kind = None, en_parent_refs = [],
      en_problem_ids = [], en_artifact_refs = [], en_observed_at_tick = tick,
      en_malformed = bad, en_payload_bytes = None\<rparr>"

definition decode_entry :: "string \<Rightarrow> pyval \<Rightarrow> int option \<Rightarrow> agenda_entry result" where
  "decode_entry ref content tick = (case content of
      PDict d \<Rightarrow>
        if dget ''schema'' d \<noteq> PStr RESEARCH_RECORD_SCHEMA then Inr (opaque_entry ref tick False)
        else (case record_from_value content of
            Inl (Research_Record_Error _ _) \<Rightarrow> Inr (opaque_entry ref tick True)
          | Inl e \<Rightarrow> Inl e
          | Inr r \<Rightarrow>
              rbind (re_payload r) (\<lambda>payload.
              rbind (canonical_json (PDict payload)) (\<lambda>raw.
                Inr \<lparr>en_admission_ref = ref, en_session_id = Some (re_session_id r),
                     en_kind = Some (re_kind r), en_parent_refs = re_parent_refs r,
                     en_problem_ids = re_problem_ids r, en_artifact_refs = re_artifact_refs r,
                     en_observed_at_tick = tick, en_malformed = False,
                     en_payload_bytes = Some raw\<rparr>)))
    | _ \<Rightarrow> Inr (opaque_entry ref tick False))"

section \<open>Snapshots\<close>

record agenda_snapshot =
  as_entries :: "agenda_entry list"
  as_now_tick :: "int option"
  as_index :: "(string \<times> agenda_entry) list"

abbreviation malformed_snapshot :: "string \<Rightarrow> exn" where
  "malformed_snapshot \<equiv> snapshot_error ''MALFORMED_AGENDA_SNAPSHOT''"

fun read_ticks :: "(string \<times> int) list \<Rightarrow> (pyval \<times> pyval) list \<Rightarrow> (string \<times> int) list result" where
  "read_ticks ticks [] = Inr ticks"
| "read_ticks ticks ((reference, value) # rest) = (case reference of
      PStr r \<Rightarrow>
        rbind (check_tick (''observed_at_ticks['' @ r @ '']'') value) (\<lambda>tick.
          read_ticks (AList.update r tick ticks) rest)
    | _ \<Rightarrow> Inl (malformed_snapshot ''observed_at_ticks key''))"

fun decode_entries ::
  "(string \<times> int) list \<Rightarrow> string list \<Rightarrow> (pyval \<times> pyval) list \<Rightarrow> agenda_entry list result" where
  "decode_entries ticks seen [] = Inr []"
| "decode_entries ticks seen ((reference, content) # rest) = (case reference of
      PStr r \<Rightarrow>
        if r = [] then Inl (malformed_snapshot ''admission_ref'')
        else if r \<in> set seen then Inl (malformed_snapshot (''duplicate '' @ r))
        else rbind (decode_entry r content (map_of ticks r)) (\<lambda>entry.
             rbind (decode_entries ticks (r # seen) rest) (\<lambda>entries. Inr (entry # entries)))
    | _ \<Rightarrow> Inl (malformed_snapshot ''admission_ref''))"

text \<open>\<open>AgendaSnapshot.build\<close> on a sequence of pairs and a mapping of observed ticks.\<close>

definition build ::
  "(pyval \<times> pyval) list \<Rightarrow> pyval \<Rightarrow> (pyval \<times> pyval) list option \<Rightarrow> agenda_snapshot result" where
  "build entries now_tick observed_at_ticks =
     rbind (optional (check_tick ''now_tick'') now_tick) (\<lambda>selected_now.
     rbind (case observed_at_ticks of None \<Rightarrow> Inr [] | Some items \<Rightarrow> read_ticks [] items) (\<lambda>ticks.
     rbind (decode_entries ticks [] entries) (\<lambda>decoded.
       case sort (filter (\<lambda>r. r \<notin> set (map en_admission_ref decoded)) (keys ticks)) of
         unknown # _ \<Rightarrow> Inl (malformed_snapshot (''unknown observed tick '' @ unknown))
       | [] \<Rightarrow>
           let ordered = sort_key en_admission_ref decoded
           in Inr \<lparr>as_entries = ordered, as_now_tick = selected_now,
                   as_index = map (\<lambda>e. (en_admission_ref e, e)) ordered\<rparr>)))"

definition snapshot_get :: "agenda_snapshot \<Rightarrow> string \<Rightarrow> agenda_entry option" where
  "snapshot_get s ref = map_of (as_index s) ref"

definition snapshot_contains :: "agenda_snapshot \<Rightarrow> string \<Rightarrow> bool" where
  "snapshot_contains s ref \<longleftrightarrow> ref \<in> set (keys (as_index s))"

definition snapshot_len :: "agenda_snapshot \<Rightarrow> nat" where
  "snapshot_len s = length (as_entries s)"

definition malformed_admission_refs :: "agenda_snapshot \<Rightarrow> string list" where
  "malformed_admission_refs s = map en_admission_ref (filter en_malformed (as_entries s))"

text \<open>
  \<open>_scan\<close>: what declares the schema, with its parsed payload, or with \<open>None\<close> when the kind is not
  allowed or the payload does not parse. The parsers fail only with subclasses of \<open>ValueError\<close>
  (\<open>schema_safe_parse\<close>), which the code catches.
\<close>

definition scan_entry ::
  "string \<Rightarrow> (pyval \<Rightarrow> 'a result) \<Rightarrow> string list option \<Rightarrow> agenda_entry \<Rightarrow>
   (agenda_entry \<times> 'a option) option" where
  "scan_entry schema parser allowed_kinds e = (case en_payload e of
      None \<Rightarrow> None
    | Some d \<Rightarrow>
        if dget ''schema'' d \<noteq> PStr schema then None
        else if \<not> (case allowed_kinds of None \<Rightarrow> True
                   | Some kinds \<Rightarrow> (case en_kind e of None \<Rightarrow> False | Some k \<Rightarrow> k \<in> set kinds))
          then Some (e, None)
        else (case parser (PDict d) of
            Inr parsed \<Rightarrow> Some (e, Some parsed)
          | Inl _ \<Rightarrow> Some (e, None)))"

definition scan ::
  "agenda_snapshot \<Rightarrow> string \<Rightarrow> (pyval \<Rightarrow> 'a result) \<Rightarrow> string list option \<Rightarrow>
   (agenda_entry \<times> 'a option) list" where
  "scan s schema parser allowed_kinds =
     List.map_filter (scan_entry schema parser allowed_kinds) (as_entries s)"

definition typed ::
  "agenda_snapshot \<Rightarrow> string \<Rightarrow> (pyval \<Rightarrow> 'a result) \<Rightarrow> string list option \<Rightarrow>
   (agenda_entry \<times> 'a) list" where
  "typed s schema parser allowed_kinds =
     List.map_filter (\<lambda>(e, parsed). map_option (\<lambda>p. (e, p)) parsed)
       (scan s schema parser allowed_kinds)"

definition invalid_typed ::
  "agenda_snapshot \<Rightarrow> string \<Rightarrow> (pyval \<Rightarrow> 'a result) \<Rightarrow> string list option \<Rightarrow> string list" where
  "invalid_typed s schema parser allowed_kinds =
     map (\<lambda>(e, _). en_admission_ref e)
       (filter (\<lambda>(_, parsed). parsed = None) (scan s schema parser allowed_kinds))"

section \<open>Roles\<close>

record agenda_roles =
  ro_coordinator_session_ids :: "string list"
  ro_admitting_session_ids :: "string list"

definition check_session_ids :: "string \<Rightarrow> pyval \<Rightarrow> string list result" where
  "check_session_ids label values = (case values of
      PList vs \<Rightarrow>
        rbind (rmap (\<lambda>v. case v of
                   PStr s \<Rightarrow> if s = [] then Inl (snapshot_error ''MALFORMED_AGENDA_ROLES'' label) else Inr s
                 | _ \<Rightarrow> Inl (snapshot_error ''MALFORMED_AGENDA_ROLES'' label)) vs) (\<lambda>selected.
          if \<not> distinct selected
          then Inl (snapshot_error ''MALFORMED_AGENDA_ROLES'' (label @ '': duplicate''))
          else Inr (sort selected))
    | _ \<Rightarrow> Inl (snapshot_error ''MALFORMED_AGENDA_ROLES'' label))"

definition agenda_roles_init :: "pyval \<Rightarrow> pyval \<Rightarrow> agenda_roles result" where
  "agenda_roles_init coordinators admitters =
     rbind (check_session_ids ''coordinator_session_ids'' coordinators) (\<lambda>c.
     rbind (check_session_ids ''admitting_session_ids'' admitters) (\<lambda>a.
       Inr \<lparr>ro_coordinator_session_ids = c, ro_admitting_session_ids = a\<rparr>))"

definition is_coordinator :: "agenda_roles \<Rightarrow> string option \<Rightarrow> bool" where
  "is_coordinator roles session_id \<longleftrightarrow>
     (case session_id of None \<Rightarrow> False | Some s \<Rightarrow> s \<in> set (ro_coordinator_session_ids roles))"

definition is_admitter :: "agenda_roles \<Rightarrow> string option \<Rightarrow> bool" where
  "is_admitter roles session_id \<longleftrightarrow>
     (case session_id of None \<Rightarrow> False | Some s \<Rightarrow> s \<in> set (ro_admitting_session_ids roles))"

definition agenda_roles_to_value :: "agenda_roles \<Rightarrow> pyval" where
  "agenda_roles_to_value roles = PDict
     [(''coordinator_session_ids'', texts (ro_coordinator_session_ids roles)),
      (''admitting_session_ids'', texts (ro_admitting_session_ids roles))]"

section \<open>The typed scan\<close>

definition kind_allowed :: "string list option \<Rightarrow> agenda_entry \<Rightarrow> bool" where
  "kind_allowed allowed_kinds e \<longleftrightarrow> (case allowed_kinds of None \<Rightarrow> True
     | Some kinds \<Rightarrow> (\<exists>k. en_kind e = Some k \<and> k \<in> set kinds))"

definition declares :: "string \<Rightarrow> agenda_entry \<Rightarrow> bool" where
  "declares schema e \<longleftrightarrow> (\<exists>d. en_payload e = Some d \<and> dget ''schema'' d = PStr schema)"

definition carries :: "string \<Rightarrow> (pyval \<Rightarrow> 'a result) \<Rightarrow> string list option \<Rightarrow> agenda_entry \<Rightarrow> 'a \<Rightarrow> bool" where
  "carries schema parser allowed_kinds e p \<longleftrightarrow> declares schema e \<and> kind_allowed allowed_kinds e \<and>
     (\<exists>d. en_payload e = Some d \<and> parser (PDict d) = Inr p)"

lemma scan_entry_simps:
  "\<not> declares schema e \<Longrightarrow> scan_entry schema parser allowed_kinds e = None"
  "declares schema e \<Longrightarrow> \<exists>x. scan_entry schema parser allowed_kinds e = Some (e, x) \<and>
     (\<forall>p. x = Some p \<longleftrightarrow> carries schema parser allowed_kinds e p)"
  by (auto simp: scan_entry_def declares_def carries_def kind_allowed_def split: option.splits sum.splits)

lemma set_map_filter: "set (List.map_filter f xs) = {y. \<exists>x \<in> set xs. f x = Some y}"
  by (induction xs) (auto simp: List.map_filter_simps split: option.splits)

lemma set_typed:
  "set (typed s schema parser allowed_kinds) =
   {(e, p). e \<in> set (as_entries s) \<and> carries schema parser allowed_kinds e p}"
proof -
  have "(e, Some p) \<in> set (scan s schema parser allowed_kinds) \<longleftrightarrow>
      e \<in> set (as_entries s) \<and> carries schema parser allowed_kinds e p" for e p
  proof -
    have "scan_entry schema parser allowed_kinds x = Some (e, Some p) \<longleftrightarrow>
        x = e \<and> carries schema parser allowed_kinds e p" for x
      using scan_entry_simps [of schema x parser allowed_kinds]
      by (cases "declares schema x") (auto simp: carries_def)
    then show ?thesis by (auto simp: scan_def set_map_filter)
  qed
  moreover have "(e, p) \<in> set (typed s schema parser allowed_kinds) \<longleftrightarrow>
      (e, Some p) \<in> set (scan s schema parser allowed_kinds)" for e p
    by (force simp: typed_def set_map_filter)
  ultimately show ?thesis by auto
qed

text \<open>Every entry that declares the schema is either typed or reported as invalid.\<close>

lemma set_invalid_typed:
  "set (invalid_typed s schema parser allowed_kinds) =
   {en_admission_ref e | e. e \<in> set (as_entries s) \<and> declares schema e \<and>
      (\<forall>p. \<not> carries schema parser allowed_kinds e p)}"
proof -
  have "(e, None) \<in> set (scan s schema parser allowed_kinds) \<longleftrightarrow>
      e \<in> set (as_entries s) \<and> declares schema e \<and> (\<forall>p. \<not> carries schema parser allowed_kinds e p)" for e
  proof -
    have "scan_entry schema parser allowed_kinds x = Some (e, None) \<longleftrightarrow>
        x = e \<and> declares schema e \<and> (\<forall>p. \<not> carries schema parser allowed_kinds e p)" for x
      using scan_entry_simps [of schema x parser allowed_kinds]
      by (cases "declares schema x") auto
    then show ?thesis by (auto simp: scan_def set_map_filter)
  qed
  then show ?thesis by (force simp: invalid_typed_def)
qed

section \<open>Built snapshots\<close>

text \<open>What every snapshot built by \<open>build\<close> satisfies.\<close>

definition snapshot_ok :: "agenda_snapshot \<Rightarrow> bool" where
  "snapshot_ok s \<longleftrightarrow> sorted (map en_admission_ref (as_entries s)) \<and>
     distinct (map en_admission_ref (as_entries s)) \<and>
     as_index s = map (\<lambda>e. (en_admission_ref e, e)) (as_entries s)"

lemma snapshot_okD:
  "snapshot_ok s \<Longrightarrow> e \<in> set (as_entries s) \<Longrightarrow> f \<in> set (as_entries s) \<Longrightarrow>
   en_admission_ref e = en_admission_ref f \<Longrightarrow> e = f"
  by (auto simp: snapshot_ok_def distinct_map dest: inj_onD)

lemma snapshot_get_iff:
  assumes "snapshot_ok s"
  shows "snapshot_get s ref = Some e \<longleftrightarrow> e \<in> set (as_entries s) \<and> en_admission_ref e = ref"
proof -
  have "map fst (as_index s) = map en_admission_ref (as_entries s)"
    using assms by (simp add: snapshot_ok_def comp_def)
  then have "distinct (map fst (as_index s))" using assms by (metis snapshot_ok_def)
  then have "snapshot_get s ref = Some e \<longleftrightarrow> (ref, e) \<in> set (as_index s)"
    by (simp add: snapshot_get_def)
  with assms show ?thesis by (auto simp: snapshot_ok_def)
qed

lemma snapshot_contains_iff:
  "snapshot_ok s \<Longrightarrow> snapshot_contains s ref \<longleftrightarrow> ref \<in> en_admission_ref ` set (as_entries s)"
  by (simp add: snapshot_contains_def snapshot_ok_def keys_def comp_def)

lemma decode_entry_ref: "decode_entry ref content tick = Inr e \<Longrightarrow> en_admission_ref e = ref \<and> en_observed_at_tick e = tick"
  by (auto simp: decode_entry_def opaque_entry_def rbind_Inr_iff
      split: pyval.splits if_splits sum.splits exn.splits)

text \<open>One item of the input on its own.\<close>

definition entry_result :: "(string \<times> int) list \<Rightarrow> pyval \<times> pyval \<Rightarrow> agenda_entry result" where
  "entry_result ticks item = (case fst item of
      PStr r \<Rightarrow> if r = [] then Inl (malformed_snapshot ''admission_ref'')
                else decode_entry r (snd item) (map_of ticks r)
    | _ \<Rightarrow> Inl (malformed_snapshot ''admission_ref''))"

lemma entry_result_Inr:
  "entry_result ticks item = Inr e \<longleftrightarrow>
   (\<exists>r. fst item = PStr r \<and> r \<noteq> [] \<and> decode_entry r (snd item) (map_of ticks r) = Inr e)"
  by (cases item; cases "fst item") (auto simp: entry_result_def)

lemma decode_entries_Inr:
  "decode_entries ticks seen items = Inr es \<longleftrightarrow>
   distinct (map fst items) \<and> (\<forall>r \<in> set seen. PStr r \<notin> fst ` set items) \<and>
   rmap (entry_result ticks) items = Inr es"
proof (induction ticks seen items arbitrary: es rule: decode_entries.induct)
  case (2 ticks seen reference content rest)
  show ?case
  proof (cases reference)
    case (PStr r)
    show ?thesis
    proof (cases "r = [] \<or> r \<in> set seen")
      case True
      with PStr show ?thesis by (auto simp: rbind_Inr_iff entry_result_Inr)
    next
      case False
      have IH: "decode_entries ticks (r # seen) rest = Inr es \<longleftrightarrow>
        distinct (map fst rest) \<and> (\<forall>x \<in> set (r # seen). PStr x \<notin> fst ` set rest) \<and>
        rmap (entry_result ticks) rest = Inr es"
        if "decode_entry r content (map_of ticks r) = Inr x" for x es
        using 2 [OF PStr _ _ that] False by blast
      from False PStr show ?thesis
        by (auto simp: rbind_Inr_iff entry_result_Inr IH) (force+)
    qed
  qed (auto simp: rbind_Inr_iff entry_result_Inr)
qed auto

lemma entry_result_ref: "entry_result ticks item = Inr e \<Longrightarrow> PStr (en_admission_ref e) = fst item"
  by (auto simp: entry_result_Inr dest: decode_entry_ref)

lemma rmap_refs: "rmap (entry_result ticks) items = Inr es \<Longrightarrow> map fst items = map (PStr \<circ> en_admission_ref) es"
  by (induction items arbitrary: es) (auto simp: rbind_Inr_iff dest: entry_result_ref)

lemma distinct_refs:
  "rmap (entry_result ticks) items = Inr es \<Longrightarrow> distinct (map fst items) \<Longrightarrow> distinct (map en_admission_ref es)"
  by (auto simp: rmap_refs distinct_map inj_on_def)

lemma build_Inr:
  "build entries now_tick observed = Inr s \<longleftrightarrow>
   (\<exists>now ticks es. optional (check_tick ''now_tick'') now_tick = Inr now \<and>
      (case observed of None \<Rightarrow> Inr [] | Some items \<Rightarrow> read_ticks [] items) = Inr ticks \<and>
      distinct (map fst entries) \<and> rmap (entry_result ticks) entries = Inr es \<and>
      set (keys ticks) \<subseteq> en_admission_ref ` set es \<and>
      s = \<lparr>as_entries = sort_key en_admission_ref es, as_now_tick = now,
           as_index = map (\<lambda>e. (en_admission_ref e, e)) (sort_key en_admission_ref es)\<rparr>)"
proof -
  have unknown: "(case sort (filter (\<lambda>r. r \<notin> set (map en_admission_ref es)) (keys ticks)) of
      unknown # _ \<Rightarrow> Inl (f unknown) | [] \<Rightarrow> Inr x) = Inr s \<longleftrightarrow>
      set (keys ticks) \<subseteq> en_admission_ref ` set es \<and> s = x" for f es x and ticks :: "(string \<times> int) list"
  proof -
    have "sort (filter (\<lambda>r. r \<notin> set (map en_admission_ref es)) (keys ticks)) = [] \<longleftrightarrow>
        set (keys ticks) \<subseteq> en_admission_ref ` set es"
      by (metis (mono_tags, lifting) filter_empty_conv set_empty set_map set_sort subset_code(1))
    then show ?thesis by (auto split: list.splits)
  qed
  show ?thesis
    unfolding build_def Let_def rbind_Inr_iff decode_entries_Inr unknown by simp
qed

lemma build_ok: "build entries now_tick observed = Inr s \<Longrightarrow> snapshot_ok s"
  by (auto simp: build_Inr snapshot_ok_def distinct_map_sort_key distinct_refs)

lemma rmap_mset:
  assumes "rmap f xs = Inr ys" and "mset xs = mset xs'"
  shows "\<exists>ys'. rmap f xs' = Inr ys' \<and> mset ys' = mset ys"
proof -
  from assms(1) have "\<forall>x \<in> set xs. \<exists>y. f x = Inr y"
    by (auto simp: rmap_Inr_iff list_all2_conv_all_nth in_set_conv_nth)
  then obtain g where g: "\<And>x. x \<in> set xs \<Longrightarrow> f x = Inr (g x)" by metis
  from g have "rmap f xs = Inr (map g xs)" by (rule rmap_all_Inr)
  with assms(1) have "ys = map g xs" by simp
  moreover have "rmap f xs' = Inr (map g xs')"
    by (rule rmap_all_Inr, rule g) (use mset_eq_setD [OF assms(2)] in simp)
  moreover have "mset (map g xs') = mset (map g xs)" using assms(2) by (simp only: mset_map)
  ultimately show ?thesis by blast
qed

text \<open>The order in which the world lists its admissions does not matter.\<close>

lemma build_mset:
  assumes "build entries now_tick observed = Inr s" and "mset entries = mset entries'"
  shows "build entries' now_tick observed = Inr s"
proof -
  from assms(1) obtain now ticks es where b: "optional (check_tick ''now_tick'') now_tick = Inr now"
      "(case observed of None \<Rightarrow> Inr [] | Some items \<Rightarrow> read_ticks [] items) = Inr ticks"
      "distinct (map fst entries)" "rmap (entry_result ticks) entries = Inr es"
      "set (keys ticks) \<subseteq> en_admission_ref ` set es"
      "s = \<lparr>as_entries = sort_key en_admission_ref es, as_now_tick = now,
           as_index = map (\<lambda>e. (en_admission_ref e, e)) (sort_key en_admission_ref es)\<rparr>"
    unfolding build_Inr by blast
  from rmap_mset [OF b(4) assms(2)] obtain es' where es': "rmap (entry_result ticks) entries' = Inr es'"
    "mset es' = mset es" by blast
  have "distinct (map fst entries')"
    using b(3) assms(2) by (metis mset_eq_imp_distinct_iff mset_map)
  moreover have "sort_key en_admission_ref es' = sort_key en_admission_ref es"
  proof (rule sort_key_inj_key_eq)
    show "mset es' = mset (sort_key en_admission_ref es)" using es'(2) by simp
    show "inj_on en_admission_ref (set es')"
      using distinct_refs [OF b(4,3)] es'(2) by (metis distinct_map set_mset_mset)
  qed (rule sorted_sort_key)
  moreover have "set es' = set es" using es'(2) by (rule mset_eq_setD)
  ultimately show ?thesis
    using b es'(1) unfolding build_Inr by (intro exI [of _ now] exI [of _ ticks] exI [of _ es']) simp
qed

lemma record_payload_Inr:
  assumes "record_ok r"
  shows "\<exists>d. re_payload r = Inr d \<and> json_wf (\<lambda>_. True) (PDict d) \<and> sort_json (PDict d) = PDict d \<and>
    canonical_json (PDict d) = Inr (re_payload_bytes r) \<and>
    (\<forall>what. decode_payload what (re_payload_bytes r) = Inr d)"
proof -
  from assms obtain d where "\<And>what. decode_payload what (re_payload_bytes r) = Inr d"
    "json_wf (\<lambda>_. True) (PDict d)" "sort_json (PDict d) = PDict d"
    "validate_payload (PDict d) = Inr (re_payload_bytes r)"
    by (auto simp: record_ok_def elim: payload_bytes_okE)
  then show ?thesis by (auto simp: re_payload_def validate_payload_def rbind_Inr_iff)
qed

text \<open>A content that validates is projected field by field; the stored bytes are the record's own.\<close>

lemma decode_entry_record:
  assumes "record_from_value content = Inr r" "json_wf (\<lambda>_. True) content"
  shows "decode_entry ref content tick = Inr
    \<lparr>en_admission_ref = ref, en_session_id = Some (re_session_id r), en_kind = Some (re_kind r),
     en_parent_refs = re_parent_refs r, en_problem_ids = re_problem_ids r,
     en_artifact_refs = re_artifact_refs r, en_observed_at_tick = tick, en_malformed = False,
     en_payload_bytes = Some (re_payload_bytes r)\<rparr>"
proof -
  from assms(1) obtain d where "content = PDict d" "dget ''schema'' d = PStr RESEARCH_RECORD_SCHEMA"
    by (auto simp: record_from_value_def rbind_Inr_iff check_envelope_Inr)
  moreover obtain p where "re_payload r = Inr p" "canonical_json (PDict p) = Inr (re_payload_bytes r)"
    using record_payload_Inr [OF record_from_value_ok [OF assms]] by blast
  ultimately show ?thesis using assms(1) by (simp add: decode_entry_def)
qed

text \<open>A content that does not validate fails with the record error only, so it never stops a build.\<close>

definition record_safe :: "'a result \<Rightarrow> bool" where
  "record_safe m \<longleftrightarrow> (\<forall>e. m = Inl e \<longrightarrow> (\<exists>code detail. e = Research_Record_Error code detail))"

lemma record_safe_simps [simp]:
  "record_safe (Inr x)" "record_safe (Inl (Research_Record_Error code detail))"
  by (simp_all add: record_safe_def)

lemma record_safe_rbind [intro!]:
  "record_safe m \<Longrightarrow> (\<And>x. m = Inr x \<Longrightarrow> record_safe (f x)) \<Longrightarrow> record_safe (rbind m f)"
  by (auto simp: record_safe_def rbind_Inl_iff)

lemma record_safe_rmap: "(\<And>x. x \<in> set xs \<Longrightarrow> record_safe (f x)) \<Longrightarrow> record_safe (rmap f xs)"
  by (auto simp: record_safe_def dest!: rmap_Inl_mem)

lemma record_safe_text [simp]: "record_safe (py_text label n e v)"
  by (simp add: py_text_def split: pyval.splits)

lemma record_safe_fields [simp]:
  "record_safe (py_identifier label pattern v)" "record_safe (py_reference label pattern v)"
  "record_safe (check_kind v)" "record_safe (canonical_json v)"
  by (auto simp: py_identifier_def py_reference_def check_kind_def canonical_json_def split: pyval.splits)

lemma record_safe_sorted_unique: "(\<And>v. record_safe (f v)) \<Longrightarrow> record_safe (py_sorted_unique label f n v)"
  by (auto simp: py_sorted_unique_def intro!: record_safe_rmap split: pyval.splits)

lemma record_safe_loop [simp]: "record_safe (payload_loop n stack)"
  by (induction n stack rule: payload_loop.induct)
    (auto intro!: record_safe_rmap split: pyval.splits)

lemma record_safe_payload [simp]: "record_safe (check_payload v)"
  by (auto simp: check_payload_def validate_payload_def Let_def split: pyval.splits)

lemma record_safe_refs [simp]:
  "record_safe (check_problem_ids v)" "record_safe (check_parent_refs v)" "record_safe (check_artifact_refs v)"
  by (auto simp: check_problem_ids_def check_parent_refs_def check_artifact_refs_def
      intro!: record_safe_sorted_unique)

lemma record_to_bytes_safe:
  assumes "payload_bytes_ok (re_payload_bytes r)"
  shows "record_safe (record_to_bytes r)"
proof -
  from assms obtain d where "re_payload r = Inr d"
    by (auto simp: re_payload_def elim: payload_bytes_okE)
  then show ?thesis by (auto simp: record_to_bytes_def record_to_value_def)
qed

lemma record_safe_init:
  "json_wf (\<lambda>_. True) payload \<Longrightarrow>
   record_safe (research_record_init w c s b k t bd ps rs arts payload)"
  by (auto simp: research_record_init_def Let_def intro!: record_to_bytes_safe check_payload_ok)

lemma record_safe_from_value:
  assumes "json_tree v" shows "record_safe (record_from_value v)"
proof (cases v)
  case (PDict d)
  have "record_safe (check_envelope code expected schema v)" for code expected schema
    by (auto simp: check_envelope_def require_def split: pyval.splits)
  moreover have "record_safe (research_record_init w c s b k t bd ps rs arts (dget ''payload'' d))" for w c s b k t bd ps rs arts
  proof -
    have "json_tree (dget ''payload'' d)" using assms PDict json_tree_dget by blast
    then show ?thesis
      by (auto simp: research_record_init_def Let_def intro!: record_to_bytes_safe check_payload_ok
          intro: check_payload_tree)
  qed
  ultimately show ?thesis
    using PDict unfolding record_from_value_def
    by (intro record_safe_rbind) (auto simp: check_envelope_Inr)
qed (simp_all add: record_from_value_def check_envelope_def)

lemma record_from_value_wf:
  assumes "json_tree v" "record_from_value v = Inr r" shows "json_wf (\<lambda>_. True) v"
proof -
  from assms obtain d where d: "v = PDict d" "set (keys d) = set RECORD_FIELDS"
    "research_record_init (dget ''world_id'' d) (dget ''cohort_id'' d) (dget ''session_id'' d)
         (dget ''base_snapshot_ref'' d) (dget ''kind'' d) (dget ''title'' d) (dget ''body'' d)
         (dget ''problem_ids'' d) (dget ''parent_refs'' d) (dget ''artifact_refs'' d) (dget ''payload'' d) = Inr r"
    "dget ''schema'' d = PStr RESEARCH_RECORD_SCHEMA"
    by (auto simp: record_from_value_def rbind_Inr_iff check_envelope_Inr)
  have "json_wf (\<lambda>_. True) (dget k d)" if "k \<in> set RECORD_FIELDS" for k
  proof -
    have "json_tree (dget ''payload'' d)" using assms d json_tree_dget by blast
    then show ?thesis
      using that d(3,4) check_payload_tree [of "dget ''payload'' d"]
      by (auto simp: RECORD_FIELDS_def init_record_Inr check_kind_Inr check_refs_Inr py_text_Inr
          py_identifier_Inr py_reference_Inr texts_def json_wf_list_iff)
  qed
  moreover have "snd p = dget (fst p) d" "fst p \<in> set RECORD_FIELDS" if "p \<in> set d" for p
    using that assms(1) d(1,2) by (auto simp: dget_def keys_def image_iff dest: map_of_is_SomeI split: option.splits)
      (metis prod.collapse map_of_is_SomeI option.distinct(1) option.inject)+
  ultimately show ?thesis using assms(1) d(1) by (auto simp: json_wf_items_iff)
qed

lemma decode_entry_total:
  assumes "json_tree content"
  shows "\<exists>e. decode_entry ref content tick = Inr e"
proof (cases "record_from_value content")
  case (Inl x)
  with record_safe_from_value [OF assms] obtain code detail where "x = Research_Record_Error code detail"
    by (auto simp: record_safe_def)
  with Inl show ?thesis by (auto simp: decode_entry_def split: pyval.splits)
next
  case (Inr r)
  with decode_entry_record [OF Inr record_from_value_wf [OF assms Inr]] show ?thesis by blast
qed

lemma decode_entry_malformed:
  assumes "decode_entry ref content tick = Inr e" "json_wf (\<lambda>_. True) content"
  shows "en_malformed e \<longleftrightarrow> (\<exists>d. content = PDict d \<and> dget ''schema'' d = PStr RESEARCH_RECORD_SCHEMA) \<and>
      (\<forall>r. record_from_value content \<noteq> Inr r)"
    and "is_research_record e \<longleftrightarrow> (\<exists>r. record_from_value content = Inr r)"
    and "is_research_record e \<longleftrightarrow> en_payload e \<noteq> None"
proof -
  have "(en_malformed e \<longleftrightarrow> (\<exists>d. content = PDict d \<and> dget ''schema'' d = PStr RESEARCH_RECORD_SCHEMA) \<and>
      (\<forall>r. record_from_value content \<noteq> Inr r)) \<and>
    (is_research_record e \<longleftrightarrow> (\<exists>r. record_from_value content = Inr r)) \<and>
    (is_research_record e \<longleftrightarrow> en_payload e \<noteq> None)"
  proof (cases "record_from_value content")
    case (Inl x)
    with assms(1) show ?thesis
      by (auto simp: decode_entry_def opaque_entry_def is_research_record_def en_payload_def
          split: pyval.splits if_splits exn.splits)
  next
    case (Inr r)
    then obtain p where "\<forall>what. decode_payload what (re_payload_bytes r) = Inr p"
      using record_payload_Inr record_from_value_ok assms(2) by blast
    with Inr assms decode_entry_record [OF Inr assms(2), of ref tick] show ?thesis
      by (auto simp: is_research_record_def en_payload_def)
  qed
  then show "en_malformed e \<longleftrightarrow> (\<exists>d. content = PDict d \<and> dget ''schema'' d = PStr RESEARCH_RECORD_SCHEMA) \<and>
      (\<forall>r. record_from_value content \<noteq> Inr r)"
    "is_research_record e \<longleftrightarrow> (\<exists>r. record_from_value content = Inr r)"
    "is_research_record e \<longleftrightarrow> en_payload e \<noteq> None"
    by blast+
qed

text \<open>Reading one entry of a built snapshot back to the pair it was built from.\<close>

lemma build_entry:
  assumes "build entries now_tick observed = Inr s" "e \<in> set (as_entries s)"
  shows "\<exists>content tick. (PStr (en_admission_ref e), content) \<in> set entries \<and>
    decode_entry (en_admission_ref e) content tick = Inr e"
proof -
  from assms obtain ticks es where "rmap (entry_result ticks) entries = Inr es" "e \<in> set es"
    by (auto simp: build_Inr)
  then obtain item where item: "item \<in> set entries" "entry_result ticks item = Inr e"
    by (metis rmap_Inr_mem)
  then obtain r where r: "fst item = PStr r" "decode_entry r (snd item) (map_of ticks r) = Inr e"
    by (auto simp: entry_result_Inr)
  with decode_entry_ref [OF r(2)] item(1) show ?thesis
    by (metis prod.collapse)
qed

lemma build_contains:
  assumes "build entries now_tick observed = Inr s" "(PStr ref, content) \<in> set entries"
  shows "\<exists>e tick. snapshot_get s ref = Some e \<and> decode_entry ref content tick = Inr e"
proof -
  from assms(1) obtain ticks es where es: "rmap (entry_result ticks) entries = Inr es" "set es = set (as_entries s)"
    by (auto simp: build_Inr)
  from es(1) assms(2) obtain e where "e \<in> set es" "entry_result ticks (PStr ref, content) = Inr e"
    by (auto simp: rmap_Inr_iff list_all2_conv_all_nth in_set_conv_nth) metis
  then show ?thesis
    using es(2) snapshot_get_iff [OF build_ok [OF assms(1)]]
    by (auto simp: entry_result_Inr dest: decode_entry_ref)
qed

lemma build_contains_iff:
  assumes "build entries now_tick observed = Inr s"
  shows "snapshot_contains s ref \<longleftrightarrow> PStr ref \<in> fst ` set entries"
proof
  assume "snapshot_contains s ref"
  with snapshot_contains_iff [OF build_ok [OF assms]] obtain e where
    "e \<in> set (as_entries s)" "en_admission_ref e = ref" by auto
  with build_entry [OF assms] show "PStr ref \<in> fst ` set entries" by force
next
  assume "PStr ref \<in> fst ` set entries"
  then obtain content where "(PStr ref, content) \<in> set entries" by auto
  from build_contains [OF assms this] obtain e where "snapshot_get s ref = Some e" by blast
  then show "snapshot_contains s ref"
    using snapshot_get_iff [OF build_ok [OF assms]] snapshot_contains_iff [OF build_ok [OF assms]] by auto
qed

text \<open>A world with distinct references always has a projection.\<close>

lemma build_total:
  assumes "distinct refs" "[] \<notin> set refs" "length refs = length contents"
    and "\<And>c. c \<in> set contents \<Longrightarrow> json_tree c"
  shows "\<exists>s. build (zip (map PStr refs) contents) PNone None = Inr s"
proof -
  have "\<exists>es. rmap (entry_result []) (zip (map PStr refs) contents) = Inr es"
    using assms(2-4)
  proof (induction refs contents rule: list_induct2')
    case (4 r refs c contents)
    then obtain e es where "decode_entry r c None = Inr e"
      "rmap (entry_result []) (zip (map PStr refs) contents) = Inr es"
      using decode_entry_total [of c r None] by auto
    moreover from this 4 have "entry_result [] (PStr r, c) = Inr e" by (auto simp: entry_result_Inr)
    ultimately show ?case by simp
  qed simp_all
  then obtain es where "rmap (entry_result []) (zip (map PStr refs) contents) = Inr es" by blast
  moreover have "distinct (map fst (zip (map PStr refs) contents))"
    using assms(1,3) by (simp add: distinct_map inj_on_def)
  ultimately show ?thesis
    by (auto simp: build_Inr optional_def)
qed

section \<open>Roles\<close>

lemma check_session_ids_Inr [result_dests]:
  "check_session_ids label v = Inr sel \<longleftrightarrow>
   (\<exists>ss. v = texts ss \<and> [] \<notin> set ss \<and> distinct ss \<and> sel = sort ss)"
proof (cases v)
  case (PList vs)
  have val: "(case v of PStr s \<Rightarrow> if s = [] then Inl (snapshot_error ''MALFORMED_AGENDA_ROLES'' label) else Inr s
      | _ \<Rightarrow> Inl (snapshot_error ''MALFORMED_AGENDA_ROLES'' label)) = Inr s \<longleftrightarrow> v = PStr s \<and> s \<noteq> []" for v s
    by (auto split: pyval.splits)
  show ?thesis
    using PList
    by (auto simp: check_session_ids_def rbind_Inr_iff rmap_validator_Inr [OF val] texts_def list_all_iff if_Inr_iff)
qed (auto simp: check_session_ids_def texts_def)

end
