(* ===== verification/Worklist.thy ===== *)
theory Worklist
  imports Snapshot
begin

text \<open>
  The D-arm worklist, \<open>agenda_treatments/worklist.py\<close>: admitted tasks, claims with their lease
  states, closures, completion with its chain of custody, the audit of exclusivity and the five
  validators. Every operation is a function of one snapshot, the roles and one candidate.
\<close>

text \<open>\<open>{key: value for ...}\<close>: a later item with an existing key overwrites the value.\<close>

definition dict_of :: "(string \<times> 'v) list \<Rightarrow> (string \<times> 'v) list" where
  "dict_of items = fold (\<lambda>(k, v). AList.update k v) items []"

definition kinds_of :: "string \<Rightarrow> string list" where
  "kinds_of schema = the (map_of TREATMENT_KIND_BINDING schema)"

definition typed_as :: "agenda_snapshot \<Rightarrow> string \<Rightarrow> (pyval \<Rightarrow> 'a result) \<Rightarrow> (agenda_entry \<times> 'a) list" where
  "typed_as s schema parser = typed s schema parser (Some (kinds_of schema))"

definition admitted_tasks :: "agenda_snapshot \<Rightarrow> agenda_roles \<Rightarrow> (string \<times> task_admission) list" where
  "admitted_tasks s roles = dict_of (map (\<lambda>(e, p). (en_admission_ref e, p))
     (filter (\<lambda>(e, _). is_admitter roles (en_session_id e))
       (typed_as s TASK_ADMISSION_SCHEMA task_admission_parse)))"

definition proposals :: "agenda_snapshot \<Rightarrow> (string \<times> task_proposal) list" where
  "proposals s = dict_of (map (\<lambda>(e, p). (en_admission_ref e, p))
     (typed_as s TASK_PROPOSAL_SCHEMA task_proposal_parse))"

definition claims :: "agenda_snapshot \<Rightarrow> (agenda_entry \<times> task_claim) list" where
  "claims s = filter (\<lambda>(e, _). en_session_id e \<noteq> None) (typed_as s TASK_CLAIM_SCHEMA task_claim_parse)"

definition releases :: "agenda_snapshot \<Rightarrow> (agenda_entry \<times> task_release) list" where
  "releases s = filter (\<lambda>(e, _). en_session_id e \<noteq> None)
     (typed_as s TASK_RELEASE_SCHEMA task_release_parse)"

definition outcomes :: "agenda_snapshot \<Rightarrow> (agenda_entry \<times> task_outcome) list" where
  "outcomes s = filter (\<lambda>(e, p). en_session_id e \<noteq> None \<and>
       en_kind e = map_of OUTCOME_DISPOSITION_KIND (to_disposition p))
     (typed_as s TASK_OUTCOME_SCHEMA task_outcome_parse)"

definition claim_by_ref :: "agenda_snapshot \<Rightarrow> (string \<times> agenda_entry \<times> task_claim) list" where
  "claim_by_ref s = dict_of (map (\<lambda>(e, p). (en_admission_ref e, e, p)) (claims s))"

text \<open>The author, the task and the claim that a release or an outcome names.\<close>

definition closings :: "agenda_snapshot \<Rightarrow> (string option \<times> string \<times> string) list" where
  "closings s =
     map (\<lambda>(e, p). (en_session_id e, tr_task_ref p, tr_claim_ref p)) (releases s) @
     map (\<lambda>(e, p). (en_session_id e, to_task_ref p, to_claim_ref p)) (outcomes s)"

definition closure_refs :: "agenda_snapshot \<Rightarrow> string list" where
  "closure_refs s =
     (let by_ref = claim_by_ref s
      in map (\<lambda>(_, _, claim_ref). claim_ref)
           (filter (\<lambda>(session_id, task_ref, claim_ref). case map_of by_ref claim_ref of
                None \<Rightarrow> False
              | Some (claim_entry, claim_payload) \<Rightarrow>
                  en_session_id claim_entry = session_id \<and> tc_task_ref claim_payload = task_ref)
            (closings s)))"

datatype claim_state = LIVE | CLOSED | EXPIRED | UNDECIDABLE | UNKNOWN

definition claim_state :: "agenda_snapshot \<Rightarrow> string \<Rightarrow> claim_state" where
  "claim_state s claim_ref = (case find (\<lambda>(e, _). en_admission_ref e = claim_ref) (claims s) of
      None \<Rightarrow> UNKNOWN
    | Some (e, p) \<Rightarrow>
        if claim_ref \<in> set (closure_refs s) then CLOSED
        else (case (as_now_tick s, en_observed_at_tick e) of
            (Some now, Some observed) \<Rightarrow>
              if now \<ge> observed + tc_lease_ticks p then EXPIRED else LIVE
          | _ \<Rightarrow> UNDECIDABLE))"

definition blocking_claim_refs :: "agenda_snapshot \<Rightarrow> string \<Rightarrow> agenda_roles \<Rightarrow> string list" where
  "blocking_claim_refs s task_ref roles =
     (if task_ref \<notin> set (keys (admitted_tasks s roles)) then []
      else let closed = closure_refs s
           in sort (map (\<lambda>(e, _). en_admission_ref e)
                (filter (\<lambda>(e, p). tc_task_ref p = task_ref \<and> en_admission_ref e \<notin> set closed \<and>
                    (case (as_now_tick s, en_observed_at_tick e) of
                       (Some now, Some observed) \<Rightarrow> now < observed + tc_lease_ticks p
                     | _ \<Rightarrow> True))
                 (claims s))))"

definition task_is_completed :: "agenda_snapshot \<Rightarrow> string \<Rightarrow> agenda_roles \<Rightarrow> bool" where
  "task_is_completed s task_ref roles \<longleftrightarrow>
     task_ref \<in> set (keys (admitted_tasks s roles)) \<and>
     (let by_ref = claim_by_ref s
      in \<exists>(e, p) \<in> set (outcomes s). to_task_ref p = task_ref \<and> to_disposition p = ''COMPLETED'' \<and>
           (case map_of by_ref (to_claim_ref p) of
              None \<Rightarrow> False
            | Some (claim_entry, claim_payload) \<Rightarrow>
                en_session_id claim_entry = en_session_id e \<and> tc_task_ref claim_payload = task_ref))"

section \<open>Audit\<close>

definition check_lease_exclusivity :: "agenda_snapshot \<Rightarrow> agenda_roles \<Rightarrow> verdict result" where
  "check_lease_exclusivity s roles =
     (case find (\<lambda>task_ref. 1 < length (blocking_claim_refs s task_ref roles))
             (sort (keys (admitted_tasks s roles))) of
        Some task_ref \<Rightarrow> reject ''TASK_CLAIM_CONFLICT''
          (task_ref @ '' occupied by '' @ repr_texts (blocking_claim_refs s task_ref roles))
      | None \<Rightarrow> accept [])"

section \<open>Validators\<close>

text \<open>The common shape: a refusal of the gate is the verdict, otherwise the parsed payload goes on.\<close>

definition gate :: "(verdict + 'a) result \<Rightarrow> ('a \<Rightarrow> verdict result) \<Rightarrow> verdict result" where
  "gate m f = rbind m (\<lambda>r. case r of Inl rejection \<Rightarrow> Inr rejection | Inr payload \<Rightarrow> f payload)"

definition dependency_verdict ::
  "agenda_snapshot \<Rightarrow> string list \<Rightarrow> agenda_roles \<Rightarrow> verdict option result" where
  "dependency_verdict s dependency_refs roles =
     (case find (\<lambda>r. r \<notin> set (keys (admitted_tasks s roles))) dependency_refs of
        Some r \<Rightarrow> rbind (reject ''TASK_DEPENDENCY_UNKNOWN'' r) (\<lambda>v. Inr (Some v))
      | None \<Rightarrow> (case find (\<lambda>r. \<not> task_is_completed s r roles) dependency_refs of
            Some r \<Rightarrow> rbind (reject ''TASK_DEPENDENCIES_UNREADY'' r) (\<lambda>v. Inr (Some v))
          | None \<Rightarrow> Inr None))"

definition task_proposal_decision :: "agenda_snapshot \<Rightarrow> agenda_roles \<Rightarrow> task_proposal \<Rightarrow> verdict result" where
  "task_proposal_decision s roles payload =
     (case find (\<lambda>r. r \<notin> set (keys (admitted_tasks s roles))) (tp_dependency_task_refs payload) of
        Some r \<Rightarrow> reject ''TASK_DEPENDENCY_UNKNOWN'' r
      | None \<Rightarrow> accept [])"

definition validate_task_proposal ::
  "agenda_snapshot \<Rightarrow> candidate \<Rightarrow> agenda_roles \<Rightarrow> verdict result" where
  "validate_task_proposal s candidate roles =
     gate (parse_candidate TASK_PROPOSAL_SCHEMA task_proposal_parse candidate)
       (task_proposal_decision s roles)"

definition task_admission_decision ::
  "agenda_snapshot \<Rightarrow> agenda_roles \<Rightarrow> string option \<Rightarrow> task_admission \<Rightarrow> verdict result" where
  "task_admission_decision s roles prospective_session_id payload =
     (case prospective_session_id of
        None \<Rightarrow> reject ''AUTHOR_IDENTITY_REQUIRED'' ''task admission''
      | Some author \<Rightarrow>
          if \<not> is_admitter roles (Some author) then reject ''NOT_AN_ADMITTING_SLOT'' author
          else if \<not> pred_option (\<lambda>r. r \<in> set (keys (proposals s))) (ta_proposal_ref payload)
            then reject ''PROPOSAL_UNKNOWN'' (the (ta_proposal_ref payload))
          else (case find (\<lambda>r. r \<notin> set (keys (admitted_tasks s roles))) (ta_dependency_task_refs payload) of
              Some r \<Rightarrow> reject ''TASK_DEPENDENCY_UNKNOWN'' r
            | None \<Rightarrow> accept []))"

definition validate_task_admission ::
  "agenda_snapshot \<Rightarrow> candidate \<Rightarrow> agenda_roles \<Rightarrow> string option \<Rightarrow> verdict result" where
  "validate_task_admission s candidate roles prospective_session_id =
     gate (parse_candidate TASK_ADMISSION_SCHEMA task_admission_parse candidate)
       (task_admission_decision s roles prospective_session_id)"

definition task_claim_decision :: "agenda_snapshot \<Rightarrow> agenda_roles \<Rightarrow> task_claim \<Rightarrow> verdict result" where
  "task_claim_decision s roles payload =
     (case map_of (admitted_tasks s roles) (tc_task_ref payload) of
        None \<Rightarrow> reject ''TASK_UNKNOWN'' (tc_task_ref payload)
      | Some task \<Rightarrow>
          if task_is_completed s (tc_task_ref payload) roles
          then reject ''TASK_ALREADY_COMPLETED'' (tc_task_ref payload)
          else rbind (dependency_verdict s (ta_dependency_task_refs task) roles) (\<lambda>dependency_rejection.
            case dependency_rejection of
              Some v \<Rightarrow> Inr v
            | None \<Rightarrow> (case blocking_claim_refs s (tc_task_ref payload) roles of
                  [] \<Rightarrow> accept []
                | first # rest \<Rightarrow>
                    if length (filter (\<lambda>r. claim_state s r = UNDECIDABLE) (first # rest)) =
                       length (first # rest)
                    then reject ''LEASE_LIVENESS_UNDECIDABLE'' first
                    else reject ''TASK_CLAIM_CONFLICT'' first)))"

definition validate_task_claim ::
  "agenda_snapshot \<Rightarrow> candidate \<Rightarrow> agenda_roles \<Rightarrow> verdict result" where
  "validate_task_claim s candidate roles =
     gate (parse_candidate TASK_CLAIM_SCHEMA task_claim_parse candidate) (task_claim_decision s roles)"

definition held_claim ::
  "agenda_snapshot \<Rightarrow> string \<Rightarrow> string \<Rightarrow> agenda_roles \<Rightarrow> string option \<Rightarrow>
   (verdict + claim_state) result" where
  "held_claim s task_ref claim_ref roles prospective_session_id =
     (if task_ref \<notin> set (keys (admitted_tasks s roles)) then rejected (reject ''TASK_UNKNOWN'' task_ref)
      else (case find (\<lambda>(e, _). en_admission_ref e = claim_ref) (claims s) of
          None \<Rightarrow> rejected (reject ''CLAIM_UNKNOWN'' claim_ref)
        | Some (claim_entry, claim_payload) \<Rightarrow>
            if tc_task_ref claim_payload \<noteq> task_ref
            then rejected (reject ''CLAIM_TASK_MISMATCH''
                   (claim_ref @ '' holds '' @ tc_task_ref claim_payload))
            else if prospective_session_id = None
              then rejected (reject ''AUTHOR_IDENTITY_REQUIRED'' claim_ref)
            else if en_session_id claim_entry \<noteq> prospective_session_id
              then rejected (reject ''CLAIM_NOT_HELD_BY_AUTHOR'' claim_ref)
            else Inr (Inr (claim_state s claim_ref))))"

definition task_release_decision ::
  "agenda_snapshot \<Rightarrow> agenda_roles \<Rightarrow> string option \<Rightarrow> task_release \<Rightarrow> verdict result" where
  "task_release_decision s roles prospective_session_id payload =
     gate (held_claim s (tr_task_ref payload) (tr_claim_ref payload) roles prospective_session_id) (\<lambda>state.
       if state = CLOSED then reject ''CLAIM_ALREADY_CLOSED'' (tr_claim_ref payload)
       else accept [])"

definition validate_task_release ::
  "agenda_snapshot \<Rightarrow> candidate \<Rightarrow> agenda_roles \<Rightarrow> string option \<Rightarrow> verdict result" where
  "validate_task_release s candidate roles prospective_session_id =
     gate (parse_candidate TASK_RELEASE_SCHEMA task_release_parse candidate)
       (task_release_decision s roles prospective_session_id)"

text \<open>The check against the contract under which the task was admitted.\<close>

definition completion_decision ::
  "agenda_snapshot \<Rightarrow> agenda_roles \<Rightarrow> research_contribution \<Rightarrow> task_outcome \<Rightarrow> verdict result" where
  "completion_decision s roles contribution payload =
     (case (map_of (admitted_tasks s roles) (to_task_ref payload), to_completion_evidence payload) of
        (None, _) \<Rightarrow> Inl (Key_Error (to_task_ref payload))
      | (_, None) \<Rightarrow> Inl (Assertion_Error [])
      | (Some task, Some evidence) \<Rightarrow>
          if ce_contract_kind evidence \<noteq> cc_contract_kind (ta_completion_contract task)
          then reject ''COMPLETION_CONTRACT_MISMATCH''
                 (''task requires '' @ cc_contract_kind (ta_completion_contract task))
          else if ce_contract_kind evidence \<in> set ARTIFACT_BACKED_CONTRACT_KINDS \<and>
                  co_artifact_refs contribution = []
            then reject ''COMPLETION_EVIDENCE_MISSING''
                   (ce_contract_kind evidence @ '' requires an artifact ref'')
          else accept [])"

definition task_outcome_decision ::
  "agenda_snapshot \<Rightarrow> agenda_roles \<Rightarrow> string option \<Rightarrow> candidate \<Rightarrow> task_outcome \<Rightarrow> verdict result" where
  "task_outcome_decision s roles prospective_session_id candidate payload =
     (case (candidate, map_of OUTCOME_DISPOSITION_KIND (to_disposition payload)) of
        (Contribution contribution, Some required_kind) \<Rightarrow>
          if co_kind contribution \<noteq> required_kind
          then reject ''RECORD_KIND_NOT_ALLOWED''
                 (to_disposition payload @ '' outcome must ride '' @ required_kind)
          else gate (held_claim s (to_task_ref payload) (to_claim_ref payload) roles
                       prospective_session_id) (\<lambda>state.
            if state = CLOSED then reject ''CLAIM_ALREADY_CLOSED'' (to_claim_ref payload)
            else if state = EXPIRED then reject ''LEASE_EXPIRED'' (to_claim_ref payload)
            else if state = UNDECIDABLE then reject ''LEASE_LIVENESS_UNDECIDABLE'' (to_claim_ref payload)
            else if to_disposition payload = ''COMPLETED''
              then completion_decision s roles contribution payload
            else accept [])
      | (Contribution _, None) \<Rightarrow> Inl (Key_Error (to_disposition payload))
      | _ \<Rightarrow> Inl (Assertion_Error []))"

definition validate_task_outcome ::
  "agenda_snapshot \<Rightarrow> candidate \<Rightarrow> agenda_roles \<Rightarrow> string option \<Rightarrow> verdict result" where
  "validate_task_outcome s candidate roles prospective_session_id =
     gate (parse_candidate TASK_OUTCOME_SCHEMA task_outcome_parse candidate)
       (task_outcome_decision s roles prospective_session_id candidate)"

end
