(* ===== verification/Worklist_Correct.thy ===== *)
theory Worklist_Correct
  imports Worklist
begin

text \<open>
  What the worklist promises. The first sections read the executable scans of theory \<open>Worklist\<close> as
  statements about single entries (\<open>is_task\<close>, \<open>is_claim\<close>, \<open>closed_by_holder\<close>, \<open>occupies\<close>). The
  locale \<open>treatment_validator\<close> is the contract the validators share, interpreted for each of them.
  Then: the exact conditions of acceptance, the meaning of the exclusivity audit, and what a growing
  world can and cannot change.
\<close>

section \<open>The scan in terms of single entries\<close>

lemma dict_of_distinct: "distinct (keys items) \<Longrightarrow> dict_of items = items"
  using fold_update_distinct [of "[]" items] by (simp add: dict_of_def)

lemma carries_unique: "carries schema parser ks e p \<Longrightarrow> carries schema parser ks e q \<Longrightarrow> p = q"
  by (auto simp: carries_def)

definition carried :: "string \<Rightarrow> (pyval \<Rightarrow> 'a result) \<Rightarrow> string list option \<Rightarrow> agenda_entry \<Rightarrow> 'a option" where
  "carried schema parser ks e = Option.bind (scan_entry schema parser ks e) snd"

lemma typed_carried:
  "typed s schema parser ks =
   List.map_filter (\<lambda>e. map_option (Pair e) (carried schema parser ks e)) (as_entries s)"
proof -
  have "List.map_filter (\<lambda>(e, parsed). map_option (\<lambda>p. (e, p)) parsed)
      (List.map_filter (scan_entry schema parser ks) es) =
    List.map_filter (\<lambda>e. map_option (Pair e) (carried schema parser ks e)) es" for es
  proof (induction es)
    case (Cons e es)
    then show ?case
      using scan_entry_simps [of schema e parser ks]
      by (cases "declares schema e") (auto simp: List.map_filter_simps carried_def split: option.splits)
  qed (simp add: List.map_filter_simps)
  then show ?thesis by (simp add: typed_def scan_def)
qed

lemma map_filter_refs:
  "map (en_admission_ref \<circ> fst) (List.map_filter (\<lambda>e. map_option (Pair e) (g e)) es) =
   map en_admission_ref (filter (\<lambda>e. g e \<noteq> None) es)"
  by (induction es) (auto simp: List.map_filter_simps)

lemma typed_refs:
  assumes "snapshot_ok s"
  shows "distinct (map (en_admission_ref \<circ> fst) (typed s schema parser ks))"
    and "sorted (map (en_admission_ref \<circ> fst) (typed s schema parser ks))"
  using assms unfolding typed_carried map_filter_refs snapshot_ok_def
  by (auto intro: distinct_map_filter sorted_filter)

lemma filter_refs_distinct:
  "distinct (map (en_admission_ref \<circ> fst) xs) \<Longrightarrow> distinct (map (en_admission_ref \<circ> fst) (filter P xs))"
  by (rule distinct_map_filter)

lemma map_of_refs:
  assumes "distinct (map (en_admission_ref \<circ> fst) xs)"
  shows "map_of (dict_of (map (\<lambda>(e, p). (en_admission_ref e, f e p)) xs)) r = Some y \<longleftrightarrow>
    (\<exists>e p. (e, p) \<in> set xs \<and> en_admission_ref e = r \<and> f e p = y)"
proof -
  have k: "map fst (map (\<lambda>(e, p). (en_admission_ref e, f e p)) xs) = map (en_admission_ref \<circ> fst) xs"
    by auto
  with assms have "distinct (map fst (map (\<lambda>(e, p). (en_admission_ref e, f e p)) xs))" by (simp only: k)
  then have "map_of (map (\<lambda>(e, p). (en_admission_ref e, f e p)) xs) r = Some y \<longleftrightarrow>
      (r, y) \<in> set (map (\<lambda>(e, p). (en_admission_ref e, f e p)) xs)"
    by (rule map_of_eq_Some_iff)
  then show ?thesis
    using assms by (subst dict_of_distinct) (auto simp only: keys_def k, auto)
qed

lemma find_refs:
  assumes "distinct (map (en_admission_ref \<circ> fst) xs)"
  shows "find (\<lambda>(e, _). en_admission_ref e = r) xs = Some (e, p) \<longleftrightarrow>
    (e, p) \<in> set xs \<and> en_admission_ref e = r"
  using assms by (induction xs) (force split: if_splits)+

section \<open>What the worklist means\<close>

definition is_task :: "agenda_snapshot \<Rightarrow> agenda_roles \<Rightarrow> string \<Rightarrow> task_admission \<Rightarrow> bool" where
  "is_task s roles r p \<longleftrightarrow> (\<exists>e \<in> set (as_entries s). en_admission_ref e = r \<and>
     carries TASK_ADMISSION_SCHEMA task_admission_parse (Some (kinds_of TASK_ADMISSION_SCHEMA)) e p \<and>
     is_admitter roles (en_session_id e))"

definition is_claim :: "agenda_snapshot \<Rightarrow> agenda_entry \<Rightarrow> task_claim \<Rightarrow> bool" where
  "is_claim s e p \<longleftrightarrow> e \<in> set (as_entries s) \<and> en_session_id e \<noteq> None \<and>
     carries TASK_CLAIM_SCHEMA task_claim_parse (Some (kinds_of TASK_CLAIM_SCHEMA)) e p"

definition is_release :: "agenda_snapshot \<Rightarrow> agenda_entry \<Rightarrow> task_release \<Rightarrow> bool" where
  "is_release s e p \<longleftrightarrow> e \<in> set (as_entries s) \<and> en_session_id e \<noteq> None \<and>
     carries TASK_RELEASE_SCHEMA task_release_parse (Some (kinds_of TASK_RELEASE_SCHEMA)) e p"

definition is_outcome :: "agenda_snapshot \<Rightarrow> agenda_entry \<Rightarrow> task_outcome \<Rightarrow> bool" where
  "is_outcome s e p \<longleftrightarrow> e \<in> set (as_entries s) \<and> en_session_id e \<noteq> None \<and>
     carries TASK_OUTCOME_SCHEMA task_outcome_parse (Some (kinds_of TASK_OUTCOME_SCHEMA)) e p \<and>
     en_kind e = map_of OUTCOME_DISPOSITION_KIND (to_disposition p)"

text \<open>Its own holder closed the claim with a matching release or outcome.\<close>

definition closed_by_holder :: "agenda_snapshot \<Rightarrow> agenda_entry \<Rightarrow> task_claim \<Rightarrow> bool" where
  "closed_by_holder s e p \<longleftrightarrow>
     (\<exists>f r. is_release s f r \<and> en_session_id f = en_session_id e \<and>
        tr_claim_ref r = en_admission_ref e \<and> tr_task_ref r = tc_task_ref p) \<or>
     (\<exists>f q. is_outcome s f q \<and> en_session_id f = en_session_id e \<and>
        to_claim_ref q = en_admission_ref e \<and> to_task_ref q = tc_task_ref p)"

definition lease_over :: "agenda_snapshot \<Rightarrow> agenda_entry \<Rightarrow> task_claim \<Rightarrow> bool" where
  "lease_over s e p \<longleftrightarrow> (\<exists>now observed. as_now_tick s = Some now \<and>
     en_observed_at_tick e = Some observed \<and> observed + tc_lease_ticks p \<le> now)"

definition occupies :: "agenda_snapshot \<Rightarrow> agenda_entry \<Rightarrow> task_claim \<Rightarrow> bool" where
  "occupies s e p \<longleftrightarrow> is_claim s e p \<and> \<not> closed_by_holder s e p \<and> \<not> lease_over s e p"

lemma set_typed_as:
  "set (typed_as s schema parser) =
   {(e, p). e \<in> set (as_entries s) \<and> carries schema parser (Some (kinds_of schema)) e p}"
  by (simp add: typed_as_def set_typed)

lemma set_claims: "set (claims s) = {(e, p). is_claim s e p}"
  by (auto simp: claims_def set_typed_as is_claim_def)

lemma set_releases: "set (releases s) = {(e, p). is_release s e p}"
  by (auto simp: releases_def set_typed_as is_release_def)

lemma set_outcomes: "set (outcomes s) = {(e, p). is_outcome s e p}"
  by (auto simp: outcomes_def set_typed_as is_outcome_def)

lemma map_of_typed_as:
  assumes "snapshot_ok s"
  shows "map_of (dict_of (map (\<lambda>(e, p). (en_admission_ref e, f e p)) (filter P (typed_as s schema parser)))) r = Some y \<longleftrightarrow>
    (\<exists>e p. e \<in> set (as_entries s) \<and> carries schema parser (Some (kinds_of schema)) e p \<and> P (e, p) \<and>
       en_admission_ref e = r \<and> f e p = y)"
  by (subst map_of_refs, rule filter_refs_distinct)
    (use typed_refs(1) [OF assms] in \<open>auto simp: typed_as_def set_typed\<close>)

lemma map_of_admitted_tasks:
  "snapshot_ok s \<Longrightarrow> map_of (admitted_tasks s roles) r = Some p \<longleftrightarrow> is_task s roles r p"
  unfolding admitted_tasks_def map_of_typed_as [where f = "\<lambda>e p. p"] is_task_def by auto

lemma keys_admitted_tasks:
  "snapshot_ok s \<Longrightarrow> r \<in> set (keys (admitted_tasks s roles)) \<longleftrightarrow> (\<exists>p. is_task s roles r p)"
  by (simp add: keys_map_of map_of_admitted_tasks)

lemma map_of_claim_by_ref:
  "snapshot_ok s \<Longrightarrow> map_of (claim_by_ref s) r = Some (e, p) \<longleftrightarrow> is_claim s e p \<and> en_admission_ref e = r"
  unfolding claim_by_ref_def claims_def map_of_typed_as [where f = "\<lambda>e p. (e, p)"] is_claim_def by auto

lemma find_claim:
  "snapshot_ok s \<Longrightarrow> find (\<lambda>(e, _). en_admission_ref e = r) (claims s) = Some (e, p) \<longleftrightarrow>
   is_claim s e p \<and> en_admission_ref e = r"
  unfolding claims_def
  by (subst find_refs, rule filter_refs_distinct)
    (use typed_refs(1) in \<open>auto simp: typed_as_def set_typed is_claim_def\<close>)

lemma is_claim_unique:
  assumes "snapshot_ok s" "is_claim s e p" "is_claim s f q" "en_admission_ref e = en_admission_ref f"
  shows "e = f \<and> p = q"
proof -
  have "e = f" using assms snapshot_okD by (auto simp: is_claim_def)
  with assms show ?thesis by (auto simp: is_claim_def dest: carries_unique)
qed

lemma set_closings: "(author, t, c) \<in> set (closings s) \<longleftrightarrow>
   (\<exists>f r. is_release s f r \<and> en_session_id f = author \<and> tr_task_ref r = t \<and> tr_claim_ref r = c) \<or>
   (\<exists>f q. is_outcome s f q \<and> en_session_id f = author \<and> to_task_ref q = t \<and> to_claim_ref q = c)"
  by (auto simp: closings_def set_releases set_outcomes image_iff)

lemma set_closure_refs:
  assumes "snapshot_ok s"
  shows "c \<in> set (closure_refs s) \<longleftrightarrow>
    (\<exists>e p. is_claim s e p \<and> en_admission_ref e = c \<and> closed_by_holder s e p)"
proof -
  have "c \<in> set (closure_refs s) \<longleftrightarrow> (\<exists>author t e p. (author, t, c) \<in> set (closings s) \<and>
      map_of (claim_by_ref s) c = Some (e, p) \<and> en_session_id e = author \<and> tc_task_ref p = t)"
    by (force simp: closure_refs_def Let_def image_iff split: option.splits)
  also have "\<dots> \<longleftrightarrow> (\<exists>e p. is_claim s e p \<and> en_admission_ref e = c \<and> closed_by_holder s e p)"
    by (auto simp: map_of_claim_by_ref [OF assms] set_closings closed_by_holder_def) metis+
  finally show ?thesis .
qed

lemma closed_ref_iff:
  "snapshot_ok s \<Longrightarrow> is_claim s e p \<Longrightarrow> en_admission_ref e \<in> set (closure_refs s) \<longleftrightarrow> closed_by_holder s e p"
  using is_claim_unique by (auto simp: set_closure_refs) blast

lemma set_blocking:
  assumes "snapshot_ok s"
  shows "r \<in> set (blocking_claim_refs s t roles) \<longleftrightarrow> (\<exists>p. is_task s roles t p) \<and>
    (\<exists>e p. occupies s e p \<and> tc_task_ref p = t \<and> en_admission_ref e = r)"
proof -
  have "(case (as_now_tick s, en_observed_at_tick e) of (Some now, Some observed) \<Rightarrow> now < observed + tc_lease_ticks p
      | _ \<Rightarrow> True) \<longleftrightarrow> \<not> lease_over s e p" for e p
    by (auto simp: lease_over_def split: option.splits)
  then have "r \<in> set (blocking_claim_refs s t roles) \<longleftrightarrow> (\<exists>p. is_task s roles t p) \<and>
    (\<exists>e p. is_claim s e p \<and> tc_task_ref p = t \<and> en_admission_ref e \<notin> set (closure_refs s) \<and>
        \<not> lease_over s e p \<and> en_admission_ref e = r)"
    using keys_admitted_tasks [OF assms, of t roles]
    by (auto simp: blocking_claim_refs_def Let_def set_claims)
  then show ?thesis
    using closed_ref_iff [OF assms] by (auto simp: occupies_def)
qed

lemma blocking_distinct:
  assumes "snapshot_ok s"
  shows "distinct (blocking_claim_refs s t roles)" "sorted (blocking_claim_refs s t roles)"
proof -
  have "distinct (map (en_admission_ref \<circ> fst) (filter P (claims s)))" for P
    unfolding claims_def typed_as_def
    by (intro filter_refs_distinct typed_refs(1) assms)
  then have "distinct (map (\<lambda>(e, _). en_admission_ref e) (filter P (claims s)))" for P
    by (simp only: comp_def case_prod_beta')
  then show "distinct (blocking_claim_refs s t roles)" "sorted (blocking_claim_refs s t roles)"
    by (simp_all add: blocking_claim_refs_def Let_def)
qed

lemma claim_state_eq:
  assumes "snapshot_ok s" "is_claim s e p"
  shows "claim_state s (en_admission_ref e) =
    (if closed_by_holder s e p then CLOSED
     else case (as_now_tick s, en_observed_at_tick e) of
        (Some now, Some observed) \<Rightarrow> if now \<ge> observed + tc_lease_ticks p then EXPIRED else LIVE
      | _ \<Rightarrow> UNDECIDABLE)"
proof -
  have "find (\<lambda>(x, _). en_admission_ref x = en_admission_ref e) (claims s) = Some (e, p)"
    by (simp add: find_claim assms)
  then show ?thesis using closed_ref_iff [OF assms] by (simp add: claim_state_def)
qed

lemma claim_state_unknown:
  assumes "snapshot_ok s"
  shows "claim_state s r = UNKNOWN \<longleftrightarrow> (\<forall>e p. is_claim s e p \<longrightarrow> en_admission_ref e \<noteq> r)"
proof (cases "find (\<lambda>(e, _). en_admission_ref e = r) (claims s)")
  case None
  then have "claim_state s r = UNKNOWN" by (simp only: claim_state_def option.case)
  moreover from None have "\<forall>e p. is_claim s e p \<longrightarrow> en_admission_ref e \<noteq> r"
    by (auto simp: find_None_iff set_claims)
  ultimately show ?thesis by blast
next
  case (Some x)
  then obtain e p where "find (\<lambda>(e, _). en_admission_ref e = r) (claims s) = Some (e, p)" by (cases x) auto
  with assms have "is_claim s e p" "en_admission_ref e = r" by (simp_all add: find_claim)
  with claim_state_eq [OF assms, of e p] show ?thesis
    by (auto split: option.splits if_splits)
qed

text \<open>A claim occupies its task exactly in the two blocking states.\<close>

lemma occupies_iff_state:
  assumes "snapshot_ok s" "is_claim s e p"
  shows "occupies s e p \<longleftrightarrow> claim_state s (en_admission_ref e) \<in> {LIVE, UNDECIDABLE}"
  using claim_state_eq [OF assms] assms(2)
  by (auto simp: occupies_def lease_over_def split: option.splits if_splits)

lemma completed_iff:
  assumes "snapshot_ok s"
  shows "task_is_completed s t roles \<longleftrightarrow> (\<exists>p. is_task s roles t p) \<and>
    (\<exists>e p f q. is_claim s e p \<and> tc_task_ref p = t \<and> is_outcome s f q \<and> to_disposition q = ''COMPLETED'' \<and>
       to_task_ref q = t \<and> to_claim_ref q = en_admission_ref e \<and> en_session_id f = en_session_id e)"
proof -
  have "(case map_of (claim_by_ref s) c of None \<Rightarrow> False
      | Some (claim_entry, claim_payload) \<Rightarrow> en_session_id claim_entry = a \<and> tc_task_ref claim_payload = t) \<longleftrightarrow>
    (\<exists>e p. is_claim s e p \<and> en_admission_ref e = c \<and> en_session_id e = a \<and> tc_task_ref p = t)" for c a
    using map_of_claim_by_ref [OF assms, of c] by (cases "map_of (claim_by_ref s) c") (auto, metis+)
  then have "(\<exists>(e, p) \<in> set (outcomes s). to_task_ref p = t \<and> to_disposition p = ''COMPLETED'' \<and>
       (case map_of (claim_by_ref s) (to_claim_ref p) of None \<Rightarrow> False
        | Some (claim_entry, claim_payload) \<Rightarrow>
            en_session_id claim_entry = en_session_id e \<and> tc_task_ref claim_payload = t)) \<longleftrightarrow>
    (\<exists>f q. is_outcome s f q \<and> to_task_ref q = t \<and> to_disposition q = ''COMPLETED'' \<and>
       (\<exists>e p. is_claim s e p \<and> en_admission_ref e = to_claim_ref q \<and>
          en_session_id e = en_session_id f \<and> tc_task_ref p = t))"
    by (simp add: set_outcomes split_beta)
  also have "\<dots> \<longleftrightarrow> (\<exists>e p f q. is_claim s e p \<and> tc_task_ref p = t \<and> is_outcome s f q \<and>
       to_disposition q = ''COMPLETED'' \<and> to_task_ref q = t \<and> to_claim_ref q = en_admission_ref e \<and>
       en_session_id f = en_session_id e)"
    by (auto; metis)
  finally show ?thesis
    by (simp only: task_is_completed_def Let_def keys_admitted_tasks [OF assms])
qed

section \<open>Validators\<close>

lemma parse_candidate_Inl:
  assumes "parse_candidate schema parser candidate = Inr (Inl v)"
  shows "\<not> accepted v"
proof (cases candidate)
  case (Contribution c)
  show ?thesis
  proof (cases "rbind (co_payload c) (\<lambda>payload. parser (PDict payload))")
    case (Inl e)
    with assms Contribution show ?thesis
      by (cases e) (auto simp: parse_candidate_def require_contribution_def Let_def rejected_def
          schema_rejection_def rbind_Inr_iff ACCEPTED_def dest: reject_not_accepted split: if_splits)
  next
    case (Inr p)
    with assms Contribution show ?thesis
      by (auto simp: parse_candidate_def require_contribution_def Let_def ACCEPTED_def split: if_splits)
  qed
qed (use assms in \<open>auto simp: parse_candidate_def require_contribution_def ACCEPTED_def\<close>)

text \<open>
  What the eight validators have in common: the gate, then a decision on the parsed payload that
  always answers on a payload the gate let through.
\<close>

locale treatment_validator =
  fixes schema :: string and parser :: "pyval \<Rightarrow> 'a result"
    and decision :: "candidate \<Rightarrow> 'a \<Rightarrow> verdict result"
    and validate :: "candidate \<Rightarrow> verdict result"
  assumes validate_gate: "validate candidate = gate (parse_candidate schema parser candidate) (decision candidate)"
    and parser_safe: "schema_safe (parser v)"
    and decision_total: "gate_accepts schema parser candidate p \<Longrightarrow> \<exists>v. decision candidate p = Inr v"
begin

lemma answers:
  assumes "candidate_ok candidate"
  shows "\<exists>v. validate candidate = Inr v"
  using parse_candidate_answers [OF parser_safe assms, of schema]
proof
  assume "\<exists>p. parse_candidate schema parser candidate = Inr (Inr p)"
  then obtain p where p: "parse_candidate schema parser candidate = Inr (Inr p)" by blast
  then have "gate_accepts schema parser candidate p" by (simp only: parse_candidate_Inr_Inr)
  from decision_total [OF this] obtain v where "decision candidate p = Inr v" by blast
  with p show ?thesis by (simp add: validate_gate gate_def)
qed (auto simp: validate_gate gate_def)

lemma accepted_iff:
  "(\<exists>v. validate candidate = Inr v \<and> accepted v) \<longleftrightarrow>
   (\<exists>p v. gate_accepts schema parser candidate p \<and> decision candidate p = Inr v \<and> accepted v)"
proof (cases "parse_candidate schema parser candidate")
  case (Inl e)
  then have "validate candidate = Inl e" by (simp add: validate_gate gate_def)
  moreover from Inl have "\<not> gate_accepts schema parser candidate p" for p
    by (simp add: parse_candidate_Inr_Inr [symmetric])
  ultimately show ?thesis by simp
next
  case (Inr r)
  show ?thesis
  proof (cases r)
    case (Inl v)
    with Inr have "validate candidate = Inr v" "\<not> accepted v"
      using parse_candidate_Inl by (auto simp: validate_gate gate_def)
    moreover from Inl Inr have "\<not> gate_accepts schema parser candidate p" for p
      by (simp add: parse_candidate_Inr_Inr [symmetric])
    ultimately show ?thesis by simp
  next
    case (Inr p)
    with \<open>parse_candidate schema parser candidate = Inr r\<close>
    have "validate candidate = decision candidate p"
      "gate_accepts schema parser candidate q \<longleftrightarrow> p = q" for q
      by (auto simp: validate_gate gate_def parse_candidate_Inr_Inr [symmetric])
    then show ?thesis by simp
  qed
qed

end

interpretation proposal_validator: treatment_validator TASK_PROPOSAL_SCHEMA task_proposal_parse
  "\<lambda>_. task_proposal_decision s roles" "\<lambda>c. validate_task_proposal s c roles"
  for s roles
  by unfold_locales
    (auto simp: validate_task_proposal_def task_proposal_decision_def schema_safe_parse split: option.splits)

interpretation admission_validator: treatment_validator TASK_ADMISSION_SCHEMA task_admission_parse
  "\<lambda>_. task_admission_decision s roles author" "\<lambda>c. validate_task_admission s c roles author"
  for s roles author
  by unfold_locales
    (auto simp: validate_task_admission_def task_admission_decision_def schema_safe_parse split: option.splits)

lemma dependency_verdict_total: "\<exists>r. dependency_verdict s refs roles = Inr r"
  by (auto simp: dependency_verdict_def split: option.splits)

interpretation claim_validator: treatment_validator TASK_CLAIM_SCHEMA task_claim_parse
  "\<lambda>_. task_claim_decision s roles" "\<lambda>c. validate_task_claim s c roles"
  for s roles
proof unfold_locales
  show "\<exists>v. task_claim_decision s roles p = Inr v" for p
  proof (cases "map_of (admitted_tasks s roles) (tc_task_ref p)")
    case (Some t)
    obtain r where "dependency_verdict s (ta_dependency_task_refs t) roles = Inr r"
      using dependency_verdict_total by blast
    with Some show ?thesis
      by (cases r; cases "blocking_claim_refs s (tc_task_ref p) roles") (auto simp: task_claim_decision_def)
  qed (simp add: task_claim_decision_def)
qed (simp_all add: validate_task_claim_def schema_safe_parse)

lemma held_claim_total: "\<exists>r. held_claim s task_ref claim_ref roles author = Inr r"
  by (auto simp: held_claim_def split: option.splits)

interpretation release_validator: treatment_validator TASK_RELEASE_SCHEMA task_release_parse
  "\<lambda>_. task_release_decision s roles author" "\<lambda>c. validate_task_release s c roles author"
  for s roles author
proof unfold_locales
  show "\<exists>v. task_release_decision s roles author p = Inr v" for p
    using held_claim_total [of s "tr_task_ref p" "tr_claim_ref p" roles author]
    by (auto simp: task_release_decision_def gate_def split: sum.splits)
qed (simp_all add: validate_task_release_def schema_safe_parse)

lemma held_claim_Inr_Inr:
  assumes "snapshot_ok s"
  shows "held_claim s t c roles author = Inr (Inr st) \<longleftrightarrow> (\<exists>task. is_task s roles t task) \<and> author \<noteq> None \<and>
    (\<exists>e p. is_claim s e p \<and> en_admission_ref e = c \<and> tc_task_ref p = t \<and> en_session_id e = author \<and>
       st = claim_state s c)"
proof (cases "find (\<lambda>(e, _). en_admission_ref e = c) (claims s)")
  case None
  then have "\<forall>e p. is_claim s e p \<longrightarrow> en_admission_ref e \<noteq> c"
    by (auto simp: find_None_iff set_claims)
  moreover from None have "held_claim s t c roles author \<noteq> Inr (Inr st)"
    by (simp only: held_claim_def option.case) simp
  ultimately show ?thesis by blast
next
  case (Some x)
  then obtain e p where f: "find (\<lambda>(e, _). en_admission_ref e = c) (claims s) = Some (e, p)" by (cases x) auto
  then have e: "is_claim s e p" "en_admission_ref e = c" using assms by (simp_all add: find_claim)
  then have "(\<exists>e p. is_claim s e p \<and> en_admission_ref e = c \<and> tc_task_ref p = t \<and> en_session_id e = author \<and>
       st = claim_state s c) \<longleftrightarrow> tc_task_ref p = t \<and> en_session_id e = author \<and> st = claim_state s c"
    using is_claim_unique [OF assms e(1)] by metis
  then show ?thesis
    by (auto simp: held_claim_def f keys_admitted_tasks [OF assms])
qed

lemma OUTCOME_DISPOSITION_KIND_total:
  "d \<in> set OUTCOME_DISPOSITIONS \<Longrightarrow> \<exists>k. map_of OUTCOME_DISPOSITION_KIND d = Some k"
  by (auto simp: OUTCOME_DISPOSITIONS_def OUTCOME_DISPOSITION_KIND_def)

lemma task_outcome_decision_total:
  assumes "gate_accepts TASK_OUTCOME_SCHEMA task_outcome_parse candidate p"
  shows "\<exists>v. task_outcome_decision s roles author candidate p = Inr v"
proof -
  from assms have ok: "task_outcome_ok p" by (auto simp: gate_accepts_def task_outcome_parsed)
  then obtain k where k: "map_of OUTCOME_DISPOSITION_KIND (to_disposition p) = Some k"
    using OUTCOME_DISPOSITION_KIND_total by (auto simp: task_outcome_ok_def)
  from assms obtain c where c: "candidate = Contribution c" by (auto simp: gate_accepts_def)
  obtain r where r: "held_claim s (to_task_ref p) (to_claim_ref p) roles author = Inr r"
    using held_claim_total by blast
  have "\<exists>v. completion_decision s roles c p = Inr v"
    if "to_disposition p = ''COMPLETED''" "r = Inr st" for st
  proof -
    from ok that(1) obtain ev where "to_completion_evidence p = Some ev"
      by (auto simp: task_outcome_ok_def)
    moreover from r that(2) have "to_task_ref p \<in> set (keys (admitted_tasks s roles))"
      by (auto simp: held_claim_def split: if_splits)
    then obtain t where "map_of (admitted_tasks s roles) (to_task_ref p) = Some t"
      by (auto simp: keys_map_of)
    ultimately show ?thesis by (simp add: completion_decision_def)
  qed
  then show ?thesis
    by (cases r) (auto simp: task_outcome_decision_def c k r gate_def)
qed

interpretation outcome_validator: treatment_validator TASK_OUTCOME_SCHEMA task_outcome_parse
  "task_outcome_decision s roles author" "\<lambda>c. validate_task_outcome s c roles author"
  for s roles author
  by unfold_locales (simp_all add: validate_task_outcome_def schema_safe_parse task_outcome_decision_total)

section \<open>When a validator accepts\<close>

definition task_known :: "agenda_snapshot \<Rightarrow> agenda_roles \<Rightarrow> string \<Rightarrow> bool" where
  "task_known s roles r \<longleftrightarrow> (\<exists>p. is_task s roles r p)"

text \<open>The task exists, is open and ready, and no claim occupies it.\<close>

definition claim_granted :: "agenda_snapshot \<Rightarrow> agenda_roles \<Rightarrow> task_claim \<Rightarrow> bool" where
  "claim_granted s roles p \<longleftrightarrow>
     (\<exists>task. is_task s roles (tc_task_ref p) task \<and>
        (\<forall>d \<in> set (ta_dependency_task_refs task). task_is_completed s d roles)) \<and>
     \<not> task_is_completed s (tc_task_ref p) roles \<and>
     (\<forall>e q. occupies s e q \<longrightarrow> tc_task_ref q \<noteq> tc_task_ref p)"

text \<open>The author holds the claim on this known task.\<close>

definition holds_claim :: "agenda_snapshot \<Rightarrow> agenda_roles \<Rightarrow> string option \<Rightarrow> string \<Rightarrow> string \<Rightarrow> bool" where
  "holds_claim s roles author t c \<longleftrightarrow> task_known s roles t \<and> author \<noteq> None \<and>
     (\<exists>e p. is_claim s e p \<and> en_admission_ref e = c \<and> tc_task_ref p = t \<and> en_session_id e = author)"

lemma find_None_all: "find P xs = None \<longleftrightarrow> (\<forall>x \<in> set xs. \<not> P x)"
  by (induction xs) auto

lemma completed_known: "snapshot_ok s \<Longrightarrow> task_is_completed s t roles \<Longrightarrow> task_known s roles t"
  by (simp add: completed_iff task_known_def)

lemma dependency_verdict_None:
  assumes "snapshot_ok s"
  shows "dependency_verdict s refs roles = Inr None \<longleftrightarrow> (\<forall>d \<in> set refs. task_is_completed s d roles)"
proof -
  have "dependency_verdict s refs roles = Inr None \<longleftrightarrow>
      find (\<lambda>r. r \<notin> set (keys (admitted_tasks s roles))) refs = None \<and>
      find (\<lambda>r. \<not> task_is_completed s r roles) refs = None"
    by (simp add: dependency_verdict_def del: find_None_iff split: option.split)
  then show ?thesis
    using completed_known [OF assms]
    by (auto simp: find_None_all keys_admitted_tasks [OF assms] task_known_def)
qed

lemma dependency_verdict_rejects: "dependency_verdict s refs roles = Inr (Some v) \<Longrightarrow> \<not> accepted v"
  by (auto simp: dependency_verdict_def split: option.splits)

lemma blocking_Nil:
  assumes "snapshot_ok s" "task_known s roles t"
  shows "blocking_claim_refs s t roles = [] \<longleftrightarrow> (\<forall>e q. occupies s e q \<longrightarrow> tc_task_ref q \<noteq> t)"
proof -
  have "blocking_claim_refs s t roles = [] \<longleftrightarrow> (\<forall>r. r \<notin> set (blocking_claim_refs s t roles))"
    by (cases "blocking_claim_refs s t roles") auto
  then show ?thesis using assms by (auto simp: set_blocking task_known_def)
qed

lemma task_claim_decision_accepted:
  assumes "snapshot_ok s"
  shows "(\<exists>v. task_claim_decision s roles p = Inr v \<and> accepted v) \<longleftrightarrow> claim_granted s roles p"
proof (cases "map_of (admitted_tasks s roles) (tc_task_ref p)")
  case None
  then have "\<not> is_task s roles (tc_task_ref p) task" for task
    using map_of_admitted_tasks [OF assms, of roles "tc_task_ref p" task] by simp
  with None show ?thesis by (simp add: task_claim_decision_def claim_granted_def)
next
  case (Some task)
  then have task: "is_task s roles (tc_task_ref p) t \<longleftrightarrow> t = task" for t
    using map_of_admitted_tasks [OF assms, of roles "tc_task_ref p" t] by auto
  then have known: "task_known s roles (tc_task_ref p)" by (simp add: task_known_def)
  obtain r where r: "dependency_verdict s (ta_dependency_task_refs task) roles = Inr r"
    using dependency_verdict_total by blast
  show ?thesis
  proof (cases r)
    case None
    with r have deps: "\<forall>d \<in> set (ta_dependency_task_refs task). task_is_completed s d roles"
      using dependency_verdict_None [OF assms] by simp
    have "(\<exists>v. task_claim_decision s roles p = Inr v \<and> accepted v) \<longleftrightarrow>
        \<not> task_is_completed s (tc_task_ref p) roles \<and> blocking_claim_refs s (tc_task_ref p) roles = []"
      using r Some None
      by (cases "blocking_claim_refs s (tc_task_ref p) roles") (auto simp: task_claim_decision_def)
    with deps task blocking_Nil [OF assms known] show ?thesis
      by (auto simp: claim_granted_def)
  next
    case (Some v)
    with r have v: "dependency_verdict s (ta_dependency_task_refs task) roles = Inr (Some v)" by simp
    have "\<not> accepted v" by (rule dependency_verdict_rejects [OF v])
    moreover have "\<not> (\<forall>d \<in> set (ta_dependency_task_refs task). task_is_completed s d roles)"
      using v by (simp add: dependency_verdict_None [OF assms, symmetric])
    ultimately show ?thesis using r Some \<open>map_of _ _ = Some task\<close> task
      by (auto simp: task_claim_decision_def claim_granted_def)
  qed
qed

lemma claim_accepted_iff:
  "snapshot_ok s \<Longrightarrow> (\<exists>v. validate_task_claim s c roles = Inr v \<and> accepted v) \<longleftrightarrow>
   (\<exists>p. gate_accepts TASK_CLAIM_SCHEMA task_claim_parse c p \<and> claim_granted s roles p)"
  unfolding claim_validator.accepted_iff using task_claim_decision_accepted by blast

lemma held_claim_rejects: "held_claim s t c roles author = Inr (Inl v) \<Longrightarrow> \<not> accepted v"
  by (auto simp: held_claim_def ACCEPTED_def split: option.splits if_splits)

lemma held_claim_cases:
  assumes "snapshot_ok s"
  shows "if holds_claim s roles author t c then held_claim s t c roles author = Inr (Inr (claim_state s c))
    else \<exists>v. held_claim s t c roles author = Inr (Inl v) \<and> \<not> accepted v"
proof (cases "holds_claim s roles author t c")
  case True
  then show ?thesis
    using held_claim_Inr_Inr [OF assms, of t c roles author "claim_state s c"]
    by (auto simp: holds_claim_def task_known_def)
next
  case False
  obtain r where r: "held_claim s t c roles author = Inr r" using held_claim_total by blast
  then show ?thesis
    using False held_claim_rejects held_claim_Inr_Inr [OF assms, of t c roles author]
    by (cases r) (auto simp: holds_claim_def task_known_def)
qed

lemma holds_claim_state: "snapshot_ok s \<Longrightarrow> holds_claim s roles author t c \<Longrightarrow> claim_state s c \<noteq> UNKNOWN"
  by (auto simp: claim_state_unknown holds_claim_def)

lemma release_accepted_iff:
  assumes "snapshot_ok s"
  shows "(\<exists>v. validate_task_release s c roles author = Inr v \<and> accepted v) \<longleftrightarrow>
   (\<exists>p. gate_accepts TASK_RELEASE_SCHEMA task_release_parse c p \<and>
      holds_claim s roles author (tr_task_ref p) (tr_claim_ref p) \<and>
      claim_state s (tr_claim_ref p) \<noteq> CLOSED)"
proof -
  have "(\<exists>v. task_release_decision s roles author p = Inr v \<and> accepted v) \<longleftrightarrow>
      holds_claim s roles author (tr_task_ref p) (tr_claim_ref p) \<and> claim_state s (tr_claim_ref p) \<noteq> CLOSED" for p
    using held_claim_cases [OF assms, of roles author "tr_task_ref p" "tr_claim_ref p"]
    by (auto simp: task_release_decision_def gate_def split: if_splits)
  then show ?thesis unfolding release_validator.accepted_iff by blast
qed

definition outcome_granted ::
  "agenda_snapshot \<Rightarrow> agenda_roles \<Rightarrow> string option \<Rightarrow> research_contribution \<Rightarrow> task_outcome \<Rightarrow> bool" where
  "outcome_granted s roles author c p \<longleftrightarrow>
     map_of OUTCOME_DISPOSITION_KIND (to_disposition p) = Some (co_kind c) \<and>
     holds_claim s roles author (to_task_ref p) (to_claim_ref p) \<and>
     claim_state s (to_claim_ref p) = LIVE \<and>
     (to_disposition p = ''COMPLETED'' \<longrightarrow>
        (\<exists>task evidence. is_task s roles (to_task_ref p) task \<and> to_completion_evidence p = Some evidence \<and>
           ce_contract_kind evidence = cc_contract_kind (ta_completion_contract task) \<and>
           (ce_contract_kind evidence \<in> set ARTIFACT_BACKED_CONTRACT_KINDS \<longrightarrow> co_artifact_refs c \<noteq> [])))"

lemma completion_decision_accepted:
  assumes "snapshot_ok s" "is_task s roles (to_task_ref p) task" "to_completion_evidence p = Some ev"
  shows "(\<exists>v. completion_decision s roles c p = Inr v \<and> accepted v) \<longleftrightarrow>
     ce_contract_kind ev = cc_contract_kind (ta_completion_contract task) \<and>
     (ce_contract_kind ev \<in> set ARTIFACT_BACKED_CONTRACT_KINDS \<longrightarrow> co_artifact_refs c \<noteq> [])"
  using assms by (auto simp: completion_decision_def map_of_admitted_tasks [symmetric])

lemma is_task_unique: "snapshot_ok s \<Longrightarrow> is_task s roles r p \<Longrightarrow> is_task s roles r q \<Longrightarrow> p = q"
  by (simp add: map_of_admitted_tasks [symmetric])

lemma task_outcome_decision_accepted:
  assumes "snapshot_ok s" "gate_accepts TASK_OUTCOME_SCHEMA task_outcome_parse (Contribution c) p"
  shows "(\<exists>v. task_outcome_decision s roles author (Contribution c) p = Inr v \<and> accepted v) \<longleftrightarrow>
    outcome_granted s roles author c p"
proof -
  from assms(2) have ok: "task_outcome_ok p" by (auto simp: gate_accepts_def task_outcome_parsed)
  then obtain k where k: "map_of OUTCOME_DISPOSITION_KIND (to_disposition p) = Some k"
    using OUTCOME_DISPOSITION_KIND_total by (auto simp: task_outcome_ok_def)
  show ?thesis
  proof (cases "holds_claim s roles author (to_task_ref p) (to_claim_ref p) \<and> k = co_kind c")
    case False
    then show ?thesis
      using held_claim_cases [OF assms(1), of roles author "to_task_ref p" "to_claim_ref p"] k
      by (auto simp: task_outcome_decision_def outcome_granted_def gate_def split: if_splits)
  next
    case True
    then have h: "held_claim s (to_task_ref p) (to_claim_ref p) roles author = Inr (Inr (claim_state s (to_claim_ref p)))"
      using held_claim_cases [OF assms(1), of roles author "to_task_ref p" "to_claim_ref p"] by simp
    from True obtain task where task: "is_task s roles (to_task_ref p) task"
      by (auto simp: holds_claim_def task_known_def)
    have completed: "(\<exists>v. completion_decision s roles c p = Inr v \<and> accepted v) \<longleftrightarrow>
        (\<exists>task evidence. is_task s roles (to_task_ref p) task \<and> to_completion_evidence p = Some evidence \<and>
           ce_contract_kind evidence = cc_contract_kind (ta_completion_contract task) \<and>
           (ce_contract_kind evidence \<in> set ARTIFACT_BACKED_CONTRACT_KINDS \<longrightarrow> co_artifact_refs c \<noteq> []))"
      if "to_disposition p = ''COMPLETED''"
    proof -
      from ok that obtain ev where ev: "to_completion_evidence p = Some ev"
        by (auto simp: task_outcome_ok_def)
      have "is_task s roles (to_task_ref p) x \<longleftrightarrow> x = task" for x
        using is_task_unique [OF assms(1) task] task by blast
      then show ?thesis
        using completion_decision_accepted [OF assms(1) task ev] ev by simp
    qed
    have st: "claim_state s (to_claim_ref p) \<noteq> UNKNOWN" using holds_claim_state assms(1) True by blast
    show ?thesis
    proof (cases "claim_state s (to_claim_ref p) = LIVE")
      case False
      with st h k True show ?thesis
        by (cases "claim_state s (to_claim_ref p)")
          (simp_all add: task_outcome_decision_def outcome_granted_def gate_def)
    next
      case True
      then have "task_outcome_decision s roles author (Contribution c) p =
          (if to_disposition p = ''COMPLETED'' then completion_decision s roles c p else accept [])"
        using h k \<open>holds_claim _ _ _ _ _ \<and> k = co_kind c\<close> by (simp add: task_outcome_decision_def gate_def)
      then show ?thesis
        using True k completed \<open>holds_claim _ _ _ _ _ \<and> k = co_kind c\<close>
        by (cases "to_disposition p = ''COMPLETED''") (simp_all add: outcome_granted_def)
    qed
  qed
qed

lemma outcome_accepted_iff:
  assumes "snapshot_ok s"
  shows "(\<exists>v. validate_task_outcome s candidate roles author = Inr v \<and> accepted v) \<longleftrightarrow>
   (\<exists>c p. candidate = Contribution c \<and> gate_accepts TASK_OUTCOME_SCHEMA task_outcome_parse candidate p \<and>
      outcome_granted s roles author c p)"
proof (cases candidate)
  case (Contribution c)
  let ?G = "gate_accepts TASK_OUTCOME_SCHEMA task_outcome_parse (Contribution c)"
  have "(\<exists>p v. ?G p \<and> task_outcome_decision s roles author (Contribution c) p = Inr v \<and> accepted v) \<longleftrightarrow>
      (\<exists>p. ?G p \<and> (\<exists>v. task_outcome_decision s roles author (Contribution c) p = Inr v \<and> accepted v))"
    by (simp only: ex_simps)
  also have "\<dots> \<longleftrightarrow> (\<exists>p. ?G p \<and> outcome_granted s roles author c p)"
    by (intro iff_exI conj_cong refl task_outcome_decision_accepted [OF assms])
  finally show ?thesis
    by (simp add: outcome_validator.accepted_iff Contribution)
qed (simp_all add: outcome_validator.accepted_iff gate_accepts_def)

section \<open>Exclusivity\<close>

text \<open>At most one claim occupies each task.\<close>

definition exclusive :: "agenda_snapshot \<Rightarrow> agenda_roles \<Rightarrow> bool" where
  "exclusive s roles \<longleftrightarrow> (\<forall>t e p f q. task_known s roles t \<longrightarrow> occupies s e p \<longrightarrow> occupies s f q \<longrightarrow>
     tc_task_ref p = t \<longrightarrow> tc_task_ref q = t \<longrightarrow> e = f)"

lemma distinct_length_le_1: "distinct xs \<Longrightarrow> length xs \<le> 1 \<longleftrightarrow> (\<forall>x \<in> set xs. \<forall>y \<in> set xs. x = y)"
proof (cases xs)
  case (Cons a ys)
  assume "distinct xs"
  with Cons show ?thesis by (cases ys) auto
qed simp

lemma occupies_claim: "occupies s e p \<Longrightarrow> is_claim s e p"
  by (simp add: occupies_def)

lemma blocking_le_1:
  assumes "snapshot_ok s"
  shows "length (blocking_claim_refs s t roles) \<le> 1 \<longleftrightarrow>
    (task_known s roles t \<longrightarrow> (\<forall>e p f q. occupies s e p \<longrightarrow> occupies s f q \<longrightarrow>
       tc_task_ref p = t \<longrightarrow> tc_task_ref q = t \<longrightarrow> e = f))"
proof -
  have "length (blocking_claim_refs s t roles) \<le> 1 \<longleftrightarrow>
      (\<forall>x \<in> set (blocking_claim_refs s t roles). \<forall>y \<in> set (blocking_claim_refs s t roles). x = y)"
    by (rule distinct_length_le_1) (rule blocking_distinct(1) [OF assms])
  also have "\<dots> \<longleftrightarrow> (task_known s roles t \<longrightarrow> (\<forall>e p f q. occupies s e p \<longrightarrow> occupies s f q \<longrightarrow>
       tc_task_ref p = t \<longrightarrow> tc_task_ref q = t \<longrightarrow> en_admission_ref e = en_admission_ref f))"
    unfolding Ball_def set_blocking [OF assms] task_known_def by blast
  also have "\<dots> \<longleftrightarrow> (task_known s roles t \<longrightarrow> (\<forall>e p f q. occupies s e p \<longrightarrow> occupies s f q \<longrightarrow>
       tc_task_ref p = t \<longrightarrow> tc_task_ref q = t \<longrightarrow> e = f))"
    using is_claim_unique [OF assms occupies_claim occupies_claim] by blast
  finally show ?thesis .
qed

lemma check_lease_exclusivity_iff:
  assumes "snapshot_ok s"
  shows "check_lease_exclusivity s roles = accept [] \<longleftrightarrow> exclusive s roles"
    and "\<exists>v. check_lease_exclusivity s roles = Inr v"
proof -
  let ?P = "\<lambda>t. 1 < length (blocking_claim_refs s t roles)"
  have "find ?P (sort (keys (admitted_tasks s roles))) = None \<longleftrightarrow>
      (\<forall>t. task_known s roles t \<longrightarrow> length (blocking_claim_refs s t roles) \<le> 1)"
    using keys_admitted_tasks [OF assms, of _ roles]
    by (auto simp: find_None_all task_known_def not_less)
  also have "\<dots> \<longleftrightarrow> exclusive s roles"
    unfolding blocking_le_1 [OF assms] exclusive_def by blast
  finally have f: "find ?P (sort (keys (admitted_tasks s roles))) = None \<longleftrightarrow> exclusive s roles" .
  show "check_lease_exclusivity s roles = accept [] \<longleftrightarrow> exclusive s roles"
    unfolding f [symmetric] check_lease_exclusivity_def
    by (cases "find ?P (sort (keys (admitted_tasks s roles)))") (auto simp: verdict_of_def)
  show "\<exists>v. check_lease_exclusivity s roles = Inr v"
    by (auto simp: check_lease_exclusivity_def split: option.splits)
qed

section \<open>Growth of the world\<close>

text \<open>A later snapshot: everything is still there and the clock, once set, has not gone back.\<close>

definition grows :: "agenda_snapshot \<Rightarrow> agenda_snapshot \<Rightarrow> bool" where
  "grows s s' \<longleftrightarrow> snapshot_ok s \<and> snapshot_ok s' \<and> set (as_entries s) \<subseteq> set (as_entries s') \<and>
     (\<forall>n. as_now_tick s = Some n \<longrightarrow> (\<exists>m \<ge> n. as_now_tick s' = Some m))"

lemma grows_mono:
  assumes "grows s s'"
  shows "is_claim s e p \<Longrightarrow> is_claim s' e p" "is_task s roles r t \<Longrightarrow> is_task s' roles r t"
    "is_release s e x \<Longrightarrow> is_release s' e x" "is_outcome s e y \<Longrightarrow> is_outcome s' e y"
    "closed_by_holder s e p \<Longrightarrow> closed_by_holder s' e p" "lease_over s e p \<Longrightarrow> lease_over s' e p"
proof -
  have sub: "set (as_entries s) \<subseteq> set (as_entries s')" using assms by (simp add: grows_def)
  show "is_claim s e p \<Longrightarrow> is_claim s' e p" "is_task s roles r t \<Longrightarrow> is_task s' roles r t"
    using sub by (auto simp: is_claim_def is_task_def)
  have r: "is_release s e x \<Longrightarrow> is_release s' e x" and o: "is_outcome s e y \<Longrightarrow> is_outcome s' e y" for e x y
    using sub by (auto simp: is_release_def is_outcome_def)
  show "is_release s e x \<Longrightarrow> is_release s' e x" "is_outcome s e y \<Longrightarrow> is_outcome s' e y"
    by (fact r o)+
  show "closed_by_holder s e p \<Longrightarrow> closed_by_holder s' e p"
    unfolding closed_by_holder_def using r o by blast
  show "lease_over s e p \<Longrightarrow> lease_over s' e p"
    using assms by (fastforce simp: lease_over_def grows_def)
qed

text \<open>Closure and expiry are final, and so is completion: a task never becomes free of its past.\<close>

lemma grows_occupies: "grows s s' \<Longrightarrow> occupies s' e p \<Longrightarrow> e \<in> set (as_entries s) \<Longrightarrow> occupies s e p"
  using grows_mono by (auto simp: occupies_def is_claim_def)

lemma grows_completed:
  assumes "grows s s'" "task_is_completed s t roles"
  shows "task_is_completed s' t roles"
proof -
  have ok: "snapshot_ok s" "snapshot_ok s'" using assms(1) by (simp_all add: grows_def)
  show ?thesis
    using assms(2) grows_mono [OF assms(1)] unfolding completed_iff [OF ok(1)] completed_iff [OF ok(2)] by metis
qed

text \<open>One more admission of any content.\<close>

definition adds :: "agenda_snapshot \<Rightarrow> agenda_entry \<Rightarrow> agenda_snapshot \<Rightarrow> bool" where
  "adds s f s' \<longleftrightarrow> grows s s' \<and> set (as_entries s') = insert f (set (as_entries s)) \<and>
     en_admission_ref f \<notin> en_admission_ref ` set (as_entries s)"

lemma exclusive_adds:
  assumes "adds s f s'" "exclusive s roles"
    and claim: "\<And>p. is_claim s' f p \<Longrightarrow> claim_granted s roles p"
    and fresh: "\<And>e p. is_claim s e p \<Longrightarrow> tc_task_ref p \<noteq> en_admission_ref f"
  shows "exclusive s' roles"
proof -
  from assms(1) have g: "grows s s'" and es: "set (as_entries s') = insert f (set (as_entries s))"
    by (simp_all add: adds_def)
  have known: "task_known s roles t" if "task_known s' roles t" "t \<noteq> en_admission_ref f" for t
    using that es by (auto simp: task_known_def is_task_def)
  have new: False if "occupies s' f p" "occupies s' e q" "e \<noteq> f" "tc_task_ref p = tc_task_ref q" for e p q
  proof -
    have "e \<in> set (as_entries s)" using that(2,3) es by (auto simp: occupies_def is_claim_def)
    then have "occupies s e q" using grows_occupies [OF g that(2)] by blast
    moreover have "claim_granted s roles p" using claim that(1) occupies_claim by blast
    ultimately show False using that(4) by (auto simp: claim_granted_def)
  qed
  show ?thesis
    unfolding exclusive_def
  proof (intro allI impI)
    fix t e p e' q
    assume k: "task_known s' roles t" and o: "occupies s' e p" "occupies s' e' q"
      and t: "tc_task_ref p = t" "tc_task_ref q = t"
    show "e = e'"
    proof (cases "e = f \<or> e' = f")
      case True
      then show ?thesis using new [of p e' q] new [of q e p] o t by auto
    next
      case False
      then have "e \<in> set (as_entries s)" "e' \<in> set (as_entries s)"
        using o es by (auto simp: occupies_def is_claim_def)
      then have old: "occupies s e p" "occupies s e' q" using o grows_occupies [OF g] by blast+
      then have "t \<noteq> en_admission_ref f" using fresh occupies_claim t by blast
      with k known have "task_known s roles t" by blast
      with old t assms(2) show ?thesis unfolding exclusive_def by blast
    qed
  qed
qed

end
