(* ===== verification/Central.thy ===== *)
theory Central
  imports Worklist_Correct
begin

text \<open>
  C-arm coordination, \<open>agenda_treatments/central.py\<close>: valid directives, supersession, liveness, the
  directive validator and the citation rule, with the exact conditions of each.
\<close>

definition directives :: "agenda_snapshot \<Rightarrow> agenda_roles \<Rightarrow> (string \<times> directive) list" where
  "directives s roles = dict_of (map (\<lambda>(e, p). (en_admission_ref e, p))
     (filter (\<lambda>(e, _). is_coordinator roles (en_session_id e))
       (typed_as s DIRECTIVE_SCHEMA directive_parse)))"

definition superseded_directive_refs :: "agenda_snapshot \<Rightarrow> agenda_roles \<Rightarrow> string list" where
  "superseded_directive_refs s roles =
     (let valid = directives s roles
      in concat (map (\<lambda>(admission_ref, payload).
           filter (\<lambda>r. r \<noteq> admission_ref \<and> r \<in> set (keys valid)) (di_supersedes_refs payload)) valid))"

definition live_directive_refs :: "agenda_snapshot \<Rightarrow> agenda_roles \<Rightarrow> string list" where
  "live_directive_refs s roles =
     (let superseded = superseded_directive_refs s roles
      in sort (filter (\<lambda>r. r \<notin> set superseded) (keys (directives s roles))))"

definition directive_decision ::
  "agenda_snapshot \<Rightarrow> agenda_roles \<Rightarrow> string option \<Rightarrow> directive \<Rightarrow> verdict result" where
  "directive_decision s roles prospective_session_id payload =
     (case prospective_session_id of
        None \<Rightarrow> reject ''AUTHOR_IDENTITY_REQUIRED'' ''directive''
      | Some author \<Rightarrow>
          if \<not> is_coordinator roles (Some author) then reject ''NOT_A_COORDINATOR_SLOT'' author
          else (case find (\<lambda>r. r \<notin> set (keys (directives s roles))) (di_supersedes_refs payload) of
              Some r \<Rightarrow> reject ''SUPERSEDED_DIRECTIVE_UNKNOWN'' r
            | None \<Rightarrow> accept []))"

definition validate_directive ::
  "agenda_snapshot \<Rightarrow> candidate \<Rightarrow> agenda_roles \<Rightarrow> string option \<Rightarrow> verdict result" where
  "validate_directive s candidate roles prospective_session_id =
     gate (parse_candidate DIRECTIVE_SCHEMA directive_parse candidate)
       (directive_decision s roles prospective_session_id)"

text \<open>The rule on the references that a primary action cites.\<close>

definition citation_decision ::
  "agenda_snapshot \<Rightarrow> agenda_roles \<Rightarrow> string list option \<Rightarrow> verdict result" where
  "citation_decision s roles references = (case references of
      None \<Rightarrow> reject ''DIRECTIVE_CITATION_MISSING'' (''no '' @ CITED_DIRECTIVE_REFS_FIELD)
    | Some [] \<Rightarrow> reject ''DIRECTIVE_CITATION_MISSING'' ''empty citation list''
    | Some (first # rest) \<Rightarrow>
        (case find (\<lambda>r. r \<notin> set (keys (directives s roles))) (first # rest) of
           Some r \<Rightarrow> reject ''DIRECTIVE_UNKNOWN'' r
         | None \<Rightarrow>
             if set (live_directive_refs s roles) \<inter> set (first # rest) = {}
             then reject ''DIRECTIVE_NOT_LIVE'' first
             else accept []))"

definition validate_directive_citation ::
  "agenda_snapshot \<Rightarrow> candidate \<Rightarrow> agenda_roles \<Rightarrow> verdict result" where
  "validate_directive_citation s candidate roles =
     rbind (require_contribution candidate) (\<lambda>rejection.
       case rejection of
         Some v \<Rightarrow> Inr v
       | None \<Rightarrow> (case candidate of
             Contribution c \<Rightarrow>
               if co_kind c \<notin> set PRIMARY_ACTION_KINDS
               then accept (co_kind c @ '' is not a primary action record'')
               else rbind (co_payload c) (\<lambda>payload.
                 if payload_schema (PDict payload) = Some DIRECTIVE_SCHEMA
                 then accept ''a directive does not cite itself''
                 else (case cited_directive_refs (PDict payload) of
                     Inr references \<Rightarrow> citation_decision s roles references
                   | Inl (Agenda_Schema_Error code detail) \<Rightarrow> reject ''PAYLOAD_MALFORMED'' detail
                   | Inl e \<Rightarrow> Inl e))
           | _ \<Rightarrow> Inl (Assertion_Error [])))"

section \<open>Liveness\<close>

definition is_directive :: "agenda_snapshot \<Rightarrow> agenda_roles \<Rightarrow> string \<Rightarrow> directive \<Rightarrow> bool" where
  "is_directive s roles r p \<longleftrightarrow> (\<exists>e \<in> set (as_entries s). en_admission_ref e = r \<and>
     carries DIRECTIVE_SCHEMA directive_parse (Some (kinds_of DIRECTIVE_SCHEMA)) e p \<and>
     is_coordinator roles (en_session_id e))"

text \<open>Another valid directive names this one among those it supersedes.\<close>

definition superseded :: "agenda_snapshot \<Rightarrow> agenda_roles \<Rightarrow> string \<Rightarrow> bool" where
  "superseded s roles r \<longleftrightarrow>
     (\<exists>r' p. is_directive s roles r' p \<and> r' \<noteq> r \<and> r \<in> set (di_supersedes_refs p))"

lemma map_of_directives:
  "snapshot_ok s \<Longrightarrow> map_of (directives s roles) r = Some p \<longleftrightarrow> is_directive s roles r p"
  unfolding directives_def map_of_typed_as [where f = "\<lambda>e p. p"] is_directive_def by auto

lemma keys_directives:
  "snapshot_ok s \<Longrightarrow> r \<in> set (keys (directives s roles)) \<longleftrightarrow> (\<exists>p. is_directive s roles r p)"
  by (simp add: keys_map_of map_of_directives)

lemma dict_of_keys: "distinct (keys (dict_of items))"
proof -
  have "distinct (keys acc) \<Longrightarrow> distinct (keys (fold (\<lambda>(k, v). AList.update k v) items acc))" for acc
    by (induction items arbitrary: acc) (auto simp: keys_def distinct_update)
  from this [of "[]"] show ?thesis by (simp add: dict_of_def)
qed

lemma set_directives:
  assumes "snapshot_ok s"
  shows "(r, p) \<in> set (directives s roles) \<longleftrightarrow> is_directive s roles r p"
proof -
  have "distinct (map fst (directives s roles))"
    using dict_of_keys by (simp add: directives_def keys_def [symmetric])
  then show ?thesis by (simp add: map_of_directives [OF assms, symmetric])
qed

lemma set_superseded:
  assumes "snapshot_ok s"
  shows "r \<in> set (superseded_directive_refs s roles) \<longleftrightarrow>
    superseded s roles r \<and> (\<exists>p. is_directive s roles r p)"
proof -
  have "r \<in> set (superseded_directive_refs s roles) \<longleftrightarrow> (\<exists>r' p. (r', p) \<in> set (directives s roles) \<and>
      r \<in> set (di_supersedes_refs p) \<and> r \<noteq> r' \<and> r \<in> set (keys (directives s roles)))"
    by (force simp: superseded_directive_refs_def Let_def)
  then show ?thesis
    unfolding set_directives [OF assms] keys_directives [OF assms] superseded_def by blast
qed

lemma set_live:
  "snapshot_ok s \<Longrightarrow> r \<in> set (live_directive_refs s roles) \<longleftrightarrow>
   (\<exists>p. is_directive s roles r p) \<and> \<not> superseded s roles r"
  by (auto simp: live_directive_refs_def Let_def keys_directives set_superseded)

text \<open>
  A coordinator is never locked out: as long as directives only name earlier ones (a reference is
  the digest of what it names), some directive is live whenever there is one.
\<close>

lemma live_exists:
  assumes "snapshot_ok s" "is_directive s roles r p"
    and rank: "\<And>r p r'. is_directive s roles r p \<Longrightarrow> r' \<in> set (di_supersedes_refs p) \<Longrightarrow> rank r' < (rank r :: nat)"
  shows "live_directive_refs s roles \<noteq> []"
proof -
  let ?D = "{r. \<exists>p. is_directive s roles r p}"
  have "?D \<subseteq> en_admission_ref ` set (as_entries s)" by (auto simp: is_directive_def)
  then have "finite ?D" by (rule finite_subset) (intro finite_imageI finite_set)
  then have fin: "finite (rank ` ?D)" by (rule finite_imageI)
  moreover have "rank ` ?D \<noteq> {}" using assms(2) by blast
  ultimately have "Max (rank ` ?D) \<in> rank ` ?D" by (rule Max_in)
  then obtain m where "m \<in> ?D" "rank m = Max (rank ` ?D)" by force
  then have m: "m \<in> ?D" "\<forall>x \<in> ?D. rank x \<le> rank m" using fin by simp_all
  have "\<not> superseded s roles m"
  proof
    assume "superseded s roles m"
    then obtain r' q where "is_directive s roles r' q" "m \<in> set (di_supersedes_refs q)"
      by (auto simp: superseded_def)
    then have "rank m < rank r'" "r' \<in> ?D" using rank by blast+
    with m(2) show False by fastforce
  qed
  with m(1) have "m \<in> set (live_directive_refs s roles)" using set_live [OF assms(1)] by blast
  then show ?thesis by force
qed

text \<open>Supersession is final.\<close>

lemma grows_directive: "grows s s' \<Longrightarrow> is_directive s roles r p \<Longrightarrow> is_directive s' roles r p"
  by (auto simp: grows_def is_directive_def)

lemma grows_superseded: "grows s s' \<Longrightarrow> superseded s roles r \<Longrightarrow> superseded s' roles r"
  unfolding superseded_def using grows_directive by blast

section \<open>The validators\<close>

interpretation directive_validator: treatment_validator DIRECTIVE_SCHEMA directive_parse
  "\<lambda>_. directive_decision s roles author" "\<lambda>c. validate_directive s c roles author"
  for s roles author
  by unfold_locales
    (auto simp: validate_directive_def directive_decision_def schema_safe_parse split: option.splits)

lemma directive_accepted_iff:
  assumes "snapshot_ok s"
  shows "(\<exists>v. validate_directive s c roles author = Inr v \<and> accepted v) \<longleftrightarrow>
    (\<exists>p. gate_accepts DIRECTIVE_SCHEMA directive_parse c p \<and> is_coordinator roles author \<and>
       (\<forall>r \<in> set (di_supersedes_refs p). \<exists>q. is_directive s roles r q))"
proof -
  have "(\<exists>v. directive_decision s roles author p = Inr v \<and> accepted v) \<longleftrightarrow> is_coordinator roles author \<and>
      find (\<lambda>r. r \<notin> set (keys (directives s roles))) (di_supersedes_refs p) = None" for p
    by (cases author; cases "find (\<lambda>r. r \<notin> set (keys (directives s roles))) (di_supersedes_refs p)")
      (auto simp: directive_decision_def is_coordinator_def)
  then show ?thesis
    unfolding directive_validator.accepted_iff find_None_all keys_directives [OF assms] by blast
qed

definition citation_satisfied :: "agenda_snapshot \<Rightarrow> agenda_roles \<Rightarrow> string list option \<Rightarrow> bool" where
  "citation_satisfied s roles references \<longleftrightarrow> (\<exists>refs. references = Some refs \<and>
     (\<forall>r \<in> set refs. \<exists>p. is_directive s roles r p) \<and>
     (\<exists>r \<in> set refs. \<not> superseded s roles r))"

lemma citation_decision_accepted:
  assumes "snapshot_ok s"
  shows "\<exists>v. citation_decision s roles references = Inr v \<and>
    (accepted v \<longleftrightarrow> citation_satisfied s roles references)"
proof -
  have live: "set (live_directive_refs s roles) \<inter> set refs = {} \<longleftrightarrow>
      (\<forall>r \<in> set refs. superseded s roles r \<or> (\<nexists>p. is_directive s roles r p))" for refs
    using set_live [OF assms, of _ roles] by blast
  show ?thesis
  proof (cases references)
    case (Some refs)
    show ?thesis
    proof (cases refs)
      case (Cons first rest)
      show ?thesis
      proof (cases "find (\<lambda>r. r \<notin> set (keys (directives s roles))) (first # rest)")
        case None
        then have valid: "\<forall>r \<in> set (first # rest). \<exists>p. is_directive s roles r p"
          by (simp only: find_None_all keys_directives [OF assms]) blast
        then have "citation_satisfied s roles references \<longleftrightarrow> set (live_directive_refs s roles) \<inter> set (first # rest) \<noteq> {}"
          unfolding live citation_satisfied_def using Some Cons by blast
        then show ?thesis using None Some Cons
          by (simp add: citation_decision_def del: find.simps set_simps find_None_iff)
      next
        case (Some r)
        then have "r \<in> set (first # rest)" "\<not> (\<exists>p. is_directive s roles r p)"
          using find_SomeD [OF Some] keys_directives [OF assms] by blast+
        then have "\<not> citation_satisfied s roles references"
          using \<open>references = Some refs\<close> Cons by (auto simp: citation_satisfied_def)
        then show ?thesis using Some Cons \<open>references = Some refs\<close>
          by (simp add: citation_decision_def del: find.simps)
      qed
    qed (simp add: Some citation_decision_def citation_satisfied_def)
  qed (simp add: citation_decision_def citation_satisfied_def)
qed

lemma cited_directive_refs_safe: "schema_safe (cited_directive_refs v)"
  by (auto simp: cited_directive_refs_def split: pyval.splits)

lemma citation_accepted_iff:
  assumes "snapshot_ok s" "contribution_ok c" "co_payload c = Inr d"
  shows "\<exists>v. validate_directive_citation s (Contribution c) roles = Inr v \<and>
    (accepted v \<longleftrightarrow> co_kind c \<notin> set PRIMARY_ACTION_KINDS \<or>
       payload_schema (PDict d) = Some DIRECTIVE_SCHEMA \<or>
       (\<exists>references. cited_directive_refs (PDict d) = Inr references \<and> citation_satisfied s roles references))"
proof (cases "cited_directive_refs (PDict d)")
  case (Inl e)
  with cited_directive_refs_safe [of "PDict d"] obtain code detail where "e = Agenda_Schema_Error code detail"
    by (auto simp: schema_safe_def schema_failure_def)
  with Inl assms(3) show ?thesis
    by (simp add: validate_directive_citation_def require_contribution_def)
next
  case (Inr references)
  with assms(3) citation_decision_accepted [OF assms(1), of roles references] show ?thesis
    by (auto simp: validate_directive_citation_def require_contribution_def)
qed

end
