(* ===== verification/Adaptive.thy ===== *)
theory Adaptive
  imports Central
begin

text \<open>
  The hardening trigger, \<open>agenda_treatments/adaptive.py\<close>, and route telemetry,
  \<open>agenda_treatments/route.py\<close>. The lemmas give the five conditions of a settled decomposition, how
  the trigger moves as the world grows (only an objection can turn it off), and that an accepted
  route declaration has every citation resolved.
\<close>

section \<open>Decompositions\<close>

definition MINIMUM_SUBLEMMAS_FOR_TRIGGER :: nat where
  "MINIMUM_SUBLEMMAS_FOR_TRIGGER = 2"

definition OBJECTION_KIND :: string where
  "OBJECTION_KIND = ''OBJECTION''"

fun sublemma_decision :: "(string \<times> task_admission) list \<Rightarrow> sublemma list \<Rightarrow> verdict result" where
  "sublemma_decision tasks [] = accept []"
| "sublemma_decision tasks (sublemma # rest) =
     (case map_of tasks (sl_admission_ref sublemma) of
        None \<Rightarrow> reject ''DECOMPOSITION_SUBLEMMA_UNKNOWN'' (sl_admission_ref sublemma)
      | Some task \<Rightarrow>
          if ta_statement task \<noteq> sl_statement sublemma
          then reject ''DECOMPOSITION_STATEMENT_MISMATCH'' (sl_admission_ref sublemma)
          else sublemma_decision tasks rest)"

definition decomposition_decision ::
  "agenda_snapshot \<Rightarrow> agenda_roles \<Rightarrow> decomposition \<Rightarrow> verdict result" where
  "decomposition_decision s roles payload =
     (if snapshot_get s (dc_target_ref payload) = None
      then reject ''DECOMPOSITION_TARGET_UNKNOWN'' (dc_target_ref payload)
      else sublemma_decision (admitted_tasks s roles) (dc_sublemmas payload))"

definition validate_decomposition ::
  "agenda_snapshot \<Rightarrow> candidate \<Rightarrow> agenda_roles \<Rightarrow> verdict result" where
  "validate_decomposition s candidate roles =
     gate (parse_candidate DECOMPOSITION_SCHEMA decomposition_parse candidate)
       (decomposition_decision s roles)"

definition objected_refs :: "agenda_snapshot \<Rightarrow> string list" where
  "objected_refs s = concat (map en_parent_refs
     (filter (\<lambda>e. en_kind e = Some OBJECTION_KIND) (as_entries s)))"

definition settled_decomposition_refs :: "agenda_snapshot \<Rightarrow> string \<Rightarrow> agenda_roles \<Rightarrow> string list" where
  "settled_decomposition_refs s target_ref roles =
     (if snapshot_get s target_ref = None then []
      else let tasks = admitted_tasks s roles; objected = objected_refs s
           in sort (map (\<lambda>(e, _). en_admission_ref e)
                (filter (\<lambda>(e, p). dc_target_ref p = target_ref \<and>
                    MINIMUM_SUBLEMMAS_FOR_TRIGGER \<le> length (dc_sublemmas p) \<and>
                    en_admission_ref e \<notin> set objected \<and>
                    (\<forall>l \<in> set (dc_sublemmas p). case map_of tasks (sl_admission_ref l) of
                        None \<Rightarrow> False | Some task \<Rightarrow> ta_statement task = sl_statement l))
                  (typed_as s DECOMPOSITION_SCHEMA decomposition_parse))))"

definition agenda_hardening_trigger :: "agenda_snapshot \<Rightarrow> string \<Rightarrow> agenda_roles \<Rightarrow> bool" where
  "agenda_hardening_trigger s target_ref roles \<longleftrightarrow> settled_decomposition_refs s target_ref roles \<noteq> []"

text \<open>The five conditions, stated on single entries.\<close>

definition is_decomposition :: "agenda_snapshot \<Rightarrow> agenda_entry \<Rightarrow> decomposition \<Rightarrow> bool" where
  "is_decomposition s e p \<longleftrightarrow> e \<in> set (as_entries s) \<and>
     carries DECOMPOSITION_SCHEMA decomposition_parse (Some (kinds_of DECOMPOSITION_SCHEMA)) e p"

definition grounded :: "agenda_snapshot \<Rightarrow> agenda_roles \<Rightarrow> decomposition \<Rightarrow> bool" where
  "grounded s roles p \<longleftrightarrow> (\<forall>l \<in> set (dc_sublemmas p).
     \<exists>task. is_task s roles (sl_admission_ref l) task \<and> ta_statement task = sl_statement l)"

definition objected :: "agenda_snapshot \<Rightarrow> string \<Rightarrow> bool" where
  "objected s r \<longleftrightarrow> (\<exists>e \<in> set (as_entries s). en_kind e = Some ''OBJECTION'' \<and> r \<in> set (en_parent_refs e))"

definition settles :: "agenda_snapshot \<Rightarrow> agenda_roles \<Rightarrow> string \<Rightarrow> agenda_entry \<Rightarrow> decomposition \<Rightarrow> bool" where
  "settles s roles target e p \<longleftrightarrow> is_decomposition s e p \<and> dc_target_ref p = target \<and>
     snapshot_contains s target \<and> 2 \<le> length (dc_sublemmas p) \<and> grounded s roles p \<and>
     \<not> objected s (en_admission_ref e)"

lemma snapshot_get_None: "snapshot_get s r = None \<longleftrightarrow> \<not> snapshot_contains s r"
  by (simp add: snapshot_get_def snapshot_contains_def keys_def map_of_eq_None_iff)

lemma grounded_iff:
  assumes "snapshot_ok s"
  shows "(\<forall>l \<in> set (dc_sublemmas p). case map_of (admitted_tasks s roles) (sl_admission_ref l) of
     None \<Rightarrow> False | Some task \<Rightarrow> ta_statement task = sl_statement l) \<longleftrightarrow> grounded s roles p"
proof -
  have "(case map_of (admitted_tasks s roles) r of None \<Rightarrow> False | Some task \<Rightarrow> ta_statement task = x) \<longleftrightarrow>
      (\<exists>task. is_task s roles r task \<and> ta_statement task = x)" for r x
    by (cases "map_of (admitted_tasks s roles) r") (auto simp: map_of_admitted_tasks [OF assms, symmetric])
  then show ?thesis by (simp add: grounded_def)
qed

lemma set_settled:
  assumes "snapshot_ok s"
  shows "r \<in> set (settled_decomposition_refs s target roles) \<longleftrightarrow>
    (\<exists>e p. settles s roles target e p \<and> en_admission_ref e = r)"
proof -
  have "x \<in> set (objected_refs s) \<longleftrightarrow> objected s x" for x
    by (auto simp: objected_refs_def objected_def OBJECTION_KIND_def)
  then show ?thesis
    by (auto simp: settled_decomposition_refs_def Let_def snapshot_get_None settles_def is_decomposition_def
        set_typed_as grounded_iff [OF assms] MINIMUM_SUBLEMMAS_FOR_TRIGGER_def)
qed

lemma settled_sorted:
  assumes "snapshot_ok s"
  shows "sorted (settled_decomposition_refs s target roles)" "distinct (settled_decomposition_refs s target roles)"
proof -
  have "distinct (map (en_admission_ref \<circ> fst) (filter P (typed_as s DECOMPOSITION_SCHEMA decomposition_parse)))" for P
    unfolding typed_as_def by (intro filter_refs_distinct typed_refs(1) assms)
  then have "distinct (map (\<lambda>(e, _). en_admission_ref e)
      (filter P (typed_as s DECOMPOSITION_SCHEMA decomposition_parse)))" for P
    by (simp only: comp_def case_prod_beta')
  then show "sorted (settled_decomposition_refs s target roles)" "distinct (settled_decomposition_refs s target roles)"
    by (simp_all add: settled_decomposition_refs_def Let_def)
qed

lemma trigger_iff:
  "snapshot_ok s \<Longrightarrow> agenda_hardening_trigger s target roles \<longleftrightarrow> (\<exists>e p. settles s roles target e p)"
  using set_settled [of s _ target roles] unfolding agenda_hardening_trigger_def
  by (metis ex_in_conv set_empty)

lemma grows_settles:
  assumes "grows s s'" "settles s roles target e p" "\<not> objected s' (en_admission_ref e)"
  shows "settles s' roles target e p"
proof -
  have "snapshot_contains s' target"
    using assms(1,2) by (auto simp: settles_def grows_def snapshot_contains_iff)
  then show ?thesis
    using assms grows_mono(2) [OF assms(1)]
    by (auto simp: settles_def is_decomposition_def grounded_def grows_def; blast)
qed

text \<open>Only a new objection turns the trigger off.\<close>

lemma trigger_lost:
  assumes "adds s f s'" "agenda_hardening_trigger s target roles" "\<not> agenda_hardening_trigger s' target roles"
  shows "en_kind f = Some ''OBJECTION'' \<and>
    (\<forall>r \<in> set (settled_decomposition_refs s target roles). r \<in> set (en_parent_refs f))"
proof -
  from assms(1) have g: "grows s s'" and es: "set (as_entries s') = insert f (set (as_entries s))"
    and ok: "snapshot_ok s" "snapshot_ok s'"
    by (auto simp: adds_def grows_def)
  have "en_kind f = Some ''OBJECTION'' \<and> en_admission_ref e \<in> set (en_parent_refs f)"
    if "settles s roles target e p" for e p
  proof -
    have "objected s' (en_admission_ref e)"
      using grows_settles [OF g that] assms(3) trigger_iff [OF ok(2)] by blast
    moreover have "\<not> objected s (en_admission_ref e)" using that by (simp add: settles_def)
    ultimately show ?thesis using es by (auto simp: objected_def)
  qed
  note named = this
  obtain e p where "settles s roles target e p" using assms(2) trigger_iff [OF ok(1)] by blast
  with named have "en_kind f = Some ''OBJECTION''" by blast
  moreover have "r \<in> set (en_parent_refs f)" if "r \<in> set (settled_decomposition_refs s target roles)" for r
    using that named unfolding set_settled [OF ok(1)] by blast
  ultimately show ?thesis by blast
qed

text \<open>An objection to the only settled decomposition does turn it off.\<close>

lemma trigger_objected:
  assumes "adds s f s'" "en_kind f = Some ''OBJECTION''" "\<not> declares DECOMPOSITION_SCHEMA f"
    and "\<not> declares TASK_ADMISSION_SCHEMA f" "en_admission_ref f \<noteq> target"
    and "\<forall>r \<in> set (settled_decomposition_refs s target roles). r \<in> set (en_parent_refs f)"
  shows "\<not> agenda_hardening_trigger s' target roles"
proof
  from assms(1) have es: "set (as_entries s') = insert f (set (as_entries s))"
    and ok: "snapshot_ok s" "snapshot_ok s'"
    by (auto simp: adds_def grows_def)
  assume "agenda_hardening_trigger s' target roles"
  then obtain e p where ep: "settles s' roles target e p" using trigger_iff [OF ok(2)] by blast
  have task: "is_task s roles r t" if "is_task s' roles r t" for r t
    using that es assms(4) by (auto simp: is_task_def carries_def)
  have "settles s roles target e p"
    using ep es assms(3,5) task ok
    by (auto simp: settles_def is_decomposition_def carries_def grounded_def objected_def
        snapshot_contains_iff) blast+
  then have "en_admission_ref e \<in> set (en_parent_refs f)"
    using assms(6) set_settled [OF ok(1)] by blast
  with assms(2) es have "objected s' (en_admission_ref e)" by (auto simp: objected_def)
  with ep show False by (simp add: settles_def)
qed

section \<open>The decomposition validator\<close>

lemma sublemma_decision_total: "\<exists>v. sublemma_decision tasks subs = Inr v"
  by (induction tasks subs rule: sublemma_decision.induct) (auto split: option.splits)

lemma sublemma_decision_accepted:
  "(\<exists>v. sublemma_decision tasks subs = Inr v \<and> accepted v) \<longleftrightarrow>
   (\<forall>l \<in> set subs. case map_of tasks (sl_admission_ref l) of
      None \<Rightarrow> False | Some task \<Rightarrow> ta_statement task = sl_statement l)"
  by (induction tasks subs rule: sublemma_decision.induct) (auto split: option.splits)

interpretation decomposition_validator: treatment_validator DECOMPOSITION_SCHEMA decomposition_parse
  "\<lambda>_. decomposition_decision s roles" "\<lambda>c. validate_decomposition s c roles"
  for s roles
  by unfold_locales
    (use sublemma_decision_total in \<open>auto simp: validate_decomposition_def decomposition_decision_def schema_safe_parse\<close>)

lemma decomposition_accepted_iff:
  assumes "snapshot_ok s"
  shows "(\<exists>v. validate_decomposition s c roles = Inr v \<and> accepted v) \<longleftrightarrow>
    (\<exists>p. gate_accepts DECOMPOSITION_SCHEMA decomposition_parse c p \<and>
       snapshot_contains s (dc_target_ref p) \<and> grounded s roles p)"
proof -
  have "(\<exists>v. decomposition_decision s roles p = Inr v \<and> accepted v) \<longleftrightarrow>
      snapshot_contains s (dc_target_ref p) \<and> grounded s roles p" for p
    using sublemma_decision_accepted [of "admitted_tasks s roles" "dc_sublemmas p"] grounded_iff [OF assms]
    by (simp add: decomposition_decision_def snapshot_get_None)
  then show ?thesis unfolding decomposition_validator.accepted_iff by blast
qed

section \<open>Route telemetry\<close>

definition route_declarations :: "agenda_snapshot \<Rightarrow> (string \<times> route_declaration) list" where
  "route_declarations s = dict_of (map (\<lambda>(e, p). (en_admission_ref e, p))
     (typed_as s ROUTE_DECLARATION_SCHEMA route_declaration_parse))"

definition resolved_peer_trigger_refs :: "agenda_snapshot \<Rightarrow> route_declaration \<Rightarrow> string list" where
  "resolved_peer_trigger_refs s payload =
     filter (\<lambda>r. snapshot_get s r \<noteq> None) (rd_peer_trigger_refs payload)"

definition route_decision :: "agenda_snapshot \<Rightarrow> route_declaration \<Rightarrow> verdict result" where
  "route_decision s payload =
     (case find (\<lambda>r. snapshot_get s r = None) (rd_peer_trigger_refs payload) of
        Some r \<Rightarrow> reject ''ROUTE_TRIGGER_REF_UNKNOWN'' r
      | None \<Rightarrow> accept [])"

definition validate_route_declaration :: "agenda_snapshot \<Rightarrow> candidate \<Rightarrow> verdict result" where
  "validate_route_declaration s candidate =
     gate (parse_candidate ROUTE_DECLARATION_SCHEMA route_declaration_parse candidate) (route_decision s)"

interpretation route_validator: treatment_validator ROUTE_DECLARATION_SCHEMA route_declaration_parse
  "\<lambda>_. route_decision s" "validate_route_declaration s"
  for s
  by unfold_locales
    (auto simp: validate_route_declaration_def route_decision_def schema_safe_parse split: option.splits)

lemma route_decision_accepted:
  "(\<exists>v. route_decision s p = Inr v \<and> accepted v) \<longleftrightarrow>
   (\<forall>r \<in> set (rd_peer_trigger_refs p). snapshot_contains s r)"
proof -
  have "(\<exists>v. route_decision s p = Inr v \<and> accepted v) \<longleftrightarrow>
      find (\<lambda>r. snapshot_get s r = None) (rd_peer_trigger_refs p) = None"
    by (cases "find (\<lambda>r. snapshot_get s r = None) (rd_peer_trigger_refs p)") (auto simp: route_decision_def)
  then show ?thesis by (simp add: find_None_all snapshot_get_None)
qed

lemma route_accepted_iff:
  "(\<exists>v. validate_route_declaration s c = Inr v \<and> accepted v) \<longleftrightarrow>
   (\<exists>p. gate_accepts ROUTE_DECLARATION_SCHEMA route_declaration_parse c p \<and>
      resolved_peer_trigger_refs s p = rd_peer_trigger_refs p)"
proof -
  have "resolved_peer_trigger_refs s p = rd_peer_trigger_refs p \<longleftrightarrow>
      (\<forall>r \<in> set (rd_peer_trigger_refs p). snapshot_contains s r)" for p
    by (simp only: resolved_peer_trigger_refs_def filter_id_conv snapshot_get_None not_not)
  then show ?thesis
    unfolding route_validator.accepted_iff using route_decision_accepted by blast
qed

end
