(* ===== verification/Session_Model.thy ===== *)
theory Session_Model
  imports Adaptive
begin

text \<open>
  Session and cohort manifests, \<open>sessions/model.py\<close>, and the binding of a contribution to its
  session, \<open>ResearchContribution.bind\<close> of \<open>world/records.py\<close>. Keyword arguments are dictionaries;
  the eight fields that a plan and each of its sessions repeat are one record that both extend. The
  lemmas give the exact conditions under which a plan can be generated, the round trip of its
  manifest, and that binding changes nothing but the identity.
\<close>

section \<open>Validators\<close>

definition MAXIMUM_SESSIONS :: nat where
  "MAXIMUM_SESSIONS = 4096"

definition is_IDENTIFIER :: "string \<Rightarrow> bool" where
  "is_IDENTIFIER = matches_ident (\<lambda>c. is_lower c \<or> is_upper c \<or> is_digit c) is_ident_tail 127"

fun has_infix :: "string \<Rightarrow> string \<Rightarrow> bool" where
  "has_infix t [] = (t = [])"
| "has_infix t (c # s) = (take (length t) (c # s) = t \<or> has_infix t s)"

definition is_WORLD_REF :: "string \<Rightarrow> bool" where
  "is_WORLD_REF s \<longleftrightarrow> take 9 s = ''refs/pmw/'' \<and>
     matches_ident (\<lambda>c. is_lower c \<or> is_upper c \<or> is_digit c)
       (\<lambda>c. is_ident_tail c \<or> c = CHR ''/'') 240 (drop 9 s)"

abbreviation value_error :: "string \<Rightarrow> 'a result" where
  "value_error m \<equiv> Inl (Value_Error m)"

definition md_identifier :: "string \<Rightarrow> pyval \<Rightarrow> string result" where
  "md_identifier field value =
     (let failure = value_error (field @ '' must match '' @
        repr_text ''^[A-Za-z0-9][A-Za-z0-9._-]{0,127}$'' @ ''; got '' @ py_repr value)
      in case value of PStr s \<Rightarrow> if is_IDENTIFIER s then Inr s else failure | _ \<Rightarrow> failure)"

definition md_snapshot :: "pyval \<Rightarrow> string result" where
  "md_snapshot value =
     (let failure = value_error ''base_snapshot_ref must be a canonical snapshot/sha256 ref''
      in case value of PStr s \<Rightarrow> if is_SNAPSHOT_REF s then Inr s else failure | _ \<Rightarrow> failure)"

definition md_world_ref :: "pyval \<Rightarrow> string result" where
  "md_world_ref value =
     (let failure = value_error ''world_ref must be a canonical refs/pmw/... name''
      in case value of
           PStr s \<Rightarrow> if \<not> is_WORLD_REF s \<or> has_infix ''//'' s \<or> has_infix ''/../'' s then failure else Inr s
         | _ \<Rightarrow> failure)"

definition md_sha256 :: "string \<Rightarrow> pyval \<Rightarrow> string result" where
  "md_sha256 field value =
     (let failure = value_error (field @ '' must be a lowercase SHA-256 digest'')
      in case value of PStr s \<Rightarrow> if matches_sha256 s then Inr s else failure | _ \<Rightarrow> failure)"

section \<open>Identity\<close>

record launch_identity =
  li_cohort_id :: string
  li_world_id :: string
  li_world_ref :: string
  li_base_snapshot_ref :: string
  li_safety_profile :: string
  li_safety_profile_sha256 :: string
  li_core_lock_sha256 :: string
  li_briefing_sha256 :: string

definition identity_kwargs :: "'a launch_identity_scheme \<Rightarrow> (string \<times> pyval) list" where
  "identity_kwargs i =
     [(''cohort_id'', PStr (li_cohort_id i)), (''world_id'', PStr (li_world_id i)),
      (''world_ref'', PStr (li_world_ref i)), (''base_snapshot_ref'', PStr (li_base_snapshot_ref i)),
      (''safety_profile'', PStr (li_safety_profile i)),
      (''safety_profile_sha256'', PStr (li_safety_profile_sha256 i)),
      (''core_lock_sha256'', PStr (li_core_lock_sha256 i)),
      (''briefing_sha256'', PStr (li_briefing_sha256 i))]"

definition check_identity :: "(string \<times> pyval) list \<Rightarrow> launch_identity result" where
  "check_identity kw =
     rbind (md_identifier ''cohort_id'' (dget ''cohort_id'' kw)) (\<lambda>cohort_id.
     rbind (md_identifier ''world_id'' (dget ''world_id'' kw)) (\<lambda>world_id.
     rbind (md_world_ref (dget ''world_ref'' kw)) (\<lambda>world_ref.
     rbind (md_snapshot (dget ''base_snapshot_ref'' kw)) (\<lambda>base_snapshot_ref.
     rbind (md_identifier ''safety_profile'' (dget ''safety_profile'' kw)) (\<lambda>safety_profile.
     rbind (md_sha256 ''safety_profile_sha256'' (dget ''safety_profile_sha256'' kw)) (\<lambda>safety_sha256.
     rbind (md_sha256 ''core_lock_sha256'' (dget ''core_lock_sha256'' kw)) (\<lambda>core_sha256.
     rbind (md_sha256 ''briefing_sha256'' (dget ''briefing_sha256'' kw)) (\<lambda>briefing_sha256.
       Inr \<lparr>li_cohort_id = cohort_id, li_world_id = world_id, li_world_ref = world_ref,
            li_base_snapshot_ref = base_snapshot_ref, li_safety_profile = safety_profile,
            li_safety_profile_sha256 = safety_sha256, li_core_lock_sha256 = core_sha256,
            li_briefing_sha256 = briefing_sha256\<rparr>))))))))"

record session_spec = launch_identity +
  ss_session_id :: string

definition session_spec_init :: "pyval \<Rightarrow> (string \<times> pyval) list \<Rightarrow> session_spec result" where
  "session_spec_init session_id kw =
     rbind (md_identifier ''session_id'' session_id) (\<lambda>selected.
     rbind (check_identity kw) (\<lambda>identity.
       Inr (launch_identity.extend identity (session_spec.fields selected))))"

definition spec_to_manifest :: "session_spec \<Rightarrow> pyval" where
  "spec_to_manifest s = PDict [(''session_id'', PStr (ss_session_id s))]"

definition spec_from_manifest ::
  "(string \<times> pyval) list \<Rightarrow> (string \<times> pyval) list \<Rightarrow> session_spec result" where
  "spec_from_manifest value kw =
     (if set (keys value) \<noteq> {''session_id''}
      then value_error (''session manifest fields must be exactly '' @ repr_texts [''session_id''] @
             ''; got '' @ repr_texts (sort (keys value)))
      else rbind (md_identifier ''session_id'' (dget ''session_id'' value)) (\<lambda>session_id.
             session_spec_init (PStr session_id) kw))"

section \<open>Plans\<close>

definition COHORT_SCHEMA :: string where
  "COHORT_SCHEMA = ''PMW_COHORT_PLAN_1''"

record cohort_plan = launch_identity +
  cp_concurrency :: int
  cp_sessions :: "session_spec list"

definition session_differs :: "session_spec \<Rightarrow> string \<Rightarrow> unit result" where
  "session_differs s what = value_error (''session '' @ repr_text (ss_session_id s) @ what)"

fun check_sessions :: "launch_identity \<Rightarrow> string list \<Rightarrow> session_spec list \<Rightarrow> unit result" where
  "check_sessions self ids [] = Inr ()"
| "check_sessions self ids (s # rest) =
     (if li_cohort_id s \<noteq> li_cohort_id self then session_differs s '' belongs to a different cohort''
      else if li_world_id s \<noteq> li_world_id self then session_differs s '' belongs to a different world''
      else if li_world_ref s \<noteq> li_world_ref self then session_differs s '' uses a different world ref''
      else if li_base_snapshot_ref s \<noteq> li_base_snapshot_ref self
        then session_differs s '' uses a different base snapshot''
      else if li_safety_profile s \<noteq> li_safety_profile self
        then session_differs s '' uses a different safety profile''
      else if li_safety_profile_sha256 s \<noteq> li_safety_profile_sha256 self
        then session_differs s '' uses a different safety_profile_sha256''
      else if li_core_lock_sha256 s \<noteq> li_core_lock_sha256 self
        then session_differs s '' uses a different core_lock_sha256''
      else if li_briefing_sha256 s \<noteq> li_briefing_sha256 self
        then session_differs s '' uses a different briefing_sha256''
      else if ss_session_id s \<in> set ids
        then value_error (''duplicate session_id: '' @ repr_text (ss_session_id s))
      else check_sessions self (ss_session_id s # ids) rest)"

text \<open>\<open>CohortPlan.__post_init__\<close>; the sessions are a tuple of specs.\<close>

definition cohort_plan_init ::
  "(string \<times> pyval) list \<Rightarrow> pyval \<Rightarrow> session_spec list \<Rightarrow> cohort_plan result" where
  "cohort_plan_init kw concurrency sessions =
     rbind (check_identity kw) (\<lambda>self.
       case concurrency of
         PInt n \<Rightarrow>
           if sessions = [] then value_error ''a cohort must contain at least one session''
           else if MAXIMUM_SESSIONS < length sessions
             then value_error (''session count exceeds host capacity '' @ nat_digits MAXIMUM_SESSIONS)
           else if \<not> (1 \<le> n \<and> n \<le> int (length sessions))
             then value_error ''concurrency must be between 1 and session count''
           else rbind (check_sessions self [] sessions) (\<lambda>_.
                  Inr (launch_identity.extend self (cohort_plan.fields n sessions)))
       | _ \<Rightarrow> value_error ''concurrency must be an integer'')"

definition plan_count :: "cohort_plan \<Rightarrow> nat" where
  "plan_count p = length (cp_sessions p)"

text \<open>\<open>{ordinal:04d}\<close>\<close>

definition pad4 :: "nat \<Rightarrow> string" where
  "pad4 n = replicate (4 - length (nat_digits n)) (CHR ''0'') @ nat_digits n"

definition generated_id :: "string \<Rightarrow> nat \<Rightarrow> string" where
  "generated_id cohort_id ordinal = cohort_id @ ''-session-'' @ pad4 ordinal"

definition generate :: "(string \<times> pyval) list \<Rightarrow> pyval \<Rightarrow> pyval \<Rightarrow> cohort_plan result" where
  "generate kw session_count concurrency =
     rbind (check_identity kw) (\<lambda>identity.
       case session_count of
         PInt n \<Rightarrow>
           if n < 1 then value_error ''count must be a positive integer''
           else if int MAXIMUM_SESSIONS < n
             then value_error (''count exceeds host capacity '' @ nat_digits MAXIMUM_SESSIONS)
           else (case concurrency of
               PInt c \<Rightarrow>
                 if \<not> (1 \<le> c \<and> c \<le> n) then value_error ''concurrency must be between 1 and count''
                 else rbind (rmap (\<lambda>ordinal. session_spec_init
                              (PStr (generated_id (li_cohort_id identity) ordinal))
                              (identity_kwargs identity)) [1..<Suc (nat n)]) (\<lambda>sessions.
                        cohort_plan_init (identity_kwargs identity) concurrency sessions)
             | _ \<Rightarrow> value_error ''concurrency must be between 1 and count'')
       | _ \<Rightarrow> value_error ''count must be a positive integer'')"

definition plan_to_manifest :: "cohort_plan \<Rightarrow> (string \<times> pyval) list" where
  "plan_to_manifest p = (''schema'', PStr COHORT_SCHEMA) # identity_kwargs p @
     [(''concurrency'', PInt (cp_concurrency p)),
      (''sessions'', PList (map spec_to_manifest (cp_sessions p)))]"

definition COHORT_FIELDS :: "string list" where
  "COHORT_FIELDS = [''schema'', ''cohort_id'', ''world_id'', ''world_ref'', ''base_snapshot_ref'',
     ''safety_profile'', ''safety_profile_sha256'', ''core_lock_sha256'', ''briefing_sha256'',
     ''concurrency'', ''sessions'']"

definition manifest_session :: "launch_identity \<Rightarrow> pyval \<Rightarrow> session_spec result" where
  "manifest_session identity raw = (case raw of
      PDict d \<Rightarrow> spec_from_manifest d (identity_kwargs identity)
    | _ \<Rightarrow> value_error ''each session must be a mapping'')"

definition plan_from_manifest :: "(string \<times> pyval) list \<Rightarrow> cohort_plan result" where
  "plan_from_manifest value =
     (if set (keys value) \<noteq> set COHORT_FIELDS
      then value_error (''cohort manifest fields must be exactly '' @ repr_texts (sort COHORT_FIELDS) @
             ''; got '' @ repr_texts (sort (keys value)))
      else if dget ''schema'' value \<noteq> PStr COHORT_SCHEMA
        then value_error (''unsupported cohort schema: '' @ py_repr (dget ''schema'' value))
      else rbind (check_identity value) (\<lambda>identity.
        case dget ''sessions'' value of
          PList raw_sessions \<Rightarrow>
            if \<not> (1 \<le> length raw_sessions \<and> length raw_sessions \<le> MAXIMUM_SESSIONS)
            then value_error (''session count must be between 1 and '' @ nat_digits MAXIMUM_SESSIONS)
            else rbind (rmap (manifest_session identity) raw_sessions) (\<lambda>sessions.
              case dget ''concurrency'' value of
                PInt _ \<Rightarrow> cohort_plan_init (identity_kwargs identity) (dget ''concurrency'' value) sessions
              | _ \<Rightarrow> value_error ''concurrency must be an integer'')
        | _ \<Rightarrow> value_error ''sessions must be a list''))"

section \<open>Binding\<close>

text \<open>\<open>bind\<close> on a \<open>SessionSpec\<close>: the host injects the complete session identity.\<close>

definition bind_record :: "research_contribution \<Rightarrow> session_spec \<Rightarrow> research_record result" where
  "bind_record c spec = rbind (co_payload c) (\<lambda>payload.
     research_record_init (PStr (li_world_id spec)) (PStr (li_cohort_id spec)) (PStr (ss_session_id spec))
       (PStr (li_base_snapshot_ref spec)) (PStr (co_kind c)) (PStr (co_title c)) (PStr (co_body c))
       (texts (co_problem_ids c)) (texts (co_parent_refs c)) (texts (co_artifact_refs c)) (PDict payload))"

section \<open>Plans: correctness\<close>

lemma md_identifier_Inr [result_dests]: "md_identifier f v = Inr s \<longleftrightarrow> v = PStr s \<and> is_IDENTIFIER s"
  by (auto simp: md_identifier_def Let_def split: pyval.splits)

lemma md_snapshot_Inr [result_dests]: "md_snapshot v = Inr s \<longleftrightarrow> v = PStr s \<and> is_SNAPSHOT_REF s"
  by (auto simp: md_snapshot_def Let_def split: pyval.splits)

definition world_ref_ok :: "string \<Rightarrow> bool" where
  "world_ref_ok s \<longleftrightarrow> is_WORLD_REF s \<and> \<not> has_infix ''//'' s \<and> \<not> has_infix ''/../'' s"

lemma md_world_ref_Inr [result_dests]: "md_world_ref v = Inr s \<longleftrightarrow> v = PStr s \<and> world_ref_ok s"
  by (auto simp: md_world_ref_def Let_def world_ref_ok_def split: pyval.splits)

lemma md_sha256_Inr [result_dests]: "md_sha256 f v = Inr s \<longleftrightarrow> v = PStr s \<and> matches_sha256 s"
  by (auto simp: md_sha256_def Let_def split: pyval.splits)

definition identity_ok :: "'a launch_identity_scheme \<Rightarrow> bool" where
  "identity_ok i \<longleftrightarrow> is_IDENTIFIER (li_cohort_id i) \<and> is_IDENTIFIER (li_world_id i) \<and>
     world_ref_ok (li_world_ref i) \<and> is_SNAPSHOT_REF (li_base_snapshot_ref i) \<and>
     is_IDENTIFIER (li_safety_profile i) \<and> matches_sha256 (li_safety_profile_sha256 i) \<and>
     matches_sha256 (li_core_lock_sha256 i) \<and> matches_sha256 (li_briefing_sha256 i)"

lemma check_identity_Inr [result_dests]:
  "check_identity kw = Inr i \<longleftrightarrow> identity_ok i \<and>
     (\<forall>(k, v) \<in> set (identity_kwargs i). dget k kw = v)"
  by (cases i) (auto simp: check_identity_def identity_ok_def identity_kwargs_def result_dests)

lemma check_identity_kwargs:
  "check_identity (identity_kwargs i) = Inr j \<longleftrightarrow> identity_ok i \<and> j = launch_identity.truncate i"
proof -
  have "identity_kwargs i = identity_kwargs j \<longleftrightarrow> j = launch_identity.truncate i"
    by (cases j) (auto simp: identity_kwargs_def launch_identity.truncate_def)
  moreover have "(\<forall>(k, v) \<in> set (identity_kwargs j). dget k (identity_kwargs i) = v) \<longleftrightarrow>
      identity_kwargs i = identity_kwargs j"
    by (auto simp: identity_kwargs_def)
  ultimately show ?thesis
    by (auto simp: check_identity_Inr identity_ok_def launch_identity.truncate_def)
qed

definition spec_ok :: "session_spec \<Rightarrow> bool" where
  "spec_ok s \<longleftrightarrow> is_IDENTIFIER (ss_session_id s) \<and> identity_ok s"

definition plan_ok :: "cohort_plan \<Rightarrow> bool" where
  "plan_ok p \<longleftrightarrow> identity_ok p \<and> length (cp_sessions p) \<le> MAXIMUM_SESSIONS \<and>
     1 \<le> cp_concurrency p \<and> cp_concurrency p \<le> int (plan_count p) \<and>
     (\<forall>s \<in> set (cp_sessions p). launch_identity.truncate s = launch_identity.truncate p) \<and>
     distinct (map ss_session_id (cp_sessions p))"

lemma check_sessions_Cons:
  "check_sessions self ids (s # rest) = Inr () \<longleftrightarrow> launch_identity.truncate s = self \<and>
     ss_session_id s \<notin> set ids \<and> check_sessions self (ss_session_id s # ids) rest = Inr ()"
  by (cases self) (auto simp: session_differs_def launch_identity.truncate_def)

lemma check_sessions_Inr:
  "check_sessions self ids ss = Inr () \<longleftrightarrow>
   (\<forall>s \<in> set ss. launch_identity.truncate s = self \<and> ss_session_id s \<notin> set ids) \<and>
   distinct (map ss_session_id ss)"
proof (induction ss arbitrary: ids)
  case (Cons s rest)
  show ?case
    unfolding check_sessions_Cons Cons by (auto dest: image_eqI [OF sym])
qed simp

lemma cohort_plan_init_Inr:
  "cohort_plan_init kw c ss = Inr p \<longleftrightarrow>
   plan_ok p \<and> c = PInt (cp_concurrency p) \<and> cp_sessions p = ss \<and>
   (\<forall>(k, v) \<in> set (identity_kwargs p). dget k kw = v)"
proof -
  have t: "identity_ok (launch_identity.truncate p) = identity_ok p"
    "identity_kwargs (launch_identity.truncate p) = identity_kwargs p"
    by (simp_all add: identity_ok_def identity_kwargs_def launch_identity.truncate_def)
  have e: "launch_identity.extend self (cohort_plan.fields n ss) = p \<longleftrightarrow>
      launch_identity.truncate p = self \<and> cp_concurrency p = n \<and> cp_sessions p = ss" for self n
    by (cases p; cases self)
      (auto simp: launch_identity.extend_def cohort_plan.fields_def launch_identity.truncate_def)
  show ?thesis
    by (cases c) (auto simp: cohort_plan_init_def result_dests check_sessions_Inr e
        plan_ok_def plan_count_def t not_less Suc_le_eq
        simp flip: t)
qed

text \<open>The spec with a given identity and a given id.\<close>

definition spec_of :: "'a launch_identity_scheme \<Rightarrow> string \<Rightarrow> session_spec" where
  "spec_of i session_id = launch_identity.extend (launch_identity.truncate i) (session_spec.fields session_id)"

lemma spec_of_simps [simp]:
  "ss_session_id (spec_of i x) = x" "launch_identity.truncate (spec_of i x) = launch_identity.truncate i"
  by (simp_all add: spec_of_def launch_identity.defs session_spec.defs)

lemma spec_of_eq: "launch_identity.truncate s = launch_identity.truncate i \<Longrightarrow> spec_of i (ss_session_id s) = s"
  by (cases s) (auto simp: spec_of_def launch_identity.defs session_spec.defs)

lemma truncate_simps [simp]:
  "identity_kwargs (launch_identity.truncate i) = identity_kwargs i"
  "identity_ok (launch_identity.truncate i) = identity_ok i"
  "launch_identity.truncate (launch_identity.truncate i) = launch_identity.truncate i"
  by (simp_all add: identity_ok_def identity_kwargs_def launch_identity.truncate_def)

lemma session_spec_init_Inr:
  "session_spec_init v (identity_kwargs i) = Inr s \<longleftrightarrow>
   identity_ok i \<and> (\<exists>x. v = PStr x \<and> is_IDENTIFIER x \<and> s = spec_of i x)"
  by (auto simp: session_spec_init_def rbind_Inr_iff md_identifier_Inr check_identity_kwargs spec_of_def)

lemma pad4_length: "n \<le> 9999 \<Longrightarrow> length (pad4 n) = 4"
proof -
  have "length (nat_digits n) \<le> Suc k" if "n < 10 ^ Suc k" for n k
    using that
  proof (induction k arbitrary: n)
    case 0
    then show ?case by (subst nat_digits.simps) simp
  next
    case (Suc k)
    then have "length (nat_digits (n div 10)) \<le> Suc k" by (simp add: less_mult_imp_div_less)
    then show ?case by (subst nat_digits.simps) simp
  qed
  from this [of n 3] show "n \<le> 9999 \<Longrightarrow> length (pad4 n) = 4" by (simp add: pad4_def)
qed

fun digits_value :: "nat \<Rightarrow> string \<Rightarrow> nat" where
  "digits_value a [] = a"
| "digits_value a (c # s) = digits_value (a * 10 + (cc c - 48)) s"

lemma digits_value_append: "digits_value a (s @ t) = digits_value (digits_value a s) t"
  by (induction s arbitrary: a) simp_all

lemma digits_value_nat_digits: "digits_value 0 (nat_digits n) = n"
proof (induction n rule: nat_digits.induct)
  case (1 n)
  show ?case
  proof (cases "n < 10")
    case False
    with 1 show ?thesis by (subst nat_digits.simps) (simp add: digits_value_append cc_char_of)
  qed (subst nat_digits.simps, simp add: cc_char_of)
qed

lemma digits_value_zeros: "digits_value 0 (replicate k (CHR ''0'')) = 0"
  by (induction k) (simp_all add: cc_def)

lemma pad4_inj: "inj pad4"
  by (rule inj_on_inverseI [where g = "digits_value 0"])
    (simp add: pad4_def digits_value_append digits_value_zeros digits_value_nat_digits)

lemma generated_id_inj: "generated_id c m = generated_id c n \<longleftrightarrow> m = n"
  using inj_eq [OF pad4_inj] by (simp add: generated_id_def)

lemma generated_id_identifier:
  assumes "is_IDENTIFIER c" "n \<le> MAXIMUM_SESSIONS"
  shows "is_IDENTIFIER (generated_id c n) \<longleftrightarrow> length c \<le> 115"
proof -
  have "list_all is_ident_tail (pad4 n)"
    using nat_digits_is_digit [of n]
    by (auto simp: pad4_def list_all_iff is_ident_tail_def is_digit_def cc_def)
  moreover have "list_all is_ident_tail ''-session-''"
    by (simp add: is_ident_tail_def is_lower_def cc_def)
  moreover have "length (pad4 n) = 4"
    using assms(2) by (simp add: pad4_length MAXIMUM_SESSIONS_def)
  ultimately show ?thesis
    using assms(1) by (cases c) (auto simp: is_IDENTIFIER_def generated_id_def)
qed

lemma generated_sessions:
  assumes "identity_ok i" "1 \<le> n" "n \<le> MAXIMUM_SESSIONS"
  shows "rmap (\<lambda>k. session_spec_init (PStr (generated_id (li_cohort_id i) k)) (identity_kwargs i)) [1..<Suc n] =
      Inr ss \<longleftrightarrow> length (li_cohort_id i) \<le> 115 \<and>
      ss = map (\<lambda>k. spec_of i (generated_id (li_cohort_id i) k)) [1..<Suc n]"
proof -
  let ?f = "\<lambda>k. session_spec_init (PStr (generated_id (li_cohort_id i) k)) (identity_kwargs i)"
  have c: "is_IDENTIFIER (li_cohort_id i)" using assms(1) by (simp add: identity_ok_def)
  have f: "?f k = Inr s \<longleftrightarrow> length (li_cohort_id i) \<le> 115 \<and> s = spec_of i (generated_id (li_cohort_id i) k)"
    if "k \<le> n" for k s
    using generated_id_identifier [OF c, of k] that assms(1,3) by (auto simp: session_spec_init_Inr)
  show ?thesis
  proof (cases "length (li_cohort_id i) \<le> 115")
    case True
    then have "rmap ?f [1..<Suc n] = Inr (map (\<lambda>k. spec_of i (generated_id (li_cohort_id i) k)) [1..<Suc n])"
      by (intro rmap_all_Inr) (auto simp: f simp del: upt_Suc)
    with True show ?thesis by auto
  next
    case False
    have "[1..<Suc n] = 1 # [Suc 1..<Suc n]" using assms(2) by (simp add: upt_conv_Cons del: upt_Suc)
    moreover have "\<nexists>s. ?f 1 = Inr s" using f [of 1] False assms(2) by simp
    ultimately show ?thesis using False by (auto simp: rbind_Inr_iff simp del: upt_Suc)
  qed
qed

text \<open>
  When a plan is generated, and what it is. The suffix takes thirteen characters of the 128 an
  identifier may have, so that a longer cohort id, although it is an identifier, has no plan.
\<close>

lemma generate_Inr:
  "generate kw count_value concurrency = Inr p \<longleftrightarrow>
   (\<exists>identity n. check_identity kw = Inr identity \<and> count_value = PInt (int n) \<and>
      1 \<le> n \<and> n \<le> MAXIMUM_SESSIONS \<and> length (li_cohort_id identity) \<le> 115 \<and>
      concurrency = PInt (cp_concurrency p) \<and> 1 \<le> cp_concurrency p \<and> cp_concurrency p \<le> int n \<and>
      launch_identity.truncate p = identity \<and>
      cp_sessions p = map (\<lambda>k. spec_of identity (generated_id (li_cohort_id identity) k)) [1..<Suc n])"
proof -
  have plan: "cohort_plan_init (identity_kwargs i) (PInt c)
        (map (\<lambda>k. spec_of i (generated_id (li_cohort_id i) k)) [1..<Suc n]) = Inr p \<longleftrightarrow>
      cp_concurrency p = c \<and> launch_identity.truncate p = i \<and>
      cp_sessions p = map (\<lambda>k. spec_of i (generated_id (li_cohort_id i) k)) [1..<Suc n]"
    if "check_identity kw = Inr i" "1 \<le> n" "n \<le> MAXIMUM_SESSIONS" "1 \<le> c" "c \<le> int n" for i :: launch_identity and n c
  proof -
    have i: "identity_ok i" using that(1) by (simp add: check_identity_Inr)
    have "(\<forall>(k, v) \<in> set (identity_kwargs p). dget k (identity_kwargs i) = v) \<longleftrightarrow> launch_identity.truncate p = i"
      by (cases i) (auto simp: identity_kwargs_def launch_identity.truncate_def)
    moreover have "distinct (map (\<lambda>k. generated_id c k) ks) \<longleftrightarrow> distinct ks" for c ks
      by (simp add: distinct_map inj_on_def generated_id_inj)
    moreover have "identity_ok p" if "launch_identity.truncate p = i" using i that truncate_simps(2) by metis
    moreover have "launch_identity.truncate i = i" by (cases i) (simp add: launch_identity.truncate_def)
    ultimately show ?thesis
      using that unfolding cohort_plan_init_Inr plan_ok_def plan_count_def
      by (auto simp: comp_def simp del: upt_Suc)
  qed
  let ?ss = "\<lambda>i n. map (\<lambda>k. spec_of i (generated_id (li_cohort_id i) k)) [1..<Suc n]"
  have run: "generate kw (PInt (int n)) (PInt c) = Inr p \<longleftrightarrow>
      (\<exists>i. check_identity kw = Inr i \<and> 1 \<le> n \<and> n \<le> MAXIMUM_SESSIONS \<and> 1 \<le> c \<and> c \<le> int n \<and>
         length (li_cohort_id i) \<le> 115 \<and> cohort_plan_init (identity_kwargs i) (PInt c) (?ss i n) = Inr p)"
    for n c
  proof (cases "check_identity kw")
    case (Inr i)
    then have "identity_ok i" by (simp add: check_identity_Inr)
    with Inr show ?thesis
      by (auto simp: generate_def rbind_Inr_iff if_Inr_iff not_less generated_sessions
          simp del: upt_Suc One_nat_def)
  qed (simp add: generate_def)
  have shape: "\<exists>n c. count_value = PInt (int n) \<and> concurrency = PInt c" if "generate kw count_value concurrency = Inr p"
  proof -
    from that obtain m c where mc: "count_value = PInt m" "concurrency = PInt c" "\<not> m < 1"
      by (cases count_value; cases concurrency)
        (auto simp: generate_def rbind_Inr_iff if_Inr_iff simp del: upt_Suc)
    then have "m = int (nat m)" by simp
    with mc show ?thesis by metis
  qed
  show ?thesis (is "?L \<longleftrightarrow> ?R")
  proof
    assume ?L
    with shape obtain n c where nc: "count_value = PInt (int n)" "concurrency = PInt c" by blast
    with \<open>?L\<close> run plan show ?R by metis
  next
    assume ?R
    with run plan show ?L by metis
  qed
qed
text \<open>The manifest carries the whole plan, and a manifest that is read is the manifest of its plan.\<close>

lemma spec_from_manifest_Inr:
  "spec_from_manifest d (identity_kwargs i) = Inr s \<longleftrightarrow>
   set (keys d) = {''session_id''} \<and> identity_ok i \<and>
   (\<exists>x. dget ''session_id'' d = PStr x \<and> is_IDENTIFIER x \<and> s = spec_of i x)"
  by (auto simp: spec_from_manifest_def rbind_Inr_iff if_Inr_iff md_identifier_Inr session_spec_init_Inr)

lemma generated_ids_ok: "plan_ok p \<Longrightarrow> s \<in> set (cp_sessions p) \<Longrightarrow> spec_of p (ss_session_id s) = s"
  by (simp add: plan_ok_def spec_of_eq)

lemma plan_roundtrip:
  assumes "plan_ok p" "\<forall>s \<in> set (cp_sessions p). spec_ok s"
  shows "plan_from_manifest (plan_to_manifest p) = Inr p"
proof -
  let ?i = "launch_identity.truncate p"
  have get: "dget k (plan_to_manifest p) = dget k (identity_kwargs p)" if "k \<in> set (keys (identity_kwargs p))" for k
    using that by (auto simp: plan_to_manifest_def identity_kwargs_def keys_def)
  have i: "check_identity (plan_to_manifest p) = Inr ?i"
    using assms(1) by (simp add: check_identity_Inr plan_ok_def)
      (auto simp: identity_kwargs_def plan_to_manifest_def)
  have s: "rmap (manifest_session ?i) (map spec_to_manifest (cp_sessions p)) =
      Inr (cp_sessions p)"
    unfolding rmap_map
  proof (rule trans [OF rmap_all_Inr [where g = id]])
    fix s assume "s \<in> set (cp_sessions p)"
    with assms show "(manifest_session ?i \<circ> spec_to_manifest) s = Inr (id s)"
      by (auto simp: manifest_session_def spec_to_manifest_def spec_from_manifest_Inr plan_ok_def spec_ok_def spec_of_eq keys_def)
  qed simp
  have "cohort_plan_init (identity_kwargs ?i) (PInt (cp_concurrency p)) (cp_sessions p) = Inr p"
    using assms(1) by (simp add: cohort_plan_init_Inr) (simp add: identity_kwargs_def)
  moreover have "dget ''sessions'' (plan_to_manifest p) = PList (map spec_to_manifest (cp_sessions p))"
    "dget ''concurrency'' (plan_to_manifest p) = PInt (cp_concurrency p)"
    "dget ''schema'' (plan_to_manifest p) = PStr COHORT_SCHEMA"
    "set (keys (plan_to_manifest p)) = set COHORT_FIELDS"
    by (auto simp: plan_to_manifest_def identity_kwargs_def COHORT_FIELDS_def keys_def)
  ultimately show ?thesis
    using i s assms(1) by (auto simp: plan_from_manifest_def plan_ok_def plan_count_def)
qed

lemma single_key: "distinct (keys d) \<Longrightarrow> set (keys d) = {k} \<Longrightarrow> d = [(k, dget k d)]"
proof -
  assume d: "distinct (keys d)" "set (keys d) = {k}"
  then have "length d = 1" by (metis distinct_card card.empty card.insert empty_iff finite.emptyI keys_def length_map One_nat_def)
  then obtain e where "d = [e]" by (auto simp: length_Suc_conv)
  with d(2) show ?thesis by (cases e) (simp add: keys_def)
qed

lemma cohort_plan_init_ok: "cohort_plan_init kw c ss = Inr p \<Longrightarrow> plan_ok p \<and> cp_sessions p = ss"
  by (simp add: cohort_plan_init_Inr)

lemma plan_from_manifest_sound:
  assumes "plan_from_manifest d = Inr p" "json_wf (\<lambda>_. True) (PDict d)"
  shows "plan_ok p \<and> (\<forall>s \<in> set (cp_sessions p). spec_ok s) \<and>
    sort_json (PDict (plan_to_manifest p)) = sort_json (PDict d)"
proof -
  from assms(1) obtain i raw ss where k: "set (keys d) = set COHORT_FIELDS" "dget ''schema'' d = PStr COHORT_SCHEMA"
    and i: "check_identity d = Inr i" and raw: "dget ''sessions'' d = PList raw"
    and ss: "rmap (manifest_session i) raw = Inr ss"
    and p: "cohort_plan_init (identity_kwargs i) (dget ''concurrency'' d) ss = Inr p"
    by (cases "dget ''sessions'' d"; cases "dget ''concurrency'' d")
      (auto simp: plan_from_manifest_def rbind_Inr_iff if_Inr_iff)
  from p have pok: "plan_ok p" "dget ''concurrency'' d = PInt (cp_concurrency p)" "cp_sessions p = ss"
    and pk: "identity_kwargs p = identity_kwargs i"
    by (auto simp: cohort_plan_init_Inr) (auto simp: identity_kwargs_def)
  have each: "raw ! n = spec_to_manifest (ss ! n) \<and> spec_ok (ss ! n)" if "n < length ss" for n
  proof -
    from ss that have n: "manifest_session i (raw ! n) = Inr (ss ! n)" "n < length raw"
      by (auto simp: rmap_Inr_iff list_all2_conv_all_nth)
    then obtain e where e: "raw ! n = PDict e" "spec_from_manifest e (identity_kwargs i) = Inr (ss ! n)"
      "n < length raw"
      by (cases "raw ! n") (auto simp: manifest_session_def)
    have "json_wf (\<lambda>_. True) (PList raw)"
      using json_wf_dget [OF assms(2), of "''sessions''"] raw by simp
    then have "json_wf (\<lambda>_. True) (PDict e)"
      using e(1,3) by (metis json_wf.simps json_wf_list_iff nth_mem)
    then have d: "distinct (keys e)" by simp
    from e(2) obtain x where x: "set (keys e) = {''session_id''}" "identity_ok i"
      "dget ''session_id'' e = PStr x" "is_IDENTIFIER x" "ss ! n = spec_of i x"
      by (auto simp: spec_from_manifest_Inr)
    have "raw ! n = spec_to_manifest (ss ! n)"
      using single_key [OF d x(1)] x(3,5) e(1) by (simp add: spec_to_manifest_def)
    moreover have "identity_ok (spec_of i x)"
      using truncate_simps(2) [of "spec_of i x"] x(2) by simp
    ultimately show ?thesis using x(4,5) by (simp add: spec_ok_def)
  qed
  have len: "length raw = length ss" using rmap_Inr_length [OF ss] by simp
  with each have "raw = map spec_to_manifest ss" by (simp add: nth_equalityI)
  then have sessions: "dget ''sessions'' d = dget ''sessions'' (plan_to_manifest p)"
    using raw pok(3) by (simp add: plan_to_manifest_def identity_kwargs_def)
  have kw: "dget k d = dget k (identity_kwargs p)" if "k \<in> set (keys (identity_kwargs p))" for k
  proof -
    have "\<forall>(k, v) \<in> set (identity_kwargs p). dget k d = v"
      using i unfolding pk check_identity_Inr by (rule conjunct2)
    with that show ?thesis by (auto simp: identity_kwargs_def keys_def)
  qed
  have "sort_json (PDict (plan_to_manifest p)) = sort_json (PDict d)"
  proof (rule sym, rule sort_json_dict_eq)
    show "distinct (keys d)" using assms(2) by simp
    show "distinct (keys (plan_to_manifest p))"
      by (simp add: plan_to_manifest_def identity_kwargs_def keys_def)
    show "set (keys d) = set (keys (plan_to_manifest p))"
      unfolding k(1) by (auto simp: plan_to_manifest_def identity_kwargs_def keys_def COHORT_FIELDS_def)
    fix k' assume "k' \<in> set (keys (plan_to_manifest p))"
    then have "dget k' d = dget k' (plan_to_manifest p)"
      using kw k(2) pok(2) sessions
      by (auto simp: plan_to_manifest_def identity_kwargs_def keys_def)
    then show "sort_json (dget k' d) = sort_json (dget k' (plan_to_manifest p))" by simp
  qed
  with pok(1,3) each show ?thesis by (auto simp: in_set_conv_nth)
qed

section \<open>Binding: correctness\<close>

lemma is_IDENTIFIER_ID: "is_IDENTIFIER = is_ID"
  by (simp add: is_IDENTIFIER_def is_ID_def)

text \<open>The content of a record, without its identity.\<close>

definition record_content :: "research_record \<Rightarrow> research_contribution" where
  "record_content r =
     \<lparr>co_kind = re_kind r, co_problem_ids = re_problem_ids r, co_parent_refs = re_parent_refs r,
      co_title = re_title r, co_body = re_body r, co_artifact_refs = re_artifact_refs r,
      co_payload_bytes = re_payload_bytes r\<rparr>"

definition bound_to :: "session_spec \<Rightarrow> research_record \<Rightarrow> bool" where
  "bound_to spec r \<longleftrightarrow> re_world_id r = li_world_id spec \<and> re_cohort_id r = li_cohort_id spec \<and>
     re_session_id r = ss_session_id spec \<and> re_base_snapshot_ref r = li_base_snapshot_ref spec"

definition record_fits :: "research_record \<Rightarrow> bool" where
  "record_fits r \<longleftrightarrow> (\<exists>raw. record_to_bytes r = Inr raw \<and> length raw \<le> MAXIMUM_RECORD_BYTES)"

text \<open>The only record that binding can give.\<close>

lemma bind_record_Inr:
  assumes "contribution_ok c" "spec_ok spec"
  shows "bind_record c spec = Inr r \<longleftrightarrow> record_content r = c \<and> bound_to spec r \<and> record_fits r"
proof -
  from assms(1) obtain p where p: "\<And>what. decode_payload what (co_payload_bytes c) = Inr p"
    "validate_payload (PDict p) = Inr (co_payload_bytes c)"
    by (auto simp: contribution_ok_def elim: payload_bytes_okE)
  have s: "py_text ''title'' MAXIMUM_TITLE_BYTES False (PStr (co_title c)) = Inr (co_title c)"
    "py_text ''body'' MAXIMUM_BODY_BYTES False (PStr (co_body c)) = Inr (co_body c)"
    "check_payload (PDict p) = Inr (co_payload_bytes c)"
    "check_kind (PStr (co_kind c)) = Inr (co_kind c)"
    "check_problem_ids (texts (co_problem_ids c)) = Inr (co_problem_ids c)"
    "check_parent_refs (texts (co_parent_refs c)) = Inr (co_parent_refs c)"
    "check_artifact_refs (texts (co_artifact_refs c)) = Inr (co_artifact_refs c)"
    using assms(1) p(2)
    by (simp_all add: py_text_Inr check_payload_Inr check_kind_Inr check_refs_sorted contribution_ok_def text_ok_def)
  have content: "record_content r = c \<longleftrightarrow> co_kind c = re_kind r \<and> co_problem_ids c = re_problem_ids r \<and>
      co_parent_refs c = re_parent_refs r \<and> co_artifact_refs c = re_artifact_refs r \<and>
      co_title c = re_title r \<and> co_body c = re_body r \<and> co_payload_bytes c = re_payload_bytes r"
    by (cases c) (auto simp: record_content_def)
  have "is_ID (li_world_id spec)" "is_ID (li_cohort_id spec)" "is_ID (ss_session_id spec)"
    "is_SNAPSHOT_REF (li_base_snapshot_ref spec)"
    using assms(2) by (simp_all add: spec_ok_def identity_ok_def is_IDENTIFIER_ID)
  then show ?thesis
    unfolding content bound_to_def record_fits_def
    by (simp add: bind_record_def co_payload_def p(1) init_record_Inr s py_identifier_Inr py_reference_Inr) auto
qed

end
