(* ===== verification/Examples.thy ===== *)
theory Examples
  imports Session_Model
begin

text \<open>
  Concrete objects of the platform, on which the witnesses of the properties are evaluated: a
  session, a plan, a contribution, a record and small worlds with a task and its claims.
\<close>

section \<open>Sessions, contributions and records\<close>

definition sample_ref :: "char \<Rightarrow> string" where
  "sample_ref c = ''admission/sha256/'' @ replicate 64 c"

definition sample_identity :: "(string \<times> pyval) list" where
  "sample_identity =
     [(''cohort_id'', PStr ''cohort''), (''world_id'', PStr ''w''), (''world_ref'', PStr ''refs/pmw/w''),
      (''base_snapshot_ref'', PStr (''snapshot/sha256/'' @ replicate 64 (CHR ''0''))),
      (''safety_profile'', PStr ''safe''), (''safety_profile_sha256'', PStr (replicate 64 (CHR ''1''))),
      (''core_lock_sha256'', PStr (replicate 64 (CHR ''2''))),
      (''briefing_sha256'', PStr (replicate 64 (CHR ''3'')))]"

definition sample_spec :: "string \<Rightarrow> session_spec" where
  "sample_spec session_id = \<lparr>li_cohort_id = ''cohort'', li_world_id = ''w'', li_world_ref = ''refs/pmw/w'',
     li_base_snapshot_ref = ''snapshot/sha256/'' @ replicate 64 (CHR ''0''), li_safety_profile = ''safe'',
     li_safety_profile_sha256 = replicate 64 (CHR ''1''), li_core_lock_sha256 = replicate 64 (CHR ''2''),
     li_briefing_sha256 = replicate 64 (CHR ''3''), ss_session_id = session_id\<rparr>"

definition sample_plan :: cohort_plan where
  "sample_plan = launch_identity.extend (launch_identity.truncate (sample_spec ''a''))
     (cohort_plan.fields 1 [sample_spec ''a'', sample_spec ''b''])"

definition sample_payload :: pyval where
  "sample_payload = PDict [(''x'', PList [PInt 1, PNone]), (''a'', PStr ''t'')]"

definition sample_contribution :: research_contribution where
  "sample_contribution = \<lparr>co_kind = ''NOTE'', co_problem_ids = [''p1''], co_parent_refs = [],
     co_title = ''title'', co_body = ''body'', co_artifact_refs = [],
     co_payload_bytes = concat [''{'', [CHR 0x22], ''a'', [CHR 0x22], '':'', [CHR 0x22], ''t'', [CHR 0x22],
       '','', [CHR 0x22], ''x'', [CHR 0x22], '':[1,null]}'']\<rparr>"

definition sample_record :: research_record where
  "sample_record = \<lparr>re_world_id = ''w'', re_cohort_id = ''cohort'', re_session_id = ''a'',
     re_base_snapshot_ref = ''snapshot/sha256/'' @ replicate 64 (CHR ''0''), re_kind = ''NOTE'',
     re_problem_ids = [''p1''], re_parent_refs = [], re_title = ''title'', re_body = ''body'',
     re_artifact_refs = [], re_payload_bytes = co_payload_bytes sample_contribution\<rparr>"

definition sample_record_value :: pyval where
  "sample_record_value = (case record_to_value sample_record of Inr v \<Rightarrow> v | Inl _ \<Rightarrow> PNone)"

lemma sample_contribution_init:
  "research_contribution_init (PStr ''NOTE'') (PStr ''title'') (PStr ''body'') (texts [''p1'']) (texts [])
     (texts []) sample_payload = Inr sample_contribution"
  by code_simp

lemma sample_payload_wf: "json_wf (\<lambda>_. True) sample_payload"
  by code_simp

lemma sample_contribution_ok: "contribution_ok sample_contribution"
  by (rule init_contribution_ok [OF sample_contribution_init sample_payload_wf])

lemma sample_record_init:
  "research_record_init (PStr ''w'') (PStr ''cohort'') (PStr ''a'')
     (PStr (''snapshot/sha256/'' @ replicate 64 (CHR ''0''))) (PStr ''NOTE'') (PStr ''title'') (PStr ''body'')
     (texts [''p1'']) (texts []) (texts []) sample_payload = Inr sample_record"
  by code_simp

lemma sample_record_ok: "record_ok sample_record"
  by (rule init_record_ok [OF sample_record_init sample_payload_wf])

lemma sample_spec_ok: "spec_ok (sample_spec ''a'')" "spec_ok (sample_spec ''b'')"
  by code_simp+

lemma sample_plan_ok: "plan_ok sample_plan" "\<forall>s \<in> set (cp_sessions sample_plan). spec_ok s"
  by code_simp+

section \<open>A small agenda\<close>

text \<open>
  Session \<open>a\<close> admitted the task \<open>T\<close>, session \<open>b\<close> claimed it for ten ticks; in the later
  worlds \<open>b\<close> completed it, or \<open>a\<close> released it in vain.
\<close>

definition payload_text :: "pyval \<Rightarrow> string" where
  "payload_text v = (case canonical_json v of Inr raw \<Rightarrow> raw | Inl _ \<Rightarrow> [])"

definition sample_entry :: "string \<Rightarrow> string \<Rightarrow> string \<Rightarrow> string list \<Rightarrow> pyval \<Rightarrow> int \<Rightarrow> agenda_entry" where
  "sample_entry ref session_id kind parents payload tick =
     \<lparr>en_admission_ref = ref, en_session_id = Some session_id, en_kind = Some kind,
      en_parent_refs = parents, en_problem_ids = [], en_artifact_refs = [],
      en_observed_at_tick = Some tick, en_malformed = False, en_payload_bytes = Some (payload_text payload)\<rparr>"

definition world_of :: "int \<Rightarrow> agenda_entry list \<Rightarrow> agenda_snapshot" where
  "world_of now entries = \<lparr>as_entries = entries, as_now_tick = Some now,
     as_index = map (\<lambda>e. (en_admission_ref e, e)) entries\<rparr>"

definition sample_roles :: agenda_roles where
  "sample_roles = \<lparr>ro_coordinator_session_ids = [''a''], ro_admitting_session_ids = [''a'', ''b'']\<rparr>"

definition ref_task :: string where "ref_task = sample_ref (CHR ''1'')"
definition ref_claim :: string where "ref_claim = sample_ref (CHR ''2'')"
definition ref_outcome :: string where "ref_outcome = sample_ref (CHR ''3'')"
definition ref_split :: string where "ref_split = sample_ref (CHR ''4'')"
definition ref_directive :: string where "ref_directive = sample_ref (CHR ''5'')"
definition ref_objection :: string where "ref_objection = sample_ref (CHR ''6'')"
definition ref_second :: string where "ref_second = sample_ref (CHR ''7'')"

definition sample_task :: task_admission where
  "sample_task = \<lparr>ta_statement = ''lemma'', ta_dependency_task_refs = [],
     ta_completion_contract = \<lparr>cc_contract_kind = ''DECLARED_STATEMENT'', cc_target_id = None, cc_detail = ''d''\<rparr>,
     ta_proposal_ref = None\<rparr>"

definition sample_claim :: task_claim where
  "sample_claim = \<lparr>tc_task_ref = ref_task, tc_lease_ticks = 10\<rparr>"

definition sample_release :: task_release where
  "sample_release = \<lparr>tr_task_ref = ref_task, tr_claim_ref = ref_claim\<rparr>"

definition sample_outcome :: task_outcome where
  "sample_outcome = \<lparr>to_task_ref = ref_task, to_claim_ref = ref_claim, to_disposition = ''COMPLETED'',
     to_completion_evidence = Some \<lparr>ce_contract_kind = ''DECLARED_STATEMENT'', ce_detail = ''done''\<rparr>\<rparr>"

definition sample_directive :: directive where
  "sample_directive = \<lparr>di_directive_id = ''d1'', di_instruction = ''go'', di_supersedes_refs = []\<rparr>"

definition sample_split :: decomposition where
  "sample_split = \<lparr>dc_target_ref = ref_task, dc_sublemmas =
     [\<lparr>sl_statement = ''lemma'', sl_admission_ref = ref_task\<rparr>,
      \<lparr>sl_statement = ''lemma'', sl_admission_ref = ref_second\<rparr>]\<rparr>"

definition entry_task :: agenda_entry where
  "entry_task = sample_entry ref_task ''a'' ''CHECKPOINT'' [] (task_admission_to_value sample_task) 1"

definition entry_claim :: agenda_entry where
  "entry_claim = sample_entry ref_claim ''b'' ''NOTE'' [] (task_claim_to_value sample_claim) 2"

definition entry_outcome :: agenda_entry where
  "entry_outcome = sample_entry ref_outcome ''b'' ''RESULT'' [] (task_outcome_to_value sample_outcome) 3"

definition entry_split :: agenda_entry where
  "entry_split = sample_entry ref_split ''b'' ''RESULT'' [] (decomposition_to_value sample_split) 3"

definition entry_directive :: agenda_entry where
  "entry_directive = sample_entry ref_directive ''a'' ''CHECKPOINT'' [] (directive_to_value sample_directive) 3"

definition entry_objection :: agenda_entry where
  "entry_objection = sample_entry ref_objection ''c'' ''OBJECTION'' [ref_split] (PDict []) 5"

definition entry_second :: agenda_entry where
  "entry_second = sample_entry ref_second ''a'' ''CHECKPOINT'' [] (task_admission_to_value sample_task) 4"

definition open_world :: agenda_snapshot where
  "open_world = world_of 1 [entry_task]"

definition claimed_world :: agenda_snapshot where
  "claimed_world = world_of 2 [entry_task, entry_claim]"

definition completed_world :: agenda_snapshot where
  "completed_world = world_of 3 [entry_task, entry_claim, entry_outcome]"

definition split_world :: agenda_snapshot where
  "split_world = world_of 4 [entry_task, entry_split, entry_directive, entry_second]"

definition objected_world :: agenda_snapshot where
  "objected_world = world_of 5 [entry_task, entry_split, entry_directive, entry_objection, entry_second]"

definition sample_candidate :: "string \<Rightarrow> pyval \<Rightarrow> candidate" where
  "sample_candidate kind payload = Contribution (sample_contribution
     \<lparr>co_kind := kind, co_payload_bytes := payload_text payload\<rparr>)"

definition sample_rows :: "(pyval \<times> pyval) list" where
  "sample_rows = [(PStr ref_claim, sample_record_value), (PStr ref_task, PInt 3)]"

lemma worlds_ok: "snapshot_ok open_world" "snapshot_ok claimed_world" "snapshot_ok completed_world"
  "snapshot_ok split_world" "snapshot_ok objected_world"
  by code_simp+

end
