(* ===== verification/World_Properties.thy ===== *)
theory World_Properties
  imports Examples
begin

text \<open>
  The properties of the world layer: canonical JSON and its decoders, the bounded payload, records
  and contributions, sessions and cohort plans. Each is followed by a concrete instance where it has
  hypotheses.
\<close>

section \<open>Canonical JSON\<close>

text \<open>\<open>json.loads\<close> never fails for lack of fuel: the model's bound of twice the length of the
  input finds a value exactly when some number of parser steps does, and then it is the same value.\<close>

theorem json_loads_decides:
  "json_loads h s = Some v \<longleftrightarrow> (\<exists>n r. parse_value h n (skip_ws s) = Some (v, r) \<and> skip_ws r = [])"
proof
  assume "json_loads h s = Some v"
  then show "\<exists>n r. parse_value h n (skip_ws s) = Some (v, r) \<and> skip_ws r = []"
    by (auto simp: json_loads_def simp del: parse_value.simps split: option.splits if_splits prod.splits)
next
  assume "\<exists>n r. parse_value h n (skip_ws s) = Some (v, r) \<and> skip_ws r = []"
  then obtain n r where n: "parse_value h n (skip_ws s) = Some (v, r)" "skip_ws r = []" by blast
  have "2 * length (skip_ws s) < Suc (2 * length s)" using skip_ws_length [of s] by simp
  from parse_enough(1) [OF n(1) this] n(2) show "json_loads h s = Some v"
    by (simp add: json_loads_def del: parse_value.simps)
qed

text \<open>C38: what \<open>canonical_json\<close> encodes, \<open>strict_json\<close> decodes to the same value with its keys sorted,
  for every value within the integer bound whose bytes are within the record bound.\<close>

theorem canonical_json_strict_roundtrip:
  assumes "canonical_json v = Inr raw" "length raw \<le> MAXIMUM_RECORD_BYTES"
    and "json_wf (\<lambda>i. - MAXIMUM_INTEGER \<le> i \<and> i \<le> MAXIMUM_INTEGER) v"
  shows "strict_json raw = Inr (sort_json v)"
  using assms by (rule strict_json_canonical)

lemma canonical_json_strict_roundtrip_witness:
  "strict_json (co_payload_bytes sample_contribution) = Inr (sort_json sample_payload)"
proof (rule canonical_json_strict_roundtrip)
  show "canonical_json sample_payload = Inr (co_payload_bytes sample_contribution)" by code_simp
  show "length (co_payload_bytes sample_contribution) \<le> MAXIMUM_RECORD_BYTES" by code_simp
  show "json_wf (\<lambda>i. - MAXIMUM_INTEGER \<le> i \<and> i \<le> MAXIMUM_INTEGER) sample_payload" by code_simp
qed

section \<open>Payloads\<close>

text \<open>the explicit-stack walk over a payload accepts exactly the payloads that a structural
  recursion accepts: depth, collection sizes, key and string lengths, the integer bound and the total
  node budget are all enforced, whatever the order of the visits.\<close>

theorem payload_walk_equivalent:
  "payload_loop MAXIMUM_PAYLOAD_NODES [(v, 0)] = Inr () \<longleftrightarrow>
   payload_fits 0 v \<and> payload_nodes v \<le> MAXIMUM_PAYLOAD_NODES"
  by (simp add: payload_loop_Inr)

section \<open>Contributions and records\<close>

section \<open>Cohort plans\<close>

text \<open>\<open>CohortPlan.generate\<close> succeeds exactly for valid identities, a count between 1 and 4096, a
  concurrency between 1 and the count, and a cohort id short enough for its session ids; the plan has
  one session per ordinal, in order, each with the identity of the cohort.\<close>

theorem generate_exactly:
  "generate kw count_value concurrency = Inr p \<longleftrightarrow>
   (\<exists>identity n. check_identity kw = Inr identity \<and> count_value = PInt (int n) \<and>
      1 \<le> n \<and> n \<le> MAXIMUM_SESSIONS \<and> length (li_cohort_id identity) \<le> 115 \<and>
      concurrency = PInt (cp_concurrency p) \<and> 1 \<le> cp_concurrency p \<and> cp_concurrency p \<le> int n \<and>
      launch_identity.truncate p = identity \<and>
      cp_sessions p = map (\<lambda>k. spec_of identity (generated_id (li_cohort_id identity) k)) [1..<Suc n])"
  by (rule generate_Inr)

end
