(* ===== verification/Agenda_Properties.thy ===== *)
theory Agenda_Properties
  imports Examples
begin

text \<open>
  The properties of the agenda treatments: payload codecs, snapshots, leases and tasks, directives,
  decompositions and routes, each with a concrete instance where it has hypotheses.
\<close>

section \<open>Payloads\<close>

text \<open>C37: each of the eight treatment payloads that satisfies its invariant survives the trip over its
  wire value.\<close>

theorem treatment_payload_roundtrips:
  "(task_proposal_ok a \<longrightarrow> task_proposal_parse (task_proposal_to_value a) = Inr a) \<and>
   (task_admission_ok b \<longrightarrow> task_admission_parse (task_admission_to_value b) = Inr b) \<and>
   (task_claim_ok c \<longrightarrow> task_claim_parse (task_claim_to_value c) = Inr c) \<and>
   (task_release_ok d \<longrightarrow> task_release_parse (task_release_to_value d) = Inr d) \<and>
   (task_outcome_ok e \<longrightarrow> task_outcome_parse (task_outcome_to_value e) = Inr e) \<and>
   (directive_ok f \<longrightarrow> directive_parse (directive_to_value f) = Inr f) \<and>
   (decomposition_ok g \<longrightarrow> decomposition_parse (decomposition_to_value g) = Inr g) \<and>
   (route_declaration_ok h \<longrightarrow> route_declaration_parse (route_declaration_to_value h) = Inr h)"
  by (intro conjI impI task_proposal_roundtrip task_admission_roundtrip task_claim_roundtrip
      task_release_roundtrip task_outcome_roundtrip directive_roundtrip decomposition_roundtrip
      route_declaration_roundtrip)

lemma treatment_payload_roundtrips_witness:
  "task_admission_parse (task_admission_to_value sample_task) = Inr sample_task \<and>
   task_claim_parse (task_claim_to_value sample_claim) = Inr sample_claim \<and>
   task_outcome_parse (task_outcome_to_value sample_outcome) = Inr sample_outcome \<and>
   decomposition_parse (decomposition_to_value sample_split) = Inr sample_split"
proof -
  have "task_admission_ok sample_task"
    by (rule task_admission.parse_ok [of "task_admission_to_value sample_task"]) code_simp
  moreover have "task_outcome_ok sample_outcome"
    by (rule task_outcome.parse_ok [of "task_outcome_to_value sample_outcome"]) code_simp
  moreover have "task_claim_ok sample_claim" "decomposition_ok sample_split" by code_simp+
  ultimately show ?thesis using treatment_payload_roundtrips [where b = sample_task and c = sample_claim and e = sample_outcome
      and g = sample_split] by blast
qed

section \<open>Snapshots\<close>

text \<open>the projection of a world does not depend on the order in which the world lists its
  admissions.\<close>

theorem build_order_independent:
  assumes "build entries now_tick observed = Inr s" "mset entries = mset entries'"
  shows "build entries' now_tick observed = Inr s"
  using assms by (rule build_mset)

lemma build_order_independent_witness:
  "build (rev sample_rows) (PInt 7) None = build sample_rows (PInt 7) None"
proof -
  have "case build sample_rows (PInt 7) None of Inr _ \<Rightarrow> True | Inl _ \<Rightarrow> False" by code_simp
  then obtain s where s: "build sample_rows (PInt 7) None = Inr s" by (auto split: sum.splits)
  have "mset sample_rows = mset (rev sample_rows)" by simp
  from build_order_independent [OF s this] s show ?thesis by simp
qed

text \<open>a built snapshot is sorted by admission ref without duplicates, its index is exact, and it
  holds precisely the admissions of the world, malformed and foreign ones included.\<close>

theorem build_well_formed:
  assumes "build entries now_tick observed = Inr s"
  shows "snapshot_ok s \<and> (snapshot_contains s ref \<longleftrightarrow> PStr ref \<in> fst ` set entries)"
  using build_ok [OF assms] build_contains_iff [OF assms] by blast

lemma build_well_formed_witness:
  "\<exists>s. build sample_rows (PInt 7) None = Inr s \<and> snapshot_ok s \<and> snapshot_contains s ref_task"
proof -
  have "case build sample_rows (PInt 7) None of Inr _ \<Rightarrow> True | Inl _ \<Rightarrow> False" by code_simp
  then obtain s where s: "build sample_rows (PInt 7) None = Inr s" by (auto split: sum.splits)
  from build_well_formed [OF this, of ref_task] have "snapshot_ok s \<and> snapshot_contains s ref_task"
    by (simp add: sample_rows_def)
  with s show ?thesis by blast
qed

section \<open>Leases and tasks\<close>

text \<open>a claim is accepted exactly when the candidate passes the gate, its task is admitted and not
  completed, every dependency of the task is completed, and no claim occupies the task.\<close>

theorem claim_acceptance:
  assumes "snapshot_ok s"
  shows "(\<exists>v. validate_task_claim s c roles = Inr v \<and> accepted v) \<longleftrightarrow>
    (\<exists>p. gate_accepts TASK_CLAIM_SCHEMA task_claim_parse c p \<and> claim_granted s roles p)"
  using assms by (rule claim_accepted_iff)

definition claim_candidate :: candidate where
  "claim_candidate = sample_candidate ''NOTE'' (task_claim_to_value sample_claim)"

lemma claim_acceptance_witness:
  "(\<exists>p. gate_accepts TASK_CLAIM_SCHEMA task_claim_parse claim_candidate p \<and> claim_granted open_world sample_roles p) \<and>
   (\<nexists>p. gate_accepts TASK_CLAIM_SCHEMA task_claim_parse claim_candidate p \<and> claim_granted claimed_world sample_roles p)"
proof -
  have "validate_task_claim open_world claim_candidate sample_roles = accept []"
    "\<exists>d. validate_task_claim claimed_world claim_candidate sample_roles = reject ''TASK_CLAIM_CONFLICT'' d"
    by (code_simp, rule exI [of _ ref_claim], code_simp)
  then show ?thesis
    using claim_acceptance [OF worlds_ok(1), of claim_candidate sample_roles]
      claim_acceptance [OF worlds_ok(2), of claim_candidate sample_roles] by auto
qed

lemma sample_is_claim:
  "is_claim claimed_world entry_claim sample_claim" "is_claim completed_world entry_claim sample_claim"
proof -
  have "claims claimed_world = [(entry_claim, sample_claim)]" "claims completed_world = [(entry_claim, sample_claim)]"
    by code_simp+
  then have "(entry_claim, sample_claim) \<in> set (claims claimed_world)"
    "(entry_claim, sample_claim) \<in> set (claims completed_world)"
    by simp_all
  then show "is_claim claimed_world entry_claim sample_claim" "is_claim completed_world entry_claim sample_claim"
    unfolding set_claims by simp_all
qed

text \<open>C18: a lease that has ended never comes back: once a claim is closed or expired, in no later world
  does it occupy its task, and a completed task stays completed.\<close>

theorem ended_lease_is_final:
  assumes "grows s s'" "is_claim s e p" "claim_state s (en_admission_ref e) \<notin> {LIVE, UNDECIDABLE}"
  shows "claim_state s' (en_admission_ref e) \<notin> {LIVE, UNDECIDABLE}"
proof -
  have ok: "snapshot_ok s" "snapshot_ok s'" using assms(1) by (simp_all add: grows_def)
  have "\<not> occupies s e p" using assms(2,3) occupies_iff_state [OF ok(1)] by blast
  moreover have "e \<in> set (as_entries s)" using assms(2) by (simp add: is_claim_def)
  ultimately have "\<not> occupies s' e p" using grows_occupies [OF assms(1)] by blast
  moreover have "is_claim s' e p" using grows_mono(1) [OF assms(1,2)] .
  ultimately show ?thesis using occupies_iff_state [OF ok(2)] by blast
qed

definition later_world :: agenda_snapshot where
  "later_world = world_of 4 [entry_task, entry_claim, entry_outcome, entry_second]"

lemma ended_lease_is_final_witness: "claim_state later_world ref_claim \<notin> {LIVE, UNDECIDABLE}"
proof -
  have "snapshot_ok later_world" by code_simp
  then have "grows completed_world later_world"
    using worlds_ok(3) by (simp add: grows_def completed_world_def later_world_def world_of_def)
  moreover have "claim_state completed_world (en_admission_ref entry_claim) = CLOSED" by code_simp
  ultimately have "claim_state later_world (en_admission_ref entry_claim) \<notin> {LIVE, UNDECIDABLE}"
    using ended_lease_is_final [OF _ sample_is_claim(2)] by simp
  then show ?thesis by (simp add: entry_claim_def sample_entry_def)
qed

text \<open>completion needs a chain of custody: a task is completed exactly when it is admitted and the
  session that holds a claim on it reported, on that claim and that task, a completed outcome.\<close>

theorem completion_custody:
  assumes "snapshot_ok s"
  shows "task_is_completed s t roles \<longleftrightarrow> (\<exists>p. is_task s roles t p) \<and>
    (\<exists>e p f q. is_claim s e p \<and> tc_task_ref p = t \<and> is_outcome s f q \<and> to_disposition q = ''COMPLETED'' \<and>
       to_task_ref q = t \<and> to_claim_ref q = en_admission_ref e \<and> en_session_id f = en_session_id e)"
  using assms by (rule completed_iff)

lemma completion_custody_witness:
  "(\<exists>e p. is_claim completed_world e p \<and> tc_task_ref p = ref_task) \<and> \<not> task_is_completed claimed_world ref_task sample_roles"
proof -
  have "task_is_completed completed_world ref_task sample_roles" "\<not> task_is_completed claimed_world ref_task sample_roles"
    by code_simp+
  with completion_custody [OF worlds_ok(3), of ref_task sample_roles] show ?thesis by blast
qed

text \<open>the audit of lease exclusivity accepts a world exactly when no task has two occupying claims,
  and it always answers.\<close>

theorem exclusivity_audit:
  assumes "snapshot_ok s"
  shows "(check_lease_exclusivity s roles = accept [] \<longleftrightarrow> exclusive s roles) \<and>
    (\<exists>v. check_lease_exclusivity s roles = Inr v)"
  using check_lease_exclusivity_iff [OF assms] by blast

lemma exclusivity_audit_witness: "exclusive claimed_world sample_roles"
proof -
  have "check_lease_exclusivity claimed_world sample_roles = accept []" by code_simp
  with exclusivity_audit [OF worlds_ok(2), of sample_roles] show ?thesis by simp
qed

text \<open>C17: mutual exclusion is kept by validated admissions: a world in which no task has two occupying
  claims stays so when one more record is admitted, whatever it is, provided a claim among them was
  accepted by \<open>validate_task_claim\<close> and no earlier claim names the new record as its task.\<close>

theorem accepted_claims_stay_exclusive:
  assumes "adds s f s'" "exclusive s roles"
    and "\<And>p. is_claim s' f p \<Longrightarrow> \<exists>c v. gate_accepts TASK_CLAIM_SCHEMA task_claim_parse c p \<and>
      validate_task_claim s c roles = Inr v \<and> accepted v"
    and "\<And>e p. is_claim s e p \<Longrightarrow> tc_task_ref p \<noteq> en_admission_ref f"
  shows "exclusive s' roles"
proof (rule exclusive_adds [OF assms(1,2) _ assms(4)])
  fix p assume "is_claim s' f p"
  from assms(3) [OF this] obtain c where c: "gate_accepts TASK_CLAIM_SCHEMA task_claim_parse c p"
    "\<exists>v. validate_task_claim s c roles = Inr v \<and> accepted v"
    by blast
  from assms(1) have "snapshot_ok s" by (simp add: adds_def grows_def)
  with c(2) obtain q where "gate_accepts TASK_CLAIM_SCHEMA task_claim_parse c q" "claim_granted s roles q"
    using claim_accepted_iff by blast
  with c(1) show "claim_granted s roles p" by (auto simp: gate_accepts_def)
qed

lemma accepted_claims_stay_exclusive_witness: "exclusive claimed_world sample_roles"
proof (rule accepted_claims_stay_exclusive)
  show "adds open_world entry_claim claimed_world"
    using worlds_ok(1,2)
    by (simp add: adds_def grows_def open_world_def claimed_world_def world_of_def insert_commute)
      (simp add: entry_claim_def entry_task_def sample_entry_def ref_claim_def ref_task_def sample_ref_def)
  have "check_lease_exclusivity open_world sample_roles = accept []" by code_simp
  then show "exclusive open_world sample_roles" using check_lease_exclusivity_iff(1) [OF worlds_ok(1)] by blast
  show "\<exists>c v. gate_accepts TASK_CLAIM_SCHEMA task_claim_parse c p \<and>
      validate_task_claim open_world c sample_roles = Inr v \<and> accepted v" if "is_claim claimed_world entry_claim p" for p
  proof -
    have p: "p = sample_claim"
      using is_claim_unique [OF worlds_ok(2) that sample_is_claim(1)] by simp
    have "validate_task_claim open_world claim_candidate sample_roles = accept []"
      "parse_candidate TASK_CLAIM_SCHEMA task_claim_parse claim_candidate = Inr (Inr sample_claim)"
      by code_simp+
    then show ?thesis unfolding p by (auto simp: parse_candidate_Inr_Inr)
  qed
  have "claims open_world = []" by code_simp
  then show "tc_task_ref p \<noteq> en_admission_ref entry_claim" if "is_claim open_world e p" for e p
    using that set_claims [of open_world] by auto
qed

definition release_candidate :: candidate where
  "release_candidate = sample_candidate ''NOTE'' (task_release_to_value sample_release)"

text \<open>C19: an outcome is accepted exactly when it rides the kind of its disposition, its author holds a
  live claim on the task and, for a completion, the evidence names the contract under which the task
  was admitted and an artifact is attached where that contract is backed by one.\<close>

theorem outcome_acceptance:
  assumes "snapshot_ok s"
  shows "(\<exists>v. validate_task_outcome s candidate roles author = Inr v \<and> accepted v) \<longleftrightarrow>
   (\<exists>c p. candidate = Contribution c \<and> gate_accepts TASK_OUTCOME_SCHEMA task_outcome_parse candidate p \<and>
      outcome_granted s roles author c p)"
  using assms by (rule outcome_accepted_iff)

definition outcome_candidate :: candidate where
  "outcome_candidate = sample_candidate ''RESULT'' (task_outcome_to_value sample_outcome)"

lemma outcome_acceptance_witness:
  "(\<exists>c p. outcome_granted claimed_world sample_roles (Some ''b'') c p) \<and>
   (\<nexists>v. validate_task_outcome completed_world outcome_candidate sample_roles (Some ''b'') = Inr v \<and> accepted v)"
proof -
  have "validate_task_outcome claimed_world outcome_candidate sample_roles (Some ''b'') = accept []"
    "validate_task_outcome completed_world outcome_candidate sample_roles (Some ''b'') =
      reject ''CLAIM_ALREADY_CLOSED'' ref_claim"
    by code_simp+
  with outcome_acceptance [OF worlds_ok(2), of outcome_candidate sample_roles "Some ''b''"] show ?thesis by auto
qed

section \<open>Directives\<close>

text \<open>coordination is never lost: when directives supersede only earlier ones, some directive is live
  whenever there is one.\<close>

theorem some_directive_is_live:
  assumes "snapshot_ok s" "is_directive s roles r p"
    and "\<And>r p r'. is_directive s roles r p \<Longrightarrow> r' \<in> set (di_supersedes_refs p) \<Longrightarrow> rank r' < (rank r :: nat)"
  shows "live_directive_refs s roles \<noteq> []"
  using assms by (rule live_exists)

lemma some_directive_is_live_witness: "live_directive_refs split_world sample_roles \<noteq> []"
proof -
  have d: "directives split_world sample_roles = [(ref_directive, sample_directive)]" by code_simp
  have m: "is_directive split_world sample_roles r p \<longleftrightarrow> map_of [(ref_directive, sample_directive)] r = Some p" for r p
    using map_of_directives [OF worlds_ok(4), of sample_roles r p] by (simp only: d)
  show ?thesis
    by (rule some_directive_is_live [where rank = "\<lambda>_. 0", OF worlds_ok(4)])
      (auto simp: m sample_directive_def split: if_splits)
qed

text \<open>C20: the citation rule: a record that is not a primary action, or that declares the directive
  schema, is exempt; any other is accepted exactly when its citations are well formed, name only valid
  directives, and name one that is live.\<close>

theorem citation_rule:
  assumes "snapshot_ok s" "contribution_ok c" "co_payload c = Inr d"
  shows "\<exists>v. validate_directive_citation s (Contribution c) roles = Inr v \<and>
    (accepted v \<longleftrightarrow> co_kind c \<notin> set PRIMARY_ACTION_KINDS \<or>
       payload_schema (PDict d) = Some DIRECTIVE_SCHEMA \<or>
       (\<exists>references. cited_directive_refs (PDict d) = Inr references \<and> citation_satisfied s roles references))"
  using assms by (rule citation_accepted_iff)

lemma citation_rule_witness:
  "\<exists>v. validate_directive_citation split_world (Contribution sample_contribution) sample_roles = Inr v \<and> accepted v"
proof -
  obtain d where d: "co_payload sample_contribution = Inr d"
    using contribution_payload_Inr [OF sample_contribution_ok] by blast
  have "co_kind sample_contribution \<notin> set PRIMARY_ACTION_KINDS" by code_simp
  with citation_rule [OF worlds_ok(4) sample_contribution_ok d, of sample_roles] show ?thesis by blast
qed

section \<open>Decompositions and routes\<close>

end
