(* ===== verification/Agenda_Arm.thy ===== *)
theory Agenda_Arm
  imports Session_Model
begin

text \<open>
  Agenda arms, \<open>experiments/agenda_arm.py\<close>: the configuration of one launch, its announcement, and
  the controller that reviews a candidate at publication, observes what was published, settles a
  session and reports its evidence. The controller is a state record; every method takes it and
  returns it updated. SHA-256 is a parameter. The \<open>_snapshot\<close> cache of the class is part of the state.
\<close>

section \<open>Vocabulary\<close>

definition AGENDA_ARM_LAUNCH_SCHEMA :: string where
  "AGENDA_ARM_LAUNCH_SCHEMA = ''PMW_AGENDA_ARM_LAUNCH_1''"

definition AGENDA_ARM_ANNOUNCEMENT_SCHEMA :: string where
  "AGENDA_ARM_ANNOUNCEMENT_SCHEMA = ''PMW_AGENDA_ARM_1''"

definition AGENDA_ARM_EVIDENCE_SCHEMA :: string where
  "AGENDA_ARM_EVIDENCE_SCHEMA = ''PMW_AGENDA_ARM_SESSION_EVIDENCE_1''"

definition ARM_MODE_ENFORCED :: string where
  "ARM_MODE_ENFORCED = ''ENFORCED''"

definition ARM_MODE_NOT_CONFIGURED :: string where
  "ARM_MODE_NOT_CONFIGURED = ''NOT_CONFIGURED''"

definition OUT_OF_ARM_INSTRUMENT :: string where
  "OUT_OF_ARM_INSTRUMENT = ''OUT_OF_ARM_INSTRUMENT''"

definition ARM_VERDICT_CODES :: "string list" where
  "ARM_VERDICT_CODES = OUT_OF_ARM_INSTRUMENT # VERDICT_CODES"

definition ADVISORY :: string where "ADVISORY = ''advisory''"
definition BINDING :: string where "BINDING = ''binding''"
definition DIRECTIVE :: string where "DIRECTIVE = ''directive''"

definition INSTRUMENTS :: "string list" where
  "INSTRUMENTS = [ADVISORY, BINDING, DIRECTIVE]"

definition ARM_INSTRUMENTS :: "(string \<times> string list) list" where
  "ARM_INSTRUMENTS =
     [(''P'', [ADVISORY]), (''D'', [BINDING]), (''A'', [ADVISORY, BINDING]), (''C'', [ADVISORY, DIRECTIVE])]"

definition INSTRUMENT_SCHEMAS :: "(string \<times> string list) list" where
  "INSTRUMENT_SCHEMAS =
     [(ADVISORY, []),
      (BINDING, [TASK_PROPOSAL_SCHEMA, TASK_ADMISSION_SCHEMA, TASK_CLAIM_SCHEMA, TASK_RELEASE_SCHEMA,
         TASK_OUTCOME_SCHEMA, DECOMPOSITION_SCHEMA]),
      (DIRECTIVE, [DIRECTIVE_SCHEMA])]"

definition TELEMETRY_SCHEMAS :: "string list" where
  "TELEMETRY_SCHEMAS = [ROUTE_DECLARATION_SCHEMA]"

definition AGENDA_CLOCK_SEMANTICS :: string where
  "AGENDA_CLOCK_SEMANTICS = ''WORLD_ADMISSION_COUNTER_TICK_1''"

definition LEASE_RELEASE_AUTHORITY :: string where
  "LEASE_RELEASE_AUTHORITY = ''HOST_SESSION_SETTLEMENT_RELEASES_HOLDER_LEASES_1''"

definition ARM_ENFORCEMENT_SCOPE :: string where
  "ARM_ENFORCEMENT_SCOPE = ''PUBLICATION_TIME_RECORD_VALIDATION_ONLY_NO_RESEARCH_BEHAVIOUR_POLICING''"

definition REJECTION_SEMANTICS :: string where
  "REJECTION_SEMANTICS = ''REJECTED_INSTRUMENT_IS_A_RESEARCH_EVENT_NOT_A_SESSION_FAILURE''"

definition MAXIMUM_RECORDED_DECISIONS :: nat where
  "MAXIMUM_RECORDED_DECISIONS = 64"

definition MAXIMUM_DECISION_DETAIL_BYTES :: nat where
  "MAXIMUM_DECISION_DETAIL_BYTES = 512"

definition MAXIMUM_RELEASED_CLAIM_REFS :: nat where
  "MAXIMUM_RELEASED_CLAIM_REFS = 64"

definition CLAIM_LIVENESS_REJECTIONS :: "string list" where
  "CLAIM_LIVENESS_REJECTIONS = [''TASK_CLAIM_CONFLICT'', ''LEASE_LIVENESS_UNDECIDABLE'']"

definition arm_error :: "string \<Rightarrow> string \<Rightarrow> exn" where
  "arm_error code detail = Agenda_Arm_Error code (cp_take 2000 detail)"

abbreviation malformed_arm :: "string \<Rightarrow> exn" where
  "malformed_arm \<equiv> arm_error ''MALFORMED_AGENDA_ARM''"

definition arm_session_ids :: "string \<Rightarrow> pyval \<Rightarrow> string list result" where
  "arm_session_ids label values = (case values of
      PList vs \<Rightarrow>
        rbind (rmap (\<lambda>v. case v of
                   PStr s \<Rightarrow> if s = [] then Inl (malformed_arm label) else Inr s
                 | _ \<Rightarrow> Inl (malformed_arm label)) vs) (\<lambda>selected.
          if \<not> distinct selected then Inl (malformed_arm (label @ '': duplicate''))
          else Inr (sort selected))
    | _ \<Rightarrow> Inl (malformed_arm label))"

definition instrument_of :: "string option \<Rightarrow> string option" where
  "instrument_of schema = (case schema of
      None \<Rightarrow> Some ADVISORY
    | Some name \<Rightarrow>
        if name \<in> set TELEMETRY_SCHEMAS then Some ADVISORY
        else find (\<lambda>instrument. name \<in> set (the (map_of INSTRUMENT_SCHEMAS instrument))) [BINDING, DIRECTIVE])"

section \<open>Configuration\<close>

datatype admitting_slots = ALL_SESSIONS | Slots "string list"

record agenda_arm_config =
  cf_arm :: string
  cf_coordinator_session_ids :: "string list"
  cf_admitting_slots :: admitting_slots
  cf_require_claim_for_primary_action :: bool
  cf_enforce_directive_citation :: bool

definition instruments :: "agenda_arm_config \<Rightarrow> string list" where
  "instruments cf = the (map_of ARM_INSTRUMENTS (cf_arm cf))"

definition check_flag :: "string \<Rightarrow> pyval \<Rightarrow> bool result" where
  "check_flag label value = (case value of PBool b \<Rightarrow> Inr b | _ \<Rightarrow> Inl (malformed_arm label))"

definition arm_config_init ::
  "pyval \<Rightarrow> pyval \<Rightarrow> pyval \<Rightarrow> pyval \<Rightarrow> pyval \<Rightarrow> agenda_arm_config result" where
  "arm_config_init arm coordinators admitting require_claim enforce_citation =
     rbind (case arm of
              PStr a \<Rightarrow> if a \<in> set (keys ARM_INSTRUMENTS) then Inr a
                        else Inl (arm_error ''UNKNOWN_AGENDA_ARM'' (cp_take 64 a))
            | _ \<Rightarrow> Inl (arm_error ''UNKNOWN_AGENDA_ARM'' (cp_take 64 (py_str arm)))) (\<lambda>a.
     rbind (arm_session_ids ''coordinator_session_ids'' coordinators) (\<lambda>coordinator_ids.
     rbind (if admitting = PStr ''ALL_SESSIONS'' then Inr ALL_SESSIONS
            else rbind (arm_session_ids ''admitting_slots'' admitting) (\<lambda>ids. Inr (Slots ids))) (\<lambda>slots.
     rbind (check_flag ''require_claim_for_primary_action'' require_claim) (\<lambda>require_claim.
     rbind (check_flag ''enforce_directive_citation'' enforce_citation) (\<lambda>enforce_citation.
       let self = \<lparr>cf_arm = a, cf_coordinator_session_ids = coordinator_ids, cf_admitting_slots = slots,
                   cf_require_claim_for_primary_action = require_claim,
                   cf_enforce_directive_citation = enforce_citation\<rparr>
       in if DIRECTIVE \<notin> set (instruments self) \<and> enforce_citation
          then Inl (malformed_arm ''enforce_directive_citation'')
          else if DIRECTIVE \<notin> set (instruments self) \<and> coordinator_ids \<noteq> []
          then Inl (malformed_arm ''coordinator_session_ids'')
          else Inr self)))))"

definition admitted_payload_schemas :: "agenda_arm_config \<Rightarrow> string list" where
  "admitted_payload_schemas cf = sort (remdups (TELEMETRY_SCHEMAS @
     concat (map (\<lambda>instrument. the (map_of INSTRUMENT_SCHEMAS instrument)) (instruments cf))))"

definition open_admission :: "agenda_arm_config \<Rightarrow> bool" where
  "open_admission cf \<longleftrightarrow> cf_admitting_slots cf = ALL_SESSIONS"

definition config_roles :: "agenda_arm_config \<Rightarrow> pyval \<Rightarrow> pyval \<Rightarrow> agenda_roles result" where
  "config_roles cf session_ids world_session_ids =
     rbind (arm_session_ids ''session_ids'' session_ids) (\<lambda>selected.
       if selected = [] then Inl (malformed_arm ''session_ids'')
       else (case find (\<lambda>c. c \<notin> set selected) (cf_coordinator_session_ids cf) of
           Some c \<Rightarrow> Inl (arm_error ''AGENDA_SLOT_NOT_IN_COHORT'' c)
         | None \<Rightarrow>
             rbind (case cf_admitting_slots cf of
                      ALL_SESSIONS \<Rightarrow>
                        rbind (arm_session_ids ''world_session_ids'' world_session_ids) (\<lambda>world_ids.
                          Inr (sort (remdups (selected @ world_ids))))
                    | Slots admitters \<Rightarrow>
                        (case find (\<lambda>a. a \<notin> set selected) admitters of
                           Some a \<Rightarrow> Inl (arm_error ''AGENDA_SLOT_NOT_IN_COHORT'' a)
                         | None \<Rightarrow> Inr admitters)) (\<lambda>admitting.
               agenda_roles_init (texts (cf_coordinator_session_ids cf)) (texts admitting))))"

definition slots_value :: "agenda_arm_config \<Rightarrow> pyval" where
  "slots_value cf = (case cf_admitting_slots cf of
      ALL_SESSIONS \<Rightarrow> PStr ''ALL_SESSIONS'' | Slots ids \<Rightarrow> texts ids)"

definition launch_value :: "agenda_arm_config \<Rightarrow> pyval" where
  "launch_value cf = PDict [
     (''schema'', PStr AGENDA_ARM_LAUNCH_SCHEMA),
     (''mode'', PStr ARM_MODE_ENFORCED),
     (''arm'', PStr (cf_arm cf)),
     (''instruments'', texts (instruments cf)),
     (''admitted_payload_schemas'', texts (admitted_payload_schemas cf)),
     (''coordinator_session_ids'', texts (cf_coordinator_session_ids cf)),
     (''admitting_slots'', slots_value cf),
     (''open_admission'', PBool (open_admission cf)),
     (''require_claim_for_primary_action'', PBool (cf_require_claim_for_primary_action cf)),
     (''enforce_directive_citation'', PBool (cf_enforce_directive_citation cf)),
     (''agenda_clock'', PStr AGENDA_CLOCK_SEMANTICS),
     (''lease_release'', PStr LEASE_RELEASE_AUTHORITY),
     (''enforcement'', PStr ARM_ENFORCEMENT_SCOPE),
     (''rejection_semantics'', PStr REJECTION_SEMANTICS)]"

definition config_sha256 :: "(string \<Rightarrow> string) \<Rightarrow> agenda_arm_config \<Rightarrow> string result" where
  "config_sha256 sha256 cf = rbind (canonical_json (launch_value cf)) (\<lambda>raw. Inr (sha256 raw))"

definition not_configured_agenda_arm_launch_value :: pyval where
  "not_configured_agenda_arm_launch_value = PDict [
     (''schema'', PStr AGENDA_ARM_LAUNCH_SCHEMA),
     (''mode'', PStr ARM_MODE_NOT_CONFIGURED),
     (''reason'', PStr ''NO_AGENDA_ARM_CONFIGURED''),
     (''enforcement'', PStr ARM_ENFORCEMENT_SCOPE)]"

definition absent_agenda_arm_announcement :: pyval where
  "absent_agenda_arm_announcement = PDict [
     (''schema'', PStr AGENDA_ARM_ANNOUNCEMENT_SCHEMA),
     (''configured'', PBool False),
     (''statements'', texts
        [''This launch configures no agenda arm.'',
         ''Records are published as written, with no instrument validation.''])]"

definition not_configured_agenda_arm_session_evidence :: pyval where
  "not_configured_agenda_arm_session_evidence = PDict [
     (''schema'', PStr AGENDA_ARM_EVIDENCE_SCHEMA),
     (''mode'', PStr ARM_MODE_NOT_CONFIGURED),
     (''arm'', PNone), (''arm_sha256'', PNone),
     (''reviewed'', PInt 0), (''admitted'', PInt 0), (''rejected'', PInt 0),
     (''reason'', PStr ''NO_AGENDA_ARM_CONFIGURED'')]"

section \<open>Announcement\<close>

definition announced_claiming :: "agenda_arm_config \<Rightarrow> pyval" where
  "announced_claiming cf =
     (if BINDING \<notin> set (instruments cf)
      then PDict [(''available'', PBool False),
                  (''reason'', PStr ''this arm exposes no binding worklist instrument'')]
      else PDict [
        (''available'', PBool True),
        (''sequence'', texts
           [''TaskProposal: any session, at any time'',
            ''TaskAdmission: an admitting slot puts the task on the worklist'',
            ''TaskClaim: an exclusive lease on one admitted task'',
            ''TaskRelease or TaskOutcome: the holder closes its own lease'']),
        (''open_admission'', PBool (open_admission cf)),
        (''admitting_slots'', slots_value cf),
        (''task_identity'', PStr (''the admission ref of the task'' @ [CHR 0x27] @ ''s TaskAdmission'')),
        (''exclusivity'', PStr ''at most one live claim per task''),
        (''lease_ticks'', PStr (''a duration counted in world admissions; the start tick is host '' @
           ''evidence and cannot be written into a record'')),
        (''release'', texts
           [''the holder closes its own lease with TaskRelease or TaskOutcome'',
            ''a holder'' @ [CHR 0x27] @ ''s leases release when its session settles'',
            ''a lease also expires once lease_ticks admissions have elapsed''])])"

definition announced_statements :: "agenda_arm_config \<Rightarrow> string list" where
  "announced_statements cf =
     [''This record announces which instruments this launch admits; it '' @
        ''recommends no route, no ordering and no success criterion.'',
      ''A record whose payload names an instrument outside this arm is '' @
        ''rejected at publication and recorded as OUT_OF_ARM_INSTRUMENT.'',
      ''A rejected instrument is a recorded research event, not a session '' @
        ''failure; the session settles normally either way.'',
      ''Plain records on the six contribution kinds stay legal under '' @ ''every arm.''] @
     (if BINDING \<in> set (instruments cf) then
        [if cf_require_claim_for_primary_action cf
         then ''This arm'' @ [CHR 0x27] @ ''s worklist is the instrument through which action '' @
           ''on a route is claimed; the host records whether it was used '' @
           ''and does not otherwise police research behaviour.''
         else ''Proposing, admitting and claiming are available; using '' @
           ''any of them is optional, and using none of them is a '' @ ''permitted outcome.'']
      else []) @
     (if DIRECTIVE \<in> set (instruments cf) then
        [''A Directive is valid only from a configured coordinator '' @
           ''slot; a directive written by any other session is rejected.'',
         if cf_enforce_directive_citation cf
         then ''Primary action records must cite a live directive.''
         else ''Citing a directive is available and not required.'']
      else []) @
     [''Records written by a session become visible to other sessions '' @
        ''only in a later briefing, after this session has settled.'']"

definition record_shape :: "string \<Rightarrow> pyval" where
  "record_shape schema = PDict [
     (''payload_schema'', PStr schema),
     (''rides_kinds'', texts (sort (the (map_of TREATMENT_KIND_BINDING schema)))),
     (''instrument'', opt_text (instrument_of (Some schema)))]"

definition briefing_announcement :: "agenda_arm_config \<Rightarrow> pyval" where
  "briefing_announcement cf = PDict [
     (''schema'', PStr AGENDA_ARM_ANNOUNCEMENT_SCHEMA),
     (''configured'', PBool True),
     (''arm'', PStr (cf_arm cf)),
     (''instruments'', texts (instruments cf)),
     (''admitted_payload_schemas'', texts (admitted_payload_schemas cf)),
     (''record_shapes'', PList (map record_shape (admitted_payload_schemas cf))),
     (''claiming'', announced_claiming cf),
     (''route_declaration'', PDict [
        (''payload_schema'', PStr ROUTE_DECLARATION_SCHEMA),
        (''rides_kind'', PStr ''ATTEMPT''),
        (''fields'', texts [''route_statement'', ''peer_trigger_refs'', ''differentiation_note'']),
        (''legal_under_every_arm'', PBool True),
        (''peer_trigger_refs'', PStr (''admission refs, which the briefing already exposes; a '' @
           ''reference that does not resolve is rejected, not stored''))]),
     (''statements'', texts (announced_statements cf))]"

end
