(* ===== verification/Arm_Controller.thy ===== *)
theory Arm_Controller
  imports Agenda_Arm
begin

text \<open>
  The controller of \<open>experiments/agenda_arm.py\<close>: decisions, the ledger of each session, and the class
  \<open>AgendaArm\<close> with its methods. The content that the host ledger keeps for an admission is a Python
  value, \<open>PNone\<close> for an opaque one.
\<close>

section \<open>Decisions and ledgers\<close>

record arm_decision =
  ad_session_id :: string
  ad_ordinal :: nat
  ad_kind :: string
  ad_payload_schema :: "string option"
  ad_instrument :: "string option"
  ad_code :: string
  ad_detail :: string

definition arm_decision_init ::
  "string \<Rightarrow> nat \<Rightarrow> string \<Rightarrow> string option \<Rightarrow> string option \<Rightarrow> string \<Rightarrow> string \<Rightarrow> arm_decision result" where
  "arm_decision_init session_id ordinal kind schema instrument code detail =
     (if code \<notin> set ARM_VERDICT_CODES
      then Inl (Value_Error (''unknown agenda-arm verdict code: '' @ repr_text code))
      else let encoded = utf8_replace detail
           in Inr \<lparr>ad_session_id = session_id, ad_ordinal = ordinal, ad_kind = kind,
                   ad_payload_schema = schema, ad_instrument = instrument, ad_code = code,
                   ad_detail = (if MAXIMUM_DECISION_DETAIL_BYTES < length encoded
                                then utf8_cut MAXIMUM_DECISION_DETAIL_BYTES encoded else detail)\<rparr>)"

definition admitted :: "arm_decision \<Rightarrow> bool" where
  "admitted d \<longleftrightarrow> ad_code d = ''ACCEPTED''"

definition decision_to_value :: "arm_decision \<Rightarrow> pyval" where
  "decision_to_value d = PDict [
     (''ordinal'', PInt (int (ad_ordinal d))),
     (''kind'', PStr (ad_kind d)),
     (''payload_schema'', opt_text (ad_payload_schema d)),
     (''instrument'', opt_text (ad_instrument d)),
     (''code'', PStr (ad_code d)),
     (''admitted'', PBool (admitted d)),
     (''detail'', PStr (ad_detail d))]"

text \<open>\<open>counts[key] = counts.get(key, 0) + amount\<close>\<close>

definition bump :: "string \<Rightarrow> nat \<Rightarrow> (string \<times> nat) list \<Rightarrow> (string \<times> nat) list" where
  "bump key amount counts =
     AList.update key ((case map_of counts key of None \<Rightarrow> 0 | Some n \<Rightarrow> n) + amount) counts"

definition count_of :: "string \<Rightarrow> (string \<times> nat) list \<Rightarrow> nat" where
  "count_of key counts = (case map_of counts key of None \<Rightarrow> 0 | Some n \<Rightarrow> n)"

record session_ledger =
  lg_decisions :: "arm_decision list"
  lg_claim_refs :: "string list"
  lg_route :: "(string \<times> nat) list"
  lg_released_claim_refs :: "string list"
  lg_released_at_tick :: "int option"
  lg_settled_tick :: "int option"

definition empty_ledger :: session_ledger where
  "empty_ledger = \<lparr>lg_decisions = [], lg_claim_refs = [], lg_route = [], lg_released_claim_refs = [],
     lg_released_at_tick = None, lg_settled_tick = None\<rparr>"

section \<open>The controller\<close>

record agenda_arm =
  ar_config :: agenda_arm_config
  ar_session_ids :: "string list"
  ar_entries :: "(string \<times> pyval) list"
  ar_ticks :: "(string \<times> int) list"
  ar_base_tick :: int
  ar_now_tick :: int
  ar_sessions :: "(string \<times> session_ledger) list"
  ar_settled :: "string list"
  ar_divergences :: nat
  ar_snapshot :: "agenda_snapshot option"
  ar_roles :: agenda_roles
  ar_launch_sha256 :: string

text \<open>\<open>snapshot()\<close>: the cached projection, or a new one that is then cached.\<close>

definition project :: "agenda_arm \<Rightarrow> agenda_snapshot result" where
  "project a = build (map (\<lambda>(r, content). (PStr r, content)) (ar_entries a)) (PInt (ar_now_tick a))
     (Some (map (\<lambda>(r, tick). (PStr r, PInt tick)) (ar_ticks a)))"

definition arm_snapshot :: "agenda_arm \<Rightarrow> (agenda_arm \<times> agenda_snapshot) result" where
  "arm_snapshot a = (case ar_snapshot a of
      Some s \<Rightarrow> Inr (a, s)
    | None \<Rightarrow> rbind (project a) (\<lambda>s. Inr (a\<lparr>ar_snapshot := Some s\<rparr>, s)))"

fun read_base :: "string list \<Rightarrow> (pyval \<times> pyval) list \<Rightarrow> (string \<times> pyval) list result" where
  "read_base seen [] = Inr []"
| "read_base seen ((admission_ref, content) # rest) = (case admission_ref of
      PStr r \<Rightarrow>
        if r = [] then Inl (malformed_arm ''base_records ref'')
        else if r \<in> set seen then Inl (malformed_arm (''duplicate '' @ r))
        else rbind (read_base (r # seen) rest) (\<lambda>entries. Inr ((r, content) # entries))
    | _ \<Rightarrow> Inl (malformed_arm ''base_records ref''))"

definition world_authors :: "string list \<Rightarrow> agenda_snapshot \<Rightarrow> string list" where
  "world_authors session_ids s =
     sort (remdups (filter (\<lambda>x. x \<notin> set session_ids) (List.map_filter en_session_id (as_entries s))))"

definition arm_init ::
  "(string \<Rightarrow> string) \<Rightarrow> agenda_arm_config \<Rightarrow> pyval \<Rightarrow> (pyval \<times> pyval) list \<Rightarrow> agenda_arm result" where
  "arm_init sha256 cf session_ids base_records =
     rbind (arm_session_ids ''session_ids'' session_ids) (\<lambda>ids.
     rbind (read_base [] base_records) (\<lambda>entries.
       let base_tick = int (length entries);
           self = \<lparr>ar_config = cf, ar_session_ids = ids, ar_entries = entries,
                   ar_ticks = map (\<lambda>(r, _). (r, base_tick)) entries, ar_base_tick = base_tick,
                   ar_now_tick = base_tick, ar_sessions = [], ar_settled = [], ar_divergences = 0,
                   ar_snapshot = None,
                   ar_roles = \<lparr>ro_coordinator_session_ids = [], ro_admitting_session_ids = []\<rparr>,
                   ar_launch_sha256 = []\<rparr>
       in rbind (if open_admission cf
                 then rbind (arm_snapshot self) (\<lambda>(self, s). Inr (self, texts (world_authors ids s)))
                 else Inr (self, texts [])) (\<lambda>(self, world_session_ids).
          rbind (config_roles cf session_ids world_session_ids) (\<lambda>roles.
          rbind (config_sha256 sha256 cf) (\<lambda>digest.
            Inr (self\<lparr>ar_roles := roles, ar_launch_sha256 := digest\<rparr>))))))"

text \<open>\<open>build_agenda_arm\<close>: the rows that the world returned, or none without a world.\<close>

definition build_agenda_arm ::
  "(string \<Rightarrow> string) \<Rightarrow> agenda_arm_config \<Rightarrow> pyval \<Rightarrow> (pyval \<times> pyval) list option \<Rightarrow> agenda_arm result" where
  "build_agenda_arm sha256 cf session_ids world =
     arm_init sha256 cf session_ids (case world of None \<Rightarrow> [] | Some rows \<Rightarrow> rows)"

definition launch_session :: "agenda_arm \<Rightarrow> session_spec \<Rightarrow> string result" where
  "launch_session a spec =
     (if ss_session_id spec \<notin> set (ar_session_ids a)
      then Inl (arm_error ''SESSION_NOT_IN_LAUNCH'' (cp_take 128 (ss_session_id spec)))
      else Inr (ss_session_id spec))"

text \<open>\<open>_ledger\<close> creates the ledger of a session on first use; \<open>put_ledger\<close> writes it back.\<close>

definition get_ledger :: "agenda_arm \<Rightarrow> string \<Rightarrow> session_ledger" where
  "get_ledger a session_id = (case map_of (ar_sessions a) session_id of
      None \<Rightarrow> empty_ledger | Some ledger \<Rightarrow> ledger)"

definition put_ledger :: "string \<Rightarrow> session_ledger \<Rightarrow> agenda_arm \<Rightarrow> agenda_arm" where
  "put_ledger session_id ledger a = a\<lparr>ar_sessions := AList.update session_id ledger (ar_sessions a)\<rparr>"

section \<open>Review\<close>

definition holder_is_released :: "agenda_arm \<Rightarrow> string \<Rightarrow> bool" where
  "holder_is_released a holder \<longleftrightarrow>
     (if holder \<notin> set (ar_session_ids a) then True else holder \<in> set (ar_settled a))"

text \<open>The blocking claims that keep a liveness rejection in force: unknown ones, unauthored ones, and
  those of a holder that can still act.\<close>

definition still_held :: "agenda_arm \<Rightarrow> agenda_snapshot \<Rightarrow> string \<Rightarrow> bool" where
  "still_held a s ref = (case snapshot_get s ref of
      None \<Rightarrow> True
    | Some entry \<Rightarrow> (case en_session_id entry of
          None \<Rightarrow> True
        | Some holder \<Rightarrow> \<not> holder_is_released a holder))"

definition claim_verdict ::
  "agenda_arm \<Rightarrow> agenda_snapshot \<Rightarrow> research_contribution \<Rightarrow> verdict result" where
  "claim_verdict a s c =
     rbind (validate_task_claim s (Contribution c) (ar_roles a)) (\<lambda>verdict.
       if v_code verdict \<notin> set CLAIM_LIVENESS_REJECTIONS then Inr verdict
       else (case rbind (co_payload c) (\<lambda>payload. task_claim_parse (PDict payload)) of
           Inl e \<Rightarrow> if is_value_error e then Inr verdict else Inl e
         | Inr payload \<Rightarrow>
             (let blocking = blocking_claim_refs s (tc_task_ref payload) (ar_roles a)
              in if blocking = [] then Inr verdict
                 else if list_ex (still_held a s) blocking then Inr verdict
                 else accept (''leases released at holder settlement: '' @ repr_texts blocking))))"

definition arm_verdict ::
  "agenda_arm \<Rightarrow> agenda_snapshot \<Rightarrow> string \<Rightarrow> research_contribution \<Rightarrow> string option \<Rightarrow> verdict result" where
  "arm_verdict a s session_id c schema =
     (let roles = ar_roles a; candidate = Contribution c; author = Some session_id
      in case schema of
           None \<Rightarrow>
             if cf_enforce_directive_citation (ar_config a) \<and> co_kind c \<in> set PRIMARY_ACTION_KINDS
             then validate_directive_citation s candidate roles
             else accept []
         | Some name \<Rightarrow>
             if name = ROUTE_DECLARATION_SCHEMA then validate_route_declaration s candidate
             else if name = TASK_PROPOSAL_SCHEMA then validate_task_proposal s candidate roles
             else if name = TASK_ADMISSION_SCHEMA then validate_task_admission s candidate roles author
             else if name = TASK_CLAIM_SCHEMA then claim_verdict a s c
             else if name = TASK_RELEASE_SCHEMA then validate_task_release s candidate roles author
             else if name = TASK_OUTCOME_SCHEMA then validate_task_outcome s candidate roles author
             else if name = DIRECTIVE_SCHEMA then validate_directive s candidate roles author
             else if name = DECOMPOSITION_SCHEMA then validate_decomposition s candidate roles
             else Inl (Assertion_Error (''admitted schema without a validator: '' @ repr_text name)))"

definition record_decision :: "string \<Rightarrow> arm_decision \<Rightarrow> agenda_arm \<Rightarrow> agenda_arm" where
  "record_decision session_id d a =
     (let ledger = get_ledger a session_id
      in put_ledger session_id (ledger\<lparr>lg_decisions := lg_decisions ledger @ [d]\<rparr>) a)"

definition bump_route :: "string \<Rightarrow> string \<Rightarrow> nat \<Rightarrow> agenda_arm \<Rightarrow> agenda_arm" where
  "bump_route session_id key amount a =
     (let ledger = get_ledger a session_id
      in put_ledger session_id (ledger\<lparr>lg_route := bump key amount (lg_route ledger)\<rparr>) a)"

definition mark_route :: "string \<Rightarrow> route_declaration \<Rightarrow> agenda_arm \<Rightarrow> agenda_arm" where
  "mark_route session_id payload a =
     (let a = (if rd_peer_trigger_refs payload \<noteq> []
               then bump_route session_id ''with_peer_trigger_refs'' 1 a else a)
      in if rd_differentiation_note payload \<noteq> None
         then bump_route session_id ''differentiation_notes'' 1 a else a)"

definition count_route_declaration ::
  "string \<Rightarrow> research_contribution \<Rightarrow> arm_decision \<Rightarrow> agenda_arm \<Rightarrow> agenda_arm result" where
  "count_route_declaration session_id c d a =
     (let a = bump_route session_id ''count'' 1 a
      in case rbind (co_payload c) (\<lambda>payload. route_declaration_parse (PDict payload)) of
           Inl e \<Rightarrow> if is_value_error e then Inr a else Inl e
         | Inr payload \<Rightarrow>
             (let a = mark_route session_id payload a
              in if ad_code d = ''ROUTE_TRIGGER_REF_UNKNOWN''
                 then Inr (bump_route session_id ''dangling_rejected'' 1 a)
                 else if admitted d
                 then rbind (arm_snapshot a) (\<lambda>(a, s).
                   Inr (bump_route session_id ''resolved_peer_trigger_refs''
                          (length (resolved_peer_trigger_refs s payload)) a))
                 else Inr a))"

definition review ::
  "session_spec \<Rightarrow> candidate \<Rightarrow> agenda_arm \<Rightarrow> (agenda_arm \<times> arm_decision) result" where
  "review spec contribution a =
     rbind (launch_session a spec) (\<lambda>session_id.
       let ledger = get_ledger a session_id;
           a = put_ledger session_id ledger a;
           ordinal = Suc (length (lg_decisions ledger))
       in case contribution of
            Contribution c \<Rightarrow>
              rbind (co_payload c) (\<lambda>payload.
                let schema = payload_schema (PDict payload);
                    instrument = instrument_of schema
                in if schema \<noteq> None \<and> the schema \<notin> set (admitted_payload_schemas (ar_config a))
                   then rbind (arm_decision_init session_id ordinal (co_kind c) schema instrument
                                 OUT_OF_ARM_INSTRUMENT
                                 (''arm '' @ cf_arm (ar_config a) @ '' exposes '' @
                                    repr_texts (instruments (ar_config a)))) (\<lambda>d.
                          Inr (record_decision session_id d a, d))
                   else rbind (arm_snapshot a) (\<lambda>(a, s).
                        rbind (arm_verdict a s session_id c schema) (\<lambda>verdict.
                        rbind (arm_decision_init session_id ordinal (co_kind c) schema instrument
                                 (v_code verdict) (v_detail verdict)) (\<lambda>d.
                          let a = record_decision session_id d a
                          in if schema = Some ROUTE_DECLARATION_SCHEMA
                             then rbind (count_route_declaration session_id c d a) (\<lambda>a. Inr (a, d))
                             else Inr (a, d)))))
          | _ \<Rightarrow>
              rbind (arm_decision_init session_id ordinal [] None None ''CANDIDATE_NOT_IDENTITY_FREE''
                       (candidate_type_name contribution)) (\<lambda>d.
                Inr (record_decision session_id d a, d)))"

section \<open>Observation\<close>

text \<open>The publish result as a value; an object with \<open>to_value\<close> is given by what that returns.\<close>

definition publication_identity :: "pyval \<Rightarrow> string option \<times> string option" where
  "publication_identity value = (case value of
      PDict d \<Rightarrow> (case dget ''admission_ref'' d of
          PStr r \<Rightarrow>
            if r = [] then (None, None)
            else (Some r, (case dget ''content_sha256'' d of PStr h \<Rightarrow> Some h | _ \<Rightarrow> None))
        | _ \<Rightarrow> (None, None))
    | _ \<Rightarrow> (None, None))"

definition bound_record ::
  "(string \<Rightarrow> string) \<Rightarrow> research_contribution \<Rightarrow> session_spec \<Rightarrow> (pyval \<times> string) option result" where
  "bound_record sha256 c spec = (case bind_record c spec of
      Inl (Type_Error _) \<Rightarrow> Inr None
    | Inl e \<Rightarrow> if is_value_error e then Inr None else Inl e
    | Inr r \<Rightarrow>
        rbind (record_to_value r) (\<lambda>value.
        rbind (content_sha256 sha256 r) (\<lambda>digest. Inr (Some (value, digest)))))"

definition append_entry :: "string \<Rightarrow> pyval \<Rightarrow> agenda_arm \<Rightarrow> agenda_arm result" where
  "append_entry admission_ref content a =
     (if admission_ref \<in> set (keys (ar_ticks a)) then Inr (a\<lparr>ar_divergences := Suc (ar_divergences a)\<rparr>)
      else if MAXIMUM_TICK \<le> ar_now_tick a then Inl (arm_error ''AGENDA_CLOCK_EXHAUSTED'' admission_ref)
      else let tick = ar_now_tick a + 1
           in Inr (a\<lparr>ar_now_tick := tick, ar_ticks := ar_ticks a @ [(admission_ref, tick)],
                    ar_entries := ar_entries a @ [(admission_ref, content)], ar_snapshot := None\<rparr>))"

text \<open>What the host keeps of an admission: the bound record when the publisher reports its digest.\<close>

definition observed_content ::
  "(string \<Rightarrow> string) \<Rightarrow> session_spec \<Rightarrow> candidate \<Rightarrow> string option \<Rightarrow> pyval result" where
  "observed_content sha256 spec contribution reported_sha256 = (case contribution of
      Contribution c \<Rightarrow>
        rbind (bound_record sha256 c spec) (\<lambda>bound.
          Inr (case bound of
                 None \<Rightarrow> PNone
               | Some (value, digest) \<Rightarrow> if Some digest = reported_sha256 then value else PNone))
    | _ \<Rightarrow> Inr PNone)"

definition is_claim_candidate :: "candidate \<Rightarrow> bool result" where
  "is_claim_candidate contribution = (case contribution of
      Contribution c \<Rightarrow> rbind (co_payload c) (\<lambda>payload. Inr (payload_schema (PDict payload) = Some TASK_CLAIM_SCHEMA))
    | _ \<Rightarrow> Inr False)"

definition observe ::
  "(string \<Rightarrow> string) \<Rightarrow> session_spec \<Rightarrow> candidate \<Rightarrow> pyval \<Rightarrow> agenda_arm \<Rightarrow> agenda_arm result" where
  "observe sha256 spec contribution published a =
     rbind (launch_session a spec) (\<lambda>session_id.
       case publication_identity published of
         (None, _) \<Rightarrow> Inr (a\<lparr>ar_divergences := Suc (ar_divergences a)\<rparr>)
       | (Some admission_ref, reported_sha256) \<Rightarrow>
           rbind (observed_content sha256 spec contribution reported_sha256) (\<lambda>content.
             let a = (if content = PNone then a\<lparr>ar_divergences := Suc (ar_divergences a)\<rparr> else a)
             in rbind (append_entry admission_ref content a) (\<lambda>a.
                rbind (is_claim_candidate contribution) (\<lambda>claims.
                  if claims
                  then let ledger = get_ledger a session_id
                       in Inr (put_ledger session_id
                            (ledger\<lparr>lg_claim_refs := lg_claim_refs ledger @ [admission_ref]\<rparr>) a)
                  else Inr a))))"

section \<open>Settlement\<close>

definition claim_occupies :: "agenda_snapshot \<Rightarrow> string \<Rightarrow> agenda_roles \<Rightarrow> bool" where
  "claim_occupies s ref roles = (case snapshot_get s ref of
      None \<Rightarrow> False
    | Some entry \<Rightarrow>
        (case task_claim_parse (case en_payload entry of None \<Rightarrow> PNone | Some d \<Rightarrow> PDict d) of
           Inl _ \<Rightarrow> False
         | Inr parsed \<Rightarrow> ref \<in> set (blocking_claim_refs s (tc_task_ref parsed) roles)))"

definition settle :: "session_spec \<Rightarrow> agenda_arm \<Rightarrow> (agenda_arm \<times> string list) result" where
  "settle spec a =
     rbind (launch_session a spec) (\<lambda>session_id.
       let ledger = get_ledger a session_id;
           a = put_ledger session_id ledger a
       in if session_id \<in> set (ar_settled a) then Inr (a, lg_released_claim_refs ledger)
          else rbind (arm_snapshot a) (\<lambda>(a, s).
            let released = take MAXIMUM_RELEASED_CLAIM_REFS
                  (sort (filter (\<lambda>ref. claim_occupies s ref (ar_roles a)) (lg_claim_refs ledger)));
                a = a\<lparr>ar_settled := session_id # ar_settled a\<rparr>
            in Inr (put_ledger session_id
                      (ledger\<lparr>lg_released_claim_refs := released,
                              lg_released_at_tick := Some (ar_now_tick a),
                              lg_settled_tick := Some (ar_now_tick a)\<rparr>) a, released)))"

section \<open>Evidence\<close>

definition counts_value :: "(string \<times> nat) list \<Rightarrow> pyval" where
  "counts_value counts = PDict (map (\<lambda>(k, n). (k, PInt (int n))) counts)"

definition evidence_value ::
  "agenda_arm \<Rightarrow> session_ledger \<Rightarrow> nat \<Rightarrow> nat \<Rightarrow> nat \<Rightarrow> (string \<times> nat) list \<Rightarrow> (string \<times> nat) list \<Rightarrow>
   (string \<times> nat) list \<Rightarrow> arm_decision list \<Rightarrow> bool \<Rightarrow> pyval" where
  "evidence_value a ledger reviewed admitted_count rejected_count verdicts attempts by_schema recorded truncated =
     PDict [
       (''schema'', PStr AGENDA_ARM_EVIDENCE_SCHEMA),
       (''mode'', PStr ARM_MODE_ENFORCED),
       (''arm'', PStr (cf_arm (ar_config a))),
       (''arm_sha256'', PStr (ar_launch_sha256 a)),
       (''reviewed'', PInt (int reviewed)),
       (''admitted'', PInt (int admitted_count)),
       (''rejected'', PInt (int rejected_count)),
       (''verdicts'', counts_value verdicts),
       (''instrument_attempts'', counts_value (map (\<lambda>i. (i, count_of i attempts)) INSTRUMENTS)),
       (''records_by_schema'', counts_value by_schema),
       (''route_declarations'', counts_value (map (\<lambda>k. (k, count_of k (lg_route ledger)))
          [''count'', ''with_peer_trigger_refs'', ''resolved_peer_trigger_refs'', ''dangling_rejected'',
           ''differentiation_notes''])),
       (''lease_release'', PDict [
          (''authority'', PStr LEASE_RELEASE_AUTHORITY),
          (''released_claim_refs'', texts (lg_released_claim_refs ledger)),
          (''released_at_tick'', opt_int (lg_released_at_tick ledger))]),
       (''agenda_clock'', PDict [
          (''semantics'', PStr AGENDA_CLOCK_SEMANTICS),
          (''base_tick'', PInt (ar_base_tick a)),
          (''settled_tick'', PInt (case lg_settled_tick ledger of
              None \<Rightarrow> ar_now_tick a | Some tick \<Rightarrow> tick))]),
       (''decisions'', PList (map decision_to_value recorded)),
       (''truncated'', PBool truncated),
       (''publication_divergences'', PInt (int (ar_divergences a))),
       (''rejection_semantics'', PStr REJECTION_SEMANTICS)]"

definition verdict_counts :: "arm_decision list \<Rightarrow> (string \<times> nat) list" where
  "verdict_counts ds = fold (\<lambda>d. bump (ad_code d) 1) ds []"

definition instrument_counts :: "arm_decision list \<Rightarrow> (string \<times> nat) list" where
  "instrument_counts ds =
     fold (\<lambda>d counts. case ad_instrument d of None \<Rightarrow> counts | Some i \<Rightarrow> bump i 1 counts) ds []"

definition schema_counts :: "arm_decision list \<Rightarrow> (string \<times> nat) list" where
  "schema_counts ds =
     fold (\<lambda>d counts. case ad_payload_schema d of None \<Rightarrow> counts | Some i \<Rightarrow> bump i 1 counts) ds []"

definition admitted_count :: "arm_decision list \<Rightarrow> nat" where
  "admitted_count ds = fold (\<lambda>d n. if admitted d then Suc n else n) ds 0"

definition session_evidence :: "session_spec \<Rightarrow> agenda_arm \<Rightarrow> (agenda_arm \<times> pyval) result" where
  "session_evidence spec a =
     rbind (launch_session a spec) (\<lambda>session_id.
       let ledger = get_ledger a session_id;
           a = put_ledger session_id ledger a;
           ds = lg_decisions ledger;
           recorded = take MAXIMUM_RECORDED_DECISIONS ds
       in Inr (a, evidence_value a ledger (length ds) (admitted_count ds) (length ds - admitted_count ds)
                    (verdict_counts ds) (instrument_counts ds) (schema_counts ds) recorded
                    (length recorded < length ds)))"

end
