(* ===== verification/Arm_Correct.thy ===== *)
theory Arm_Correct
  imports Arm_Controller
begin

text \<open>
  What the controller of an arm guarantees: the invariant of its ledger and cache, what each method
  may change, how a review ends, and when the host accepts a claim on a task.
\<close>

section \<open>The host ledger\<close>

text \<open>
  The invariant of the ledger: admission refs are distinct and non-empty, the clock is the number of
  admissions, each admission has the tick \<open>max(base_tick, index)\<close>, and a cached projection is the
  projection of the current ledger.
\<close>

definition ledger_ok :: "agenda_arm \<Rightarrow> bool" where
  "ledger_ok a \<longleftrightarrow>
     distinct (map fst (ar_entries a)) \<and> [] \<notin> set (map fst (ar_entries a)) \<and>
     list_all (\<lambda>(_, content). json_tree content) (ar_entries a) \<and>
     ar_ticks a = map (\<lambda>(i, r, _). (r, max (ar_base_tick a) (int (Suc i)))) (enumerate 0 (ar_entries a)) \<and>
     ar_now_tick a = int (length (ar_entries a)) \<and>
     0 \<le> ar_base_tick a \<and> ar_base_tick a \<le> ar_now_tick a \<and> ar_now_tick a \<le> MAXIMUM_TICK"

definition cache_ok :: "agenda_arm \<Rightarrow> bool" where
  "cache_ok a \<longleftrightarrow> (\<forall>s. ar_snapshot a = Some s \<longrightarrow> project a = Inr s)"

lemma enumerate_refs: "map fst (map (\<lambda>(i, r, _). (r, g i)) (enumerate n xs)) = map fst xs"
  by (induction xs arbitrary: n) auto

lemma ticks_keys: "ledger_ok a \<Longrightarrow> map fst (ar_ticks a) = map fst (ar_entries a)"
  by (simp only: ledger_ok_def enumerate_refs)

lemma update_fresh: "k \<notin> fst ` set d \<Longrightarrow> AList.update k v d = d @ [(k, v)]"
  by (induction d) auto

lemma ticks_range: "ledger_ok a \<Longrightarrow> (r, t) \<in> set (ar_ticks a) \<Longrightarrow> ar_base_tick a \<le> t \<and> t \<le> ar_now_tick a"
  by (auto simp: ledger_ok_def in_set_enumerate_eq)

lemma check_tick_Inr: "check_tick label (PInt i) = Inr j \<longleftrightarrow> 0 \<le> i \<and> i \<le> MAXIMUM_TICK \<and> j = i"
  by (auto simp: check_tick_def)

lemma read_ticks_ok:
  assumes "distinct (map fst (ticks @ items))" "\<forall>(r, t) \<in> set items. 0 \<le> t \<and> t \<le> MAXIMUM_TICK"
  shows "read_ticks ticks (map (\<lambda>(r, t). (PStr r, PInt t)) items) = Inr (ticks @ items)"
  using assms
proof (induction items arbitrary: ticks)
  case (Cons x items)
  obtain r t where x: "x = (r, t)" by (cases x)
  have "AList.update r t ticks = ticks @ [(r, t)]"
    using Cons.prems(1) x by (intro update_fresh) auto
  with Cons.prems x Cons.IH [of "ticks @ [(r, t)]"] show ?case
    by (auto simp: check_tick_def)
qed simp

lemma rmap_Inr_set: "rmap f xs = Inr ys \<Longrightarrow> y \<in> set ys \<longleftrightarrow> (\<exists>x \<in> set xs. f x = Inr y)"
  by (induction xs arbitrary: ys) (auto simp: rbind_Inr_iff)

lemma project_Inr:
  assumes "ledger_ok a"
  shows "\<exists>s. project a = Inr s"
    and "project a = Inr s \<Longrightarrow> snapshot_ok s \<and> as_now_tick s = Some (ar_now_tick a)"
    and "project a = Inr s \<Longrightarrow> e \<in> set (as_entries s) \<longleftrightarrow>
      (\<exists>r content. (r, content) \<in> set (ar_entries a) \<and> decode_entry r content (map_of (ar_ticks a) r) = Inr e)"
proof -
  let ?items = "map (\<lambda>(r, content). (PStr r, content)) (ar_entries a)"
  let ?ticks = "map (\<lambda>(r, tick). (PStr r, PInt tick)) (ar_ticks a)"
  have now: "optional (check_tick ''now_tick'') (PInt (ar_now_tick a)) = Inr (Some (ar_now_tick a))"
    using assms by (simp add: optional_Inr check_tick_Inr ledger_ok_def)
  have "\<forall>(r, t) \<in> set (ar_ticks a). 0 \<le> t \<and> t \<le> MAXIMUM_TICK"
  proof clarify
    fix r t assume "(r, t) \<in> set (ar_ticks a)"
    from ticks_range [OF assms this] assms show "0 \<le> t \<and> t \<le> MAXIMUM_TICK" by (simp add: ledger_ok_def)
  qed
  moreover have dk: "distinct (map fst (ar_ticks a))"
    using assms unfolding ticks_keys [OF assms] by (simp add: ledger_ok_def)
  ultimately have ticks: "read_ticks [] ?ticks = Inr (ar_ticks a)"
    using read_ticks_ok [of "[]" "ar_ticks a"] dk by simp
  have refs: "distinct (map fst ?items)"
    using assms by (simp add: ledger_ok_def comp_def case_prod_beta distinct_map inj_on_def)
  have "\<exists>e. entry_result (ar_ticks a) item = Inr e" if "item \<in> set ?items" for item
  proof -
    from that obtain r content where i: "item = (PStr r, content)" "(r, content) \<in> set (ar_entries a)" by auto
    with assms have "r \<noteq> []" "json_tree content" by (auto simp: ledger_ok_def list_all_iff image_iff)
    with decode_entry_total i show ?thesis by (auto simp: entry_result_Inr)
  qed
  then have "rmap (entry_result (ar_ticks a)) ?items = Inr (map (\<lambda>i. projr (entry_result (ar_ticks a) i)) ?items)"
    by (intro rmap_all_Inr) force
  then obtain es where es: "rmap (entry_result (ar_ticks a)) ?items = Inr es" by blast
  have "map fst ?items = map (PStr \<circ> en_admission_ref) es" by (rule rmap_refs [OF es])
  then have "map PStr (map fst (ar_entries a)) = map PStr (map en_admission_ref es)"
    by (simp add: comp_def case_prod_beta)
  then have er: "map fst (ar_entries a) = map en_admission_ref es"
    by (rule iffD1 [OF inj_map_eq_map, rotated]) (simp add: inj_def)
  have "set (keys (ar_ticks a)) \<subseteq> en_admission_ref ` set es"
    using ticks_keys [OF assms] er by (metis keys_def list.set_map set_map subset_refl)
  note facts = now ticks refs es this
  let ?s = "\<lparr>as_entries = sort_key en_admission_ref es, as_now_tick = Some (ar_now_tick a),
           as_index = map (\<lambda>e. (en_admission_ref e, e)) (sort_key en_admission_ref es)\<rparr>"
  have iff: "project a = Inr s \<longleftrightarrow> s = ?s" for s
    unfolding project_def build_Inr using facts by auto
  show "\<exists>s. project a = Inr s" using iff by blast
  show "project a = Inr s \<Longrightarrow> snapshot_ok s \<and> as_now_tick s = Some (ar_now_tick a)"
  proof -
    assume p: "project a = Inr s"
    then have "snapshot_ok s" by (simp only: project_def) (rule build_ok)
    moreover have "s = ?s" using p iff by blast
    ultimately show ?thesis by simp
  qed
  have mem: "e \<in> set es \<longleftrightarrow> (\<exists>item \<in> set ?items. entry_result (ar_ticks a) item = Inr e)"
    by (rule rmap_Inr_set [OF es])
  show "project a = Inr s \<Longrightarrow> e \<in> set (as_entries s) \<longleftrightarrow>
      (\<exists>r content. (r, content) \<in> set (ar_entries a) \<and> decode_entry r content (map_of (ar_ticks a) r) = Inr e)"
  proof -
    assume "project a = Inr s"
    then have "e \<in> set (as_entries s) \<longleftrightarrow> e \<in> set es" using iff by simp
    also have "\<dots> \<longleftrightarrow> (\<exists>r content. (r, content) \<in> set (ar_entries a) \<and>
        entry_result (ar_ticks a) (PStr r, content) = Inr e)"
      unfolding mem by force
    also have "\<dots> \<longleftrightarrow> (\<exists>r content. (r, content) \<in> set (ar_entries a) \<and>
        decode_entry r content (map_of (ar_ticks a) r) = Inr e)"
      using assms by (auto simp: entry_result_Inr ledger_ok_def image_iff) (metis fst_conv)
    finally show ?thesis .
  qed
qed


section \<open>What a method may change\<close>

text \<open>Everything but the session ledgers, the count of divergences and the cache is as before.\<close>

definition same_world :: "agenda_arm \<Rightarrow> agenda_arm \<Rightarrow> bool" where
  "same_world a b \<longleftrightarrow> ar_config b = ar_config a \<and> ar_session_ids b = ar_session_ids a \<and>
     ar_entries b = ar_entries a \<and> ar_ticks b = ar_ticks a \<and> ar_base_tick b = ar_base_tick a \<and>
     ar_now_tick b = ar_now_tick a \<and> ar_settled b = ar_settled a \<and>
     ar_roles b = ar_roles a \<and> ar_launch_sha256 b = ar_launch_sha256 a"

lemma same_world_refl [simp]: "same_world a a"
  by (simp add: same_world_def)

lemma same_world_trans: "same_world a b \<Longrightarrow> same_world b c \<Longrightarrow> same_world a c"
  by (simp add: same_world_def)

lemma same_world_project: "same_world a b \<Longrightarrow> project b = project a"
  by (simp add: same_world_def project_def)

lemma same_world_ledger: "same_world a b \<Longrightarrow> ledger_ok b = ledger_ok a"
  by (simp add: same_world_def ledger_ok_def)

lemma put_ledger_frame [simp]:
  "same_world a (put_ledger x l a)" "ar_snapshot (put_ledger x l a) = ar_snapshot a"
  "same_world a (record_decision x d a)" "ar_snapshot (record_decision x d a) = ar_snapshot a"
  "same_world a (bump_route x k n a)" "ar_snapshot (bump_route x k n a) = ar_snapshot a"
  by (simp_all add: put_ledger_def record_decision_def bump_route_def Let_def same_world_def)

lemma arm_snapshot_Inr:
  assumes "arm_snapshot a = Inr (b, s)" "cache_ok a"
  shows "same_world a b \<and> cache_ok b \<and> project a = Inr s"
  using assms by (auto simp: arm_snapshot_def cache_ok_def rbind_Inr_iff same_world_def project_def split: option.splits)

lemma arm_snapshot_total: "ledger_ok a \<Longrightarrow> \<exists>b s. arm_snapshot a = Inr (b, s)"
  using project_Inr(1) [of a] by (auto simp: arm_snapshot_def split: option.splits)

text \<open>The state after a method that only touched ledgers and the cache.\<close>

definition quiet :: "agenda_arm \<Rightarrow> agenda_arm \<Rightarrow> bool" where
  "quiet a b \<longleftrightarrow> same_world a b \<and> (cache_ok a \<longrightarrow> cache_ok b)"

lemma quiet_refl [simp]: "quiet a a"
  by (simp add: quiet_def)

lemma quiet_trans: "quiet a b \<Longrightarrow> quiet b c \<Longrightarrow> quiet a c"
  using same_world_trans by (auto simp: quiet_def)

lemma quietI: "same_world a b \<Longrightarrow> ar_snapshot b = ar_snapshot a \<Longrightarrow> quiet a b"
  using same_world_project by (auto simp: quiet_def cache_ok_def)

lemma quiet_simps [simp]:
  "quiet a (put_ledger x l a)" "quiet a (record_decision x d a)" "quiet a (bump_route x k n a)"
  by (simp_all add: quietI)

lemma quiet_snapshot: "arm_snapshot a = Inr (b, s) \<Longrightarrow> quiet a b"
  using same_world_project
  by (auto simp: arm_snapshot_def rbind_Inr_iff quiet_def cache_ok_def same_world_def project_def
      split: option.splits)

lemma mark_route_quiet [simp]: "quiet a (mark_route x p a)"
  by (auto simp: mark_route_def Let_def intro: quiet_trans [OF quiet_simps(3) quiet_simps(3)])

lemma count_route_quiet:
  assumes "count_route_declaration x c d a = Inr b"
  shows "quiet a b"
proof -
  let ?a1 = "bump_route x ''count'' 1 a"
  have 1: "quiet a ?a1" by simp
  show ?thesis
  proof (cases "rbind (co_payload c) (\<lambda>payload. route_declaration_parse (PDict payload))")
    case (Inl e)
    with assms 1 show ?thesis by (auto simp: count_route_declaration_def Let_def split: if_splits)
  next
    case (Inr p)
    have 2: "quiet a (mark_route x p ?a1)" by (rule quiet_trans [OF 1 mark_route_quiet])
    consider "b = bump_route x ''dangling_rejected'' 1 (mark_route x p ?a1)" | "b = mark_route x p ?a1"
      | a3 s where "arm_snapshot (mark_route x p ?a1) = Inr (a3, s)"
          "b = bump_route x ''resolved_peer_trigger_refs'' (length (resolved_peer_trigger_refs s p)) a3"
      using assms Inr by (auto simp: count_route_declaration_def Let_def rbind_Inr_iff split: if_splits)
    then show ?thesis
    proof cases
      case 1
      then show ?thesis using quiet_trans [OF 2 quiet_simps(3)] by simp
    next
      case 3
      then show ?thesis using quiet_trans [OF quiet_trans [OF 2 quiet_snapshot] quiet_simps(3)] by simp
    qed (use 2 in simp)
  qed
qed

lemma arm_decision_init_Inr:
  "arm_decision_init x n kind schema instrument code detail = Inr d \<Longrightarrow>
   ad_session_id d = x \<and> ad_ordinal d = n \<and> ad_kind d = kind \<and> ad_payload_schema d = schema \<and>
   ad_instrument d = instrument \<and> ad_code d = code \<and> code \<in> set ARM_VERDICT_CODES"
  by (simp add: arm_decision_init_def Let_def split: if_splits) auto

lemma launch_session_Inr: "launch_session a spec = Inr x \<longleftrightarrow> x = ss_session_id spec \<and> x \<in> set (ar_session_ids a)"
  by (auto simp: launch_session_def)

lemma put_ledger_config [simp]: "ar_config (put_ledger x l a) = ar_config a"
  by (simp add: put_ledger_def)

text \<open>How a review ends: refused as not identity free, refused as out of arm, or decided by a
  validator on the projection of the ledger.\<close>

lemma review_cases:
  assumes "review spec contribution a = Inr (b, d)"
  obtains
    (not_free) "\<forall>c. contribution \<noteq> Contribution c" "ad_code d = ''CANDIDATE_NOT_IDENTITY_FREE''"
      "ad_payload_schema d = None"
      "b = record_decision (ss_session_id spec) d (put_ledger (ss_session_id spec) (get_ledger a (ss_session_id spec)) a)"
  | (out_of_arm) c p name where "contribution = Contribution c" "co_payload c = Inr p"
      "payload_schema (PDict p) = Some name" "name \<notin> set (admitted_payload_schemas (ar_config a))"
      "ad_code d = OUT_OF_ARM_INSTRUMENT" "ad_payload_schema d = Some name"
      "b = record_decision (ss_session_id spec) d (put_ledger (ss_session_id spec) (get_ledger a (ss_session_id spec)) a)"
  | (decided) c p a2 s v where "contribution = Contribution c" "co_payload c = Inr p"
      "pred_option (\<lambda>name. name \<in> set (admitted_payload_schemas (ar_config a))) (payload_schema (PDict p))"
      "arm_snapshot (put_ledger (ss_session_id spec) (get_ledger a (ss_session_id spec)) a) = Inr (a2, s)"
      "arm_verdict a2 s (ss_session_id spec) c (payload_schema (PDict p)) = Inr v"
      "ad_code d = v_code v" "ad_payload_schema d = payload_schema (PDict p)"
      "b = record_decision (ss_session_id spec) d a2 \<or>
       payload_schema (PDict p) = Some ROUTE_DECLARATION_SCHEMA \<and>
       count_route_declaration (ss_session_id spec) c d (record_decision (ss_session_id spec) d a2) = Inr b"
proof -
  let ?x = "ss_session_id spec"
  let ?a1 = "put_ledger ?x (get_ledger a ?x) a"
  let ?n = "Suc (length (lg_decisions (get_ledger a ?x)))"
  have free: thesis if "\<forall>c. contribution \<noteq> Contribution c"
    "arm_decision_init ?x ?n [] None None ''CANDIDATE_NOT_IDENTITY_FREE'' (candidate_type_name contribution) = Inr d"
    "b = record_decision ?x d ?a1"
    by (rule not_free) (use that arm_decision_init_Inr [OF that(2)] in simp_all)
  show thesis
  proof (cases contribution)
    case (Contribution c)
    from assms Contribution obtain p where p: "co_payload c = Inr p"
      by (auto simp: review_def Let_def rbind_Inr_iff)
    let ?schema = "payload_schema (PDict p)"
    let ?adm = "set (admitted_payload_schemas (ar_config a))"
    show thesis
    proof (cases "?schema \<noteq> None \<and> the ?schema \<notin> ?adm")
      case True
      then have "arm_decision_init ?x ?n (co_kind c) ?schema (instrument_of ?schema) OUT_OF_ARM_INSTRUMENT
          (''arm '' @ cf_arm (ar_config a) @ '' exposes '' @ repr_texts (instruments (ar_config a))) = Inr d"
        "b = record_decision ?x d ?a1"
        using assms by (auto simp: review_def Let_def rbind_Inr_iff launch_session_Inr Contribution p)
      with True Contribution p show thesis
        using out_of_arm [of c p] arm_decision_init_Inr by force
    next
      case False
      then obtain a2 s v where v: "arm_snapshot ?a1 = Inr (a2, s)" "arm_verdict a2 s ?x c ?schema = Inr v"
        "arm_decision_init ?x ?n (co_kind c) ?schema (instrument_of ?schema) (v_code v) (v_detail v) = Inr d"
        "(if ?schema = Some ROUTE_DECLARATION_SCHEMA
          then rbind (count_route_declaration ?x c d (record_decision ?x d a2)) (\<lambda>a. Inr (a, d))
          else Inr (record_decision ?x d a2, d)) = Inr (b, d)"
        using assms by (auto simp: review_def Let_def rbind_Inr_iff launch_session_Inr Contribution p split: if_splits)
      have "pred_option (\<lambda>name. name \<in> ?adm) ?schema"
        using False by (cases ?schema) auto
      moreover have "b = record_decision ?x d a2 \<or> ?schema = Some ROUTE_DECLARATION_SCHEMA \<and>
          count_route_declaration ?x c d (record_decision ?x d a2) = Inr b"
        using v(4) by (cases "?schema = Some ROUTE_DECLARATION_SCHEMA") (simp_all add: rbind_Inr_iff)
      ultimately show thesis
        by (intro decided [OF Contribution p _ v(1,2)]) (use arm_decision_init_Inr [OF v(3)] in simp_all)
    qed
  next
    case (Bound r)
    with assms free show thesis
      by (simp add: review_def Let_def rbind_Inr_iff launch_session_Inr)
  next
    case (Other_Object t)
    with assms free show thesis
      by (simp add: review_def Let_def rbind_Inr_iff launch_session_Inr)
  qed
qed

lemma review_quiet:
  assumes "review spec contribution a = Inr (b, d)"
  shows "quiet a b"
  using assms
proof (cases rule: review_cases)
  case not_free
  then show ?thesis using quiet_trans [OF quiet_simps(1) quiet_simps(2)] by simp
next
  case out_of_arm
  then show ?thesis using quiet_trans [OF quiet_simps(1) quiet_simps(2)] by simp
next
  case (decided c p a2 s v)
  have "quiet a (record_decision (ss_session_id spec) d a2)"
    using quiet_trans [OF quiet_trans [OF quiet_simps(1) quiet_snapshot [OF decided(4)]] quiet_simps(2)] .
  with decided(8) show ?thesis using count_route_quiet quiet_trans by blast
qed

section \<open>The verdict on a claim\<close>

text \<open>The task is admitted, open and ready; whether a claim occupies it is another matter.\<close>

definition task_open :: "agenda_snapshot \<Rightarrow> agenda_roles \<Rightarrow> string \<Rightarrow> bool" where
  "task_open s roles t \<longleftrightarrow>
     (\<exists>task. is_task s roles t task \<and> (\<forall>d \<in> set (ta_dependency_task_refs task). task_is_completed s d roles)) \<and>
     \<not> task_is_completed s t roles"

lemma task_claim_decision_open:
  assumes "snapshot_ok s"
  shows "\<exists>v. task_claim_decision s roles p = Inr v \<and>
    (accepted v \<longleftrightarrow> task_open s roles (tc_task_ref p) \<and> blocking_claim_refs s (tc_task_ref p) roles = []) \<and>
    (v_code v \<in> set CLAIM_LIVENESS_REJECTIONS \<longleftrightarrow>
       task_open s roles (tc_task_ref p) \<and> blocking_claim_refs s (tc_task_ref p) roles \<noteq> [])"
proof (cases "map_of (admitted_tasks s roles) (tc_task_ref p)")
  case None
  then have "\<not> task_open s roles (tc_task_ref p)"
    using map_of_admitted_tasks [OF assms, of roles "tc_task_ref p"] by (auto simp: task_open_def)
  with None show ?thesis by (simp add: task_claim_decision_def CLAIM_LIVENESS_REJECTIONS_def)
next
  case (Some task)
  then have task: "is_task s roles (tc_task_ref p) t \<longleftrightarrow> t = task" for t
    using map_of_admitted_tasks [OF assms, of roles "tc_task_ref p" t] by auto
  let ?deps = "ta_dependency_task_refs task"
  have "open": "task_open s roles (tc_task_ref p) \<longleftrightarrow>
      dependency_verdict s ?deps roles = Inr None \<and> \<not> task_is_completed s (tc_task_ref p) roles"
    by (simp add: task_open_def task dependency_verdict_None [OF assms])
  obtain r where r: "dependency_verdict s ?deps roles = Inr r" using dependency_verdict_total by blast
  show ?thesis
  proof (cases "task_is_completed s (tc_task_ref p) roles")
    case True
    then show ?thesis using Some "open"
      by (simp add: task_claim_decision_def CLAIM_LIVENESS_REJECTIONS_def)
  next
    case False
    show ?thesis
    proof (cases r)
      case None
      with False r "open" have o: "task_open s roles (tc_task_ref p)" by simp
      show ?thesis
        using Some False r None o
        by (cases "blocking_claim_refs s (tc_task_ref p) roles")
          (auto simp: task_claim_decision_def CLAIM_LIVENESS_REJECTIONS_def)
    next
      case (Some v)
      with r have v: "dependency_verdict s ?deps roles = Inr (Some v)" by simp
      then have "\<not> accepted v" "v_code v \<notin> set CLAIM_LIVENESS_REJECTIONS"
        by (auto simp: dependency_verdict_def CLAIM_LIVENESS_REJECTIONS_def split: option.splits)
      then show ?thesis using \<open>map_of _ _ = Some task\<close> False v "open"
        by (simp add: task_claim_decision_def)
    qed
  qed
qed

text \<open>The holder of an entry can never act again.\<close>

definition released_holder :: "agenda_arm \<Rightarrow> agenda_entry \<Rightarrow> bool" where
  "released_holder a e \<longleftrightarrow> (\<exists>x. en_session_id e = Some x \<and> holder_is_released a x)"

lemma still_held_iff:
  assumes "snapshot_ok s" "e \<in> set (as_entries s)" "en_admission_ref e = r"
  shows "still_held a s r \<longleftrightarrow> \<not> released_holder a e"
proof -
  have "snapshot_get s r = Some e" using assms snapshot_get_iff by blast
  then show ?thesis by (auto simp: still_held_def released_holder_def split: option.splits)
qed

lemma all_released:
  assumes "snapshot_ok s" "task_known s roles t"
  shows "list_ex (still_held a s) (blocking_claim_refs s t roles) \<longleftrightarrow>
    \<not> (\<forall>e q. occupies s e q \<longrightarrow> tc_task_ref q = t \<longrightarrow> released_holder a e)"
proof -
  have mem: "occupies s e q \<Longrightarrow> e \<in> set (as_entries s)" for e q
    by (simp add: occupies_def is_claim_def)
  have "list_ex (still_held a s) (blocking_claim_refs s t roles) \<longleftrightarrow>
      (\<exists>e q. occupies s e q \<and> tc_task_ref q = t \<and> still_held a s (en_admission_ref e))"
  proof -
    have "r \<in> set (blocking_claim_refs s t roles) \<longleftrightarrow>
        (\<exists>e q. occupies s e q \<and> tc_task_ref q = t \<and> en_admission_ref e = r)" for r
      using assms(2) set_blocking [OF assms(1), of r t roles] by (auto simp: task_known_def)
    then show ?thesis unfolding list_ex_iff by metis
  qed
  also have "\<dots> \<longleftrightarrow> (\<exists>e q. occupies s e q \<and> tc_task_ref q = t \<and> \<not> released_holder a e)"
    using still_held_iff [OF assms(1) mem refl] by blast
  finally show ?thesis by blast
qed

lemma claim_verdict_accepted:
  assumes "snapshot_ok s"
  shows "(\<exists>v. claim_verdict a s c = Inr v \<and> accepted v) \<longleftrightarrow>
    (\<exists>p. gate_accepts TASK_CLAIM_SCHEMA task_claim_parse (Contribution c) p \<and>
       task_open s (ar_roles a) (tc_task_ref p) \<and>
       (\<forall>e q. occupies s e q \<longrightarrow> tc_task_ref q = tc_task_ref p \<longrightarrow> released_holder a e))"
proof -
  let ?parse = "parse_candidate TASK_CLAIM_SCHEMA task_claim_parse (Contribution c)"
  let ?payload = "rbind (co_payload c) (\<lambda>payload. task_claim_parse (PDict payload))"
  let ?G = "gate_accepts TASK_CLAIM_SCHEMA task_claim_parse (Contribution c)"
  show ?thesis
  proof (cases "\<exists>p. ?G p")
    case False
    have "\<not> accepted v" if run: "claim_verdict a s c = Inr v" for v
    proof (cases "?parse")
      case (Inl e)
      with run show ?thesis by (simp add: claim_verdict_def validate_task_claim_def gate_def)
    next
      case (Inr r)
      with False obtain w where w: "?parse = Inr (Inl w)"
        by (cases r) (auto simp: parse_candidate_Inr_Inr)
      then have nw: "\<not> accepted w" by (rule parse_candidate_Inl)
      have "v_code w \<notin> set CLAIM_LIVENESS_REJECTIONS \<or> (\<nexists>p. ?payload = Inr p)"
      proof (cases "?payload")
        case (Inr p)
        with False have "co_kind c \<notin> set (the (map_of TREATMENT_KIND_BINDING TASK_CLAIM_SCHEMA))"
          by (auto simp: gate_accepts_def rbind_Inr_iff)
        with w have "v_code w = ''RECORD_KIND_NOT_ALLOWED''"
          by (auto simp: parse_candidate_def require_contribution_def Let_def)
        then show ?thesis by (simp add: CLAIM_LIVENESS_REJECTIONS_def)
      qed simp
      with run nw w show ?thesis
        by (auto simp: claim_verdict_def validate_task_claim_def gate_def split: if_splits sum.splits)
    qed
    with False show ?thesis by blast
  next
    case True
    then obtain p where p: "?G p" by blast
    then have parse: "?parse = Inr (Inr p)" "?payload = Inr p" and unique: "?G q \<longleftrightarrow> q = p" for q
      by (auto simp: parse_candidate_Inr_Inr gate_accepts_def)
    let ?t = "tc_task_ref p"
    let ?blocking = "blocking_claim_refs s ?t (ar_roles a)"
    obtain w where w: "task_claim_decision s (ar_roles a) p = Inr w"
      "accepted w \<longleftrightarrow> task_open s (ar_roles a) ?t \<and> ?blocking = []"
      "v_code w \<in> set CLAIM_LIVENESS_REJECTIONS \<longleftrightarrow> task_open s (ar_roles a) ?t \<and> ?blocking \<noteq> []"
      using task_claim_decision_open [OF assms, of "ar_roles a" p] by blast
    have valid: "validate_task_claim s (Contribution c) (ar_roles a) = Inr w"
      using parse w(1) by (simp add: validate_task_claim_def gate_def)
    have accept: "(\<exists>v. claim_verdict a s c = Inr v \<and> accepted v) \<longleftrightarrow> task_open s (ar_roles a) ?t \<and>
        (?blocking = [] \<or> \<not> list_ex (still_held a s) ?blocking)"
      using w(2,3) by (auto simp: claim_verdict_def valid parse(2) Let_def split: if_splits)
    have "\<not> list_ex (still_held a s) ?blocking \<longleftrightarrow>
        (\<forall>e q. occupies s e q \<longrightarrow> tc_task_ref q = ?t \<longrightarrow> released_holder a e)" if "task_open s (ar_roles a) ?t"
    proof -
      have "task_known s (ar_roles a) ?t" using that by (auto simp: task_open_def task_known_def)
      from all_released [OF assms this] show ?thesis by blast
    qed
    moreover have "\<not> list_ex (still_held a s) ?blocking" if "?blocking = []" using that by simp
    ultimately show ?thesis unfolding accept unique by blast
  qed
qed

lemma claim_verdict_total:
  assumes "snapshot_ok s" "contribution_ok c"
  shows "\<exists>v. claim_verdict a s c = Inr v"
proof -
  have "candidate_ok (Contribution c)" using assms(2) by (simp add: candidate_ok_def)
  then obtain w where w: "validate_task_claim s (Contribution c) (ar_roles a) = Inr w"
    using claim_validator.answers by blast
  obtain p where p: "co_payload c = Inr p" using contribution_payload_Inr [OF assms(2)] by blast
  show ?thesis
  proof (cases "task_claim_parse (PDict p)")
    case (Inl e)
    then have "is_value_error e"
      using schema_safe_parse(3) [of "PDict p"] by (auto simp: schema_safe_def schema_failure_def)
    with Inl p w show ?thesis by (auto simp: claim_verdict_def)
  next
    case (Inr q)
    with p w show ?thesis by (auto simp: claim_verdict_def Let_def)
  qed
qed

section \<open>Observation\<close>

lemma record_to_value_wf:
  assumes "record_ok r"
  shows "\<exists>v. record_to_value r = Inr v \<and> json_wf (\<lambda>_. True) v \<and> record_from_value v = Inr r \<and> v \<noteq> PNone"
proof -
  obtain d where d: "re_payload r = Inr d" "json_wf (\<lambda>_. True) (PDict d)"
    using record_payload_Inr [OF assms] by blast
  obtain v where v: "record_to_value r = Inr v" "json_wf (\<lambda>_. True) v" "v \<noteq> PNone"
    using d by (simp add: record_to_value_def)
  with record_roundtrip [OF assms] show ?thesis by simp
qed

lemma bind_record_record_ok:
  assumes "contribution_ok c" "bind_record c spec = Inr r"
  shows "record_ok r"
proof -
  from assms(1) obtain d where "co_payload c = Inr d" "json_wf (\<lambda>_. True) (PDict d)"
    by (auto simp: contribution_ok_def co_payload_def simp del: json_wf.simps elim: payload_bytes_okE)
  with assms(2) show ?thesis
    by (auto simp: bind_record_def simp del: json_wf.simps intro: init_record_ok)
qed

text \<open>What the host keeps: nothing, or the value of the contribution's own record.\<close>

definition bound_content :: "session_spec \<Rightarrow> candidate \<Rightarrow> pyval \<Rightarrow> bool" where
  "bound_content spec candidate v \<longleftrightarrow> (\<exists>c r. candidate = Contribution c \<and> bind_record c spec = Inr r \<and>
     record_ok r \<and> record_to_value r = Inr v)"

lemma observed_content_cases:
  assumes "observed_content sha256 spec candidate reported = Inr v" "candidate_ok candidate"
  shows "v = PNone \<or> bound_content spec candidate v"
proof (cases candidate)
  case (Contribution c)
  with assms have ok: "contribution_ok c" by (simp add: candidate_ok_def)
  from assms(1) Contribution obtain b where b: "bound_record sha256 c spec = Inr b"
    "v = (case b of None \<Rightarrow> PNone | Some (value, digest) \<Rightarrow> if Some digest = reported then value else PNone)"
    by (auto simp: observed_content_def rbind_Inr_iff)
  show ?thesis
  proof (cases "bind_record c spec")
    case (Inl e)
    with b show ?thesis by (cases e) (auto simp: bound_record_def split: if_splits)
  next
    case (Inr r)
    with b bind_record_record_ok [OF ok Inr] Contribution show ?thesis
      by (auto simp: bound_record_def rbind_Inr_iff bound_content_def)
  qed
qed (use assms in \<open>auto simp: observed_content_def\<close>)

lemma bound_content_wf: "bound_content spec candidate v \<Longrightarrow> json_wf (\<lambda>_. True) v \<and> v \<noteq> PNone"
  using record_to_value_wf by (force simp: bound_content_def)

text \<open>A kept record reads back as the candidate's content under the session's identity.\<close>

lemma bound_content_entry:
  assumes "bound_content spec (Contribution c) v" "contribution_ok c" "spec_ok spec"
    and "decode_entry ref v tick = Inr e"
  shows "en_session_id e = Some (ss_session_id spec)" "en_kind e = Some (co_kind c)"
    "en_payload_bytes e = Some (co_payload_bytes c)"
proof -
  from assms(1) obtain r where r: "bind_record c spec = Inr r" "record_ok r" "record_to_value r = Inr v"
    by (auto simp: bound_content_def)
  then have "record_from_value v = Inr r" "json_wf (\<lambda>_. True) v"
    using record_to_value_wf by force+
  note e = decode_entry_record [OF this, of ref tick]
  from r(1) have "record_content r = c" "bound_to spec r"
    by (simp_all add: bind_record_Inr [OF assms(2,3)])
  with e assms(4) show "en_session_id e = Some (ss_session_id spec)" "en_kind e = Some (co_kind c)"
    "en_payload_bytes e = Some (co_payload_bytes c)"
    by (auto simp: record_content_def bound_to_def)
qed

lemma opaque_no_payload: "decode_entry ref PNone tick = Inr e \<Longrightarrow> en_payload e = None"
  by (auto simp: decode_entry_def opaque_entry_def en_payload_def)

lemma carries_gate:
  assumes "bound_content spec (Contribution c) v" "contribution_ok c" "spec_ok spec"
    and "decode_entry ref v tick = Inr e"
  shows "carries schema parser (Some (kinds_of schema)) e p \<longleftrightarrow>
    gate_accepts schema parser (Contribution c) p \<and> (\<exists>d. co_payload c = Inr d \<and> dget ''schema'' d = PStr schema)"
proof -
  note e = bound_content_entry [OF assms]
  obtain d where d: "co_payload c = Inr d" "\<And>what. decode_payload what (co_payload_bytes c) = Inr d"
    using assms(2) by (auto simp: contribution_ok_def co_payload_def elim: payload_bytes_okE)
  with e show ?thesis
    by (auto simp: carries_def declares_def kind_allowed_def gate_accepts_def en_payload_def kinds_of_def)
qed

text \<open>One more admission in the ledger: the clock advances and the cache is dropped.\<close>

definition grown :: "agenda_arm \<Rightarrow> string \<Rightarrow> pyval \<Rightarrow> agenda_arm \<Rightarrow> bool" where
  "grown a r content b \<longleftrightarrow> r \<noteq> [] \<and> r \<notin> fst ` set (ar_entries a) \<and> ar_now_tick a < MAXIMUM_TICK \<and>
     ar_now_tick b = ar_now_tick a + 1 \<and> ar_ticks b = ar_ticks a @ [(r, ar_now_tick b)] \<and>
     ar_entries b = ar_entries a @ [(r, content)] \<and> ar_snapshot b = None \<and>
     ar_config b = ar_config a \<and> ar_session_ids b = ar_session_ids a \<and> ar_base_tick b = ar_base_tick a \<and>
     ar_settled b = ar_settled a \<and> ar_roles b = ar_roles a \<and> ar_launch_sha256 b = ar_launch_sha256 a"

lemma ticks_keys_set: "ledger_ok a \<Longrightarrow> set (keys (ar_ticks a)) = fst ` set (ar_entries a)"
  using ticks_keys by (metis keys_def list.set_map)

lemma grown_ledger:
  assumes "ledger_ok a" "grown a r content b" "json_tree content"
  shows "ledger_ok b"
  using assms
  by (auto simp: ledger_ok_def grown_def enumerate_append_eq max_def)

lemma grown_cache: "grown a r content b \<Longrightarrow> cache_ok b"
  by (simp add: grown_def cache_ok_def)

lemma map_of_append_fresh: "map_of (xs @ [(r, v)]) k = (if k \<in> fst ` set xs then map_of xs k else map_of [(r, v)] k)"
  by (auto simp: map_add_def map_of_eq_None_iff split: option.splits) (metis map_of_eq_None_iff not_None_eq)+

lemma grown_adds:
  assumes "ledger_ok a" "grown a r content b" "json_tree content" "project a = Inr s"
  obtains s' f where "project b = Inr s'" "adds s f s'"
    "decode_entry r content (Some (ar_now_tick b)) = Inr f"
proof -
  have b: "ledger_ok b" by (rule grown_ledger [OF assms(1-3)])
  obtain s' where s': "project b = Inr s'" using project_Inr(1) [OF b] by blast
  obtain f where f: "decode_entry r content (Some (ar_now_tick b)) = Inr f"
    using decode_entry_total [OF assms(3)] by blast
  have keys: "fst ` set (ar_ticks a) = fst ` set (ar_entries a)"
    using ticks_keys_set [OF assms(1)] by (simp add: keys_def)
  have new: "map_of (ar_ticks b) r = Some (ar_now_tick b)"
    using assms(2) keys by (simp add: grown_def map_of_append_fresh del: map_of_append)
  have old: "map_of (ar_ticks b) k = map_of (ar_ticks a) k" if "k \<in> fst ` set (ar_entries a)" for k
    using assms(2) that keys by (simp add: grown_def map_of_append_fresh del: map_of_append)
  have es: "e \<in> set (as_entries s') \<longleftrightarrow> e = f \<or> e \<in> set (as_entries s)" for e
  proof -
    have "e \<in> set (as_entries s') \<longleftrightarrow>
        (\<exists>k v. (k, v) \<in> set (ar_entries a) \<and> decode_entry k v (map_of (ar_ticks b) k) = Inr e) \<or>
        decode_entry r content (map_of (ar_ticks b) r) = Inr e"
      using assms(2) unfolding project_Inr(3) [OF b s'] by (auto simp: grown_def)
    also have "\<dots> \<longleftrightarrow> (\<exists>k v. (k, v) \<in> set (ar_entries a) \<and> decode_entry k v (map_of (ar_ticks a) k) = Inr e) \<or>
        e = f"
      unfolding new f using old by (auto simp: image_iff) (metis fst_conv)+
    finally show ?thesis unfolding project_Inr(3) [OF assms(1,4)] by blast
  qed
  have "en_admission_ref f = r" using decode_entry_ref [OF f] by simp
  moreover have "en_admission_ref e \<in> fst ` set (ar_entries a)" if "e \<in> set (as_entries s)" for e
    using that unfolding project_Inr(3) [OF assms(1,4)] by (force dest: decode_entry_ref)
  ultimately have "en_admission_ref f \<notin> en_admission_ref ` set (as_entries s)"
    using assms(2) by (auto simp: grown_def)
  moreover have "grows s s'"
    using project_Inr(2) [OF assms(1,4)] project_Inr(2) [OF b s'] es assms(2)
    by (auto simp: grows_def grown_def)
  ultimately have "adds s f s'" using es by (auto simp: adds_def)
  then show thesis using that s' f by blast
qed

lemma append_entry_Inr:
  assumes "ledger_ok a" "append_entry r content a = Inr b" "r \<noteq> []"
  shows "(same_world a b \<and> ar_snapshot b = ar_snapshot a \<and> r \<in> fst ` set (ar_entries a) \<and> ar_sessions b = ar_sessions a) \<or>
    (grown a r content b \<and> ar_sessions b = ar_sessions a)"
  using assms(2,3) ticks_keys_set [OF assms(1)]
  by (auto simp: append_entry_def Let_def same_world_def grown_def split: if_splits)

lemma publication_identity_ref: "publication_identity v = (Some r, h) \<Longrightarrow> r \<noteq> []"
  by (auto simp: publication_identity_def split: pyval.splits if_splits)

lemma grown_frame:
  assumes "grown a r content b" "same_world b c" "ar_snapshot c = ar_snapshot b"
  shows "grown a r content c"
  using assms by (simp add: grown_def same_world_def)

lemma grown_pre: "same_world a0 a \<Longrightarrow> grown a r content b \<Longrightarrow> grown a0 r content b"
  by (simp add: grown_def same_world_def)

lemma observe_cases:
  assumes "observe sha256 spec candidate published a = Inr b" "ledger_ok a" "candidate_ok candidate"
  obtains
    (unchanged) "same_world a b" "ar_snapshot b = ar_snapshot a"
  | (grown) r content where "content = PNone \<or> bound_content spec candidate content" "grown a r content b"
proof (cases "publication_identity published")
  case (Pair ref reported)
  show thesis
  proof (cases ref)
    case None
    with assms(1) Pair show thesis
      by (intro unchanged) (auto simp: observe_def rbind_Inr_iff same_world_def)
  next
    case (Some r)
    with Pair have r: "r \<noteq> []" using publication_identity_ref by blast
    from assms(1) Pair Some obtain content where o:
      "observed_content sha256 spec candidate reported = Inr content"
      and rest: "rbind (append_entry r content
          (if content = PNone then a\<lparr>ar_divergences := Suc (ar_divergences a)\<rparr> else a)) (\<lambda>a.
        rbind (is_claim_candidate candidate) (\<lambda>claims.
          if claims then Inr (put_ledger (ss_session_id spec)
            ((get_ledger a (ss_session_id spec))\<lparr>lg_claim_refs := lg_claim_refs (get_ledger a (ss_session_id spec)) @ [r]\<rparr>) a)
          else Inr a)) = Inr b"
      unfolding observe_def Let_def
      by (auto simp: launch_session_Inr rbind_Inr_iff [of "launch_session a spec"]
          rbind_Inr_iff [of "observed_content sha256 spec candidate reported"])
    from rest obtain a2 where a2:
      "append_entry r content (if content = PNone then a\<lparr>ar_divergences := Suc (ar_divergences a)\<rparr> else a) = Inr a2"
      "b = a2 \<or> (\<exists>l. b = put_ledger (ss_session_id spec) l a2)"
      by (auto simp: rbind_Inr_iff split: if_splits)
    let ?a1 = "if content = PNone then a\<lparr>ar_divergences := Suc (ar_divergences a)\<rparr> else a"
    have a1: "same_world a ?a1" "ar_snapshot ?a1 = ar_snapshot a" "ledger_ok ?a1"
      using assms(2) by (auto simp: same_world_def ledger_ok_def)
    have b: "same_world a2 b" "ar_snapshot b = ar_snapshot a2" using a2(2) by auto
    have "(same_world ?a1 a2 \<and> ar_snapshot a2 = ar_snapshot ?a1) \<or> grown ?a1 r content a2"
      using append_entry_Inr [OF a1(3) a2(1) r] by blast
    then show thesis
    proof
      assume h: "same_world ?a1 a2 \<and> ar_snapshot a2 = ar_snapshot ?a1"
      have "same_world a b"
        using same_world_trans [OF same_world_trans [OF a1(1)] b(1)] h by blast
      then show thesis using unchanged h b a1 by simp
    next
      assume h: "grown ?a1 r content a2"
      show thesis
        by (rule grown [OF observed_content_cases [OF o assms(3)] grown_frame [OF grown_pre [OF a1(1) h] b]])
    qed
  qed
qed

lemma content_wf: "content = PNone \<or> bound_content spec candidate content \<Longrightarrow> json_tree content"
  using bound_content_wf json_wf_tree by fastforce

lemma observe_ledger:
  assumes "observe sha256 spec candidate published a = Inr b" "ledger_ok a" "candidate_ok candidate" "cache_ok a"
  shows "ledger_ok b \<and> cache_ok b"
  using assms(1-3)
proof (cases rule: observe_cases)
  case unchanged
  with assms(2,4) show ?thesis
    using same_world_ledger same_world_project by (auto simp: cache_ok_def)
next
  case (grown r content)
  with grown_ledger [OF assms(2) grown(2)] grown_cache content_wf show ?thesis by blast
qed

section \<open>Settlement and evidence\<close>

lemma get_put_ledger [simp]:
  "get_ledger (put_ledger x l a) y = (if y = x then l else get_ledger a y)"
  by (simp add: get_ledger_def put_ledger_def update_conv')

lemma put_ledger_fields [simp]:
  "ar_settled (put_ledger x l a) = ar_settled a" "ar_session_ids (put_ledger x l a) = ar_session_ids a"
  "ar_roles (put_ledger x l a) = ar_roles a" "ar_now_tick (put_ledger x l a) = ar_now_tick a"
  "ar_entries (put_ledger x l a) = ar_entries a" "ar_base_tick (put_ledger x l a) = ar_base_tick a"
  by (simp_all add: put_ledger_def)

lemma arm_snapshot_sessions: "arm_snapshot a = Inr (b, s) \<Longrightarrow> ar_sessions b = ar_sessions a"
  by (auto simp: arm_snapshot_def rbind_Inr_iff split: option.splits)

lemma get_ledger_sessions: "ar_sessions b = ar_sessions a \<Longrightarrow> get_ledger b = get_ledger a"
  by (simp add: get_ledger_def fun_eq_iff)

definition released_refs :: "agenda_arm \<Rightarrow> agenda_snapshot \<Rightarrow> string \<Rightarrow> string list" where
  "released_refs a s x = take MAXIMUM_RELEASED_CLAIM_REFS
     (sort (filter (\<lambda>ref. claim_occupies s ref (ar_roles a)) (lg_claim_refs (get_ledger a x))))"

lemma settle_cases:
  assumes "settle spec a = Inr (b, refs)" "cache_ok a"
  obtains
    (again) "ss_session_id spec \<in> set (ar_settled a)" "quiet a b"
      "b = put_ledger (ss_session_id spec) (get_ledger a (ss_session_id spec)) a"
      "refs = lg_released_claim_refs (get_ledger a (ss_session_id spec))"
  | (settled) s where "ss_session_id spec \<notin> set (ar_settled a)" "ss_session_id spec \<in> set (ar_session_ids a)"
      "project a = Inr s" "refs = released_refs a s (ss_session_id spec)"
      "same_world (a\<lparr>ar_settled := ss_session_id spec # ar_settled a\<rparr>) b" "cache_ok b"
      "lg_released_claim_refs (get_ledger b (ss_session_id spec)) = refs"
      "lg_settled_tick (get_ledger b (ss_session_id spec)) = Some (ar_now_tick a)"
      "lg_released_at_tick (get_ledger b (ss_session_id spec)) = Some (ar_now_tick a)"
      "lg_decisions (get_ledger b (ss_session_id spec)) = lg_decisions (get_ledger a (ss_session_id spec))"
proof -
  let ?x = "ss_session_id spec"
  let ?a1 = "put_ledger ?x (get_ledger a ?x) a"
  have a1: "cache_ok ?a1" using assms(2) quiet_simps(1) by (simp add: quiet_def)
  show thesis
  proof (cases "?x \<in> set (ar_settled a)")
    case True
    with assms(1) show thesis
      by (intro again) (auto simp: settle_def Let_def launch_session_Inr rbind_Inr_iff)
  next
    case False
    with assms(1) obtain a2 s where s: "arm_snapshot ?a1 = Inr (a2, s)"
      and refs: "refs = take MAXIMUM_RELEASED_CLAIM_REFS
        (sort (filter (\<lambda>ref. claim_occupies s ref (ar_roles a2)) (lg_claim_refs (get_ledger a ?x))))"
      and b: "b = put_ledger ?x ((get_ledger a ?x)\<lparr>lg_released_claim_refs := refs,
          lg_released_at_tick := Some (ar_now_tick a2), lg_settled_tick := Some (ar_now_tick a2)\<rparr>)
        (a2\<lparr>ar_settled := ?x # ar_settled a2\<rparr>)"
      and launch: "?x \<in> set (ar_session_ids a)"
      by (auto simp: settle_def Let_def launch_session_Inr rbind_Inr_iff)
    note q = arm_snapshot_Inr [OF s a1]
    then have same: "same_world a a2" using same_world_trans put_ledger_frame(1) by blast
    have p: "project a = Inr s" using q same_world_project put_ledger_frame(1) by metis
    have w: "same_world (a\<lparr>ar_settled := ?x # ar_settled a\<rparr>) b"
      using same unfolding b by (simp add: same_world_def put_ledger_def)
    have "project b = project a2" "ar_snapshot b = ar_snapshot a2"
      by (simp_all add: b put_ledger_def project_def)
    with q have "cache_ok b" by (simp add: cache_ok_def)
    with settled [OF False launch p _ w] show thesis
      using refs same by (simp add: released_refs_def same_world_def b)
  qed
qed

lemma session_evidence_quiet: "session_evidence spec a = Inr (b, v) \<Longrightarrow> quiet a b"
  by (auto simp: session_evidence_def Let_def launch_session_Inr rbind_Inr_iff)

lemma settle_total:
  assumes "ledger_ok a" "ss_session_id spec \<in> set (ar_session_ids a)"
  shows "\<exists>b refs. settle spec a = Inr (b, refs)"
proof -
  let ?a1 = "put_ledger (ss_session_id spec) (get_ledger a (ss_session_id spec)) a"
  have "ledger_ok ?a1" using assms(1) same_world_ledger put_ledger_frame(1) by blast
  then obtain a2 s where "arm_snapshot ?a1 = Inr (a2, s)" using arm_snapshot_total by blast
  with assms(2) show ?thesis
    by (auto simp: settle_def Let_def launch_session_def)
qed

text \<open>Settling released the leases of one session; nothing else moved.\<close>

lemma settle_world:
  assumes "settle spec a = Inr (b, refs)" "cache_ok a"
  shows "project b = project a" "cache_ok b" "ledger_ok b = ledger_ok a"
    "ar_session_ids b = ar_session_ids a" "set (ar_settled b) = insert (ss_session_id spec) (set (ar_settled a))"
    "ar_now_tick b = ar_now_tick a"
proof -
  from assms have "project b = project a \<and> cache_ok b \<and> ledger_ok b = ledger_ok a \<and>
    ar_session_ids b = ar_session_ids a \<and> set (ar_settled b) = insert (ss_session_id spec) (set (ar_settled a)) \<and>
    ar_now_tick b = ar_now_tick a"
  proof (cases rule: settle_cases)
    case again
    with assms(2) show ?thesis using same_world_project same_world_ledger
      by (auto simp: quiet_def same_world_def project_def ledger_ok_def)
  next
    case (settled s)
    let ?c = "a\<lparr>ar_settled := ss_session_id spec # ar_settled a\<rparr>"
    have "project ?c = project a" "ledger_ok ?c = ledger_ok a"
      by (simp_all add: project_def ledger_ok_def)
    with settled same_world_project [OF settled(5)] same_world_ledger [OF settled(5)] show ?thesis
      by (simp add: same_world_def)
  qed
  then show "project b = project a" "cache_ok b" "ledger_ok b = ledger_ok a"
    "ar_session_ids b = ar_session_ids a" "set (ar_settled b) = insert (ss_session_id spec) (set (ar_settled a))"
    "ar_now_tick b = ar_now_tick a"
    by blast+
qed

end
