(* ===== verification/Arm_Runtime.thy ===== *)
theory Arm_Runtime
  imports Arm_Correct "HOL-Library.Sublist"
begin

text \<open>
  How the orchestrator drives an arm, \<open>runtime/orchestrator.py\<close>: \<open>_publish\<close> reviews a contribution,
  publishes it and observes the result while it holds the lock of the arm; \<open>_agenda_arm_evidence\<close>
  settles a session, which takes no lock, so a settlement can fall between a review and its
  observation. The contribution that waits for the publisher is \<open>rt_pending\<close>; the publisher's answer is
  arbitrary, and it may raise. The relation \<open>runtime_step\<close> has one rule per event. Its guards are those
  of the caller: one publication at a time, and no publication by a session that settled.

  On it: the lease table as an abstract specification and the refinement, exclusivity in every
  reachable state, and the clock.
\<close>

section \<open>Publication and settlement in the orchestrator\<close>

record arm_runtime =
  rt_arm :: agenda_arm
  rt_pending :: "(session_spec \<times> candidate) option"

definition publish_review :: "session_spec \<Rightarrow> candidate \<Rightarrow> arm_runtime \<Rightarrow> arm_runtime result" where
  "publish_review spec candidate s =
     rbind (review spec candidate (rt_arm s)) (\<lambda>(a, d).
       Inr (s\<lparr>rt_arm := a, rt_pending := (if admitted d then Some (spec, candidate) else None)\<rparr>))"

definition publish_observe :: "(string \<Rightarrow> string) \<Rightarrow> pyval \<Rightarrow> arm_runtime \<Rightarrow> arm_runtime result" where
  "publish_observe sha256 published s = (case rt_pending s of
      None \<Rightarrow> Inr s
    | Some (spec, candidate) \<Rightarrow>
        rbind (observe sha256 spec candidate published (rt_arm s)) (\<lambda>a.
          Inr (s\<lparr>rt_arm := a, rt_pending := None\<rparr>)))"

definition publish_failed :: "arm_runtime \<Rightarrow> arm_runtime" where
  "publish_failed s = s\<lparr>rt_pending := None\<rparr>"

definition agenda_arm_evidence :: "session_spec \<Rightarrow> arm_runtime \<Rightarrow> (arm_runtime \<times> pyval) result" where
  "agenda_arm_evidence spec s =
     rbind (settle spec (rt_arm s)) (\<lambda>(a, _).
     rbind (session_evidence spec a) (\<lambda>(a, value). Inr (s\<lparr>rt_arm := a\<rparr>, value)))"

inductive runtime_step :: "(string \<Rightarrow> string) \<Rightarrow> arm_runtime \<Rightarrow> arm_runtime \<Rightarrow> bool" for sha256 where
  reviewed: "rt_pending s = None \<Longrightarrow> ss_session_id spec \<notin> set (ar_settled (rt_arm s)) \<Longrightarrow>
    spec_ok spec \<Longrightarrow> candidate_ok candidate \<Longrightarrow> publish_review spec candidate s = Inr t \<Longrightarrow>
    runtime_step sha256 s t"
| observed: "rt_pending s = Some publication \<Longrightarrow> publish_observe sha256 published s = Inr t \<Longrightarrow>
    runtime_step sha256 s t"
| failed: "rt_pending s = Some publication \<Longrightarrow> runtime_step sha256 s (publish_failed s)"
| settled: "pred_option (\<lambda>(owner, _). ss_session_id owner \<noteq> ss_session_id spec) (rt_pending s) \<Longrightarrow>
    agenda_arm_evidence spec s = Inr (t, value) \<Longrightarrow> runtime_step sha256 s t"

inductive runtime_reachable :: "(string \<Rightarrow> string) \<Rightarrow> agenda_arm \<Rightarrow> arm_runtime \<Rightarrow> bool" for sha256 a where
  opened: "runtime_reachable sha256 a \<lparr>rt_arm = a, rt_pending = None\<rparr>"
| stepped: "runtime_reachable sha256 a s \<Longrightarrow> runtime_step sha256 s t \<Longrightarrow> runtime_reachable sha256 a t"

section \<open>The lease table\<close>

text \<open>The abstract view: which claims hold which task. A claim counts while it occupies its task and its
  holder can still act.\<close>

definition lease_table :: "agenda_arm \<Rightarrow> (string \<times> string) set" where
  "lease_table a = {(t, r). \<exists>s e p. project a = Inr s \<and> occupies s e p \<and> tc_task_ref p = t \<and>
     en_admission_ref e = r \<and> \<not> released_holder a e}"

text \<open>The abstract machine: leases end, and a new one is granted only on a task that nobody holds.\<close>

inductive lease_step :: "(string \<times> string) set \<Rightarrow> (string \<times> string) set \<Rightarrow> bool" where
  ended: "L' \<subseteq> L \<Longrightarrow> lease_step L L'"
| granted: "t \<notin> Domain L \<Longrightarrow> L' \<subseteq> insert (t, r) L \<Longrightarrow> lease_step L L'"

lemma lease_step_exclusive: "lease_step L L' \<Longrightarrow> single_valued L \<Longrightarrow> single_valued L'"
  by (erule lease_step.cases) (auto simp: single_valued_def subset_iff, blast+)

lemma lease_table_cong:
  assumes "project b = project a" "ar_session_ids b = ar_session_ids a" "set (ar_settled b) = set (ar_settled a)"
  shows "lease_table b = lease_table a"
  using assms by (simp add: lease_table_def released_holder_def holder_is_released_def)

lemma quiet_lease_table: "quiet a b \<Longrightarrow> lease_table b = lease_table a"
  using same_world_project by (intro lease_table_cong) (auto simp: quiet_def same_world_def project_def)

lemma released_mono:
  assumes "ar_session_ids b = ar_session_ids a" "set (ar_settled a) \<subseteq> set (ar_settled b)" "released_holder a e"
  shows "released_holder b e"
  using assms by (auto simp: released_holder_def holder_is_released_def split: if_splits)

lemma settle_lease_table: "settle spec a = Inr (b, refs) \<Longrightarrow> cache_ok a \<Longrightarrow> lease_table b \<subseteq> lease_table a"
  using settle_world released_mono [of b a] by (fastforce simp: lease_table_def)

text \<open>The admitted candidate may be published: if it claims a task then no lease stands on it.\<close>

definition cleared :: "agenda_arm \<Rightarrow> candidate \<Rightarrow> bool" where
  "cleared a candidate \<longleftrightarrow> (\<forall>c d p. candidate = Contribution c \<longrightarrow> co_payload c = Inr d \<longrightarrow>
     dget ''schema'' d = PStr TASK_CLAIM_SCHEMA \<longrightarrow>
     gate_accepts TASK_CLAIM_SCHEMA task_claim_parse candidate p \<longrightarrow> tc_task_ref p \<notin> Domain (lease_table a))"

lemma cleared_mono: "lease_table b \<subseteq> lease_table a \<Longrightarrow> cleared a c \<Longrightarrow> cleared b c"
proof -
  assume sub: "lease_table b \<subseteq> lease_table a" and c: "cleared a c"
  from sub have "Domain (lease_table b) \<subseteq> Domain (lease_table a)" by auto
  with c show "cleared b c" unfolding cleared_def by blast
qed

lemma review_cleared:
  assumes "review spec candidate a = Inr (b, d)" "admitted d" "ledger_ok a" "cache_ok a"
  shows "cleared b candidate"
proof -
  have b: "lease_table b = lease_table a" by (rule quiet_lease_table [OF review_quiet [OF assms(1)]])
  show ?thesis
    unfolding cleared_def b
  proof (intro allI impI)
    fix c d' p
    assume c: "candidate = Contribution c" "co_payload c = Inr d'" "dget ''schema'' d' = PStr TASK_CLAIM_SCHEMA"
      and p: "gate_accepts TASK_CLAIM_SCHEMA task_claim_parse candidate p"
    have schema: "payload_schema (PDict d') = Some TASK_CLAIM_SCHEMA"
      by (simp add: payload_schema_def c AGENDA_TREATMENT_SCHEMAS_def)
    from assms(1) show "tc_task_ref p \<notin> Domain (lease_table a)"
    proof (cases rule: review_cases)
      case not_free
      with c show ?thesis by simp
    next
      case out_of_arm
      with assms(2) show ?thesis by (simp add: admitted_def OUT_OF_ARM_INSTRUMENT_def)
    next
      case (decided c2 d2 a2 s v)
      let ?a1 = "put_ledger (ss_session_id spec) (get_ledger a (ss_session_id spec)) a"
      have q: "quiet a ?a1" by simp
      then have a1: "cache_ok ?a1" using assms(4) by (simp add: quiet_def)
      note sn = arm_snapshot_Inr [OF decided(4) a1]
      have qa2: "quiet a a2" by (rule quiet_trans [OF q quiet_snapshot [OF decided(4)]])
      have pr: "project a = Inr s" using sn same_world_project put_ledger_frame(1) by metis
      have ok: "snapshot_ok s" using project_Inr(2) [OF assms(3) pr] by blast
      have "claim_verdict a2 s c = Inr v"
        using decided c schema
        by (auto simp: arm_verdict_def Let_def ROUTE_DECLARATION_SCHEMA_def TASK_PROPOSAL_SCHEMA_def
            TASK_ADMISSION_SCHEMA_def TASK_CLAIM_SCHEMA_def)
      moreover have "accepted v" using decided(6) assms(2) by (simp add: admitted_def accepted_def ACCEPTED_def)
      ultimately obtain p' where "gate_accepts TASK_CLAIM_SCHEMA task_claim_parse (Contribution c) p'"
        "\<forall>e q. occupies s e q \<longrightarrow> tc_task_ref q = tc_task_ref p' \<longrightarrow> released_holder a2 e"
        using claim_verdict_accepted [OF ok, of a2 c] by blast
      moreover from this(1) p c(1) have "p' = p" by (auto simp: gate_accepts_def)
      ultimately have "tc_task_ref p \<notin> Domain (lease_table a2)"
        using pr same_world_project qa2 by (auto simp: lease_table_def quiet_def)
      then show ?thesis using quiet_lease_table [OF qa2] by simp
    qed
  qed
qed

definition runtime_inv :: "arm_runtime \<Rightarrow> bool" where
  "runtime_inv s \<longleftrightarrow> ledger_ok (rt_arm s) \<and> cache_ok (rt_arm s) \<and>
     pred_option (\<lambda>(spec, candidate). spec_ok spec \<and> candidate_ok candidate \<and>
       ss_session_id spec \<in> set (ar_session_ids (rt_arm s)) \<and>
       ss_session_id spec \<notin> set (ar_settled (rt_arm s)) \<and> cleared (rt_arm s) candidate) (rt_pending s)"

lemma new_claim:
  assumes "is_claim s f p" "decode_entry r content tick = Inr f"
    and "content = PNone \<or> bound_content spec candidate content" "candidate_ok candidate" "spec_ok spec"
    and "cleared a candidate"
  shows "tc_task_ref p \<notin> Domain (lease_table a)"
proof -
  have p: "carries TASK_CLAIM_SCHEMA task_claim_parse (Some (kinds_of TASK_CLAIM_SCHEMA)) f p"
    using assms(1) by (simp add: is_claim_def)
  then have "en_payload f \<noteq> None" by (auto simp: carries_def)
  then have bound: "bound_content spec candidate content" using assms(2,3) opaque_no_payload by metis
  then obtain c where c: "candidate = Contribution c" by (auto simp: bound_content_def)
  with assms(4) have ok: "contribution_ok c" by (simp add: candidate_ok_def)
  have "gate_accepts TASK_CLAIM_SCHEMA task_claim_parse (Contribution c) p \<and>
      (\<exists>d. co_payload c = Inr d \<and> dget ''schema'' d = PStr TASK_CLAIM_SCHEMA)"
    by (rule iffD1 [OF carries_gate [OF bound [unfolded c] ok assms(5,2)] p])
  with assms(6) c show ?thesis unfolding cleared_def by blast
qed

lemma observe_lease_step:
  assumes "observe sha256 spec candidate published a = Inr b" "ledger_ok a" "candidate_ok candidate"
    and "spec_ok spec" "cleared a candidate"
  shows "lease_step (lease_table a) (lease_table b)"
  using assms(1-3)
proof (cases rule: observe_cases)
  case unchanged
  then have "lease_table b = lease_table a" by (intro quiet_lease_table quietI)
  then show ?thesis by (simp add: ended)
next
  case (grown r content)
  note wf = content_wf [OF grown(1)]
  obtain s where s: "project a = Inr s" using project_Inr(1) [OF assms(2)] by blast
  obtain s' f where s': "project b = Inr s'" "adds s f s'" "decode_entry r content (Some (ar_now_tick b)) = Inr f"
    by (rule grown_adds [OF assms(2) grown(2) wf s])
  then have g: "grows s s'" and es: "set (as_entries s') = insert f (set (as_entries s))"
    by (simp_all add: adds_def)
  have released: "released_holder b e = released_holder a e" for e
    using grown(2) by (simp add: grown_def released_holder_def holder_is_released_def)
  have old: "(tc_task_ref p, en_admission_ref e) \<in> lease_table a"
    if "occupies s' e p" "\<not> released_holder a e" "e \<noteq> f" for e p
  proof -
    have "e \<in> set (as_entries s)" using that(1,3) es occupies_claim by (auto simp: is_claim_def)
    then have "occupies s e p" using grows_occupies [OF g that(1)] by blast
    then show ?thesis using that(2) s by (auto simp: lease_table_def)
  qed
  show ?thesis
  proof (cases "\<exists>p. is_claim s' f p")
    case True
    then obtain p where p: "is_claim s' f p" by blast
    have "lease_table b \<subseteq> insert (tc_task_ref p, en_admission_ref f) (lease_table a)"
      using old occupies_claim is_claim_unique [OF _ p] g s'(1)
      by (auto simp: lease_table_def [of b] released grows_def) (metis+)?
    then show ?thesis
      using granted new_claim [OF p s'(3) grown(1) assms(3-5)] by blast
  next
    case False
    then have "lease_table b \<subseteq> lease_table a"
      using old occupies_claim s'(1) by (auto simp: lease_table_def [of b] released) metis
    then show ?thesis by (rule ended)
  qed
qed

lemma grown_settled: "grown a r content b \<Longrightarrow> ar_settled b = ar_settled a"
  by (simp add: grown_def)

lemma publish_review_inv:
  assumes "publish_review spec candidate s = Inr t" "runtime_inv s" "spec_ok spec" "candidate_ok candidate"
    and "ss_session_id spec \<notin> set (ar_settled (rt_arm s))"
  shows "runtime_inv t" "lease_table (rt_arm t) = lease_table (rt_arm s)"
proof -
  from assms(1) obtain b d where b: "review spec candidate (rt_arm s) = Inr (b, d)"
    "t = s\<lparr>rt_arm := b, rt_pending := (if admitted d then Some (spec, candidate) else None)\<rparr>"
    by (auto simp: publish_review_def rbind_Inr_iff)
  note q = review_quiet [OF b(1)]
  have inv: "ledger_ok (rt_arm s)" "cache_ok (rt_arm s)" using assms(2) by (simp_all add: runtime_inv_def)
  have "ss_session_id spec \<in> set (ar_session_ids (rt_arm s))"
    using b(1) by (auto simp: review_def rbind_Inr_iff launch_session_Inr)
  moreover have "ledger_ok b" "cache_ok b" "ar_settled b = ar_settled (rt_arm s)"
    "ar_session_ids b = ar_session_ids (rt_arm s)"
    using q inv same_world_ledger [of "rt_arm s" b] by (auto simp: quiet_def same_world_def)
  moreover have "admitted d \<Longrightarrow> cleared b candidate" using review_cleared [OF b(1) _ inv] .
  ultimately show "runtime_inv t" using assms(3-5) b(2) by (simp add: runtime_inv_def)
  show "lease_table (rt_arm t) = lease_table (rt_arm s)"
    using quiet_lease_table [OF q] b(2) by simp
qed

lemma publish_observe_inv:
  assumes "publish_observe sha256 published s = Inr t" "runtime_inv s"
  shows "runtime_inv t" "lease_step (lease_table (rt_arm s)) (lease_table (rt_arm t))"
proof -
  have "runtime_inv t \<and> lease_step (lease_table (rt_arm s)) (lease_table (rt_arm t))"
  proof (cases "rt_pending s")
    case None
    with assms show ?thesis by (auto simp: publish_observe_def intro: ended)
  next
    case (Some p)
    obtain spec candidate where p: "p = (spec, candidate)" by (cases p)
    with assms(1) Some obtain b where b: "observe sha256 spec candidate published (rt_arm s) = Inr b"
      "t = s\<lparr>rt_arm := b, rt_pending := None\<rparr>"
      by (auto simp: publish_observe_def rbind_Inr_iff)
    have inv: "ledger_ok (rt_arm s)" "cache_ok (rt_arm s)" "spec_ok spec" "candidate_ok candidate"
      "cleared (rt_arm s) candidate"
      using assms(2) Some p by (simp_all add: runtime_inv_def)
    show ?thesis
      using observe_ledger [OF b(1) inv(1,4,2)] observe_lease_step [OF b(1) inv(1,4,3,5)] b(2)
      by (simp add: runtime_inv_def)
  qed
  then show "runtime_inv t" "lease_step (lease_table (rt_arm s)) (lease_table (rt_arm t))" by blast+
qed

lemma evidence_inv:
  assumes "agenda_arm_evidence spec s = Inr (t, value)" "runtime_inv s"
    and "pred_option (\<lambda>(owner, _). ss_session_id owner \<noteq> ss_session_id spec) (rt_pending s)"
  shows "runtime_inv t" "lease_table (rt_arm t) \<subseteq> lease_table (rt_arm s)"
proof -
  let ?a = "rt_arm s"
  from assms(1) obtain b refs c where b: "settle spec ?a = Inr (b, refs)"
    and c: "session_evidence spec b = Inr (c, value)" and t: "t = s\<lparr>rt_arm := c\<rparr>"
    by (auto simp: agenda_arm_evidence_def rbind_Inr_iff)
  have inv: "ledger_ok ?a" "cache_ok ?a" using assms(2) by (simp_all add: runtime_inv_def)
  note w = settle_world [OF b inv(2)]
  note q = session_evidence_quiet [OF c]
  have ok: "ledger_ok c" "cache_ok c" "ar_settled c = ar_settled b" "ar_session_ids c = ar_session_ids ?a"
    using q w inv same_world_ledger [of b c] by (auto simp: quiet_def same_world_def)
  show less: "lease_table (rt_arm t) \<subseteq> lease_table ?a"
    using settle_lease_table [OF b inv(2)] quiet_lease_table [OF q] t by simp
  then have "cleared ?a candidate \<Longrightarrow> cleared c candidate" for candidate
    using cleared_mono t by simp
  then show "runtime_inv t"
    using assms(2,3) ok w(5) t by (cases "rt_pending s") (auto simp: runtime_inv_def)
qed

lemma runtime_step_inv:
  assumes "runtime_step sha256 s t" "runtime_inv s"
  shows "runtime_inv t \<and> lease_step (lease_table (rt_arm s)) (lease_table (rt_arm t))"
  using assms
proof (cases rule: runtime_step.cases)
  case (reviewed spec candidate)
  with publish_review_inv [OF reviewed(5) assms(2)] show ?thesis by (simp add: ended)
next
  case (observed publication published)
  with publish_observe_inv [OF _ assms(2)] show ?thesis by blast
next
  case failed
  with assms(2) show ?thesis by (simp add: runtime_inv_def publish_failed_def ended)
next
  case (settled spec evidence)
  with evidence_inv [OF settled(2) assms(2)] show ?thesis by (simp add: ended)
qed

lemma reachable_inv:
  assumes "runtime_reachable sha256 a s" "ledger_ok a" "cache_ok a"
  shows "runtime_inv s"
  using assms
proof (induction rule: runtime_reachable.induct)
  case opened
  then show ?case by (simp add: runtime_inv_def)
next
  case (stepped s t)
  then show ?case using runtime_step_inv by blast
qed

lemma reachable_exclusive:
  assumes "runtime_reachable sha256 a s" "ledger_ok a" "cache_ok a" "single_valued (lease_table a)"
  shows "single_valued (lease_table (rt_arm s))"
  using assms
proof (induction rule: runtime_reachable.induct)
  case opened
  then show ?case by simp
next
  case (stepped s t)
  then show ?case using runtime_step_inv reachable_inv lease_step_exclusive by blast
qed

section \<open>Opening an arm\<close>

lemma read_base_Inr:
  "read_base seen items = Inr entries \<longleftrightarrow>
   items = map (\<lambda>(r, content). (PStr r, content)) entries \<and> distinct (map fst entries) \<and>
   [] \<notin> set (map fst entries) \<and> set (map fst entries) \<inter> set seen = {}"
proof (induction seen items arbitrary: entries rule: read_base.induct)
  case (2 seen ref content rest)
  then show ?case
    by (cases ref; cases entries) (auto simp: rbind_Inr_iff intro: rev_image_eqI)
qed auto

definition base_ok :: "(pyval \<times> pyval) list \<Rightarrow> bool" where
  "base_ok base \<longleftrightarrow> list_all (\<lambda>(_, content). json_tree content) base \<and> int (length base) \<le> MAXIMUM_TICK"

lemma arm_snapshot_fields:
  "arm_snapshot a = Inr (b, s) \<Longrightarrow> b = a\<lparr>ar_snapshot := Some s\<rparr> \<or> b = a"
  by (auto simp: arm_snapshot_def rbind_Inr_iff split: option.splits)

lemma base_ticks: "map (\<lambda>(r, _). (r, t)) xs = map (\<lambda>(i, r, _). (r, max t (int (Suc i)))) (enumerate n xs)"
  if "int (n + length xs) \<le> t"
  using that by (induction xs arbitrary: n) (auto simp: max_def)

lemma arm_init_Inr:
  assumes "arm_init sha256 cf session_ids base = Inr a" "base_ok base"
  shows "ledger_ok a" "cache_ok a" "ar_settled a = []" "ar_config a = cf" "ar_sessions a = []"
    "ar_base_tick a = int (length base)" "ar_divergences a = 0"
    "base = map (\<lambda>(r, content). (PStr r, content)) (ar_entries a)"
    "arm_session_ids ''session_ids'' session_ids = Inr (ar_session_ids a)"
proof -
  from assms(1) obtain ids entries a1 world roles digest where i:
    "arm_session_ids ''session_ids'' session_ids = Inr ids" "read_base [] base = Inr entries"
    "(let self = \<lparr>ar_config = cf, ar_session_ids = ids, ar_entries = entries,
                   ar_ticks = map (\<lambda>(r, _). (r, int (length entries))) entries, ar_base_tick = int (length entries),
                   ar_now_tick = int (length entries), ar_sessions = [], ar_settled = [], ar_divergences = 0,
                   ar_snapshot = None,
                   ar_roles = \<lparr>ro_coordinator_session_ids = [], ro_admitting_session_ids = []\<rparr>,
                   ar_launch_sha256 = []\<rparr>
      in if open_admission cf
         then rbind (arm_snapshot self) (\<lambda>(self, s). Inr (self, texts (world_authors ids s)))
         else Inr (self, texts [])) = Inr (a1, world)"
    "a = a1\<lparr>ar_roles := roles, ar_launch_sha256 := digest\<rparr>"
    by (auto simp: arm_init_def rbind_Inr_iff Let_def)
  let ?self = "\<lparr>ar_config = cf, ar_session_ids = ids, ar_entries = entries,
                   ar_ticks = map (\<lambda>(r, _). (r, int (length entries))) entries, ar_base_tick = int (length entries),
                   ar_now_tick = int (length entries), ar_sessions = [], ar_settled = [], ar_divergences = 0,
                   ar_snapshot = None,
                   ar_roles = \<lparr>ro_coordinator_session_ids = [], ro_admitting_session_ids = []\<rparr>,
                   ar_launch_sha256 = []\<rparr>"
  have cache: "cache_ok ?self" by (simp add: cache_ok_def)
  have w: "same_world ?self a1 \<and> cache_ok a1 \<and> ar_sessions a1 = [] \<and> ar_divergences a1 = 0"
  proof (cases "open_admission cf")
    case True
    then obtain s where s: "arm_snapshot ?self = Inr (a1, s)" using i(3) by (auto simp: rbind_Inr_iff Let_def)
    from arm_snapshot_Inr [OF s cache] arm_snapshot_fields [OF s] show ?thesis by auto
  next
    case False
    then show ?thesis using i(3) cache by auto
  qed
  have base: "base = map (\<lambda>(r, content). (PStr r, content)) entries" "distinct (map fst entries)"
    "[] \<notin> set (map fst entries)"
    using i(2) by (simp_all add: read_base_Inr)
  then have len: "length base = length entries" by simp
  have contents: "list_all (\<lambda>(_, content). json_tree content) entries"
    using assms(2) base(1) by (auto simp: base_ok_def list_all_iff)
  have a: "ar_entries a = entries" "ar_ticks a = map (\<lambda>(r, _). (r, int (length entries))) entries"
    "ar_base_tick a = int (length entries)" "ar_now_tick a = int (length entries)"
    using w i(4) by (simp_all add: same_world_def)
  show "ledger_ok a"
    using base contents assms(2) base_ticks [of 0 entries "int (length entries)"]
    unfolding ledger_ok_def a by (simp add: base_ok_def len list_all_iff split_beta)
  show "cache_ok a" using w i(4) by (simp add: cache_ok_def project_def)
  show "ar_settled a = []" "ar_config a = cf" "ar_sessions a = []" "ar_divergences a = 0"
    "ar_base_tick a = int (length base)"
    "base = map (\<lambda>(r, content). (PStr r, content)) (ar_entries a)"
    "arm_session_ids ''session_ids'' session_ids = Inr (ar_session_ids a)"
    using w i base(1) by (simp_all add: same_world_def)
qed

text \<open>Nothing in the world that the launch found was written by one of its own sessions.\<close>

definition foreign_world :: "agenda_arm \<Rightarrow> bool" where
  "foreign_world a \<longleftrightarrow> (\<forall>s e x. project a = Inr s \<longrightarrow> e \<in> set (as_entries s) \<longrightarrow>
     en_session_id e = Some x \<longrightarrow> x \<notin> set (ar_session_ids a))"

lemma foreign_lease_table:
  assumes "foreign_world a"
  shows "lease_table a = {}"
proof -
  have False if l: "(t, r) \<in> lease_table a" for t r
  proof -
    from l obtain s e p where s: "project a = Inr s" "occupies s e p" "\<not> released_holder a e"
      unfolding lease_table_def by blast
    then have e: "e \<in> set (as_entries s)" "en_session_id e \<noteq> None"
      by (simp_all add: occupies_def is_claim_def)
    then obtain x where x: "en_session_id e = Some x" by blast
    with assms s(1) e(1) have "x \<notin> set (ar_session_ids a)" by (simp add: foreign_world_def)
    with s(3) x show False by (simp add: released_holder_def holder_is_released_def)
  qed
  then show ?thesis by auto
qed

section \<open>The clock\<close>

lemma runtime_step_clock:
  assumes "runtime_step sha256 s t" "runtime_inv s"
  shows "prefix (ar_entries (rt_arm s)) (ar_entries (rt_arm t)) \<and>
    length (ar_entries (rt_arm t)) \<le> Suc (length (ar_entries (rt_arm s))) \<and>
    ar_base_tick (rt_arm t) = ar_base_tick (rt_arm s) \<and>
    set (ar_settled (rt_arm s)) \<subseteq> set (ar_settled (rt_arm t)) \<and>
    ar_config (rt_arm t) = ar_config (rt_arm s) \<and> ar_roles (rt_arm t) = ar_roles (rt_arm s) \<and>
    ar_session_ids (rt_arm t) = ar_session_ids (rt_arm s)"
  using assms
proof (cases rule: runtime_step.cases)
  case (reviewed spec candidate)
  then have "same_world (rt_arm s) (rt_arm t)"
    using review_quiet by (auto simp: publish_review_def rbind_Inr_iff quiet_def)
  then show ?thesis by (simp add: same_world_def)
next
  case (observed publication published)
  obtain spec candidate where p: "publication = (spec, candidate)" by (cases publication)
  with observed obtain b where b: "observe sha256 spec candidate published (rt_arm s) = Inr b" "rt_arm t = b"
    by (auto simp: publish_observe_def rbind_Inr_iff)
  have "ledger_ok (rt_arm s)" "candidate_ok candidate"
    using assms(2) observed p by (simp_all add: runtime_inv_def)
  with b(1) show ?thesis
    unfolding b(2) by (cases rule: observe_cases) (auto simp: same_world_def grown_def)
next
  case failed
  then show ?thesis by (simp add: publish_failed_def)
next
  case (settled spec evidence)
  then obtain b refs c where b: "settle spec (rt_arm s) = Inr (b, refs)"
    "session_evidence spec b = Inr (c, evidence)" "rt_arm t = c"
    by (auto simp: agenda_arm_evidence_def rbind_Inr_iff)
  have "same_world b c" using session_evidence_quiet [OF b(2)] by (simp add: quiet_def)
  moreover have "cache_ok (rt_arm s)" using assms(2) by (simp add: runtime_inv_def)
  from b(1) this have "ar_entries b = ar_entries (rt_arm s) \<and> ar_base_tick b = ar_base_tick (rt_arm s) \<and>
    set (ar_settled (rt_arm s)) \<subseteq> set (ar_settled b) \<and> ar_config b = ar_config (rt_arm s) \<and>
    ar_roles b = ar_roles (rt_arm s) \<and> ar_session_ids b = ar_session_ids (rt_arm s)"
    by (cases rule: settle_cases) (auto simp: quiet_def same_world_def)
  ultimately show ?thesis unfolding b(3) by (simp add: same_world_def)
qed

lemma reachable_clock:
  assumes "runtime_reachable sha256 a s" "ledger_ok a" "cache_ok a"
  shows "prefix (ar_entries a) (ar_entries (rt_arm s)) \<and> ar_base_tick (rt_arm s) = ar_base_tick a \<and>
    ar_config (rt_arm s) = ar_config a \<and> ar_roles (rt_arm s) = ar_roles a \<and>
    ar_session_ids (rt_arm s) = ar_session_ids a"
  using assms
proof (induction rule: runtime_reachable.induct)
  case (stepped s t)
  from runtime_step_clock [OF stepped(2) reachable_inv [OF stepped(1,4,5)]] stepped(3-5)
  show ?case by (auto intro: prefix_order.trans)
qed simp

text \<open>The claim at index \<open>i\<close> of the ledger was observed at its index, or when the launch opened.\<close>

lemma claim_tick:
  assumes "ledger_ok a" "project a = Inr s" "is_claim s e p" "i < length (ar_entries a)"
    and "fst (ar_entries a ! i) = en_admission_ref e"
  shows "as_now_tick s = Some (int (length (ar_entries a)))"
    "en_observed_at_tick e = Some (max (ar_base_tick a) (int (Suc i)))"
proof -
  let ?r = "en_admission_ref e"
  show "as_now_tick s = Some (int (length (ar_entries a)))"
    using project_Inr(2) [OF assms(1,2)] assms(1) by (simp add: ledger_ok_def)
  have d: "distinct (map fst (ar_ticks a))"
    using assms(1) ticks_keys [OF assms(1)] by (simp add: ledger_ok_def)
  have "(?r, max (ar_base_tick a) (int (Suc i))) \<in> set (ar_ticks a)"
  proof -
    have "(i, ar_entries a ! i) \<in> set (enumerate 0 (ar_entries a))"
      using assms(4) by (simp add: in_set_enumerate_eq)
    moreover have "ar_ticks a = map (\<lambda>(i, r, _). (r, max (ar_base_tick a) (int (Suc i)))) (enumerate 0 (ar_entries a))"
      using assms(1) by (simp only: ledger_ok_def)
    ultimately show ?thesis using assms(5) by (force simp: split_beta)
  qed
  then have tick: "map_of (ar_ticks a) ?r = Some (max (ar_base_tick a) (int (Suc i)))"
    using d by (simp add: map_of_eq_Some_iff)
  have "e \<in> set (as_entries s)" using assms(3) by (simp add: is_claim_def)
  then obtain r content where "decode_entry r content (map_of (ar_ticks a) r) = Inr e"
    using project_Inr(3) [OF assms(1,2)] by blast
  from decode_entry_ref [OF this] tick show "en_observed_at_tick e = Some (max (ar_base_tick a) (int (Suc i)))"
    by simp
qed

end
