(* ===== verification/Arm_Answers.thy ===== *)
theory Arm_Answers
  imports Arm_Runtime
begin

text \<open>
  Reviews never fail: every validator returns a verdict of the closed vocabulary, so every review of a
  candidate of a launch session ends with a recorded decision. Then the accounting of the settlement
  evidence, what settling ends, the decision on a plain contribution, and what exactly the observation of a
  publication leaves in the ledger.
\<close>

section \<open>Every review is answered\<close>

text \<open>A weakest precondition on what a computation returns, and the verdicts of the closed vocabulary.\<close>

definition returns :: "('a \<Rightarrow> bool) \<Rightarrow> 'a result \<Rightarrow> bool" where
  "returns P m \<longleftrightarrow> (\<forall>x. m = Inr x \<longrightarrow> P x)"

definition known_verdict :: "verdict \<Rightarrow> bool" where
  "known_verdict v \<longleftrightarrow> v_code v \<in> set VERDICT_CODES"

lemma returns_simps [simp]: "returns P (Inl e)" "returns P (Inr x) = P x"
  by (simp_all add: returns_def)

lemma returns_rbind: "(\<And>x. m = Inr x \<Longrightarrow> returns P (f x)) \<Longrightarrow> returns P (rbind m f)"
  by (auto simp: returns_def rbind_Inr_iff)

lemma returns_reject [simp]: "returns known_verdict (reject code detail)"
  by (auto simp: returns_def reject_def verdict_init_Inr known_verdict_def split: if_splits)

lemma known_verdict_of [simp]: "known_verdict (verdict_of code detail) \<longleftrightarrow> code \<in> set VERDICT_CODES"
  by (simp add: known_verdict_def)

lemma known_accepted [simp]: "ACCEPTED \<in> set VERDICT_CODES" "''ACCEPTED'' \<in> set VERDICT_CODES"
  by (simp_all add: ACCEPTED_def VERDICT_CODES_def)

lemma returns_rejected: "returns known_verdict m \<Longrightarrow> returns (case_sum known_verdict Q) (rejected m)"
  by (auto simp: returns_def rejected_def rbind_Inr_iff)

lemma returns_parse [simp]: "returns (case_sum known_verdict (\<lambda>_. True)) (parse_candidate schema parser candidate)"
  unfolding parse_candidate_def Let_def
  by (intro returns_rbind)
    (auto simp: require_contribution_def schema_rejection_def rbind_Inr_iff known_verdict_def VERDICT_CODES_def
      simp del: reject_simps intro!: returns_rejected split: candidate.splits sum.splits exn.splits, auto)

lemma returns_gate:
  "returns (case_sum known_verdict (\<lambda>_. True)) m \<Longrightarrow> (\<And>p. returns known_verdict (f p)) \<Longrightarrow>
   returns known_verdict (gate m f)"
  unfolding gate_def by (rule returns_rbind) (auto simp: returns_def split: sum.splits)

lemma returns_held: "returns (case_sum known_verdict (\<lambda>_. True)) (held_claim s t c roles author)"
  by (auto simp: held_claim_def returns_rejected simp del: reject_simps split: option.splits)

lemma returns_dependency: "returns (pred_option known_verdict) (dependency_verdict s refs roles)"
  by (auto simp: dependency_verdict_def VERDICT_CODES_def split: option.splits)

lemma returns_sublemma: "returns known_verdict (sublemma_decision tasks ls)"
  by (induction tasks ls rule: sublemma_decision.induct) (auto simp: VERDICT_CODES_def split: option.splits)

lemma returns_decisions:
  "returns known_verdict (task_proposal_decision s roles p1)"
  "returns known_verdict (task_admission_decision s roles author p2)"
  "returns known_verdict (task_claim_decision s roles p3)"
  "returns known_verdict (task_release_decision s roles author p4)"
  "returns known_verdict (completion_decision s roles c p5)"
  "returns known_verdict (task_outcome_decision s roles author candidate p5)"
  "returns known_verdict (directive_decision s roles author p6)"
  "returns known_verdict (decomposition_decision s roles p7)"
  "returns known_verdict (route_decision s p8)"
  "returns known_verdict (citation_decision s roles refs)"
proof -
  show "returns known_verdict (task_claim_decision s roles p3)"
  proof -
    have d: "dependency_verdict s refs roles = Inr (Some v) \<Longrightarrow> known_verdict v" for refs v
      using returns_dependency [of s refs roles] by (simp add: returns_def)
    show ?thesis
      by (auto simp: task_claim_decision_def VERDICT_CODES_def returns_def rbind_Inr_iff
          split: option.splits list.splits if_splits dest: d)
  qed
  show c: "returns known_verdict (completion_decision s roles c p5)" for c p5
    by (auto simp: completion_decision_def VERDICT_CODES_def split: option.splits)
  show "returns known_verdict (task_release_decision s roles author p4)"
    unfolding task_release_decision_def by (intro returns_gate returns_held) (simp add: VERDICT_CODES_def)
  show "returns known_verdict (task_outcome_decision s roles author candidate p5)"
    unfolding task_outcome_decision_def
    by (auto split: candidate.splits option.splits intro!: returns_gate returns_held c simp: VERDICT_CODES_def)
qed (auto simp: task_proposal_decision_def task_admission_decision_def directive_decision_def
    decomposition_decision_def route_decision_def citation_decision_def VERDICT_CODES_def
    split: option.splits list.splits intro: returns_sublemma)

lemma returns_validators:
  "returns known_verdict (validate_task_proposal s candidate roles)"
  "returns known_verdict (validate_task_admission s candidate roles author)"
  "returns known_verdict (validate_task_claim s candidate roles)"
  "returns known_verdict (validate_task_release s candidate roles author)"
  "returns known_verdict (validate_task_outcome s candidate roles author)"
  "returns known_verdict (validate_directive s candidate roles author)"
  "returns known_verdict (validate_decomposition s candidate roles)"
  "returns known_verdict (validate_route_declaration s candidate)"
  by (simp_all add: validate_task_proposal_def validate_task_admission_def validate_task_claim_def
      validate_task_release_def validate_task_outcome_def validate_directive_def validate_decomposition_def
      validate_route_declaration_def returns_gate returns_decisions)

lemma returns_citation: "returns known_verdict (validate_directive_citation s (Contribution c) roles)"
  unfolding validate_directive_citation_def require_contribution_def
  by (auto intro!: returns_rbind simp: returns_decisions split: sum.splits exn.splits simp del: reject_simps)

lemma returns_arm_verdict: "returns known_verdict (arm_verdict a s x c schema)"
proof -
  have "returns known_verdict (claim_verdict a s c)"
    unfolding claim_verdict_def Let_def
    by (rule returns_rbind) (use returns_validators(3) in \<open>auto simp: returns_def split: sum.splits if_splits\<close>)
  then show ?thesis
    by (auto simp: arm_verdict_def Let_def returns_validators returns_citation split: option.splits)
qed

lemma arm_decision_init_total:
  "code \<in> set ARM_VERDICT_CODES \<Longrightarrow> \<exists>d. arm_decision_init x n kind schema instrument code detail = Inr d"
  by (simp add: arm_decision_init_def Let_def)

lemma known_code: "known_verdict v \<Longrightarrow> v_code v \<in> set ARM_VERDICT_CODES"
  by (simp add: known_verdict_def ARM_VERDICT_CODES_def)

lemma set_admitted:
  "set (admitted_payload_schemas cf) = insert ROUTE_DECLARATION_SCHEMA
     (\<Union>i \<in> set (instruments cf). set (the (map_of INSTRUMENT_SCHEMAS i)))"
  by (simp add: admitted_payload_schemas_def TELEMETRY_SCHEMAS_def del: remdups.simps)

lemma instruments_arm:
  assumes "cf_arm cf \<in> set (keys ARM_INSTRUMENTS)"
  shows "cf_arm cf = ''P'' \<and> instruments cf = [ADVISORY] \<or> cf_arm cf = ''D'' \<and> instruments cf = [BINDING] \<or>
    cf_arm cf = ''A'' \<and> instruments cf = [ADVISORY, BINDING] \<or>
    cf_arm cf = ''C'' \<and> instruments cf = [ADVISORY, DIRECTIVE]"
  using assms by (auto simp: instruments_def ARM_INSTRUMENTS_def keys_def)

lemma instrument_schemas:
  "the (map_of INSTRUMENT_SCHEMAS ADVISORY) = []"
  "the (map_of INSTRUMENT_SCHEMAS BINDING) = [TASK_PROPOSAL_SCHEMA, TASK_ADMISSION_SCHEMA, TASK_CLAIM_SCHEMA,
     TASK_RELEASE_SCHEMA, TASK_OUTCOME_SCHEMA, DECOMPOSITION_SCHEMA]"
  "the (map_of INSTRUMENT_SCHEMAS DIRECTIVE) = [DIRECTIVE_SCHEMA]"
  by (simp_all add: INSTRUMENT_SCHEMAS_def ADVISORY_def BINDING_def DIRECTIVE_def)

lemma admitted_schemas:
  assumes "cf_arm cf \<in> set (keys ARM_INSTRUMENTS)" "name \<in> set (admitted_payload_schemas cf)"
  shows "name \<in> {ROUTE_DECLARATION_SCHEMA, TASK_PROPOSAL_SCHEMA, TASK_ADMISSION_SCHEMA, TASK_CLAIM_SCHEMA,
    TASK_RELEASE_SCHEMA, TASK_OUTCOME_SCHEMA, DIRECTIVE_SCHEMA, DECOMPOSITION_SCHEMA}"
  using assms(2) instruments_arm [OF assms(1)] by (auto simp: set_admitted instrument_schemas)

lemma arm_verdict_total:
  assumes "snapshot_ok s" "contribution_ok c" "cf_arm (ar_config a) \<in> set (keys ARM_INSTRUMENTS)"
    and "pred_option (\<lambda>name. name \<in> set (admitted_payload_schemas (ar_config a))) schema"
  shows "\<exists>v. arm_verdict a s x c schema = Inr v"
proof (cases schema)
  case None
  obtain d where "co_payload c = Inr d" using contribution_payload_Inr [OF assms(2)] by blast
  from citation_accepted_iff [OF assms(1,2) this, of "ar_roles a"] None show ?thesis
    by (auto simp: arm_verdict_def Let_def)
next
  case (Some name)
  with assms(3,4) have name: "name \<in> {ROUTE_DECLARATION_SCHEMA, TASK_PROPOSAL_SCHEMA, TASK_ADMISSION_SCHEMA,
      TASK_CLAIM_SCHEMA, TASK_RELEASE_SCHEMA, TASK_OUTCOME_SCHEMA, DIRECTIVE_SCHEMA, DECOMPOSITION_SCHEMA}"
    using admitted_schemas [of "ar_config a" name] by simp
  have ok: "candidate_ok (Contribution c)" using assms(2) by (simp add: candidate_ok_def)
  note answers = proposal_validator.answers [OF ok] admission_validator.answers [OF ok]
    release_validator.answers [OF ok] outcome_validator.answers [OF ok] directive_validator.answers [OF ok]
    decomposition_validator.answers [OF ok] route_validator.answers [OF ok] claim_verdict_total [OF assms(1,2)]
  from name show ?thesis
    using answers by (simp add: arm_verdict_def Let_def Some) blast
qed

lemma count_route_total:
  assumes "ledger_ok a" "contribution_ok c"
  shows "\<exists>b. count_route_declaration x c d a = Inr b"
proof -
  let ?a1 = "bump_route x ''count'' 1 a"
  obtain p where p: "co_payload c = Inr p" using contribution_payload_Inr [OF assms(2)] by blast
  show ?thesis
  proof (cases "route_declaration_parse (PDict p)")
    case (Inl e)
    then have "is_value_error e"
      using schema_safe_parse(8) [of "PDict p"] by (auto simp: schema_safe_def schema_failure_def)
    with Inl p show ?thesis by (simp add: count_route_declaration_def Let_def)
  next
    case (Inr q)
    have "quiet a (mark_route x q ?a1)" by (rule quiet_trans [OF quiet_simps(3) mark_route_quiet])
    then have "ledger_ok (mark_route x q ?a1)"
      using assms(1) same_world_ledger [of a "mark_route x q ?a1"] by (simp add: quiet_def)
    then obtain a3 s where "arm_snapshot (mark_route x q ?a1) = Inr (a3, s)" using arm_snapshot_total by blast
    with Inr p show ?thesis by (simp add: count_route_declaration_def Let_def)
  qed
qed

lemma review_total:
  assumes "ledger_ok a" "cache_ok a" "ss_session_id spec \<in> set (ar_session_ids a)" "candidate_ok candidate"
    and "cf_arm (ar_config a) \<in> set (keys ARM_INSTRUMENTS)"
  shows "\<exists>b d. review spec candidate a = Inr (b, d)"
proof -
  let ?x = "ss_session_id spec"
  let ?a1 = "put_ledger ?x (get_ledger a ?x) a"
  have launch: "launch_session a spec = Inr ?x" using assms(3) by (simp add: launch_session_Inr)
  have q: "quiet a ?a1" by simp
  then have a1: "ledger_ok ?a1" "cache_ok ?a1" using assms(1,2) same_world_ledger [of a ?a1] by (simp_all add: quiet_def)
  obtain a2 s where s: "arm_snapshot ?a1 = Inr (a2, s)" using arm_snapshot_total [OF a1(1)] by blast
  have q2: "quiet a a2" by (rule quiet_trans [OF q quiet_snapshot [OF s]])
  then have a2: "ledger_ok a2" "ar_config a2 = ar_config a"
    using assms(1) same_world_ledger [of a a2] by (simp_all add: quiet_def same_world_def)
  have ok: "snapshot_ok s" using arm_snapshot_Inr [OF s a1(2)] project_Inr(2) [OF a1(1)] by blast
  note init = arm_decision_init_total
  have free: ?thesis if "\<forall>c. candidate \<noteq> Contribution c"
  proof -
    have "''CANDIDATE_NOT_IDENTITY_FREE'' \<in> set ARM_VERDICT_CODES"
      by (simp add: ARM_VERDICT_CODES_def VERDICT_CODES_def)
    from init [OF this] that show ?thesis
      by (cases candidate) (auto simp: review_def launch Let_def rbind_Inr_iff)
  qed
  show ?thesis
  proof (cases candidate)
    case (Contribution c)
    with assms(4) have c: "contribution_ok c" by (simp add: candidate_ok_def)
    obtain p where p: "co_payload c = Inr p" using contribution_payload_Inr [OF c] by blast
    let ?schema = "payload_schema (PDict p)"
    show ?thesis
    proof (cases "?schema \<noteq> None \<and> the ?schema \<notin> set (admitted_payload_schemas (ar_config a))")
      case True
      have "OUT_OF_ARM_INSTRUMENT \<in> set ARM_VERDICT_CODES" by (simp add: ARM_VERDICT_CODES_def)
      from init [OF this] True show ?thesis
        by (auto simp: review_def launch Let_def rbind_Inr_iff Contribution p)
    next
      case False
      then have "pred_option (\<lambda>name. name \<in> set (admitted_payload_schemas (ar_config a2))) ?schema"
        by (cases ?schema) (auto simp: a2)
      then obtain v where v: "arm_verdict a2 s ?x c ?schema = Inr v"
        using arm_verdict_total [OF ok c] assms(5) a2(2) by metis
      then have "v_code v \<in> set ARM_VERDICT_CODES"
        using returns_arm_verdict [of a2 s ?x c ?schema] known_code by (simp add: returns_def)
      then obtain d where d: "arm_decision_init ?x (Suc (length (lg_decisions (get_ledger a ?x)))) (co_kind c) ?schema
          (instrument_of ?schema) (v_code v) (v_detail v) = Inr d"
        using init by blast
      have "ledger_ok (record_decision ?x d a2)"
        using a2(1) same_world_ledger [of a2 "record_decision ?x d a2"] by simp
      then obtain b where "count_route_declaration ?x c d (record_decision ?x d a2) = Inr b"
        using count_route_total [OF _ c] by blast
      with False s v d show ?thesis
        by (auto simp: review_def launch Let_def Contribution p)
    qed
  qed (use free in auto)
qed

text \<open>A configured arm is one of the four.\<close>

lemma arm_config_init_arm:
  "arm_config_init arm coordinators admitting require_claim enforce = Inr cf \<Longrightarrow>
   cf_arm cf \<in> set (keys ARM_INSTRUMENTS)"
  by (auto simp: arm_config_init_def rbind_Inr_iff Let_def split: pyval.splits if_splits)

section \<open>Settlement evidence\<close>

lemma count_of_bump [simp]: "count_of k (bump k' n counts) = (if k = k' then count_of k counts + n else count_of k counts)"
  by (auto simp: count_of_def bump_def update_conv' split: option.splits)

lemma keys_update: "set (keys (AList.update k v d)) = insert k (set (keys d))"
  by (induction d) (auto simp: keys_def)

lemma distinct_bump: "distinct (keys counts) \<Longrightarrow> distinct (keys (bump k n counts))"
  by (simp add: bump_def keys_def distinct_update)

text \<open>A tally over decisions: \<open>f d\<close> is the key that \<open>d\<close> is counted under, if any.\<close>

definition tally :: "('a \<Rightarrow> string option) \<Rightarrow> 'a list \<Rightarrow> (string \<times> nat) list \<Rightarrow> (string \<times> nat) list" where
  "tally f ds counts = fold (\<lambda>d counts. case f d of None \<Rightarrow> counts | Some k \<Rightarrow> bump k 1 counts) ds counts"

lemma count_tally: "count_of k (tally f ds counts) = count_of k counts + length (filter (\<lambda>d. f d = Some k) ds)"
  unfolding tally_def by (induction ds arbitrary: counts) (auto split: option.splits)

lemma distinct_tally: "distinct (keys counts) \<Longrightarrow> distinct (keys (tally f ds counts))"
  unfolding tally_def by (induction ds arbitrary: counts) (auto simp: distinct_bump split: option.splits)

lemma sum_bump:
  assumes "distinct (keys counts)"
  shows "sum_list (map snd (bump k n counts)) = sum_list (map snd counts) + n"
  using assms unfolding bump_def
  by (induction counts) (auto simp: keys_def split: option.splits dest: map_of_SomeD)

lemma sum_tally:
  "distinct (keys counts) \<Longrightarrow>
   sum_list (map snd (tally f ds counts)) = sum_list (map snd counts) + length (filter (\<lambda>d. f d \<noteq> None) ds)"
  unfolding tally_def
  by (induction ds arbitrary: counts) (auto simp: sum_bump distinct_bump split: option.splits)

lemma verdict_counts_tally: "verdict_counts ds = tally (\<lambda>d. Some (ad_code d)) ds []"
  by (simp add: verdict_counts_def tally_def)

lemma instrument_counts_tally: "instrument_counts ds = tally ad_instrument ds []"
  by (simp add: instrument_counts_def tally_def)

lemma schema_counts_tally: "schema_counts ds = tally ad_payload_schema ds []"
  by (simp add: schema_counts_def tally_def)

lemma admitted_count_filter: "admitted_count ds = length (filter admitted ds)"
proof -
  have "fold (\<lambda>d n. if admitted d then Suc n else n) ds n = n + length (filter admitted ds)" for n
    by (induction ds arbitrary: n) auto
  then show ?thesis by (simp add: admitted_count_def)
qed

lemma count_of_Nil [simp]: "count_of k [] = 0"
  by (simp add: count_of_def)

lemma keys_Nil [simp]: "keys [] = []"
  by (simp add: keys_def)

text \<open>The evidence of a session is closed: its counts add up.\<close>

lemma evidence_counts:
  shows "count_of ''ACCEPTED'' (verdict_counts ds) = admitted_count ds"
    and "sum_list (map snd (verdict_counts ds)) = length ds"
    and "count_of i (instrument_counts ds) = length (filter (\<lambda>d. ad_instrument d = Some i) ds)"
    and "sum_list (map snd (schema_counts ds)) = length (filter (\<lambda>d. ad_payload_schema d \<noteq> None) ds)"
    and "admitted_count ds \<le> length ds"
proof -
  show "count_of ''ACCEPTED'' (verdict_counts ds) = admitted_count ds"
    by (simp add: verdict_counts_tally count_tally admitted_count_filter admitted_def [abs_def])
  show "sum_list (map snd (verdict_counts ds)) = length ds"
    by (simp add: verdict_counts_tally sum_tally)
  show "count_of i (instrument_counts ds) = length (filter (\<lambda>d. ad_instrument d = Some i) ds)"
    by (simp add: instrument_counts_tally count_tally)
  show "sum_list (map snd (schema_counts ds)) = length (filter (\<lambda>d. ad_payload_schema d \<noteq> None) ds)"
    by (simp add: schema_counts_tally sum_tally)
  show "admitted_count ds \<le> length ds" by (simp add: admitted_count_filter)
qed

section \<open>Settled sessions\<close>

lemma settle_again:
  assumes "settle spec a = Inr (b, refs)" "cache_ok a"
  shows "settle spec b = Inr (b, refs) \<or> settle spec b = Inr (put_ledger (ss_session_id spec) (get_ledger b (ss_session_id spec)) b, refs)"
  using assms
proof (cases rule: settle_cases)
  case again
  then have "ss_session_id spec \<in> set (ar_session_ids a)"
    using assms(1) by (auto simp: settle_def rbind_Inr_iff launch_session_Inr)
  with again show ?thesis by (simp add: settle_def launch_session_def Let_def)
next
  case (settled s)
  then have "ss_session_id spec \<in> set (ar_session_ids b)" "ss_session_id spec \<in> set (ar_settled b)"
    by (simp_all add: same_world_def)
  with settled show ?thesis by (simp add: settle_def launch_session_def Let_def)
qed

text \<open>After its settlement a session holds nothing, and only its own leases ended.\<close>

lemma settle_ends_leases:
  assumes "settle spec a = Inr (b, refs)" "cache_ok a" "project a = Inr s"
  shows "lease_table b = {(t, r). \<exists>e p. occupies s e p \<and> tc_task_ref p = t \<and> en_admission_ref e = r \<and>
    \<not> released_holder a e \<and> en_session_id e \<noteq> Some (ss_session_id spec)}"
proof -
  note w = settle_world [OF assms(1,2)]
  have "ss_session_id spec \<in> set (ar_session_ids a)"
    using assms(1) by (auto simp: settle_def rbind_Inr_iff launch_session_Inr)
  then have "released_holder b e \<longleftrightarrow> released_holder a e \<or> en_session_id e = Some (ss_session_id spec)" for e
    using w(4,5) by (auto simp: released_holder_def holder_is_released_def)
  then show ?thesis unfolding lease_table_def w(1) assms(3) by auto
qed

section \<open>What a review records\<close>

lemma quiet_same: "quiet a b \<Longrightarrow> same_world a b"
  by (simp add: quiet_def)

definition decisions_of :: "agenda_arm \<Rightarrow> string \<Rightarrow> arm_decision list" where
  "decisions_of a x = lg_decisions (get_ledger a x)"

lemma decisions_simps [simp]:
  "decisions_of (record_decision x d a) y = (if y = x then decisions_of a x @ [d] else decisions_of a y)"
  "decisions_of (bump_route x k n a) y = decisions_of a y"
  "decisions_of (mark_route x p a) y = decisions_of a y"
  "decisions_of (put_ledger x (get_ledger a x) a) y = decisions_of a y"
  by (simp_all add: decisions_of_def record_decision_def bump_route_def mark_route_def Let_def)

lemma decisions_snapshot: "arm_snapshot a = Inr (b, s) \<Longrightarrow> decisions_of b y = decisions_of a y"
  using get_ledger_sessions [OF arm_snapshot_sessions] by (simp add: decisions_of_def)

lemma decisions_count: "count_route_declaration x c d a = Inr b \<Longrightarrow> decisions_of b y = decisions_of a y"
  by (auto simp: count_route_declaration_def Let_def rbind_Inr_iff decisions_snapshot split: sum.splits if_splits)

lemma review_records:
  assumes "review spec candidate a = Inr (b, d)"
  shows "decisions_of b y =
    (if y = ss_session_id spec then decisions_of a (ss_session_id spec) @ [d] else decisions_of a y)"
  using assms
proof (cases rule: review_cases)
  case (decided c p a2 s v)
  have "decisions_of a2 y = decisions_of a y" for y
    using decisions_snapshot [OF decided(4)] by simp
  then show ?thesis using decided(8) decisions_count by auto
qed simp_all

lemma out_of_arm_not_known: "known_verdict v \<Longrightarrow> v_code v \<noteq> OUT_OF_ARM_INSTRUMENT"
  by (auto simp: known_verdict_def OUT_OF_ARM_INSTRUMENT_def VERDICT_CODES_def ACCEPTED_def)

text \<open>The candidate names an instrument that the arm does not expose.\<close>

definition out_of_arm :: "agenda_arm_config \<Rightarrow> candidate \<Rightarrow> bool" where
  "out_of_arm cf candidate \<longleftrightarrow> (\<exists>c p name. candidate = Contribution c \<and> co_payload c = Inr p \<and>
     payload_schema (PDict p) = Some name \<and> name \<notin> set (admitted_payload_schemas cf))"

lemma review_out_of_arm:
  assumes "review spec candidate a = Inr (b, d)"
  shows "ad_code d = OUT_OF_ARM_INSTRUMENT \<longleftrightarrow> out_of_arm (ar_config a) candidate"
  using assms
proof (cases rule: review_cases)
  case not_free
  then show ?thesis by (auto simp: out_of_arm_def OUT_OF_ARM_INSTRUMENT_def)
next
  case (out_of_arm c p name)
  then show ?thesis by (auto simp: out_of_arm_def)
next
  case (decided c p a2 s v)
  have "known_verdict v" using returns_arm_verdict [of a2 s] decided(5) by (simp add: returns_def)
  then have "ad_code d \<noteq> OUT_OF_ARM_INSTRUMENT" using out_of_arm_not_known decided(6) by simp
  with decided show ?thesis by (auto simp: out_of_arm_def)
qed

lemma review_admits:
  assumes "review spec candidate a = Inr (b, d)" "admitted d"
  shows "\<exists>c. candidate = Contribution c"
    and "pred_option (\<lambda>name. name \<in> set (admitted_payload_schemas (ar_config a))) (ad_payload_schema d)"
proof -
  from assms have "(\<exists>c. candidate = Contribution c) \<and>
    pred_option (\<lambda>name. name \<in> set (admitted_payload_schemas (ar_config a))) (ad_payload_schema d)"
    by (cases rule: review_cases) (auto simp: admitted_def OUT_OF_ARM_INSTRUMENT_def)
  then show "\<exists>c. candidate = Contribution c"
    and "pred_option (\<lambda>name. name \<in> set (admitted_payload_schemas (ar_config a))) (ad_payload_schema d)"
    by blast+
qed

section \<open>A publication that was seen before\<close>

lemma observe_duplicate:
  assumes "observe sha256 spec candidate published a = Inr b" "ledger_ok a"
    and "publication_identity published = (Some r, h)" "r \<in> fst ` set (ar_entries a)"
    and "is_claim_candidate candidate = Inr True"
  shows "same_world a b" "ar_divergences a < ar_divergences b"
    "lg_claim_refs (get_ledger b (ss_session_id spec)) = lg_claim_refs (get_ledger a (ss_session_id spec)) @ [r]"
proof -
  let ?x = "ss_session_id spec"
  have known: "r \<in> set (keys (ar_ticks a))" using assms(4) ticks_keys_set [OF assms(2)] by simp
  from assms(1,3,5) obtain content a2 where o:
    "append_entry r content (if content = PNone then a\<lparr>ar_divergences := Suc (ar_divergences a)\<rparr> else a) = Inr a2"
    "b = put_ledger ?x ((get_ledger a2 ?x)\<lparr>lg_claim_refs := lg_claim_refs (get_ledger a2 ?x) @ [r]\<rparr>) a2"
    unfolding observe_def Let_def by (auto simp: rbind_Inr_iff launch_session_Inr)
  have a2: "a2 = a\<lparr>ar_divergences := ar_divergences a + (if content = PNone then 2 else 1)\<rparr>"
    using o(1) known by (cases "content = PNone") (simp_all add: append_entry_def)
  then have "get_ledger a2 = get_ledger a" by (simp add: get_ledger_def fun_eq_iff)
  then show "lg_claim_refs (get_ledger b ?x) = lg_claim_refs (get_ledger a ?x) @ [r]" by (simp add: o(2))
  show "same_world a b" "ar_divergences a < ar_divergences b"
    by (simp_all add: o(2) a2 same_world_def put_ledger_def)
qed

section \<open>Every publication is recorded\<close>

lemma bind_record_safe: "contribution_ok c \<Longrightarrow> bind_record c spec = Inl e \<Longrightarrow> is_value_error e"
proof -
  assume c: "contribution_ok c" and e: "bind_record c spec = Inl e"
  from c obtain d where d: "co_payload c = Inr d" "json_wf (\<lambda>_. True) (PDict d)"
    by (auto simp: contribution_ok_def co_payload_def simp del: json_wf.simps elim: payload_bytes_okE)
  have "record_safe (bind_record c spec)"
    unfolding bind_record_def d(1) by (simp del: json_wf.simps) (rule record_safe_init [OF d(2)])
  with e show ?thesis by (auto simp: record_safe_def)
qed

lemma bound_record_total:
  assumes "contribution_ok c" "spec_ok spec"
  shows "\<exists>r. bound_record sha256 c spec = Inr r"
proof (cases "bind_record c spec")
  case (Inl e)
  then have "is_value_error e" by (rule bind_record_safe [OF assms(1)])
  with Inl show ?thesis by (cases e) (auto simp: bound_record_def)
next
  case (Inr r)
  from Inr have "record_ok r" "record_fits r"
    using bind_record_record_ok [OF assms(1)] bind_record_Inr [OF assms] by blast+
  moreover from this obtain v where "record_to_value r = Inr v" using record_to_value_wf by blast
  ultimately show ?thesis using Inr by (auto simp: bound_record_def content_sha256_def record_fits_def)
qed

lemma observed_content_total:
  assumes "candidate_ok candidate" "spec_ok spec"
  shows "\<exists>v. observed_content sha256 spec candidate h = Inr v"
proof (cases candidate)
  case (Contribution c)
  with assms(1) have "contribution_ok c" by (simp add: candidate_ok_def)
  from bound_record_total [OF this assms(2), of sha256] Contribution show ?thesis
    by (auto simp: observed_content_def)
qed (simp_all add: observed_content_def)

lemma is_claim_candidate_total: "candidate_ok candidate \<Longrightarrow> \<exists>v. is_claim_candidate candidate = Inr v"
  by (cases candidate) (auto simp: is_claim_candidate_def candidate_ok_def dest!: contribution_payload_Inr)

lemma observe_total:
  assumes "candidate_ok candidate" "spec_ok spec" "ss_session_id spec \<in> set (ar_session_ids a)"
    and "ar_now_tick a < MAXIMUM_TICK"
  shows "\<exists>b. observe sha256 spec candidate published a = Inr b"
proof -
  note content = observed_content_total [OF assms(1,2)]
  note claims = is_claim_candidate_total [OF assms(1)]
  have append: "\<exists>b. append_entry r v a' = Inr b" if "ar_now_tick a' = ar_now_tick a" for r v a'
    using assms(4) that by (simp add: append_entry_def Let_def)
  show ?thesis
  proof (cases "publication_identity published")
    case (Pair ref h)
    obtain v where v: "observed_content sha256 spec candidate h = Inr v" using content by blast
    obtain x where x: "is_claim_candidate candidate = Inr x" using claims by blast
    show ?thesis
    proof (cases ref)
      case (Some r)
      obtain b where "append_entry r v (if v = PNone then a\<lparr>ar_divergences := Suc (ar_divergences a)\<rparr> else a) = Inr b"
        using append [of "if v = PNone then a\<lparr>ar_divergences := Suc (ar_divergences a)\<rparr> else a" r v]
        by (cases "v = PNone") auto
      with Pair Some v x assms(3) show ?thesis
        by (simp add: observe_def launch_session_def Let_def)
    qed (use Pair assms(3) in \<open>simp add: observe_def launch_session_def\<close>)
  qed
qed

section \<open>Plain contributions\<close>

lemma review_plain:
  assumes "review spec (Contribution c) a = Inr (b, d)" "co_payload c = Inr p" "payload_schema (PDict p) = None"
    and "\<not> (cf_enforce_directive_citation (ar_config a) \<and> co_kind c \<in> set PRIMARY_ACTION_KINDS)"
  shows "admitted d"
  using assms(1)
proof (cases rule: review_cases)
  case (decided c' p' a2 s v)
  let ?a1 = "put_ledger (ss_session_id spec) (get_ledger a (ss_session_id spec)) a"
  have "ar_config a2 = ar_config a"
    using quiet_same [OF quiet_trans [OF quiet_simps(1) quiet_snapshot [OF decided(4)]]] by (simp add: same_world_def)
  with decided assms(2-4) have "v = verdict_of ACCEPTED []"
    by (auto simp: arm_verdict_def Let_def)
  with decided(6) show ?thesis by (simp add: admitted_def ACCEPTED_def)
qed (use assms in auto)

lemma review_citation:
  assumes "review spec (Contribution c) a = Inr (b, d)" "co_payload c = Inr p" "payload_schema (PDict p) = None"
    and "cf_enforce_directive_citation (ar_config a)" "co_kind c \<in> set PRIMARY_ACTION_KINDS"
  shows "\<exists>a2 s v. arm_snapshot a = Inr (a2, s) \<and>
    validate_directive_citation s (Contribution c) (ar_roles a) = Inr v \<and> ad_code d = v_code v"
  using assms(1)
proof (cases rule: review_cases)
  case (decided c' p' a2 s v)
  let ?a1 = "put_ledger (ss_session_id spec) (get_ledger a (ss_session_id spec)) a"
  have w: "same_world a a2"
    using quiet_same [OF quiet_trans [OF quiet_simps(1) quiet_snapshot [OF decided(4)]]] by simp
  have "\<exists>a3. arm_snapshot a = Inr (a3, s)"
    using decided(4) by (auto simp: arm_snapshot_def put_ledger_def project_def rbind_Inr_iff split: option.splits)
  moreover have "validate_directive_citation s (Contribution c) (ar_roles a) = Inr v"
    using decided assms(2-5) w by (auto simp: arm_verdict_def Let_def same_world_def)
  ultimately show ?thesis using decided(6) by auto
qed (use assms in auto)

section \<open>What a publication leaves in the ledger\<close>

lemma append_entry_exact:
  assumes "ledger_ok a" "r \<noteq> []"
  shows "append_entry r content a = (if r \<in> fst ` set (ar_entries a) then Inr (a\<lparr>ar_divergences := Suc (ar_divergences a)\<rparr>)
     else if ar_now_tick a < MAXIMUM_TICK
     then Inr (a\<lparr>ar_now_tick := ar_now_tick a + 1, ar_ticks := ar_ticks a @ [(r, ar_now_tick a + 1)],
                 ar_entries := ar_entries a @ [(r, content)], ar_snapshot := None\<rparr>)
     else Inl (arm_error ''AGENDA_CLOCK_EXHAUSTED'' r))"
  using ticks_keys_set [OF assms(1)] by (simp add: append_entry_def Let_def)

text \<open>What the ledger keeps of a publication: the value of the candidate's record under the session's
  identity when the publisher reports its digest, else nothing.\<close>

definition kept_content :: "(string \<Rightarrow> string) \<Rightarrow> session_spec \<Rightarrow> candidate \<Rightarrow> string option \<Rightarrow> pyval \<Rightarrow> bool" where
  "kept_content sha256 spec candidate reported content \<longleftrightarrow>
     (if \<exists>c r h. candidate = Contribution c \<and> bind_record c spec = Inr r \<and> content_sha256 sha256 r = Inr h \<and> reported = Some h
      then bound_content spec candidate content else content = PNone)"

lemma observed_content_kept:
  assumes "observed_content sha256 spec candidate reported = Inr content" "candidate_ok candidate" "spec_ok spec"
  shows "kept_content sha256 spec candidate reported content"
proof (cases candidate)
  case (Contribution c)
  with assms have ok: "contribution_ok c" by (simp add: candidate_ok_def)
  from assms(1) Contribution obtain b where b: "bound_record sha256 c spec = Inr b"
    "content = (case b of None \<Rightarrow> PNone | Some (value, digest) \<Rightarrow> if Some digest = reported then value else PNone)"
    by (auto simp: observed_content_def rbind_Inr_iff)
  show ?thesis
  proof (cases "bind_record c spec")
    case (Inl e)
    with b(1) have "b = None" by (cases e) (auto simp: bound_record_def split: if_splits)
    with b(2) Inl Contribution show ?thesis by (simp add: kept_content_def)
  next
    case (Inr r)
    with b(1) obtain v h where v: "record_to_value r = Inr v" "content_sha256 sha256 r = Inr h" "b = Some (v, h)"
      by (auto simp: bound_record_def rbind_Inr_iff)
    with b(2) Contribution Inr bind_record_record_ok [OF ok Inr] show ?thesis
      by (auto simp: kept_content_def bound_content_def)
  qed
qed (use assms in \<open>auto simp: observed_content_def kept_content_def\<close>)

text \<open>An observed claim is credited to its session, under the reported ref.\<close>

definition claim_credited :: "session_spec \<Rightarrow> candidate \<Rightarrow> string \<Rightarrow> agenda_arm \<Rightarrow> agenda_arm \<Rightarrow> bool" where
  "claim_credited spec candidate r a b \<longleftrightarrow> (\<forall>x. lg_claim_refs (get_ledger b x) = lg_claim_refs (get_ledger a x) @
     (if x = ss_session_id spec \<and> is_claim_candidate candidate = Inr True then [r] else []))"

lemma observe_unnamed:
  assumes "publication_identity published = (None, h)" "ss_session_id spec \<in> set (ar_session_ids a)"
  shows "observe sha256 spec candidate published a = Inr (a\<lparr>ar_divergences := Suc (ar_divergences a)\<rparr>)"
  using assms by (simp add: observe_def launch_session_def)

lemma observe_named:
  assumes "publication_identity published = (Some r, reported)" "ledger_ok a" "candidate_ok candidate" "spec_ok spec"
    and "ss_session_id spec \<in> set (ar_session_ids a)"
  obtains content a1 where "kept_content sha256 spec candidate reported content"
    "a1 = (if content = PNone then a\<lparr>ar_divergences := Suc (ar_divergences a)\<rparr> else a)"
    "\<And>e. append_entry r content a1 = Inl e \<Longrightarrow> observe sha256 spec candidate published a = Inl e"
    "\<And>a2. append_entry r content a1 = Inr a2 \<Longrightarrow> ar_sessions a2 = ar_sessions a1 \<Longrightarrow>
       \<exists>b. observe sha256 spec candidate published a = Inr b \<and> same_world a2 b \<and>
         ar_snapshot b = ar_snapshot a2 \<and> ar_divergences b = ar_divergences a2 \<and> claim_credited spec candidate r a b"
proof -
  obtain content where content: "observed_content sha256 spec candidate reported = Inr content"
    using observed_content_total [OF assms(3,4)] by blast
  obtain x where x: "is_claim_candidate candidate = Inr x" using is_claim_candidate_total [OF assms(3)] by blast
  let ?a1 = "if content = PNone then a\<lparr>ar_divergences := Suc (ar_divergences a)\<rparr> else a"
  have run: "observe sha256 spec candidate published a = rbind (append_entry r content ?a1) (\<lambda>a2.
      Inr (if x then put_ledger (ss_session_id spec) ((get_ledger a2 (ss_session_id spec))\<lparr>lg_claim_refs :=
        lg_claim_refs (get_ledger a2 (ss_session_id spec)) @ [r]\<rparr>) a2 else a2))"
    using assms(1,5) content x by (cases x) (simp_all add: observe_def launch_session_def Let_def)
  show thesis
  proof (rule that [OF observed_content_kept [OF content assms(3,4)] refl])
    show "observe sha256 spec candidate published a = Inl e" if "append_entry r content ?a1 = Inl e" for e
      using run that by simp
    show "\<exists>b. observe sha256 spec candidate published a = Inr b \<and> same_world a2 b \<and>
         ar_snapshot b = ar_snapshot a2 \<and> ar_divergences b = ar_divergences a2 \<and> claim_credited spec candidate r a b"
      if a2: "append_entry r content ?a1 = Inr a2" "ar_sessions a2 = ar_sessions ?a1" for a2
    proof -
      have g: "get_ledger a2 = get_ledger a" using a2(2) by (auto simp: get_ledger_def fun_eq_iff split: if_splits)
      have d: "ar_divergences (put_ledger y l a2) = ar_divergences a2" for y l by (simp add: put_ledger_def)
      show ?thesis unfolding run a2(1) using x g d by (auto simp: claim_credited_def)
    qed
  qed
qed


end
