(* ===== verification/Arm_Examples.thy ===== *)
theory Arm_Examples
  imports Arm_Answers Examples
begin

text \<open>A concrete launch of the binding arm, on which the properties of the controller are applied.\<close>

section \<open>A launch\<close>

text \<open>
  Sessions \<open>b\<close> and \<open>c\<close> run the binding arm in a world that holds a record of session \<open>a\<close>, of
  an earlier launch, and an opaque admission.
\<close>

definition sample_sha256 :: "string \<Rightarrow> string" where
  "sample_sha256 raw = ''h''"

definition sample_config :: agenda_arm_config where
  "sample_config = \<lparr>cf_arm = ''D'', cf_coordinator_session_ids = [], cf_admitting_slots = ALL_SESSIONS,
     cf_require_claim_for_primary_action = False, cf_enforce_directive_citation = False\<rparr>"

definition sample_base :: "(pyval \<times> pyval) list" where
  "sample_base = [(PStr ''r1'', sample_record_value), (PStr ''r2'', PNone)]"

definition claim_candidate :: candidate where
  "claim_candidate = sample_candidate ''NOTE'' (task_claim_to_value sample_claim)"

definition sample_arm :: agenda_arm where
  "sample_arm = projr (arm_init sample_sha256 sample_config (texts [''b'', ''c'']) sample_base)"

definition opened_runtime :: arm_runtime where
  "opened_runtime = \<lparr>rt_arm = sample_arm, rt_pending = None\<rparr>"

lemma sample_config_init:
  "arm_config_init (PStr ''D'') (texts []) (PStr ''ALL_SESSIONS'') (PBool False) (PBool False) = Inr sample_config"
  by code_simp

lemma sample_base_ok: "base_ok sample_base"
  by code_simp

lemma sample_arm_run:
  "case arm_init sample_sha256 sample_config (texts [''b'', ''c'']) sample_base of Inl _ \<Rightarrow> False
   | Inr a \<Rightarrow> (case ar_snapshot a of None \<Rightarrow> False
      | Some s \<Rightarrow> list_all (\<lambda>e. en_session_id e \<in> {None, Some ''a''}) (as_entries s))"
  by code_simp

lemma sample_arm_init: "arm_init sample_sha256 sample_config (texts [''b'', ''c'']) sample_base = Inr sample_arm"
  using sample_arm_run by (auto simp: sample_arm_def split: sum.splits)

lemmas sample_arm = arm_init_Inr [OF sample_arm_init sample_base_ok]

lemma sample_ids: "ar_session_ids sample_arm = [''b'', ''c'']"
proof -
  have "arm_session_ids ''session_ids'' (texts [''b'', ''c'']) = Inr [''b'', ''c'']" by code_simp
  with sample_arm(9) show ?thesis by simp
qed

lemma sample_foreign: "foreign_world sample_arm"
proof -
  obtain s where s: "ar_snapshot sample_arm = Some s"
    "list_all (\<lambda>e. en_session_id e \<in> {None, Some ''a''}) (as_entries s)"
    using sample_arm_run sample_arm_init by (auto split: option.splits)
  then have "project sample_arm = Inr s" using sample_arm(2) by (simp add: cache_ok_def)
  with s(2) show ?thesis by (auto simp: foreign_world_def list_all_iff sample_ids)
qed

lemma sample_candidate_ok: "candidate_ok (Contribution sample_contribution)"
  using sample_contribution_ok by (simp add: candidate_ok_def)

lemma sample_review:
  "\<exists>b d. review (sample_spec ''b'') (Contribution sample_contribution) sample_arm = Inr (b, d)"
  by (rule review_total [OF sample_arm(1,2) _ sample_candidate_ok])
    (simp_all add: sample_ids sample_arm(4) sample_spec_def sample_config_def ARM_INSTRUMENTS_def keys_def)

text \<open>Session \<open>b\<close> has its contribution reviewed.\<close>

lemma sample_step: "\<exists>t. runtime_step sample_sha256 opened_runtime t"
proof -
  obtain b d where "review (sample_spec ''b'') (Contribution sample_contribution) sample_arm = Inr (b, d)"
    using sample_review by blast
  then have "publish_review (sample_spec ''b'') (Contribution sample_contribution) opened_runtime =
      Inr \<lparr>rt_arm = b, rt_pending = (if admitted d then Some (sample_spec ''b'', Contribution sample_contribution) else None)\<rparr>"
    by (simp add: publish_review_def opened_runtime_def)
  from reviewed [OF _ _ sample_spec_ok(2) sample_candidate_ok this] show ?thesis
    by (auto simp: opened_runtime_def sample_arm(3))
qed

text \<open>An arm whose ledger already holds the sample task: \<open>b\<close> may have settled.\<close>

definition claim_arm :: "string list \<Rightarrow> agenda_arm" where
  "claim_arm settled = \<lparr>ar_config = sample_config, ar_session_ids = [''b'', ''c''], ar_entries = [], ar_ticks = [],
     ar_base_tick = 0, ar_now_tick = 0, ar_sessions = [], ar_settled = settled, ar_divergences = 0,
     ar_snapshot = None, ar_roles = sample_roles, ar_launch_sha256 = ''h''\<rparr>"

lemma claim_arm_ok: "ledger_ok (claim_arm settled)" "cache_ok (claim_arm settled)"
  by (simp_all add: claim_arm_def ledger_ok_def cache_ok_def MAXIMUM_TICK_def)

end
