(* ===== verification/Arm_Properties.thy ===== *)
theory Arm_Properties
  imports Arm_Examples
begin

text \<open>
  The properties of the arm and of its use by the orchestrator: exclusive leases and the refinement of
  the lease machine, when a claim is accepted, reviews, the clock, settlement, evidence and publication.
\<close>

section \<open>Leases\<close>

text \<open>C1: a task has one holder: in every state that a launch can reach, among the claims that still
  occupy a task and whose holder can still act, no two are on the same task. The world that the
  launch found may hold any records of other sessions; candidates, the publisher's answers, and the
  moments of settlement are arbitrary.\<close>

theorem leases_exclusive:
  assumes "arm_init sha256 cf session_ids base = Inr a" "base_ok base" "foreign_world a"
    and "runtime_reachable sha256 a s"
  shows "single_valued (lease_table (rt_arm s))"
  using reachable_exclusive [OF assms(4) arm_init_Inr(1,2) [OF assms(1,2)]] foreign_lease_table [OF assms(3)]
  by simp

lemma leases_exclusive_witness:
  "\<exists>t. runtime_reachable sample_sha256 sample_arm t \<and> single_valued (lease_table (rt_arm t))"
proof -
  obtain t where "runtime_step sample_sha256 opened_runtime t" using sample_step by blast
  then have "runtime_reachable sample_sha256 sample_arm t"
    unfolding opened_runtime_def by (rule stepped [OF opened])
  with leases_exclusive [OF sample_arm_init sample_base_ok sample_foreign this] show ?thesis by blast
qed

text \<open>C2: every event of publication or settlement is a step of the abstract lease machine on the lease
  table: leases end, or one is granted on a task that nobody holds.\<close>

theorem runtime_refines_leases:
  assumes "arm_init sha256 cf session_ids base = Inr a" "base_ok base"
    and "runtime_reachable sha256 a s" "runtime_step sha256 s t"
  shows "lease_step (lease_table (rt_arm s)) (lease_table (rt_arm t))"
  using runtime_step_inv [OF assms(4) reachable_inv [OF assms(3) arm_init_Inr(1,2) [OF assms(1,2)]]] by blast

lemma runtime_refines_leases_witness:
  "\<exists>t. runtime_step sample_sha256 opened_runtime t \<and> lease_step (lease_table sample_arm) (lease_table (rt_arm t))"
proof -
  obtain t where t: "runtime_step sample_sha256 opened_runtime t" using sample_step by blast
  have "runtime_reachable sample_sha256 sample_arm opened_runtime"
    unfolding opened_runtime_def by (rule opened)
  from runtime_refines_leases [OF sample_arm_init sample_base_ok this t] t show ?thesis
    by (auto simp: opened_runtime_def)
qed

text \<open>C5: a claim is accepted exactly when its payload passes the gate, the task is open (admitted, its
  dependencies completed, itself not completed), and the holder of every claim that occupies the task
  is released: settled, or not a session of this launch.\<close>

theorem claim_rule:
  assumes "snapshot_ok s"
  shows "(\<exists>v. claim_verdict a s c = Inr v \<and> accepted v) \<longleftrightarrow>
    (\<exists>p. gate_accepts TASK_CLAIM_SCHEMA task_claim_parse (Contribution c) p \<and>
       task_open s (ar_roles a) (tc_task_ref p) \<and>
       (\<forall>e q. occupies s e q \<longrightarrow> tc_task_ref q = tc_task_ref p \<longrightarrow> released_holder a e))"
  using assms by (rule claim_verdict_accepted)

lemma gate_unique:
  "rbind (co_payload c) (\<lambda>d. parser (PDict d)) = Inr q \<Longrightarrow> gate_accepts schema parser (Contribution c) p \<Longrightarrow> p = q"
  by (auto simp: gate_accepts_def)

definition claim_contribution :: research_contribution where
  "claim_contribution = sample_contribution\<lparr>co_payload_bytes := payload_text (task_claim_to_value sample_claim)\<rparr>"

lemma claim_rule_witness: "task_open claimed_world sample_roles ref_task"
proof -
  have run: "case claim_verdict (claim_arm [''b'']) claimed_world claim_contribution of
      Inr v \<Rightarrow> accepted v | Inl _ \<Rightarrow> False" by code_simp
  have parse: "rbind (co_payload claim_contribution) (\<lambda>d. task_claim_parse (PDict d)) = Inr sample_claim"
    by code_simp
  from run obtain p where p: "gate_accepts TASK_CLAIM_SCHEMA task_claim_parse (Contribution claim_contribution) p"
    "task_open claimed_world sample_roles (tc_task_ref p)"
    using claim_rule [OF worlds_ok(2), of "claim_arm [''b'']" claim_contribution]
    by (auto simp: claim_arm_def split: sum.splits)
  from gate_unique [OF parse p(1)] p(2) show ?thesis by (simp add: sample_claim_def)
qed

section \<open>Review\<close>

text \<open>C6: every review is answered: in a reachable state of a configured arm, a candidate that the
  platform can produce gets a decision, whatever it holds; nothing is raised. The decision is appended
  to the ledger of the session, and entries, clock, roles and settled sessions stay as they are.\<close>

theorem review_answers:
  assumes "arm_config_init arm coordinators admitting require_claim enforce = Inr cf"
    and "arm_init sha256 cf session_ids base = Inr a" "base_ok base" "runtime_reachable sha256 a s"
    and "ss_session_id spec \<in> set (ar_session_ids a)" "candidate_ok candidate"
  shows "\<exists>b d. review spec candidate (rt_arm s) = Inr (b, d) \<and> same_world (rt_arm s) b \<and>
    decisions_of b (ss_session_id spec) = decisions_of (rt_arm s) (ss_session_id spec) @ [d]"
proof -
  note a = arm_init_Inr [OF assms(2,3)]
  have inv: "ledger_ok (rt_arm s)" "cache_ok (rt_arm s)"
    using reachable_inv [OF assms(4) a(1,2)] by (simp_all add: runtime_inv_def)
  have "cf_arm (ar_config (rt_arm s)) \<in> set (keys ARM_INSTRUMENTS)"
    "ss_session_id spec \<in> set (ar_session_ids (rt_arm s))"
    using reachable_clock [OF assms(4) a(1,2)] a(4) assms(5) arm_config_init_arm [OF assms(1)] by simp_all
  then obtain b d where r: "review spec candidate (rt_arm s) = Inr (b, d)"
    using review_total [OF inv _ assms(6)] by blast
  with quiet_same [OF review_quiet [OF r]] review_records [OF r] show ?thesis by simp
qed

lemma review_answers_witness:
  "\<exists>b d. review (sample_spec ''b'') (Contribution sample_contribution) sample_arm = Inr (b, d) \<and>
     same_world sample_arm b \<and> decisions_of b ''b'' = decisions_of sample_arm ''b'' @ [d]"
  using review_answers [OF sample_config_init sample_arm_init sample_base_ok opened, of "sample_spec ''b''"
      "Contribution sample_contribution"] sample_candidate_ok
  by (simp add: sample_ids sample_spec_def)

text \<open>C7: only instruments of the arm are admitted: an admitted candidate is a contribution that names no
  typed payload or one of an exposed instrument; the decision is OUT_OF_ARM_INSTRUMENT exactly when the
  candidate names a typed payload outside the arm; and a plain contribution is admitted under every arm,
  except a primary action where the arm enforces directive citations: that one is decided by the
  citation rule, and may be refused.\<close>

theorem only_exposed_instruments:
  assumes "review spec candidate a = Inr (b, d)"
  shows "(admitted d \<longrightarrow> (\<exists>c. candidate = Contribution c) \<and>
      pred_option (\<lambda>name. name \<in> set (admitted_payload_schemas (ar_config a))) (ad_payload_schema d)) \<and>
    (ad_code d = OUT_OF_ARM_INSTRUMENT \<longleftrightarrow> out_of_arm (ar_config a) candidate) \<and>
    (\<forall>c p. candidate = Contribution c \<longrightarrow> co_payload c = Inr p \<longrightarrow> payload_schema (PDict p) = None \<longrightarrow>
       (if cf_enforce_directive_citation (ar_config a) \<and> co_kind c \<in> set PRIMARY_ACTION_KINDS
        then \<exists>a2 s v. arm_snapshot a = Inr (a2, s) \<and>
          validate_directive_citation s candidate (ar_roles a) = Inr v \<and>
          ad_code d = v_code v \<and> (admitted d \<longleftrightarrow> accepted v)
        else admitted d))"
proof -
  have "\<exists>a2 s v. arm_snapshot a = Inr (a2, s) \<and> validate_directive_citation s candidate (ar_roles a) = Inr v \<and>
      ad_code d = v_code v \<and> (admitted d \<longleftrightarrow> accepted v)"
    if c: "candidate = Contribution c" "co_payload c = Inr p" "payload_schema (PDict p) = None"
      "cf_enforce_directive_citation (ar_config a)" "co_kind c \<in> set PRIMARY_ACTION_KINDS" for c p
    using review_citation [OF assms [unfolded c(1)] c(2-5)] c(1) by (auto simp: admitted_def accepted_def)
  then show ?thesis using review_admits [OF assms] review_out_of_arm [OF assms] review_plain assms by simp blast
qed
definition directive_contribution :: research_contribution where
  "directive_contribution = sample_contribution\<lparr>co_payload_bytes := payload_text (directive_to_value sample_directive)\<rparr>"

lemma only_exposed_instruments_witness:
  "\<exists>b d. review (sample_spec ''b'') (Contribution directive_contribution) (claim_arm []) = Inr (b, d) \<and>
     ad_code d = OUT_OF_ARM_INSTRUMENT"
proof -
  have run: "case review (sample_spec ''b'') (Contribution directive_contribution) (claim_arm []) of
      Inr _ \<Rightarrow> True | Inl _ \<Rightarrow> False" by code_simp
  then obtain b d where r: "review (sample_spec ''b'') (Contribution directive_contribution) (claim_arm []) = Inr (b, d)"
    by (auto split: sum.splits)
  have p: "case co_payload directive_contribution of Inl _ \<Rightarrow> False
    | Inr p \<Rightarrow> payload_schema (PDict p) = Some DIRECTIVE_SCHEMA" by code_simp
  have "DIRECTIVE_SCHEMA \<notin> set (admitted_payload_schemas sample_config)" by code_simp
  with p have "out_of_arm sample_config (Contribution directive_contribution)"
    by (auto simp: out_of_arm_def split: sum.splits)
  then show ?thesis
    using only_exposed_instruments [OF r] r by (simp add: claim_arm_def)
qed

section \<open>The clock\<close>

text \<open>C21: the clock is host evidence: in every reachable state it is the number of admissions in the
  ledger, the world found at launch is a prefix of the ledger, an admission of the launch has its index
  as tick and an older one the opening tick, and the cached projection is the current one.\<close>

theorem host_clock:
  assumes "arm_init sha256 cf session_ids base = Inr a" "base_ok base" "runtime_reachable sha256 a s"
  shows "ledger_ok (rt_arm s) \<and> cache_ok (rt_arm s) \<and> prefix (ar_entries a) (ar_entries (rt_arm s)) \<and>
    ar_base_tick (rt_arm s) = int (length base)"
  using reachable_inv [OF assms(3) arm_init_Inr(1,2) [OF assms(1,2)]]
    reachable_clock [OF assms(3) arm_init_Inr(1,2) [OF assms(1,2)]] arm_init_Inr(6) [OF assms(1,2)]
  by (simp add: runtime_inv_def)

lemma host_clock_witness:
  "\<exists>t. runtime_step sample_sha256 opened_runtime t \<and> ledger_ok (rt_arm t) \<and> ar_base_tick (rt_arm t) = 2"
proof -
  obtain t where t: "runtime_step sample_sha256 opened_runtime t" using sample_step by blast
  then have "runtime_reachable sample_sha256 sample_arm t"
    unfolding opened_runtime_def by (rule stepped [OF opened])
  from host_clock [OF sample_arm_init sample_base_ok this] t show ?thesis by (auto simp: sample_base_def)
qed

text \<open>C22: a lease lasts for admissions: in every reachable state, the claim at index \<open>i\<close> of the ledger that
  its holder has not closed is EXPIRED once as many admissions as it has lease ticks followed it, and
  LIVE before that; for a claim that the launch found, the admissions since the launch opened count, so
  that it never ends early. It blocks its task, when the task is an admitted one, exactly while it is LIVE.\<close>

theorem lease_lasts:
  assumes "arm_init sha256 cf session_ids base = Inr a0" "base_ok base" "runtime_reachable sha256 a0 s" "a = rt_arm s"
    and "project a = Inr w" "is_claim w e p" "i < length (ar_entries a)" "fst (ar_entries a ! i) = en_admission_ref e"
  shows "claim_state w (en_admission_ref e) =
      (if closed_by_holder w e p then CLOSED
       else if tc_lease_ticks p \<le> int (length (ar_entries a)) - max (int (length base)) (int (Suc i)) then EXPIRED
       else LIVE) \<and>
    (en_admission_ref e \<in> set (blocking_claim_refs w (tc_task_ref p) (ar_roles a)) \<longleftrightarrow>
       (\<exists>task. is_task w (ar_roles a) (tc_task_ref p) task) \<and> claim_state w (en_admission_ref e) = LIVE)"
proof -
  note a0 = arm_init_Inr [OF assms(1,2)]
  have "runtime_inv s" by (rule reachable_inv [OF assms(3) a0(1,2)])
  then have ok: "ledger_ok a" using assms(4) by (simp add: runtime_inv_def)
  have base: "ar_base_tick a = int (length base)"
    using reachable_clock [OF assms(3) a0(1,2)] a0(6) assms(4) by simp
  note w = project_Inr(2) [OF ok assms(5), THEN conjunct1]
  note t = claim_tick [OF ok assms(5-8)]
  have state: "claim_state w (en_admission_ref e) =
      (if closed_by_holder w e p then CLOSED
       else if tc_lease_ticks p \<le> int (length (ar_entries a)) - max (int (length base)) (int (Suc i)) then EXPIRED
       else LIVE)"
    using claim_state_eq [OF w assms(6)] t base by auto
  have "occupies w e p \<longleftrightarrow> claim_state w (en_admission_ref e) = LIVE"
    using occupies_iff_state [OF w assms(6)] state by (auto split: if_splits)
  moreover have "(\<exists>f q. occupies w f q \<and> tc_task_ref q = tc_task_ref p \<and> en_admission_ref f = en_admission_ref e) \<longleftrightarrow> occupies w e p"
    using is_claim_unique [OF w assms(6)] occupies_claim by metis
  ultimately show ?thesis using state set_blocking [OF w] by simp
qed


definition claim_record :: research_record where
  "claim_record = sample_record\<lparr>re_payload_bytes := payload_text (task_claim_to_value sample_claim)\<rparr>"

definition lease_base :: "(pyval \<times> pyval) list" where
  "lease_base = [(PStr ''r1'', projr (record_to_value claim_record))]"

lemma lease_launch:
  "base_ok lease_base"
  "case arm_init sample_sha256 sample_config (texts [''b'', ''c'']) lease_base of Inl _ \<Rightarrow> False
   | Inr a \<Rightarrow> map fst (ar_entries a) = [''r1''] \<and> (case project a of Inl _ \<Rightarrow> False
      | Inr w \<Rightarrow> map (\<lambda>(e, p). (en_admission_ref e, p)) (claims w) = [(''r1'', sample_claim)] \<and> closure_refs w = [])"
  by code_simp+

lemma lease_lasts_witness:
  "\<exists>a w. arm_init sample_sha256 sample_config (texts [''b'', ''c'']) lease_base = Inr a \<and> project a = Inr w \<and>
     claim_state w ''r1'' = LIVE"
proof -
  obtain a w where a: "arm_init sample_sha256 sample_config (texts [''b'', ''c'']) lease_base = Inr a" "project a = Inr w"
    "map fst (ar_entries a) = [''r1'']" "map (\<lambda>(e, p). (en_admission_ref e, p)) (claims w) = [(''r1'', sample_claim)]"
    "closure_refs w = []"
    using lease_launch(2) by (auto split: sum.splits)
  from a(4) obtain e where "set (claims w) = {(e, sample_claim)}" and ref: "en_admission_ref e = ''r1''"
    by (cases "claims w") auto
  then have e: "is_claim w e sample_claim" by (auto simp: set_claims)
  from a(3) have i: "length (ar_entries a) = 1" "fst (ar_entries a ! 0) = en_admission_ref e"
    using ref by (auto simp: Cons_eq_map_conv)
  have ok: "ledger_ok a" by (rule arm_init_Inr(1) [OF a(1) lease_launch(1)])
  have "\<not> closed_by_holder w e sample_claim"
    using closed_ref_iff [OF _ e] project_Inr(2) [OF ok a(2)] a(5) by simp
  moreover have "claim_state w (en_admission_ref e) = (if closed_by_holder w e sample_claim then CLOSED
      else if tc_lease_ticks sample_claim \<le> int (length (ar_entries a)) - max (int (length lease_base)) (int (Suc 0)) then EXPIRED
      else LIVE)"
    using lease_lasts [OF a(1) lease_launch(1) opened _ a(2) e _ i(2)] i(1) by simp
  ultimately have "claim_state w ''r1'' = LIVE" using i(1) ref by (simp add: sample_claim_def lease_base_def)
  with a(1,2) show ?thesis by blast
qed

definition lease_arm :: agenda_arm where
  "lease_arm = (claim_arm [])\<lparr>ar_entries := [(''r1'', projr (record_to_value claim_record))],
     ar_ticks := [(''r1'', 1)], ar_base_tick := 1, ar_now_tick := 1\<rparr>"

lemma claim_record_ok: "record_ok claim_record"
proof -
  have "research_record_init (PStr ''w'') (PStr ''cohort'') (PStr ''a'')
     (PStr (''snapshot/sha256/'' @ replicate 64 (CHR ''0''))) (PStr ''NOTE'') (PStr ''title'') (PStr ''body'')
     (texts [''p1'']) (texts []) (texts []) (task_claim_to_value sample_claim) = Inr claim_record"
    "json_wf (\<lambda>_. True) (task_claim_to_value sample_claim)"
    by code_simp+
  then show ?thesis by (rule init_record_ok)
qed

lemma lease_arm_ok: "ledger_ok lease_arm"
proof -
  obtain v where "record_to_value claim_record = Inr v" "json_tree v"
    using record_to_value_wf [OF claim_record_ok] json_wf_tree by blast
  then show ?thesis
    by (simp add: ledger_ok_def lease_arm_def claim_arm_def MAXIMUM_TICK_def)
qed

section \<open>Settlement\<close>

text \<open>C23: settling a session ends exactly its own leases, and settling it again reports the same and
  changes nothing in the world.\<close>

theorem settlement_releases:
  assumes "settle spec a = Inr (b, refs)" "cache_ok a" "project a = Inr s"
  shows "lease_table b = {(t, r). \<exists>e p. occupies s e p \<and> tc_task_ref p = t \<and> en_admission_ref e = r \<and>
      \<not> released_holder a e \<and> en_session_id e \<noteq> Some (ss_session_id spec)} \<and>
    (\<exists>c. settle spec b = Inr (c, refs) \<and> same_world b c)"
  using settle_ends_leases [OF assms] settle_again [OF assms(1,2)] by auto

lemma settlement_releases_witness:
  "\<exists>b refs c. settle (sample_spec ''b'') (claim_arm []) = Inr (b, refs) \<and>
     settle (sample_spec ''b'') b = Inr (c, refs) \<and> same_world b c"
proof -
  obtain b refs where r: "settle (sample_spec ''b'') (claim_arm []) = Inr (b, refs)"
  proof -
    have "ss_session_id (sample_spec ''b'') \<in> set (ar_session_ids (claim_arm []))"
      by (simp add: sample_spec_def claim_arm_def)
    from settle_total [OF claim_arm_ok(1) this] that show ?thesis by blast
  qed
  obtain s where "project (claim_arm []) = Inr s" using project_Inr(1) [OF claim_arm_ok(1)] by blast
  from settlement_releases [OF r claim_arm_ok(2) this] r show ?thesis by blast
qed

text \<open>C24: the evidence of a session is closed: every decision is counted as admitted or rejected, the
  verdict counts are those of the decisions and add up to the reviews, and the decisions shown are
  the first ones, at most 64, marked truncated exactly when some are missing.\<close>

theorem evidence_is_closed:
  assumes "session_evidence spec a = Inr (b, v)"
  shows "\<exists>d verdicts recorded. v = PDict d \<and>
    dget ''reviewed'' d = PInt (int (length (decisions_of a (ss_session_id spec)))) \<and>
    dget ''admitted'' d = PInt (int (length (filter admitted (decisions_of a (ss_session_id spec))))) \<and>
    dget ''rejected'' d = PInt (int (length (filter (\<lambda>x. \<not> admitted x) (decisions_of a (ss_session_id spec))))) \<and>
    dget ''verdicts'' d = counts_value verdicts \<and>
    sum_list (map snd verdicts) = length (decisions_of a (ss_session_id spec)) \<and>
    (\<forall>code. count_of code verdicts =
       length (filter (\<lambda>x. ad_code x = code) (decisions_of a (ss_session_id spec)))) \<and>
    dget ''decisions'' d = PList (map decision_to_value recorded) \<and>
    prefix recorded (decisions_of a (ss_session_id spec)) \<and> length recorded \<le> 64 \<and>
    dget ''truncated'' d = PBool (recorded \<noteq> decisions_of a (ss_session_id spec))"
proof -
  let ?ds = "decisions_of a (ss_session_id spec)"
  have n: "length ?ds - length (filter admitted ?ds) = length (filter (\<lambda>x. \<not> admitted x) ?ds)"
    using sum_length_filter_compl [of admitted ?ds] by simp
  have t: "min (length ?ds) 64 < length ?ds \<longleftrightarrow> take 64 ?ds \<noteq> ?ds"
    by (metis length_take linorder_not_less min.absorb_iff1 min.cobounded1 nat_less_le take_all_iff)
  have c: "count_of code (verdict_counts ?ds) = length (filter (\<lambda>x. ad_code x = code) ?ds)" for code
    by (simp add: verdict_counts_tally count_tally)
  have s: "sum_list (map snd (verdict_counts ?ds)) = length ?ds" by (rule evidence_counts(2))
  from assms have v: "v = evidence_value (put_ledger (ss_session_id spec) (get_ledger a (ss_session_id spec)) a)
      (get_ledger a (ss_session_id spec)) (length ?ds) (admitted_count ?ds) (length ?ds - admitted_count ?ds)
      (verdict_counts ?ds) (instrument_counts ?ds) (schema_counts ?ds) (take MAXIMUM_RECORDED_DECISIONS ?ds)
      (length (take MAXIMUM_RECORDED_DECISIONS ?ds) < length ?ds)"
    by (auto simp: session_evidence_def Let_def rbind_Inr_iff launch_session_Inr decisions_of_def)
  obtain d where d: "v = PDict d" by (simp add: v evidence_value_def)
  then have "dget ''reviewed'' d = PInt (int (length ?ds))"
    "dget ''admitted'' d = PInt (int (length (filter admitted ?ds)))"
    "dget ''rejected'' d = PInt (int (length (filter (\<lambda>x. \<not> admitted x) ?ds)))"
    "dget ''verdicts'' d = counts_value (verdict_counts ?ds)"
    "dget ''decisions'' d = PList (map decision_to_value (take 64 ?ds))"
    "dget ''truncated'' d = PBool (take 64 ?ds \<noteq> ?ds)"
    using n t by (auto simp: v evidence_value_def admitted_count_filter MAXIMUM_RECORDED_DECISIONS_def)
  then show ?thesis
    using d s c take_is_prefix [of 64 ?ds] by (intro exI conjI) (assumption | simp)+
qed

lemma evidence_is_closed_witness:
  "\<exists>b v d. session_evidence (sample_spec ''b'') (claim_arm []) = Inr (b, v) \<and> v = PDict d \<and>
     dget ''reviewed'' d = PInt 0"
proof -
  obtain b v where r: "session_evidence (sample_spec ''b'') (claim_arm []) = Inr (b, v)"
    by (auto simp: session_evidence_def launch_session_def Let_def sample_spec_def claim_arm_def)
  from evidence_is_closed [OF r] r show ?thesis
    by (auto simp: decisions_of_def get_ledger_def claim_arm_def empty_ledger_def)
qed

text \<open>a publication reported under a ref that the ledger already holds changes nothing in the world
  and is counted as a divergence; when the candidate is a claim, that ref is still credited to the
  publishing session as one of its claims, whoever wrote the entry.\<close>

theorem repeated_publication:
  assumes "observe sha256 spec candidate published a = Inr b" "ledger_ok a"
    and "publication_identity published = (Some r, h)" "r \<in> fst ` set (ar_entries a)"
    and "is_claim_candidate candidate = Inr True"
  shows "same_world a b \<and> ar_divergences a < ar_divergences b \<and>
    lg_claim_refs (get_ledger b (ss_session_id spec)) = lg_claim_refs (get_ledger a (ss_session_id spec)) @ [r]"
  using observe_duplicate [OF assms] by blast

lemma repeated_publication_witness:
  "\<exists>b. observe sample_sha256 (sample_spec ''b'') (Contribution claim_contribution)
      (PDict [(''admission_ref'', PStr ''r1'')]) lease_arm = Inr b \<and> ar_entries b = ar_entries lease_arm \<and>
     lg_claim_refs (get_ledger b ''b'') = [''r1'']"
proof -
  have entries: "ar_entries lease_arm = [(''r1'', projr (record_to_value claim_record))]" by (simp add: lease_arm_def)
  have "research_contribution_init (PStr ''NOTE'') (PStr ''title'') (PStr ''body'') (texts [''p1'']) (texts [])
      (texts []) (task_claim_to_value sample_claim) = Inr claim_contribution"
    "json_wf (\<lambda>_. True) (task_claim_to_value sample_claim)"
    by code_simp+
  then have ok: "contribution_ok claim_contribution" by (rule init_contribution_ok)
  then have "\<exists>b. observe sample_sha256 (sample_spec ''b'') (Contribution claim_contribution)
      (PDict [(''admission_ref'', PStr ''r1'')]) lease_arm = Inr b"
    by (intro observe_total sample_spec_ok)
      (simp_all add: candidate_ok_def sample_spec_def lease_arm_def claim_arm_def MAXIMUM_TICK_def)
  then obtain b where b: "observe sample_sha256 (sample_spec ''b'') (Contribution claim_contribution)
      (PDict [(''admission_ref'', PStr ''r1'')]) lease_arm = Inr b" ..
  have claims: "is_claim_candidate (Contribution claim_contribution) = Inr True" by code_simp
  have "publication_identity (PDict [(''admission_ref'', PStr ''r1'')]) = (Some ''r1'', None)"
    by (simp add: publication_identity_def)
  from repeated_publication [OF b lease_arm_ok this _ claims] show ?thesis
    using b by (auto simp: entries same_world_def sample_spec_def lease_arm_def claim_arm_def get_ledger_def
        empty_ledger_def)
qed

text \<open>C8: a published contribution is recorded: when the publisher names a ref that the ledger does not hold,
  the ledger gets exactly one admission, at its end, under that ref, stamped with the next tick, and
  holding the candidate's own record under the session's identity if the publisher reports its digest,
  else nothing but the ref. A ref that the ledger holds, or an answer without a ref, leaves it as it is
  and counts as a divergence; only an exhausted clock makes the observation raise. The pending
  publication is over, and a claim is credited to the session that published it and to no other.\<close>

theorem publication_recorded:
  assumes "arm_init sha256 cf session_ids base = Inr a0" "base_ok base" "runtime_reachable sha256 a0 s"
    and "rt_pending s = Some (spec, candidate)" "a = rt_arm s"
  shows "case publication_identity published of
      (None, _) \<Rightarrow> publish_observe sha256 published s =
        Inr \<lparr>rt_arm = a\<lparr>ar_divergences := Suc (ar_divergences a)\<rparr>, rt_pending = None\<rparr>
    | (Some r, reported) \<Rightarrow>
        if r \<in> fst ` set (ar_entries a) then
          (\<exists>b. publish_observe sha256 published s = Inr \<lparr>rt_arm = b, rt_pending = None\<rparr> \<and> same_world a b \<and>
             ar_divergences a < ar_divergences b \<and> claim_credited spec candidate r a b)
        else if ar_now_tick a = MAXIMUM_TICK then
          publish_observe sha256 published s = Inl (arm_error ''AGENDA_CLOCK_EXHAUSTED'' r)
        else
          (\<exists>b content. publish_observe sha256 published s = Inr \<lparr>rt_arm = b, rt_pending = None\<rparr> \<and>
             ar_entries b = ar_entries a @ [(r, content)] \<and> kept_content sha256 spec candidate reported content \<and>
             ar_now_tick b = ar_now_tick a + 1 \<and> ar_ticks b = ar_ticks a @ [(r, ar_now_tick b)] \<and>
             ar_divergences b = ar_divergences a + (if content = PNone then 1 else 0) \<and>
             claim_credited spec candidate r a b)"
proof -
  have inv: "runtime_inv s" by (rule reachable_inv [OF assms(3) arm_init_Inr(1,2) [OF assms(1,2)]])
  then have c: "ledger_ok a" "candidate_ok candidate" "spec_ok spec" "ss_session_id spec \<in> set (ar_session_ids a)"
    using assms(4,5) by (simp_all add: runtime_inv_def)
  have s: "publish_observe sha256 published s =
      rbind (observe sha256 spec candidate published a) (\<lambda>b. Inr \<lparr>rt_arm = b, rt_pending = None\<rparr>)"
    using assms(4,5) by (cases s) (simp add: publish_observe_def)
  show ?thesis
  proof (cases "publication_identity published")
    case (Pair ref reported)
    show ?thesis
    proof (cases ref)
      case None
      with Pair c(4) show ?thesis by (simp add: s observe_unnamed)
    next
      case (Some r)
      with Pair have named: "publication_identity published = (Some r, reported)" by simp
      then have r: "r \<noteq> []" by (rule publication_identity_ref)
      obtain content a1 where o: "kept_content sha256 spec candidate reported content"
        "a1 = (if content = PNone then a\<lparr>ar_divergences := Suc (ar_divergences a)\<rparr> else a)"
        "\<And>e. append_entry r content a1 = Inl e \<Longrightarrow> observe sha256 spec candidate published a = Inl e"
        "\<And>a2. append_entry r content a1 = Inr a2 \<Longrightarrow> ar_sessions a2 = ar_sessions a1 \<Longrightarrow>
           \<exists>b. observe sha256 spec candidate published a = Inr b \<and> same_world a2 b \<and>
             ar_snapshot b = ar_snapshot a2 \<and> ar_divergences b = ar_divergences a2 \<and> claim_credited spec candidate r a b"
        by (rule observe_named [of published r reported a candidate spec sha256, OF named c], rule that)
      have a1: "ledger_ok a1" "same_world a a1" "ar_divergences a1 = ar_divergences a + (if content = PNone then 1 else 0)"
        using c(1) o(2) by (auto simp: same_world_def ledger_ok_def)
      note app = append_entry_exact [OF a1(1) r, of content]
      have top: "ar_now_tick a \<le> MAXIMUM_TICK" using c(1) by (simp add: ledger_ok_def)
      show ?thesis
      proof (cases "r \<in> fst ` set (ar_entries a)")
        case True
        let ?a2 = "a1\<lparr>ar_divergences := Suc (ar_divergences a1)\<rparr>"
        have "append_entry r content a1 = Inr ?a2" using app True a1(2) by (simp add: same_world_def)
        then obtain b where b: "observe sha256 spec candidate published a = Inr b" "same_world ?a2 b"
          "ar_divergences b = ar_divergences ?a2" "claim_credited spec candidate r a b"
          using o(4) [of ?a2] by auto
        have "same_world a b" using a1(2) b(2) by (simp add: same_world_def)
        then show ?thesis unfolding named s b(1) using True b(3,4) a1(3) by simp
      next
        case False
        show ?thesis
        proof (cases "ar_now_tick a = MAXIMUM_TICK")
          case True
          then show ?thesis using False o(3) [of "arm_error ''AGENDA_CLOCK_EXHAUSTED'' r"] app a1(2)
            by (simp add: named s same_world_def)
        next
          case now: False
          let ?a2 = "a1\<lparr>ar_now_tick := ar_now_tick a1 + 1, ar_ticks := ar_ticks a1 @ [(r, ar_now_tick a1 + 1)],
            ar_entries := ar_entries a1 @ [(r, content)], ar_snapshot := None\<rparr>"
          have "append_entry r content a1 = Inr ?a2" using app False now top a1(2) by (simp add: same_world_def)
          then obtain b where b: "observe sha256 spec candidate published a = Inr b" "same_world ?a2 b"
            "ar_divergences b = ar_divergences a1" "claim_credited spec candidate r a b"
            using o(4) [of ?a2] by auto
          show ?thesis
            unfolding named s b(1) using False now b(2-4) a1(2,3) o(1) by (simp add: same_world_def)
        qed
      qed
    qed
  qed
qed


lemma published_keeps: "bound_content spec candidate v \<Longrightarrow> v \<noteq> PNone"
  using bound_content_wf by blast

lemma publication_recorded_witness:
  "\<exists>s t v. runtime_reachable sample_sha256 sample_arm s \<and>
     publish_observe sample_sha256 (PDict [(''admission_ref'', PStr ''x''), (''content_sha256'', PStr ''h'')]) s = Inr t \<and>
     ar_entries (rt_arm t) = ar_entries (rt_arm s) @ [(''x'', v)] \<and> v \<noteq> PNone"
proof -
  let ?c = "Contribution sample_contribution" and ?p = "PDict [(''admission_ref'', PStr ''x''), (''content_sha256'', PStr ''h'')]"
  obtain b d where r: "review (sample_spec ''b'') ?c sample_arm = Inr (b, d)" using sample_review by blast
  have "case co_payload sample_contribution of Inl _ \<Rightarrow> False | Inr p \<Rightarrow> payload_schema (PDict p) = None" by code_simp
  then obtain p where "co_payload sample_contribution = Inr p" "payload_schema (PDict p) = None"
    by (auto split: sum.splits)
  then have "admitted d"
    using review_plain [OF r] by (simp add: sample_arm(4) sample_config_def)
  let ?s = "\<lparr>rt_arm = b, rt_pending = Some (sample_spec ''b'', ?c)\<rparr>"
  have "publish_review (sample_spec ''b'') ?c opened_runtime = Inr ?s"
    using r \<open>admitted d\<close> by (simp add: publish_review_def opened_runtime_def)
  from reviewed [OF _ _ sample_spec_ok(2) sample_candidate_ok this]
  have "runtime_step sample_sha256 opened_runtime ?s" by (simp add: opened_runtime_def sample_arm(3))
  then have reach: "runtime_reachable sample_sha256 sample_arm ?s"
    unfolding opened_runtime_def by (rule stepped [OF opened])
  have w: "same_world sample_arm b" using quiet_same [OF review_quiet [OF r]] .
  then have now: "ar_now_tick b = 2" using sample_arm(1,8) by (auto simp: same_world_def ledger_ok_def sample_base_def)
  have "map fst (ar_entries b) = [''r1'', ''r2'']"
    using w sample_arm(8) by (auto simp: same_world_def sample_base_def)
  then have "fst ` set (ar_entries b) = set [''r1'', ''r2'']" by (metis list.set_map)
  then have fresh: "''x'' \<notin> fst ` set (ar_entries b)" by simp
  have named: "publication_identity ?p = (Some ''x'', Some ''h'')" by code_simp
  have "case bind_record sample_contribution (sample_spec ''b'') of Inl _ \<Rightarrow> False
      | Inr r \<Rightarrow> content_sha256 sample_sha256 r = Inr ''h''" by code_simp
  then have kept: "kept_content sample_sha256 (sample_spec ''b'') ?c (Some ''h'') v \<Longrightarrow> v \<noteq> PNone" for v
    using published_keeps by (auto simp: kept_content_def split: sum.splits if_splits)
  have "rt_pending ?s = Some (sample_spec ''b'', ?c)" "b = rt_arm ?s" by simp_all
  from publication_recorded [OF sample_arm_init sample_base_ok reach this, of ?p] now
  obtain t v where t: "publish_observe sample_sha256 ?p ?s = Inr \<lparr>rt_arm = t, rt_pending = None\<rparr>"
    "ar_entries t = ar_entries b @ [(''x'', v)]" "kept_content sample_sha256 (sample_spec ''b'') ?c (Some ''h'') v"
    unfolding named by (simp add: fresh MAXIMUM_TICK_def) blast
  show ?thesis
    by (rule exI [of _ ?s], rule exI [of _ "\<lparr>rt_arm = t, rt_pending = None\<rparr>"], rule exI [of _ v])
      (use reach t kept [OF t(3)] in simp)
qed

end
