(* ===== verification/Observables.thy ===== *)
theory Observables
  imports Arm_Answers
begin

text \<open>
  The analysis-time observables of \<open>experiments/agenda_observables.py\<close>: the reading of the hardening
  trigger along a ledger, its onsets and its summary. An admission ref is any Python value until the
  snapshot accepts it. The lemmas: what a series contains, that its last sample is the reading of the
  arm, that counts of admitted tasks never drop, and that only an objection ends a firing.
\<close>

section \<open>Samples and series\<close>

definition TRIGGER_SERIES_SCHEMA :: string where
  "TRIGGER_SERIES_SCHEMA = ''PMW_AGENDA_TRIGGER_SERIES_1''"

definition SERIES_AUTHORITY :: string where
  "SERIES_AUTHORITY = ''ANALYSIS_TIME_OBSERVABLE_NEVER_A_CONTROL_INPUT''"

record trigger_sample =
  ts_tick :: nat
  ts_admission_ref :: pyval
  ts_fired :: bool
  ts_decomposition_refs :: "string list"
  ts_admitted_task_count :: nat
  ts_proposal_count :: nat

definition sample_to_value :: "trigger_sample \<Rightarrow> pyval" where
  "sample_to_value t = PDict [
     (''tick'', PInt (int (ts_tick t))),
     (''admission_ref'', ts_admission_ref t),
     (''fired'', PBool (ts_fired t)),
     (''decomposition_refs'', texts (ts_decomposition_refs t)),
     (''admitted_task_count'', PInt (int (ts_admitted_task_count t))),
     (''proposal_count'', PInt (int (ts_proposal_count t)))]"

definition sample_of ::
  "(pyval \<times> pyval) list \<Rightarrow> nat \<Rightarrow> pyval \<Rightarrow> string \<Rightarrow> agenda_roles \<Rightarrow> trigger_sample result" where
  "sample_of entries tick admission_ref target_ref roles =
     rbind (build entries PNone None) (\<lambda>s.
       let refs = settled_decomposition_refs s target_ref roles
       in Inr \<lparr>ts_tick = tick, ts_admission_ref = admission_ref, ts_fired = refs \<noteq> [],
               ts_decomposition_refs = refs, ts_admitted_task_count = length (admitted_tasks s roles),
               ts_proposal_count = length (proposals s)\<rparr>)"

definition trigger_time_series ::
  "(pyval \<times> pyval) list \<Rightarrow> pyval \<Rightarrow> agenda_roles \<Rightarrow> pyval \<Rightarrow> trigger_sample list result" where
  "trigger_time_series admissions target_ref roles base_count = (case base_count of
      PInt n \<Rightarrow>
        if n < 0 \<or> int (length admissions) < n
        then Inl (Value_Error ''base_count must lie inside the admission sequence'')
        else (case target_ref of
            PStr t \<Rightarrow>
              if t = [] then Inl (Value_Error ''target_ref must be a non-empty admission ref'')
              else rbind (sample_of (take (nat n) admissions) (nat n) PNone t roles) (\<lambda>first.
                   rbind (rmap (\<lambda>i. sample_of (take (Suc i) admissions) (Suc i) (fst (admissions ! i)) t roles)
                     [nat n..<length admissions]) (\<lambda>rest. Inr (first # rest)))
          | _ \<Rightarrow> Inl (Value_Error ''target_ref must be a non-empty admission ref''))
    | _ \<Rightarrow> Inl (Type_Error ''base_count must be an integer''))"

definition admissions :: "agenda_arm \<Rightarrow> (pyval \<times> pyval) list" where
  "admissions a = map (\<lambda>(r, content). (PStr r, content)) (ar_entries a)"

definition trigger_time_series_from_arm ::
  "agenda_arm \<Rightarrow> pyval \<Rightarrow> agenda_roles option \<Rightarrow> trigger_sample list result" where
  "trigger_time_series_from_arm a target_ref roles =
     trigger_time_series (admissions a) target_ref
       (case roles of None \<Rightarrow> ar_roles a | Some selected \<Rightarrow> selected) (PInt (ar_base_tick a))"

text \<open>\<open>world.records\<close> is a parameter.\<close>

definition trigger_time_series_from_world ::
  "(pyval \<Rightarrow> (pyval \<times> pyval) list result) \<Rightarrow> pyval list \<Rightarrow> string \<Rightarrow> agenda_roles \<Rightarrow> trigger_sample list result" where
  "trigger_time_series_from_world records snapshot_refs target_ref roles =
     rmap (\<lambda>ref. rbind (records ref) (\<lambda>rows. sample_of rows (length rows) PNone target_ref roles)) snapshot_refs"

section \<open>Onsets and summary\<close>

definition trigger_onset_tick :: "trigger_sample list \<Rightarrow> nat option" where
  "trigger_onset_tick series = map_option ts_tick (find ts_fired series)"

definition taskification_onset_tick :: "trigger_sample list \<Rightarrow> nat option" where
  "taskification_onset_tick series = map_option ts_tick (find (\<lambda>t. 0 < ts_admitted_task_count t) series)"

fun unfired_after :: "bool \<Rightarrow> trigger_sample list \<Rightarrow> bool" where
  "unfired_after fired [] = False"
| "unfired_after fired (t # rest) =
     (if ts_fired t then unfired_after True rest else if fired then True else unfired_after fired rest)"

definition unfired_after_firing :: "trigger_sample list \<Rightarrow> bool" where
  "unfired_after_firing series = unfired_after False series"

definition opt_nat :: "nat option \<Rightarrow> pyval" where
  "opt_nat n = opt_int (map_option int n)"

definition opt_last :: "'a list \<Rightarrow> 'a option" where
  "opt_last xs = (if xs = [] then None else Some (last xs))"

definition trigger_cooccurrence_items :: "trigger_sample list \<Rightarrow> string \<Rightarrow> (string \<times> pyval) list" where
  "trigger_cooccurrence_items series target_ref =
     (let trigger = trigger_onset_tick series;
          taskification = taskification_onset_tick series;
          fired_ticks = map ts_tick (filter ts_fired series)
      in [(''schema'', PStr TRIGGER_SERIES_SCHEMA),
          (''authority'', PStr SERIES_AUTHORITY),
          (''target_ref'', PStr target_ref),
          (''sample_count'', PInt (int (length series))),
          (''first_tick'', opt_nat (if series = [] then None else Some (ts_tick (hd series)))),
          (''last_tick'', opt_nat (map_option ts_tick (opt_last series))),
          (''trigger_onset_tick'', opt_nat trigger),
          (''taskification_onset_tick'', opt_nat taskification),
          (''taskification_lead_ticks'', (case (trigger, taskification) of
              (Some x, Some y) \<Rightarrow> PInt (int x - int y) | _ \<Rightarrow> PNone)),
          (''fired_tick_count'', PInt (int (length fired_ticks))),
          (''last_fired_tick'', opt_nat (opt_last fired_ticks)),
          (''non_monotone'', PBool (unfired_after_firing series)),
          (''final_reading'', (case opt_last series of None \<Rightarrow> PNone | Some t \<Rightarrow> PBool (ts_fired t)))])"

definition trigger_cooccurrence :: "trigger_sample list \<Rightarrow> string \<Rightarrow> pyval" where
  "trigger_cooccurrence series target_ref = PDict (trigger_cooccurrence_items series target_ref)"

definition trigger_series_value :: "trigger_sample list \<Rightarrow> string \<Rightarrow> pyval" where
  "trigger_series_value series target_ref =
     PDict (trigger_cooccurrence_items series target_ref @ [(''samples'', PList (map sample_to_value series))])"

definition agenda_trigger_reading :: "(pyval \<times> pyval) list \<Rightarrow> string \<Rightarrow> agenda_roles \<Rightarrow> pyval result" where
  "agenda_trigger_reading entries target_ref roles =
     rbind (build entries PNone None) (\<lambda>s. Inr (PDict [
       (''schema'', PStr TRIGGER_SERIES_SCHEMA),
       (''authority'', PStr SERIES_AUTHORITY),
       (''target_ref'', PStr target_ref),
       (''tick'', PInt (int (length entries))),
       (''fired'', PBool (agenda_hardening_trigger s target_ref roles)),
       (''decomposition_refs'', texts (settled_decomposition_refs s target_ref roles)),
       (''semantics'', PStr ''STRUCTURAL_NOT_MATHEMATICAL_AND_NON_MONOTONE_ACROSS_SNAPSHOTS'')]))"

section \<open>What a series contains\<close>

lemma build_plain:
  assumes "build items PNone None = Inr s"
  shows "snapshot_ok s" "as_now_tick s = None" "distinct (map fst items)"
    and "e \<in> set (as_entries s) \<longleftrightarrow>
      (\<exists>r content. (PStr r, content) \<in> set items \<and> r \<noteq> [] \<and> decode_entry r content None = Inr e)"
proof -
  show "snapshot_ok s" by (rule build_ok [OF assms])
  from assms obtain es where es: "distinct (map fst items)" "rmap (entry_result []) items = Inr es"
    "s = \<lparr>as_entries = sort_key en_admission_ref es, as_now_tick = None,
          as_index = map (\<lambda>e. (en_admission_ref e, e)) (sort_key en_admission_ref es)\<rparr>"
    by (auto simp: build_Inr optional_Inr)
  then show "as_now_tick s = None" "distinct (map fst items)" by simp_all
  have "e \<in> set (as_entries s) \<longleftrightarrow> (\<exists>item \<in> set items. entry_result [] item = Inr e)"
    using es(3) rmap_Inr_set [OF es(2)] by simp
  also have "\<dots> \<longleftrightarrow> (\<exists>r content. (PStr r, content) \<in> set items \<and> r \<noteq> [] \<and> decode_entry r content None = Inr e)"
    by (force simp: entry_result_Inr)
  finally show "e \<in> set (as_entries s) \<longleftrightarrow>
      (\<exists>r content. (PStr r, content) \<in> set items \<and> r \<noteq> [] \<and> decode_entry r content None = Inr e)" .
qed

lemma build_snoc:
  assumes "build items PNone None = Inr s" "build (items @ [(ref, content)]) PNone None = Inr s'"
  obtains r f where "ref = PStr r" "decode_entry r content None = Inr f" "adds s f s'"
proof -
  note p = build_plain [OF assms(1)] and q = build_plain [OF assms(2)]
  from assms(2) obtain es where "rmap (entry_result []) (items @ [(ref, content)]) = Inr es"
    by (auto simp: build_Inr)
  then have "list_all2 (\<lambda>x y. entry_result [] x = Inr y) (items @ [(ref, content)]) es"
    by (simp only: rmap_Inr_iff)
  then obtain f where "entry_result [] (ref, content) = Inr f"
    unfolding list_all2_append1 list_all2_Cons1 by blast
  then obtain r where r: "ref = PStr r" "r \<noteq> []" "decode_entry r content None = Inr f"
    by (auto simp: entry_result_Inr)
  have es: "e \<in> set (as_entries s') \<longleftrightarrow> e = f \<or> e \<in> set (as_entries s)" for e
    unfolding p(4) q(4) using r by auto
  have "en_admission_ref f = r" using decode_entry_ref [OF r(3)] by simp
  moreover have "PStr (en_admission_ref e) \<in> fst ` set items" if "e \<in> set (as_entries s)" for e
    using that unfolding p(4) by (force dest: decode_entry_ref)
  moreover have "PStr r \<notin> fst ` set items" using q(3) r(1) by auto
  ultimately have "en_admission_ref f \<notin> en_admission_ref ` set (as_entries s)" by auto
  moreover have "grows s s'" using p(1,2) q(1) es by (auto simp: grows_def)
  ultimately have "adds s f s'" using es by (auto simp: adds_def)
  with r that show thesis by blast
qed

lemma sample_of_Inr:
  "sample_of items tick ref target roles = Inr t \<longleftrightarrow> (\<exists>s. build items PNone None = Inr s \<and>
     t = \<lparr>ts_tick = tick, ts_admission_ref = ref, ts_fired = agenda_hardening_trigger s target roles,
          ts_decomposition_refs = settled_decomposition_refs s target roles,
          ts_admitted_task_count = length (admitted_tasks s roles), ts_proposal_count = length (proposals s)\<rparr>)"
  by (auto simp: sample_of_def rbind_Inr_iff Let_def agenda_hardening_trigger_def)

text \<open>The sample at position \<open>k\<close> reads the first \<open>n + k\<close> admissions.\<close>

lemma trigger_time_series_Inr:
  assumes "trigger_time_series adm target roles base = Inr series"
  obtains n t where "base = PInt (int n)" "n \<le> length adm" "target = PStr t" "t \<noteq> []"
    "length series = Suc (length adm - n)"
    "\<And>k. k \<le> length adm - n \<Longrightarrow> sample_of (take (n + k) adm) (n + k)
       (if k = 0 then PNone else fst (adm ! (n + k - 1))) t roles = Inr (series ! k)"
proof -
  from assms obtain i t first rest where d: "base = PInt i" "0 \<le> i" "i \<le> int (length adm)" "target = PStr t" "t \<noteq> []"
    "sample_of (take (nat i) adm) (nat i) PNone t roles = Inr first"
    "rmap (\<lambda>i. sample_of (take (Suc i) adm) (Suc i) (fst (adm ! i)) t roles) [nat i..<length adm] = Inr rest"
    "series = first # rest"
    by (auto simp: trigger_time_series_def rbind_Inr_iff split: pyval.splits if_splits)
  let ?n = "nat i"
  have l: "length rest = length adm - ?n"
    and each: "\<And>k. k < length adm - ?n \<Longrightarrow>
      sample_of (take (Suc (?n + k)) adm) (Suc (?n + k)) (fst (adm ! (?n + k))) t roles = Inr (rest ! k)"
    using d(7) unfolding rmap_Inr_iff by (auto simp: list_all2_conv_all_nth)
  have "sample_of (take (?n + k) adm) (?n + k) (if k = 0 then PNone else fst (adm ! (?n + k - 1))) t roles =
      Inr (series ! k)" if "k \<le> length adm - ?n" for k
    using that d(6,8) each [of "k - 1"] by (cases k) auto
  then show thesis using that [of ?n t] d l by simp
qed


section \<open>Counts along a growing world\<close>

lemma count_grows:
  assumes "grows s s'"
  shows "length (admitted_tasks s roles) \<le> length (admitted_tasks s' roles)"
    and "length (proposals s) \<le> length (proposals s')"
proof -
  have le: "length (dict_of xs) \<le> length (dict_of ys)" if "set (keys (dict_of xs)) \<subseteq> set (keys (dict_of ys))"
    for xs ys :: "(string \<times> 'a) list"
    using that card_mono [OF finite_set that] distinct_card [OF dict_of_keys [of xs]]
      distinct_card [OF dict_of_keys [of ys]] by (simp add: keys_def)
  have ok: "snapshot_ok s" "snapshot_ok s'" using assms by (simp_all add: grows_def)
  have "set (keys (admitted_tasks s roles)) \<subseteq> set (keys (admitted_tasks s' roles))"
    using ok grows_mono(2) [OF assms] by (simp add: keys_admitted_tasks subset_iff) blast
  then show "length (admitted_tasks s roles) \<le> length (admitted_tasks s' roles)"
    unfolding admitted_tasks_def by (rule le)
  have "map_of (proposals s) r = Some p \<longleftrightarrow> (\<exists>e \<in> set (as_entries s). en_admission_ref e = r \<and>
      carries TASK_PROPOSAL_SCHEMA task_proposal_parse (Some (kinds_of TASK_PROPOSAL_SCHEMA)) e p)"
    if "snapshot_ok s" for s r p
    using map_of_typed_as [OF that, of "\<lambda>e p. p" "\<lambda>_. True" TASK_PROPOSAL_SCHEMA task_proposal_parse r p]
    by (auto simp: proposals_def)
  then have "set (keys (proposals s)) \<subseteq> set (keys (proposals s'))"
    using ok assms by (simp add: keys_map_of grows_def subset_iff) blast
  then show "length (proposals s) \<le> length (proposals s')"
    unfolding proposals_def by (rule le)
qed

section \<open>The reading does not depend on the clock\<close>

abbreviation untick :: "agenda_entry \<Rightarrow> agenda_entry" where
  "untick e \<equiv> e\<lparr>en_observed_at_tick := None\<rparr>"

lemma decode_untick:
  "decode_entry r content tick = Inr e \<Longrightarrow> decode_entry r content None = Inr (untick e)"
  "decode_entry r content None = Inr e \<Longrightarrow>
     decode_entry r content tick = Inr (e\<lparr>en_observed_at_tick := tick\<rparr>)"
  by (auto simp: decode_entry_def opaque_entry_def rbind_Inr_iff
      split: pyval.splits if_splits sum.splits exn.splits)

lemma carries_untick: "carries schema parser kinds (untick e) p \<longleftrightarrow> carries schema parser kinds e p"
  by (cases kinds) (simp_all add: carries_def declares_def kind_allowed_def en_payload_def)

definition same_reading :: "agenda_snapshot \<Rightarrow> agenda_snapshot \<Rightarrow> bool" where
  "same_reading s s' \<longleftrightarrow> snapshot_ok s \<and> snapshot_ok s' \<and> set (as_entries s') = untick ` set (as_entries s)"

lemma same_reading_settles:
  assumes "same_reading s s'"
  shows "(\<exists>e p. settles s' roles target e p \<and> en_admission_ref e = r) \<longleftrightarrow>
    (\<exists>e p. settles s roles target e p \<and> en_admission_ref e = r)"
proof -
  have es: "set (as_entries s') = untick ` set (as_entries s)" and ok: "snapshot_ok s" "snapshot_ok s'"
    using assms by (simp_all add: same_reading_def)
  have "is_task s' roles r p \<longleftrightarrow> is_task s roles r p" for r p
    unfolding is_task_def es by (simp add: carries_untick)
  then have "grounded s' roles p \<longleftrightarrow> grounded s roles p" for p by (simp add: grounded_def)
  moreover have "objected s' r \<longleftrightarrow> objected s r" for r unfolding objected_def es by simp
  moreover have "snapshot_contains s' target \<longleftrightarrow> snapshot_contains s target"
    using ok by (simp add: snapshot_contains_iff es image_image)
  ultimately show ?thesis
    unfolding settles_def is_decomposition_def es by (auto simp: carries_untick)
qed

lemma same_reading:
  assumes "same_reading s s'"
  shows "settled_decomposition_refs s' target roles = settled_decomposition_refs s target roles"
proof (rule sorted_distinct_set_unique)
  have ok: "snapshot_ok s" "snapshot_ok s'" using assms by (simp_all add: same_reading_def)
  show "sorted (settled_decomposition_refs s' target roles)" "distinct (settled_decomposition_refs s' target roles)"
    "sorted (settled_decomposition_refs s target roles)" "distinct (settled_decomposition_refs s target roles)"
    using settled_sorted ok by blast+
  show "set (settled_decomposition_refs s' target roles) = set (settled_decomposition_refs s target roles)"
    using same_reading_settles [OF assms] ok by (auto simp: set_settled)
qed

lemma zip_refs: "map (\<lambda>(r, c). (PStr r, c)) xs = zip (map PStr (map fst xs)) (map snd xs)"
  by (induction xs) auto

lemma admissions_build:
  assumes "ledger_ok a"
  shows "\<exists>s. build (take k (admissions a)) PNone None = Inr s"
    and "project a = Inr s \<Longrightarrow> build (admissions a) PNone None = Inr s' \<Longrightarrow> same_reading s s'"
proof -
  have z: "take k (admissions a) = zip (map PStr (map fst (take k (ar_entries a)))) (map snd (take k (ar_entries a)))"
    unfolding admissions_def take_map by (rule zip_refs)
  show "\<exists>s. build (take k (admissions a)) PNone None = Inr s"
    unfolding z
  proof (rule build_total)
    show "distinct (map fst (take k (ar_entries a)))"
      using assms by (metis distinct_take ledger_ok_def take_map)
    show "[] \<notin> set (map fst (take k (ar_entries a)))"
      using assms by (auto simp: ledger_ok_def image_iff dest: in_set_takeD)
    show "json_tree c" if "c \<in> set (map snd (take k (ar_entries a)))" for c
      using that assms unfolding ledger_ok_def list_all_iff by (auto dest!: in_set_takeD)
  qed simp
  assume s: "project a = Inr s" and s': "build (admissions a) PNone None = Inr s'"
  have "e \<in> set (as_entries s') \<longleftrightarrow> (\<exists>r content. (r, content) \<in> set (ar_entries a) \<and> r \<noteq> [] \<and>
      decode_entry r content None = Inr e)" for e
    unfolding build_plain(4) [OF s'] by (force simp: admissions_def)
  moreover have "r \<noteq> []" if "(r, content) \<in> set (ar_entries a)" for r content
    using assms that by (force simp: ledger_ok_def)
  ultimately have new: "e \<in> set (as_entries s') \<longleftrightarrow> (\<exists>r content. (r, content) \<in> set (ar_entries a) \<and>
      decode_entry r content None = Inr e)" for e by blast
  note old = project_Inr(3) [OF assms s]
  have "set (as_entries s') = untick ` set (as_entries s)"
  proof (intro equalityI subsetI)
    fix e assume "e \<in> set (as_entries s')"
    then obtain r content where e: "(r, content) \<in> set (ar_entries a)" "decode_entry r content None = Inr e"
      unfolding new by blast
    then have "e\<lparr>en_observed_at_tick := map_of (ar_ticks a) r\<rparr> \<in> set (as_entries s)"
      unfolding old using decode_untick(2) by blast
    moreover have "e = untick (e\<lparr>en_observed_at_tick := map_of (ar_ticks a) r\<rparr>)"
      using decode_entry_ref [OF e(2)] by simp
    ultimately show "e \<in> untick ` set (as_entries s)" by (rule rev_image_eqI)
  next
    fix e assume "e \<in> untick ` set (as_entries s)"
    then show "e \<in> set (as_entries s')" unfolding new using old decode_untick(1) by blast
  qed
  then show "same_reading s s'"
    using project_Inr(2) [OF assms s] build_plain(1) [OF s'] by (simp add: same_reading_def)
qed


lemma sample_total: "ledger_ok a \<Longrightarrow> \<exists>t. sample_of (take k (admissions a)) tick ref target roles = Inr t"
  unfolding sample_of_Inr using admissions_build(1) [of a k] by blast

text \<open>Every ledger of an arm has a series, and its last sample is the reading of the arm.\<close>

lemma series_from_arm:
  assumes "ledger_ok a" "project a = Inr s" "target \<noteq> []"
  obtains series where "trigger_time_series_from_arm a (PStr target) None = Inr series"
    "map (int \<circ> ts_tick) series = [ar_base_tick a..ar_now_tick a]"
    "ts_fired (last series) = agenda_hardening_trigger s target (ar_roles a)"
    "ts_decomposition_refs (last series) = settled_decomposition_refs s target (ar_roles a)"
proof -
  let ?adm = "admissions a" and ?n = "nat (ar_base_tick a)"
  let ?ref = "\<lambda>i. fst (?adm ! i)"
  have bounds: "0 \<le> ar_base_tick a" "ar_base_tick a \<le> int (length ?adm)" "ar_now_tick a = int (length ?adm)"
    using assms(1) by (auto simp: ledger_ok_def admissions_def)
  obtain first where first: "sample_of (take ?n ?adm) ?n PNone target (ar_roles a) = Inr first"
    using sample_total [OF assms(1)] by blast
  have "\<exists>t. sample_of (take (Suc i) ?adm) (Suc i) (?ref i) target (ar_roles a) = Inr t" for i
    using sample_total [OF assms(1)] by blast
  then obtain g where "\<And>i. sample_of (take (Suc i) ?adm) (Suc i) (?ref i) target (ar_roles a) = Inr (g i)"
    by metis
  then have rest: "rmap (\<lambda>i. sample_of (take (Suc i) ?adm) (Suc i) (?ref i) target (ar_roles a)) [?n..<length ?adm] =
      Inr (map g [?n..<length ?adm])"
    by (intro rmap_all_Inr)
  then have run: "trigger_time_series_from_arm a (PStr target) None = Inr (first # map g [?n..<length ?adm])"
    using bounds assms(3) first by (simp add: trigger_time_series_from_arm_def trigger_time_series_def)
  then obtain series where series: "trigger_time_series_from_arm a (PStr target) None = Inr series" by blast
  have len: "length series = Suc (length ?adm - ?n)"
    and each: "\<And>k. k \<le> length ?adm - ?n \<Longrightarrow> sample_of (take (?n + k) ?adm) (?n + k)
       (if k = 0 then PNone else fst (?adm ! (?n + k - 1))) target (ar_roles a) = Inr (series ! k)"
    using series bounds by (auto simp: trigger_time_series_from_arm_def elim!: trigger_time_series_Inr)
  have tick: "ts_tick (series ! k) = ?n + k" if "k \<le> length ?adm - ?n" for k
    using each [OF that] by (auto simp: sample_of_Inr)
  have ticks: "map (int \<circ> ts_tick) series = [ar_base_tick a..ar_now_tick a]"
    using bounds tick by (intro nth_equalityI) (auto simp: len)
  have "series ! (length ?adm - ?n) = last series"
    using len by (subst last_conv_nth) auto
  then have "\<exists>tick ref. sample_of ?adm tick ref target (ar_roles a) = Inr (last series)"
    using each [of "length ?adm - ?n"] bounds by auto
  then obtain s' where s': "build ?adm PNone None = Inr s'"
    "ts_fired (last series) = agenda_hardening_trigger s' target (ar_roles a)"
    "ts_decomposition_refs (last series) = settled_decomposition_refs s' target (ar_roles a)"
    by (auto simp: sample_of_Inr)
  with same_reading [OF admissions_build(2) [OF assms(1,2) s'(1)]] that [OF series ticks] show thesis
    by (simp add: agenda_hardening_trigger_def)
qed

section \<open>Firings and counts along a series\<close>

lemma unfired_after_step:
  "unfired_after (ts_fired t) series \<Longrightarrow>
   \<exists>k < length series. ts_fired ((t # series) ! k) \<and> \<not> ts_fired (series ! k)"
proof (induction series arbitrary: t)
  case (Cons u series)
  show ?case
  proof (cases "ts_fired t \<and> \<not> ts_fired u")
    case False
    with Cons.prems have "unfired_after (ts_fired u) series" by (auto split: if_splits)
    from Cons.IH [OF this] obtain k where "k < length series" "ts_fired ((u # series) ! k)" "\<not> ts_fired (series ! k)"
      by blast
    then show ?thesis by (intro exI [of _ "Suc k"]) simp
  qed (auto intro: exI [of _ 0])
qed simp

lemma unfired_after_firing_step:
  "unfired_after_firing series \<Longrightarrow>
   \<exists>k. Suc k < length series \<and> ts_fired (series ! k) \<and> \<not> ts_fired (series ! Suc k)"
proof (cases series)
  case (Cons t rest)
  moreover assume "unfired_after_firing series"
  ultimately have "unfired_after (ts_fired t) rest" by (auto simp: unfired_after_firing_def split: if_splits)
  from unfired_after_step [OF this] Cons show ?thesis by auto
qed (simp add: unfired_after_firing_def)

text \<open>Two neighbours differ by one admission.\<close>

lemma series_step:
  assumes "trigger_time_series adm (PStr target) roles (PInt (int n)) = Inr series" "Suc k < length series"
  obtains r f s s' where "adm ! (n + k) = (PStr r, snd (adm ! (n + k)))" "n + k < length adm"
    "decode_entry r (snd (adm ! (n + k))) None = Inr f" "adds s f s'"
    "ts_fired (series ! k) = agenda_hardening_trigger s target roles"
    "ts_fired (series ! Suc k) = agenda_hardening_trigger s' target roles"
    "ts_decomposition_refs (series ! k) = settled_decomposition_refs s target roles"
    "ts_admitted_task_count (series ! k) = length (admitted_tasks s roles)"
    "ts_admitted_task_count (series ! Suc k) = length (admitted_tasks s' roles)"
    "ts_proposal_count (series ! k) = length (proposals s)"
    "ts_proposal_count (series ! Suc k) = length (proposals s')"
proof -
  have len: "length series = Suc (length adm - n)"
    and each: "\<And>k. k \<le> length adm - n \<Longrightarrow> sample_of (take (n + k) adm) (n + k)
       (if k = 0 then PNone else fst (adm ! (n + k - 1))) target roles = Inr (series ! k)"
    using assms(1) by (auto elim!: trigger_time_series_Inr)
  have nk: "n + k < length adm" "k \<le> length adm - n" "Suc k \<le> length adm - n" using assms(2) len by simp_all
  obtain s where s: "build (take (n + k) adm) PNone None = Inr s"
    "ts_fired (series ! k) = agenda_hardening_trigger s target roles"
    "ts_decomposition_refs (series ! k) = settled_decomposition_refs s target roles"
    "ts_admitted_task_count (series ! k) = length (admitted_tasks s roles)"
    "ts_proposal_count (series ! k) = length (proposals s)"
    using each [OF nk(2)] by (auto simp: sample_of_Inr)
  obtain s' where s': "build (take (Suc (n + k)) adm) PNone None = Inr s'"
    "ts_fired (series ! Suc k) = agenda_hardening_trigger s' target roles"
    "ts_admitted_task_count (series ! Suc k) = length (admitted_tasks s' roles)"
    "ts_proposal_count (series ! Suc k) = length (proposals s')"
    using each [OF nk(3)] by (auto simp: sample_of_Inr)
  have "take (Suc (n + k)) adm = take (n + k) adm @ [(fst (adm ! (n + k)), snd (adm ! (n + k)))]"
    using nk by (simp add: take_Suc_conv_app_nth)
  from build_snoc [OF s(1) s'(1) [unfolded this]] obtain r f where
    "fst (adm ! (n + k)) = PStr r" "decode_entry r (snd (adm ! (n + k))) None = Inr f" "adds s f s'"
    by blast
  with s s' nk that show thesis by (metis prod.collapse)
qed

lemma series_counts:
  assumes "trigger_time_series adm (PStr target) roles (PInt (int n)) = Inr series"
    and "i \<le> j" "j < length series"
  shows "ts_admitted_task_count (series ! i) \<le> ts_admitted_task_count (series ! j)"
    and "ts_proposal_count (series ! i) \<le> ts_proposal_count (series ! j)"
proof -
  have "ts_admitted_task_count (series ! i) \<le> ts_admitted_task_count (series ! j) \<and>
      ts_proposal_count (series ! i) \<le> ts_proposal_count (series ! j)"
    using assms(2,3)
  proof (induction j rule: dec_induct)
    case (step j)
    from step.prems obtain s f s' where "adds s f s'"
      "ts_admitted_task_count (series ! j) = length (admitted_tasks s roles)"
      "ts_admitted_task_count (series ! Suc j) = length (admitted_tasks s' roles)"
      "ts_proposal_count (series ! j) = length (proposals s)"
      "ts_proposal_count (series ! Suc j) = length (proposals s')"
      by (rule series_step [OF assms(1)])
    with count_grows [of s s'] step show ?case by (fastforce simp: adds_def intro: le_trans)
  qed simp
  then show "ts_admitted_task_count (series ! i) \<le> ts_admitted_task_count (series ! j)"
    "ts_proposal_count (series ! i) \<le> ts_proposal_count (series ! j)" by blast+
qed

lemma series_unfired:
  assumes "trigger_time_series adm (PStr target) roles (PInt (int n)) = Inr series" "unfired_after_firing series"
  obtains k r f where "Suc k < length series" "adm ! (n + k) = (PStr r, snd (adm ! (n + k)))"
    "ts_fired (series ! k)" "\<not> ts_fired (series ! Suc k)"
    "decode_entry r (snd (adm ! (n + k))) None = Inr f" "en_kind f = Some ''OBJECTION''"
    "set (ts_decomposition_refs (series ! k)) \<subseteq> set (en_parent_refs f)"
proof -
  from unfired_after_firing_step [OF assms(2)] obtain k where k: "Suc k < length series"
    "ts_fired (series ! k)" "\<not> ts_fired (series ! Suc k)" by blast
  from assms(1) k(1) show thesis
    by (rule series_step) (use k trigger_lost in \<open>auto intro!: that [of k]; blast\<close>)
qed

end
