(* ===== verification/Observable_Properties.thy ===== *)
theory Observable_Properties
  imports Arm_Examples Observables
begin

text \<open>
  The properties of the analysis-time series of the hardening trigger, and a ledger in which the
  trigger fires and is then objected to.
\<close>

section \<open>A ledger that fires\<close>

definition sample_recorded :: "string \<Rightarrow> string \<Rightarrow> string list \<Rightarrow> pyval \<Rightarrow> research_record" where
  "sample_recorded session kind parents payload = sample_record
     \<lparr>re_session_id := session, re_kind := kind, re_problem_ids := [], re_parent_refs := parents,
      re_payload_bytes := payload_text payload\<rparr>"

lemma sample_recorded_ok:
  assumes "research_record_init (PStr ''w'') (PStr ''cohort'') (PStr session)
     (PStr (''snapshot/sha256/'' @ replicate 64 (CHR ''0''))) (PStr kind) (PStr ''title'') (PStr ''body'')
     (texts []) (texts parents) (texts []) payload = Inr (sample_recorded session kind parents payload)"
    and "json_wf (\<lambda>_. True) payload"
  shows "record_ok (sample_recorded session kind parents payload)"
  by (rule init_record_ok [OF assms])

definition sample_content :: "research_record \<Rightarrow> pyval" where
  "sample_content r = projr (record_to_value r)"

definition sample_read :: "string \<times> research_record \<Rightarrow> agenda_entry" where
  "sample_read row = (case row of (ref, r) \<Rightarrow>
    \<lparr>en_admission_ref = ref, en_session_id = Some (re_session_id r), en_kind = Some (re_kind r),
     en_parent_refs = re_parent_refs r, en_problem_ids = re_problem_ids r,
     en_artifact_refs = re_artifact_refs r, en_observed_at_tick = None, en_malformed = False,
     en_payload_bytes = Some (re_payload_bytes r)\<rparr>)"

definition sample_rows_of :: "(string \<times> research_record) list \<Rightarrow> (pyval \<times> pyval) list" where
  "sample_rows_of rows = map (\<lambda>(ref, r). (PStr ref, sample_content r)) rows"

definition sample_world_of :: "(string \<times> research_record) list \<Rightarrow> agenda_snapshot" where
  "sample_world_of rows = (let es = sort_key en_admission_ref (map sample_read rows)
     in \<lparr>as_entries = es, as_now_tick = None, as_index = map (\<lambda>e. (en_admission_ref e, e)) es\<rparr>)"

lemma sample_world:
  assumes "distinct (map fst rows)" "[] \<notin> set (map fst rows)" "\<forall>(ref, r) \<in> set rows. record_ok r"
  shows "build (sample_rows_of rows) PNone None = Inr (sample_world_of rows)"
proof -
  have read: "entry_result [] (PStr ref, sample_content r) = Inr (sample_read (ref, r))"
    if "record_ok r" "ref \<noteq> []" for ref r
  proof -
    from record_to_value_wf [OF that(1)] obtain v where
      v: "record_to_value r = Inr v" "json_wf (\<lambda>_. True) v" "record_from_value v = Inr r" by blast
    from decode_entry_record [OF v(3,2)] v(1) that(2) show ?thesis
      by (simp add: entry_result_Inr sample_content_def sample_read_def)
  qed
  have "rmap (entry_result []) (sample_rows_of rows) = Inr (map sample_read rows)"
    using assms(2,3) by (induction rows) (auto simp: sample_rows_of_def read)
  moreover have "distinct (map fst (sample_rows_of rows))"
    using assms(1) by (simp add: sample_rows_of_def distinct_map inj_on_def comp_def case_prod_beta)
  ultimately show ?thesis
    by (auto simp: build_Inr optional_Inr sample_world_of_def Let_def)
qed

definition task_record :: research_record where
  "task_record = sample_recorded ''a'' ''CHECKPOINT'' [] (task_admission_to_value sample_task)"

definition split_record :: research_record where
  "split_record = sample_recorded ''b'' ''RESULT'' [] (decomposition_to_value sample_split)"

definition objection_record :: research_record where
  "objection_record = sample_recorded ''c'' ''OBJECTION'' [ref_split] (PDict [])"

lemma split_records_ok: "record_ok task_record" "record_ok split_record" "record_ok objection_record"
  unfolding task_record_def split_record_def objection_record_def
  by (rule sample_recorded_ok; code_simp)+

definition split_ledger :: "(string \<times> research_record) list" where
  "split_ledger = [(ref_task, task_record), (ref_second, task_record), (ref_split, split_record),
     (ref_objection, objection_record)]"

text \<open>The decomposition of the task fires once both tasks are admitted, until it is objected to.\<close>

definition firing_world :: "agenda_entry list \<Rightarrow> agenda_snapshot" where
  "firing_world es = \<lparr>as_entries = es, as_now_tick = None, as_index = map (\<lambda>e. (en_admission_ref e, e)) es\<rparr>"

lemma split_reads:
  "sample_read (ref_task, task_record) = untick entry_task"
  "sample_read (ref_second, task_record) = untick entry_second"
  "sample_read (ref_split, split_record) = untick entry_split"
  "sample_read (ref_objection, objection_record) = untick entry_objection"
  by (simp_all add: sample_read_def task_record_def split_record_def objection_record_def sample_recorded_def
      sample_record_def entry_task_def entry_second_def entry_split_def entry_objection_def sample_entry_def)

lemma split_order:
  "ref_task \<le> ref_second" "ref_task \<le> ref_split" "ref_task \<le> ref_objection" "\<not> ref_second \<le> ref_split"
  "\<not> ref_second \<le> ref_objection" "ref_split \<le> ref_objection"
  by code_simp+

lemma split_refs:
  "en_admission_ref (untick entry_task) = ref_task" "en_admission_ref (untick entry_second) = ref_second"
  "en_admission_ref (untick entry_split) = ref_split" "en_admission_ref (untick entry_objection) = ref_objection"
  by (simp_all add: entry_task_def entry_second_def entry_split_def entry_objection_def sample_entry_def)

lemma split_worlds:
  "sample_world_of (take 1 split_ledger) = firing_world [untick entry_task]"
  "sample_world_of (take 2 split_ledger) = firing_world [untick entry_task, untick entry_second]"
  "sample_world_of (take 3 split_ledger) = firing_world [untick entry_task, untick entry_split, untick entry_second]"
  "sample_world_of (take 4 split_ledger) =
     firing_world [untick entry_task, untick entry_split, untick entry_objection, untick entry_second]"
  by (simp_all add: sample_world_of_def firing_world_def Let_def split_ledger_def split_reads split_order
      split_refs [simplified])

lemma split_firings:
  "\<not> agenda_hardening_trigger (sample_world_of (take 1 split_ledger)) ref_task sample_roles"
  "\<not> agenda_hardening_trigger (sample_world_of (take 2 split_ledger)) ref_task sample_roles"
  "agenda_hardening_trigger (sample_world_of (take 3 split_ledger)) ref_task sample_roles"
  "\<not> agenda_hardening_trigger (sample_world_of (take 4 split_ledger)) ref_task sample_roles"
  unfolding split_worlds by code_simp+

lemma split_sample:
  "\<exists>t. sample_of (take k (sample_rows_of split_ledger)) tick ref ref_task sample_roles = Inr t \<and>
     ts_fired t = agenda_hardening_trigger (sample_world_of (take k split_ledger)) ref_task sample_roles"
proof -
  have "distinct (map fst split_ledger)" "[] \<notin> set (map fst split_ledger)" "\<forall>(ref, r) \<in> set split_ledger. record_ok r"
    using split_records_ok
    by (simp_all add: split_ledger_def ref_task_def ref_second_def ref_split_def ref_objection_def sample_ref_def)
  then have "build (sample_rows_of (take k split_ledger)) PNone None = Inr (sample_world_of (take k split_ledger))"
    by (intro sample_world) (auto simp: take_map [symmetric] dest: in_set_takeD)
  then show ?thesis by (simp add: sample_of_Inr sample_rows_of_def take_map)
qed

lemma split_series:
  "\<exists>series. trigger_time_series (sample_rows_of split_ledger) (PStr ref_task) sample_roles (PInt (int 1)) = Inr series \<and>
     map ts_fired series = [False, False, True, False]"
proof -
  let ?rows = "sample_rows_of split_ledger"
  have "\<exists>f. \<forall>k tick ref. sample_of (take k ?rows) tick ref ref_task sample_roles = Inr (f k tick ref) \<and>
      ts_fired (f k tick ref) = agenda_hardening_trigger (sample_world_of (take k split_ledger)) ref_task sample_roles"
    using split_sample by metis
  then obtain f where f: "\<And>k tick ref. sample_of (take k ?rows) tick ref ref_task sample_roles = Inr (f k tick ref)"
    "\<And>k tick ref. ts_fired (f k tick ref) = agenda_hardening_trigger (sample_world_of (take k split_ledger)) ref_task sample_roles"
    by blast
  have len: "length ?rows = 4" by (simp add: sample_rows_of_def split_ledger_def)
  have "ref_task \<noteq> []" by (simp add: ref_task_def sample_ref_def)
  moreover have "[Suc 0..<4] = [1, 2, 3]" by (simp add: upt_rec)
  ultimately have "trigger_time_series ?rows (PStr ref_task) sample_roles (PInt (int 1)) =
      Inr [f 1 1 PNone, f 2 2 (fst (?rows ! 1)), f 3 3 (fst (?rows ! 2)), f 4 4 (fst (?rows ! 3))]"
    by (simp add: trigger_time_series_def len f(1) del: take_Suc_Cons) (simp add: numeral_2_eq_2)
  then show ?thesis using split_firings by (simp add: f(2))
qed

section \<open>The series\<close>

text \<open>C36: a firing ends only by an objection: when a series ever goes back to unfired, the admission
  between the two samples is a record of kind \<open>OBJECTION\<close> that names every decomposition settled at the
  firing sample as a parent. This is the ground of the summary's \<open>non_monotone\<close>.\<close>

theorem firing_ended_by_objection:
  assumes "trigger_time_series adm (PStr target) roles (PInt (int n)) = Inr series" "unfired_after_firing series"
  shows "\<exists>k r f. Suc k < length series \<and> fst (adm ! (n + k)) = PStr r \<and>
    ts_fired (series ! k) \<and> \<not> ts_fired (series ! Suc k) \<and>
    decode_entry r (snd (adm ! (n + k))) None = Inr f \<and> en_kind f = Some ''OBJECTION'' \<and>
    set (ts_decomposition_refs (series ! k)) \<subseteq> set (en_parent_refs f)"
  using assms by (rule series_unfired) (metis fst_conv)

lemma firing_ended_by_objection_witness:
  "\<exists>r content f. (PStr r, content) \<in> set (sample_rows_of split_ledger) \<and>
     decode_entry r content None = Inr f \<and> en_kind f = Some ''OBJECTION''"
proof -
  obtain series where s: "trigger_time_series (sample_rows_of split_ledger) (PStr ref_task) sample_roles
    (PInt (int 1)) = Inr series" "map ts_fired series = [False, False, True, False]"
    using split_series by (elim exE conjE)
  then have "unfired_after_firing series" by (auto simp: unfired_after_firing_def map_eq_Cons_conv)
  from firing_ended_by_objection [OF s(1) this] obtain k r f where k: "Suc k < length series"
    "fst (sample_rows_of split_ledger ! (1 + k)) = PStr r"
    "decode_entry r (snd (sample_rows_of split_ledger ! (1 + k))) None = Inr f" "en_kind f = Some ''OBJECTION''"
    by blast
  moreover have "1 + k < length (sample_rows_of split_ledger)"
    using k(1) arg_cong [OF s(2), of length] by (simp add: sample_rows_of_def split_ledger_def)
  ultimately show ?thesis by (metis nth_mem prod.collapse)
qed

text \<open>C35: the series of an arm in any state its launch can reach exists and agrees with the arm: one
  sample per admission since the launch opened, dated by the host clock; the counts of admitted tasks
  and of proposals never drop, so an onset of taskification is final; and the last sample is the
  hardening trigger on the arm's own current projection, although it is computed without ticks.\<close>

theorem series_reads_the_arm:
  assumes "arm_init sha256 cf session_ids base = Inr a" "base_ok base" "runtime_reachable sha256 a s"
    and "target \<noteq> []"
  shows "\<exists>series now. trigger_time_series_from_arm (rt_arm s) (PStr target) None = Inr series \<and>
    project (rt_arm s) = Inr now \<and>
    map (int \<circ> ts_tick) series = [int (length base)..ar_now_tick (rt_arm s)] \<and>
    sorted (map ts_admitted_task_count series) \<and> sorted (map ts_proposal_count series) \<and>
    ts_fired (last series) = agenda_hardening_trigger now target (ar_roles (rt_arm s)) \<and>
    ts_decomposition_refs (last series) = settled_decomposition_refs now target (ar_roles (rt_arm s))"
proof -
  have ok: "ledger_ok (rt_arm s)"
    using reachable_inv [OF assms(3) arm_init_Inr(1,2) [OF assms(1,2)]] by (simp add: runtime_inv_def)
  then obtain now where now: "project (rt_arm s) = Inr now" using project_Inr(1) by blast
  obtain series where series: "trigger_time_series_from_arm (rt_arm s) (PStr target) None = Inr series"
    "map (int \<circ> ts_tick) series = [ar_base_tick (rt_arm s)..ar_now_tick (rt_arm s)]"
    "ts_fired (last series) = agenda_hardening_trigger now target (ar_roles (rt_arm s))"
    "ts_decomposition_refs (last series) = settled_decomposition_refs now target (ar_roles (rt_arm s))"
    by (rule series_from_arm [OF ok now assms(4)])
  have "ar_base_tick (rt_arm s) = int (length base)"
    using reachable_clock [OF assms(3) arm_init_Inr(1,2) [OF assms(1,2)]] arm_init_Inr(6) [OF assms(1,2)] by simp
  moreover have "trigger_time_series (admissions (rt_arm s)) (PStr target) (ar_roles (rt_arm s))
      (PInt (int (length base))) = Inr series"
    using series(1) calculation by (simp add: trigger_time_series_from_arm_def)
  ultimately show ?thesis
    using series now series_counts by (fastforce simp: sorted_iff_nth_mono)
qed

lemma series_reads_the_arm_witness:
  "\<exists>series. trigger_time_series_from_arm sample_arm (PStr ref_task) None = Inr series \<and>
     map (int \<circ> ts_tick) series = [2]"
proof -
  have "ref_task \<noteq> []" by (simp add: ref_task_def sample_ref_def)
  from series_reads_the_arm [OF sample_arm_init sample_base_ok opened this]
    sample_arm show ?thesis by (auto simp: sample_base_def ledger_ok_def)
qed

end
