(* ===== verification/World_Store.thy ===== *)
theory World_Store
  imports Session_Model
begin

text \<open>
  The adapter over the PMW world broker, \<open>world/store.py\<close>: the writer authority, the decoding of
  derived-view rows and of stored contents, and the \<open>ResearchWorld\<close> with its cache of decoded
  snapshots, its reads and its publish path. The broker is not part of the repository: its operations
  are the fields of \<open>core\<close>, on a broker state of any type. What is not modelled is the activation of
  the core package (imports) and the file checks of \<open>load_writer_authority\<close>.
\<close>

section \<open>Stored contents\<close>

text \<open>
  \<open>bytes.decode("utf-8", errors="replace")\<close>: a maximal prefix of a well-formed sequence that is not
  completed, or a single byte, becomes U+FFFD.
\<close>

definition replacement_char :: string where
  "replacement_char = [char_of (239::nat), char_of (191::nat), char_of (189::nat)]"

definition second_ok :: "char \<Rightarrow> char \<Rightarrow> bool" where
  "second_ok a b \<longleftrightarrow> is_cont b \<and>
     (cc a = 224 \<and> 160 \<le> cc b \<or> 225 \<le> cc a \<and> cc a \<le> 236 \<or> cc a = 237 \<and> cc b < 160 \<or>
      238 \<le> cc a \<and> cc a \<le> 239 \<or> cc a = 240 \<and> 144 \<le> cc b \<or> 241 \<le> cc a \<and> cc a \<le> 243 \<or>
      cc a = 244 \<and> cc b < 144)"

definition bad_length :: "string \<Rightarrow> nat" where
  "bad_length s = (case s of
      a # b # r \<Rightarrow>
        if \<not> second_ok a b then 1
        else (case r of c # _ \<Rightarrow> if 240 \<le> cc a \<and> is_cont c then 3 else 2 | [] \<Rightarrow> 2)
    | _ \<Rightarrow> 1)"

lemma bad_length_pos: "0 < bad_length s"
  by (auto simp: bad_length_def split: list.splits)

function decode_replace :: "string \<Rightarrow> string" where
  "decode_replace s =
     (if s = [] then []
      else (case utf8_next s of
          Some r \<Rightarrow> take (length s - length r) s @ decode_replace r
        | None \<Rightarrow> replacement_char @ decode_replace (drop (bad_length s) s)))"
  by pat_completeness auto
termination
  by (relation "measure length") (auto dest: utf8_next_shorter simp: bad_length_pos)

declare decode_replace.simps [simp del]

text \<open>
  \<open>_decode_json_or_text\<close>: duplicate keys, non-finite numbers and integers beyond the interpreter's
  conversion limit make the bytes a text. A float is finite when it rounds below \<open>2\<^sup>1\<^sup>0\<^sup>2\<^sup>4\<close>.
\<close>

definition MAXIMUM_INT_DIGITS :: nat where
  "MAXIMUM_INT_DIGITS = 4300"

definition finite_float :: "nat \<Rightarrow> int \<Rightarrow> pyval option" where
  "finite_float digits shift =
     (if (if 0 \<le> shift then digits * 10 ^ nat shift < 2 ^ 1024 - 2 ^ 970
          else digits < (2 ^ 1024 - 2 ^ 970) * 10 ^ nat (- shift))
      then Some (POther ''float'') else None)"

definition short_int :: "int \<Rightarrow> int option" where
  "short_int i = (if \<bar>i\<bar> < 10 ^ MAXIMUM_INT_DIGITS then Some i else None)"

definition content_hooks :: json_hooks where
  "content_hooks = \<lparr>object_hook = duplicate_rejecting_object [], int_hook = short_int, float_hook = finite_float\<rparr>"

definition decode_json_or_text :: "string \<Rightarrow> pyval" where
  "decode_json_or_text raw =
     (if utf8_valid raw
      then (case json_loads content_hooks raw of Some v \<Rightarrow> v | None \<Rightarrow> PStr raw)
      else PStr (decode_replace raw))"

section \<open>Base64\<close>

text \<open>\<open>base64.b64decode(text, validate=True)\<close>: the strict mode of \<open>binascii.a2b_base64\<close>, with its state
  (padding seen, position in the quad, bits left over, pads).\<close>

definition b64_value :: "char \<Rightarrow> nat option" where
  "b64_value c =
     (if is_upper c then Some (cc c - 65)
      else if is_lower c then Some (cc c - 71)
      else if is_digit c then Some (cc c + 4)
      else if c = CHR ''+'' then Some 62
      else if c = CHR ''/'' then Some 63
      else None)"

fun a2b_base64 :: "bool \<Rightarrow> nat \<Rightarrow> nat \<Rightarrow> nat \<Rightarrow> string \<Rightarrow> string option" where
  "a2b_base64 padded quad left pads [] = (if quad = 0 then Some [] else None)"
| "a2b_base64 padded quad left pads (c # s) =
     (if c = CHR ''='' then
        (if 2 \<le> quad then
           (if 4 \<le> quad + Suc pads then (if s = [] then Some [] else None)
            else a2b_base64 True quad left (Suc pads) s)
         else a2b_base64 True quad left pads s)
      else (case b64_value c of
          None \<Rightarrow> None
        | Some v \<Rightarrow>
            if padded then None
            else if quad = 0 then a2b_base64 padded 1 v 0 s
            else map_option (Cons (char_of (if quad = 1 then left * 4 + v div 16
                                            else if quad = 2 then left * 16 + v div 4
                                            else left * 64 + v)))
                   (if quad = 1 then a2b_base64 padded 2 (v mod 16) 0 s
                    else if quad = 2 then a2b_base64 padded 3 (v mod 4) 0 s
                    else a2b_base64 padded 0 0 0 s)))"

definition b64decode :: "string \<Rightarrow> string option" where
  "b64decode s = (if s \<noteq> [] \<and> hd s = CHR ''='' then None else a2b_base64 False 0 0 0 s)"

section \<open>Errors and references\<close>

text \<open>\<open>detail[:2_000]\<close>\<close>

definition world_error :: "string \<Rightarrow> string \<Rightarrow> exn" where
  "world_error code detail = Research_World_Error code (cp_take 2000 detail)"

definition is_RECEIPT_REF :: "string \<Rightarrow> bool" where
  "is_RECEIPT_REF = matches_prefixed_sha256 ''receipt/sha256/''"

definition is_REFERENCE :: "string \<Rightarrow> bool" where
  "is_REFERENCE = matches_ident (\<lambda>c. is_lower c \<or> is_upper c \<or> is_digit c)
     (\<lambda>c. is_lower c \<or> is_upper c \<or> is_digit c \<or> c \<in> set ''._:/+=-'') 1023"

definition wa_reference :: "string \<Rightarrow> pyval \<Rightarrow> string result" where
  "wa_reference label value = (case value of
      PStr s \<Rightarrow> if is_REFERENCE s then Inr s else Inl (world_error ''MALFORMED_WRITER_AUTHORITY'' label)
    | _ \<Rightarrow> Inl (world_error ''MALFORMED_WRITER_AUTHORITY'' label))"

definition check_snapshot :: "string \<Rightarrow> pyval \<Rightarrow> string result" where
  "check_snapshot label value = (case value of
      PStr s \<Rightarrow> if is_SNAPSHOT_REF s then Inr s else Inl (world_error ''MALFORMED_SNAPSHOT_REF'' label)
    | _ \<Rightarrow> Inl (world_error ''MALFORMED_SNAPSHOT_REF'' label))"

definition check_admission :: "string \<Rightarrow> pyval \<Rightarrow> string result" where
  "check_admission label value = (case value of
      PStr s \<Rightarrow> if is_ADMISSION_REF s then Inr s else Inl (world_error ''MALFORMED_ADMISSION_REF'' label)
    | _ \<Rightarrow> Inl (world_error ''MALFORMED_ADMISSION_REF'' label))"

section \<open>Writer authority\<close>

definition WRITER_AUTHORITY_SCHEMA :: string where
  "WRITER_AUTHORITY_SCHEMA = ''PMW_WRITER_AUTHORITY_1''"

record writer_authority =
  wr_channel_ref :: string
  wr_invocation_ref :: string
  wr_process_ref :: string
  wr_principal_ref :: string
  wr_episode_ref :: string
  wr_capability_ref :: string
  wr_scope_ref :: string
  wr_policy_ref :: string
  wr_policy_fingerprint :: string
  wr_maximum_calls :: int
  wr_maximum_delivery_attempts :: int
  wr_maximum_content_bytes :: int
  wr_maximum_parent_refs :: int

abbreviation authority_error :: "string \<Rightarrow> exn" where
  "authority_error \<equiv> world_error ''MALFORMED_WRITER_AUTHORITY''"

definition positive_limit :: "string \<Rightarrow> pyval \<Rightarrow> int result" where
  "positive_limit label value = (case value of
      PInt n \<Rightarrow> if n \<le> 0 then Inl (authority_error label) else Inr n
    | _ \<Rightarrow> Inl (authority_error label))"

definition writer_authority_init ::
  "pyval \<Rightarrow> pyval \<Rightarrow> pyval \<Rightarrow> pyval \<Rightarrow> pyval \<Rightarrow> pyval \<Rightarrow> pyval \<Rightarrow> pyval \<Rightarrow> pyval \<Rightarrow>
   pyval \<Rightarrow> pyval \<Rightarrow> pyval \<Rightarrow> pyval \<Rightarrow> writer_authority result" where
  "writer_authority_init channel invocation process owner episode capability scope policy fingerprint
     calls attempts content parents =
     rbind (wa_reference ''channel_ref'' channel) (\<lambda>channel.
     rbind (wa_reference ''invocation_ref'' invocation) (\<lambda>invocation.
     rbind (wa_reference ''process_ref'' process) (\<lambda>process.
     rbind (wa_reference ''principal_ref'' owner) (\<lambda>owner.
     rbind (wa_reference ''episode_ref'' episode) (\<lambda>episode.
     rbind (wa_reference ''capability_ref'' capability) (\<lambda>capability.
     rbind (wa_reference ''scope_ref'' scope) (\<lambda>scope.
     rbind (wa_reference ''policy_ref'' policy) (\<lambda>policy.
     rbind (case fingerprint of
              PStr s \<Rightarrow> if matches_sha256 s then Inr s else Inl (authority_error ''policy_fingerprint'')
            | _ \<Rightarrow> Inl (authority_error ''policy_fingerprint'')) (\<lambda>fingerprint.
     rbind (positive_limit ''maximum_calls'' calls) (\<lambda>calls.
     rbind (positive_limit ''maximum_delivery_attempts'' attempts) (\<lambda>attempts.
     rbind (positive_limit ''maximum_content_bytes'' content) (\<lambda>content.
     rbind (positive_limit ''maximum_parent_refs'' parents) (\<lambda>parents.
       if attempts < calls \<or> 65536 < content \<or> 16 < parents then Inl (authority_error ''limits'')
       else Inr \<lparr>wr_channel_ref = channel, wr_invocation_ref = invocation, wr_process_ref = process,
         wr_principal_ref = owner, wr_episode_ref = episode, wr_capability_ref = capability,
         wr_scope_ref = scope, wr_policy_ref = policy, wr_policy_fingerprint = fingerprint,
         wr_maximum_calls = calls, wr_maximum_delivery_attempts = attempts,
         wr_maximum_content_bytes = content, wr_maximum_parent_refs = parents\<rparr>)))))))))))))"

definition AUTHORITY_FIELDS :: "string list" where
  "AUTHORITY_FIELDS = [''schema'', ''channel_ref'', ''invocation_ref'', ''process_ref'', ''principal_ref'',
     ''episode_ref'', ''capability_ref'', ''scope_ref'', ''policy_ref'', ''policy_fingerprint'',
     ''maximum_calls'', ''maximum_delivery_attempts'', ''maximum_content_bytes'', ''maximum_parent_refs'']"

definition authority_to_value :: "writer_authority \<Rightarrow> pyval" where
  "authority_to_value w = PDict [
     (''schema'', PStr WRITER_AUTHORITY_SCHEMA), (''channel_ref'', PStr (wr_channel_ref w)),
     (''invocation_ref'', PStr (wr_invocation_ref w)), (''process_ref'', PStr (wr_process_ref w)),
     (''principal_ref'', PStr (wr_principal_ref w)), (''episode_ref'', PStr (wr_episode_ref w)),
     (''capability_ref'', PStr (wr_capability_ref w)), (''scope_ref'', PStr (wr_scope_ref w)),
     (''policy_ref'', PStr (wr_policy_ref w)), (''policy_fingerprint'', PStr (wr_policy_fingerprint w)),
     (''maximum_calls'', PInt (wr_maximum_calls w)),
     (''maximum_delivery_attempts'', PInt (wr_maximum_delivery_attempts w)),
     (''maximum_content_bytes'', PInt (wr_maximum_content_bytes w)),
     (''maximum_parent_refs'', PInt (wr_maximum_parent_refs w))]"

definition authority_from_value :: "pyval \<Rightarrow> writer_authority result" where
  "authority_from_value value = (case value of
      PDict d \<Rightarrow>
        if set (keys d) \<noteq> set AUTHORITY_FIELDS then Inl (authority_error ''fields'')
        else if dget ''schema'' d \<noteq> PStr WRITER_AUTHORITY_SCHEMA then Inl (authority_error ''schema'')
        else writer_authority_init (dget ''channel_ref'' d) (dget ''invocation_ref'' d) (dget ''process_ref'' d)
          (dget ''principal_ref'' d) (dget ''episode_ref'' d) (dget ''capability_ref'' d) (dget ''scope_ref'' d)
          (dget ''policy_ref'' d) (dget ''policy_fingerprint'' d) (dget ''maximum_calls'' d)
          (dget ''maximum_delivery_attempts'' d) (dget ''maximum_content_bytes'' d) (dget ''maximum_parent_refs'' d)
    | _ \<Rightarrow> Inl (authority_error ''fields''))"

text \<open>The JSON reading at the end of \<open>load_writer_authority\<close>; the bytes come from the file.\<close>

definition authority_hooks :: json_hooks where
  "authority_hooks = content_hooks\<lparr>float_hook := \<lambda>_ _. None\<rparr>"

definition load_writer_authority :: "string \<Rightarrow> writer_authority result" where
  "load_writer_authority raw =
     (if \<not> utf8_valid raw then Inl (authority_error ''JSON'')
      else (case json_loads authority_hooks raw of
          None \<Rightarrow> Inl (authority_error ''JSON'')
        | Some value \<Rightarrow> authority_from_value value))"

section \<open>Derived-view rows\<close>

record world_admission =
  wa_admission_ref :: string
  wa_parent_refs :: "string list"
  wa_content_bytes :: string
  wa_admission_bytes :: string
  wa_lineages_bytes :: string

definition wa_admission :: "world_admission \<Rightarrow> pyval result" where
  "wa_admission row = (case json_loads plain_hooks (wa_admission_bytes row) of
      Some (PDict d) \<Rightarrow> Inr (PDict d)
    | Some _ \<Rightarrow> Inl (Assertion_Error ''PMW admission is not an object'')
    | None \<Rightarrow> Inl (Value_Error ''PMW admission''))"

definition wa_lineages :: "world_admission \<Rightarrow> pyval result" where
  "wa_lineages row = (case json_loads plain_hooks (wa_lineages_bytes row) of
      Some (PList vs) \<Rightarrow> Inr (PList vs)
    | Some _ \<Rightarrow> Inl (Assertion_Error ''PMW lineages are not a list'')
    | None \<Rightarrow> Inl (Value_Error ''PMW lineages''))"

definition wa_content :: "world_admission \<Rightarrow> pyval" where
  "wa_content row = decode_json_or_text (wa_content_bytes row)"

definition wa_schema :: "world_admission \<Rightarrow> string option" where
  "wa_schema row = (case wa_content row of
      PDict d \<Rightarrow> (case dget ''schema'' d of PStr s \<Rightarrow> Some s | _ \<Rightarrow> None)
    | _ \<Rightarrow> None)"

definition admission_to_value :: "world_admission \<Rightarrow> pyval result" where
  "admission_to_value row =
     rbind (wa_admission row) (\<lambda>admission.
     rbind (wa_lineages row) (\<lambda>lineages.
       Inr (PDict [(''admission'', admission), (''content'', wa_content row), (''lineages'', lineages)])))"

abbreviation view_error :: "string \<Rightarrow> exn" where
  "view_error \<equiv> world_error ''PMW_DERIVED_VIEW_INVALID''"

definition decode_row :: "pyval \<Rightarrow> world_admission result" where
  "decode_row row = (case row of
      PDict d \<Rightarrow>
        if set (keys d) \<noteq> {''admission'', ''content_b64'', ''lineages''} then Inl (view_error ''row'')
        else (case (dget ''admission'' d, dget ''content_b64'' d, dget ''lineages'' d) of
            (PDict admission, PStr encoded, PList lineages) \<Rightarrow>
              rbind (check_admission ''admission_ref'' (dget ''admission_ref'' admission)) (\<lambda>admission_ref.
              case dget ''parent_refs'' admission of
                PList parent_values \<Rightarrow>
                  rbind (rmap (check_admission ''parent_ref'') parent_values) (\<lambda>parents.
                    if \<not> distinct parents then Inl (view_error ''duplicate parent'')
                    else (case b64decode encoded of
                        None \<Rightarrow> Inl (view_error ''content'')
                      | Some content \<Rightarrow>
                          rbind (canonical_json (PDict admission)) (\<lambda>admission_bytes.
                          rbind (canonical_json (PList lineages)) (\<lambda>lineages_bytes.
                            Inr \<lparr>wa_admission_ref = admission_ref, wa_parent_refs = parents,
                              wa_content_bytes = content, wa_admission_bytes = admission_bytes,
                              wa_lineages_bytes = lineages_bytes\<rparr>))))
              | _ \<Rightarrow> Inl (view_error ''parent_refs''))
          | _ \<Rightarrow> Inl (view_error ''fields''))
    | _ \<Rightarrow> Inl (view_error ''row''))"

section \<open>The broker and the world\<close>

text \<open>
  What the adapter calls of the core package. An \<open>AdmissionError\<close> is \<open>Inl\<close> with its \<open>code\<close> attribute,
  when it has one, as text; \<open>dispatch\<close> may raise anything. \<open>sha256\<close> is the hexadecimal digest.
\<close>

type_synonym 'a answer = "string option + 'a"

record tool_call =
  tl_channel_token :: string
  tl_channel_ref :: string
  tl_tool_call_id :: string
  tl_action :: string
  tl_arguments :: pyval

record 'b core =
  current_snapshot_ref :: "'b \<Rightarrow> pyval answer"
  derive_view_rows :: "'b \<Rightarrow> string \<Rightarrow> pyval list answer"
  sign_tool_envelope :: "tool_call \<Rightarrow> pyval"
  dispatch :: "pyval \<Rightarrow> 'b \<Rightarrow> pyval answer \<times> 'b"
  audit_git_world :: "'b \<Rightarrow> pyval answer"
  PMW_PROPOSE :: string
  core_sha256 :: "string \<Rightarrow> string"

record 'b research_world =
  rw_world_id :: "string option"
  rw_world_ref :: string
  rw_broker :: 'b
  rw_writer :: "writer_authority option"
  rw_channel_token :: "string option"
  rw_records_cache :: "(string \<times> world_admission list) list"

text \<open>A method may raise after it has changed the world, so it returns both.\<close>

type_synonym ('b, 'a) world_op = "'b research_world \<Rightarrow> 'a result \<times> 'b research_world"

definition op_return :: "'a result \<Rightarrow> ('b, 'a) world_op" where
  "op_return r w = (r, w)"

definition op_bind :: "('b, 'a) world_op \<Rightarrow> ('a \<Rightarrow> ('b, 'c) world_op) \<Rightarrow> ('b, 'c) world_op" where
  "op_bind m f w = (case m w of (Inl e, w') \<Rightarrow> (Inl e, w') | (Inr x, w') \<Rightarrow> f x w')"

definition code_or :: "string \<Rightarrow> string option \<Rightarrow> string" where
  "code_or fallback code = (case code of None \<Rightarrow> fallback | Some c \<Rightarrow> c)"

definition research_world_init ::
  "string option \<Rightarrow> string \<Rightarrow> 'b \<Rightarrow> writer_authority option \<Rightarrow> string \<Rightarrow> 'b research_world" where
  "research_world_init world_id world_ref broker writer token =
     \<lparr>rw_world_id = world_id, rw_world_ref = world_ref, rw_broker = broker, rw_writer = writer,
      rw_channel_token = (if writer = None then None else Some token), rw_records_cache = []\<rparr>"

definition writable :: "'b research_world \<Rightarrow> bool" where
  "writable w \<longleftrightarrow> rw_writer w \<noteq> None"

definition head :: "'b core \<Rightarrow> 'b research_world \<Rightarrow> string result" where
  "head core w = (case current_snapshot_ref core (rw_broker w) of
      Inl code \<Rightarrow> Inl (world_error ''PMW_WORLD_READ_FAILED'' (code_or ''UNKNOWN'' code))
    | Inr value \<Rightarrow> check_snapshot ''head'' value)"

definition MAXIMUM_CACHED_SNAPSHOTS :: nat where
  "MAXIMUM_CACHED_SNAPSHOTS = 8"

definition move_to_end :: "string \<Rightarrow> (string \<times> 'a) list \<Rightarrow> (string \<times> 'a) list" where
  "move_to_end k cache = filter (\<lambda>(x, _). x \<noteq> k) cache @ filter (\<lambda>(x, _). x = k) cache"

definition cache_put :: "string \<Rightarrow> 'a \<Rightarrow> (string \<times> 'a) list \<Rightarrow> (string \<times> 'a) list" where
  "cache_put k v cache =
     (let cache = move_to_end k (AList.update k v cache)
      in drop (length cache - MAXIMUM_CACHED_SNAPSHOTS) cache)"

definition fetch_rows :: "'b core \<Rightarrow> 'b \<Rightarrow> string \<Rightarrow> world_admission list result" where
  "fetch_rows core broker selected = (case derive_view_rows core broker selected of
      Inl code \<Rightarrow>
        if code_or ''UNKNOWN'' code = ''SNAPSHOT_UNAVAILABLE''
        then Inl (world_error ''SNAPSHOT_UNAVAILABLE'' [])
        else Inl (world_error ''PMW_WORLD_READ_FAILED'' (code_or ''UNKNOWN'' code))
    | Inr rows \<Rightarrow>
        rbind (rmap decode_row rows) (\<lambda>decoded.
          if \<not> distinct (map wa_admission_ref decoded) then Inl (view_error ''duplicate admission'')
          else Inr (sort_key wa_admission_ref decoded)))"

definition select_snapshot :: "'b core \<Rightarrow> string \<Rightarrow> pyval \<Rightarrow> 'b research_world \<Rightarrow> string result" where
  "select_snapshot core label snapshot_ref w =
     (if snapshot_ref = PNone then head core w else check_snapshot label snapshot_ref)"

definition cached_rows :: "'b core \<Rightarrow> string \<Rightarrow> ('b, world_admission list) world_op" where
  "cached_rows core selected w = (case map_of (rw_records_cache w) selected of
      Some rows \<Rightarrow> (Inr rows, w\<lparr>rw_records_cache := move_to_end selected (rw_records_cache w)\<rparr>)
    | None \<Rightarrow> (case fetch_rows core (rw_broker w) selected of
          Inl e \<Rightarrow> (Inl e, w)
        | Inr rows \<Rightarrow> (Inr rows, w\<lparr>rw_records_cache := cache_put selected rows (rw_records_cache w)\<rparr>)))"

definition world_records :: "'b core \<Rightarrow> pyval \<Rightarrow> ('b, world_admission list) world_op" where
  "world_records core snapshot_ref w =
     (case select_snapshot core ''snapshot_ref'' snapshot_ref w of
        Inl e \<Rightarrow> (Inl e, w)
      | Inr selected \<Rightarrow> cached_rows core selected w)"

definition world_get :: "'b core \<Rightarrow> pyval \<Rightarrow> pyval \<Rightarrow> ('b, world_admission) world_op" where
  "world_get core admission_ref snapshot_ref =
     op_bind (op_return (check_admission ''admission_ref'' admission_ref)) (\<lambda>selected_ref.
     op_bind (world_records core snapshot_ref) (\<lambda>rows.
       op_return (case find (\<lambda>row. wa_admission_ref row = selected_ref) rows of
           Some row \<Rightarrow> Inr row
         | None \<Rightarrow> Inl (world_error ''ADMISSION_UNAVAILABLE_AT_SNAPSHOT'' selected_ref))))"

definition refs_of :: "world_admission list \<Rightarrow> string set" where
  "refs_of rows = set (map wa_admission_ref rows)"

definition world_delta :: "'b core \<Rightarrow> pyval \<Rightarrow> pyval \<Rightarrow> ('b, world_admission list) world_op" where
  "world_delta core since_snapshot_ref snapshot_ref w =
     (case check_snapshot ''since_snapshot_ref'' since_snapshot_ref of
        Inl e \<Rightarrow> (Inl e, w)
      | Inr since \<Rightarrow> (case select_snapshot core ''snapshot_ref'' snapshot_ref w of
          Inl e \<Rightarrow> (Inl e, w)
        | Inr current_ref \<Rightarrow>
            op_bind (world_records core (PStr since)) (\<lambda>before.
            op_bind (world_records core (PStr current_ref)) (\<lambda>current_rows.
              op_return (if \<not> refs_of before \<subseteq> refs_of current_rows
                then Inl (world_error ''SNAPSHOT_NOT_ANCESTOR'' [])
                else Inr (filter (\<lambda>row. wa_admission_ref row \<notin> refs_of before) current_rows)))) w))"

section \<open>Opening and publishing\<close>

text \<open>What the file system answers about the repository path, before the broker is opened.\<close>

datatype repository = Repository_Unavailable | Repository_Unsafe | Repository_Directory

definition check_optional_world_id :: "pyval \<Rightarrow> string option result" where
  "check_optional_world_id world_id = (case world_id of
      PNone \<Rightarrow> Inr None
    | PStr s \<Rightarrow> if is_ID s then Inr (Some s) else Inl (world_error ''MALFORMED_WORLD_ID'' [])
    | _ \<Rightarrow> Inl (world_error ''MALFORMED_WORLD_ID'' []))"

definition world_open ::
  "'b core \<Rightarrow> repository \<Rightarrow> (string \<Rightarrow> 'b answer) \<Rightarrow> string \<Rightarrow> pyval \<Rightarrow> pyval \<Rightarrow> writer_authority option \<Rightarrow>
   pyval \<Rightarrow> 'b research_world result" where
  "world_open core repository open_broker token world_id world_ref writer required_snapshot_ref =
     (case repository of
        Repository_Unavailable \<Rightarrow> Inl (world_error ''WORLD_REPOSITORY_UNAVAILABLE'' [])
      | Repository_Unsafe \<Rightarrow> Inl (world_error ''WORLD_REPOSITORY_UNSAFE'' [])
      | Repository_Directory \<Rightarrow> (case world_ref of
          PStr ref \<Rightarrow>
            if \<not> world_ref_ok ref then Inl (world_error ''MALFORMED_WORLD_REF'' [])
            else rbind (check_optional_world_id world_id) (\<lambda>selected_id.
              case open_broker ref of
                Inl code \<Rightarrow> Inl (world_error ''PMW_WORLD_OPEN_FAILED'' (code_or ''PMW_WORLD_OPEN_FAILED'' code))
              | Inr broker \<Rightarrow>
                  let instance' = research_world_init selected_id ref broker writer token
                  in if required_snapshot_ref = PNone then Inr instance'
                     else rbind (check_snapshot ''required_snapshot_ref'' required_snapshot_ref) (\<lambda>required.
                       case world_records core (PStr required) instance' of
                         (Inl e, _) \<Rightarrow> Inl e
                       | (Inr _, opened) \<Rightarrow> Inr opened))
        | _ \<Rightarrow> Inl (world_error ''MALFORMED_WORLD_REF'' [])))"

record publish_result =
  pr_admission_ref :: string
  pr_base_snapshot_ref :: string
  pr_snapshot_ref :: string
  pr_receipt_ref :: string
  pr_content_sha256 :: string

definition publish_result_to_value :: "publish_result \<Rightarrow> pyval" where
  "publish_result_to_value r = PDict [
     (''admission_ref'', PStr (pr_admission_ref r)), (''base_snapshot_ref'', PStr (pr_base_snapshot_ref r)),
     (''snapshot_ref'', PStr (pr_snapshot_ref r)), (''receipt_ref'', PStr (pr_receipt_ref r)),
     (''content_sha256'', PStr (pr_content_sha256 r))]"

definition read_publish_response :: "pyval \<Rightarrow> string \<Rightarrow> publish_result result" where
  "read_publish_response response digest =
     (let rejected = (\<lambda>code. Inl (world_error ''PMW_PUBLISH_REJECTED'' code));
          result = (case response of PDict r \<Rightarrow> dget ''result'' r | _ \<Rightarrow> PNone)
      in case result of
           PDict d \<Rightarrow> (case dget ''admission'' d of
               PDict admitted \<Rightarrow>
                 if dget ''status'' d \<noteq> PStr ''ACCEPTED'' then rejected (py_str (dget ''code'' d))
                 else
                   rbind (check_admission ''published admission_ref'' (dget ''admission_ref'' admitted)) (\<lambda>admission_ref.
                   rbind (check_snapshot ''publish base_snapshot_ref'' (dget ''base_snapshot_ref'' d)) (\<lambda>base.
                   rbind (check_snapshot ''publish snapshot_ref'' (dget ''snapshot_ref'' d)) (\<lambda>resulting.
                     case dget ''receipt_ref'' d of
                       PStr receipt \<Rightarrow>
                         if is_RECEIPT_REF receipt
                         then Inr \<lparr>pr_admission_ref = admission_ref, pr_base_snapshot_ref = base,
                           pr_snapshot_ref = resulting, pr_receipt_ref = receipt, pr_content_sha256 = digest\<rparr>
                         else Inl (world_error ''PMW_PUBLISH_RESPONSE_INVALID'' ''receipt_ref'')
                     | _ \<Rightarrow> Inl (world_error ''PMW_PUBLISH_RESPONSE_INVALID'' ''receipt_ref''))))
             | _ \<Rightarrow> rejected (py_str (dget ''code'' d)))
         | _ \<Rightarrow> rejected ''INVALID_RESPONSE'')"

definition publish_call :: "'b core \<Rightarrow> writer_authority \<Rightarrow> string \<Rightarrow> research_record \<Rightarrow> string \<Rightarrow> tool_call" where
  "publish_call core writer token record' raw =
     \<lparr>tl_channel_token = token, tl_channel_ref = wr_channel_ref writer,
      tl_tool_call_id = ''research-publish-sha256-'' @ core_sha256 core raw, tl_action = PMW_PROPOSE core,
      tl_arguments = PDict [(''content'', PStr raw), (''parent_refs'', texts (re_parent_refs record'))]\<rparr>"

definition publish_dispatch ::
  "'b core \<Rightarrow> writer_authority \<Rightarrow> string \<Rightarrow> research_record \<Rightarrow> string \<Rightarrow> ('b, publish_result) world_op" where
  "publish_dispatch core writer token record' raw w =
     (case dispatch core (sign_tool_envelope core (publish_call core writer token record' raw)) (rw_broker w) of
        (answer, broker) \<Rightarrow>
          ((case answer of
              Inl code \<Rightarrow> Inl (world_error ''PMW_PUBLISH_FAILED'' (code_or ''PMW_PUBLISH_FAILED'' code))
            | Inr response \<Rightarrow> read_publish_response response (core_sha256 core raw)),
           w\<lparr>rw_broker := broker\<rparr>))"

definition publish_record :: "'b core \<Rightarrow> research_record \<Rightarrow> ('b, publish_result) world_op" where
  "publish_record core record' w = (case (rw_writer w, rw_channel_token w) of
      (Some writer, Some token) \<Rightarrow> (case head core w of
          Inl e \<Rightarrow> (Inl e, w)
        | Inr current_snapshot \<Rightarrow>
            op_bind (world_records core (PStr current_snapshot)) (\<lambda>current_rows.
            op_bind (world_records core (PStr (re_base_snapshot_ref record'))) (\<lambda>base_rows.
              let missing = filter (\<lambda>r. r \<notin> refs_of current_rows) (sort (re_parent_refs record'))
              in if \<not> refs_of base_rows \<subseteq> refs_of current_rows
                 then op_return (Inl (world_error ''SNAPSHOT_NOT_ANCESTOR'' []))
                 else if missing \<noteq> [] then op_return (Inl (world_error ''PARENT_UNAVAILABLE'' (hd missing)))
                 else op_bind (op_return (record_to_bytes record')) (\<lambda>raw.
                   if wr_maximum_content_bytes writer < int (length raw)
                   then op_return (Inl (world_error ''RECORD_SIZE_INVALID'' []))
                   else publish_dispatch core writer token record' raw))) w)
    | _ \<Rightarrow> (Inl (world_error ''WORLD_READ_ONLY'' []), w))"

record bound_session =
  bs_spec :: session_spec
  bs_artifact_exists :: "(string \<Rightarrow> bool) option"

definition bind_session ::
  "'b core \<Rightarrow> session_spec \<Rightarrow> (string \<Rightarrow> bool) option \<Rightarrow> ('b, bound_session) world_op" where
  "bind_session core spec artifact_exists w = (case rw_world_id w of
      None \<Rightarrow> (Inl (world_error ''WORLD_ID_UNBOUND'' []), w)
    | Some world_id \<Rightarrow>
        if li_world_id spec \<noteq> world_id \<or> li_world_ref spec \<noteq> rw_world_ref w
        then (Inl (world_error ''SESSION_WORLD_MISMATCH'' []), w)
        else op_bind (world_records core (PStr (li_base_snapshot_ref spec))) (\<lambda>_.
          op_return (Inr \<lparr>bs_spec = spec, bs_artifact_exists = artifact_exists\<rparr>)) w)"

definition check_artifacts :: "(string \<Rightarrow> bool) option \<Rightarrow> string list \<Rightarrow> unit result" where
  "check_artifacts artifact_exists refs =
     (if refs = [] then Inr ()
      else (case artifact_exists of
          None \<Rightarrow> Inl (world_error ''ARTIFACT_STORE_UNAVAILABLE'' [])
        | Some available \<Rightarrow> (case find (\<lambda>ref. \<not> available ref) refs of
              None \<Rightarrow> Inr ()
            | Some ref \<Rightarrow> Inl (world_error ''ARTIFACT_UNAVAILABLE'' ref))))"

definition session_publish ::
  "'b core \<Rightarrow> bound_session \<Rightarrow> candidate \<Rightarrow> ('b, publish_result) world_op" where
  "session_publish core session candidate = (case candidate of
      Contribution c \<Rightarrow>
        op_bind (op_return (check_artifacts (bs_artifact_exists session) (co_artifact_refs c))) (\<lambda>_.
        op_bind (op_return (bind_record c (bs_spec session))) (\<lambda>record'. publish_record core record'))
    | _ \<Rightarrow> op_return (Inl (world_error ''MALFORMED_RESEARCH_CONTRIBUTION'' [])))"

definition world_audit :: "'b core \<Rightarrow> 'b research_world \<Rightarrow> pyval result" where
  "world_audit core w = (case audit_git_world core (rw_broker w) of
      Inl code \<Rightarrow> Inl (world_error ''PMW_WORLD_AUDIT_FAILED'' (code_or ''UNKNOWN'' code))
    | Inr value \<Rightarrow> (case value of
          PDict d \<Rightarrow>
            if dget ''valid'' d \<noteq> PBool True then Inl (world_error ''PMW_WORLD_AUDIT_FAILED'' [])
            else rbind (canonical_json value) (\<lambda>raw. case json_loads plain_hooks raw of
                Some (PDict cloned) \<Rightarrow> Inr (PDict cloned)
              | Some _ \<Rightarrow> Inl (Assertion_Error ''PMW audit is not an object'')
              | None \<Rightarrow> Inl (Value_Error ''PMW audit''))
        | _ \<Rightarrow> Inl (world_error ''PMW_WORLD_AUDIT_FAILED'' [])))"

text \<open>\<open>AgendaSnapshot.from_world\<close>\<close>

definition from_world ::
  "'b core \<Rightarrow> pyval \<Rightarrow> pyval \<Rightarrow> (pyval \<times> pyval) list option \<Rightarrow> ('b, agenda_snapshot) world_op" where
  "from_world core snapshot_ref now_tick observed_at_ticks =
     op_bind (world_records core snapshot_ref) (\<lambda>rows.
       op_return (build (map (\<lambda>row. (PStr (wa_admission_ref row), wa_content row)) rows) now_tick observed_at_ticks))"

end
