(* ===== verification/World_Correct.thy ===== *)
theory World_Correct
  imports World_Store
begin

text \<open>
  The reads of a world: contents decode to trees with distinct keys, the cache of decoded snapshots is
  bounded and transparent. The locale \<open>bounded_cache\<close> states what the adapter needs of its cache; its
  interpretation is the least-recently-used one of the code. \<open>reads\<close> relates a method to the function
  of the broker that it computes.
\<close>

section \<open>Stored contents\<close>

lemma duplicate_rejecting_Some:
  "duplicate_rejecting_object acc d = Some d' \<Longrightarrow> distinct (keys acc) \<Longrightarrow>
   distinct (keys d') \<and> set d' = set acc \<union> set d"
  by (induction acc d rule: duplicate_rejecting_object.induct) (auto simp: keys_def split: if_splits)

lemma parse_float_tree: "parse_float finite_float s = Some (v, r) \<Longrightarrow> v = POther ''float''"
  by (auto simp: parse_float_def finite_float_def Let_def split: prod.splits if_splits)

lemma parse_number_tree: "parse_number content_hooks s = Some (v, r) \<Longrightarrow> json_tree v"
  by (auto simp: parse_number_def content_hooks_def short_int_def parse_int_def Let_def
      split: option.splits prod.splits if_splits dest!: parse_float_tree)

lemma parse_tree:
  "parse_value h n s = Some (v, r) \<Longrightarrow> h = content_hooks \<Longrightarrow> json_tree v"
  "parse_elements h n s = Some (vs, r) \<Longrightarrow> h = content_hooks \<Longrightarrow> \<forall>v \<in> set vs. json_tree v"
  "parse_members h n s = Some (d, r) \<Longrightarrow> h = content_hooks \<Longrightarrow> \<forall>p \<in> set d. json_tree (snd p)"
proof (induction h n s and h n s and h n s arbitrary: v r and vs r and d r
    rule: parse_value_parse_elements_parse_members.induct)
  case (2 h n s)
  have hook: "object_hook content_hooks d = Some d' \<Longrightarrow> \<forall>p \<in> set d. json_tree (snd p) \<Longrightarrow> json_tree (PDict d')" for d d'
    using duplicate_rejecting_Some [of "[]" d d'] by (simp add: content_hooks_def)
  show ?case
    using 2 by (auto split: list.splits if_splits option.splits simp del: json_tree.simps(2)
        dest: parse_number_tree intro!: hook) fastforce+
next
  case (4 h n s)
  then show ?case by (fastforce split: list.splits if_splits option.splits)
next
  case (6 h n s)
  then show ?case by (fastforce split: list.splits if_splits option.splits)
qed simp_all

lemma content_tree: "json_tree (decode_json_or_text raw)"
  by (auto simp: decode_json_or_text_def json_loads_def simp del: parse_value.simps
      split: option.splits if_splits dest: parse_tree(1))

interpretation content: json_decoder content_hooks "\<lambda>i. \<bar>i\<bar> < 10 ^ MAXIMUM_INT_DIGITS"
  by unfold_locales
    (simp_all add: content_hooks_def short_int_def duplicate_rejecting_distinct [of "[]", simplified])

section \<open>The cache\<close>

text \<open>
  What the adapter needs of a bounded cache: touching a key keeps every entry, putting one may drop
  others but adds only the new one, keys stay distinct, and no more than the limit remain.
\<close>

locale bounded_cache =
  fixes touch :: "'k \<Rightarrow> ('k \<times> 'v) list \<Rightarrow> ('k \<times> 'v) list"
    and put :: "'k \<Rightarrow> 'v \<Rightarrow> ('k \<times> 'v) list \<Rightarrow> ('k \<times> 'v) list"
    and limit :: nat
  assumes touch_set: "set (touch k c) = set c"
    and touch_length: "length (touch k c) = length c"
    and touch_distinct: "distinct (map fst (touch k c)) = distinct (map fst c)"
    and put_set: "set (put k v c) \<subseteq> insert (k, v) (set c)"
    and put_length: "length (put k v c) \<le> limit"
    and put_distinct: "distinct (map fst c) \<Longrightarrow> distinct (map fst (put k v c))"
    and put_newest: "distinct (map fst c) \<Longrightarrow> (k, v) \<in> set (put k v c)"
begin

definition cache_of :: "('k \<Rightarrow> 'v \<Rightarrow> bool) \<Rightarrow> ('k \<times> 'v) list \<Rightarrow> bool" where
  "cache_of holds c \<longleftrightarrow> distinct (map fst c) \<and> length c \<le> limit \<and> (\<forall>(k, v) \<in> set c. holds k v)"

lemma cache_of_touch: "cache_of holds c \<Longrightarrow> cache_of holds (touch k c)"
  by (simp add: cache_of_def touch_set touch_length touch_distinct)

lemma cache_of_put: "cache_of holds c \<Longrightarrow> holds k v \<Longrightarrow> cache_of holds (put k v c)"
  using put_set [of k v c] by (auto simp: cache_of_def put_length put_distinct)

lemma cache_of_mono: "cache_of holds c \<Longrightarrow> (\<And>k v. holds k v \<Longrightarrow> holds' k v) \<Longrightarrow> cache_of holds' c"
  by (auto simp: cache_of_def)

lemma cache_of_hit: "cache_of holds c \<Longrightarrow> map_of c k = Some v \<Longrightarrow> holds k v"
  by (auto simp: cache_of_def dest: map_of_SomeD)

lemma hit_after_put: "distinct (map fst c) \<Longrightarrow> map_of (put k v c) k = Some v"
  using put_newest [of c k v] put_distinct [of c k v] by simp

end

lemma move_to_end_set: "set (move_to_end k c) = set c"
  by (auto simp: move_to_end_def)

lemma move_to_end_mset: "mset (move_to_end k c) = mset c"
  unfolding move_to_end_def by (induction c) auto

lemma move_to_end_length: "length (move_to_end k c) = length c"
  by (metis move_to_end_mset size_mset)

lemma move_to_end_distinct: "distinct (map fst (move_to_end k c)) = distinct (map fst c)"
  by (rule mset_eq_imp_distinct_iff) (simp add: move_to_end_mset)

lemma cache_put_subset: "set (cache_put k v c) \<subseteq> insert (k, v) (set c)"
proof -
  have "set (cache_put k v c) \<subseteq> set (AList.update k v c)"
    by (auto simp: cache_put_def Let_def move_to_end_set dest: in_set_dropD)
  then show ?thesis using set_update_cases by fastforce
qed

lemma cache_put_distinct: "distinct (map fst c) \<Longrightarrow> distinct (map fst (cache_put k v c))"
proof -
  assume "distinct (map fst c)"
  then have "distinct (map fst (move_to_end k (AList.update k v c)))"
    by (simp add: move_to_end_distinct) (simp add: distinct_update)
  then show ?thesis by (simp add: cache_put_def Let_def flip: drop_map)
qed

lemma cache_put_newest:
  assumes "distinct (map fst c)" shows "(k, v) \<in> set (cache_put k v c)"
proof -
  let ?u = "AList.update k v c" and ?c = "move_to_end k (AList.update k v c)"
  have u: "(k, v) \<in> set ?u" by (induction c) auto
  then have "filter (\<lambda>(x, _). x = k) ?u \<noteq> []" by (auto simp: filter_empty_conv)
  then have "last ?c \<in> set (filter (\<lambda>(x, _). x = k) ?u)" "?c \<noteq> []"
    unfolding move_to_end_def by (simp_all add: last_in_set del: set_filter)
  then have "last ?c \<in> set ?u" "fst (last ?c) = k" by auto
  moreover have "distinct (map fst ?u)" using assms by (simp add: distinct_update)
  ultimately have "last ?c = (k, v)" using u by (metis eq_key_imp_eq_value prod.collapse)
  moreover have "last ?c \<in> set (drop (length ?c - MAXIMUM_CACHED_SNAPSHOTS) ?c)"
    using \<open>?c \<noteq> []\<close> by (metis MAXIMUM_CACHED_SNAPSHOTS_def diff_less drop_eq_Nil last_drop last_in_set
        length_greater_0_conv not_le zero_less_numeral)
  ultimately show ?thesis by (simp add: cache_put_def Let_def)
qed

interpretation records_cache: bounded_cache move_to_end cache_put MAXIMUM_CACHED_SNAPSHOTS
proof
  show "length (cache_put k v c) \<le> MAXIMUM_CACHED_SNAPSHOTS" for k v and c :: "(string \<times> 'a) list"
    by (simp add: cache_put_def Let_def)
qed (rule move_to_end_set move_to_end_length move_to_end_distinct cache_put_subset
    cache_put_distinct cache_put_newest; assumption?)+

section \<open>Reads\<close>

text \<open>The cache holds decoded snapshots of the broker as it is now.\<close>

definition coherent :: "'b core \<Rightarrow> 'b research_world \<Rightarrow> bool" where
  "coherent core w \<longleftrightarrow>
     records_cache.cache_of (\<lambda>s rows. fetch_rows core (rw_broker w) s = Inr rows) (rw_records_cache w)"

definition uncached :: "'b research_world \<Rightarrow> 'b research_world" where
  "uncached w = w\<lparr>rw_records_cache := []\<rparr>"

lemma uncached_simps [simp]:
  "uncached (w\<lparr>rw_records_cache := c\<rparr>) = uncached w" "uncached (uncached w) = uncached w"
  "rw_broker (uncached w) = rw_broker w" "rw_world_id (uncached w) = rw_world_id w"
  "rw_world_ref (uncached w) = rw_world_ref w" "rw_writer (uncached w) = rw_writer w"
  "rw_channel_token (uncached w) = rw_channel_token w" "coherent core (uncached w)"
  by (simp_all add: uncached_def coherent_def records_cache.cache_of_def)

lemma uncached_select [simp]: "select_snapshot core label ref (uncached w) = select_snapshot core label ref w"
  "head core (uncached w) = head core w"
  by (simp_all add: select_snapshot_def head_def)

text \<open>A method that reads answers a function of the world without its cache, and changes only the cache.\<close>

definition reads :: "'b core \<Rightarrow> ('b, 'a) world_op \<Rightarrow> ('b research_world \<Rightarrow> 'a result) \<Rightarrow> bool" where
  "reads core m f \<longleftrightarrow> (\<forall>w. coherent core w \<longrightarrow>
     (\<exists>c. m w = (f (uncached w), w\<lparr>rw_records_cache := c\<rparr>) \<and> coherent core (w\<lparr>rw_records_cache := c\<rparr>)))"

lemma readsD:
  assumes "reads core m f" "coherent core w"
  shows "fst (m w) = f (uncached w)" "uncached (snd (m w)) = uncached w" "coherent core (snd (m w))"
  using assms unfolding reads_def by (metis fst_conv snd_conv uncached_simps(1))+

lemma reads_return: "reads core (op_return r) (\<lambda>_. r)"
  unfolding reads_def op_return_def by (metis research_world.surjective research_world.update_convs(6))

lemma reads_fail: "reads core (\<lambda>w. (r (uncached w), w)) r"
  unfolding reads_def by (metis research_world.surjective research_world.update_convs(6))

lemma reads_bind:
  assumes "reads core m f" "\<And>x. reads core (g x) (h x)"
  shows "reads core (op_bind m g) (\<lambda>w. rbind (f w) (\<lambda>x. h x w))"
  unfolding reads_def
proof (intro allI impI)
  fix w assume "coherent core w"
  with assms(1) obtain c where m: "m w = (f (uncached w), w\<lparr>rw_records_cache := c\<rparr>)"
    "coherent core (w\<lparr>rw_records_cache := c\<rparr>)" unfolding reads_def by blast
  show "\<exists>c. op_bind m g w = (rbind (f (uncached w)) (\<lambda>x. h x (uncached w)), w\<lparr>rw_records_cache := c\<rparr>) \<and>
      coherent core (w\<lparr>rw_records_cache := c\<rparr>)"
  proof (cases "f (uncached w)")
    case (Inl e)
    with m show ?thesis by (auto simp: op_bind_def)
  next
    case (Inr x)
    let ?v = "w\<lparr>rw_records_cache := c\<rparr>"
    from assms(2) [of x, unfolded reads_def, rule_format, OF m(2)] obtain d where
      "g x ?v = (h x (uncached ?v), ?v\<lparr>rw_records_cache := d\<rparr>)" "coherent core (?v\<lparr>rw_records_cache := d\<rparr>)"
      by (elim exE conjE)
    with m(1) Inr show ?thesis by (auto simp: op_bind_def)
  qed
qed

lemma reads_cached: "reads core (cached_rows core selected) (\<lambda>w. fetch_rows core (rw_broker w) selected)"
  unfolding reads_def
proof (intro allI impI)
  fix w assume w: "coherent core w"
  note cache = w [unfolded coherent_def]
  show "\<exists>c. cached_rows core selected w = (fetch_rows core (rw_broker (uncached w)) selected, w\<lparr>rw_records_cache := c\<rparr>) \<and>
      coherent core (w\<lparr>rw_records_cache := c\<rparr>)"
  proof (cases "map_of (rw_records_cache w) selected")
    case (Some rows)
    then have "fetch_rows core (rw_broker w) selected = Inr rows"
      by (rule records_cache.cache_of_hit [OF cache])
    moreover have "coherent core (w\<lparr>rw_records_cache := move_to_end selected (rw_records_cache w)\<rparr>)"
      using records_cache.cache_of_touch [OF cache] by (simp add: coherent_def)
    ultimately show ?thesis using Some by (auto simp: cached_rows_def)
  next
    case None
    show ?thesis
    proof (cases "fetch_rows core (rw_broker w) selected")
      case (Inl e)
      with None w show ?thesis by (auto simp: cached_rows_def intro: exI [of _ "rw_records_cache w"])
    next
      case (Inr rows)
      then have "coherent core (w\<lparr>rw_records_cache := cache_put selected rows (rw_records_cache w)\<rparr>)"
        using records_cache.cache_of_put [OF cache] by (simp add: coherent_def)
      with None Inr show ?thesis by (auto simp: cached_rows_def)
    qed
  qed
qed

definition view_rows :: "'b core \<Rightarrow> pyval \<Rightarrow> 'b research_world \<Rightarrow> world_admission list result" where
  "view_rows core ref w = rbind (select_snapshot core ''snapshot_ref'' ref w) (fetch_rows core (rw_broker w))"

lemma op_return_bind: "op_bind (op_return r) g w = (case r of Inl e \<Rightarrow> (Inl e, w) | Inr x \<Rightarrow> g x w)"
  by (simp add: op_bind_def op_return_def split: sum.splits)

lemma reads_records: "reads core (world_records core ref) (view_rows core ref)"
  unfolding reads_def
proof (intro allI impI)
  fix w assume w: "coherent core w"
  show "\<exists>c. world_records core ref w = (view_rows core ref (uncached w), w\<lparr>rw_records_cache := c\<rparr>) \<and>
      coherent core (w\<lparr>rw_records_cache := c\<rparr>)"
  proof (cases "select_snapshot core ''snapshot_ref'' ref w")
    case (Inl e)
    with w show ?thesis
      by (auto simp: world_records_def view_rows_def intro: exI [of _ "rw_records_cache w"])
  next
    case (Inr selected)
    with w reads_cached [of core selected] show ?thesis
      by (auto simp: world_records_def view_rows_def reads_def)
  qed
qed

lemma reads_get: "reads core (world_get core ref snapshot)
   (\<lambda>w. rbind (check_admission ''admission_ref'' ref) (\<lambda>r.
      rbind (view_rows core snapshot w) (\<lambda>rows.
        case find (\<lambda>row. wa_admission_ref row = r) rows of
          Some row \<Rightarrow> Inr row | None \<Rightarrow> Inl (world_error ''ADMISSION_UNAVAILABLE_AT_SNAPSHOT'' r))))"
  unfolding world_get_def by (intro reads_bind reads_return reads_records)

definition view_delta :: "'b core \<Rightarrow> pyval \<Rightarrow> pyval \<Rightarrow> 'b research_world \<Rightarrow> world_admission list result" where
  "view_delta core since ref w =
     rbind (check_snapshot ''since_snapshot_ref'' since) (\<lambda>since.
     rbind (select_snapshot core ''snapshot_ref'' ref w) (\<lambda>current.
     rbind (fetch_rows core (rw_broker w) since) (\<lambda>before.
     rbind (fetch_rows core (rw_broker w) current) (\<lambda>rows.
       if \<not> refs_of before \<subseteq> refs_of rows then Inl (world_error ''SNAPSHOT_NOT_ANCESTOR'' [])
       else Inr (filter (\<lambda>row. wa_admission_ref row \<notin> refs_of before) rows)))))"

lemma select_snapshot_PStr: "is_SNAPSHOT_REF s \<Longrightarrow> select_snapshot core label (PStr s) w = Inr s"
  by (simp add: select_snapshot_def check_snapshot_def)

lemma check_snapshot_Inr: "check_snapshot label v = Inr s \<longleftrightarrow> v = PStr s \<and> is_SNAPSHOT_REF s"
  by (auto simp: check_snapshot_def split: pyval.splits)

lemma select_snapshot_ok: "select_snapshot core label ref w = Inr s \<Longrightarrow> is_SNAPSHOT_REF s"
  by (auto simp: select_snapshot_def head_def check_snapshot_Inr split: if_splits sum.splits)

lemma reads_snapshot: "is_SNAPSHOT_REF s \<Longrightarrow> reads core (world_records core (PStr s)) (\<lambda>w. fetch_rows core (rw_broker w) s)"
  using reads_records [of core "PStr s"]
  by (simp add: reads_def view_rows_def select_snapshot_PStr)

lemma reads_delta: "reads core (world_delta core since ref) (view_delta core since ref)"
  unfolding reads_def
proof (intro allI impI)
  fix w assume w: "coherent core w"
  let ?body = "\<lambda>s c. op_bind (world_records core (PStr s)) (\<lambda>before. op_bind (world_records core (PStr c)) (\<lambda>rows.
     op_return (if \<not> refs_of before \<subseteq> refs_of rows then Inl (world_error ''SNAPSHOT_NOT_ANCESTOR'' [])
       else Inr (filter (\<lambda>row. wa_admission_ref row \<notin> refs_of before) rows))))"
  have body: "reads core (?body s c) (\<lambda>w. rbind (fetch_rows core (rw_broker w) s) (\<lambda>before.
      rbind (fetch_rows core (rw_broker w) c) (\<lambda>rows.
        if \<not> refs_of before \<subseteq> refs_of rows then Inl (world_error ''SNAPSHOT_NOT_ANCESTOR'' [])
        else Inr (filter (\<lambda>row. wa_admission_ref row \<notin> refs_of before) rows))))"
    if "is_SNAPSHOT_REF s" "is_SNAPSHOT_REF c" for s c
    by (intro reads_bind reads_return reads_snapshot that)
  show "\<exists>c. world_delta core since ref w = (view_delta core since ref (uncached w), w\<lparr>rw_records_cache := c\<rparr>) \<and>
      coherent core (w\<lparr>rw_records_cache := c\<rparr>)"
  proof (cases "check_snapshot ''since_snapshot_ref'' since")
    case (Inl e)
    with w show ?thesis
      by (auto simp: world_delta_def view_delta_def intro: exI [of _ "rw_records_cache w"])
  next
    case s: (Inr s)
    show ?thesis
    proof (cases "select_snapshot core ''snapshot_ref'' ref w")
      case (Inl e)
      with s w show ?thesis
        by (auto simp: world_delta_def view_delta_def intro: exI [of _ "rw_records_cache w"])
    next
      case (Inr c)
      have "is_SNAPSHOT_REF s" using s by (simp add: check_snapshot_Inr)
      with body [OF this select_snapshot_ok [OF Inr]] w s Inr show ?thesis
        by (simp add: reads_def world_delta_def view_delta_def)
    qed
  qed
qed

lemma reads_bind_session: "reads core (bind_session core spec artifacts) (\<lambda>w. case rw_world_id w of
     None \<Rightarrow> Inl (world_error ''WORLD_ID_UNBOUND'' [])
   | Some world_id \<Rightarrow>
       if li_world_id spec \<noteq> world_id \<or> li_world_ref spec \<noteq> rw_world_ref w
       then Inl (world_error ''SESSION_WORLD_MISMATCH'' [])
       else rbind (view_rows core (PStr (li_base_snapshot_ref spec)) w) (\<lambda>_.
         Inr \<lparr>bs_spec = spec, bs_artifact_exists = artifacts\<rparr>))"
  unfolding reads_def
proof (intro allI impI, goal_cases)
  case (1 w)
  have "reads core (op_bind (world_records core (PStr (li_base_snapshot_ref spec))) (\<lambda>_.
      op_return (Inr \<lparr>bs_spec = spec, bs_artifact_exists = artifacts\<rparr>)))
    (\<lambda>w. rbind (view_rows core (PStr (li_base_snapshot_ref spec)) w) (\<lambda>_.
         Inr \<lparr>bs_spec = spec, bs_artifact_exists = artifacts\<rparr>))"
    by (intro reads_bind reads_return reads_records)
  with 1 show ?case
    by (cases "rw_world_id w") (auto simp: bind_session_def reads_def intro: exI [of _ "rw_records_cache w"])
qed

lemma reads_from_world: "reads core (from_world core ref now ticks) (\<lambda>w. rbind (view_rows core ref w) (\<lambda>rows.
     build (map (\<lambda>row. (PStr (wa_admission_ref row), wa_content row)) rows) now ticks))"
  unfolding from_world_def by (intro reads_bind reads_return reads_records)

end
