(* ===== verification/World_Publish.thy ===== *)
theory World_Publish
  imports World_Correct
begin

text \<open>
  Publishing: what is checked before the broker is asked (\<open>session_gate\<close>), the steps of an open world and
  the coherence of its cache in every reachable state, and the way back from a published record to the
  agenda entry that is read from its bytes. Base64 text of any bytes decodes.
\<close>

section \<open>Publishing\<close>

text \<open>Everything that is checked before the broker is asked to admit a record.\<close>

definition publish_gate ::
  "'b core \<Rightarrow> research_record \<Rightarrow> 'b research_world \<Rightarrow> (writer_authority \<times> string \<times> string) result" where
  "publish_gate core record' w = (case (rw_writer w, rw_channel_token w) of
      (Some writer, Some token) \<Rightarrow>
        rbind (head core w) (\<lambda>current.
        rbind (fetch_rows core (rw_broker w) current) (\<lambda>rows.
        rbind (view_rows core (PStr (re_base_snapshot_ref record')) w) (\<lambda>base.
          let missing = filter (\<lambda>r. r \<notin> refs_of rows) (sort (re_parent_refs record'))
          in if \<not> refs_of base \<subseteq> refs_of rows then Inl (world_error ''SNAPSHOT_NOT_ANCESTOR'' [])
             else if missing \<noteq> [] then Inl (world_error ''PARENT_UNAVAILABLE'' (hd missing))
             else rbind (record_to_bytes record') (\<lambda>raw.
               if wr_maximum_content_bytes writer < int (length raw)
               then Inl (world_error ''RECORD_SIZE_INVALID'' []) else Inr (writer, token, raw)))))
    | _ \<Rightarrow> Inl (world_error ''WORLD_READ_ONLY'' []))"

definition session_gate ::
  "'b core \<Rightarrow> bound_session \<Rightarrow> candidate \<Rightarrow> 'b research_world \<Rightarrow>
   (writer_authority \<times> string \<times> research_record \<times> string) result" where
  "session_gate core session candidate w = (case candidate of
      Contribution c \<Rightarrow>
        rbind (check_artifacts (bs_artifact_exists session) (co_artifact_refs c)) (\<lambda>_.
        rbind (bind_record c (bs_spec session)) (\<lambda>record'.
        rbind (publish_gate core record' w) (\<lambda>(writer, token, raw). Inr (writer, token, record', raw))))
    | _ \<Rightarrow> Inl (world_error ''MALFORMED_RESEARCH_CONTRIBUTION'' []))"

lemma view_rows_uncached [simp]: "view_rows core ref (uncached w) = view_rows core ref w"
  by (simp add: view_rows_def)

lemma publish_gate_uncached [simp]: "publish_gate core record' (uncached w) = publish_gate core record' w"
  by (simp add: publish_gate_def split: option.split)

lemma session_gate_uncached [simp]: "session_gate core session candidate (uncached w) = session_gate core session candidate w"
  by (cases candidate) (simp_all add: session_gate_def)

lemma op_bind_reads:
  assumes "reads core m f" "coherent core w"
  obtains c where "coherent core (w\<lparr>rw_records_cache := c\<rparr>)"
    "op_bind m g w = (case f (uncached w) of Inl e \<Rightarrow> (Inl e, w\<lparr>rw_records_cache := c\<rparr>)
       | Inr x \<Rightarrow> g x (w\<lparr>rw_records_cache := c\<rparr>))"
proof -
  from assms obtain c where c: "m w = (f (uncached w), w\<lparr>rw_records_cache := c\<rparr>)" "coherent core (w\<lparr>rw_records_cache := c\<rparr>)"
    unfolding reads_def by blast
  then show thesis using that [OF c(2)] by (simp add: op_bind_def split: sum.splits)
qed

lemma record_gate_run:
  assumes w: "coherent core w"
  obtains c where "coherent core (w\<lparr>rw_records_cache := c\<rparr>)"
    "publish_record core record' w = (case publish_gate core record' w of
       Inl e \<Rightarrow> (Inl e, w\<lparr>rw_records_cache := c\<rparr>)
     | Inr (writer, token, raw) \<Rightarrow> publish_dispatch core writer token record' raw (w\<lparr>rw_records_cache := c\<rparr>))"
proof (cases "rw_writer w = None \<or> rw_channel_token w = None \<or> (\<exists>e. head core w = Inl e)")
  case True
  then have "publish_record core record' w = (case publish_gate core record' w of
       Inl e \<Rightarrow> (Inl e, w\<lparr>rw_records_cache := rw_records_cache w\<rparr>)
     | Inr (writer, token, raw) \<Rightarrow> publish_dispatch core writer token record' raw w)"
    by (auto simp: publish_record_def publish_gate_def split: option.splits sum.splits)
  with w that [of "rw_records_cache w"] show thesis by (simp split: sum.splits prod.splits)
next
  case False
  then obtain writer token current where g: "rw_writer w = Some writer" "rw_channel_token w = Some token"
    "head core w = Inr current" by (cases "head core w") auto
  then have current: "is_SNAPSHOT_REF current"
    by (auto simp: head_def check_snapshot_Inr split: sum.splits)
  let ?last = "\<lambda>rows base. let missing = filter (\<lambda>r. r \<notin> refs_of rows) (sort (re_parent_refs record'))
      in if \<not> refs_of base \<subseteq> refs_of rows then op_return (Inl (world_error ''SNAPSHOT_NOT_ANCESTOR'' []))
         else if missing \<noteq> [] then op_return (Inl (world_error ''PARENT_UNAVAILABLE'' (hd missing)))
         else op_bind (op_return (record_to_bytes record')) (\<lambda>raw.
           if wr_maximum_content_bytes writer < int (length raw)
           then op_return (Inl (world_error ''RECORD_SIZE_INVALID'' []))
           else publish_dispatch core writer token record' raw)"
  let ?base = "PStr (re_base_snapshot_ref record')"
  let ?rows = "fetch_rows core (rw_broker w) current"
  obtain c where c: "coherent core (w\<lparr>rw_records_cache := c\<rparr>)"
    "op_bind (world_records core (PStr current)) (\<lambda>rows. op_bind (world_records core ?base) (?last rows)) w =
     (case ?rows of Inl e \<Rightarrow> (Inl e, w\<lparr>rw_records_cache := c\<rparr>)
      | Inr rows \<Rightarrow> op_bind (world_records core ?base) (?last rows) (w\<lparr>rw_records_cache := c\<rparr>))"
    by (rule op_bind_reads [OF reads_snapshot [OF current] w]) simp
  have run: "publish_record core record' w =
    op_bind (world_records core (PStr current)) (\<lambda>rows. op_bind (world_records core ?base) (?last rows)) w"
    using g by (simp add: publish_record_def)
  show thesis
  proof (cases ?rows)
    case (Inl e)
    with g c run that [OF c(1)] show thesis by (simp add: publish_gate_def)
  next
    case (Inr rows)
    let ?v = "w\<lparr>rw_records_cache := c\<rparr>"
    obtain d where "coherent core (?v\<lparr>rw_records_cache := d\<rparr>)"
      "op_bind (world_records core ?base) (?last rows) ?v =
       (case view_rows core ?base (uncached ?v) of Inl e \<Rightarrow> (Inl e, ?v\<lparr>rw_records_cache := d\<rparr>)
        | Inr base \<Rightarrow> ?last rows base (?v\<lparr>rw_records_cache := d\<rparr>))"
      by (rule op_bind_reads [OF reads_records c(1)])
    with run c(2) g Inr that [of d] show thesis
      by (simp add: publish_gate_def op_return_def op_return_bind Let_def rbind_def split: sum.splits)
  qed
qed

lemma session_publish_run:
  assumes w: "coherent core w"
  obtains c where "coherent core (w\<lparr>rw_records_cache := c\<rparr>)"
    "session_publish core session candidate w = (case session_gate core session candidate w of
       Inl e \<Rightarrow> (Inl e, w\<lparr>rw_records_cache := c\<rparr>)
     | Inr (writer, token, record', raw) \<Rightarrow>
         publish_dispatch core writer token record' raw (w\<lparr>rw_records_cache := c\<rparr>))"
proof (cases "\<exists>c record'. candidate = Contribution c \<and>
    check_artifacts (bs_artifact_exists session) (co_artifact_refs c) = Inr () \<and>
    bind_record c (bs_spec session) = Inr record'")
  case True
  then obtain x record' where x: "candidate = Contribution x"
    "check_artifacts (bs_artifact_exists session) (co_artifact_refs x) = Inr ()"
    "bind_record x (bs_spec session) = Inr record'" by blast
  obtain c where c: "coherent core (w\<lparr>rw_records_cache := c\<rparr>)"
    "publish_record core record' w = (case publish_gate core record' w of
       Inl e \<Rightarrow> (Inl e, w\<lparr>rw_records_cache := c\<rparr>)
     | Inr (writer, token, raw) \<Rightarrow> publish_dispatch core writer token record' raw (w\<lparr>rw_records_cache := c\<rparr>))"
    by (rule record_gate_run [OF w])
  with x that [OF c(1)] show thesis
    by (simp add: session_publish_def session_gate_def op_return_bind rbind_def split: sum.splits prod.splits)
next
  case False
  then have "session_publish core session candidate w = (case session_gate core session candidate w of
       Inl e \<Rightarrow> (Inl e, w) | Inr (writer, token, record', raw) \<Rightarrow> publish_dispatch core writer token record' raw w)"
    by (auto simp: session_publish_def session_gate_def op_return_bind op_return_def rbind_def
        split: candidate.splits sum.splits)
  with w that [of "rw_records_cache w"] show thesis by (simp split: sum.splits prod.splits)
qed

text \<open>What the gate demands.\<close>

lemma rbind_if_Inr: "(if b then Inl e else m) = Inr x \<longleftrightarrow> \<not> b \<and> m = Inr x"
  by simp

lemma session_gate_Inr:
  "session_gate core session candidate w = Inr (writer, token, record', raw) \<longleftrightarrow>
   (\<exists>c current rows base. candidate = Contribution c \<and>
      check_artifacts (bs_artifact_exists session) (co_artifact_refs c) = Inr () \<and>
      bind_record c (bs_spec session) = Inr record' \<and>
      rw_writer w = Some writer \<and> rw_channel_token w = Some token \<and>
      head core w = Inr current \<and> fetch_rows core (rw_broker w) current = Inr rows \<and>
      view_rows core (PStr (re_base_snapshot_ref record')) w = Inr base \<and> refs_of base \<subseteq> refs_of rows \<and>
      set (re_parent_refs record') \<subseteq> refs_of rows \<and> record_to_bytes record' = Inr raw \<and>
      int (length raw) \<le> wr_maximum_content_bytes writer)"
proof -
  have miss: "filter (\<lambda>r. r \<notin> refs_of rows) (sort (re_parent_refs record')) = [] \<longleftrightarrow>
      set (re_parent_refs record') \<subseteq> refs_of rows" for rows
    by (auto simp: filter_empty_conv)
  have "publish_gate core record' w = Inr (writer, token, raw) \<longleftrightarrow>
     (\<exists>current rows base. rw_writer w = Some writer \<and> rw_channel_token w = Some token \<and>
      head core w = Inr current \<and> fetch_rows core (rw_broker w) current = Inr rows \<and>
      view_rows core (PStr (re_base_snapshot_ref record')) w = Inr base \<and> refs_of base \<subseteq> refs_of rows \<and>
      set (re_parent_refs record') \<subseteq> refs_of rows \<and> record_to_bytes record' = Inr raw \<and>
      int (length raw) \<le> wr_maximum_content_bytes writer)"
    by (auto simp: publish_gate_def rbind_Inr_iff Let_def miss rbind_if_Inr not_less split: option.splits)
  then show ?thesis
    by (cases candidate) (auto simp: session_gate_def rbind_Inr_iff)
qed

lemma check_artifacts_Inr:
  "check_artifacts artifact_exists refs = Inr () \<longleftrightarrow>
   refs = [] \<or> (\<exists>available. artifact_exists = Some available \<and> (\<forall>r \<in> set refs. available r))"
  by (auto simp: check_artifacts_def find_None_iff split: option.splits dest!: find_SomeD)

section \<open>Every state of a world\<close>

text \<open>A snapshot, once readable, stays as it is: the broker names it by the digest of its content.\<close>

definition keeps_snapshots :: "'b core \<Rightarrow> 'b \<Rightarrow> 'b \<Rightarrow> bool" where
  "keeps_snapshots core b b' \<longleftrightarrow>
     (\<forall>s rows. derive_view_rows core b s = Inr rows \<longrightarrow> derive_view_rows core b' s = Inr rows)"

definition snapshots_immutable :: "'b core \<Rightarrow> bool" where
  "snapshots_immutable core \<longleftrightarrow> (\<forall>envelope b. keeps_snapshots core b (snd (dispatch core envelope b)))"

lemma fetch_rows_keeps:
  "keeps_snapshots core b b' \<Longrightarrow> fetch_rows core b s = Inr rows \<Longrightarrow> fetch_rows core b' s = Inr rows"
  by (auto simp: fetch_rows_def keeps_snapshots_def split: sum.splits if_splits)

lemma coherent_keeps:
  assumes "coherent core w" "keeps_snapshots core (rw_broker w) b"
  shows "coherent core (w\<lparr>rw_broker := b\<rparr>)"
  using records_cache.cache_of_mono [OF assms(1) [unfolded coherent_def] fetch_rows_keeps [OF assms(2)]]
  by (simp add: coherent_def)

text \<open>The steps of one open world: its reads, its publications, and other writers of the repository.\<close>

inductive world_step :: "'b core \<Rightarrow> 'b research_world \<Rightarrow> 'b research_world \<Rightarrow> bool" for core where
  read_records: "world_step core w (snd (world_records core ref w))"
| read_one: "world_step core w (snd (world_get core ref snapshot w))"
| read_delta: "world_step core w (snd (world_delta core since ref w))"
| read_agenda: "world_step core w (snd (from_world core ref now ticks w))"
| bound: "world_step core w (snd (bind_session core spec artifacts w))"
| published: "world_step core w (snd (session_publish core session candidate w))"
| other_writer: "keeps_snapshots core (rw_broker w) b \<Longrightarrow> world_step core w (w\<lparr>rw_broker := b\<rparr>)"

inductive world_reachable :: "'b core \<Rightarrow> 'b research_world \<Rightarrow> 'b research_world \<Rightarrow> bool" for core w where
  start: "world_reachable core w w"
| step: "world_reachable core w v \<Longrightarrow> world_step core v u \<Longrightarrow> world_reachable core w u"

lemma publish_dispatch_coherent:
  assumes "snapshots_immutable core" "coherent core w"
  shows "coherent core (snd (publish_dispatch core writer token record' raw w))"
proof -
  let ?e = "sign_tool_envelope core (publish_call core writer token record' raw)"
  have "coherent core (w\<lparr>rw_broker := snd (dispatch core ?e (rw_broker w))\<rparr>)"
    using assms by (intro coherent_keeps) (simp_all add: snapshots_immutable_def)
  then show ?thesis
    by (cases "dispatch core ?e (rw_broker w)") (simp add: publish_dispatch_def)
qed

lemma world_step_coherent:
  assumes "snapshots_immutable core" "world_step core w v" "coherent core w"
  shows "coherent core v"
  using assms(2,3)
proof (induction rule: world_step.induct)
  case (published w session candidate)
  then obtain c where "coherent core (w\<lparr>rw_records_cache := c\<rparr>)"
    "session_publish core session candidate w = (case session_gate core session candidate w of
       Inl e \<Rightarrow> (Inl e, w\<lparr>rw_records_cache := c\<rparr>)
     | Inr (writer, token, record', raw) \<Rightarrow>
         publish_dispatch core writer token record' raw (w\<lparr>rw_records_cache := c\<rparr>))"
    by (rule session_publish_run)
  with publish_dispatch_coherent [OF assms(1)] show ?case by (simp split: sum.splits prod.splits)
qed (erule coherent_keeps, assumption | erule readsD(3) [rotated], rule reads_records reads_get reads_delta
    reads_from_world reads_bind_session)+

lemma world_reachable_coherent:
  assumes "world_reachable core w v" "snapshots_immutable core" "coherent core w"
  shows "coherent core v"
  using assms by (induction rule: world_reachable.induct) (auto intro: world_step_coherent)

lemma world_open_coherent:
  assumes "world_open core repository open_broker token world_id world_ref writer required = Inr w"
  shows "coherent core w"
proof -
  have init: "coherent core (research_world_init i r b writer token)" for i r b
    using uncached_simps(8) [of core "research_world_init i r b writer token"]
    by (simp add: uncached_def research_world_init_def)
  have "coherent core (snd (world_records core ref v))" if "coherent core v" for ref v
    using reads_records that by (rule readsD(3))
  with init have opened: "world_records core ref (research_world_init i r b writer token) = (x, v) \<Longrightarrow> coherent core v"
    for ref i r b x v by (metis snd_conv)
  obtain ref where ref: "repository = Repository_Directory" "world_ref = PStr ref" "world_ref_ok ref"
    using assms by (cases repository; cases world_ref) (simp_all add: world_open_def split: if_splits)
  obtain i where i: "check_optional_world_id world_id = Inr i"
    using assms ref by (cases "check_optional_world_id world_id") (simp_all add: world_open_def)
  obtain b where b: "open_broker ref = Inr b"
    using assms ref i by (cases "open_broker ref") (simp_all add: world_open_def)
  let ?w = "research_world_init i ref b writer token"
  show ?thesis
  proof (cases "required = PNone")
    case True
    with assms ref i b init show ?thesis by (auto simp: world_open_def)
  next
    case False
    with assms ref i b obtain s where s: "check_snapshot ''required_snapshot_ref'' required = Inr s"
      by (cases "check_snapshot ''required_snapshot_ref'' required") (simp_all add: world_open_def)
    with False assms ref i b obtain x where "world_records core (PStr s) ?w = (x, w)"
      by (cases "world_records core (PStr s) ?w") (auto simp: world_open_def split: sum.splits)
    then show ?thesis by (rule opened)
  qed
qed

section \<open>Rows\<close>

lemma check_admission_Inr: "check_admission label v = Inr s \<longleftrightarrow> v = PStr s \<and> is_ADMISSION_REF s"
  by (auto simp: check_admission_def split: pyval.splits)

lemma not_ref_Nil: "\<not> is_ADMISSION_REF []"
  by code_simp

lemma decode_row_Inr:
  assumes "decode_row row = Inr a"
  obtains d admission encoded lineages parents where "row = PDict d" "dget ''admission'' d = PDict admission"
    "dget ''content_b64'' d = PStr encoded" "dget ''lineages'' d = PList lineages"
    "dget ''admission_ref'' admission = PStr (wa_admission_ref a)" "is_ADMISSION_REF (wa_admission_ref a)"
    "dget ''parent_refs'' admission = PList parents" "rmap (check_admission ''parent_ref'') parents = Inr (wa_parent_refs a)"
    "distinct (wa_parent_refs a)" "b64decode encoded = Some (wa_content_bytes a)"
proof -
  obtain d where d: "row = PDict d" using assms by (cases row) (simp_all add: decode_row_def)
  obtain admission where adm: "dget ''admission'' d = PDict admission"
    using assms d by (cases "dget ''admission'' d") (simp_all add: decode_row_def split: if_splits)
  obtain encoded where enc: "dget ''content_b64'' d = PStr encoded"
    using assms d adm by (cases "dget ''content_b64'' d") (simp_all add: decode_row_def split: if_splits)
  obtain lineages where lin: "dget ''lineages'' d = PList lineages"
    using assms d adm enc by (cases "dget ''lineages'' d") (simp_all add: decode_row_def split: if_splits)
  obtain ref where ref: "dget ''admission_ref'' admission = PStr ref" "is_ADMISSION_REF ref"
    using assms d adm enc lin
    by (cases "check_admission ''admission_ref'' (dget ''admission_ref'' admission)")
      (simp_all add: decode_row_def check_admission_Inr split: if_splits)
  then have check: "check_admission ''admission_ref'' (dget ''admission_ref'' admission) = Inr ref"
    by (simp add: check_admission_Inr)
  obtain parents where par: "dget ''parent_refs'' admission = PList parents"
    using assms d adm enc lin check
    by (cases "dget ''parent_refs'' admission") (simp_all add: decode_row_def split: if_splits)
  obtain ps where ps: "rmap (check_admission ''parent_ref'') parents = Inr ps" "distinct ps"
    using assms d adm enc lin check par
    by (cases "rmap (check_admission ''parent_ref'') parents") (simp_all add: decode_row_def split: if_splits)
  obtain content where content: "b64decode encoded = Some content"
    using assms d adm enc lin check par ps
    by (cases "b64decode encoded") (simp_all add: decode_row_def split: if_splits)
  obtain admission_bytes where ab: "canonical_json (PDict admission) = Inr admission_bytes"
    using assms d adm enc lin check par ps content
    by (cases "canonical_json (PDict admission)") (simp_all add: decode_row_def split: if_splits)
  obtain lineages_bytes where lb: "canonical_json (PList lineages) = Inr lineages_bytes"
    using assms d adm enc lin check par ps content ab
    by (cases "canonical_json (PList lineages)") (simp_all add: decode_row_def split: if_splits)
  have "a = \<lparr>wa_admission_ref = ref, wa_parent_refs = ps, wa_content_bytes = content,
      wa_admission_bytes = admission_bytes, wa_lineages_bytes = lineages_bytes\<rparr>"
    using assms unfolding decode_row_def d
    by (simp add: adm enc lin check par ps content ab lb split: if_splits)
  with d adm enc lin par ref ps content show thesis by (simp add: that)
qed

lemma decode_row_ref:
  "decode_row row = Inr a \<Longrightarrow> is_ADMISSION_REF (wa_admission_ref a) \<and> distinct (wa_parent_refs a)"
  by (erule decode_row_Inr) simp

lemma fetch_rows_ok:
  assumes "fetch_rows core b s = Inr rows"
  shows "sorted (map wa_admission_ref rows)" "distinct (map wa_admission_ref rows)"
    and "\<And>row. row \<in> set rows \<Longrightarrow> is_ADMISSION_REF (wa_admission_ref row)"
proof -
  from assms obtain raw decoded where d: "derive_view_rows core b s = Inr raw" "rmap decode_row raw = Inr decoded"
    "distinct (map wa_admission_ref decoded)" "rows = sort_key wa_admission_ref decoded"
    by (auto simp: fetch_rows_def rbind_Inr_iff split: sum.splits if_splits)
  then show "sorted (map wa_admission_ref rows)" "distinct (map wa_admission_ref rows)"
    by (simp_all add: distinct_map_sort_key)
  show "is_ADMISSION_REF (wa_admission_ref row)" if "row \<in> set rows" for row
    using that d(2,4) rmap_Inr_mem [OF d(2)] decode_row_ref by fastforce
qed

text \<open>Every readable snapshot has an agenda projection, whatever its contents are.\<close>

lemma agenda_total:
  assumes "fetch_rows core b s = Inr rows"
  shows "\<exists>snap. build (map (\<lambda>row. (PStr (wa_admission_ref row), wa_content row)) rows) PNone None = Inr snap"
proof -
  have "map (\<lambda>row. (PStr (wa_admission_ref row), wa_content row)) rows =
      zip (map PStr (map wa_admission_ref rows)) (map wa_content rows)"
    by (induction rows) simp_all
  moreover have "\<exists>snap. build (zip (map PStr (map wa_admission_ref rows)) (map wa_content rows)) PNone None = Inr snap"
  proof (rule build_total)
    show "distinct (map wa_admission_ref rows)" by (rule fetch_rows_ok(2) [OF assms])
    show "[] \<notin> set (map wa_admission_ref rows)"
      using fetch_rows_ok(3) [OF assms] not_ref_Nil by (metis image_iff list.set_map)
  qed (auto simp: wa_content_def content_tree)
  ultimately show ?thesis by simp
qed

section \<open>Reading back\<close>

text \<open>The bytes of a record are a content that decodes to a value of the record.\<close>

lemma json_wf_mono: "json_wf p v \<Longrightarrow> (\<And>i. p i \<Longrightarrow> q i) \<Longrightarrow> json_wf q v"
  by (induction v rule: json_tree.induct) (auto simp: json_wf_list_iff json_wf_items_iff)

lemma small_integer: "- MAXIMUM_INTEGER \<le> i \<and> i \<le> MAXIMUM_INTEGER \<Longrightarrow> \<bar>i\<bar> < 10 ^ MAXIMUM_INT_DIGITS"
proof -
  assume "- MAXIMUM_INTEGER \<le> i \<and> i \<le> MAXIMUM_INTEGER"
  then have "\<bar>i\<bar> < 10 ^ 19" by (simp add: MAXIMUM_INTEGER_def abs_less_iff)
  also have "\<dots> \<le> 10 ^ MAXIMUM_INT_DIGITS"
    by (rule power_increasing) (simp_all add: MAXIMUM_INT_DIGITS_def)
  finally show ?thesis .
qed

lemma record_content_decodes:
  assumes "record_ok r" "record_to_bytes r = Inr raw"
  shows "record_from_value (decode_json_or_text raw) = Inr r" "json_tree (decode_json_or_text raw)"
proof -
  obtain d where d: "canonical_json (PDict d) = Inr raw" "record_from_value (sort_json (PDict d)) = Inr r"
    "json_wf (\<lambda>i. - MAXIMUM_INTEGER \<le> i \<and> i \<le> MAXIMUM_INTEGER) (PDict d)"
    using record_bytes_value [OF assms(1)] assms(2) by (metis Inr_inject)
  have "json_wf (\<lambda>i. \<bar>i\<bar> < 10 ^ MAXIMUM_INT_DIGITS) (PDict d)"
    using d(3) small_integer by (rule json_wf_mono)
  moreover have "json_able (PDict d)" "raw = enc (sort_json (PDict d))"
    using d(1) by (simp_all add: canonical_json_Inr)
  ultimately have "json_loads content_hooks raw = Some (sort_json (PDict d))" "utf8_valid raw"
    by (simp_all add: content.loads_enc json_wf_sort_json utf8_valid_enc json_able_sort_json del: sort_json.simps)
  with d(2) show "record_from_value (decode_json_or_text raw) = Inr r"
    by (simp add: decode_json_or_text_def)
  show "json_tree (decode_json_or_text raw)" by (rule content_tree)
qed

lemma published_entry:
  assumes "fetch_rows core b s = Inr rows" "row \<in> set rows" "wa_content_bytes row = raw"
    and "record_ok r" "record_to_bytes r = Inr raw"
    and "build (map (\<lambda>row. (PStr (wa_admission_ref row), wa_content row)) rows) PNone None = Inr snap"
  shows "\<exists>e tick. snapshot_get snap (wa_admission_ref row) = Some e \<and> e =
    \<lparr>en_admission_ref = wa_admission_ref row, en_session_id = Some (re_session_id r), en_kind = Some (re_kind r),
     en_parent_refs = re_parent_refs r, en_problem_ids = re_problem_ids r,
     en_artifact_refs = re_artifact_refs r, en_observed_at_tick = tick, en_malformed = False,
     en_payload_bytes = Some (re_payload_bytes r)\<rparr>"
proof -
  note dec = record_content_decodes [OF assms(4,5)]
  have "(PStr (wa_admission_ref row), wa_content row) \<in> set (map (\<lambda>row. (PStr (wa_admission_ref row), wa_content row)) rows)"
    using assms(2) by force
  from build_contains [OF assms(6) this] obtain e tick where e: "snapshot_get snap (wa_admission_ref row) = Some e"
    "decode_entry (wa_admission_ref row) (wa_content row) tick = Inr e" by blast
  moreover have "wa_content row = decode_json_or_text raw" using assms(3) by (simp add: wa_content_def)
  ultimately show ?thesis
    using decode_entry_record [OF dec(1) record_from_value_wf [OF dec(2,1)]] by fastforce
qed

section \<open>Base64\<close>

definition b64_char :: "nat \<Rightarrow> char" where
  "b64_char n = (if n < 26 then char_of (n + 65) else if n < 52 then char_of (n + 71)
     else if n < 62 then char_of (n - 4) else if n = 62 then CHR ''+'' else CHR ''/'')"

fun b64encode :: "string \<Rightarrow> string" where
  "b64encode [] = []"
| "b64encode [a] = [b64_char (cc a div 4), b64_char (cc a mod 4 * 16), CHR ''='', CHR ''='']"
| "b64encode [a, b] = [b64_char (cc a div 4), b64_char (cc a mod 4 * 16 + cc b div 16), b64_char (cc b mod 16 * 4), CHR ''='']"
| "b64encode (a # b # c # s) = b64_char (cc a div 4) # b64_char (cc a mod 4 * 16 + cc b div 16) #
     b64_char (cc b mod 16 * 4 + cc c div 64) # b64_char (cc c mod 64) # b64encode s"

lemma b64_value_char: "n < 64 \<Longrightarrow> b64_value (b64_char n) = Some n \<and> b64_char n \<noteq> CHR ''=''"
proof -
  have "list_all (\<lambda>n. b64_value (b64_char n) = Some n \<and> b64_char n \<noteq> CHR ''='') [0..<64]" by code_simp
  moreover assume "n < 64"
  ultimately show ?thesis by (simp add: list_all_iff)
qed

lemma sextets:
  "cc a div 4 < 64" "cc a mod 4 * 16 < 64" "cc a mod 4 * 16 + cc b div 16 < 64" "cc b mod 16 * 4 < 64"
  "cc b mod 16 * 4 + cc c div 64 < 64" "cc c mod 64 < 64"
proof -
  have "cc a mod 4 < 4" "cc b mod 16 < 16" "cc b div 16 < 16" "cc c div 64 < 4" "cc a div 4 < 64" "cc c mod 64 < 64"
    using cc_less [of a] cc_less [of b] cc_less [of c] by (simp_all add: less_mult_imp_div_less)
  then show "cc a div 4 < 64" "cc a mod 4 * 16 < 64" "cc a mod 4 * 16 + cc b div 16 < 64" "cc b mod 16 * 4 < 64"
    "cc b mod 16 * 4 + cc c div 64 < 64" "cc c mod 64 < 64"
    by linarith+
qed

lemma bytes_again:
  "cc a div 4 * 4 + cc a mod 4 * 16 div 16 = cc a"
  "cc a div 4 * 4 + (cc a mod 4 * 16 + cc b div 16) div 16 = cc a"
  "(cc a mod 4 * 16 + cc b div 16) mod 16 * 16 + cc b mod 16 * 4 div 4 = cc b"
  "(cc a mod 4 * 16 + cc b div 16) mod 16 * 16 + (cc b mod 16 * 4 + cc c div 64) div 4 = cc b"
  "(cc b mod 16 * 4 + cc c div 64) mod 4 * 64 + cc c mod 64 = cc c"
proof -
  have "cc b div 16 < 16" "cc c div 64 < 4"
    using cc_less [of b] cc_less [of c] by (simp_all add: less_mult_imp_div_less)
  then show "cc a div 4 * 4 + cc a mod 4 * 16 div 16 = cc a"
    "cc a div 4 * 4 + (cc a mod 4 * 16 + cc b div 16) div 16 = cc a"
    "(cc a mod 4 * 16 + cc b div 16) mod 16 * 16 + cc b mod 16 * 4 div 4 = cc b"
    "(cc a mod 4 * 16 + cc b div 16) mod 16 * 16 + (cc b mod 16 * 4 + cc c div 64) div 4 = cc b"
    "(cc b mod 16 * 4 + cc c div 64) mod 4 * 64 + cc c mod 64 = cc c"
    by simp_all
qed

lemma a2b_encode: "a2b_base64 False 0 0 0 (b64encode s) = Some s"
proof (induction s rule: b64encode.induct)
  case (2 a)
  show ?case by (simp add: b64_value_char sextets bytes_again(1) del: div_mult_self1_is_m div_mult_self_is_m nonzero_mult_div_cancel_right)
next
  case (3 a b)
  show ?case by (simp only: b64encode.simps a2b_base64.simps b64_value_char [OF sextets(1)] b64_value_char [OF sextets(3)]
        b64_value_char [OF sextets(4)] bytes_again(2,3) option.case if_False if_True) (simp add: bytes_again)
next
  case (4 a b c s)
  then show ?case by (simp only: b64encode.simps a2b_base64.simps b64_value_char [OF sextets(1)] b64_value_char [OF sextets(3)]
        b64_value_char [OF sextets(5)] b64_value_char [OF sextets(6)] bytes_again option.case if_False if_True) (simp add: bytes_again)
qed simp

lemma b64decode_encode: "b64decode (b64encode s) = Some s"
proof -
  have "hd (b64encode s) \<noteq> CHR ''=''" if "s \<noteq> []"
    using that b64_value_char [OF sextets(1)] by (cases s rule: b64encode.cases) auto
  then show ?thesis by (cases "s = []") (simp_all add: b64decode_def a2b_encode)
qed

end
