(* ===== verification/World_Examples.thy ===== *)
theory World_Examples
  imports Arm_Examples World_Publish
begin

text \<open>
  A broker held in memory, on which the witnesses about the research world run.
\<close>

section \<open>A broker\<close>

text \<open>A broker in memory: the contents admitted so far, in order; a snapshot is a prefix of them.\<close>

definition sample_snapshot :: "nat \<Rightarrow> string" where
  "sample_snapshot n = ''snapshot/sha256/'' @ replicate 64 (hex_digit (n mod 16))"

definition sample_admission :: "nat \<Rightarrow> string" where
  "sample_admission n = ''admission/sha256/'' @ replicate 64 (hex_digit (n mod 16))"

definition sample_view_row :: "nat \<times> string \<Rightarrow> pyval" where
  "sample_view_row item = (case item of (n, content) \<Rightarrow> PDict
     [(''admission'', PDict [(''admission_ref'', PStr (sample_admission n)), (''parent_refs'', PList [])]),
      (''content_b64'', PStr (b64encode content)), (''lineages'', PList [])])"

definition sample_view :: "string list \<Rightarrow> string \<Rightarrow> pyval list answer" where
  "sample_view b s = (case find (\<lambda>k. sample_snapshot k = s) [0..<Suc (length b)] of
      None \<Rightarrow> Inl (Some ''SNAPSHOT_UNAVAILABLE'')
    | Some k \<Rightarrow> Inr (map sample_view_row (enumerate 0 (take k b))))"

definition sample_dispatch :: "pyval \<Rightarrow> string list \<Rightarrow> pyval answer \<times> string list" where
  "sample_dispatch envelope b = (case envelope of
      PDict d \<Rightarrow> (case dget ''content'' d of
          PStr content \<Rightarrow>
            (Inr (PDict [(''result'', PDict
               [(''status'', PStr ''ACCEPTED''),
                (''admission'', PDict [(''admission_ref'', PStr (sample_admission (length b)))]),
                (''base_snapshot_ref'', PStr (sample_snapshot (length b))),
                (''snapshot_ref'', PStr (sample_snapshot (Suc (length b)))),
                (''receipt_ref'', PStr (''receipt/sha256/'' @ replicate 64 (CHR ''0'')))])]), b @ [content])
        | _ \<Rightarrow> (Inl None, b))
    | _ \<Rightarrow> (Inl None, b))"

definition sample_core :: "string list core" where
  "sample_core = \<lparr>current_snapshot_ref = (\<lambda>b. Inr (PStr (sample_snapshot (length b)))),
     derive_view_rows = sample_view, sign_tool_envelope = tl_arguments, dispatch = sample_dispatch,
     audit_git_world = (\<lambda>b. Inl None), PMW_PROPOSE = ''pmw_propose'', core_sha256 = sample_sha256\<rparr>"

definition sample_writer :: writer_authority where
  "sample_writer = \<lparr>wr_channel_ref = ''c'', wr_invocation_ref = ''i'', wr_process_ref = ''p'',
     wr_principal_ref = ''q'', wr_episode_ref = ''e'', wr_capability_ref = ''k'', wr_scope_ref = ''s'',
     wr_policy_ref = ''r'', wr_policy_fingerprint = replicate 64 (CHR ''0''), wr_maximum_calls = 10,
     wr_maximum_delivery_attempts = 10, wr_maximum_content_bytes = 65536, wr_maximum_parent_refs = 16\<rparr>"

definition sample_world :: "string list research_world" where
  "sample_world = research_world_init (Some ''w'') ''refs/pmw/w'' [] (Some sample_writer) ''token''"

definition sample_session :: bound_session where
  "sample_session = \<lparr>bs_spec = sample_spec ''a'', bs_artifact_exists = None\<rparr>"

lemma sample_open: "world_open sample_core Repository_Directory (\<lambda>_. Inr []) ''token'' (PStr ''w'') (PStr ''refs/pmw/w'')
     (Some sample_writer) PNone = Inr sample_world"
  by code_simp

lemma find_append: "find P (xs @ ys) = (case find P xs of None \<Rightarrow> find P ys | Some x \<Rightarrow> Some x)"
  by (induction xs) auto

lemma sample_immutable: "snapshots_immutable sample_core"
proof -
  have view: "sample_view (b @ [x]) s = Inr rows" if v: "sample_view b s = Inr rows" for b x s rows
  proof -
    obtain k where k: "find (\<lambda>k. sample_snapshot k = s) [0..<Suc (length b)] = Some k"
      "rows = map sample_view_row (enumerate 0 (take k b))"
      using v by (auto simp: sample_view_def split: option.splits)
    have "find (\<lambda>k. sample_snapshot k = s) [0..<Suc (length (b @ [x]))] = Some k"
      using k(1) by (simp add: find_append del: upt_Suc add: upt_Suc_append [of 0 "Suc (length b)"])
    moreover have "k \<le> length b"
      using k(1) by (auto simp: find_Some_iff simp del: upt_Suc)
    ultimately show ?thesis using k(2) by (simp add: sample_view_def del: upt_Suc)
  qed
  then show ?thesis
    by (auto simp: snapshots_immutable_def keeps_snapshots_def sample_core_def sample_dispatch_def split: pyval.splits)
qed

lemma sample_publish:
  "case session_publish sample_core sample_session (Contribution sample_contribution) sample_world of
     (Inl _, _) \<Rightarrow> False
   | (Inr p, w') \<Rightarrow> pr_admission_ref p = sample_admission 0 \<and> pr_snapshot_ref p = sample_snapshot 1 \<and>
       (case record_to_bytes sample_record of Inl _ \<Rightarrow> False | Inr raw \<Rightarrow> rw_broker w' = [raw])"
  by code_simp

end
