(* ===== verification/World_Store_Properties.thy ===== *)
theory World_Store_Properties
  imports World_Examples
begin

text \<open>
  Properties of the research world client of \<^verbatim>\<open>world/store.py\<close>: the read cache
  is transparent, when a publication reaches the broker and with which bytes, and what was published is
  what the agenda projection reads back.
\<close>

lemma read_publish_response_Inr:
  assumes "read_publish_response response digest = Inr p"
  shows "is_ADMISSION_REF (pr_admission_ref p) \<and> is_SNAPSHOT_REF (pr_base_snapshot_ref p) \<and>
    is_SNAPSHOT_REF (pr_snapshot_ref p) \<and> is_RECEIPT_REF (pr_receipt_ref p) \<and> pr_content_sha256 p = digest"
proof -
  let ?result = "case response of PDict r \<Rightarrow> dget ''result'' r | _ \<Rightarrow> PNone"
  obtain d where d: "?result = PDict d" using assms by (cases ?result) (simp_all add: read_publish_response_def)
  obtain admitted where a: "dget ''admission'' d = PDict admitted"
    using assms d by (cases "dget ''admission'' d") (simp_all add: read_publish_response_def)
  obtain receipt where r: "dget ''receipt_ref'' d = PStr receipt"
    using assms d a by (cases "dget ''receipt_ref'' d") (auto simp: read_publish_response_def rbind_Inr_iff split: if_splits)
  show ?thesis
    using assms d a r
    by (auto simp: read_publish_response_def rbind_Inr_iff check_admission_Inr check_snapshot_Inr split: if_splits)
qed

lemma session_publish_refs:
  assumes "coherent core w" "session_publish core session (Contribution c) w = (Inr p, w')"
  shows "is_ADMISSION_REF (pr_admission_ref p) \<and> is_SNAPSHOT_REF (pr_snapshot_ref p)"
proof -
  obtain k where "session_publish core session (Contribution c) w = (case session_gate core session (Contribution c) w of
       Inl e \<Rightarrow> (Inl e, w\<lparr>rw_records_cache := k\<rparr>)
     | Inr (writer, token, record', raw) \<Rightarrow> publish_dispatch core writer token record' raw (w\<lparr>rw_records_cache := k\<rparr>))"
    by (rule session_publish_run [OF assms(1)])
  with assms(2) obtain response digest where "read_publish_response response digest = Inr p"
    by (auto simp: publish_dispatch_def split: sum.splits prod.splits)
  with read_publish_response_Inr show ?thesis by blast
qed

lemma sample_published:
  "\<exists>p w' raw. session_publish sample_core sample_session (Contribution sample_contribution) sample_world = (Inr p, w') \<and>
     pr_admission_ref p = sample_admission 0 \<and> pr_snapshot_ref p = sample_snapshot 1 \<and>
     record_to_bytes sample_record = Inr raw \<and> rw_broker w' = [raw]"
proof -
  obtain x w' where x: "session_publish sample_core sample_session (Contribution sample_contribution) sample_world = (x, w')"
    by (cases "session_publish sample_core sample_session (Contribution sample_contribution) sample_world")
  obtain p where p: "x = Inr p" using sample_publish x by (cases x) auto
  obtain raw where "record_to_bytes sample_record = Inr raw"
    using sample_publish x p by (cases "record_to_bytes sample_record") auto
  with sample_publish x p show ?thesis by auto
qed

section \<open>Reads\<close>

text \<open>C27: the cache is transparent and bounded: in every state of an open world, whatever was read, published
  or written by other writers before, reading a snapshot, one admission, a difference of snapshots or
  the agenda answers what the broker holds now, and at most eight snapshots are kept.\<close>

theorem cache_transparent:
  assumes "world_open core repository open_broker token world_id world_ref writer required = Inr w"
    and "snapshots_immutable core" "world_reachable core w v"
  shows "fst (world_records core ref v) = view_rows core ref v \<and>
    fst (world_delta core since ref v) = view_delta core since ref v \<and>
    fst (world_get core (PStr a) ref v) = fst (world_get core (PStr a) ref (uncached v)) \<and>
    fst (from_world core ref now ticks v) = fst (from_world core ref now ticks (uncached v)) \<and>
    length (rw_records_cache v) \<le> 8"
proof -
  have v: "coherent core v"
    using world_reachable_coherent [OF assms(3,2) world_open_coherent [OF assms(1)]] .
  have "length (rw_records_cache v) \<le> 8"
    using v unfolding coherent_def records_cache.cache_of_def by (simp add: MAXIMUM_CACHED_SNAPSHOTS_def)
  moreover have "view_delta core since ref (uncached v) = view_delta core since ref v" by (simp add: view_delta_def)
  ultimately show ?thesis
    using readsD(1) [OF reads_records v] readsD(1) [OF reads_delta v] readsD(1) [OF reads_get v]
      readsD(1) [OF reads_from_world v] readsD(1) [OF reads_get uncached_simps(8) [of core v]]
      readsD(1) [OF reads_from_world uncached_simps(8) [of core v]]
    by simp
qed

lemma cache_transparent_witness:
  "\<exists>v. world_step sample_core sample_world v \<and>
     fst (world_records sample_core PNone v) = view_rows sample_core PNone v \<and> length (rw_records_cache v) \<le> 8"
proof -
  have "world_step sample_core sample_world (snd (session_publish sample_core sample_session
      (Contribution sample_contribution) sample_world))" by (rule published)
  with cache_transparent [OF sample_open sample_immutable step [OF start this]] show ?thesis by blast
qed

section \<open>Publishing\<close>

definition publishable ::
  "'b core \<Rightarrow> bound_session \<Rightarrow> 'b research_world \<Rightarrow> research_contribution \<Rightarrow> writer_authority \<Rightarrow> string \<Rightarrow>
   research_record \<Rightarrow> string \<Rightarrow> bool" where
  "publishable core session w c writer token record' raw \<longleftrightarrow>
     rw_writer w = Some writer \<and> rw_channel_token w = Some token \<and>
     check_artifacts (bs_artifact_exists session) (co_artifact_refs c) = Inr () \<and>
     bind_record c (bs_spec session) = Inr record' \<and> record_to_bytes record' = Inr raw \<and>
     int (length raw) \<le> wr_maximum_content_bytes writer \<and>
     (\<exists>current rows base. head core w = Inr current \<and> fetch_rows core (rw_broker w) current = Inr rows \<and>
        view_rows core (PStr (re_base_snapshot_ref record')) w = Inr base \<and> refs_of base \<subseteq> refs_of rows \<and>
        set (re_parent_refs record') \<subseteq> refs_of rows)"

lemma session_gate_publishable:
  "session_gate core session (Contribution c) w = Inr (writer, token, record', raw) \<longleftrightarrow>
   publishable core session w c writer token record' raw"
  by (auto simp: session_gate_Inr publishable_def)

text \<open>C25: the broker is asked to admit a record exactly when the world is writable, the artifacts are in the
  store, the bound record fits the writer, every parent is in the current snapshot and the session's
  base snapshot is an ancestor of it; it is asked for the canonical bytes of the contribution bound to
  the session, under the digest of these bytes. Otherwise the call raises and the broker is untouched.\<close>

theorem publish_exactly:
  assumes "world_open core repository open_broker token world_id world_ref writer required = Inr w"
    and "snapshots_immutable core" "world_reachable core w v"
    and "session_publish core session (Contribution c) v = (r, v')"
  shows "(\<exists>wr tok record' raw. publishable core session v c wr tok record' raw \<and>
      (case dispatch core (sign_tool_envelope core (publish_call core wr tok record' raw)) (rw_broker v) of
         (answer, broker) \<Rightarrow> rw_broker v' = broker \<and>
           r = (case answer of Inr response \<Rightarrow> read_publish_response response (core_sha256 core raw)
                | Inl code \<Rightarrow> Inl (world_error ''PMW_PUBLISH_FAILED'' (code_or ''PMW_PUBLISH_FAILED'' code))))) \<or>
    (\<nexists>wr tok record' raw. publishable core session v c wr tok record' raw) \<and>
      uncached v' = uncached v \<and> (\<exists>e. r = Inl e)"
proof -
  have "coherent core v"
    using world_reachable_coherent [OF assms(3,2) world_open_coherent [OF assms(1)]] .
  then obtain k where k: "session_publish core session (Contribution c) v = (case session_gate core session (Contribution c) v of
       Inl e \<Rightarrow> (Inl e, v\<lparr>rw_records_cache := k\<rparr>)
     | Inr (writer, token, record', raw) \<Rightarrow> publish_dispatch core writer token record' raw (v\<lparr>rw_records_cache := k\<rparr>))"
    by (rule session_publish_run)
  show ?thesis
  proof (cases "session_gate core session (Contribution c) v")
    case (Inl e)
    then have "\<nexists>wr tok record' raw. publishable core session v c wr tok record' raw"
      by (simp flip: session_gate_publishable)
    with Inl k assms(4) show ?thesis by auto
  next
    case (Inr x)
    obtain wr tok record' raw where x: "x = (wr, tok, record', raw)" by (cases x)
    then have "publishable core session v c wr tok record' raw" using Inr session_gate_publishable by blast
    with Inr x k assms(4) show ?thesis
      by (intro disjI1 exI conjI) (assumption, auto simp: publish_dispatch_def split: prod.splits)
  qed
qed

lemma publish_exactly_witness:
  "\<exists>wr tok record' raw. publishable sample_core sample_session sample_world sample_contribution wr tok record' raw"
proof -
  obtain p w' where p: "session_publish sample_core sample_session (Contribution sample_contribution) sample_world = (Inr p, w')"
    using sample_published by blast
  from publish_exactly [OF sample_open sample_immutable start p] show ?thesis by auto
qed

text \<open>C26: what a session publishes is what the agenda reads: when the broker's new snapshot holds the bytes it
  was sent, the agenda projection of that snapshot exists and its entry for the admission carries the
  session id that the host bound, and the contribution's kind, references and payload.\<close>

theorem published_is_read_back:
  assumes "snapshots_immutable core" "coherent core w" "contribution_ok c" "spec_ok (bs_spec session)"
    and "session_publish core session (Contribution c) w = (Inr p, w')"
    and "fetch_rows core (rw_broker w') (pr_snapshot_ref p) = Inr rows" "row \<in> set rows"
    and "wa_admission_ref row = pr_admission_ref p"
    and "rbind (bind_record c (bs_spec session)) record_to_bytes = Inr (wa_content_bytes row)"
  shows "\<exists>snap e. fst (from_world core (PStr (pr_snapshot_ref p)) PNone None w') = Inr snap \<and>
    snapshot_get snap (pr_admission_ref p) = Some e \<and> en_session_id e = Some (ss_session_id (bs_spec session)) \<and>
    en_kind e = Some (co_kind c) \<and> en_parent_refs e = co_parent_refs c \<and> en_problem_ids e = co_problem_ids c \<and>
    en_artifact_refs e = co_artifact_refs c \<and> \<not> en_malformed e \<and> en_payload_bytes e = Some (co_payload_bytes c)"
proof -
  obtain r where r: "bind_record c (bs_spec session) = Inr r" "record_to_bytes r = Inr (wa_content_bytes row)"
    using assms(9) by (auto simp: rbind_Inr_iff)
  have coh: "coherent core w'"
    using world_step_coherent [OF assms(1) published [of core w session "Contribution c"] assms(2)] assms(5) by simp
  obtain snap where snap: "build (map (\<lambda>row. (PStr (wa_admission_ref row), wa_content row)) rows) PNone None = Inr snap"
    using agenda_total [OF assms(6)] by blast
  obtain e tick where e: "snapshot_get snap (wa_admission_ref row) = Some e" "e =
    \<lparr>en_admission_ref = wa_admission_ref row, en_session_id = Some (re_session_id r), en_kind = Some (re_kind r),
     en_parent_refs = re_parent_refs r, en_problem_ids = re_problem_ids r,
     en_artifact_refs = re_artifact_refs r, en_observed_at_tick = tick, en_malformed = False,
     en_payload_bytes = Some (re_payload_bytes r)\<rparr>"
    using published_entry [OF assms(6,7) refl bind_record_record_ok [OF assms(3) r(1)] r(2) snap] by blast
  have "is_SNAPSHOT_REF (pr_snapshot_ref p)"
    using session_publish_refs [OF assms(2,5)] by blast
  then have "fst (from_world core (PStr (pr_snapshot_ref p)) PNone None w') = Inr snap"
    using readsD(1) [OF reads_from_world coh] snap assms(6) by (simp add: view_rows_def select_snapshot_PStr)
  moreover have "record_content r = c" "bound_to (bs_spec session) r"
    using r(1) bind_record_Inr [OF assms(3,4)] by blast+
  ultimately show ?thesis
    using e assms(8) by (auto simp: record_content_def bound_to_def)
qed

lemma sample_stored:
  assumes "record_to_bytes sample_record = Inr raw"
  shows "\<exists>row. fetch_rows sample_core [raw] (sample_snapshot 1) = Inr [row] \<and>
    wa_admission_ref row = sample_admission 0 \<and> wa_content_bytes row = raw"
proof -
  have view: "sample_view [raw] (sample_snapshot 1) = Inr [sample_view_row (0, raw)]"
    by (simp add: sample_view_def sample_snapshot_def hex_digit_def)
  have ref: "is_ADMISSION_REF (sample_admission 0)" by code_simp
  have "case canonical_json (PDict [(''admission_ref'', PStr (sample_admission 0)), (''parent_refs'', PList [])]) of
      Inl _ \<Rightarrow> False | Inr _ \<Rightarrow> True"
    by code_simp
  then obtain x where x: "canonical_json (PDict [(''admission_ref'', PStr (sample_admission 0)), (''parent_refs'', PList [])]) = Inr x"
    by (auto split: sum.splits)
  have y: "canonical_json (PList []) = Inr ''[]''" by code_simp
  have keys: "set (keys [(''admission'', u), (''content_b64'', v), (''lineages'', l)]) = {''admission'', ''content_b64'', ''lineages''}"
    for u v l :: pyval by (simp add: keys_def)
  show ?thesis
    by (simp add: fetch_rows_def sample_core_def view [unfolded One_nat_def] decode_row_def sample_view_row_def b64decode_encode
      check_admission_def ref x y keys)
qed

lemma published_is_read_back_witness:
  "\<exists>p w' snap e. session_publish sample_core sample_session (Contribution sample_contribution) sample_world = (Inr p, w') \<and>
     fst (from_world sample_core (PStr (pr_snapshot_ref p)) PNone None w') = Inr snap \<and>
     snapshot_get snap (pr_admission_ref p) = Some e \<and> en_session_id e = Some ''a'' \<and> en_kind e = Some ''NOTE''"
proof -
  obtain p w' raw where p: "session_publish sample_core sample_session (Contribution sample_contribution) sample_world = (Inr p, w')"
    "pr_admission_ref p = sample_admission 0" "pr_snapshot_ref p = sample_snapshot 1"
    "record_to_bytes sample_record = Inr raw" "rw_broker w' = [raw]"
    using sample_published by blast
  obtain row where row: "fetch_rows sample_core (rw_broker w') (pr_snapshot_ref p) = Inr [row]"
    "wa_admission_ref row = pr_admission_ref p" "wa_content_bytes row = raw"
    using sample_stored [OF p(4)] p by auto
  have bind: "bind_record sample_contribution (bs_spec sample_session) = Inr sample_record"
    by code_simp
  have "coherent sample_core sample_world" by (rule world_open_coherent [OF sample_open])
  from published_is_read_back [OF sample_immutable this sample_contribution_ok _ p(1) row(1) _ row(2)] p(1) bind row p(4)
  show ?thesis using sample_spec_ok(1) by (auto simp: sample_session_def sample_spec_def sample_contribution_def)
qed

end
