(* ===== verification/Usage.thy ===== *)
theory Usage
  imports Json
begin

text \<open>
  Typed usage evidence of a session, \<open>runtime/usage.py\<close>: the records per request, the aggregate readings
  and the block of a receipt with its three states. The lemmas characterize the constructors exactly,
  so that reading a printed block gives it back, and that a number occurs only in a measured block.
\<close>

section \<open>Validators\<close>

definition USAGE_EVIDENCE_SCHEMA :: string where
  "USAGE_EVIDENCE_SCHEMA = ''PMW_RUNTIME_USAGE_EVIDENCE_1''"

definition BASIS_HOST_SUMMED_OBSERVED_RECORDS :: string where
  "BASIS_HOST_SUMMED_OBSERVED_RECORDS = ''HOST_SUMMED_OBSERVED_RECORDS''"

definition MAXIMUM_USAGE_REQUEST_RECORDS :: nat where
  "MAXIMUM_USAGE_REQUEST_RECORDS = 4096"

definition MAXIMUM_USAGE_TOTALS :: nat where
  "MAXIMUM_USAGE_TOTALS = 8"

definition MAXIMUM_USAGE_ASSERTION_ENTRIES :: nat where
  "MAXIMUM_USAGE_ASSERTION_ENTRIES = 16"

definition MAXIMUM_TOKEN_COUNT :: int where
  "MAXIMUM_TOKEN_COUNT = 2 ^ 53 - 1"

definition MAXIMUM_USAGE_DETAIL_BYTES :: nat where
  "MAXIMUM_USAGE_DETAIL_BYTES = 2048"

definition is_TOKEN_NAME :: "string \<Rightarrow> bool" where
  "is_TOKEN_NAME = matches_ident is_upper (\<lambda>c. is_upper c \<or> is_digit c \<or> c = CHR ''_'') 63"

definition is_ASSERTION_NAME :: "string \<Rightarrow> bool" where
  "is_ASSERTION_NAME = matches_ident is_lower (\<lambda>c. is_lower c \<or> is_digit c \<or> c = CHR ''_'') 63"

text \<open>The length of a text in code points.\<close>

definition cp_length :: "string \<Rightarrow> nat" where
  "cp_length s = length (filter (\<lambda>c. \<not> is_cont c) s)"

definition is_FREE_LABEL :: "string \<Rightarrow> bool" where
  "is_FREE_LABEL s \<longleftrightarrow> list_all (\<lambda>c. cc c \<noteq> 0 \<and> cc c \<noteq> 13 \<and> cc c \<noteq> 10) s \<and> 1 \<le> cp_length s \<and> cp_length s \<le> 512"

definition usage_error :: "string \<Rightarrow> exn" where
  "usage_error detail = Usage_Evidence_Error ''MALFORMED_USAGE_EVIDENCE'' detail"

definition uppercase_token :: "string \<Rightarrow> pyval \<Rightarrow> string result" where
  "uppercase_token label value = (case value of
      PStr s \<Rightarrow> if is_TOKEN_NAME s then Inr s else Inl (usage_error label)
    | _ \<Rightarrow> Inl (usage_error label))"

text \<open>A lone surrogate makes the strict encoder raise a \<open>UnicodeEncodeError\<close>, a \<open>ValueError\<close>.\<close>

definition usage_detail :: "pyval \<Rightarrow> string result" where
  "usage_detail value = (case value of
      PStr s \<Rightarrow>
        if \<not> utf8_valid s then Inl (Value_Error ''surrogates not allowed'')
        else if MAXIMUM_USAGE_DETAIL_BYTES < length s then Inl (usage_error ''detail'')
        else Inr s
    | _ \<Rightarrow> Inl (usage_error ''detail''))"

definition free_label :: "string \<Rightarrow> pyval \<Rightarrow> string result" where
  "free_label label value = (case value of
      PStr s \<Rightarrow> if is_FREE_LABEL s then Inr s else Inl (usage_error label)
    | _ \<Rightarrow> Inl (usage_error label))"

definition optional_label :: "string \<Rightarrow> pyval \<Rightarrow> string option result" where
  "optional_label label value =
     (if value = PNone then Inr None else rbind (free_label label value) (\<lambda>s. Inr (Some s)))"

definition count_ok :: "int \<Rightarrow> bool" where
  "count_ok n \<longleftrightarrow> 0 \<le> n \<and> n \<le> MAXIMUM_TOKEN_COUNT"

definition optional_count :: "string \<Rightarrow> pyval \<Rightarrow> int option result" where
  "optional_count label value = (case value of
      PNone \<Rightarrow> Inr None
    | PInt n \<Rightarrow> if count_ok n then Inr (Some n) else Inl (usage_error label)
    | _ \<Rightarrow> Inl (usage_error label))"

definition observed_count :: "pyval \<Rightarrow> int option" where
  "observed_count value = (case value of PInt n \<Rightarrow> if count_ok n then Some n else None | _ \<Rightarrow> None)"

section \<open>Requests and totals\<close>

text \<open>The six counts that a request record and an aggregate reading both have.\<close>

record token_counts =
  tk_input_tokens :: "int option"
  tk_cached_input_tokens :: "int option"
  tk_cache_write_tokens :: "int option"
  tk_output_tokens :: "int option"
  tk_reasoning_tokens :: "int option"
  tk_total_tokens :: "int option"

definition REQUEST_TOKEN_FIELDS :: "string list" where
  "REQUEST_TOKEN_FIELDS = [''input_tokens'', ''cached_input_tokens'', ''cache_write_tokens'', ''output_tokens'',
     ''reasoning_tokens'', ''total_tokens'']"

definition token_list :: "'a token_counts_scheme \<Rightarrow> (string \<times> int option) list" where
  "token_list t = [(''input_tokens'', tk_input_tokens t), (''cached_input_tokens'', tk_cached_input_tokens t),
     (''cache_write_tokens'', tk_cache_write_tokens t), (''output_tokens'', tk_output_tokens t),
     (''reasoning_tokens'', tk_reasoning_tokens t), (''total_tokens'', tk_total_tokens t)]"

definition token_kwargs :: "'a token_counts_scheme \<Rightarrow> (string \<times> pyval) list" where
  "token_kwargs t = map (\<lambda>(label, n). (label, opt_int n)) (token_list t)"

text \<open>\<open>getattr(record, label)\<close>\<close>

definition token_field :: "'a token_counts_scheme \<Rightarrow> string \<Rightarrow> int option" where
  "token_field t label = (case map_of (token_list t) label of Some n \<Rightarrow> n | None \<Rightarrow> None)"

definition check_counts :: "(string \<times> pyval) list \<Rightarrow> token_counts result" where
  "check_counts kw =
     rbind (optional_count ''input_tokens'' (dget ''input_tokens'' kw)) (\<lambda>input.
     rbind (optional_count ''cached_input_tokens'' (dget ''cached_input_tokens'' kw)) (\<lambda>cached.
     rbind (optional_count ''cache_write_tokens'' (dget ''cache_write_tokens'' kw)) (\<lambda>cache_write.
     rbind (optional_count ''output_tokens'' (dget ''output_tokens'' kw)) (\<lambda>output.
     rbind (optional_count ''reasoning_tokens'' (dget ''reasoning_tokens'' kw)) (\<lambda>reasoning.
     rbind (optional_count ''total_tokens'' (dget ''total_tokens'' kw)) (\<lambda>total.
       Inr \<lparr>tk_input_tokens = input, tk_cached_input_tokens = cached, tk_cache_write_tokens = cache_write,
            tk_output_tokens = output, tk_reasoning_tokens = reasoning, tk_total_tokens = total\<rparr>))))))"

definition reported_any_count :: "'a token_counts_scheme \<Rightarrow> bool" where
  "reported_any_count t \<longleftrightarrow> list_ex (\<lambda>label. token_field t label \<noteq> None) REQUEST_TOKEN_FIELDS"

record usage_request = token_counts +
  ur_ordinal :: int
  ur_source_event :: string
  ur_role :: string
  ur_provider :: "string option"
  ur_model :: "string option"
  ur_stop_reason :: "string option"

definition usage_request_init :: "(string \<times> pyval) list \<Rightarrow> usage_request result" where
  "usage_request_init kw = (case dget ''ordinal'' kw of
      PInt n \<Rightarrow>
        if \<not> (1 \<le> n \<and> n \<le> int MAXIMUM_USAGE_REQUEST_RECORDS) then Inl (usage_error ''ordinal'')
        else
          rbind (free_label ''source_event'' (dget ''source_event'' kw)) (\<lambda>source_event.
          rbind (free_label ''role'' (dget ''role'' kw)) (\<lambda>role.
          rbind (optional_label ''provider'' (dget ''provider'' kw)) (\<lambda>provider.
          rbind (optional_label ''model'' (dget ''model'' kw)) (\<lambda>model.
          rbind (optional_label ''stop_reason'' (dget ''stop_reason'' kw)) (\<lambda>stop_reason.
          rbind (check_counts kw) (\<lambda>counts.
            Inr (token_counts.extend counts
              (usage_request.fields n source_event role provider model stop_reason)))))))) 
    | _ \<Rightarrow> Inl (usage_error ''ordinal''))"

definition request_kwargs :: "usage_request \<Rightarrow> (string \<times> pyval) list" where
  "request_kwargs r =
     [(''ordinal'', PInt (ur_ordinal r)), (''source_event'', PStr (ur_source_event r)), (''role'', PStr (ur_role r)),
      (''provider'', opt_text (ur_provider r)), (''model'', opt_text (ur_model r)),
      (''stop_reason'', opt_text (ur_stop_reason r))] @ token_kwargs r"

definition request_to_value :: "usage_request \<Rightarrow> pyval" where
  "request_to_value r = PDict (request_kwargs r)"

record usage_totals = token_counts +
  ut_basis :: string
  ut_request_count :: "int option"

definition usage_totals_init :: "(string \<times> pyval) list \<Rightarrow> usage_totals result" where
  "usage_totals_init kw =
     rbind (uppercase_token ''basis'' (dget ''basis'' kw)) (\<lambda>basis.
     rbind (optional_count ''request_count'' (dget ''request_count'' kw)) (\<lambda>request_count.
     rbind (check_counts kw) (\<lambda>counts.
       Inr (token_counts.extend counts (usage_totals.fields basis request_count)))))"

definition totals_kwargs :: "usage_totals \<Rightarrow> (string \<times> pyval) list" where
  "totals_kwargs t =
     [(''basis'', PStr (ut_basis t)), (''request_count'', opt_int (ut_request_count t))] @ token_kwargs t"

definition totals_to_value :: "usage_totals \<Rightarrow> pyval" where
  "totals_to_value t = PDict (totals_kwargs t)"

definition REQUEST_FIELDS :: "string list" where
  "REQUEST_FIELDS = [''ordinal'', ''source_event'', ''role'', ''provider'', ''model'', ''stop_reason''] @ REQUEST_TOKEN_FIELDS"

definition TOTALS_FIELDS :: "string list" where
  "TOTALS_FIELDS = [''basis'', ''request_count''] @ REQUEST_TOKEN_FIELDS"

definition request_from_value :: "pyval \<Rightarrow> usage_request result" where
  "request_from_value value = (case value of
      PDict d \<Rightarrow> if set (keys d) \<noteq> set REQUEST_FIELDS then Inl (usage_error ''request fields'') else usage_request_init d
    | _ \<Rightarrow> Inl (usage_error ''request fields''))"

definition totals_from_value :: "pyval \<Rightarrow> usage_totals result" where
  "totals_from_value value = (case value of
      PDict d \<Rightarrow> if set (keys d) \<noteq> set TOTALS_FIELDS then Inl (usage_error ''totals fields'') else usage_totals_init d
    | _ \<Rightarrow> Inl (usage_error ''totals fields''))"

text \<open>The running sums, one per field; a field that a record does not report stays as it is.\<close>

definition add_reported :: "int option \<Rightarrow> int option \<Rightarrow> int option" where
  "add_reported reported running = (case reported of
      None \<Rightarrow> running
    | Some n \<Rightarrow> Some (case running of None \<Rightarrow> n | Some m \<Rightarrow> m + n))"

definition add_record :: "usage_request \<Rightarrow> (string \<times> int option) list \<Rightarrow> (string \<times> int option) list" where
  "add_record r sums = map (\<lambda>(label, running). (label, add_reported (token_field r label) running)) sums"

definition summed_totals :: "usage_request list \<Rightarrow> string \<Rightarrow> usage_totals result" where
  "summed_totals records basis =
     (let sums = fold add_record records (map (\<lambda>label. (label, None)) REQUEST_TOKEN_FIELDS)
      in usage_totals_init ([(''basis'', PStr basis), (''request_count'', PInt (int (length records)))] @
           map (\<lambda>(label, n). (label, opt_int n)) sums))"

section \<open>Evidence\<close>

datatype usage_state = MEASURED | ASSERTED | UNMEASURED

fun state_value :: "usage_state \<Rightarrow> string" where
  "state_value MEASURED = ''MEASURED''"
| "state_value ASSERTED = ''ASSERTED''"
| "state_value UNMEASURED = ''UNMEASURED''"

text \<open>\<open>UsageState(value)\<close>\<close>

definition usage_state_of :: "pyval \<Rightarrow> usage_state option" where
  "usage_state_of value = find (\<lambda>state. value = PStr (state_value state)) [MEASURED, ASSERTED, UNMEASURED]"

record usage_evidence =
  ue_state :: usage_state
  ue_provenance :: string
  ue_detail :: string
  ue_requests :: "usage_request list"
  ue_requests_truncated :: bool
  ue_totals :: "usage_totals list"
  ue_context_tokens :: "int option"
  ue_context_window_tokens :: "int option"
  ue_assertion :: "(string \<times> int) list"

definition assertion_entry :: "string \<times> pyval \<Rightarrow> (string \<times> int) result" where
  "assertion_entry = (\<lambda>(name, value).
     if \<not> is_ASSERTION_NAME name then Inl (usage_error ''assertion entry'')
     else rbind (optional_count ''assertion value'' value) (\<lambda>n. case n of
         None \<Rightarrow> Inl (usage_error ''assertion value'')
       | Some n \<Rightarrow> Inr (name, n)))"

definition check_assertion :: "(string \<times> pyval) list \<Rightarrow> (string \<times> int) list result" where
  "check_assertion assertion =
     (if MAXIMUM_USAGE_ASSERTION_ENTRIES < length assertion then Inl (usage_error ''assertion'')
      else rbind (rmap assertion_entry assertion) (\<lambda>entries.
        let names = map fst entries
        in if sort names \<noteq> names \<or> \<not> distinct names then Inl (usage_error ''assertion order'') else Inr entries))"

definition measured_content :: "usage_evidence \<Rightarrow> bool" where
  "measured_content e \<longleftrightarrow> ue_requests e \<noteq> [] \<or> list_ex reported_any_count (ue_totals e)"

definition check_state_invariants :: "usage_evidence \<Rightarrow> unit result" where
  "check_state_invariants e =
     (if ue_state e = MEASURED then
        (if \<not> measured_content e then Inl (usage_error ''measured without a reading'')
         else if ue_assertion e \<noteq> [] then Inl (usage_error ''measured with an assertion'')
         else Inr ())
      else if measured_content e \<or> ue_totals e \<noteq> [] \<or> ue_context_tokens e \<noteq> None \<or> ue_context_window_tokens e \<noteq> None
        then Inl (usage_error ''unmeasured with a reading'')
      else if ue_state e = ASSERTED \<and> ue_assertion e = [] then Inl (usage_error ''assertion is empty'')
      else if ue_state e = UNMEASURED \<and> ue_assertion e \<noteq> [] then Inl (usage_error ''unmeasured with an assertion'')
      else Inr ())"

text \<open>\<open>UsageEvidence.__post_init__\<close>; the records are already of their classes.\<close>

definition usage_evidence_init ::
  "usage_state \<Rightarrow> pyval \<Rightarrow> pyval \<Rightarrow> usage_request list \<Rightarrow> pyval \<Rightarrow> usage_totals list \<Rightarrow> pyval \<Rightarrow> pyval \<Rightarrow>
   (string \<times> pyval) list \<Rightarrow> usage_evidence result" where
  "usage_evidence_init state provenance detail requests truncated totals context_tokens window_tokens assertion =
     rbind (uppercase_token ''provenance'' provenance) (\<lambda>provenance.
     rbind (usage_detail detail) (\<lambda>detail.
     case truncated of
       PBool truncated \<Rightarrow>
         if MAXIMUM_USAGE_REQUEST_RECORDS < length requests then Inl (usage_error ''requests'')
         else if map ur_ordinal requests \<noteq> map int [1..<Suc (length requests)] then Inl (usage_error ''ordinal run'')
         else if MAXIMUM_USAGE_TOTALS < length totals then Inl (usage_error ''totals'')
         else if \<not> distinct (map ut_basis totals) then Inl (usage_error ''totals basis'')
         else
           rbind (optional_count ''provider_reported_context_tokens'' context_tokens) (\<lambda>context_tokens.
           rbind (optional_count ''provider_reported_context_window_tokens'' window_tokens) (\<lambda>window_tokens.
           rbind (check_assertion assertion) (\<lambda>assertion.
             let self = \<lparr>ue_state = state, ue_provenance = provenance, ue_detail = detail, ue_requests = requests,
               ue_requests_truncated = truncated, ue_totals = totals, ue_context_tokens = context_tokens,
               ue_context_window_tokens = window_tokens, ue_assertion = assertion\<rparr>
             in rbind (check_state_invariants self) (\<lambda>_. Inr self))))
     | _ \<Rightarrow> Inl (usage_error ''requests_truncated'')))"

definition unmeasured :: "pyval \<Rightarrow> pyval \<Rightarrow> usage_evidence result" where
  "unmeasured provenance detail =
     usage_evidence_init UNMEASURED provenance detail [] (PBool False) [] PNone PNone []"

definition asserted :: "pyval \<Rightarrow> pyval \<Rightarrow> pyval \<Rightarrow> usage_evidence result" where
  "asserted provenance assertion detail = (case assertion of
      PDict d \<Rightarrow> usage_evidence_init ASSERTED provenance detail [] (PBool False) [] PNone PNone (sort_key fst d)
    | _ \<Rightarrow> Inl (usage_error ''assertion''))"

definition measured ::
  "pyval \<Rightarrow> usage_request list \<Rightarrow> pyval \<Rightarrow> usage_totals list \<Rightarrow> pyval \<Rightarrow> pyval \<Rightarrow> pyval \<Rightarrow> usage_evidence result" where
  "measured provenance requests truncated totals context_tokens window_tokens detail =
     usage_evidence_init MEASURED provenance detail requests truncated totals context_tokens window_tokens []"

definition measured_state :: "usage_evidence \<Rightarrow> bool" where
  "measured_state e \<longleftrightarrow> ue_state e = MEASURED"

definition EVIDENCE_FIELDS :: "string list" where
  "EVIDENCE_FIELDS = [''schema'', ''state'', ''provenance'', ''detail'', ''requests'', ''requests_truncated'', ''totals'',
     ''provider_reported_context_tokens'', ''provider_reported_context_window_tokens'', ''assertion'']"

definition usage_to_value :: "usage_evidence \<Rightarrow> pyval" where
  "usage_to_value e = PDict
     [(''schema'', PStr USAGE_EVIDENCE_SCHEMA), (''state'', PStr (state_value (ue_state e))),
      (''provenance'', PStr (ue_provenance e)), (''detail'', PStr (ue_detail e)),
      (''requests'', PList (map request_to_value (ue_requests e))),
      (''requests_truncated'', PBool (ue_requests_truncated e)),
      (''totals'', PList (map totals_to_value (ue_totals e))),
      (''provider_reported_context_tokens'', opt_int (ue_context_tokens e)),
      (''provider_reported_context_window_tokens'', opt_int (ue_context_window_tokens e)),
      (''assertion'', if ue_assertion e = [] then PNone
         else PDict (map (\<lambda>(name, n). (name, PInt n)) (ue_assertion e)))]"

definition usage_from_value :: "pyval \<Rightarrow> usage_evidence result" where
  "usage_from_value value = (case value of
      PDict d \<Rightarrow>
        if set (keys d) \<noteq> set EVIDENCE_FIELDS then Inl (usage_error ''fields'')
        else if dget ''schema'' d \<noteq> PStr USAGE_EVIDENCE_SCHEMA then Inl (usage_error ''schema'')
        else (case usage_state_of (dget ''state'' d) of
            None \<Rightarrow> Inl (usage_error ''state'')
          | Some state \<Rightarrow> (case (dget ''requests'' d, dget ''totals'' d) of
              (PList raw_requests, PList raw_totals) \<Rightarrow>
                rbind (case dget ''assertion'' d of
                    PNone \<Rightarrow> Inr []
                  | PDict raw_assertion \<Rightarrow> Inr (sort_key fst raw_assertion)
                  | _ \<Rightarrow> Inl (usage_error ''assertion'')) (\<lambda>assertion.
                rbind (rmap request_from_value raw_requests) (\<lambda>requests.
                rbind (rmap totals_from_value raw_totals) (\<lambda>totals.
                  usage_evidence_init state (dget ''provenance'' d) (dget ''detail'' d) requests
                    (dget ''requests_truncated'' d) totals (dget ''provider_reported_context_tokens'' d)
                    (dget ''provider_reported_context_window_tokens'' d) assertion)))
            | _ \<Rightarrow> Inl (usage_error ''sequences'')))
    | _ \<Rightarrow> Inl (usage_error ''fields''))"

text \<open>Only \<open>UsageEvidenceError\<close> and \<open>TypeError\<close> are caught.\<close>

definition usage_evidence_value_is_valid :: "pyval \<Rightarrow> bool result" where
  "usage_evidence_value_is_valid value = (case usage_from_value value of
      Inr _ \<Rightarrow> Inr True
    | Inl (Usage_Evidence_Error _ _) \<Rightarrow> Inr False
    | Inl (Type_Error _) \<Rightarrow> Inr False
    | Inl e \<Rightarrow> Inl e)"

section \<open>Correctness\<close>

lemma opt_int_inject [simp]: "opt_int a = opt_int b \<longleftrightarrow> a = b"
  by (auto simp: opt_int_def split: option.splits)

lemma PInt_opt_int [simp]: "PInt n = opt_int a \<longleftrightarrow> a = Some n" "opt_int a = PInt n \<longleftrightarrow> a = Some n"
  by (auto simp: opt_int_def split: option.splits)

lemma opt_text_inject [simp]: "opt_text a = opt_text b \<longleftrightarrow> a = b"
  by (auto simp: opt_text_def split: option.splits)

lemma optional_count_Inr [result_dests]:
  "optional_count l v = Inr n \<longleftrightarrow> v = opt_int n \<and> pred_option count_ok n"
  by (cases n) (auto simp: optional_count_def opt_int_def split: pyval.splits)

lemma uppercase_token_Inr [result_dests]: "uppercase_token l v = Inr s \<longleftrightarrow> v = PStr s \<and> is_TOKEN_NAME s"
  by (auto simp: uppercase_token_def split: pyval.splits)

lemma usage_detail_Inr [result_dests]:
  "usage_detail v = Inr s \<longleftrightarrow> v = PStr s \<and> utf8_valid s \<and> length s \<le> MAXIMUM_USAGE_DETAIL_BYTES"
  by (auto simp: usage_detail_def split: pyval.splits)

lemma free_label_Inr [result_dests]: "free_label l v = Inr s \<longleftrightarrow> v = PStr s \<and> is_FREE_LABEL s"
  by (auto simp: free_label_def split: pyval.splits)

lemma optional_label_Inr [result_dests]:
  "optional_label l v = Inr s \<longleftrightarrow> v = opt_text s \<and> pred_option is_FREE_LABEL s"
  by (cases s) (auto simp: optional_label_def opt_text_def result_dests)

definition counts_ok :: "'a token_counts_scheme \<Rightarrow> bool" where
  "counts_ok t \<longleftrightarrow> list_all (\<lambda>(_, n). pred_option count_ok n) (token_list t)"

definition request_ok :: "usage_request \<Rightarrow> bool" where
  "request_ok r \<longleftrightarrow> 1 \<le> ur_ordinal r \<and> ur_ordinal r \<le> int MAXIMUM_USAGE_REQUEST_RECORDS \<and>
     is_FREE_LABEL (ur_source_event r) \<and> is_FREE_LABEL (ur_role r) \<and> pred_option is_FREE_LABEL (ur_provider r) \<and>
     pred_option is_FREE_LABEL (ur_model r) \<and> pred_option is_FREE_LABEL (ur_stop_reason r) \<and> counts_ok r"

definition totals_ok :: "usage_totals \<Rightarrow> bool" where
  "totals_ok t \<longleftrightarrow> is_TOKEN_NAME (ut_basis t) \<and> pred_option count_ok (ut_request_count t) \<and> counts_ok t"

lemma usage_request_init_Inr [result_dests]:
  "usage_request_init kw = Inr r \<longleftrightarrow> request_ok r \<and> (\<forall>(k, v) \<in> set (request_kwargs r). dget k kw = v)"
  by (cases r) (auto simp: usage_request_init_def request_ok_def request_kwargs_def token_counts.defs
    usage_request.defs check_counts_def result_dests counts_ok_def token_kwargs_def token_list_def split: pyval.splits)

lemma usage_totals_init_Inr [result_dests]:
  "usage_totals_init kw = Inr t \<longleftrightarrow> totals_ok t \<and> (\<forall>(k, v) \<in> set (totals_kwargs t). dget k kw = v)"
  by (cases t) (auto simp: usage_totals_init_def totals_ok_def totals_kwargs_def token_counts.defs
    usage_totals.defs check_counts_def result_dests counts_ok_def token_kwargs_def token_list_def split: pyval.splits)

lemma usage_state_of_Some: "usage_state_of v = Some s \<longleftrightarrow> v = PStr (state_value s)"
  by (cases s) (auto simp: usage_state_of_def)

definition assertion_ok :: "(string \<times> int) list \<Rightarrow> bool" where
  "assertion_ok a \<longleftrightarrow> length a \<le> MAXIMUM_USAGE_ASSERTION_ENTRIES \<and>
     list_all (\<lambda>(name, n). is_ASSERTION_NAME name \<and> count_ok n) a \<and> sorted (map fst a) \<and> distinct (map fst a)"

definition assertion_value :: "(string \<times> int) list \<Rightarrow> (string \<times> pyval) list" where
  "assertion_value a = map (\<lambda>(name, n). (name, PInt n)) a"

lemma assertion_value_simps [simp]:
  "assertion_value [] = []" "assertion_value a = [] \<longleftrightarrow> a = []" "map fst (assertion_value a) = map fst a"
  by (simp_all add: assertion_value_def comp_def case_prod_unfold)

lemma assertion_entry_Inr:
  "assertion_entry x = Inr y \<longleftrightarrow> x = (fst y, PInt (snd y)) \<and> is_ASSERTION_NAME (fst y) \<and> count_ok (snd y)"
  by (cases x; cases y) (auto simp: assertion_entry_def opt_int_def result_dests split: option.splits)

lemma entries_Inr:
  "rmap assertion_entry xs = Inr a \<longleftrightarrow>
     xs = assertion_value a \<and> list_all (\<lambda>(name, n). is_ASSERTION_NAME name \<and> count_ok n) a"
  unfolding assertion_value_def
proof (induction xs arbitrary: a)
  case (Cons x xs)
  then show ?case by (cases a) (auto simp: assertion_entry_Inr result_dests)
qed auto

lemma sort_eq_iff: "sort xs = xs \<longleftrightarrow> sorted xs"
  by (metis sorted_sort sorted_sort_id)

lemma check_assertion_Inr [result_dests]:
  "check_assertion xs = Inr a \<longleftrightarrow> xs = assertion_value a \<and> assertion_ok a"
  by (auto simp: check_assertion_def assertion_ok_def entries_Inr assertion_value_def sort_eq_iff result_dests Let_def)

definition no_reading :: "usage_evidence \<Rightarrow> bool" where
  "no_reading e \<longleftrightarrow> ue_requests e = [] \<and> ue_totals e = [] \<and> ue_context_tokens e = None \<and> ue_context_window_tokens e = None"

definition state_ok :: "usage_evidence \<Rightarrow> bool" where
  "state_ok e \<longleftrightarrow> (case ue_state e of
      MEASURED \<Rightarrow> measured_content e \<and> ue_assertion e = []
    | ASSERTED \<Rightarrow> no_reading e \<and> ue_assertion e \<noteq> []
    | UNMEASURED \<Rightarrow> no_reading e \<and> ue_assertion e = [])"

lemma check_state_invariants_Inr [result_dests]: "check_state_invariants e = Inr u \<longleftrightarrow> state_ok e"
  by (cases "ue_state e") (auto simp: check_state_invariants_def state_ok_def no_reading_def measured_content_def)

definition frame_ok :: "usage_evidence \<Rightarrow> bool" where
  "frame_ok e \<longleftrightarrow> is_TOKEN_NAME (ue_provenance e) \<and> utf8_valid (ue_detail e) \<and>
     length (ue_detail e) \<le> MAXIMUM_USAGE_DETAIL_BYTES \<and> length (ue_requests e) \<le> MAXIMUM_USAGE_REQUEST_RECORDS \<and>
     map ur_ordinal (ue_requests e) = map int [1..<Suc (length (ue_requests e))] \<and>
     length (ue_totals e) \<le> MAXIMUM_USAGE_TOTALS \<and> distinct (map ut_basis (ue_totals e)) \<and>
     pred_option count_ok (ue_context_tokens e) \<and> pred_option count_ok (ue_context_window_tokens e) \<and>
     assertion_ok (ue_assertion e) \<and> state_ok e"

lemma usage_evidence_init_Inr [result_dests]:
  "usage_evidence_init state provenance detail requests truncated totals context_tokens window_tokens assertion = Inr e \<longleftrightarrow>
     frame_ok e \<and> ue_state e = state \<and> provenance = PStr (ue_provenance e) \<and> detail = PStr (ue_detail e) \<and>
     requests = ue_requests e \<and> truncated = PBool (ue_requests_truncated e) \<and> totals = ue_totals e \<and>
     context_tokens = opt_int (ue_context_tokens e) \<and> window_tokens = opt_int (ue_context_window_tokens e) \<and>
     assertion = assertion_value (ue_assertion e)"
proof (cases truncated)
  case (PBool b)
  then show ?thesis
    by (cases e) (auto simp: usage_evidence_init_def frame_ok_def result_dests Let_def)
qed (auto simp: usage_evidence_init_def result_dests)

definition evidence_ok :: "usage_evidence \<Rightarrow> bool" where
  "evidence_ok e \<longleftrightarrow> frame_ok e \<and> list_all request_ok (ue_requests e) \<and> list_all totals_ok (ue_totals e)"

lemma token_kwargs_simps:
  "token_kwargs t = [(''input_tokens'', opt_int (tk_input_tokens t)), (''cached_input_tokens'', opt_int (tk_cached_input_tokens t)),
     (''cache_write_tokens'', opt_int (tk_cache_write_tokens t)), (''output_tokens'', opt_int (tk_output_tokens t)),
     (''reasoning_tokens'', opt_int (tk_reasoning_tokens t)), (''total_tokens'', opt_int (tk_total_tokens t))]"
  by (simp add: token_kwargs_def token_list_def)

lemma request_from_value_to_value: "request_ok r \<Longrightarrow> request_from_value (request_to_value r) = Inr r"
  by (simp add: request_from_value_def request_to_value_def result_dests REQUEST_FIELDS_def REQUEST_TOKEN_FIELDS_def
    request_kwargs_def token_kwargs_simps dget_def insert_commute)

lemma totals_from_value_to_value: "totals_ok t \<Longrightarrow> totals_from_value (totals_to_value t) = Inr t"
  by (simp add: totals_from_value_def totals_to_value_def result_dests TOTALS_FIELDS_def REQUEST_TOKEN_FIELDS_def
    totals_kwargs_def token_kwargs_simps dget_def insert_commute)

lemma request_from_value_ok: "request_from_value v = Inr r \<Longrightarrow> request_ok r"
  by (auto simp: request_from_value_def result_dests split: pyval.splits)

lemma totals_from_value_ok: "totals_from_value v = Inr t \<Longrightarrow> totals_ok t"
  by (auto simp: totals_from_value_def result_dests split: pyval.splits)

lemma rmap_list_all: "rmap f xs = Inr ys \<Longrightarrow> (\<And>x y. f x = Inr y \<Longrightarrow> P y) \<Longrightarrow> list_all P ys"
  by (induction xs arbitrary: ys) (auto simp: result_dests)

lemmas requests_from_value_ok = rmap_list_all [OF _ request_from_value_ok]
lemmas totals_from_values_ok = rmap_list_all [OF _ totals_from_value_ok]

lemma usage_from_value_ok: "usage_from_value v = Inr e \<Longrightarrow> evidence_ok e"
  by (auto simp: usage_from_value_def evidence_ok_def result_dests
    dest: requests_from_value_ok totals_from_values_ok split: pyval.splits option.splits if_splits)

lemma rmap_id: "(\<And>x. x \<in> set xs \<Longrightarrow> f (g x) = Inr x) \<Longrightarrow> rmap f (map g xs) = Inr xs"
  by (induction xs) simp_all

lemma usage_from_value_to_value:
  assumes "evidence_ok e"
  shows "usage_from_value (usage_to_value e) = Inr e"
proof -
  have "sort_key fst (assertion_value (ue_assertion e)) = assertion_value (ue_assertion e)"
    using assms by (intro sort_key_sorted_id) (simp add: evidence_ok_def frame_ok_def assertion_ok_def)
  moreover have "rmap request_from_value (map request_to_value (ue_requests e)) = Inr (ue_requests e)"
    "rmap totals_from_value (map totals_to_value (ue_totals e)) = Inr (ue_totals e)"
    using assms by (auto simp: evidence_ok_def list_all_iff
      intro: rmap_id request_from_value_to_value totals_from_value_to_value)
  moreover have "usage_state_of (PStr (state_value (ue_state e))) = Some (ue_state e)" by (simp add: usage_state_of_Some)
  ultimately show ?thesis
    using assms unfolding usage_from_value_def usage_to_value_def
    by (simp add: EVIDENCE_FIELDS_def dget_def insert_commute result_dests evidence_ok_def flip: assertion_value_def)
qed

section \<open>Sums\<close>

text \<open>The numbers that the records report for one field, and their sum, when there is one.\<close>

definition reported :: "string \<Rightarrow> usage_request list \<Rightarrow> int list" where
  "reported label records = concat (map (\<lambda>r. case token_field r label of None \<Rightarrow> [] | Some n \<Rightarrow> [n]) records)"

definition reported_sum :: "string \<Rightarrow> usage_request list \<Rightarrow> int option" where
  "reported_sum label records = (if reported label records = [] then None else Some (sum_list (reported label records)))"

lemma fold_add_record:
  "fold add_record records sums =
     map (\<lambda>(label, running). (label, fold (\<lambda>r. add_reported (token_field r label)) records running)) sums"
  by (induction records arbitrary: sums) (simp_all add: add_record_def comp_def case_prod_unfold)

lemma fold_add_reported:
  "fold (\<lambda>r. add_reported (token_field r label)) records running =
     (case running of None \<Rightarrow> reported_sum label records | Some m \<Rightarrow> Some (m + sum_list (reported label records)))"
  by (induction records arbitrary: running)
    (auto simp: reported_sum_def reported_def add_reported_def split: option.splits)

lemma summed_totals_Inr:
  "summed_totals records basis = Inr t \<longleftrightarrow>
     is_TOKEN_NAME basis \<and> ut_basis t = basis \<and> ut_request_count t = Some (int (length records)) \<and>
     int (length records) \<le> MAXIMUM_TOKEN_COUNT \<and>
     (\<forall>label \<in> set REQUEST_TOKEN_FIELDS. token_field t label = reported_sum label records \<and>
        pred_option count_ok (reported_sum label records))"
proof -
  have sums: "fold add_record records (map (\<lambda>label. (label, None)) REQUEST_TOKEN_FIELDS) =
      map (\<lambda>label. (label, reported_sum label records)) REQUEST_TOKEN_FIELDS"
    by (simp add: fold_add_record fold_add_reported)
  show ?thesis
    unfolding summed_totals_def sums
    by (auto simp: result_dests totals_ok_def counts_ok_def totals_kwargs_def token_kwargs_simps dget_def token_list_def
      token_field_def REQUEST_TOKEN_FIELDS_def count_ok_def)
qed

section \<open>Errors\<close>

definition usage_only :: "'a result \<Rightarrow> bool" where
  "usage_only m \<longleftrightarrow> (case m of Inl (Usage_Evidence_Error _ _) \<Rightarrow> True | Inl _ \<Rightarrow> False | Inr _ \<Rightarrow> True)"

lemma usage_only_simps [simp]: "usage_only (Inr x)" "usage_only (Inl (usage_error d))"
  by (simp_all add: usage_only_def usage_error_def)

lemma usage_only_rbind: "usage_only m \<Longrightarrow> (\<And>x. m = Inr x \<Longrightarrow> usage_only (f x)) \<Longrightarrow> usage_only (rbind m f)"
  by (cases m) (simp_all add: usage_only_def split: exn.splits)

lemma usage_only_rmap: "(\<And>x. usage_only (f x)) \<Longrightarrow> usage_only (rmap f xs)"
  by (induction xs) (auto intro!: usage_only_rbind)

lemma usage_only_validators [simp]:
  "usage_only (optional_count l v)" "usage_only (uppercase_token l v)" "usage_only (free_label l v)"
  "usage_only (optional_label l v)"
  by (auto simp: optional_count_def uppercase_token_def free_label_def optional_label_def
    intro!: usage_only_rbind split: pyval.splits)

lemma usage_only_records [simp]: "usage_only (request_from_value v)" "usage_only (totals_from_value v)"
  by (auto simp: request_from_value_def totals_from_value_def usage_request_init_def usage_totals_init_def
    check_counts_def intro!: usage_only_rbind split: pyval.splits)

lemma usage_only_check_assertion [simp]: "usage_only (check_assertion a)"
  by (auto simp: check_assertion_def assertion_entry_def Let_def intro!: usage_only_rbind usage_only_rmap
    split: prod.splits option.splits)

lemma usage_only_init:
  assumes "\<And>s. detail = PStr s \<Longrightarrow> utf8_valid s"
  shows "usage_only (usage_evidence_init state provenance detail requests truncated totals ctx window assertion)"
proof -
  have "usage_only (usage_detail detail)"
    using assms by (auto simp: usage_detail_def split: pyval.splits)
  then show ?thesis
    unfolding usage_evidence_init_def
    by (auto simp: check_state_invariants_def Let_def intro!: usage_only_rbind split: pyval.splits)
qed

lemma usage_only_from_value:
  assumes "\<And>d s. v = PDict d \<Longrightarrow> dget ''detail'' d = PStr s \<Longrightarrow> utf8_valid s"
  shows "usage_only (usage_from_value v)"
  unfolding usage_from_value_def
  using assms by (auto intro!: usage_only_rbind usage_only_rmap usage_only_init split: pyval.splits option.splits)

end
