(* ===== verification/Usage_Properties.thy ===== *)
theory Usage_Properties
  imports Usage
begin

text \<open>
  Properties of the usage evidence: the state of a block is decided by what it holds, a printed block
  reads back, a host sum never turns absence into zero, and when the validity test raises.
\<close>

definition sample_request :: usage_request where
  "sample_request = \<lparr>tk_input_tokens = Some 5, tk_cached_input_tokens = None, tk_cache_write_tokens = None,
     tk_output_tokens = Some 2, tk_reasoning_tokens = None, tk_total_tokens = None, ur_ordinal = 1,
     ur_source_event = ''message_end'', ur_role = ''assistant'', ur_provider = None, ur_model = Some ''m'',
     ur_stop_reason = None\<rparr>"

definition sample_totals :: usage_totals where
  "sample_totals = \<lparr>tk_input_tokens = Some 10, tk_cached_input_tokens = None, tk_cache_write_tokens = None,
     tk_output_tokens = Some 2, tk_reasoning_tokens = None, tk_total_tokens = None,
     ut_basis = BASIS_HOST_SUMMED_OBSERVED_RECORDS, ut_request_count = Some 2\<rparr>"

definition sample_usage :: usage_evidence where
  "sample_usage = \<lparr>ue_state = MEASURED, ue_provenance = ''PI_RPC_REPORTED'', ue_detail = ''two requests'',
     ue_requests = [sample_request, sample_request\<lparr>tk_output_tokens := None, ur_ordinal := 2\<rparr>],
     ue_requests_truncated = False, ue_totals = [sample_totals], ue_context_tokens = None,
     ue_context_window_tokens = Some 200000, ue_assertion = []\<rparr>"

lemma sample_usage_reads: "usage_from_value (usage_to_value sample_usage) = Inr sample_usage"
  by code_simp

lemma sample_usage_ok: "evidence_ok sample_usage"
  using sample_usage_reads by (rule usage_from_value_ok)

text \<open>C39: the state of a usage block is what its content says: it is measured exactly when it holds a request
  or a reported total, asserted exactly when it holds an assertion, and a block that is not measured
  holds no number read off a surface, not even the provider's context figures.\<close>

theorem usage_state_is_content:
  assumes "usage_from_value v = Inr e"
  shows "(ue_state e = MEASURED \<longleftrightarrow> measured_content e) \<and> (ue_state e = ASSERTED \<longleftrightarrow> ue_assertion e \<noteq> []) \<and>
    (measured_state e \<or> no_reading e) \<and> list_all request_ok (ue_requests e) \<and> list_all totals_ok (ue_totals e) \<and>
    map ur_ordinal (ue_requests e) = map int [1..<Suc (length (ue_requests e))]"
proof -
  have ok: "evidence_ok e" using assms by (rule usage_from_value_ok)
  then have "state_ok e" by (simp add: evidence_ok_def frame_ok_def)
  then show ?thesis
    using ok unfolding evidence_ok_def frame_ok_def measured_state_def
    by (cases "ue_state e") (auto simp: state_ok_def no_reading_def measured_content_def)
qed

lemma usage_state_is_content_witness: "measured_state sample_usage \<and> ue_assertion sample_usage = []"
  using usage_state_is_content [OF sample_usage_reads] by (simp add: sample_usage_def measured_state_def)

text \<open>a usage block that satisfies the invariant of its classes reads back from the value it prints to.\<close>

theorem usage_roundtrip:
  assumes "evidence_ok e"
  shows "usage_from_value (usage_to_value e) = Inr e"
  using assms by (rule usage_from_value_to_value)

lemma usage_roundtrip_witness: "usage_from_value (usage_to_value sample_usage) = Inr sample_usage"
  by (rule usage_roundtrip [OF sample_usage_ok])

text \<open>C40: the host sum of observed records: it has the number of records, and for every field the sum of the
  numbers reported for it, no number at all when no record reported one; it is refused exactly when one
  of these leaves the range of token counts or the name of the basis is not a token.\<close>

theorem summed_totals_exact:
  "summed_totals records basis = Inr t \<longleftrightarrow>
     is_TOKEN_NAME basis \<and> ut_basis t = basis \<and> ut_request_count t = Some (int (length records)) \<and>
     int (length records) \<le> MAXIMUM_TOKEN_COUNT \<and>
     (\<forall>label \<in> set REQUEST_TOKEN_FIELDS. token_field t label = reported_sum label records \<and>
        pred_option count_ok (reported_sum label records))"
  by (rule summed_totals_Inr)

lemma summed_totals_exact_witness:
  "token_field sample_totals ''output_tokens'' = reported_sum ''output_tokens'' (ue_requests sample_usage) \<and>
   token_field sample_totals ''total_tokens'' = reported_sum ''total_tokens'' (ue_requests sample_usage)"
proof -
  have "summed_totals (ue_requests sample_usage) BASIS_HOST_SUMMED_OBSERVED_RECORDS = Inr sample_totals"
    by code_simp
  then show ?thesis
    using summed_totals_exact [of "ue_requests sample_usage" BASIS_HOST_SUMMED_OBSERVED_RECORDS sample_totals]
    by (simp add: REQUEST_TOKEN_FIELDS_def)
qed

text \<open>the validity test of a durable usage block answers whether the block reads, and does not raise,
  as long as the detail is a text without lone surrogates. With one it raises, as the witness shows.\<close>

theorem usage_validity_answers:
  assumes "\<And>d s. v = PDict d \<Longrightarrow> dget ''detail'' d = PStr s \<Longrightarrow> utf8_valid s"
  shows "usage_evidence_value_is_valid v = Inr (\<exists>e. usage_from_value v = Inr e)"
proof -
  have "usage_only (usage_from_value v)" using assms by (rule usage_only_from_value)
  then show ?thesis
    by (cases "usage_from_value v") (auto simp: usage_evidence_value_is_valid_def usage_only_def split: exn.splits)
qed

definition surrogate_usage :: pyval where
  "surrogate_usage = PDict
     [(''schema'', PStr USAGE_EVIDENCE_SCHEMA), (''state'', PStr ''UNMEASURED''), (''provenance'', PStr ''NONE''),
      (''detail'', PStr [char_of (237 :: nat), char_of (160 :: nat), char_of (128 :: nat)]),
      (''requests'', PList []), (''requests_truncated'', PBool False), (''totals'', PList []),
      (''provider_reported_context_tokens'', PNone), (''provider_reported_context_window_tokens'', PNone),
      (''assertion'', PNone)]"

lemma usage_validity_answers_witness:
  "usage_evidence_value_is_valid (usage_to_value sample_usage) = Inr True \<and>
   usage_evidence_value_is_valid surrogate_usage = Inl (Value_Error ''surrogates not allowed'')"
proof -
  have utf8: "utf8_valid s" if "usage_to_value sample_usage = PDict d" "dget ''detail'' d = PStr s" for d s
    using that sample_usage_ok by (auto simp: usage_to_value_def dget_def evidence_ok_def frame_ok_def)
  have "usage_evidence_value_is_valid surrogate_usage = Inl (Value_Error ''surrogates not allowed'')" by code_simp
  with usage_validity_answers [OF utf8] sample_usage_reads show ?thesis by simp
qed

end
