(* ===== verification/Context_Window.thy ===== *)
theory Context_Window
  imports Session_Model
begin

text \<open>
  The context window policy of a launch, \<open>runtime/context.py\<close>: a default window, overrides for sessions
  by name, and the value that a launch binds once the overrides are known to name its sessions. The
  lemmas give the exact condition under which a policy can be made and bound, and the window of each session.
\<close>

definition CONTEXT_WINDOW_POLICY_SCHEMA :: string where
  "CONTEXT_WINDOW_POLICY_SCHEMA = ''PMW_RUNTIME_CONTEXT_WINDOW_POLICY_1''"

definition CONTEXT_WINDOW_SEMANTICS :: string where
  "CONTEXT_WINDOW_SEMANTICS = ''ACTIVE_MODEL_CONTEXT_WINDOW_TOKENS_NOT_CUMULATIVE_SESSION_USAGE''"

definition MAXIMUM_CONTEXT_WINDOW_TOKENS :: int where
  "MAXIMUM_CONTEXT_WINDOW_TOKENS = 2147483647"

definition window_tokens :: "string \<Rightarrow> pyval \<Rightarrow> int result" where
  "window_tokens label value =
     (let failure = value_error (label @ '' must be an integer between 1 and '' @ int_digits MAXIMUM_CONTEXT_WINDOW_TOKENS)
      in case value of
           PInt n \<Rightarrow> if n \<le> 0 \<or> MAXIMUM_CONTEXT_WINDOW_TOKENS < n then failure else Inr n
         | _ \<Rightarrow> failure)"

record context_policy =
  cw_default_tokens :: "int option"
  cw_overrides :: "(string \<times> int) list"

definition window_override :: "pyval \<times> pyval \<Rightarrow> (string \<times> int) result" where
  "window_override = (\<lambda>(session_id, value). case session_id of
      PStr s \<Rightarrow>
        if \<not> is_IDENTIFIER s then value_error ''session override has a malformed session ID''
        else rbind (window_tokens (''session override '' @ s) value) (\<lambda>n. Inr (s, n))
    | _ \<Rightarrow> value_error ''session override has a malformed session ID'')"

text \<open>The items of the mapping in its own order; its keys are distinct.\<close>

definition context_policy_init :: "pyval \<Rightarrow> (pyval \<times> pyval) list option \<Rightarrow> context_policy result" where
  "context_policy_init default_tokens session_overrides =
     rbind (if default_tokens = PNone then Inr None
            else rbind (window_tokens ''default_tokens'' default_tokens) (\<lambda>n. Inr (Some n))) (\<lambda>selected_default.
     rbind (rmap window_override (case session_overrides of None \<Rightarrow> [] | Some items \<Rightarrow> items)) (\<lambda>normalized.
       Inr \<lparr>cw_default_tokens = selected_default, cw_overrides = sort_key fst normalized\<rparr>))"

definition policy_configured :: "context_policy \<Rightarrow> bool" where
  "policy_configured p \<longleftrightarrow> cw_default_tokens p \<noteq> None \<or> cw_overrides p \<noteq> []"

definition window_for_session :: "context_policy \<Rightarrow> string \<Rightarrow> int option" where
  "window_for_session p session_id = (case map_of (cw_overrides p) session_id of
      Some n \<Rightarrow> Some n
    | None \<Rightarrow> cw_default_tokens p)"

definition session_window :: "string \<Rightarrow> int option \<Rightarrow> pyval" where
  "session_window session_id n =
     PDict [(''session_id'', PStr session_id), (''context_window_tokens'', opt_int n)]"

definition canonical_session :: "pyval \<Rightarrow> string option" where
  "canonical_session item = (case item of PStr s \<Rightarrow> if is_IDENTIFIER s then Some s else None | _ \<Rightarrow> None)"

definition policy_bind :: "context_policy \<Rightarrow> pyval list \<Rightarrow> pyval result" where
  "policy_bind p session_ids =
     (if list_ex (\<lambda>item. canonical_session item = None) session_ids
          \<or> \<not> distinct (map (\<lambda>item. the (canonical_session item)) session_ids)
      then value_error ''session_ids must be canonical and unique''
      else
        let selected = map (\<lambda>item. the (canonical_session item)) session_ids;
            unknown = filter (\<lambda>s. s \<notin> set selected) (map fst (cw_overrides p))
        in if unknown \<noteq> []
           then value_error (''context override does not name a session in the cohort: '' @ hd (sort unknown))
           else Inr (PDict
             [(''schema'', PStr CONTEXT_WINDOW_POLICY_SCHEMA), (''semantics'', PStr CONTEXT_WINDOW_SEMANTICS),
              (''default_tokens'', opt_int (cw_default_tokens p)),
              (''session_overrides'', PList (map (\<lambda>(s, n). session_window s (Some n)) (cw_overrides p))),
              (''effective_sessions'', PList (map (\<lambda>s. session_window s (window_for_session p s)) selected)),
              (''unset_semantics'', PStr ''BACKEND_DECLARED_MODEL_WINDOW'')]))"

section \<open>Correctness\<close>

definition window_ok :: "int \<Rightarrow> bool" where
  "window_ok n \<longleftrightarrow> 1 \<le> n \<and> n \<le> MAXIMUM_CONTEXT_WINDOW_TOKENS"

lemma window_tokens_Inr [result_dests]: "window_tokens l v = Inr n \<longleftrightarrow> v = PInt n \<and> window_ok n"
  by (auto simp: window_tokens_def window_ok_def Let_def split: pyval.splits)

lemma window_override_Inr [result_dests]:
  "window_override x = Inr (s, n) \<longleftrightarrow> x = (PStr s, PInt n) \<and> is_IDENTIFIER s \<and> window_ok n"
  by (cases x) (auto simp: window_override_def result_dests split: pyval.splits)

lemma overrides_Inr:
  "rmap window_override items = Inr a \<longleftrightarrow>
     items = map (\<lambda>(s, n). (PStr s, PInt n)) a \<and> list_all (\<lambda>(s, n). is_IDENTIFIER s \<and> window_ok n) a"
proof (induction items arbitrary: a)
  case (Cons x items)
  then show ?case by (cases a) (auto simp: result_dests)
qed auto

definition policy_ok :: "context_policy \<Rightarrow> bool" where
  "policy_ok p \<longleftrightarrow> pred_option window_ok (cw_default_tokens p) \<and>
     list_all (\<lambda>(s, n). is_IDENTIFIER s \<and> window_ok n) (cw_overrides p) \<and> sorted (map fst (cw_overrides p)) \<and>
     distinct (map fst (cw_overrides p))"

lemma context_policy_init_ok:
  assumes "context_policy_init d (Some items) = Inr p" "distinct (map fst items)"
  shows "policy_ok p \<and> d = opt_int (cw_default_tokens p) \<and>
    (\<forall>s n. (PStr s, PInt n) \<in> set items \<longleftrightarrow> map_of (cw_overrides p) s = Some n)"
proof -
  obtain a where a: "rmap window_override items = Inr a" "cw_overrides p = sort_key fst a"
    "pred_option window_ok (cw_default_tokens p)" "d = opt_int (cw_default_tokens p)"
    using assms(1) by (auto simp: context_policy_init_def opt_int_def result_dests split: if_splits)
  have items: "items = map (\<lambda>(s, n). (PStr s, PInt n)) a" "list_all (\<lambda>(s, n). is_IDENTIFIER s \<and> window_ok n) a"
    using a(1) by (simp_all add: overrides_Inr)
  have mem: "(PStr s, PInt n) \<in> set items \<longleftrightarrow> (s, n) \<in> set a" for s n
    unfolding items(1) by force
  have "map fst items = map PStr (map fst a)" by (simp add: items(1) case_prod_unfold comp_def)
  then have "distinct (map fst a)" using assms(2) by (metis distinct_map)
  then show ?thesis
    using a items(2) mem
    by (auto simp: policy_ok_def list_all_iff distinct_map_sort_key map_of_sort_key_fst map_of_eq_Some_iff)
qed

lemma policy_bind_Inr:
  "policy_bind p ids = Inr v \<longleftrightarrow> (\<exists>selected. ids = map PStr selected \<and> list_all is_IDENTIFIER selected \<and> distinct selected \<and>
     set (map fst (cw_overrides p)) \<subseteq> set selected \<and>
     v = PDict
       [(''schema'', PStr CONTEXT_WINDOW_POLICY_SCHEMA), (''semantics'', PStr CONTEXT_WINDOW_SEMANTICS),
        (''default_tokens'', opt_int (cw_default_tokens p)),
        (''session_overrides'', PList (map (\<lambda>(s, n). session_window s (Some n)) (cw_overrides p))),
        (''effective_sessions'', PList (map (\<lambda>s. session_window s (window_for_session p s)) selected)),
        (''unset_semantics'', PStr ''BACKEND_DECLARED_MODEL_WINDOW'')])"
proof -
  have canonical: "canonical_session item = Some s \<longleftrightarrow> item = PStr s \<and> is_IDENTIFIER s" for item s
    by (auto simp: canonical_session_def split: pyval.splits)
  have known: "canonical_session (PStr s) = (if is_IDENTIFIER s then Some s else None)" for s
    by (simp add: canonical_session_def)
  let ?names = "map (\<lambda>item. the (canonical_session item)) ids"
  have "(\<forall>item \<in> set ids. canonical_session item \<noteq> None) \<Longrightarrow> ids = map PStr ?names \<and> list_all is_IDENTIFIER ?names"
    by (induction ids) (auto simp: canonical known)
  moreover have "canonical_session item \<noteq> None" if "ids = map PStr selected" "list_all is_IDENTIFIER selected" "item \<in> set ids"
    for selected item
    using that by (auto simp: canonical_session_def list_all_iff)
  ultimately have ids: "(\<forall>item \<in> set ids. canonical_session item \<noteq> None) \<longleftrightarrow>
      (\<exists>selected. ids = map PStr selected \<and> list_all is_IDENTIFIER selected)"
    by blast
  have the: "map (\<lambda>item. the (canonical_session item)) (map PStr selected) = selected"
    if "list_all is_IDENTIFIER selected" for selected
    using that by (induction selected) (auto simp: canonical_session_def)
  show ?thesis
  proof (cases "\<forall>item \<in> set ids. canonical_session item \<noteq> None")
    case True
    then obtain selected where s: "ids = map PStr selected" "list_all is_IDENTIFIER selected" using ids by blast
    then show ?thesis
      using True the [OF s(2)] by (auto simp: policy_bind_def list_ex_iff Let_def filter_empty_conv inj_map_eq_map inj_def)
  next
    case False
    then show ?thesis using ids by (auto simp: policy_bind_def list_ex_iff)
  qed
qed

end
