(* ===== verification/Cohort_Runner.thy ===== *)
theory Cohort_Runner
  imports World_Store
begin

text \<open>
  Cohort execution, \<open>sessions/runner.py\<close>: the receipt in which each session settles, and the pool of
  consumers that takes sessions from the queue, runs a worker on each and persists its receipt. The
  event loop is a step relation: between two awaits a coroutine runs alone, so a step is one
  consumer going from an await to the next one.
\<close>

section \<open>Receipts\<close>

definition MAXIMUM_ERROR_MESSAGE_BYTES :: nat where
  "MAXIMUM_ERROR_MESSAGE_BYTES = 2048"

datatype session_status = SUCCEEDED | FAILED | CANCELLED | UNKNOWN

record 'r session_receipt = launch_identity +
  sr_session_id :: string
  sr_plan_sha256 :: string
  sr_status :: session_status
  sr_result :: "'r option"
  sr_error_type :: "string option"
  sr_error_message :: "string option"

definition receipt_succeeded :: "'r session_receipt \<Rightarrow> bool" where
  "receipt_succeeded receipt \<longleftrightarrow> sr_status receipt = SUCCEEDED"

record 'r cohort_receipt = launch_identity +
  cr_plan_sha256 :: string
  cr_receipts :: "'r session_receipt list"

definition cohort_succeeded :: "'r cohort_receipt \<Rightarrow> 'r session_receipt list" where
  "cohort_succeeded c = filter receipt_succeeded (cr_receipts c)"

definition cohort_failed :: "'r cohort_receipt \<Rightarrow> 'r session_receipt list" where
  "cohort_failed c = filter (\<lambda>receipt. \<not> receipt_succeeded receipt) (cr_receipts c)"

definition for_session :: "'r cohort_receipt \<Rightarrow> string \<Rightarrow> 'r session_receipt result" where
  "for_session c session_id = (case find (\<lambda>receipt. sr_session_id receipt = session_id) (cr_receipts c) of
      Some receipt \<Rightarrow> Inr receipt
    | None \<Rightarrow> Inl (Key_Error session_id))"

text \<open>
  An exception as the receipt sees it: the module and qualified name of its class, and its text,
  when \<open>str(error)\<close> does not raise itself.
\<close>

record raised =
  rs_module :: string
  rs_qualname :: string
  rs_text :: "string option"

definition truncation_suffix :: string where
  "truncation_suffix = ''...[truncated]''"

definition safe_error_message :: "raised \<Rightarrow> string" where
  "safe_error_message error =
     (let value = (case rs_text error of Some s \<Rightarrow> s | None \<Rightarrow> ''<exception message unavailable>'');
          encoded = utf8_replace value
      in if length encoded \<le> MAXIMUM_ERROR_MESSAGE_BYTES then decode_replace encoded
         else decode_replace (take (MAXIMUM_ERROR_MESSAGE_BYTES - length truncation_suffix) encoded @
                truncation_suffix))"

definition make_receipt ::
  "session_spec \<Rightarrow> string \<Rightarrow> session_status \<Rightarrow> 'r option \<Rightarrow> string option \<Rightarrow> string option \<Rightarrow> 'r session_receipt" where
  "make_receipt spec plan_sha256 status result error_type error_message =
     launch_identity.extend (launch_identity.truncate spec)
       (session_receipt.fields (ss_session_id spec) plan_sha256 status result error_type error_message)"

definition success_receipt :: "session_spec \<Rightarrow> 'r \<Rightarrow> string \<Rightarrow> 'r session_receipt" where
  "success_receipt spec result plan_sha256 = make_receipt spec plan_sha256 SUCCEEDED (Some result) None None"

definition failure_receipt :: "session_spec \<Rightarrow> raised \<Rightarrow> string \<Rightarrow> 'r session_receipt" where
  "failure_receipt spec error plan_sha256 =
     make_receipt spec plan_sha256 FAILED None
       (Some (cp_take 512 (rs_module error @ ''.'' @ rs_qualname error))) (Some (safe_error_message error))"

section \<open>Settlement of one session\<close>

text \<open>
  What becomes of the task of a worker while its consumer waits for it: \<open>Not_Created\<close> is a failure of
  \<open>create_task\<close> itself, with no exception text when it is a cancellation.
\<close>

datatype 'r outcome =
    Not_Created "raised option"
  | Returned 'r
  | Raised raised
  | Self_Cancelled

definition settle_outcome :: "string \<Rightarrow> session_spec \<Rightarrow> 'r outcome \<Rightarrow> 'r session_receipt" where
  "settle_outcome plan_sha256 spec outcome = (case outcome of
      Not_Created None \<Rightarrow> make_receipt spec plan_sha256 CANCELLED None (Some ''asyncio.CancelledError'')
        (Some ''worker cancelled itself before starting'')
    | Not_Created (Some error) \<Rightarrow> failure_receipt spec error plan_sha256
    | Returned result \<Rightarrow> success_receipt spec result plan_sha256
    | Raised error \<Rightarrow> failure_receipt spec error plan_sha256
    | Self_Cancelled \<Rightarrow> make_receipt spec plan_sha256 CANCELLED None (Some ''asyncio.CancelledError'')
        (Some ''worker cancelled itself''))"

text \<open>
  What the grace period shows after the cohort was cancelled; the flag of \<open>Stopped_Cancelled\<close> tells
  whether the request of the host was the one that cancelled the task.
\<close>

datatype 'r stop_outcome =
    Unsettled
  | Stopped_Cancelled bool
  | Stopped_Raised raised
  | Stopped_Returned 'r

definition settle_stop :: "string \<Rightarrow> session_spec \<Rightarrow> 'r stop_outcome \<Rightarrow> 'r session_receipt" where
  "settle_stop plan_sha256 spec outcome = (case outcome of
      Unsettled \<Rightarrow> make_receipt spec plan_sha256 UNKNOWN None (Some ''pmw_platform.UnsettledWorker'')
        (Some ''worker did not settle during cancellation grace'')
    | Stopped_Cancelled cancel_requested \<Rightarrow>
        make_receipt spec plan_sha256 (if cancel_requested then UNKNOWN else CANCELLED) None
          (Some (if cancel_requested then ''pmw_platform.UnsettledWorker'' else ''asyncio.CancelledError''))
          (Some (if cancel_requested then ''async task stopped; underlying side effects are not proven stopped''
                 else ''worker had already cancelled itself''))
    | Stopped_Raised error \<Rightarrow> failure_receipt spec error plan_sha256
    | Stopped_Returned result \<Rightarrow> success_receipt spec result plan_sha256)"

section \<open>The pool\<close>

text \<open>
  A consumer is at the head of its loop, waits for a worker, waits for the grace period of a worker
  it was told to stop, or waits for the sink; the flag of \<open>Persisting\<close> is set when the cancellation is
  raised again after the sink. It ends by returning, because the sink failed, because a further cancellation
  interrupted the grace period, or cancelled with nothing left to persist. The index of a session is its
  position in the plan; \<open>po_sunk\<close> is what the sink has accepted.
\<close>

datatype 'r consumer =
    Ready
  | Running nat session_spec
  | Stopping nat session_spec
  | Persisting bool nat "'r session_receipt"
  | Finished
  | Sink_Failed nat
  | Interrupted nat
  | Ended_Cancelled

record 'r pool =
  po_queue :: "(nat \<times> session_spec) list"
  po_consumers :: "'r consumer list"
  po_receipts :: "'r session_receipt option list"
  po_sunk :: "(nat \<times> 'r session_receipt) list"

definition pool_init :: "cohort_plan \<Rightarrow> 'r pool" where
  "pool_init plan =
     \<lparr>po_queue = zip [0..<plan_count plan] (cp_sessions plan),
      po_consumers = replicate (nat (cp_concurrency plan)) Ready,
      po_receipts = replicate (plan_count plan) None, po_sunk = []\<rparr>"

definition at_consumer :: "'r pool \<Rightarrow> nat \<Rightarrow> 'r consumer \<Rightarrow> bool" where
  "at_consumer p i c \<longleftrightarrow> i < length (po_consumers p) \<and> po_consumers p ! i = c"

definition set_consumer :: "nat \<Rightarrow> 'r consumer \<Rightarrow> 'r pool \<Rightarrow> 'r pool" where
  "set_consumer i c p = p\<lparr>po_consumers := (po_consumers p)[i := c]\<rparr>"

text \<open>
  \<open>ends k\<close> and \<open>stops k\<close> are what the worker of session \<open>k\<close> does when it is left alone and when it is
  told to stop. A cancellation of the cohort reaches every consumer, each at an await of its own.
\<close>

inductive pool_step ::
  "string \<Rightarrow> (nat \<Rightarrow> 'r outcome) \<Rightarrow> (nat \<Rightarrow> 'r stop_outcome) \<Rightarrow> 'r pool \<Rightarrow> 'r pool \<Rightarrow> bool"
  for digest ends stops where
  take_session: "pool_step digest ends stops p (set_consumer i (Running k spec) (p\<lparr>po_queue := rest\<rparr>))"
    if "at_consumer p i Ready" "po_queue p = (k, spec) # rest"
| queue_empty: "pool_step digest ends stops p (set_consumer i Finished p)"
    if "at_consumer p i Ready" "po_queue p = []"
| settled: "pool_step digest ends stops p
      (set_consumer i (Persisting False k (settle_outcome digest spec (ends k))) p)"
    if "at_consumer p i (Running k spec)"
| persisted: "pool_step digest ends stops p
      (set_consumer i Ready (p\<lparr>po_receipts := (po_receipts p)[k := Some r], po_sunk := po_sunk p @ [(k, r)]\<rparr>))"
    if "at_consumer p i (Persisting False k r)"
| sink_failed: "pool_step digest ends stops p (set_consumer i (Sink_Failed k) p)"
    if "at_consumer p i (Persisting reraise k r)"
| cancel_ready: "pool_step digest ends stops p (set_consumer i Ended_Cancelled p)"
    if "at_consumer p i Ready"
| cancel_running: "pool_step digest ends stops p (set_consumer i (Stopping k spec) p)"
    if "at_consumer p i (Running k spec)"
| stopped: "pool_step digest ends stops p
      (set_consumer i (Persisting True k (settle_stop digest spec (stops k))) p)"
    if "at_consumer p i (Stopping k spec)"
| cancel_stopping: "pool_step digest ends stops p (set_consumer i (Interrupted k) p)"
    if "at_consumer p i (Stopping k spec)"
| cancel_persisting: "pool_step digest ends stops p (set_consumer i (Persisting True k r) p)"
    if "at_consumer p i (Persisting False k r)"
| persisted_cancelled: "pool_step digest ends stops p
      (set_consumer i Ended_Cancelled (p\<lparr>po_sunk := po_sunk p @ [(k, r)]\<rparr>))"
    if "at_consumer p i (Persisting True k r)"

inductive_cases pool_stepE: "pool_step d f g p q"

inductive pool_reachable ::
  "string \<Rightarrow> (nat \<Rightarrow> 'r outcome) \<Rightarrow> (nat \<Rightarrow> 'r stop_outcome) \<Rightarrow> cohort_plan \<Rightarrow> 'r pool \<Rightarrow> bool"
  for digest ends stops plan where
  start: "pool_reachable digest ends stops plan (pool_init plan)"
| step: "pool_reachable digest ends stops plan q"
    if "pool_reachable digest ends stops plan p" "pool_step digest ends stops p q"

text \<open>The end of \<open>run_cohort\<close>, when every consumer has returned.\<close>

definition cohort_result :: "cohort_plan \<Rightarrow> string \<Rightarrow> 'r pool \<Rightarrow> 'r cohort_receipt result" where
  "cohort_result plan digest p =
     (if None \<in> set (po_receipts p) then Inl (Assertion_Error ''cohort worker pool left an unsettled session'')
      else Inr (launch_identity.extend (launch_identity.truncate plan)
             (cohort_receipt.fields digest (map the (po_receipts p)))))"

section \<open>Correctness\<close>

fun holds :: "'r consumer \<Rightarrow> nat \<Rightarrow> bool" where
  "holds (Running k spec) j = (j = k)"
| "holds (Stopping k spec) j = (j = k)"
| "holds (Persisting reraise k r) j = (j = k)"
| "holds (Sink_Failed k) j = (j = k)"
| "holds (Interrupted k) j = (j = k)"
| "holds _ j = False"

text \<open>The receipt of session \<open>k\<close>, had it been run alone.\<close>

definition own_receipt :: "cohort_plan \<Rightarrow> string \<Rightarrow> (nat \<Rightarrow> 'r outcome) \<Rightarrow> nat \<Rightarrow> 'r session_receipt" where
  "own_receipt plan digest ends k = settle_outcome digest (cp_sessions plan ! k) (ends k)"

definition stop_receipt :: "cohort_plan \<Rightarrow> string \<Rightarrow> (nat \<Rightarrow> 'r stop_outcome) \<Rightarrow> nat \<Rightarrow> 'r session_receipt" where
  "stop_receipt plan digest stops k = settle_stop digest (cp_sessions plan ! k) (stops k)"

fun consumer_ok ::
  "cohort_plan \<Rightarrow> string \<Rightarrow> (nat \<Rightarrow> 'r outcome) \<Rightarrow> (nat \<Rightarrow> 'r stop_outcome) \<Rightarrow> 'r consumer \<Rightarrow> bool" where
  "consumer_ok plan digest ends stops (Running k spec) = (spec = cp_sessions plan ! k)"
| "consumer_ok plan digest ends stops (Stopping k spec) = (spec = cp_sessions plan ! k)"
| "consumer_ok plan digest ends stops (Persisting reraise k r) =
     (r = own_receipt plan digest ends k \<or> reraise \<and> r = stop_receipt plan digest stops k)"
| "consumer_ok plan digest ends stops _ = True"

definition started :: "cohort_plan \<Rightarrow> 'r pool \<Rightarrow> nat" where
  "started plan p = plan_count plan - length (po_queue p)"

definition held :: "'r pool \<Rightarrow> nat \<Rightarrow> bool" where
  "held p k \<longleftrightarrow> (\<exists>i < length (po_consumers p). holds (po_consumers p ! i) k)"

definition sunk :: "'r pool \<Rightarrow> nat \<Rightarrow> bool" where
  "sunk p k \<longleftrightarrow> k \<in> fst ` set (po_sunk p)"

text \<open>The queue is what is left of the plan, and a consumer returns only when nothing is left.\<close>

definition queue_ok :: "cohort_plan \<Rightarrow> 'r pool \<Rightarrow> bool" where
  "queue_ok plan p \<longleftrightarrow> length (po_consumers p) = nat (cp_concurrency plan) \<and> length (po_queue p) \<le> plan_count plan \<and>
     po_queue p = drop (started plan p) (zip [0..<plan_count plan] (cp_sessions plan)) \<and>
     (Finished \<in> set (po_consumers p) \<longrightarrow> po_queue p = [])"

text \<open>Every session that was started is with exactly one consumer or was accepted by the sink once.\<close>

definition apart :: "'r consumer list \<Rightarrow> bool" where
  "apart cs \<longleftrightarrow> (\<forall>i j k. i < length cs \<longrightarrow> j < length cs \<longrightarrow> holds (cs ! i) k \<longrightarrow> holds (cs ! j) k \<longrightarrow> i = j)"

definition account_ok :: "cohort_plan \<Rightarrow> 'r pool \<Rightarrow> bool" where
  "account_ok plan p \<longleftrightarrow> distinct (map fst (po_sunk p)) \<and> apart (po_consumers p) \<and>
     (\<forall>k. k < started plan p \<longleftrightarrow> held p k \<or> sunk p k) \<and> (\<forall>k. held p k \<longrightarrow> \<not> sunk p k)"

text \<open>Every receipt is the one of its session.\<close>

definition receipts_ok ::
  "cohort_plan \<Rightarrow> string \<Rightarrow> (nat \<Rightarrow> 'r outcome) \<Rightarrow> (nat \<Rightarrow> 'r stop_outcome) \<Rightarrow> 'r pool \<Rightarrow> bool" where
  "receipts_ok plan digest ends stops p \<longleftrightarrow> length (po_receipts p) = plan_count plan \<and>
     (\<forall>c \<in> set (po_consumers p). consumer_ok plan digest ends stops c) \<and>
     (\<forall>(k, r) \<in> set (po_sunk p). r = own_receipt plan digest ends k \<or> r = stop_receipt plan digest stops k) \<and>
     (\<forall>k < plan_count plan. \<forall>r. po_receipts p ! k = Some r \<longrightarrow>
        (k, r) \<in> set (po_sunk p) \<and> r = own_receipt plan digest ends k) \<and>
     (Ended_Cancelled \<notin> set (po_consumers p) \<longrightarrow>
        (\<forall>(k, r) \<in> set (po_sunk p). k < plan_count plan \<longrightarrow> po_receipts p ! k = Some r))"

lemma set_consumer_simps [simp]:
  "po_queue (set_consumer i c p) = po_queue p" "po_receipts (set_consumer i c p) = po_receipts p"
  "po_sunk (set_consumer i c p) = po_sunk p" "po_consumers (set_consumer i c p) = (po_consumers p)[i := c]"
  "started plan (set_consumer i c p) = started plan p" "sunk (set_consumer i c p) = sunk p"
  by (simp_all add: set_consumer_def started_def sunk_def fun_eq_iff)

lemma set_update_iff: "i < length xs \<Longrightarrow> c \<in> set (xs[i := x]) \<longleftrightarrow> c = x \<or> (\<exists>j < length xs. j \<noteq> i \<and> c = xs ! j)"
  by (auto simp: in_set_conv_nth nth_list_update)

lemma queue_ok_step:
  assumes "pool_step digest ends stops p q" "queue_ok plan p"
  shows "queue_ok plan q"
  using assms
proof (cases rule: pool_step.cases)
  case (take_session i k spec rest)
  let ?z = "zip [0..<plan_count plan] (cp_sessions plan)"
  have "length (po_queue p) = Suc (length rest)" using take_session(3) by simp
  moreover have "length (po_queue p) \<le> plan_count plan" using assms(2) unfolding queue_ok_def by blast
  ultimately have l: "started plan p < plan_count plan" "length rest < plan_count plan"
    "plan_count plan - length rest = Suc (started plan p)"
    by (simp_all add: started_def)
  have "drop (started plan p) ?z = (k, spec) # rest" using take_session assms(2) by (simp add: queue_ok_def)
  then have "rest = drop (Suc (started plan p)) ?z" by (metis drop_Suc list.sel(3) tl_drop)
  moreover have "Finished \<notin> set (po_consumers p)" using take_session(3) assms(2) by (auto simp: queue_ok_def)
  ultimately show ?thesis
    using l assms(2) unfolding take_session(1) queue_ok_def started_def
    by (auto dest: set_update_subset_insert [THEN subsetD])
qed (auto simp: queue_ok_def started_def dest: set_update_subset_insert [THEN subsetD])

definition others :: "'r pool \<Rightarrow> nat \<Rightarrow> nat \<Rightarrow> bool" where
  "others p i k \<longleftrightarrow> (\<exists>j < length (po_consumers p). j \<noteq> i \<and> holds (po_consumers p ! j) k)"

lemma held_split: "at_consumer p i c \<Longrightarrow> held p k \<longleftrightarrow> holds c k \<or> others p i k"
  unfolding at_consumer_def held_def others_def by blast

lemma held_update:
  assumes "po_consumers q = (po_consumers p)[i := c']" "at_consumer p i c"
  shows "held q k \<longleftrightarrow> holds c' k \<or> others p i k"
proof -
  have "at_consumer q i c'" using assms by (simp add: at_consumer_def)
  moreover have "others q i k = others p i k"
    unfolding others_def assms(1) by (metis length_list_update nth_list_update_neq)
  ultimately show ?thesis by (simp add: held_split)
qed

lemma apartD:
  "apart cs \<Longrightarrow> i < length cs \<Longrightarrow> j < length cs \<Longrightarrow> holds (cs ! i) k \<Longrightarrow> holds (cs ! j) k \<Longrightarrow> i = j"
  unfolding apart_def by blast

lemma apart_update:
  assumes "apart cs" "\<And>j k. holds c k \<Longrightarrow> j < length cs \<Longrightarrow> j \<noteq> i \<Longrightarrow> \<not> holds (cs ! j) k"
  shows "apart (cs[i := c])"
  unfolding apart_def
proof (intro allI impI)
  fix a b k
  assume ab: "a < length (cs[i := c])" "b < length (cs[i := c])" "holds (cs[i := c] ! a) k" "holds (cs[i := c] ! b) k"
  then show "a = b"
    using assms(2) apartD [OF assms(1), of a b k] by (cases "a = i"; cases "b = i") auto
qed

lemma apart_others:
  assumes "apart (po_consumers p)" "at_consumer p i c" "holds c k"
  shows "\<not> others p i k"
  using assms apartD [OF assms(1)] unfolding others_def at_consumer_def by blast

lemma account_okI:
  "distinct (map fst (po_sunk p)) \<Longrightarrow> apart (po_consumers p) \<Longrightarrow>
   (\<And>k. k < started plan p \<longleftrightarrow> held p k \<or> sunk p k) \<Longrightarrow> (\<And>k. held p k \<Longrightarrow> \<not> sunk p k) \<Longrightarrow> account_ok plan p"
  by (simp add: account_ok_def)

lemma account_okD:
  assumes "account_ok plan p"
  shows "distinct (map fst (po_sunk p))" "apart (po_consumers p)" "k < started plan p \<longleftrightarrow> held p k \<or> sunk p k"
    "held p k \<Longrightarrow> \<not> sunk p k"
  using assms by (simp_all add: account_ok_def)

lemma account_same:
  assumes "account_ok plan p" "at_consumer p i c" "holds c' = holds c"
  shows "account_ok plan (set_consumer i c' p)"
proof -
  have held: "held (set_consumer i c' p) k = held p k" for k
    using held_update [OF set_consumer_simps(4) assms(2), of c' k] held_split [OF assms(2)] assms(3) by simp
  have "\<not> holds (po_consumers p ! j) k" if "holds c' k" "j < length (po_consumers p)" "j \<noteq> i" for j k
    using apart_others [OF account_okD(2) [OF assms(1)] assms(2), of k] that assms(3) by (auto simp: others_def)
  then show ?thesis
    using account_okD [OF assms(1)] by (intro account_okI) (auto simp: held intro!: apart_update)
qed

lemma account_take:
  assumes "account_ok plan p" "at_consumer p i Ready" "po_queue p = (k, spec) # rest" "k = started plan p"
    "length (po_queue p) \<le> plan_count plan"
  shows "account_ok plan (set_consumer i (Running k spec) (p\<lparr>po_queue := rest\<rparr>))" (is "account_ok plan ?q")
proof -
  have i: "i < length (po_consumers p)" "po_consumers p ! i = Ready" using assms(2) by (auto simp: at_consumer_def)
  have held: "held ?q j \<longleftrightarrow> j = k \<or> held p j" for j
    using held_update [of ?q p i "Running k spec" Ready j] held_split [OF assms(2), of j] assms(2) by simp
  have new: "\<not> held p k" "\<not> sunk p k" using account_okD(3) [OF assms(1), of k] assms(4) by simp_all
  have started: "started plan ?q = Suc (started plan p)"
    using assms(3,5) by (simp add: started_def)
  have sunk: "sunk ?q j \<longleftrightarrow> sunk p j" for j by (simp add: sunk_def)
  show ?thesis
  proof (rule account_okI)
    show "apart (po_consumers ?q)"
      using apart_update [OF account_okD(2) [OF assms(1)], of "Running k spec" i] new(1) by (auto simp: held_def)
    show "j < started plan ?q \<longleftrightarrow> held ?q j \<or> sunk ?q j" for j
      unfolding started held sunk using account_okD(3) [OF assms(1), of j] assms(4) by (auto simp: less_Suc_eq)
    show "held ?q j \<Longrightarrow> \<not> sunk ?q j" for j
      unfolding held sunk using account_okD(4) [OF assms(1), of j] new by auto
  qed (use account_okD(1) [OF assms(1)] in simp)
qed

lemma account_persist:
  assumes "account_ok plan p" "at_consumer p i c" "holds c = (\<lambda>j. j = k)" "holds c' = (\<lambda>j. False)"
    and "started plan q = started plan p" "po_consumers q = (po_consumers p)[i := c']" "po_sunk q = po_sunk p @ [(k, r)]"
  shows "account_ok plan q"
proof -
  have i: "i < length (po_consumers p)" "po_consumers p ! i = c" using assms(2) by (auto simp: at_consumer_def)
  have k: "held p k" using i assms(3) by (auto simp: held_def)
  have "\<not> others p i k" using apart_others [OF account_okD(2) [OF assms(1)] assms(2)] assms(3) by simp
  then have held: "held q j \<longleftrightarrow> held p j \<and> j \<noteq> k" for j
    using held_update [OF assms(6,2), of j] held_split [OF assms(2), of j] assms(3,4) by auto
  have sunk: "sunk q j \<longleftrightarrow> sunk p j \<or> j = k" for j by (auto simp: sunk_def assms(7))
  show ?thesis
  proof (rule account_okI)
    show "distinct (map fst (po_sunk q))"
      using account_okD(1) [OF assms(1)] account_okD(4) [OF assms(1) k] by (simp add: sunk_def assms(7))
    show "apart (po_consumers q)"
      unfolding assms(6) using account_okD(2) [OF assms(1)] assms(4) by (auto intro!: apart_update)
    show "j < started plan q \<longleftrightarrow> held q j \<or> sunk q j" for j
      unfolding assms(5) held sunk using account_okD(3) [OF assms(1), of j] account_okD(3) [OF assms(1), of k] k by auto
    show "held q j \<Longrightarrow> \<not> sunk q j" for j
      unfolding held sunk using account_okD(4) [OF assms(1), of j] by auto
  qed
qed

lemma take_index:
  assumes "queue_ok plan p" "po_queue p = (k, spec) # rest"
  shows "k = started plan p \<and> spec = cp_sessions plan ! k \<and> k < plan_count plan"
proof -
  let ?z = "zip [0..<plan_count plan] (cp_sessions plan)"
  have d: "drop (started plan p) ?z = (k, spec) # rest" using assms by (simp add: queue_ok_def)
  have l: "length ?z = plan_count plan" by (simp add: plan_count_def)
  have lt: "started plan p < plan_count plan"
    using d l by (metis drop_all list.distinct(1) not_le)
  have "(k, spec) = ?z ! started plan p" using d l lt by (metis hd_drop_conv_nth list.sel(1))
  also have "\<dots> = (started plan p, cp_sessions plan ! started plan p)"
    using lt by (simp add: plan_count_def)
  finally show ?thesis using lt by simp
qed

lemma account_ok_step:
  assumes "pool_step digest ends stops p q" "queue_ok plan p" "account_ok plan p"
  shows "account_ok plan q"
  using assms(1)
proof (cases rule: pool_step.cases)
  case (take_session i k spec rest)
  then show ?thesis
    using account_take [OF assms(3) take_session(2,3)] take_index [OF assms(2) take_session(3)] assms(2)
    by (simp add: queue_ok_def)
next
  case (persisted i k r)
  show ?thesis
    unfolding persisted(1)
    by (rule account_persist [OF assms(3) persisted(2)]) (simp_all add: fun_eq_iff started_def)
next
  case (persisted_cancelled i k r)
  show ?thesis
    unfolding persisted_cancelled(1)
    by (rule account_persist [OF assms(3) persisted_cancelled(2)]) (simp_all add: fun_eq_iff started_def)
qed (auto intro!: account_same [OF assms(3)] simp: fun_eq_iff)

lemma at_consumer_mem: "at_consumer p i c \<Longrightarrow> c \<in> set (po_consumers p)"
  unfolding at_consumer_def by (metis nth_mem)

lemma update_keeps: "at_consumer p i c \<Longrightarrow> c \<noteq> x \<Longrightarrow> x \<in> set (po_consumers p) \<Longrightarrow> x \<in> set ((po_consumers p)[i := c'])"
  unfolding at_consumer_def by (metis in_set_conv_nth length_list_update nth_list_update_neq)

lemma receipts_same:
  assumes "receipts_ok plan digest ends stops p" "consumer_ok plan digest ends stops c"
    "po_receipts q = po_receipts p" "po_sunk q = po_sunk p" "po_consumers q = (po_consumers p)[i := c]"
    "at_consumer p i c'" "c' \<noteq> Ended_Cancelled"
  shows "receipts_ok plan digest ends stops q"
proof -
  have "\<forall>c \<in> set (po_consumers q). consumer_ok plan digest ends stops c"
    using assms(1,2) set_update_subset_insert [of "po_consumers p" i c] unfolding assms(5) receipts_ok_def by blast
  moreover have "Ended_Cancelled \<notin> set (po_consumers p)" if "Ended_Cancelled \<notin> set (po_consumers q)"
    using that update_keeps [OF assms(6,7)] unfolding assms(5) by blast
  ultimately show ?thesis using assms(1) unfolding receipts_ok_def assms(3,4) by blast
qed

lemma receipts_persist:
  assumes "receipts_ok plan digest ends stops p" "at_consumer p i (Persisting False k r)" "\<not> sunk p k" "k < plan_count plan"
  shows "receipts_ok plan digest ends stops
    (set_consumer i Ready (p\<lparr>po_receipts := (po_receipts p)[k := Some r], po_sunk := po_sunk p @ [(k, r)]\<rparr>))" (is "receipts_ok _ _ _ _ ?q")
proof -
  have "Persisting False k r \<in> set (po_consumers p)" using at_consumer_mem [OF assms(2)] .
  then have r: "r = own_receipt plan digest ends k" using assms(1) by (auto simp: receipts_ok_def)
  have l: "length (po_receipts p) = plan_count plan" using assms(1) by (simp add: receipts_ok_def)
  have "\<forall>c \<in> set (po_consumers ?q). consumer_ok plan digest ends stops c"
    using assms(1) set_update_subset_insert [of "po_consumers p" i Ready] unfolding receipts_ok_def by auto
  moreover have "Ended_Cancelled \<notin> set (po_consumers p)" if "Ended_Cancelled \<notin> set (po_consumers ?q)"
    using that update_keeps [OF assms(2), of Ended_Cancelled Ready] by auto
  moreover have "j \<noteq> k" if "(j, x) \<in> set (po_sunk p)" for j x using that assms(3) by (force simp: sunk_def)
  ultimately show ?thesis
    using assms(1) r l assms(4) unfolding receipts_ok_def by (auto simp: nth_list_update split: if_splits)
qed

lemma receipts_persist_cancelled:
  assumes "receipts_ok plan digest ends stops p" "at_consumer p i (Persisting True k r)"
  shows "receipts_ok plan digest ends stops (set_consumer i Ended_Cancelled (p\<lparr>po_sunk := po_sunk p @ [(k, r)]\<rparr>))" (is "receipts_ok _ _ _ _ ?q")
proof -
  have "Persisting True k r \<in> set (po_consumers p)" using at_consumer_mem [OF assms(2)] .
  then have r: "r = own_receipt plan digest ends k \<or> r = stop_receipt plan digest stops k"
    using assms(1) by (auto simp: receipts_ok_def)
  have "\<forall>c \<in> set (po_consumers ?q). consumer_ok plan digest ends stops c"
    using assms(1) set_update_subset_insert [of "po_consumers p" i Ended_Cancelled] unfolding receipts_ok_def by auto
  moreover have "Ended_Cancelled \<in> set (po_consumers ?q)"
    using assms(2) by (auto simp: at_consumer_def set_update_iff)
  ultimately show ?thesis using assms(1) r unfolding receipts_ok_def by auto
qed

lemma at_consumer_ok: "receipts_ok plan digest ends stops p \<Longrightarrow> at_consumer p i c \<Longrightarrow> consumer_ok plan digest ends stops c"
  by (auto simp: receipts_ok_def at_consumer_def)

lemma started_le: "started plan p \<le> plan_count plan"
  by (simp add: started_def)

lemma receipts_ok_step:
  assumes "pool_step digest ends stops p q" "queue_ok plan p" "account_ok plan p" "receipts_ok plan digest ends stops p"
  shows "receipts_ok plan digest ends stops q"
  using assms(1)
proof (cases rule: pool_step.cases)
  case (take_session i k spec rest)
  then show ?thesis
    using take_index [OF assms(2) take_session(3)] by (intro receipts_same [OF assms(4)]) auto
next
  case (persisted i k r)
  have "held p k" using persisted(2) held_split [OF persisted(2)] by simp
  then have "\<not> sunk p k" "k < plan_count plan"
    using account_okD(3,4) [OF assms(3), of k] started_le [of plan p] by auto
  then show ?thesis using receipts_persist [OF assms(4) persisted(2)] persisted(1) by simp
next
  case (persisted_cancelled i k r)
  then show ?thesis using receipts_persist_cancelled [OF assms(4)] by simp
next
  case (settled i k spec)
  then show ?thesis
    using at_consumer_ok [OF assms(4) settled(2)] by (intro receipts_same [OF assms(4)]) (auto simp: own_receipt_def)
next
  case (stopped i k spec)
  then show ?thesis
    using at_consumer_ok [OF assms(4) stopped(2)] by (intro receipts_same [OF assms(4)]) (auto simp: stop_receipt_def)
next
  case (cancel_persisting i k r)
  then show ?thesis
    using at_consumer_ok [OF assms(4) cancel_persisting(2)] by (intro receipts_same [OF assms(4)]) auto
next
  case (cancel_running i k spec)
  then show ?thesis
    using at_consumer_ok [OF assms(4) cancel_running(2)] by (intro receipts_same [OF assms(4)]) auto
next
  case (queue_empty i)
  then show ?thesis by (intro receipts_same [OF assms(4)]) auto
next
  case (sink_failed i reraise k r)
  then show ?thesis by (intro receipts_same [OF assms(4)]) auto
next
  case (cancel_ready i)
  then show ?thesis by (intro receipts_same [OF assms(4)]) auto
next
  case (cancel_stopping i k spec)
  then show ?thesis by (intro receipts_same [OF assms(4)]) auto
qed

lemma pool_init_ok:
  fixes ends :: "nat \<Rightarrow> 'r outcome"
  shows "queue_ok plan (pool_init plan :: 'r pool)" "account_ok plan (pool_init plan :: 'r pool)"
    "receipts_ok plan digest ends stops (pool_init plan)"
proof -
  let ?q = "pool_init plan :: 'r pool"
  have l: "length (po_queue ?q) = plan_count plan" by (simp add: pool_init_def plan_count_def)
  show "queue_ok plan ?q"
    using l by (simp add: queue_ok_def started_def) (simp add: pool_init_def)
  have "\<not> held ?q k" for k by (simp add: held_def pool_init_def)
  moreover have "\<not> sunk ?q k" for k by (simp add: sunk_def pool_init_def)
  moreover have "apart (po_consumers ?q)" by (simp add: apart_def pool_init_def)
  moreover have "po_sunk ?q = []" by (simp add: pool_init_def)
  moreover have "started plan ?q = 0" using l by (simp add: started_def)
  ultimately show "account_ok plan ?q" by (intro account_okI) simp_all
  show "receipts_ok plan digest ends stops ?q"
    by (simp add: receipts_ok_def pool_init_def)
qed

lemma pool_reachable_ok:
  assumes "pool_reachable digest ends stops plan p"
  shows "queue_ok plan p" "account_ok plan p" "receipts_ok plan digest ends stops p"
proof -
  from assms have "queue_ok plan p \<and> account_ok plan p \<and> receipts_ok plan digest ends stops p"
  proof (induction rule: pool_reachable.induct)
    case start
    then show ?case by (simp add: pool_init_ok)
  next
    case (step p q)
    then show ?case using queue_ok_step account_ok_step receipts_ok_step by blast
  qed
  then show "queue_ok plan p" "account_ok plan p" "receipts_ok plan digest ends stops p" by blast+
qed

section \<open>Every run ends\<close>

fun weight :: "'r consumer \<Rightarrow> nat" where
  "weight Ready = 1"
| "weight (Running k spec) = 7"
| "weight (Stopping k spec) = 6"
| "weight (Persisting reraise k r) = (if reraise then 3 else 4)"
| "weight _ = 0"

definition pool_measure :: "'r pool \<Rightarrow> nat" where
  "pool_measure p = 7 * length (po_queue p) + sum_list (map weight (po_consumers p))"

lemma sum_list_update_nat: "i < length xs \<Longrightarrow> sum_list (xs[i := y]) = sum_list xs + y - (xs ! i :: nat)"
proof (induction xs arbitrary: i)
  case (Cons x xs)
  have "xs ! j \<le> sum_list xs" if "j < length xs" for j using that by (simp add: elem_le_sum_list)
  then show ?case using Cons by (cases i) (auto simp: trans_le_add1)
qed simp

lemma weight_update:
  assumes "at_consumer p i c"
  shows "sum_list (map weight ((po_consumers p)[i := c'])) = sum_list (map weight (po_consumers p)) + weight c' - weight c"
  using assms sum_list_update_nat [of i "map weight (po_consumers p)" "weight c'"]
  by (simp add: at_consumer_def map_update)

lemma weight_le: "at_consumer p i c \<Longrightarrow> weight c \<le> sum_list (map weight (po_consumers p))"
  using elem_le_sum_list [of i "map weight (po_consumers p)"] by (auto simp: at_consumer_def)

lemma pool_step_decreases: "pool_step digest ends stops p q \<Longrightarrow> pool_measure q < pool_measure p"
  by (erule pool_step.cases) (force simp: pool_measure_def weight_update dest: weight_le split: if_splits)+

fun has_ended :: "'r consumer \<Rightarrow> bool" where
  "has_ended Finished = True"
| "has_ended (Sink_Failed k) = True"
| "has_ended (Interrupted k) = True"
| "has_ended Ended_Cancelled = True"
| "has_ended _ = False"

definition pool_over :: "'r pool \<Rightarrow> bool" where
  "pool_over p \<longleftrightarrow> list_all has_ended (po_consumers p)"

lemma not_over: "at_consumer p i c \<Longrightarrow> \<not> has_ended c \<Longrightarrow> \<not> pool_over p"
  by (auto simp: pool_over_def list_all_iff dest: at_consumer_mem)

lemma pool_progress: "\<not> pool_over p \<longleftrightarrow> (\<exists>q. pool_step digest ends stops p q)"
proof
  assume "\<not> pool_over p"
  then obtain i c where c: "at_consumer p i c" "\<not> has_ended c"
    by (auto simp: pool_over_def list_all_length at_consumer_def)
  show "\<exists>q. pool_step digest ends stops p q"
  proof (cases c)
    case Ready
    then show ?thesis
      using c take_session [of p i] queue_empty [of p i] by (cases "po_queue p") (blast, metis surj_pair)
  next
    case (Persisting reraise k r)
    then show ?thesis using c sink_failed by blast
  qed (use c settled stopped in \<open>auto, blast+\<close>)
next
  assume "\<exists>q. pool_step digest ends stops p q"
  then show "\<not> pool_over p"
    by (auto elim!: pool_step.cases dest: not_over)
qed

end
