(* ===== verification/Cohort_Properties.thy ===== *)
theory Cohort_Properties
  imports Cohort_Runner Examples
begin

text \<open>
  Properties of cohort execution: whatever the interleaving, a cohort that is left alone settles every session as
  if it had been run alone, every started session is accounted for, every run ends, and the two
  places where less is guaranteed: a second cancellation, and the size of an error message.
\<close>

section \<open>Settlement\<close>

lemma make_receipt_identity:
  "sr_session_id (make_receipt spec digest status x t m) = ss_session_id spec"
  "launch_identity.truncate (make_receipt spec digest status x t m) = launch_identity.truncate spec"
  by (simp_all add: make_receipt_def launch_identity.defs session_receipt.defs)

lemma settle_outcome_identity:
  "sr_session_id (settle_outcome digest spec e) = ss_session_id spec"
  "launch_identity.truncate (settle_outcome digest spec e) = launch_identity.truncate spec"
  by (auto simp: settle_outcome_def success_receipt_def failure_receipt_def make_receipt_identity
    split: outcome.splits option.splits)

lemma settle_stop_identity:
  "sr_session_id (settle_stop digest spec e) = ss_session_id spec"
  "launch_identity.truncate (settle_stop digest spec e) = launch_identity.truncate spec"
  by (auto simp: settle_stop_def success_receipt_def failure_receipt_def make_receipt_identity split: stop_outcome.splits)

lemma own_receipt_identity:
  "sr_session_id (own_receipt plan digest ends k) = ss_session_id (cp_sessions plan ! k)"
  "launch_identity.truncate (own_receipt plan digest ends k) = launch_identity.truncate (cp_sessions plan ! k)"
  by (simp_all add: own_receipt_def settle_outcome_identity)

lemma sunk_own:
  assumes "receipts_ok plan digest ends stops p" "Ended_Cancelled \<notin> set (po_consumers p)" "(k, r) \<in> set (po_sunk p)"
    "k < plan_count plan"
  shows "po_receipts p ! k = Some r" "r = own_receipt plan digest ends k"
  using assms unfolding receipts_ok_def by blast+

lemma sunkE: "sunk p k \<Longrightarrow> (\<And>r. (k, r) \<in> set (po_sunk p) \<Longrightarrow> thesis) \<Longrightarrow> thesis"
  by (auto simp: sunk_def)

lemma pool_finished:
  assumes "pool_reachable digest ends stops plan p" "1 \<le> cp_concurrency plan" "set (po_consumers p) \<subseteq> {Finished}"
  shows "map the (po_receipts p) = map (own_receipt plan digest ends) [0..<plan_count plan]"
    "None \<notin> set (po_receipts p)" "k < plan_count plan \<longleftrightarrow> sunk p k"
proof -
  note ok = pool_reachable_ok [OF assms(1)]
  have n: "length (po_consumers p) = nat (cp_concurrency plan)" using ok(1) by (simp add: queue_ok_def)
  with assms(2) have "po_consumers p \<noteq> []" by auto
  with assms(3) have "Finished \<in> set (po_consumers p)" by (cases "po_consumers p") auto
  then have "po_queue p = []" using ok(1) unfolding queue_ok_def by blast
  then have all: "started plan p = plan_count plan" by (simp add: started_def)
  have "\<not> held p k" for k using assms(3) by (force simp: held_def dest: nth_mem)
  then show sunk: "k < plan_count plan \<longleftrightarrow> sunk p k" for k using account_okD(3) [OF ok(2), of k] all by simp
  have l: "length (po_receipts p) = plan_count plan" using ok(3) by (simp add: receipts_ok_def)
  have "Ended_Cancelled \<notin> set (po_consumers p)" using assms(3) by auto
  then have some: "po_receipts p ! k = Some (own_receipt plan digest ends k)" if "k < plan_count plan" for k
    using that sunk [of k] sunk_own [OF ok(3)] by (metis sunkE)
  show "map the (po_receipts p) = map (own_receipt plan digest ends) [0..<plan_count plan]"
    using l some by (intro nth_equalityI) auto
  show "None \<notin> set (po_receipts p)" using l some by (auto simp: in_set_conv_nth)
qed

text \<open>C31: failure isolation: when the consumers of a cohort have all returned, the cohort receipt has exactly
  one receipt per session, in plan order, and it is the receipt that the session has when it is run
  alone: no failure, cancellation of a worker or interleaving of the others shows in it. The sink has
  accepted each of them once.\<close>

theorem cohort_settles:
  assumes "pool_reachable digest ends stops plan p" "plan_ok plan" "set (po_consumers p) \<subseteq> {Finished}"
  shows "(\<exists>c. cohort_result plan digest p = Inr c \<and>
      cr_receipts c = map (own_receipt plan digest ends) [0..<plan_count plan] \<and> cr_plan_sha256 c = digest \<and>
      map sr_session_id (cr_receipts c) = map ss_session_id (cp_sessions plan) \<and>
      (\<forall>r \<in> set (cr_receipts c). launch_identity.truncate r = launch_identity.truncate plan)) \<and>
    distinct (map fst (po_sunk p)) \<and>
    set (po_sunk p) = (\<lambda>k. (k, own_receipt plan digest ends k)) ` {..<plan_count plan}"
proof -
  note ok = pool_reachable_ok [OF assms(1)]
  have conc: "1 \<le> cp_concurrency plan" using assms(2) by (simp add: plan_ok_def)
  note fin = pool_finished [OF assms(1) conc assms(3)]
  have clean: "Ended_Cancelled \<notin> set (po_consumers p)" using assms(3) by auto
  have "r = own_receipt plan digest ends k \<and> k < plan_count plan" if "(k, r) \<in> set (po_sunk p)" for k r
  proof -
    have "sunk p k" using that by (force simp: sunk_def)
    then show ?thesis using sunk_own [OF ok(3) clean that] fin(3) [of k] by simp
  qed
  moreover have "(k, own_receipt plan digest ends k) \<in> set (po_sunk p)" if "k < plan_count plan" for k
    using that fin(3) [of k] sunk_own(2) [OF ok(3) clean] by (metis sunkE)
  ultimately have sunk: "set (po_sunk p) = (\<lambda>k. (k, own_receipt plan digest ends k)) ` {..<plan_count plan}"
    by (intro set_eqI) (auto simp: image_iff)
  let ?c = "launch_identity.extend (launch_identity.truncate plan) (cohort_receipt.fields digest (map the (po_receipts p)))"
  have "cohort_result plan digest p = Inr ?c" using fin(2) by (simp add: cohort_result_def)
  moreover have c: "cr_receipts ?c = map (own_receipt plan digest ends) [0..<plan_count plan]" "cr_plan_sha256 ?c = digest"
    "launch_identity.truncate ?c = launch_identity.truncate plan"
    unfolding fin(1) by (simp_all add: launch_identity.defs cohort_receipt.defs)
  moreover have "map sr_session_id (cr_receipts ?c) = map ss_session_id (cp_sessions plan)"
    unfolding c by (intro nth_equalityI) (simp_all add: plan_count_def own_receipt_identity)
  moreover have "\<forall>r \<in> set (cr_receipts ?c). launch_identity.truncate r = launch_identity.truncate plan"
    unfolding c using assms(2) by (auto simp: own_receipt_identity plan_ok_def plan_count_def)
  ultimately show ?thesis using sunk account_okD(1) [OF ok(2)] by blast
qed

text \<open>An undisturbed run exists and gets every session settled.\<close>

fun undisturbed :: "'r consumer \<Rightarrow> bool" where
  "undisturbed Ready = True"
| "undisturbed (Running k spec) = True"
| "undisturbed (Persisting reraise k r) = (\<not> reraise)"
| "undisturbed Finished = True"
| "undisturbed _ = False"

lemma undisturbed_step:
  assumes "list_all undisturbed (po_consumers p)" "\<not> set (po_consumers p) \<subseteq> {Finished}"
  shows "\<exists>q. pool_step digest ends stops p q \<and> list_all undisturbed (po_consumers q)"
proof -
  obtain c where mem: "c \<in> set (po_consumers p)" "c \<noteq> Finished" using assms(2) by blast
  then obtain i where c: "at_consumer p i c" "undisturbed c" "c \<noteq> Finished"
    using assms(1) by (metis at_consumer_def in_set_conv_nth list_all_iff)
  have upd: "list_all undisturbed ((po_consumers p)[i := c'])" if "undisturbed c'" for c'
    using that assms(1) set_update_subset_insert [of "po_consumers p" i c'] by (auto simp: list_all_iff)
  show ?thesis
  proof (cases c)
    case Ready
    show ?thesis
    proof (cases "po_queue p")
      case Nil
      then show ?thesis using queue_empty [of p i] c(1) Ready upd [of Finished] by (metis set_consumer_simps(4) undisturbed.simps(4))
    next
      case (Cons x rest)
      obtain k spec where "x = (k, spec)" by (cases x)
      then show ?thesis using take_session [of p i k spec rest] c(1) Ready Cons upd [of "Running k spec"] by fastforce
    qed
  next
    case (Running k spec)
    then show ?thesis using settled [of p i k spec] c(1) upd by fastforce
  next
    case (Persisting reraise k r)
    then show ?thesis using persisted [of p i k r] c(1,2) upd [of Ready] by fastforce
  qed (use c in auto)
qed

lemma undisturbed_run:
  assumes "pool_reachable digest ends stops plan p" "list_all undisturbed (po_consumers p)"
  shows "\<exists>q. pool_reachable digest ends stops plan q \<and> set (po_consumers q) \<subseteq> {Finished}"
  using assms
proof (induction "pool_measure p" arbitrary: p rule: less_induct)
  case less
  show ?case
  proof (cases "set (po_consumers p) \<subseteq> {Finished}")
    case False
    then obtain q where q: "pool_step digest ends stops p q" "list_all undisturbed (po_consumers q)"
      using undisturbed_step [OF less.prems(2)] by blast
    then show ?thesis
      using less.hyps [OF pool_step_decreases [OF q(1)] pool_reachable.step [OF less.prems(1) q(1)] q(2)] by blast
  qed (use less.prems in blast)
qed

lemma undisturbed_init: "list_all undisturbed (po_consumers (pool_init plan))"
  by (simp add: pool_init_def list_all_iff)

lemma cohort_settles_witness:
  "\<exists>p c. pool_reachable [] (\<lambda>k. if k = 0 then Self_Cancelled else Returned ()) (\<lambda>_. Unsettled) sample_plan p \<and>
     cohort_result sample_plan [] p = Inr c \<and> map sr_session_id (cr_receipts c) = map ss_session_id (cp_sessions sample_plan)"
proof -
  obtain p where p: "pool_reachable [] (\<lambda>k. if k = 0 then Self_Cancelled else Returned ()) (\<lambda>_. Unsettled) sample_plan p"
    "set (po_consumers p) \<subseteq> {Finished}"
    using undisturbed_run [OF pool_reachable.start undisturbed_init] by blast
  with cohort_settles [OF p(1) sample_plan_ok(1) p(2)] show ?thesis by blast
qed

section \<open>Accounting\<close>

text \<open>C32: no started session is lost sight of: sessions are started in the order of the plan, at most as many at
  a time as the concurrency, a started session is with exactly one consumer or was accepted by the sink
  exactly once, never both, and what the sink accepted is a receipt of that session; when the pool is
  over, a started session that the sink has not accepted is one whose sink failed or whose grace period
  was interrupted by a further cancellation.\<close>

theorem sessions_accounted:
  assumes "pool_reachable digest ends stops plan p"
  shows "distinct (map fst (po_sunk p)) \<and> (\<forall>k. k < started plan p \<longleftrightarrow> held p k \<or> sunk p k) \<and>
    (\<forall>k. held p k \<longrightarrow> \<not> sunk p k) \<and> card {k. held p k} \<le> nat (cp_concurrency plan) \<and>
    (\<forall>(k, r) \<in> set (po_sunk p). r = own_receipt plan digest ends k \<or> r = stop_receipt plan digest stops k) \<and>
    (pool_over p \<longrightarrow> (\<forall>k < started plan p. \<not> sunk p k \<longrightarrow>
       Sink_Failed k \<in> set (po_consumers p) \<or> Interrupted k \<in> set (po_consumers p)))"
proof -
  note ok = pool_reachable_ok [OF assms]
  have n: "length (po_consumers p) = nat (cp_concurrency plan)" using ok(1) by (simp add: queue_ok_def)
  let ?f = "\<lambda>i. THE k. holds (po_consumers p ! i) k"
  have one: "holds c k \<Longrightarrow> (THE k. holds c k) = k" for c :: "'a consumer" and k by (cases c) auto
  have "{k. held p k} \<subseteq> ?f ` {..<length (po_consumers p)}"
    by (force simp: held_def one intro: rev_image_eqI)
  then have "card {k. held p k} \<le> card (?f ` {..<length (po_consumers p)})" by (intro card_mono) auto
  also have "\<dots> \<le> length (po_consumers p)" using card_image_le [of "{..<length (po_consumers p)}" ?f] by simp
  finally have card: "card {k. held p k} \<le> nat (cp_concurrency plan)" using n by simp
  have over: "Sink_Failed k \<in> set (po_consumers p) \<or> Interrupted k \<in> set (po_consumers p)"
    if "pool_over p" "k < started plan p" "\<not> sunk p k" for k
  proof -
    have "held p k" using account_okD(3) [OF ok(2)] that by blast
    then obtain c where c: "c \<in> set (po_consumers p)" "holds c k" by (auto simp: held_def dest: nth_mem)
    with that(1) have "has_ended c" by (simp add: pool_over_def list_all_iff)
    then show ?thesis using c by (cases c) auto
  qed
  have "\<forall>(k, r) \<in> set (po_sunk p). r = own_receipt plan digest ends k \<or> r = stop_receipt plan digest stops k"
    using ok(3) unfolding receipts_ok_def by blast
  then show ?thesis using account_okD [OF ok(2)] card over by blast
qed

text \<open>C33: every run of the pool ends: a run has at most seven steps per session and one per consumer, and it can
  go on exactly as long as some consumer has not ended, so no consumer waits for another.\<close>

theorem pool_terminates:
  fixes ends :: "nat \<Rightarrow> 'r outcome"
  assumes "(pool_step digest ends stops ^^ n) (pool_init plan) p"
  shows "n \<le> 7 * plan_count plan + nat (cp_concurrency plan) \<and>
    ((\<exists>q. pool_step digest ends stops p q) \<longleftrightarrow> \<not> pool_over p)"
proof -
  have "(pool_step digest ends stops ^^ n) a b \<Longrightarrow> pool_measure b + n \<le> pool_measure a" for a b
  proof (induction n arbitrary: b)
    case (Suc n)
    then obtain c where "(pool_step digest ends stops ^^ n) a c" "pool_step digest ends stops c b" by auto
    then show ?case using Suc.IH pool_step_decreases by fastforce
  qed simp
  from this [OF assms] have "n \<le> pool_measure (pool_init plan :: 'r pool)" by linarith
  also have "\<dots> = 7 * plan_count plan + nat (cp_concurrency plan)"
    by (simp add: pool_measure_def pool_init_def plan_count_def sum_list_replicate)
  finally show ?thesis using pool_progress by blast
qed

lemma reachable_relpowp: "pool_reachable digest ends stops plan p \<Longrightarrow> \<exists>n. (pool_step digest ends stops ^^ n) (pool_init plan) p"
proof (induction rule: pool_reachable.induct)
  case start
  then show ?case by (metis relpowp_0_I)
next
  case (step p q)
  then show ?case by (metis relpowp_Suc_I)
qed

text \<open>One consumer of the sample cohort has taken its first session.\<close>

lemma first_taken:
  assumes "1 \<le> cp_concurrency plan" "cp_sessions plan \<noteq> []"
  shows "\<exists>spec. pool_reachable digest ends stops plan
      (set_consumer 0 (Running 0 spec) ((pool_init plan)\<lparr>po_queue := tl (po_queue (pool_init plan))\<rparr>)) \<and>
    pool_step digest ends stops (pool_init plan)
      (set_consumer 0 (Running 0 spec) ((pool_init plan)\<lparr>po_queue := tl (po_queue (pool_init plan))\<rparr>))"
proof -
  have at: "at_consumer (pool_init plan) 0 Ready" using assms(1) by (simp add: at_consumer_def pool_init_def)
  obtain spec rest where "cp_sessions plan = spec # rest" using assms(2) by (cases "cp_sessions plan") auto
  then have "po_queue (pool_init plan) = (0, spec) # tl (po_queue (pool_init plan))"
    by (simp add: pool_init_def plan_count_def upt_conv_Cons del: upt_Suc)
  note q = take_session [OF at this, of digest ends stops]
  from pool_reachable.step [OF pool_reachable.start q] q show ?thesis by (intro exI conjI)
qed

lemma sessions_accounted_witness:
  "\<exists>p. pool_reachable [] (\<lambda>_. Returned ()) (\<lambda>_. Unsettled) sample_plan p \<and> pool_over p \<and> sunk p 0"
proof -
  obtain p where p: "pool_reachable [] (\<lambda>_. Returned ()) (\<lambda>_. Unsettled) sample_plan p" "set (po_consumers p) \<subseteq> {Finished}"
    using undisturbed_run [OF pool_reachable.start undisturbed_init] by blast
  then have over: "pool_over p" "\<not> (\<exists>k. Sink_Failed k \<in> set (po_consumers p) \<or> Interrupted k \<in> set (po_consumers p))"
    by (auto simp: pool_over_def list_all_iff)
  have "1 \<le> cp_concurrency sample_plan" using sample_plan_ok(1) by (simp add: plan_ok_def)
  from pool_finished(3) [OF p(1) this p(2), of 0] have "0 < plan_count sample_plan \<Longrightarrow> sunk p 0" by simp
  moreover have "0 < plan_count sample_plan" by code_simp
  ultimately have "0 < started sample_plan p" using account_okD(3) [OF pool_reachable_ok(2) [OF p(1)], of 0] by simp
  moreover have "pool_over p \<longrightarrow> (\<forall>k < started sample_plan p. \<not> sunk p k \<longrightarrow>
       Sink_Failed k \<in> set (po_consumers p) \<or> Interrupted k \<in> set (po_consumers p))"
    using sessions_accounted [OF p(1)] by (elim conjE)
  ultimately have "sunk p 0" using over by simp
  with p(1) over(1) show ?thesis by blast
qed

lemma pool_terminates_witness:
  "\<exists>n p. (pool_step [] (\<lambda>_. Returned ()) (\<lambda>_. Unsettled) ^^ n) (pool_init sample_plan) p \<and> pool_over p \<and>
     n \<le> 7 * plan_count sample_plan + nat (cp_concurrency sample_plan)"
proof -
  obtain p where p: "pool_reachable [] (\<lambda>_. Returned ()) (\<lambda>_. Unsettled) sample_plan p" "set (po_consumers p) \<subseteq> {Finished}"
    using undisturbed_run [OF pool_reachable.start undisturbed_init] by blast
  obtain n where n: "(pool_step [] (\<lambda>_. Returned ()) (\<lambda>_. Unsettled) ^^ n) (pool_init sample_plan) p"
    using reachable_relpowp [OF p(1)] by blast
  have "pool_over p" using p(2) by (auto simp: pool_over_def list_all_iff)
  with n pool_terminates [OF n] show ?thesis by blast
qed

section \<open>A second cancellation\<close>

text \<open>C34: a cancellation that arrives while a consumer waits for a worker that it already told to stop ends
  the consumer at once, and the session never gets a receipt: in no state that can follow has the sink
  accepted one or does the table of receipts hold one. Had the worker stopped first, its stop receipt
  would have been on its way to the sink.\<close>

theorem second_cancellation_loses_receipt:
  assumes "pool_reachable digest ends stops plan p" "at_consumer p j (Stopping k spec)"
  shows "pool_step digest ends stops p (set_consumer j (Interrupted k) p) \<and>
    (\<forall>q. (pool_step digest ends stops)\<^sup>*\<^sup>* (set_consumer j (Interrupted k) p) q \<longrightarrow>
       at_consumer q j (Interrupted k) \<and> \<not> sunk q k \<and> po_receipts q ! k = None) \<and>
    pool_step digest ends stops p (set_consumer j (Persisting True k (settle_stop digest spec (stops k))) p)"
proof -
  let ?lost = "set_consumer j (Interrupted k) p"
  have go: "pool_step digest ends stops p ?lost" using assms(2) by (rule cancel_stopping)
  have "pool_reachable digest ends stops plan q \<and> at_consumer q j (Interrupted k)"
    if "(pool_step digest ends stops)\<^sup>*\<^sup>* ?lost q" for q
    using that
  proof (induction rule: rtranclp_induct)
    case base
    then show ?case using pool_reachable.step [OF assms(1) go] assms(2) by (simp add: at_consumer_def)
  next
    case (step q r)
    have "at_consumer r j (Interrupted k)"
      using step(2,3) by (cases rule: pool_step.cases) (auto simp: at_consumer_def nth_list_update set_consumer_def)
    then show ?case using step by (auto intro: pool_reachable.step)
  qed
  moreover have "\<not> sunk q k \<and> po_receipts q ! k = None"
    if q: "pool_reachable digest ends stops plan q" "at_consumer q j (Interrupted k)" for q
  proof -
    note ok = pool_reachable_ok [OF q(1)]
    have "held q k" using q(2) by (auto simp: held_def at_consumer_def)
    then have s: "\<not> sunk q k" "k < started plan q" using account_okD(3,4) [OF ok(2), of k] by blast+
    then have "k < plan_count plan" by (simp add: started_def)
    then have "po_receipts q ! k \<noteq> Some r" for r
      using ok(3) s(1) unfolding receipts_ok_def sunk_def by force
    with s(1) show ?thesis by auto
  qed
  ultimately show ?thesis using go stopped [OF assms(2)] by blast
qed

lemma second_cancellation_loses_receipt_witness:
  "\<exists>p spec. pool_reachable [] (\<lambda>_. Returned ()) (\<lambda>_. Unsettled) sample_plan p \<and> at_consumer p 0 (Stopping 0 spec) \<and>
     (\<forall>q. (pool_step [] (\<lambda>_. Returned ()) (\<lambda>_. Unsettled))\<^sup>*\<^sup>* (set_consumer 0 (Interrupted 0) p) q \<longrightarrow> \<not> sunk q 0)"
proof -
  have plan: "1 \<le> cp_concurrency sample_plan" "cp_sessions sample_plan \<noteq> []" by code_simp+
  obtain spec p where p: "p = set_consumer 0 (Running 0 spec) ((pool_init sample_plan)\<lparr>po_queue := tl (po_queue (pool_init sample_plan))\<rparr>)"
    "pool_reachable [] (\<lambda>_. Returned ()) (\<lambda>_. Unsettled) sample_plan p"
    using first_taken [OF plan] by blast
  have at: "at_consumer p 0 (Running 0 spec)" using plan(1) by (simp add: p(1) at_consumer_def pool_init_def)
  have "pool_reachable [] (\<lambda>_. Returned ()) (\<lambda>_. Unsettled) sample_plan (set_consumer 0 (Stopping 0 spec) p)"
    by (rule pool_reachable.step [OF p(2) cancel_running [OF at]])
  moreover have "at_consumer (set_consumer 0 (Stopping 0 spec) p) 0 (Stopping 0 spec)"
    using plan(1) by (simp add: p(1) at_consumer_def pool_init_def)
  ultimately show ?thesis using second_cancellation_loses_receipt by blast
qed

section \<open>Error messages\<close>

lemma decode_replace_Nil [simp]: "decode_replace [] = []"
  by (simp add: decode_replace.simps)

lemma decode_replace_ascii: "cc c < 128 \<Longrightarrow> decode_replace (c # s) = c # decode_replace s"
  by (simp add: decode_replace.simps [of "c # s"] utf8_next_ascii)

lemma decode_replace_ascii_list: "list_all (\<lambda>c. cc c < 128) s \<Longrightarrow> decode_replace (s @ t) = s @ decode_replace t"
  by (induction s) (simp_all add: decode_replace_ascii)

definition code_point :: "string \<Rightarrow> bool" where
  "code_point p \<longleftrightarrow> (\<exists>a. p = [a] \<and> cc a < 128) \<or> (\<exists>a b. p = [a, b] \<and> lead2 a b) \<or>
     (\<exists>a b c. p = [a, b, c] \<and> lead3 a b c) \<or> (\<exists>a b c d. p = [a, b, c, d] \<and> lead4 a b c d)"

lemma utf8_next_code_point:
  assumes "utf8_next s = Some r"
  shows "\<exists>p. s = p @ r \<and> utf8_next p = Some [] \<and> code_point p"
proof -
  consider (one) a where "s = a # r" "cc a < 128" | (two) a b where "s = a # b # r" "lead2 a b"
    | (three) a b c where "s = a # b # c # r" "lead3 a b c" | (four) a b c d where "s = a # b # c # d # r" "lead4 a b c d"
    using assms by (auto simp: code_point_def utf8_next_def split: list.splits if_splits)
  then show ?thesis
  proof cases
    case one
    then show ?thesis by (intro exI [of _ "[a]"]) (simp add: utf8_next_def code_point_def)
  next
    case two
    then show ?thesis by (intro exI [of _ "[a, b]"]) (simp add: utf8_next_def code_point_def lead2_def)
  next
    case three
    then show ?thesis by (intro exI [of _ "[a, b, c]"]) (auto simp: code_point_def utf8_next_def lead2_def lead3_def)
  next
    case four
    then show ?thesis by (intro exI [of _ "[a, b, c, d]"]) (auto simp: code_point_def utf8_next_def lead2_def lead3_def lead4_def)
  qed
qed

lemma decode_replace_next:
  assumes "utf8_next s = Some r"
  shows "decode_replace s = take (length s - length r) s @ decode_replace r"
proof -
  have "s \<noteq> []" using assms by (auto simp: utf8_next_def)
  with assms show ?thesis by (simp add: decode_replace.simps [of s])
qed

lemma decode_replace_point: "utf8_next p = Some [] \<Longrightarrow> decode_replace (p @ s) = p @ decode_replace s"
  using decode_replace_next [of "p @ s" s] utf8_next_append [of p "[]" s] by simp

lemma decode_replace_valid: "utf8_valid s \<Longrightarrow> decode_replace s = s"
proof (induction s rule: utf8_valid.induct)
  case (1 s)
  show ?case
  proof (cases "s = []")
    case False
    with "1.prems" obtain r where r: "utf8_next s = Some r" "utf8_valid r"
      by (auto simp: utf8_valid.simps [of s] split: option.splits)
    obtain p where "s = p @ r" "utf8_next p = Some []" using utf8_next_code_point [OF r(1)] by blast
    with "1.IH" [OF False r] show ?thesis by (simp add: decode_replace_point)
  qed simp
qed

definition ascii :: "string \<Rightarrow> bool" where
  "ascii t \<longleftrightarrow> list_all (\<lambda>c. cc c < 128) t"

text \<open>A code point that is cut in the middle becomes one replacement character.\<close>

lemma ascii_Cons: "ascii (x # t) \<Longrightarrow> \<not> is_cont x"
  by (simp add: ascii_def is_cont_def)

lemma lead_conts:
  "lead2 a b \<Longrightarrow> is_cont b" "lead3 a b c \<Longrightarrow> is_cont b \<and> is_cont c" "lead4 a b c d \<Longrightarrow> is_cont b \<and> is_cont c \<and> is_cont d"
  by (simp_all add: lead2_def lead3_def lead4_def)

lemma lead_apart:
  "lead3 a b c \<or> lead4 a b c d \<Longrightarrow> 128 \<le> cc a \<and> \<not> lead2 a x" "lead4 a b c d \<Longrightarrow> \<not> lead3 a x y"
  by (auto simp: lead2_def lead3_def lead4_def)

lemma utf8_next_broken:
  assumes "ascii t"
  shows "128 \<le> cc a \<Longrightarrow> utf8_next (a # t) = None" "lead3 a b c \<or> lead4 a b c d \<Longrightarrow> utf8_next (a # b # t) = None"
    "lead4 a b c d \<Longrightarrow> utf8_next (a # b # c # t) = None"
proof -
  have t: "t = [] \<or> (\<exists>x t'. t = x # t' \<and> \<not> is_cont x)" using assms ascii_Cons by (cases t) auto
  show "128 \<le> cc a \<Longrightarrow> utf8_next (a # t) = None"
    using t by (auto simp: utf8_next_def dest: lead_conts split: list.split)
  show "utf8_next (a # b # t) = None" if "lead3 a b c \<or> lead4 a b c d"
    using t lead_apart(1) [OF that] by (auto simp: utf8_next_def dest: lead_conts split: list.split)
  show "utf8_next (a # b # c # t) = None" if "lead4 a b c d"
    using t lead_apart(1) [of a b c d] lead_apart(2) [OF that] that by (auto simp: utf8_next_def dest: lead_conts)
qed

lemma bad_length_broken:
  assumes "ascii t"
  shows "bad_length (a # t) = 1" "lead3 a b c \<or> lead4 a b c d \<Longrightarrow> bad_length (a # b # t) = 2"
    "lead4 a b c d \<Longrightarrow> bad_length (a # b # c # t) = 3"
proof -
  have t: "t = [] \<or> (\<exists>x t'. t = x # t' \<and> \<not> is_cont x)" using assms ascii_Cons by (cases t) auto
  have second: "second_ok a b" if "lead3 a b c \<or> lead4 a b c d" for a b c d
    using that by (auto simp: second_ok_def lead3_def lead4_def)
  show "bad_length (a # t) = 1" using t by (auto simp: bad_length_def second_ok_def)
  show "bad_length (a # b # t) = 2" if "lead3 a b c \<or> lead4 a b c d"
    using t second [OF that] by (auto simp: bad_length_def)
  show "bad_length (a # b # c # t) = 3" if "lead4 a b c d"
    using second [of a b c d] lead_conts(3) [OF that] that by (auto simp: bad_length_def lead4_def)
qed

lemma decode_replace_ascii_id: "ascii t \<Longrightarrow> decode_replace t = t"
  using decode_replace_ascii_list [of t "[]"] by (simp add: ascii_def)

lemma decode_replace_broken:
  assumes "utf8_next p = None" "p \<noteq> []" "drop (bad_length p) p = t" "ascii t"
  shows "decode_replace p = replacement_char @ t"
  using assms by (simp add: decode_replace.simps [of p] decode_replace_ascii_id)

lemma decode_replace_cut:
  assumes "utf8_next s = Some r" "n < length s - length r" "ascii t"
  shows "length (decode_replace (take n s @ t)) \<le> n + 2 + length t"
proof -
  obtain p where p: "s = p @ r" and point: "code_point p"
    using utf8_next_code_point [OF assms(1)] by blast
  have n: "n < length p" "take n s = take n p" using assms(2) p by auto
  consider "n = 0" | a where "take n p = [a]" "128 \<le> cc a" "n = 1"
    | a b c d where "take n p = [a, b]" "lead3 a b c \<or> lead4 a b c d" "n = 2"
    | a b c d where "take n p = [a, b, c]" "lead4 a b c d" "n = 3"
    using point [unfolded code_point_def] n(1)
  proof (elim disjE exE conjE)
    fix a b assume *: "p = [a, b]" "lead2 a b"
    then have "n = 0 \<or> n = 1" using n(1) by auto
    with * show thesis using that(1,2) by (auto simp: lead2_def)
  next
    fix a b c assume *: "p = [a, b, c]" "lead3 a b c"
    then have "n = 0 \<or> n = 1 \<or> n = 2" using n(1) by auto
    with * show thesis using that(1,2,3) lead_apart(1) [of a b c] by auto
  next
    fix a b c d assume *: "p = [a, b, c, d]" "lead4 a b c d"
    then have "n = 0 \<or> n = 1 \<or> n = 2 \<or> n = 3" using n(1) by auto
    with * show thesis using that lead_apart(1) [of a b c d] by (auto simp: numeral_3_eq_3)
  qed (use that(1) n(1) in auto)
  then show ?thesis
  proof cases
    case 1
    then show ?thesis using assms(3) by (simp add: decode_replace_ascii_id)
  next
    case (2 a)
    then show ?thesis
      using decode_replace_broken [of "a # t" t] utf8_next_broken(1) [OF assms(3) 2(2)] bad_length_broken(1) [OF assms(3), of a] assms(3) n
      by (simp add: replacement_char_def)
  next
    case (3 a b c d)
    show ?thesis
      using 3(1,3) decode_replace_broken [of "a # b # t" t] utf8_next_broken(2) [OF assms(3) 3(2)]
        bad_length_broken(2) [OF assms(3) 3(2)] assms(3) n
      by (simp add: replacement_char_def)
  next
    case (4 a b c d)
    show ?thesis
      using 4(1,3) decode_replace_broken [of "a # b # c # t" t] utf8_next_broken(3) [OF assms(3) 4(2)]
        bad_length_broken(3) [OF assms(3) 4(2)] assms(3) n
      by (simp add: replacement_char_def)
  qed
qed

lemma decode_replace_take:
  assumes "utf8_valid s" "ascii t"
  shows "length (decode_replace (take n s @ t)) \<le> n + 2 + length t"
  using assms(1)
proof (induction s arbitrary: n rule: utf8_valid.induct)
  case (1 s)
  show ?case
  proof (cases "s = []")
    case True
    then show ?thesis using assms(2) by (simp add: decode_replace_ascii_id)
  next
    case False
    with "1.prems" obtain r where r: "utf8_next s = Some r" "utf8_valid r"
      by (auto simp: utf8_valid.simps [of s] split: option.splits)
    obtain p where p: "s = p @ r" "utf8_next p = Some []" using utf8_next_code_point [OF r(1)] by blast
    show ?thesis
    proof (cases "n < length p")
      case True
      then show ?thesis using decode_replace_cut [OF r(1) _ assms(2), of n] p(1) by simp
    next
      case False
      then have "take n s @ t = p @ (take (n - length p) r @ t)" using p(1) by simp
      then have "length (decode_replace (take n s @ t)) = length p + length (decode_replace (take (n - length p) r @ t))"
        using decode_replace_point [OF p(2)] by simp
      also have "\<dots> \<le> length p + (n - length p + 2 + length t)"
        using "1.IH" [OF \<open>s \<noteq> []\<close> r, of "n - length p"] by simp
      finally show ?thesis using False by simp
    qed
  qed
qed

text \<open>A text without lone surrogates is encoded as it is.\<close>

lemma utf8_replace_conts: "list_all is_cont u \<Longrightarrow> utf8_replace (u @ s) = u @ utf8_replace s"
proof (induction u)
  case (Cons x u)
  have "cc x \<noteq> 237" using Cons.prems by (simp add: is_cont_def)
  then have "utf8_replace (x # w) = x # utf8_replace w" for w
    by (cases w rule: utf8_replace.cases) auto
  with Cons show ?case by simp
qed simp

lemma utf8_replace_valid: "utf8_valid s \<Longrightarrow> utf8_replace s = s"
proof (induction s rule: utf8_valid.induct)
  case (1 s)
  show ?case
  proof (cases "s = []")
    case False
    with "1.prems" obtain r where r: "utf8_next s = Some r" "utf8_valid r"
      by (auto simp: utf8_valid.simps [of s] split: option.splits)
    obtain p where p: "s = p @ r" "code_point p" using utf8_next_code_point [OF r(1)] by blast
    obtain a u where a: "p = a # u" "list_all is_cont u" "cc a = 237 \<longrightarrow> u \<noteq> [] \<and> cc (hd u) < 160"
      using p(2) by (auto simp: code_point_def lead2_def lead3_def lead4_def)
    have "utf8_replace (a # w) = a # utf8_replace w" if "cc a = 237 \<longrightarrow> w \<noteq> [] \<and> cc (hd w) < 160" for w
      using that by (cases w rule: utf8_replace.cases) auto
    then have "utf8_replace (a # u @ r) = a # u @ utf8_replace r"
      using a(2,3) utf8_replace_conts [of u r] by (auto simp: hd_append)
    with p(1) a(1) "1.IH" [OF False r] show ?thesis by simp
  qed simp
qed

definition error_text :: "raised \<Rightarrow> string" where
  "error_text error = (case rs_text error of Some s \<Rightarrow> s | None \<Rightarrow> ''<exception message unavailable>'')"

text \<open>the message of a failure receipt: a text within the limit is kept as it is; a longer one is cut and
  the result exceeds the limit by at most two bytes. It does exceed it, when the cut falls in a code point.\<close>

theorem error_message_bound:
  assumes "utf8_valid (error_text error)"
  shows "length (safe_error_message error) \<le> MAXIMUM_ERROR_MESSAGE_BYTES + 2 \<and>
    (length (error_text error) \<le> MAXIMUM_ERROR_MESSAGE_BYTES \<longrightarrow> safe_error_message error = error_text error)"
proof -
  have message: "safe_error_message error = (if length (error_text error) \<le> MAXIMUM_ERROR_MESSAGE_BYTES then error_text error
      else decode_replace (take (MAXIMUM_ERROR_MESSAGE_BYTES - length truncation_suffix) (error_text error) @ truncation_suffix))"
    unfolding safe_error_message_def Let_def error_text_def [symmetric]
    by (simp add: utf8_replace_valid [OF assms] decode_replace_valid [OF assms])
  have "ascii truncation_suffix" "length truncation_suffix \<le> MAXIMUM_ERROR_MESSAGE_BYTES" by code_simp+
  then show ?thesis
    using decode_replace_take [OF assms, of truncation_suffix "MAXIMUM_ERROR_MESSAGE_BYTES - length truncation_suffix"]
    unfolding message by simp
qed

definition long_error :: raised where
  "long_error = \<lparr>rs_module = ''builtins'', rs_qualname = ''ValueError'',
     rs_text = Some (replicate 2033 (CHR ''a'') @ [char_of (195 :: nat), char_of (169 :: nat)] @ replicate 20 (CHR ''a''))\<rparr>"

lemma error_message_bound_witness:
  "length (safe_error_message long_error) \<le> MAXIMUM_ERROR_MESSAGE_BYTES + 2 \<and>
   MAXIMUM_ERROR_MESSAGE_BYTES < length (safe_error_message long_error)"
proof -
  let ?x = "replicate 2033 (CHR ''a'')" and ?y = "[char_of (195 :: nat), char_of (169 :: nat)] :: string"
    and ?z = "replicate 20 (CHR ''a'')"
  have a: "list_all (\<lambda>c. cc c < 128) ?x" "utf8_valid (?y @ ?z)"
    by (simp add: list_all_length cc_def) code_simp
  then have valid: "utf8_valid (error_text long_error)"
    using utf8_valid_append [OF utf8_valid_ascii_list [OF a(1)], of "?y @ ?z"] by (simp add: error_text_def long_error_def)
  have "safe_error_message long_error = decode_replace (?x @ [char_of (195 :: nat)] @ truncation_suffix)"
    using utf8_replace_valid [OF valid]
    by (simp add: safe_error_message_def error_text_def long_error_def MAXIMUM_ERROR_MESSAGE_BYTES_def truncation_suffix_def)
  also have "\<dots> = ?x @ decode_replace ([char_of (195 :: nat)] @ truncation_suffix)"
    by (rule decode_replace_ascii_list [OF a(1)])
  finally have "length (safe_error_message long_error) = 2033 + length (decode_replace ([char_of (195 :: nat)] @ truncation_suffix))"
    by simp
  moreover have "length (decode_replace ([char_of (195 :: nat)] @ truncation_suffix)) = 17" by code_simp
  ultimately show ?thesis using error_message_bound [OF valid] by (simp add: MAXIMUM_ERROR_MESSAGE_BYTES_def)
qed

end
