(* ===== verification/Legacy_Frontier.thy ===== *)
theory Legacy_Frontier
  imports World_Correct
begin

text \<open>
  The read-only grouping of a snapshot by problem, \<open>world/legacy_frontier.py\<close>: target cards define the
  problems, every other record is related to the problems that it names or is unscoped. The lemmas show that
  the grouping loses and invents nothing.
\<close>

definition LEGACY_TARGET_CARD_SCHEMA :: string where
  "LEGACY_TARGET_CARD_SCHEMA = ''PMW_FRONTIER_TARGET_CARD_1''"

definition is_TARGET_CARD_REF :: "string \<Rightarrow> bool" where
  "is_TARGET_CARD_REF = matches_prefixed_sha256 ''target-card/sha256/''"

abbreviation frontier_error :: "string \<Rightarrow> exn" where
  "frontier_error \<equiv> world_error ''LEGACY_FRONTIER_VIEW_INVALID''"

record legacy_problem =
  lp_problem_id :: string
  lp_target_card_admission_ref :: string
  lp_target_card_ref :: string
  lp_research_admission_refs :: "string list"
  lp_card_bytes :: string

definition lp_card :: "legacy_problem \<Rightarrow> (string \<times> pyval) list result" where
  "lp_card p = (case json_loads plain_hooks (lp_card_bytes p) of
      Some (PDict d) \<Rightarrow> Inr d
    | Some _ \<Rightarrow> Inl (Assertion_Error ''legacy target card is not an object'')
    | None \<Rightarrow> Inl (Value_Error ''legacy target card''))"

definition legacy_problem_to_value :: "legacy_problem \<Rightarrow> pyval result" where
  "legacy_problem_to_value p = rbind (lp_card p) (\<lambda>card. Inr (PDict
     [(''problem_id'', PStr (lp_problem_id p)),
      (''target_card_admission_ref'', PStr (lp_target_card_admission_ref p)),
      (''target_card_ref'', PStr (lp_target_card_ref p)), (''card'', PDict card),
      (''research_admission_refs'', texts (lp_research_admission_refs p))]))"

record legacy_view =
  lv_snapshot_ref :: string
  lv_problems :: "legacy_problem list"
  lv_unscoped_admission_refs :: "string list"
  lv_schema_counts :: "(string \<times> nat) list"

definition schema_counts_value :: "legacy_view \<Rightarrow> pyval" where
  "schema_counts_value view = PDict (map (\<lambda>(schema, n). (schema, PInt (int n))) (lv_schema_counts view))"

definition view_problem :: "legacy_view \<Rightarrow> string \<Rightarrow> legacy_problem result" where
  "view_problem view problem_id = (case find (\<lambda>p. lp_problem_id p = problem_id) (lv_problems view) of
      Some p \<Rightarrow> Inr p
    | None \<Rightarrow> Inl (Key_Error problem_id))"

definition legacy_view_to_value :: "legacy_view \<Rightarrow> pyval result" where
  "legacy_view_to_value view = rbind (rmap legacy_problem_to_value (lv_problems view)) (\<lambda>problems. Inr (PDict
     [(''schema'', PStr ''PMW_LEGACY_FRONTIER_VIEW_1''), (''snapshot_ref'', PStr (lv_snapshot_ref view)),
      (''problems'', PList problems), (''unscoped_admission_refs'', texts (lv_unscoped_admission_refs view)),
      (''schema_counts'', schema_counts_value view),
      (''semantics'', PStr ''READ_ONLY_GROUPING_OF_EXACT_PMW_RECORDS_NO_TRUTH_RANKING'')]))"

section \<open>Reading a row\<close>

definition problem_text :: "pyval \<Rightarrow> string option" where
  "problem_text value = (case value of PStr s \<Rightarrow> if is_PROBLEM_ID s then Some s else None | _ \<Rightarrow> None)"

definition content_targets :: "world_admission \<Rightarrow> string list" where
  "content_targets row = (case wa_content row of
      PDict content \<Rightarrow>
        if dget ''schema'' content = PStr RESEARCH_RECORD_SCHEMA
        then (case dget ''problem_ids'' content of
            PList values \<Rightarrow> sort (remdups (List.map_filter problem_text values))
          | _ \<Rightarrow> [])
        else (case problem_text (dget ''target_id'' content) of
            Some value \<Rightarrow> [value]
          | None \<Rightarrow> (case problem_text (dget ''predecessor_target_id'' content) of
              Some value \<Rightarrow> [value]
            | None \<Rightarrow> []))
    | _ \<Rightarrow> [])"

definition target_card :: "world_admission \<Rightarrow> (string \<times> string \<times> (string \<times> pyval) list) option result" where
  "target_card row = (case wa_content row of
      PDict content \<Rightarrow>
        if dget ''schema'' content \<noteq> PStr LEGACY_TARGET_CARD_SCHEMA then Inr None
        else (case (problem_text (dget ''target_id'' content), dget ''card'' content, dget ''target_card_sha256'' content) of
            (Some problem_id, PDict body, PStr digest) \<Rightarrow>
              if \<not> matches_sha256 digest then Inl (frontier_error ''target card fields'')
              else
                let expected = ''target-card/sha256/'' @ digest;
                    found = (if dget ''target_card_ref'' body = PNone then PStr expected else dget ''target_card_ref'' body)
                in (case found of
                    PStr ref \<Rightarrow>
                      if \<not> is_TARGET_CARD_REF ref \<or> ref \<noteq> expected then Inl (frontier_error ''target card identity'')
                      else Inr (Some (problem_id, ref, body))
                  | _ \<Rightarrow> Inl (frontier_error ''target card identity''))
          | _ \<Rightarrow> Inl (frontier_error ''target card fields''))
    | _ \<Rightarrow> Inr None)"

section \<open>The view\<close>

type_synonym cards = "(string \<times> string \<times> string \<times> (string \<times> pyval) list) list"

definition count_key :: "world_admission \<Rightarrow> string" where
  "count_key row = (case wa_schema row of
      Some schema \<Rightarrow> if schema = [] then ''NON_JSON_OR_UNTYPED'' else schema
    | None \<Rightarrow> ''NON_JSON_OR_UNTYPED'')"

definition count_schema :: "string \<Rightarrow> (string \<times> nat) list \<Rightarrow> (string \<times> nat) list" where
  "count_schema key counts = AList.update key (Suc (case map_of counts key of Some n \<Rightarrow> n | None \<Rightarrow> 0)) counts"

text \<open>The first loop, over the cards found so far and the schema counts.\<close>

fun scan_cards :: "world_admission list \<Rightarrow> cards \<Rightarrow> (string \<times> nat) list \<Rightarrow> (cards \<times> (string \<times> nat) list) result" where
  "scan_cards [] cards counts = Inr (cards, counts)"
| "scan_cards (row # rows) cards counts =
     (let counts = count_schema (count_key row) counts
      in rbind (target_card row) (\<lambda>selected. case selected of
          None \<Rightarrow> scan_cards rows cards counts
        | Some (problem_id, ref, body) \<Rightarrow>
            if problem_id \<in> set (keys cards) then Inl (frontier_error ''duplicate target card'')
            else scan_cards rows (cards @ [(problem_id, wa_admission_ref row, ref, body)]) counts))"

definition card_refs :: "cards \<Rightarrow> string set" where
  "card_refs cards = set (map (\<lambda>(_, admission_ref, _). admission_ref) cards)"

text \<open>The second loop: the sets of related records by problem, and the unscoped ones.\<close>

definition relate_row :: "cards \<Rightarrow> world_admission \<Rightarrow> (string \<times> string set) list \<times> string set \<Rightarrow>
    (string \<times> string set) list \<times> string set" where
  "relate_row cards row = (\<lambda>(related, unscoped).
     if wa_admission_ref row \<in> card_refs cards then (related, unscoped)
     else
       let targets = filter (\<lambda>target. target \<in> set (keys cards)) (content_targets row)
       in if targets = [] then (related, insert (wa_admission_ref row) unscoped)
          else (map (\<lambda>(problem_id, refs).
                 (problem_id, if problem_id \<in> set targets then insert (wa_admission_ref row) refs else refs)) related, unscoped))"

definition make_problem :: "(string \<times> string set) list \<Rightarrow> string \<times> string \<times> string \<times> (string \<times> pyval) list \<Rightarrow>
    legacy_problem result" where
  "make_problem related = (\<lambda>(problem_id, admission_ref, ref, body).
     rbind (canonical_json (PDict body)) (\<lambda>card_bytes.
       Inr \<lparr>lp_problem_id = problem_id, lp_target_card_admission_ref = admission_ref, lp_target_card_ref = ref,
         lp_research_admission_refs = sorted_list_of_set (case map_of related problem_id of Some refs \<Rightarrow> refs | None \<Rightarrow> {}),
         lp_card_bytes = card_bytes\<rparr>))"

definition legacy_view_of :: "string \<Rightarrow> world_admission list \<Rightarrow> legacy_view result" where
  "legacy_view_of selected_snapshot rows =
     rbind (scan_cards rows [] []) (\<lambda>(cards, schema_counts).
       if cards = [] then Inl (frontier_error ''no target cards'')
       else
         let (related, unscoped) =
           fold (relate_row cards) rows (map (\<lambda>(problem_id, _). (problem_id, {})) cards, {})
         in rbind (rmap (make_problem related) (sort_key fst cards)) (\<lambda>problems.
              Inr \<lparr>lv_snapshot_ref = selected_snapshot, lv_problems = problems,
                lv_unscoped_admission_refs = sorted_list_of_set unscoped,
                lv_schema_counts = sort_key fst schema_counts\<rparr>))"

definition build_legacy_frontier_view :: "'b core \<Rightarrow> pyval \<Rightarrow> ('b, legacy_view) world_op" where
  "build_legacy_frontier_view core snapshot_ref w = (case select_snapshot core ''snapshot_ref'' snapshot_ref w of
      Inl e \<Rightarrow> (Inl e, w)
    | Inr selected_snapshot \<Rightarrow>
        op_bind (world_records core (PStr selected_snapshot)) (\<lambda>rows. op_return (legacy_view_of selected_snapshot rows)) w)"

section \<open>Correctness\<close>

text \<open>The card of a row, as the first loop keeps it, and the problems that a row is related to.\<close>

definition row_card :: "world_admission \<Rightarrow> (string \<times> string \<times> string \<times> (string \<times> pyval) list) option" where
  "row_card row = (case target_card row of
      Inr (Some (problem_id, ref, body)) \<Rightarrow> Some (problem_id, wa_admission_ref row, ref, body)
    | _ \<Rightarrow> None)"

definition targets :: "cards \<Rightarrow> world_admission \<Rightarrow> string list" where
  "targets cards row = filter (\<lambda>target. target \<in> set (keys cards)) (content_targets row)"

lemma scan_cards_Inr:
  assumes "scan_cards rows cards counts = Inr (cards', counts')" "distinct (keys cards)"
  shows "cards' = cards @ List.map_filter row_card rows \<and> distinct (keys cards') \<and>
    counts' = fold (count_schema \<circ> count_key) rows counts \<and> (\<forall>row \<in> set rows. \<exists>x. target_card row = Inr x)"
  using assms
proof (induction rows arbitrary: cards counts)
  case (Cons r rows)
  obtain x where x: "target_card r = Inr x"
    using Cons.prems(1) by (cases "target_card r") (auto simp: Let_def)
  show ?case
  proof (cases x)
    case None
    then show ?thesis using Cons x by (auto simp: Let_def row_card_def map_filter_simps)
  next
    case (Some y)
    obtain problem_id ref body where y: "y = (problem_id, ref, body)" by (cases y)
    have "problem_id \<notin> set (keys cards)" using Cons.prems(1) x Some y by (auto simp: Let_def)
    then have dist: "distinct (keys (cards @ [(problem_id, wa_admission_ref r, ref, body)]))"
      using Cons.prems(2) by (simp add: keys_def)
    have rest: "scan_cards rows (cards @ [(problem_id, wa_admission_ref r, ref, body)])
        (count_schema (count_key r) counts) = Inr (cards', counts')"
      using Cons.prems(1) x Some y \<open>problem_id \<notin> _\<close> by (simp add: Let_def)
    have "row_card r = Some (problem_id, wa_admission_ref r, ref, body)" using x Some y by (simp add: row_card_def)
    then show ?thesis using Cons.IH [OF rest dist] x by (auto simp: map_filter_simps)
  qed
qed (simp add: map_filter_simps)

lemma map_of_update_sum:
  "sum_list (map snd (AList.update k (Suc (case map_of d k of Some n \<Rightarrow> n | None \<Rightarrow> 0)) d)) = Suc (sum_list (map snd d))"
  by (induction d) (auto split: option.splits)

lemma counts_add_up: "sum_list (map snd (fold (count_schema \<circ> count_key) rows counts)) = sum_list (map snd counts) + length rows"
proof (induction rows arbitrary: counts)
  case (Cons r rows)
  show ?case using Cons [of "count_schema (count_key r) counts"]
    by (simp add: count_schema_def map_of_update_sum)
qed simp

lemma count_exact:
  "map_of (fold (count_schema \<circ> count_key) rows counts) k =
     (if \<exists>row \<in> set rows. count_key row = k
      then Some ((case map_of counts k of Some n \<Rightarrow> n | None \<Rightarrow> 0) + length (filter (\<lambda>row. count_key row = k) rows))
      else map_of counts k)"
proof (induction rows arbitrary: counts)
  case (Cons r rows)
  show ?case using Cons [of "count_schema (count_key r) counts"]
    by (auto simp: count_schema_def update_conv' split: option.splits)
qed simp

lemma counts_distinct:
  "distinct (map fst counts) \<Longrightarrow> distinct (map fst (fold (count_schema \<circ> count_key) rows counts))"
  by (induction rows arbitrary: counts) (simp_all add: count_schema_def distinct_update)

lemma row_card_ref: "row_card row = Some (problem_id, admission_ref, ref, body) \<Longrightarrow> admission_ref = wa_admission_ref row"
  by (auto simp: row_card_def split: sum.splits option.splits)

lemma relate_fold:
  "fold (relate_row cards) rows (related, unscoped) =
     (map (\<lambda>(problem_id, refs). (problem_id, refs \<union> {wa_admission_ref row | row. row \<in> set rows \<and>
          wa_admission_ref row \<notin> card_refs cards \<and> problem_id \<in> set (targets cards row)})) related,
      unscoped \<union> {wa_admission_ref row | row. row \<in> set rows \<and> wa_admission_ref row \<notin> card_refs cards \<and>
          targets cards row = []})"
proof (induction rows arbitrary: related unscoped)
  case (Cons r rows)
  show ?case
  proof (cases "wa_admission_ref r \<in> card_refs cards")
    case True
    then have "relate_row cards r (related, unscoped) = (related, unscoped)" by (simp add: relate_row_def)
    with Cons True show ?thesis by (auto simp: case_prod_unfold)
  next
    case False
    show ?thesis
    proof (cases "targets cards r = []")
      case True
      with False have "relate_row cards r (related, unscoped) = (related, insert (wa_admission_ref r) unscoped)"
        by (simp add: relate_row_def targets_def Let_def)
      with Cons True False show ?thesis by (auto simp: case_prod_unfold)
    next
      case nonempty: False
      with False have "relate_row cards r (related, unscoped) = (map (\<lambda>(problem_id, refs).
          (problem_id, if problem_id \<in> set (targets cards r) then insert (wa_admission_ref r) refs else refs)) related, unscoped)"
        by (simp add: relate_row_def targets_def Let_def)
      with Cons False nonempty show ?thesis by (auto simp: case_prod_unfold)
    qed
  qed
qed (auto simp: case_prod_unfold)

text \<open>The grouping of a snapshot, as a specification.\<close>

definition view_ids :: "legacy_view \<Rightarrow> string list" where
  "view_ids view = map lp_problem_id (lv_problems view)"

definition card_refs_of :: "legacy_view \<Rightarrow> string set" where
  "card_refs_of view = lp_target_card_admission_ref ` set (lv_problems view)"

definition groups :: "world_admission list \<Rightarrow> legacy_view \<Rightarrow> bool" where
  "groups rows view \<longleftrightarrow> sorted (view_ids view) \<and> distinct (view_ids view) \<and> lv_problems view \<noteq> [] \<and>
     card_refs_of view = {wa_admission_ref row | row. row \<in> set rows \<and> row_card row \<noteq> None} \<and>
     (\<forall>p \<in> set (lv_problems view). set (lp_research_admission_refs p) =
        {wa_admission_ref row | row. row \<in> set rows \<and> wa_admission_ref row \<notin> card_refs_of view \<and>
          lp_problem_id p \<in> set (content_targets row)}) \<and>
     set (lv_unscoped_admission_refs view) =
        {wa_admission_ref row | row. row \<in> set rows \<and> wa_admission_ref row \<notin> card_refs_of view \<and>
          (\<forall>problem_id \<in> set (view_ids view). problem_id \<notin> set (content_targets row))} \<and>
     (\<forall>n k. (k, n) \<in> set (lv_schema_counts view) \<longrightarrow> n = length (filter (\<lambda>row. count_key row = k) rows)) \<and>
     sum_list (map snd (lv_schema_counts view)) = length rows"

lemma make_problem_Inr:
  assumes "make_problem related (problem_id, admission_ref, ref, body) = Inr p"
  shows "lp_problem_id p = problem_id \<and> lp_target_card_admission_ref p = admission_ref \<and> lp_target_card_ref p = ref \<and>
    lp_research_admission_refs p = sorted_list_of_set (case map_of related problem_id of Some refs \<Rightarrow> refs | None \<Rightarrow> {}) \<and>
    canonical_json (PDict body) = Inr (lp_card_bytes p)"
  using assms by (auto simp: make_problem_def result_dests)

lemma make_problems_Inr:
  "rmap (make_problem related) cards = Inr problems \<Longrightarrow>
     map lp_problem_id problems = map fst cards \<and>
     map lp_target_card_admission_ref problems = map (\<lambda>(_, admission_ref, _). admission_ref) cards"
proof (induction cards arbitrary: problems)
  case (Cons c cards)
  obtain problem_id admission_ref ref body where c: "c = (problem_id, admission_ref, ref, body)" by (cases c)
  from Cons.prems obtain p ps where "problems = p # ps" "make_problem related c = Inr p" "rmap (make_problem related) cards = Inr ps"
    by (auto simp: result_dests)
  with Cons.IH [of ps] make_problem_Inr [of related problem_id admission_ref ref body p] c show ?case by auto
qed simp

lemma map_of_map_snd: "map_of (map (\<lambda>(k, v). (k, f k v)) d) k = map_option (f k) (map_of d k)"
  by (induction d) auto

lemma legacy_view_groups:
  assumes "legacy_view_of selected rows = Inr view"
  shows "groups rows view" "lv_snapshot_ref view = selected"
proof -
  obtain cards counts problems where cards: "scan_cards rows [] [] = Inr (cards, counts)" "cards \<noteq> []"
    and problems: "rmap (make_problem (fst (fold (relate_row cards) rows (map (\<lambda>(problem_id, _). (problem_id, {})) cards, {}))))
        (sort_key fst cards) = Inr problems"
    and view: "view = \<lparr>lv_snapshot_ref = selected, lv_problems = problems,
        lv_unscoped_admission_refs =
          sorted_list_of_set (snd (fold (relate_row cards) rows (map (\<lambda>(problem_id, _). (problem_id, {})) cards, {}))),
        lv_schema_counts = sort_key fst counts\<rparr>"
    using assms by (auto simp: legacy_view_of_def result_dests case_prod_unfold Let_def split: if_splits)
  show "lv_snapshot_ref view = selected" by (simp add: view)
  have scan: "cards = List.map_filter row_card rows" "distinct (keys cards)" "counts = fold (count_schema \<circ> count_key) rows []"
    using scan_cards_Inr [OF cards(1)] by auto
  let ?id = "\<lambda>row problem_id. problem_id \<in> set (targets cards row)"
  let ?new = "\<lambda>problem_id. {wa_admission_ref row | row. row \<in> set rows \<and> wa_admission_ref row \<notin> card_refs cards \<and> ?id row problem_id}"
  have related: "fst (fold (relate_row cards) rows (map (\<lambda>(problem_id, _). (problem_id, {})) cards, {})) =
      map (\<lambda>(problem_id, _). (problem_id, ?new problem_id)) cards"
    by (simp add: relate_fold case_prod_unfold comp_def)
  have ids: "view_ids view = map fst (sort_key fst cards)"
    and refs: "map lp_target_card_admission_ref problems = map (\<lambda>(_, admission_ref, _). admission_ref) (sort_key fst cards)"
    using make_problems_Inr [OF problems] by (simp_all add: view_ids_def view)
  have "lp_target_card_admission_ref ` set problems = set (map (\<lambda>(_, admission_ref, _). admission_ref) cards)"
    unfolding set_map [symmetric] refs by simp
  then have card_refs: "card_refs_of view = card_refs cards" by (simp add: card_refs_of_def view card_refs_def)
  have known: "set (view_ids view) = set (keys cards)" unfolding ids by (simp add: keys_def)
  have research: "set (lp_research_admission_refs p) = ?new (lp_problem_id p)" "lp_problem_id p \<in> set (keys cards)"
    if p: "p \<in> set problems" for p
  proof -
    obtain c where c: "c \<in> set cards" "make_problem (map (\<lambda>(problem_id, _). (problem_id, ?new problem_id)) cards) c = Inr p"
      using rmap_Inr_mem [OF problems [unfolded related] p] by auto
    obtain problem_id admission_ref ref body where x: "c = (problem_id, admission_ref, ref, body)" by (cases c)
    have "map_of cards problem_id = Some (admission_ref, ref, body)" using c(1) x scan(2) by (simp add: keys_def)
    then have "map_of (map (\<lambda>(problem_id, _). (problem_id, ?new problem_id)) cards) problem_id = Some (?new problem_id)"
      using map_of_map_snd [of "\<lambda>problem_id _. ?new problem_id" cards problem_id] by (simp add: case_prod_unfold)
    moreover have "finite (?new problem_id)" by simp
    moreover have "problem_id \<in> set (keys cards)" using c(1) x by (force simp: keys_def)
    ultimately show "set (lp_research_admission_refs p) = ?new (lp_problem_id p)" "lp_problem_id p \<in> set (keys cards)"
      using make_problem_Inr [OF c(2) [unfolded x]] by auto
  qed
  show "groups rows view"
    unfolding groups_def
  proof (intro conjI ballI allI impI)
    show "sorted (view_ids view)" "distinct (view_ids view)"
      using scan(2) unfolding ids by (simp_all add: distinct_map_sort_key keys_def)
    have "length (view_ids view) = length cards" unfolding ids by simp
    then show "lv_problems view \<noteq> []" using cards(2) by (auto simp: view_ids_def)
    show "card_refs_of view = {wa_admission_ref row | row. row \<in> set rows \<and> row_card row \<noteq> None}"
      unfolding card_refs card_refs_def scan(1) by (auto simp: set_map_filter row_card_ref image_iff) (metis row_card_ref)+
    show "set (lp_research_admission_refs p) = {wa_admission_ref row | row. row \<in> set rows \<and>
        wa_admission_ref row \<notin> card_refs_of view \<and> lp_problem_id p \<in> set (content_targets row)}"
      if "p \<in> set (lv_problems view)" for p
      using research [of p] that unfolding card_refs by (auto simp: view targets_def)
    show "set (lv_unscoped_admission_refs view) = {wa_admission_ref row | row. row \<in> set rows \<and>
        wa_admission_ref row \<notin> card_refs_of view \<and> (\<forall>problem_id \<in> set (view_ids view). problem_id \<notin> set (content_targets row))}"
      unfolding card_refs known by (simp add: view relate_fold targets_def filter_empty_conv) blast
    show "n = length (filter (\<lambda>row. count_key row = k) rows)" if "(k, n) \<in> set (lv_schema_counts view)" for n k
    proof -
      have "map_of counts k = Some n" using that counts_distinct [of "[]" rows] by (simp add: view scan(3))
      then show ?thesis using count_exact [of rows "[]" k] by (simp add: scan(3) split: if_splits)
    qed
    show "sum_list (map snd (lv_schema_counts view)) = length rows"
      using counts_add_up [of rows "[]"] unfolding view scan(3)
      by (simp flip: sum_mset_sum_list)
  qed
qed

text \<open>Each card once, in the order of the problems.\<close>

lemma legacy_view_cards:
  assumes "legacy_view_of selected rows = Inr view"
  shows "mset (map lp_target_card_admission_ref (lv_problems view)) =
    mset (map wa_admission_ref (filter (\<lambda>row. row_card row \<noteq> None) rows))"
proof -
  obtain cards counts problems related where cards: "scan_cards rows [] [] = Inr (cards, counts)"
    and problems: "rmap (make_problem related) (sort_key fst cards) = Inr problems" "lv_problems view = problems"
    using assms by (auto simp: legacy_view_of_def result_dests case_prod_unfold Let_def split: if_splits)
  have "mset (map lp_target_card_admission_ref problems) = mset (map (\<lambda>(_, admission_ref, _). admission_ref) cards)"
    using make_problems_Inr [OF problems(1)] by simp
  also have "map (\<lambda>(_, admission_ref, _). admission_ref) cards =
      map wa_admission_ref (filter (\<lambda>row. row_card row \<noteq> None) rows)"
  proof -
    have "map (\<lambda>(_, admission_ref, _). admission_ref) (List.map_filter row_card rows) =
        map wa_admission_ref (filter (\<lambda>row. row_card row \<noteq> None) rows)" for rows
      by (induction rows) (auto simp: map_filter_simps dest: row_card_ref split: option.splits)
    then show ?thesis using scan_cards_Inr [OF cards] by simp
  qed
  finally show ?thesis by (simp add: problems(2))
qed

lemma legacy_view_cards_distinct:
  assumes "legacy_view_of selected rows = Inr view" "distinct (map wa_admission_ref rows)" "row \<in> set rows"
  shows "wa_admission_ref row \<in> card_refs_of view \<longleftrightarrow> row_card row \<noteq> None"
proof -
  have "groups rows view" by (rule legacy_view_groups(1) [OF assms(1)])
  then have "card_refs_of view = {wa_admission_ref row | row. row \<in> set rows \<and> row_card row \<noteq> None}"
    by (simp add: groups_def)
  with assms(2,3) show ?thesis by (auto simp: distinct_map inj_on_def)
qed

end
