(* ===== verification/Situation.thy ===== *)
theory Situation
  imports Legacy_Frontier
begin

text \<open>
  The briefing of a cohort, \<open>world/situation.py\<close>: the problems of a snapshot and one bounded projection per
  other record, as canonical bytes with their digest. The lemmas show that every admission of the snapshot
  is in the briefing exactly once, and that a projection is bounded in every direction.
\<close>

definition SITUATION_SCHEMA :: string where
  "SITUATION_SCHEMA = ''PMW_MATHEMATICAL_SITUATION_2''"

definition MAXIMUM_SITUATION_BYTES :: nat where
  "MAXIMUM_SITUATION_BYTES = 16 * 1024 * 1024"

definition MAXIMUM_PROJECTED_STRING_BYTES :: nat where
  "MAXIMUM_PROJECTED_STRING_BYTES = 12000"

definition MAXIMUM_PROJECTED_ITEMS :: nat where
  "MAXIMUM_PROJECTED_ITEMS = 128"

section \<open>Projections\<close>

definition projection_suffix :: string where
  "projection_suffix = ''...[projection truncated; fetch exact admission]''"

definition truncate_text :: "string \<Rightarrow> string" where
  "truncate_text value =
     (let encoded = utf8_replace value
      in if length encoded \<le> MAXIMUM_PROJECTED_STRING_BYTES then value
         else utf8_cut (MAXIMUM_PROJECTED_STRING_BYTES - length projection_suffix) encoded @ projection_suffix)"

text \<open>\<open>compact left\<close> is \<open>_compact\<close> at depth \<open>9 - left\<close>.\<close>

primrec compact :: "nat \<Rightarrow> pyval \<Rightarrow> pyval" where
  "compact 0 value = PStr ''[projection depth limit; fetch exact admission]''"
| "compact (Suc left) value = (case value of
      PStr s \<Rightarrow> PStr (truncate_text s)
    | PList vs \<Rightarrow>
        let selected = map (compact left) (take MAXIMUM_PROJECTED_ITEMS vs)
        in PList (if length selected < length vs
             then selected @ [PDict [(''omitted_items'', PInt (int (length vs - length selected)))]] else selected)
    | PDict d \<Rightarrow>
        let ks = take MAXIMUM_PROJECTED_ITEMS (sort (keys d));
            selected = map (\<lambda>key. (key, compact left (dget key d))) ks
        in PDict (if length ks < length d
             then AList.update ''projection_omitted_keys'' (PInt (int (length d - length ks))) selected else selected)
    | POther t \<Rightarrow> if t = ''float'' then value else PStr (''[unsupported projected value: '' @ t @ '']'')
    | _ \<Rightarrow> value)"

definition compact_value :: "pyval \<Rightarrow> pyval" where
  "compact_value = compact 9"

text \<open>The walk that collects the artifact references; the top of the stack first.\<close>

function artifact_walk :: "pyval list \<Rightarrow> string set \<Rightarrow> string set" where
  "artifact_walk stack selected = (case stack of
      [] \<Rightarrow> selected
    | item # rest \<Rightarrow> (case item of
          PStr s \<Rightarrow> artifact_walk rest (if is_ARTIFACT_REF s then insert s selected else selected)
        | PList vs \<Rightarrow> artifact_walk (rev vs @ rest) selected
        | PDict d \<Rightarrow> artifact_walk (rev (map snd d) @ rest) selected
        | _ \<Rightarrow> artifact_walk rest selected))"
  by pat_completeness auto
termination
  by (relation "measure (\<lambda>(stack, _). sum_list (map payload_nodes stack))")
    (auto simp: rev_map [symmetric] comp_def sum_list_rev)

declare artifact_walk.simps [simp del]

definition artifact_refs :: "pyval \<Rightarrow> string list" where
  "artifact_refs value = sorted_list_of_set (artifact_walk [value] {})"

definition MATHEMATICAL_FIELDS :: "string list" where
  "MATHEMATICAL_FIELDS = [''kind'', ''update_kind'', ''title'', ''summary'', ''body'', ''claim_ceiling'', ''evidence_status'',
     ''next_needs'', ''decision'', ''decisive_unknown'', ''route'', ''stop_or_pivot_condition'', ''statement'',
     ''claim_kind'', ''submission_kind'', ''authority_effect'', ''verification_scope'', ''verifier_result'', ''life_id'',
     ''campaign_id'']"

definition PREDECESSOR_FIELDS :: "string list" where
  "PREDECESSOR_FIELDS = [''schema'', ''original'', ''predecessor_admission_ref'', ''predecessor_campaign_id'', ''evidence_ceiling'']"

definition RECEIPT_FIELDS :: "string list" where
  "RECEIPT_FIELDS = [''artifact_ref'', ''bytes'', ''claim_kind'', ''receipt_ref'', ''statement'', ''submission_kind'']"

text \<open>\<open>value.get(key, default)\<close>\<close>

definition dget_or :: "string \<Rightarrow> (string \<times> pyval) list \<Rightarrow> pyval \<Rightarrow> pyval" where
  "dget_or key d default_value = (case map_of d key of Some v \<Rightarrow> v | None \<Rightarrow> default_value)"

definition project_content :: "pyval \<Rightarrow> (string \<times> pyval) list" where
  "project_content content = (case content of
      PDict d \<Rightarrow>
        let (selected, provenance, wrapper_omitted) =
          (case (dget ''schema'' d = PStr ''PMW_FRONTIER_PREDECESSOR_RECORD_1'', dget ''original'' d) of
             (True, PDict original) \<Rightarrow>
               (original,
                [(''provenance'', PStr ''PREDECESSOR_IMPORT''),
                 (''predecessor_admission_ref'', dget ''predecessor_admission_ref'' d),
                 (''predecessor_campaign_id'', dget ''predecessor_campaign_id'' d),
                 (''evidence_ceiling'', dget ''evidence_ceiling'' d)],
                sort (filter (\<lambda>k. k \<notin> set PREDECESSOR_FIELDS) (keys d)))
           | _ \<Rightarrow> (d, [], []));
          fields = filter (\<lambda>key. key \<in> set (keys selected)) MATHEMATICAL_FIELDS;
          is_record = (dget ''schema'' selected = PStr RESEARCH_RECORD_SCHEMA);
          receipt = (case dget ''artifact_receipt'' selected of PDict r \<Rightarrow> Some r | _ \<Rightarrow> None);
          represented = {''schema'', ''artifact_refs''} \<union> set fields
            \<union> (if is_record then {''problem_ids'', ''payload''} else {})
            \<union> (if receipt = None then {} else {''artifact_receipt''});
          omitted = sort (filter (\<lambda>k. k \<notin> represented) (keys selected))
        in provenance @ [(''content_schema'', dget_or ''schema'' selected (dget ''schema'' d))]
          @ map (\<lambda>key. (key, compact_value (dget key selected))) fields
          @ (if is_record then
               [(''problem_ids'', compact_value (dget_or ''problem_ids'' selected (PList []))),
                (''payload'', compact_value (dget_or ''payload'' selected (PDict [])))] else [])
          @ (case receipt of None \<Rightarrow> []
             | Some r \<Rightarrow> [(''artifact_receipt'', compact_value (PDict
                 (map (\<lambda>key. (key, dget key r)) (filter (\<lambda>key. key \<in> set (keys r)) RECEIPT_FIELDS))))])
          @ (if omitted = [] then [] else [(''omitted_projected_content_fields'', texts omitted)])
          @ (if wrapper_omitted = [] then [] else [(''omitted_predecessor_wrapper_fields'', texts wrapper_omitted)])
    | _ \<Rightarrow> [])"

definition project_row :: "(string \<Rightarrow> string) \<Rightarrow> (string \<Rightarrow> bool) option \<Rightarrow> world_admission \<Rightarrow> pyval" where
  "project_row sha256 artifact_exists row =
     (let refs = artifact_refs (wa_content row);
          availability = (case artifact_exists of
              None \<Rightarrow> PStr ''NOT_CHECKED''
            | Some available \<Rightarrow>
                PDict (map (\<lambda>ref. (ref, PStr (if available ref then ''AVAILABLE'' else ''MISSING''))) refs))
      in PDict
        [(''admission_ref'', PStr (wa_admission_ref row)), (''parent_refs'', texts (wa_parent_refs row)),
         (''stored_schema'', opt_text (wa_schema row)), (''content_sha256'', PStr (sha256 (wa_content_bytes row))),
         (''content_bytes'', PInt (int (length (wa_content_bytes row)))), (''artifact_refs'', texts refs),
         (''artifact_availability'', availability),
         (''mathematical_projection'', PDict (project_content (wa_content row))),
         (''exact_content'', PDict [(''method'', PStr ''world.get''), (''admission_ref'', PStr (wa_admission_ref row))])])"

section \<open>The briefing\<close>

record situation =
  si_world_id :: string
  si_world_ref :: string
  si_snapshot_ref :: string
  si_sha256 :: string
  si_bytes :: string

definition situation_value :: "situation \<Rightarrow> pyval result" where
  "situation_value s = (case json_loads plain_hooks (si_bytes s) of
      Some (PDict d) \<Rightarrow> Inr (PDict d)
    | Some _ \<Rightarrow> Inl (Assertion_Error ''situation root is not an object'')
    | None \<Rightarrow> Inl (Value_Error ''situation''))"

definition problem_entry :: "(string \<Rightarrow> string) \<Rightarrow> legacy_problem \<Rightarrow> pyval result" where
  "problem_entry sha256 p = rbind (lp_card p) (\<lambda>card.
     let historical_runtime = dget ''budget_contract'' card;
         card = filter (\<lambda>(key, _). key \<noteq> ''budget_contract'') card
     in rbind (if historical_runtime = PNone then Inr PNone
               else rbind (canonical_json historical_runtime) (\<lambda>historical_raw. Inr (PDict
                 [(''field'', PStr ''budget_contract''), (''sha256'', PStr (sha256 historical_raw)),
                  (''bytes'', PInt (int (length historical_raw))),
                  (''semantics'', PStr ''NON_OPERATIVE_PREDECESSOR_CAMPAIGN_PROVENANCE''),
                  (''exact_content'', PDict [(''method'', PStr ''world.get''),
                     (''admission_ref'', PStr (lp_target_card_admission_ref p))])]))) (\<lambda>omitted_runtime.
        Inr (PDict
          [(''problem_id'', PStr (lp_problem_id p)),
           (''target_card_admission_ref'', PStr (lp_target_card_admission_ref p)),
           (''target_card_ref'', PStr (lp_target_card_ref p)), (''problem'', PDict card),
           (''omitted_historical_runtime_contract'', omitted_runtime),
           (''research_admission_refs'', texts (lp_research_admission_refs p))])))"

definition situation_semantics :: pyval where
  "situation_semantics = PDict
     [(''problem_cards'', PStr ''MATHEMATICAL_CONTENT_WITH_PREDECESSOR_RUNTIME_BUDGET_OMITTED''),
      (''runtime_authority'', PStr ''HOST_INVOCATION_AND_LAUNCH_ONLY_NOT_HISTORICAL_WORLD_RECORDS''),
      (''records'', PStr ''ONE_BOUNDED_LOSS_AWARE_PROJECTION_PER_NON_CARD_ADMISSION''),
      (''problem_links'', PStr ''RESEARCH_ADMISSION_REFS_JOIN_TO_RECORDS''), (''truth_ranking'', PStr ''NONE''),
      (''exact_record_access'', PStr ''world.get(admission_ref, snapshot_ref)'')]"

definition target_card_refs :: "legacy_view \<Rightarrow> string set" where
  "target_card_refs view = set (map lp_target_card_admission_ref (lv_problems view))"

definition scoped_refs :: "legacy_view \<Rightarrow> string set" where
  "scoped_refs view = set (concat (map lp_research_admission_refs (lv_problems view)))"

text \<open>The rows are sorted by admission reference, each reference once; \<open>by_ref\<close> is \<open>map_of\<close> on them.\<close>

definition situation_document ::
  "(string \<Rightarrow> string) \<Rightarrow> string \<Rightarrow> string \<Rightarrow> (string \<Rightarrow> bool) option \<Rightarrow> world_admission list \<Rightarrow> legacy_view \<Rightarrow> pyval result" where
  "situation_document sha256 world_id world_ref artifact_exists rows legacy =
     rbind (rmap (problem_entry sha256) (lv_problems legacy)) (\<lambda>problem_entries.
       let by_ref = refs_of rows;
           listed = filter (\<lambda>row. wa_admission_ref row \<notin> target_card_refs legacy) rows
       in Inr (PDict
         [(''schema'', PStr SITUATION_SCHEMA), (''world_id'', PStr world_id), (''world_ref'', PStr world_ref),
          (''snapshot_ref'', PStr (lv_snapshot_ref legacy)),
          (''problem_count'', PInt (int (length problem_entries))), (''admission_count'', PInt (int (length rows))),
          (''problems'', PList problem_entries), (''records'', PList (map (project_row sha256 artifact_exists) listed)),
          (''unscoped_admission_refs'',
             texts (sorted_list_of_set (by_ref - scoped_refs legacy - target_card_refs legacy))),
          (''schema_counts'', schema_counts_value legacy), (''semantics'', situation_semantics)]))"

definition encode_situation :: "(string \<Rightarrow> string) \<Rightarrow> string \<Rightarrow> string \<Rightarrow> string \<Rightarrow> pyval \<Rightarrow> situation result" where
  "encode_situation sha256 world_id world_ref selected_snapshot value = (case canonical_json value of
      Inl _ \<Rightarrow> Inl (world_error ''SITUATION_ENCODING_FAILED'' [])
    | Inr encoded \<Rightarrow>
        let raw = encoded @ [CHR 0x0A]
        in if MAXIMUM_SITUATION_BYTES < length raw
           then Inl (world_error ''SITUATION_TOO_LARGE'' ''publish a reviewed CHECKPOINT summary before planning more sessions'')
           else Inr \<lparr>si_world_id = world_id, si_world_ref = world_ref, si_snapshot_ref = selected_snapshot,
             si_sha256 = sha256 raw, si_bytes = raw\<rparr>)"

definition build_mathematical_situation ::
  "'b core \<Rightarrow> pyval \<Rightarrow> pyval \<Rightarrow> (string \<Rightarrow> bool) option \<Rightarrow> ('b, situation) world_op" where
  "build_mathematical_situation core world_id snapshot_ref artifact_exists w = (case world_id of
      PStr world_id' \<Rightarrow>
        if \<not> is_ID world_id' \<or> (rw_world_id w \<noteq> None \<and> rw_world_id w \<noteq> Some world_id')
        then (Inl (world_error ''SITUATION_WORLD_MISMATCH'' []), w)
        else (case select_snapshot core ''snapshot_ref'' snapshot_ref w of
            Inl e \<Rightarrow> (Inl e, w)
          | Inr selected_snapshot \<Rightarrow>
              op_bind (world_records core (PStr selected_snapshot)) (\<lambda>rows.
              op_bind (build_legacy_frontier_view core (PStr selected_snapshot)) (\<lambda>legacy.
                op_return (rbind (situation_document (core_sha256 core) world_id' (rw_world_ref w) artifact_exists rows legacy)
                  (encode_situation (core_sha256 core) world_id' (rw_world_ref w) selected_snapshot)))) w)
    | _ \<Rightarrow> (Inl (world_error ''SITUATION_WORLD_MISMATCH'' []), w))"

section \<open>Correctness\<close>

text \<open>What every projection stays within: \<open>K\<close> holds the keys that may occur, of any length.\<close>

fun bounded :: "string set \<Rightarrow> nat \<Rightarrow> pyval \<Rightarrow> bool" where
  "bounded K n (PStr s) \<longleftrightarrow> length (utf8_replace s) \<le> MAXIMUM_PROJECTED_STRING_BYTES"
| "bounded K n (PList vs) \<longleftrightarrow> length vs \<le> Suc MAXIMUM_PROJECTED_ITEMS \<and>
     (case n of 0 \<Rightarrow> False | Suc m \<Rightarrow> (\<forall>v \<in> set vs. bounded K m v))"
| "bounded K n (PDict d) \<longleftrightarrow> length d \<le> Suc MAXIMUM_PROJECTED_ITEMS \<and> set (keys d) \<subseteq> K \<and>
     (case n of 0 \<Rightarrow> False | Suc m \<Rightarrow> (\<forall>(k, v) \<in> set d. bounded K m v))"
| "bounded K n (POther t) \<longleftrightarrow> t = ''float''"
| "bounded K n v \<longleftrightarrow> True"

text \<open>The keys of every object inside a value, and the two that a projection adds.\<close>

fun keys_of :: "pyval \<Rightarrow> string set" where
  "keys_of (PList vs) = (\<Union>v \<in> set vs. keys_of v)"
| "keys_of (PDict d) = set (keys d) \<union> (\<Union>(k, v) \<in> set d. keys_of v)"
| "keys_of v = {}"

definition projection_markers :: "string set" where
  "projection_markers = {''omitted_items'', ''projection_omitted_keys''}"

text \<open>A value of which a projection omits nothing.\<close>

primrec within :: "nat \<Rightarrow> pyval \<Rightarrow> bool" where
  "within 0 v = False"
| "within (Suc n) v = (case v of
      PStr s \<Rightarrow> length (utf8_replace s) \<le> MAXIMUM_PROJECTED_STRING_BYTES
    | PList vs \<Rightarrow> length vs \<le> MAXIMUM_PROJECTED_ITEMS \<and> list_all (within n) vs
    | PDict d \<Rightarrow> length d \<le> MAXIMUM_PROJECTED_ITEMS \<and> distinct (keys d) \<and> list_all (\<lambda>(_, v). within n v) d
    | POther t \<Rightarrow> t = ''float''
    | _ \<Rightarrow> True)"

lemma sorted_items_map:
  fixes f :: "pyval \<Rightarrow> pyval"
  assumes "distinct (map fst d)"
  shows "map (\<lambda>k. (k, f (dget k d))) (sort (map fst d)) = sort_key fst (map (\<lambda>(k, v). (k, f v)) d)"
proof -
  have items: "map (\<lambda>k. (k, f (dget k d))) (map fst d) = map (\<lambda>(k, v). (k, f v)) d"
    using assms by (auto simp: dget_def)
  have sort: "sort_key fst (map (\<lambda>k. (k, g k)) xs) = map (\<lambda>k. (k, g k)) (sort xs)" for g :: "string \<Rightarrow> pyval" and xs
  proof (induction xs)
    case (Cons x xs)
    have "insort_key fst (x, g x) (map (\<lambda>k. (k, g k)) ys) = map (\<lambda>k. (k, g k)) (insort x ys)" for ys
      by (induction ys) auto
    with Cons show ?case by simp
  qed simp
  have "sort_key fst (map (\<lambda>k. (k, f (dget k d))) (map fst d)) = map (\<lambda>k. (k, f (dget k d))) (sort (map fst d))"
    by (rule sort)
  then show ?thesis unfolding items by (rule sym)
qed

lemma compact_within: "within n v \<Longrightarrow> compact n v = sort_json v"
proof (induction n arbitrary: v)
  case (Suc n)
  show ?case
  proof (cases v)
    case (PStr s)
    then show ?thesis using Suc.prems by (simp add: truncate_text_def Let_def)
  next
    case (PList vs)
    then show ?thesis using Suc by (auto simp: Let_def sort_json_list_map list_all_iff)
  next
    case (PDict d)
    have d: "distinct (map fst d)" "length d \<le> MAXIMUM_PROJECTED_ITEMS" using Suc.prems PDict by (simp_all add: keys_def)
    have "(\<lambda>(k, v). (k, compact n v)) x = (\<lambda>(k, v). (k, sort_json v)) x" if "x \<in> set d" for x
      using Suc that PDict by (cases x) (auto simp: list_all_iff)
    then have "map (\<lambda>(k, v). (k, compact n v)) d = sort_json_items d" by (simp add: sort_json_items_map cong: map_cong)
    with sorted_items_map [OF d(1), of "compact n"] d show ?thesis by (simp add: PDict Let_def keys_def)
  qed (use Suc.prems in auto)
qed simp

lemma utf8_replace_length: "length (utf8_replace s) \<le> length s"
  by (induction s rule: utf8_replace.induct) auto

lemma truncate_text_bounded: "length (utf8_replace (truncate_text s)) \<le> MAXIMUM_PROJECTED_STRING_BYTES"
proof (cases "length (utf8_replace s) \<le> MAXIMUM_PROJECTED_STRING_BYTES")
  case False
  let ?n = "MAXIMUM_PROJECTED_STRING_BYTES - length projection_suffix"
  have "length (utf8_replace (truncate_text s)) \<le> length (truncate_text s)" by (rule utf8_replace_length)
  also have "\<dots> \<le> ?n + length projection_suffix"
    using utf8_cut_length [of ?n "utf8_replace s"] False by (simp add: truncate_text_def)
  finally show ?thesis by (simp add: MAXIMUM_PROJECTED_STRING_BYTES_def projection_suffix_def)
qed (simp add: truncate_text_def)

lemma update_bounded:
  "(\<forall>(k, v) \<in> set d. P v) \<Longrightarrow> P v \<Longrightarrow> \<forall>(k, v) \<in> set (AList.update x v d). P v"
  by (induction d) auto

lemma update_length: "length (AList.update x v d) \<le> Suc (length d)"
  by (induction d) auto

lemma update_keys_subset: "set (keys d) \<subseteq> K \<Longrightarrow> x \<in> K \<Longrightarrow> set (keys (AList.update x v d)) \<subseteq> K"
  by (simp add: keys_def dom_update)

lemma keys_of_dget: "keys_of (dget k d) \<subseteq> keys_of (PDict d)"
proof (cases "map_of d k")
  case (Some v)
  then have "(k, v) \<in> set d" by (rule map_of_SomeD)
  then show ?thesis using Some by (force simp: dget_def)
qed (simp add: dget_def)

lemma compact_bounded: "json_tree v \<Longrightarrow> keys_of v \<union> projection_markers \<subseteq> K \<Longrightarrow> bounded K (Suc n) (compact n v)"
proof (induction n arbitrary: v)
  case 0
  have "length (utf8_replace ''[projection depth limit; fetch exact admission]'') \<le> MAXIMUM_PROJECTED_STRING_BYTES"
    by (rule order_trans [OF utf8_replace_length]) (simp add: MAXIMUM_PROJECTED_STRING_BYTES_def)
  then show ?case by simp
next
  case (Suc n)
  have marks: "''omitted_items'' \<in> K" "''projection_omitted_keys'' \<in> K" using Suc.prems(2) by (simp_all add: projection_markers_def)
  show ?case
  proof (cases v)
    case (PStr s)
    then show ?thesis using truncate_text_bounded by simp
  next
    case (PList vs)
    then have "json_tree x \<and> keys_of x \<union> projection_markers \<subseteq> K" if "x \<in> set (take MAXIMUM_PROJECTED_ITEMS vs)" for x
      using in_set_takeD [OF that] Suc.prems by auto
    then have "bounded K (Suc n) (compact n x)" if "x \<in> set (take MAXIMUM_PROJECTED_ITEMS vs)" for x
      using Suc.IH that by blast
    then show ?thesis using PList marks by (auto simp: Let_def keys_def)
  next
    case (PDict d)
    let ?ks = "take MAXIMUM_PROJECTED_ITEMS (sort (keys d))"
    let ?selected = "map (\<lambda>key. (key, compact n (dget key d))) ?ks"
    have "json_tree (dget key d)" for key using Suc.prems(1) PDict by (simp add: json_tree_dget)
    moreover have "keys_of (dget key d) \<union> projection_markers \<subseteq> K" for key
      using keys_of_dget [of key d] Suc.prems(2) PDict by blast
    ultimately have "\<forall>(k, v) \<in> set ?selected. bounded K (Suc n) v" using Suc.IH by auto
    moreover have "length ?selected \<le> MAXIMUM_PROJECTED_ITEMS" by simp
    ultimately have sel: "\<forall>(k, v) \<in> set ?selected. bounded K (Suc n) v" "length ?selected \<le> MAXIMUM_PROJECTED_ITEMS"
      by blast+
    define extra where "extra = PInt (int (length d - length ?ks))"
    have "set ?ks \<subseteq> K" using Suc.prems(2) PDict by (auto dest!: in_set_takeD)
    moreover have "map fst ?selected = ?ks" by (simp add: comp_def)
    ultimately have "set (keys ?selected) \<subseteq> K" by (simp only: keys_def)
    moreover from this have "set (keys (AList.update ''projection_omitted_keys'' extra ?selected)) \<subseteq> K"
      using marks by (intro update_keys_subset)
    moreover have "\<forall>(k, v) \<in> set (AList.update ''projection_omitted_keys'' extra ?selected). bounded K (Suc n) v"
      using sel(1) by (intro update_bounded) (simp_all add: extra_def)
    moreover have "length (AList.update ''projection_omitted_keys'' extra ?selected) \<le> Suc MAXIMUM_PROJECTED_ITEMS"
      using update_length [of "''projection_omitted_keys''" extra ?selected] sel(2) by linarith
    moreover have "compact (Suc n) (PDict d) = PDict (if length ?ks < length d
        then AList.update ''projection_omitted_keys'' extra ?selected else ?selected)"
      by (simp only: compact.simps pyval.case Let_def extra_def)
    moreover obtain r where "r = (if length ?ks < length d
        then AList.update ''projection_omitted_keys'' extra ?selected else ?selected)" by blast
    ultimately have r: "compact (Suc n) v = PDict r" "set (keys r) \<subseteq> K" "length r \<le> Suc MAXIMUM_PROJECTED_ITEMS"
      "\<forall>(k, v) \<in> set r. bounded K (Suc n) v"
      using sel PDict by (simp_all only: split: if_splits) (simp_all add: le_SucI)
    then show ?thesis by simp
  next
    case (POther t)
    then show ?thesis using Suc.prems by simp
  qed simp_all
qed

text \<open>Keys are copied as they are, whatever their length.\<close>

lemma compact_keys: "length d \<le> MAXIMUM_PROJECTED_ITEMS \<Longrightarrow>
  \<exists>d'. compact (Suc n) (PDict d) = PDict d' \<and> keys d' = sort (keys d)"
  by (simp add: Let_def keys_def comp_def)

fun texts_of :: "pyval \<Rightarrow> string set" where
  "texts_of (PStr s) = {s}"
| "texts_of (PList vs) = (\<Union>v \<in> set vs. texts_of v)"
| "texts_of (PDict d) = (\<Union>(k, v) \<in> set d. texts_of v)"
| "texts_of v = {}"

lemma artifact_walk_simps:
  "artifact_walk [] selected = selected"
  "artifact_walk (PStr s # rest) selected = artifact_walk rest (if is_ARTIFACT_REF s then insert s selected else selected)"
  "artifact_walk (PList vs # rest) selected = artifact_walk (rev vs @ rest) selected"
  "artifact_walk (PDict d # rest) selected = artifact_walk (rev (map snd d) @ rest) selected"
  "artifact_walk (PNone # rest) selected = artifact_walk rest selected"
  "artifact_walk (PBool b # rest) selected = artifact_walk rest selected"
  "artifact_walk (PInt i # rest) selected = artifact_walk rest selected"
  "artifact_walk (POther t # rest) selected = artifact_walk rest selected"
  by (subst artifact_walk.simps, simp)+

lemma artifact_walk_eq: "artifact_walk stack selected = selected \<union> {s. is_ARTIFACT_REF s \<and> (\<exists>v \<in> set stack. s \<in> texts_of v)}"
proof (induction stack selected rule: artifact_walk.induct)
  case (1 stack selected)
  show ?case
  proof (cases stack)
    case (Cons item rest)
    show ?thesis
    proof (cases item)
      case (PStr s)
      then show ?thesis using 1(4) [OF Cons PStr] Cons by (auto simp: artifact_walk_simps)
    next
      case (PList vs)
      then show ?thesis using 1(5) [OF Cons PList] Cons by (auto simp: artifact_walk_simps)
    next
      case (PDict d)
      then show ?thesis using 1(6) [OF Cons PDict] Cons by (force simp: artifact_walk_simps)
    qed (use 1(1-3,7) Cons in \<open>auto simp: artifact_walk_simps\<close>)
  qed (simp add: artifact_walk_simps)
qed

lemma set_artifact_refs: "set (artifact_refs v) = {s \<in> texts_of v. is_ARTIFACT_REF s}"
proof -
  have "finite (texts_of v)" by (induction v) auto
  then show ?thesis by (auto simp: artifact_refs_def artifact_walk_eq)
qed

section \<open>Reads\<close>

lemma reads_legacy:
  "is_SNAPSHOT_REF s \<Longrightarrow> reads core (build_legacy_frontier_view core (PStr s))
     (\<lambda>w. rbind (fetch_rows core (rw_broker w) s) (legacy_view_of s))"
proof -
  assume s: "is_SNAPSHOT_REF s"
  have "build_legacy_frontier_view core (PStr s) =
      op_bind (world_records core (PStr s)) (\<lambda>rows. op_return (legacy_view_of s rows))"
    by (rule ext) (simp add: build_legacy_frontier_view_def select_snapshot_PStr [OF s])
  moreover have "reads core (op_bind (world_records core (PStr s)) (\<lambda>rows. op_return (legacy_view_of s rows)))
      (\<lambda>w. rbind (fetch_rows core (rw_broker w) s) (\<lambda>rows. legacy_view_of s rows))"
    by (intro reads_bind reads_return reads_snapshot s)
  ultimately show ?thesis by simp
qed

definition view_situation ::
  "'b core \<Rightarrow> string \<Rightarrow> string \<Rightarrow> string \<Rightarrow> (string \<Rightarrow> bool) option \<Rightarrow> world_admission list \<Rightarrow> situation result" where
  "view_situation core world_id world_ref selected artifact_exists rows =
     rbind (legacy_view_of selected rows) (\<lambda>legacy.
     rbind (situation_document (core_sha256 core) world_id world_ref artifact_exists rows legacy)
       (encode_situation (core_sha256 core) world_id world_ref selected))"

lemma situation_reads:
  assumes "coherent core w" "build_mathematical_situation core (PStr world_id) ref artifact_exists w = (Inr s, w')"
  shows "\<exists>selected rows. select_snapshot core ''snapshot_ref'' ref w = Inr selected \<and>
    fetch_rows core (rw_broker w) selected = Inr rows \<and>
    view_situation core world_id (rw_world_ref w) selected artifact_exists rows = Inr s \<and> uncached w' = uncached w"
proof -
  obtain selected where sel: "select_snapshot core ''snapshot_ref'' ref w = Inr selected"
    using assms(2) by (auto simp: build_mathematical_situation_def split: if_splits sum.splits)
  have ok: "is_SNAPSHOT_REF selected" using select_snapshot_ok [OF sel] .
  let ?m = "op_bind (world_records core (PStr selected)) (\<lambda>rows. op_bind (build_legacy_frontier_view core (PStr selected))
     (\<lambda>legacy. op_return (rbind (situation_document (core_sha256 core) world_id (rw_world_ref w) artifact_exists rows legacy)
       (encode_situation (core_sha256 core) world_id (rw_world_ref w) selected))))"
  have run: "?m w = (Inr s, w')"
    using assms(2) sel by (simp add: build_mathematical_situation_def split: if_splits)
  have "reads core ?m (\<lambda>v. rbind (fetch_rows core (rw_broker v) selected) (\<lambda>rows.
      rbind (rbind (fetch_rows core (rw_broker v) selected) (legacy_view_of selected)) (\<lambda>legacy.
        rbind (situation_document (core_sha256 core) world_id (rw_world_ref w) artifact_exists rows legacy)
          (encode_situation (core_sha256 core) world_id (rw_world_ref w) selected))))"
    by (intro reads_bind reads_return reads_snapshot reads_legacy ok)
  from readsD(1,2) [OF this assms(1)] run have answer:
      "rbind (fetch_rows core (rw_broker w) selected) (\<lambda>rows.
        rbind (rbind (fetch_rows core (rw_broker w) selected) (legacy_view_of selected)) (\<lambda>legacy.
          rbind (situation_document (core_sha256 core) world_id (rw_world_ref w) artifact_exists rows legacy)
            (encode_situation (core_sha256 core) world_id (rw_world_ref w) selected))) = Inr s"
    and same: "uncached w' = uncached w" by simp_all
  from answer obtain rows where rows: "fetch_rows core (rw_broker w) selected = Inr rows"
    by (auto simp: rbind_Inr_iff)
  with answer have "view_situation core world_id (rw_world_ref w) selected artifact_exists rows = Inr s"
    by (simp add: view_situation_def)
  with sel rows same show ?thesis by blast
qed

lemma situation_document_parts:
  assumes "situation_document sha256 world_id world_ref artifact_exists rows legacy = Inr v"
  shows "\<exists>d entries. v = PDict d \<and> rmap (problem_entry sha256) (lv_problems legacy) = Inr entries \<and>
    dget ''problems'' d = PList entries \<and>
    dget ''records'' d = PList (map (project_row sha256 artifact_exists)
      (filter (\<lambda>row. wa_admission_ref row \<notin> target_card_refs legacy) rows)) \<and>
    dget ''admission_count'' d = PInt (int (length rows))"
  using assms by (auto simp: situation_document_def result_dests dget_def)

lemma encode_situation_Inr:
  assumes "encode_situation sha256 world_id world_ref selected v = Inr s"
  shows "\<exists>raw. canonical_json v = Inr raw \<and> si_bytes s = raw @ [CHR 0x0A] \<and> length (si_bytes s) \<le> MAXIMUM_SITUATION_BYTES \<and>
    si_sha256 s = sha256 (si_bytes s) \<and> si_snapshot_ref s = selected \<and> si_world_id s = world_id"
  using assms by (auto simp: encode_situation_def Let_def split: sum.splits if_splits)

end
