(* ===== verification/Situation_Properties.thy ===== *)
theory Situation_Properties
  imports Situation World_Examples
begin

text \<open>
  Properties of the problem grouping and of the briefing, \<^verbatim>\<open>world/legacy_frontier.py\<close> and
  \<^verbatim>\<open>world/situation.py\<close>.
\<close>

section \<open>A world with a problem\<close>

definition sample_card_content :: string where
  "sample_card_content = ''{\"card\":{\"budget_contract\":{\"n\":\"one\"},\"title\":\"t\"},\"schema\":\"PMW_FRONTIER_TARGET_CARD_1\",\"target_card_sha256\":\"''
     @ replicate 64 (CHR ''0'') @ ''\",\"target_id\":\"p1\"}''"

definition sample_note_content :: string where
  "sample_note_content = ''{\"predecessor_target_id\":\"p1\",\"schema\":\"NOTE\",\"title\":\"n\"}''"

definition briefed_world :: "string list research_world" where
  "briefed_world = research_world_init (Some ''w'') ''refs/pmw/w'' [sample_card_content, sample_note_content] (Some sample_writer) ''token''"

lemma briefed_open: "world_open sample_core Repository_Directory (\<lambda>_. Inr [sample_card_content, sample_note_content]) ''token''
     (PStr ''w'') (PStr ''refs/pmw/w'') (Some sample_writer) PNone = Inr briefed_world"
  by code_simp

lemma briefed_view:
  "case fst (build_legacy_frontier_view sample_core PNone briefed_world) of Inl _ \<Rightarrow> False | Inr view \<Rightarrow>
     view_ids view = [''p1''] \<and> map lp_research_admission_refs (lv_problems view) = [[sample_admission 1]]"
  by code_simp

lemma briefed_situation:
  "case fst (build_mathematical_situation sample_core (PStr ''w'') PNone None briefed_world) of Inl _ \<Rightarrow> False | Inr s \<Rightarrow> True"
  by code_simp

section \<open>The grouping\<close>

text \<open>C29: grouping a snapshot by problem loses and invents nothing: in every state of an open world, the view is a
  partition of the admissions the broker holds into the target cards, one per problem, the records related
  to the problems that they name and the unscoped ones, with exact schema counts; the call changes nothing but
  the cache.\<close>

theorem legacy_grouping:
  assumes "world_open core repository open_broker token world_id world_ref writer required = Inr w"
    and "snapshots_immutable core" "world_reachable core w v"
    and "build_legacy_frontier_view core ref v = (Inr view, v')"
  shows "\<exists>rows. view_rows core ref v = Inr rows \<and> groups rows view \<and> uncached v' = uncached v"
proof -
  have coh: "coherent core v"
    using world_reachable_coherent [OF assms(3,2) world_open_coherent [OF assms(1)]] .
  obtain s where s: "select_snapshot core ''snapshot_ref'' ref v = Inr s"
    using assms(4) by (auto simp: build_legacy_frontier_view_def split: sum.splits)
  have ok: "is_SNAPSHOT_REF s" using select_snapshot_ok [OF s] .
  have "build_legacy_frontier_view core (PStr s) v = (Inr view, v')"
    using assms(4) s by (simp add: build_legacy_frontier_view_def select_snapshot_PStr [OF ok])
  with readsD(1,2) [OF reads_legacy [OF ok] coh] have "rbind (fetch_rows core (rw_broker v) s) (legacy_view_of s) = Inr view"
    "uncached v' = uncached v" by simp_all
  with s show ?thesis by (auto simp: view_rows_def result_dests intro: legacy_view_groups(1))
qed

lemma legacy_grouping_witness:
  "\<exists>view v' rows. build_legacy_frontier_view sample_core PNone briefed_world = (Inr view, v') \<and>
     view_ids view = [''p1''] \<and> view_rows sample_core PNone briefed_world = Inr rows \<and> groups rows view"
proof -
  obtain x v' where x: "build_legacy_frontier_view sample_core PNone briefed_world = (x, v')" by fastforce
  with briefed_view obtain view where "x = Inr view" "view_ids view = [''p1'']" by (cases x) auto
  with legacy_grouping [OF briefed_open sample_immutable start] x show ?thesis by blast
qed

section \<open>The briefing\<close>

definition entry_text :: "string \<Rightarrow> pyval \<Rightarrow> string" where
  "entry_text key v = (case v of PDict d \<Rightarrow> (case dget key d of PStr s \<Rightarrow> s | _ \<Rightarrow> []) | _ \<Rightarrow> [])"

text \<open>The admissions that a briefing names as target cards and as records.\<close>

definition briefed_refs :: "(string \<times> pyval) list \<Rightarrow> string list" where
  "briefed_refs d =
     (case dget ''problems'' d of PList ps \<Rightarrow> map (entry_text ''target_card_admission_ref'') ps | _ \<Rightarrow> []) @
     (case dget ''records'' d of PList rs \<Rightarrow> map (entry_text ''admission_ref'') rs | _ \<Rightarrow> [])"

lemma problem_entry_ref:
  "problem_entry sha256 p = Inr v \<Longrightarrow> entry_text ''target_card_admission_ref'' v = lp_target_card_admission_ref p"
  by (auto simp: problem_entry_def Let_def result_dests entry_text_def dget_def)

lemma problem_entries_refs:
  "rmap (problem_entry sha256) ps = Inr vs \<Longrightarrow>
     map (entry_text ''target_card_admission_ref'') vs = map lp_target_card_admission_ref ps"
  by (induction ps arbitrary: vs) (auto simp: result_dests problem_entry_ref)

lemma project_row_ref: "entry_text ''admission_ref'' (project_row sha256 artifact_exists row) = wa_admission_ref row"
  by (simp add: project_row_def entry_text_def Let_def dget_def)

lemma briefed_refs_all:
  assumes "situation_document sha256 world_id world_ref artifact_exists rows legacy = Inr (PDict d)"
    and "legacy_view_of selected rows = Inr legacy" "distinct (map wa_admission_ref rows)"
  shows "mset (briefed_refs d) = mset (map wa_admission_ref rows)"
proof -
  obtain entries where entries: "rmap (problem_entry sha256) (lv_problems legacy) = Inr entries"
    "dget ''problems'' d = PList entries"
    "dget ''records'' d = PList (map (project_row sha256 artifact_exists)
      (filter (\<lambda>row. wa_admission_ref row \<notin> target_card_refs legacy) rows))"
    using situation_document_parts [OF assms(1)] by blast
  have "filter (\<lambda>row. wa_admission_ref row \<notin> target_card_refs legacy) rows = filter (\<lambda>row. row_card row = None) rows"
    using legacy_view_cards_distinct [OF assms(2,3)]
    by (intro filter_cong) (simp_all add: target_card_refs_def card_refs_of_def del: not_None_eq)
  then have "briefed_refs d = map lp_target_card_admission_ref (lv_problems legacy) @
      map wa_admission_ref (filter (\<lambda>row. row_card row = None) rows)"
    using entries by (simp add: briefed_refs_def problem_entries_refs project_row_ref comp_def)
  then have "mset (briefed_refs d) = mset (map wa_admission_ref (filter (\<lambda>row. row_card row \<noteq> None) rows)) +
      mset (map wa_admission_ref (filter (\<lambda>row. row_card row = None) rows))"
    using legacy_view_cards [OF assms(2)] by simp
  also have "\<dots> = mset (map wa_admission_ref rows)" by (induction rows) auto
  finally show ?thesis .
qed

text \<open>C28: a briefing is complete and sealed: in every state of an open world, its bytes are the canonical JSON of
  a document that names each admission of the snapshot exactly once, as the target card of a problem or as
  a projected record; they fit the byte limit, their digest is the one reported, and building the briefing
  changes nothing but the cache.\<close>

theorem situation_covers:
  assumes "world_open core repository open_broker token world_id world_ref writer required = Inr w"
    and "snapshots_immutable core" "world_reachable core w v"
    and "build_mathematical_situation core (PStr i) ref artifact_exists v = (Inr s, v')"
  shows "\<exists>rows d raw. view_rows core ref v = Inr rows \<and> canonical_json (PDict d) = Inr raw \<and>
    si_bytes s = raw @ [CHR 0x0A] \<and> length (si_bytes s) \<le> MAXIMUM_SITUATION_BYTES \<and>
    si_sha256 s = core_sha256 core (si_bytes s) \<and> si_world_id s = i \<and>
    mset (briefed_refs d) = mset (map wa_admission_ref rows) \<and> distinct (briefed_refs d) \<and> uncached v' = uncached v"
proof -
  have coh: "coherent core v"
    using world_reachable_coherent [OF assms(3,2) world_open_coherent [OF assms(1)]] .
  obtain selected rows where rows: "select_snapshot core ''snapshot_ref'' ref v = Inr selected"
    "fetch_rows core (rw_broker v) selected = Inr rows" "uncached v' = uncached v"
    and view: "view_situation core i (rw_world_ref v) selected artifact_exists rows = Inr s"
    using situation_reads [OF coh assms(4)] by blast
  obtain legacy u where legacy: "legacy_view_of selected rows = Inr legacy"
    and u: "situation_document (core_sha256 core) i (rw_world_ref v) artifact_exists rows legacy = Inr u"
      "encode_situation (core_sha256 core) i (rw_world_ref v) selected u = Inr s"
    using view by (auto simp: view_situation_def result_dests)
  obtain d where d: "u = PDict d" using situation_document_parts [OF u(1)] by blast
  have dist: "distinct (map wa_admission_ref rows)" by (rule fetch_rows_ok(2) [OF rows(2)])
  have all: "mset (briefed_refs d) = mset (map wa_admission_ref rows)"
    by (rule briefed_refs_all [OF u(1) [unfolded d] legacy dist])
  with dist have "distinct (briefed_refs d)" using mset_eq_imp_distinct_iff by blast
  with all rows encode_situation_Inr [OF u(2)] d show ?thesis by (auto simp: view_rows_def)
qed

lemma situation_covers_witness:
  "\<exists>s v' d raw. build_mathematical_situation sample_core (PStr ''w'') PNone None briefed_world = (Inr s, v') \<and>
     canonical_json (PDict d) = Inr raw \<and> si_bytes s = raw @ [CHR 0x0A] \<and> distinct (briefed_refs d)"
proof -
  obtain x v' where x: "build_mathematical_situation sample_core (PStr ''w'') PNone None briefed_world = (x, v')" by fastforce
  with briefed_situation obtain s where "x = Inr s" by (cases x) auto
  with situation_covers [OF briefed_open sample_immutable start] x show ?thesis by blast
qed

text \<open>C30: whatever content was admitted, a projected field is bounded in depth, in the length of its lists and
  objects and in the length of its texts; its keys are keys of the content or the two markers of an
  omission, and they are copied as they are, so that a key may exceed the limit on texts. The field is
  the content itself, with sorted keys, when that is within the limits. The artifact references listed
  for a row are exactly the texts of its content with the form of one.\<close>

theorem projection_bounded:
  "bounded (keys_of (decode_json_or_text raw) \<union> projection_markers) 10 (compact_value (decode_json_or_text raw)) \<and>
   (\<forall>d. decode_json_or_text raw = PDict d \<longrightarrow> length d \<le> MAXIMUM_PROJECTED_ITEMS \<longrightarrow>
      (\<exists>d'. compact_value (decode_json_or_text raw) = PDict d' \<and> keys d' = sort (keys d))) \<and>
   (within 9 (decode_json_or_text raw) \<longrightarrow> compact_value (decode_json_or_text raw) = sort_json (decode_json_or_text raw)) \<and>
   set (artifact_refs (decode_json_or_text raw)) = {s \<in> texts_of (decode_json_or_text raw). is_ARTIFACT_REF s} \<and>
   sorted (artifact_refs (decode_json_or_text raw)) \<and> distinct (artifact_refs (decode_json_or_text raw))"
proof -
  have "bounded (keys_of (decode_json_or_text raw) \<union> projection_markers) 10 (compact_value (decode_json_or_text raw))"
    using compact_bounded [OF content_tree order_refl, of raw 9] by (simp add: compact_value_def numeral_eq_Suc)
  moreover have "\<exists>d'. compact_value (PDict d) = PDict d' \<and> keys d' = sort (keys d)" if "length d \<le> MAXIMUM_PROJECTED_ITEMS" for d
    using compact_keys [OF that, of 8] by (simp add: compact_value_def numeral_eq_Suc)
  moreover have "sorted (artifact_refs v)" "distinct (artifact_refs v)" for v by (simp_all add: artifact_refs_def)
  ultimately show ?thesis by (simp add: compact_within compact_value_def set_artifact_refs)
qed

lemma projection_bounded_witness:
  "within 9 (decode_json_or_text sample_note_content) \<and>
   compact_value (decode_json_or_text sample_note_content) = sort_json (decode_json_or_text sample_note_content)"
proof -
  have "within 9 (decode_json_or_text sample_note_content)" by code_simp
  with projection_bounded [of sample_note_content] show ?thesis by blast
qed

end
