(* ===== verification/Contracts.thy ===== *)
theory Contracts
  imports Usage Records
begin

text \<open>
  The contracts between the host and a session backend, \<^verbatim>\<open>runtime/contracts.py\<close>: the
  public identity of a backend, which must not carry a secret, the evidence that its side effects have
  stopped, and its report. The lemmas show that a report read from a session's file holds no measurement
  and reads back from what it prints.
\<close>

definition BACKEND_OUTCOME_SCHEMA :: string where
  "BACKEND_OUTCOME_SCHEMA = ''PMW_RUNTIME_BACKEND_OUTCOME_1''"

definition is_PROTOCOL :: "string \<Rightarrow> bool" where
  "is_PROTOCOL = matches_ident is_upper (\<lambda>c. is_upper c \<or> is_digit c \<or> c \<in> set ''._-'') 127"

definition is_TERMINAL_REASON :: "string \<Rightarrow> bool" where
  "is_TERMINAL_REASON = matches_ident is_upper (\<lambda>c. is_upper c \<or> is_digit c \<or> c = CHR ''_'') 127"

definition MAXIMUM_PUBLIC_CONFIG_BYTES :: nat where
  "MAXIMUM_PUBLIC_CONFIG_BYTES = 1048576"

definition MAXIMUM_BACKEND_SUMMARY_BYTES :: nat where
  "MAXIMUM_BACKEND_SUMMARY_BYTES = 65536"

definition MAXIMUM_BACKEND_METADATA_BYTES :: nat where
  "MAXIMUM_BACKEND_METADATA_BYTES = 1048576"

definition MAXIMUM_CONTRIBUTIONS :: nat where
  "MAXIMUM_CONTRIBUTIONS = 64"

definition runtime_host_policy_value :: pyval where
  "runtime_host_policy_value = PDict
     [(''platform_protocol'', PStr ''PMW_RESEARCH_PLATFORM_RUNTIME_1''),
      (''context_window'', PDict
        [(''authority'', PStr ''IMMUTABLE_LAUNCH_PER_SESSION''), (''unset'', PStr ''BACKEND_DECLARED_MODEL_WINDOW''),
         (''enforcement'', PStr ''BACKEND_CAPABILITY_REQUIRED_WHEN_CONFIGURED''),
         (''strict_pre_http_input_gate'', PStr ''NOT_CLAIMED'')]),
      (''terminal_authority'', PStr ''HOST''), (''unknown_retains_slot'', PBool True),
      (''receipt_authority'', PStr ''DURABLE_STORE''),
      (''resource_accounting'', PDict
        [(''tree_limits'', PStr ''AGGREGATE_BYTES_ENTRIES_DEPTH''),
         (''scan_schedule'', PStr ''INITIAL_TERMINAL_AND_PROFILE_LIVE''),
         (''hardlinks'', PStr ''BYTE_DEDUPLICATED_NOT_REJECTED''), (''single_file_limit'', PStr ''NOT_ENFORCED'')])]"

section \<open>Values\<close>

text \<open>The length of the strict encoding of a text; a lone surrogate raises a \<open>UnicodeEncodeError\<close>.\<close>

definition encoded_length :: "string \<Rightarrow> nat result" where
  "encoded_length s = (if utf8_valid s then Inr (length s) else Inl (Value_Error ''surrogates not allowed''))"

definition json_clone :: "pyval \<Rightarrow> nat \<Rightarrow> string \<Rightarrow> pyval result" where
  "json_clone value maximum_bytes label = (case canonical_json value of
      Inl _ \<Rightarrow> Inl (Runtime_Contract_Error ''MALFORMED_RUNTIME_JSON'' label)
    | Inr encoded \<Rightarrow>
        if maximum_bytes < length encoded then Inl (Runtime_Contract_Error ''RUNTIME_VALUE_TOO_LARGE'' label)
        else (case json_loads plain_hooks encoded of
            Some v \<Rightarrow> Inr v
          | None \<Rightarrow> Inl (Value_Error ''JSONDecodeError'')))"

text \<open>The properties that decode an object again from its canonical bytes.\<close>

definition decode_object :: "string \<Rightarrow> string \<Rightarrow> (string \<times> pyval) list result" where
  "decode_object what raw = (case json_loads plain_hooks raw of
      None \<Rightarrow> Inl (Value_Error ''JSONDecodeError'')
    | Some (PDict d) \<Rightarrow> Inr d
    | Some _ \<Rightarrow> Inl (Assertion_Error (what @ '' is not an object'')))"

section \<open>Secrets in an identity\<close>

text \<open>
  \<open>_SENSITIVE_KEY.search\<close>. With \<open>re.IGNORECASE\<close> a letter of the pattern also matches its capital, and
  the letters i, s and k match the code points that fold to them (U+0130, U+0131, U+017F, U+212A).
\<close>

definition letter_match :: "char \<Rightarrow> string \<Rightarrow> string option" where
  "letter_match p s = (case s of
      [] \<Rightarrow> None
    | c # r \<Rightarrow>
        if c = p \<or> cc c = cc p - 32 then Some r
        else if p = CHR ''i'' \<and> cc c = 196 then (case r of d # q \<Rightarrow> if cc d \<in> {176, 177} then Some q else None | [] \<Rightarrow> None)
        else if p = CHR ''s'' \<and> cc c = 197 then (case r of d # q \<Rightarrow> if cc d = 191 then Some q else None | [] \<Rightarrow> None)
        else if p = CHR ''k'' \<and> cc c = 226 then
          (case r of d # e # q \<Rightarrow> if cc d = 132 \<and> cc e = 170 then Some q else None | _ \<Rightarrow> None)
        else None)"

fun word_match :: "string \<Rightarrow> string \<Rightarrow> string option" where
  "word_match [] s = Some s"
| "word_match (p # w) s = (case letter_match p s of None \<Rightarrow> None | Some r \<Rightarrow> word_match w r)"

definition is_separator :: "char \<Rightarrow> bool" where
  "is_separator c \<longleftrightarrow> c = CHR ''_'' \<or> c = CHR ''-''"

definition optional_separator :: "string \<Rightarrow> string" where
  "optional_separator s = (case s of c # r \<Rightarrow> if is_separator c then r else s | [] \<Rightarrow> [])"

text \<open>Words with an optional separator between them. No word starts with a separator, so taking one never has
  to be undone.\<close>

fun phrase_match :: "string list \<Rightarrow> string \<Rightarrow> string option" where
  "phrase_match [] s = Some s"
| "phrase_match [w] s = word_match w s"
| "phrase_match (w # v # ws) s = (case word_match w s of
      None \<Rightarrow> None
    | Some r \<Rightarrow> phrase_match (v # ws) (optional_separator r))"

definition SENSITIVE_PHRASES :: "string list list" where
  "SENSITIVE_PHRASES = [[''access'', ''token''], [''refresh'', ''token''], [''bearer'', ''token''], [''api'', ''key''],
     [''client'', ''secret''], [''password''], [''credential'', ''value''], [''private'', ''key''], [''session'', ''secret'']]"

definition key_ends :: "string \<Rightarrow> bool" where
  "key_ends r = (case r of [] \<Rightarrow> True | c # q \<Rightarrow> is_separator c \<or> (cc c = 10 \<and> q = []))"

definition key_here :: "string \<Rightarrow> bool" where
  "key_here s = list_ex (\<lambda>ws. case phrase_match ws s of Some r \<Rightarrow> key_ends r | None \<Rightarrow> False) SENSITIVE_PHRASES"

fun key_after_separator :: "string \<Rightarrow> bool" where
  "key_after_separator [] = False"
| "key_after_separator (c # s) = ((is_separator c \<and> key_here s) \<or> key_after_separator s)"

definition is_SENSITIVE_KEY :: "string \<Rightarrow> bool" where
  "is_SENSITIVE_KEY key \<longleftrightarrow> key_here key \<or> key_after_separator key"

text \<open>The walk over a cloned value, the top of the stack first; the keys of a clone are texts.\<close>

function reject_sensitive_keys :: "pyval list \<Rightarrow> unit result" where
  "reject_sensitive_keys stack = (case stack of
      [] \<Rightarrow> Inr ()
    | selected # rest \<Rightarrow> (case selected of
          PDict d \<Rightarrow> (case find is_SENSITIVE_KEY (keys d) of
              Some key \<Rightarrow> Inl (Runtime_Contract_Error ''SECRET_IN_PUBLIC_IDENTITY'' (cp_take 128 key))
            | None \<Rightarrow> reject_sensitive_keys (rev (map snd d) @ rest))
        | PList vs \<Rightarrow> reject_sensitive_keys (rev vs @ rest)
        | _ \<Rightarrow> reject_sensitive_keys rest))"
  by pat_completeness auto
termination
  by (relation "measure (\<lambda>stack. sum_list (map payload_nodes stack))")
    (auto simp: rev_map [symmetric] comp_def sum_list_rev)

declare reject_sensitive_keys.simps [simp del]

record backend_identity =
  bi_name :: string
  bi_protocol :: string
  bi_public_config_bytes :: string

definition backend_identity_init :: "pyval \<Rightarrow> pyval \<Rightarrow> pyval \<Rightarrow> backend_identity result" where
  "backend_identity_init name protocol public_config =
     (case name of
        PStr n \<Rightarrow> if \<not> is_ID n then Inl (Runtime_Contract_Error ''MALFORMED_BACKEND_IDENTITY'' ''name'')
          else (case protocol of
            PStr p \<Rightarrow> if \<not> is_PROTOCOL p then Inl (Runtime_Contract_Error ''MALFORMED_BACKEND_IDENTITY'' ''protocol'')
              else (case public_config of
                PDict d \<Rightarrow>
                  rbind (json_clone (PDict d) MAXIMUM_PUBLIC_CONFIG_BYTES ''public_config'') (\<lambda>cloned.
                  rbind (reject_sensitive_keys [cloned]) (\<lambda>_.
                  rbind (canonical_json cloned) (\<lambda>encoded.
                    Inr \<lparr>bi_name = n, bi_protocol = p, bi_public_config_bytes = encoded\<rparr>)))
              | _ \<Rightarrow> Inl (Runtime_Contract_Error ''MALFORMED_BACKEND_IDENTITY'' ''public_config''))
          | _ \<Rightarrow> Inl (Runtime_Contract_Error ''MALFORMED_BACKEND_IDENTITY'' ''protocol''))
      | _ \<Rightarrow> Inl (Runtime_Contract_Error ''MALFORMED_BACKEND_IDENTITY'' ''name''))"

definition bi_public_config :: "backend_identity \<Rightarrow> (string \<times> pyval) list result" where
  "bi_public_config i = decode_object ''backend public config'' (bi_public_config_bytes i)"

definition backend_identity_to_value :: "backend_identity \<Rightarrow> pyval result" where
  "backend_identity_to_value i = rbind (bi_public_config i) (\<lambda>config. Inr (PDict
     [(''name'', PStr (bi_name i)), (''protocol'', PStr (bi_protocol i)), (''public_config'', PDict config)]))"

definition backend_identity_sha256 :: "(string \<Rightarrow> string) \<Rightarrow> backend_identity \<Rightarrow> string result" where
  "backend_identity_sha256 sha256 i =
     rbind (backend_identity_to_value i) (\<lambda>v. rbind (canonical_json v) (\<lambda>raw. Inr (sha256 raw)))"

section \<open>Stop proofs\<close>

record stop_proof =
  sp_stopped :: bool
  sp_reason :: string
  sp_forced :: bool
  sp_process_group_id :: "int option"
  sp_detail :: string

definition MAXIMUM_STOP_DETAIL_BYTES :: nat where
  "MAXIMUM_STOP_DETAIL_BYTES = 2048"

definition optional_process_group :: "pyval \<Rightarrow> int option result" where
  "optional_process_group value = (case value of
      PNone \<Rightarrow> Inr None
    | PInt n \<Rightarrow> if n \<le> 0 then Inl (Runtime_Contract_Error ''MALFORMED_STOP_PROOF'' ''process_group_id'') else Inr (Some n)
    | _ \<Rightarrow> Inl (Runtime_Contract_Error ''MALFORMED_STOP_PROOF'' ''process_group_id''))"

definition stop_proof_init :: "pyval \<Rightarrow> pyval \<Rightarrow> pyval \<Rightarrow> pyval \<Rightarrow> pyval \<Rightarrow> stop_proof result" where
  "stop_proof_init stopped reason forced process_group_id detail = (case (stopped, forced) of
      (PBool stopped, PBool forced) \<Rightarrow> (case reason of
          PStr reason \<Rightarrow>
            if \<not> is_TERMINAL_REASON reason then Inl (Runtime_Contract_Error ''MALFORMED_STOP_PROOF'' ''reason'')
            else rbind (optional_process_group process_group_id) (\<lambda>process_group_id.
              case detail of
                PStr detail \<Rightarrow> rbind (encoded_length detail) (\<lambda>n.
                  if MAXIMUM_STOP_DETAIL_BYTES < n then Inl (Runtime_Contract_Error ''MALFORMED_STOP_PROOF'' ''detail'')
                  else Inr \<lparr>sp_stopped = stopped, sp_reason = reason, sp_forced = forced,
                    sp_process_group_id = process_group_id, sp_detail = detail\<rparr>)
              | _ \<Rightarrow> Inl (Runtime_Contract_Error ''MALFORMED_STOP_PROOF'' ''detail''))
        | _ \<Rightarrow> Inl (Runtime_Contract_Error ''MALFORMED_STOP_PROOF'' ''reason''))
    | _ \<Rightarrow> Inl (Type_Error ''stop proof flags must be booleans''))"

definition stop_proof_to_value :: "stop_proof \<Rightarrow> pyval" where
  "stop_proof_to_value p = PDict
     [(''stopped'', PBool (sp_stopped p)), (''reason'', PStr (sp_reason p)), (''forced'', PBool (sp_forced p)),
      (''process_group_id'', opt_int (sp_process_group_id p)), (''detail'', PStr (sp_detail p))]"

section \<open>Outcomes\<close>

record backend_outcome =
  bo_success :: bool
  bo_terminal_reason :: string
  bo_summary :: string
  bo_contributions :: "research_contribution list"
  bo_usage_evidence :: usage_evidence
  bo_usage_bytes :: string
  bo_evidence_bytes :: string

abbreviation outcome_error :: "string \<Rightarrow> exn" where
  "outcome_error \<equiv> Runtime_Contract_Error ''MALFORMED_BACKEND_OUTCOME''"

definition no_usage_evidence :: "usage_evidence result" where
  "no_usage_evidence = unmeasured (PStr ''BACKEND_DECLARED_NO_USAGE_EVIDENCE'')
     (PStr ''the backend reported no typed usage evidence for this outcome'')"

definition backend_outcome_init ::
  "pyval \<Rightarrow> pyval \<Rightarrow> pyval \<Rightarrow> research_contribution list \<Rightarrow> pyval \<Rightarrow> pyval \<Rightarrow> usage_evidence option \<Rightarrow> backend_outcome result" where
  "backend_outcome_init success terminal_reason summary contributions usage evidence usage_evidence =
     (case success of
        PBool success \<Rightarrow> (case terminal_reason of
          PStr terminal_reason \<Rightarrow>
            if \<not> is_TERMINAL_REASON terminal_reason then Inl (outcome_error ''terminal_reason'')
            else (case summary of
              PStr summary \<Rightarrow> rbind (encoded_length summary) (\<lambda>n.
                if MAXIMUM_BACKEND_SUMMARY_BYTES < n then Inl (outcome_error ''summary'')
                else if MAXIMUM_CONTRIBUTIONS < length contributions then Inl (outcome_error ''contributions'')
                else
                  let selected_usage = (if usage = PNone then PDict [] else usage);
                      selected_evidence = (if evidence = PNone then PDict [] else evidence)
                  in if \<not> (is_PDict selected_usage \<and> is_PDict selected_evidence) then Inl (outcome_error ''metadata'')
                     else
                       rbind (case usage_evidence of None \<Rightarrow> no_usage_evidence | Some e \<Rightarrow> Inr e) (\<lambda>selected_usage_evidence.
                       rbind (json_clone selected_usage MAXIMUM_BACKEND_METADATA_BYTES ''usage'') (\<lambda>usage_clone.
                       rbind (json_clone selected_evidence MAXIMUM_BACKEND_METADATA_BYTES ''evidence'') (\<lambda>evidence_clone.
                       rbind (canonical_json usage_clone) (\<lambda>usage_bytes.
                       rbind (canonical_json evidence_clone) (\<lambda>evidence_bytes.
                         Inr \<lparr>bo_success = success, bo_terminal_reason = terminal_reason, bo_summary = summary,
                           bo_contributions = contributions, bo_usage_evidence = selected_usage_evidence,
                           bo_usage_bytes = usage_bytes, bo_evidence_bytes = evidence_bytes\<rparr>))))))
            | _ \<Rightarrow> Inl (outcome_error ''summary''))
        | _ \<Rightarrow> Inl (outcome_error ''terminal_reason''))
      | _ \<Rightarrow> Inl (outcome_error ''success''))"

definition bo_usage :: "backend_outcome \<Rightarrow> (string \<times> pyval) list result" where
  "bo_usage o' = decode_object ''usage'' (bo_usage_bytes o')"

definition bo_evidence :: "backend_outcome \<Rightarrow> (string \<times> pyval) list result" where
  "bo_evidence o' = decode_object ''evidence'' (bo_evidence_bytes o')"

definition backend_outcome_to_value :: "backend_outcome \<Rightarrow> pyval result" where
  "backend_outcome_to_value o' =
     rbind (bo_usage o') (\<lambda>usage. rbind (bo_evidence o') (\<lambda>evidence.
     rbind (rmap contribution_to_value (bo_contributions o')) (\<lambda>contributions. Inr (PDict
       [(''schema'', PStr BACKEND_OUTCOME_SCHEMA), (''success'', PBool (bo_success o')),
        (''terminal_reason'', PStr (bo_terminal_reason o')), (''summary'', PStr (bo_summary o')),
        (''usage'', PDict usage), (''evidence'', PDict evidence), (''contributions'', PList contributions)]))))"

definition OUTCOME_FIELDS :: "string list" where
  "OUTCOME_FIELDS = [''schema'', ''success'', ''terminal_reason'', ''summary'', ''usage'', ''evidence'', ''contributions'']"

definition backend_outcome_from_value :: "pyval \<Rightarrow> backend_outcome result" where
  "backend_outcome_from_value value = (case value of
      PDict d \<Rightarrow>
        if set (keys d) \<noteq> set OUTCOME_FIELDS then Inl (outcome_error ''fields'')
        else if dget ''schema'' d \<noteq> PStr BACKEND_OUTCOME_SCHEMA then Inl (outcome_error ''schema'')
        else (case dget ''contributions'' d of
            PList raw_contributions \<Rightarrow> (case rmap contribution_from_value raw_contributions of
                Inl _ \<Rightarrow> Inl (outcome_error ''contribution'')
              | Inr contributions \<Rightarrow>
                  backend_outcome_init (dget ''success'' d) (dget ''terminal_reason'' d) (dget ''summary'' d) contributions
                    (dget ''usage'' d) (dget ''evidence'' d) None)
          | _ \<Rightarrow> Inl (outcome_error ''contributions''))
    | _ \<Rightarrow> Inl (outcome_error ''fields''))"

section \<open>Correctness\<close>

lemma encoded_length_Inr [result_dests]: "encoded_length s = Inr n \<longleftrightarrow> utf8_valid s \<and> n = length s"
  by (auto simp: encoded_length_def)

lemma json_clone_Inr:
  assumes "json_wf (\<lambda>_. True) v"
  shows "json_clone v n label = Inr c \<longleftrightarrow> (\<exists>raw. canonical_json v = Inr raw \<and> length raw \<le> n \<and> c = sort_json v)"
  using plain_loads_canonical [OF _ assms] by (auto simp: json_clone_def split: sum.splits)

lemma json_clone_dict:
  assumes "json_wf (\<lambda>_. True) (PDict d)" "json_clone (PDict d) n label = Inr c" "canonical_json c = Inr raw"
  shows "decode_object what raw = Inr (sort_key fst (sort_json_items d))" "canonical_json (PDict d) = Inr raw" "length raw \<le> n"
proof -
  obtain r where r: "canonical_json (PDict d) = Inr r" "length r \<le> n" "c = sort_json (PDict d)"
    using json_clone_Inr [OF assms(1)] assms(2) by blast
  with assms(3) have "r = raw" by (simp only: canonical_json_sort_json) simp
  with r show "canonical_json (PDict d) = Inr raw" "length raw \<le> n" by simp_all
  then show "decode_object what raw = Inr (sort_key fst (sort_json_items d))"
    using plain_loads_canonical [OF _ assms(1)] by (simp add: decode_object_def)
qed

text \<open>No object of the value has a key that names a secret.\<close>

fun secret_free :: "pyval \<Rightarrow> bool" where
  "secret_free (PList vs) \<longleftrightarrow> (\<forall>v \<in> set vs. secret_free v)"
| "secret_free (PDict d) \<longleftrightarrow> (\<forall>p \<in> set d. \<not> is_SENSITIVE_KEY (fst p) \<and> secret_free (snd p))"
| "secret_free v \<longleftrightarrow> True"

lemma reject_sensitive_keys_Inr: "reject_sensitive_keys stack = Inr () \<longleftrightarrow> list_all secret_free stack"
proof (induction stack rule: reject_sensitive_keys.induct)
  case (1 stack)
  show ?case
  proof (cases stack)
    case Nil
    then show ?thesis by (simp add: reject_sensitive_keys.simps)
  next
    case (Cons selected rest)
    show ?thesis
    proof (cases selected)
      case (PDict d)
      have none: "find is_SENSITIVE_KEY (keys d) = None \<longleftrightarrow> (\<forall>p \<in> set d. \<not> is_SENSITIVE_KEY (fst p))"
        by (auto simp: find_None_iff keys_def)
      show ?thesis
      proof (cases "find is_SENSITIVE_KEY (keys d)")
        case None
        with 1(6) [OF Cons PDict None] show ?thesis using none Cons PDict
          by (subst reject_sensitive_keys.simps) (auto simp: list_all_iff)
      next
        case (Some key)
        with none show ?thesis using Cons PDict by (subst reject_sensitive_keys.simps) auto
      qed
    next
      case (PList vs)
      with 1(5) [OF Cons PList] show ?thesis using Cons
        by (subst reject_sensitive_keys.simps) (auto simp: list_all_iff)
    qed (use 1 Cons in \<open>subst reject_sensitive_keys.simps; simp\<close>)+
  qed
qed

text \<open>What the constructor of an identity establishes.\<close>

lemma secret_free_sort_json: "secret_free (sort_json v) = secret_free v"
  by (induction v rule: secret_free.induct) (force simp: sort_json_list_map sort_json_items_map)+

definition identity_ok :: "backend_identity \<Rightarrow> bool" where
  "identity_ok i \<longleftrightarrow> is_ID (bi_name i) \<and> is_PROTOCOL (bi_protocol i) \<and>
     (\<exists>d. json_wf (\<lambda>_. True) (PDict d) \<and> secret_free (PDict d) \<and>
       canonical_json (PDict d) = Inr (bi_public_config_bytes i) \<and>
       length (bi_public_config_bytes i) \<le> MAXIMUM_PUBLIC_CONFIG_BYTES)"

lemma backend_identity_init_ok:
  assumes "backend_identity_init name protocol public_config = Inr i" "json_wf (\<lambda>_. True) public_config"
  shows "identity_ok i"
proof -
  obtain d c where d: "public_config = PDict d" "is_ID (bi_name i)" "is_PROTOCOL (bi_protocol i)"
    and c: "json_clone (PDict d) MAXIMUM_PUBLIC_CONFIG_BYTES ''public_config'' = Inr c" "reject_sensitive_keys [c] = Inr ()"
      "canonical_json c = Inr (bi_public_config_bytes i)"
    using assms(1) by (auto simp: backend_identity_init_def result_dests split: pyval.splits)
  have wf: "json_wf (\<lambda>_. True) (PDict d)" using assms(2) d(1) by simp
  have "c = sort_json (PDict d)" using json_clone_Inr [OF wf] c(1) by blast
  then have "secret_free (PDict d)" using c(2) secret_free_sort_json [of "PDict d"] by (simp add: reject_sensitive_keys_Inr del: sort_json.simps)
  with d(2,3) wf json_clone_dict(2,3) [OF wf c(1,3)] show ?thesis unfolding identity_ok_def by blast
qed

lemma stop_proof_init_Inr:
  "stop_proof_init stopped reason forced process_group_id detail = Inr p \<longleftrightarrow>
   stopped = PBool (sp_stopped p) \<and> reason = PStr (sp_reason p) \<and> forced = PBool (sp_forced p) \<and>
   process_group_id = opt_int (sp_process_group_id p) \<and> detail = PStr (sp_detail p) \<and>
   is_TERMINAL_REASON (sp_reason p) \<and> pred_option (\<lambda>n. 0 < n) (sp_process_group_id p) \<and>
   utf8_valid (sp_detail p) \<and> length (sp_detail p) \<le> MAXIMUM_STOP_DETAIL_BYTES"
proof -
  have group: "optional_process_group v = Inr x \<longleftrightarrow> v = opt_int x \<and> pred_option (\<lambda>n. 0 < n) x" for v x
    by (cases x) (auto simp: optional_process_group_def opt_int_def split: pyval.splits)
  show ?thesis
    by (cases p; cases stopped; cases forced; cases reason; cases detail)
      (auto simp: stop_proof_init_def group result_dests)
qed

definition stop_proof_ok :: "stop_proof \<Rightarrow> bool" where
  "stop_proof_ok p \<longleftrightarrow> is_TERMINAL_REASON (sp_reason p) \<and> pred_option (\<lambda>n. 0 < n) (sp_process_group_id p) \<and>
     utf8_valid (sp_detail p) \<and> length (sp_detail p) \<le> MAXIMUM_STOP_DETAIL_BYTES"

definition metadata_ok :: "string \<Rightarrow> bool" where
  "metadata_ok raw \<longleftrightarrow> length raw \<le> MAXIMUM_BACKEND_METADATA_BYTES \<and>
     (\<exists>d. json_wf (\<lambda>_. True) (PDict d) \<and> canonical_json (PDict d) = Inr raw)"

definition outcome_ok :: "backend_outcome \<Rightarrow> bool" where
  "outcome_ok o' \<longleftrightarrow> is_TERMINAL_REASON (bo_terminal_reason o') \<and> utf8_valid (bo_summary o') \<and>
     length (bo_summary o') \<le> MAXIMUM_BACKEND_SUMMARY_BYTES \<and> length (bo_contributions o') \<le> MAXIMUM_CONTRIBUTIONS \<and>
     (\<forall>c \<in> set (bo_contributions o'). contribution_ok c) \<and> metadata_ok (bo_usage_bytes o') \<and> metadata_ok (bo_evidence_bytes o')"

text \<open>What a canonical object decodes to can be encoded again, to the same bytes.\<close>

lemma metadata_okE:
  assumes "metadata_ok raw"
  obtains d where "\<And>what. decode_object what raw = Inr d" "json_wf (\<lambda>_. True) (PDict d)" "canonical_json (PDict d) = Inr raw"
    "length raw \<le> MAXIMUM_BACKEND_METADATA_BYTES"
proof -
  obtain d where d: "json_wf (\<lambda>_. True) (PDict d)" "canonical_json (PDict d) = Inr raw" "length raw \<le> MAXIMUM_BACKEND_METADATA_BYTES"
    using assms by (auto simp: metadata_ok_def)
  let ?e = "sort_key fst (sort_json_items d)"
  have e: "sort_json (PDict d) = PDict ?e" by simp
  have "json_wf (\<lambda>_. True) (sort_json (PDict d))"
    using d(1) by (simp only: json_wf_sort_json)
  moreover have "canonical_json (sort_json (PDict d)) = Inr raw" using d(2) by (simp only: canonical_json_sort_json)
  moreover have "decode_object what raw = Inr ?e" for what
    using plain_loads_canonical [OF d(2,1)] by (simp add: decode_object_def)
  ultimately show thesis using d(3) that [of ?e] unfolding e by blast
qed

lemma no_usage_evidence_Inr: "\<exists>e. no_usage_evidence = Inr e"
proof -
  have "case no_usage_evidence of Inl _ \<Rightarrow> False | Inr _ \<Rightarrow> True" by code_simp
  then show ?thesis by (auto split: sum.splits)
qed

lemma json_clone_ok:
  assumes "json_wf (\<lambda>_. True) v" "is_PDict v" "json_clone v MAXIMUM_BACKEND_METADATA_BYTES label = Inr c" "canonical_json c = Inr raw"
  shows "metadata_ok raw"
  using assms json_clone_dict(2,3) [OF _ _ assms(4)] by (cases v) (auto simp: metadata_ok_def simp del: json_wf.simps)

lemma backend_outcome_init_ok:
  assumes "backend_outcome_init success terminal_reason summary contributions usage evidence usage_evidence = Inr o'"
    and "\<forall>c \<in> set contributions. contribution_ok c" "json_wf (\<lambda>_. True) usage" "json_wf (\<lambda>_. True) evidence"
  shows "outcome_ok o' \<and> (usage_evidence = None \<longrightarrow> no_usage_evidence = Inr (bo_usage_evidence o'))"
proof -
  have wf: "json_wf (\<lambda>_. True) (if usage = PNone then PDict [] else usage)"
    "json_wf (\<lambda>_. True) (if evidence = PNone then PDict [] else evidence)" using assms(3,4) by simp_all
  show ?thesis
    using assms(1,2) json_clone_ok [OF wf(1)] json_clone_ok [OF wf(2)]
    by (auto simp: backend_outcome_init_def outcome_ok_def result_dests Let_def simp del: json_wf.simps split: pyval.splits option.splits)
qed

lemma json_clone_same:
  assumes "json_wf (\<lambda>_. True) v" "canonical_json v = Inr raw" "length raw \<le> n"
  shows "rbind (json_clone v n label) canonical_json = Inr raw"
proof -
  have "json_clone v n label = Inr (sort_json v)" using assms json_clone_Inr by blast
  with assms(2) show ?thesis by (simp add: canonical_json_sort_json)
qed

lemma backend_outcome_init_again:
  assumes "outcome_ok o'" "no_usage_evidence = Inr e" "bo_usage o' = Inr u" "bo_evidence o' = Inr v"
  shows "backend_outcome_init (PBool (bo_success o')) (PStr (bo_terminal_reason o')) (PStr (bo_summary o'))
    (bo_contributions o') (PDict u) (PDict v) None = Inr (o'\<lparr>bo_usage_evidence := e\<rparr>)"
proof -
  obtain du where du: "bo_usage o' = Inr du" "json_wf (\<lambda>_. True) (PDict du)" "canonical_json (PDict du) = Inr (bo_usage_bytes o')"
    "length (bo_usage_bytes o') \<le> MAXIMUM_BACKEND_METADATA_BYTES"
    using assms(1) unfolding bo_usage_def by (auto simp: outcome_ok_def elim: metadata_okE)
  obtain dv where dv: "bo_evidence o' = Inr dv" "json_wf (\<lambda>_. True) (PDict dv)" "canonical_json (PDict dv) = Inr (bo_evidence_bytes o')"
    "length (bo_evidence_bytes o') \<le> MAXIMUM_BACKEND_METADATA_BYTES"
    using assms(1) unfolding bo_evidence_def by (auto simp: outcome_ok_def elim: metadata_okE)
  have same: "u = du" "v = dv" using assms(3,4) du(1) dv(1) by simp_all
  obtain cu where cu: "json_clone (PDict u) MAXIMUM_BACKEND_METADATA_BYTES ''usage'' = Inr cu" "canonical_json cu = Inr (bo_usage_bytes o')"
    using json_clone_same [OF du(2-4), of "''usage''"] same by (auto simp: rbind_Inr_iff)
  obtain cv where cv: "json_clone (PDict v) MAXIMUM_BACKEND_METADATA_BYTES ''evidence'' = Inr cv" "canonical_json cv = Inr (bo_evidence_bytes o')"
    using json_clone_same [OF dv(2-4), of "''evidence''"] same by (auto simp: rbind_Inr_iff)
  show ?thesis
    using assms(1) cu cv by (simp add: backend_outcome_init_def encoded_length_def outcome_ok_def assms(2))
qed

lemma outcome_contributions:
  "\<forall>c \<in> set cs. contribution_ok c \<Longrightarrow> \<exists>vs. rmap contribution_to_value cs = Inr vs \<and> rmap contribution_from_value vs = Inr cs"
proof (induction cs)
  case (Cons c cs)
  then obtain vs where "rmap contribution_to_value cs = Inr vs" "rmap contribution_from_value vs = Inr cs" by auto
  moreover obtain v where "contribution_to_value c = Inr v" "contribution_from_value v = Inr c"
    using contribution_roundtrip [of c] Cons.prems by (auto simp: rbind_Inr_iff)
  ultimately show ?case by simp
qed simp

lemma outcome_reads_back:
  assumes "outcome_ok o'" "no_usage_evidence = Inr e"
  shows "rbind (backend_outcome_to_value o') backend_outcome_from_value = Inr (o'\<lparr>bo_usage_evidence := e\<rparr>)"
proof -
  obtain u where u: "bo_usage o' = Inr u" using assms(1) unfolding bo_usage_def by (auto simp: outcome_ok_def elim: metadata_okE)
  obtain v where v: "bo_evidence o' = Inr v" using assms(1) unfolding bo_evidence_def by (auto simp: outcome_ok_def elim: metadata_okE)
  obtain vs where vs: "rmap contribution_to_value (bo_contributions o') = Inr vs" "rmap contribution_from_value vs = Inr (bo_contributions o')"
    using outcome_contributions assms(1) by (auto simp: outcome_ok_def)
  show ?thesis
    using backend_outcome_init_again [OF assms u v] vs u v
    by (simp add: backend_outcome_to_value_def backend_outcome_from_value_def OUTCOME_FIELDS_def insert_commute)
qed

end
