(* ===== verification/Receipt_Blocks.thy ===== *)
theory Receipt_Blocks
  imports Contracts Context_Window Records
begin

text \<open>
  The validators of the blocks of a session receipt and of the launch, \<^verbatim>\<open>runtime/store.py\<close>: stop proof,
  outcome, error, resource evidence, verifier kit and agenda arm. The store does not import the producers
  of the blocks, so each validator restates a vocabulary. The lemmas invert the validators whose verdict the
  terminal invariants of a receipt depend on.
\<close>

section \<open>Conditions\<close>

definition store_fail :: "string \<Rightarrow> string \<Rightarrow> exn" where
  "store_fail code detail = Runtime_Store_Error code (cp_take 2000 detail)"

abbreviation receipt_error :: "string \<Rightarrow> string \<Rightarrow> exn" where
  "receipt_error what session_id \<equiv> store_fail ''MALFORMED_SESSION_RECEIPT'' (what @ session_id)"

abbreviation launch_error :: "string \<Rightarrow> exn" where
  "launch_error \<equiv> store_fail ''MALFORMED_RUNTIME_LAUNCH''"

text \<open>A chain of conditions joined by \<open>or\<close>: the first one that raises or holds ends it.\<close>

fun any_of :: "bool result list \<Rightarrow> bool result" where
  "any_of [] = Inr False"
| "any_of (m # ms) = rbind m (\<lambda>b. if b then Inr True else any_of ms)"

definition refuse_if :: "bool result list \<Rightarrow> exn \<Rightarrow> unit result" where
  "refuse_if ms e = rbind (any_of ms) (\<lambda>b. if b then Inl e else Inr ())"

text \<open>
  \<open>==\<close> of decoded documents: \<open>True\<close> is 1 and \<open>False\<close> is 0, dictionaries are compared as mappings. A foreign
  object equals nothing.
\<close>

fun py_eq :: "pyval \<Rightarrow> pyval \<Rightarrow> bool" and py_eq_list :: "pyval list \<Rightarrow> pyval list \<Rightarrow> bool"
  and py_eq_items :: "(string \<times> pyval) list \<Rightarrow> (string \<times> pyval) list \<Rightarrow> bool" where
  "py_eq (PDict d) w = (case w of PDict e \<Rightarrow> length d = length e \<and> py_eq_items d e | _ \<Rightarrow> False)"
| "py_eq (PList vs) w = (case w of PList ws \<Rightarrow> py_eq_list vs ws | _ \<Rightarrow> False)"
| "py_eq (PBool b) w = (case w of PBool c \<Rightarrow> b = c | PInt n \<Rightarrow> n = of_bool b | _ \<Rightarrow> False)"
| "py_eq (PInt n) w = (case w of PInt m \<Rightarrow> n = m | PBool b \<Rightarrow> n = of_bool b | _ \<Rightarrow> False)"
| "py_eq (PStr s) w = (w = PStr s)"
| "py_eq PNone w = (w = PNone)"
| "py_eq (POther t) w = False"
| "py_eq_list [] ws = (ws = [])"
| "py_eq_list (v # vs) ws = (case ws of [] \<Rightarrow> False | x # xs \<Rightarrow> py_eq v x \<and> py_eq_list vs xs)"
| "py_eq_items [] e = True"
| "py_eq_items ((k, v) # d) e = ((case map_of e k of None \<Rightarrow> False | Some w \<Rightarrow> py_eq v w) \<and> py_eq_items d e)"

text \<open>\<open>in\<close> on a set of texts; a list or a dictionary cannot be hashed.\<close>

definition unhashable :: "pyval \<Rightarrow> bool" where
  "unhashable v \<longleftrightarrow> is_PList v \<or> is_PDict v"

definition member_of :: "string list \<Rightarrow> pyval \<Rightarrow> bool result" where
  "member_of ss v =
     (if unhashable v then Inl (Type_Error (''unhashable type: '' @ type_name v)) else Inr (v \<in> PStr ` set ss))"

definition not_member :: "string list \<Rightarrow> pyval \<Rightarrow> bool result" where
  "not_member ss v = rbind (member_of ss v) (\<lambda>b. Inr (\<not> b))"

definition is_PBool :: "pyval \<Rightarrow> bool" where
  "is_PBool v = (case v of PBool _ \<Rightarrow> True | _ \<Rightarrow> False)"

definition text_where :: "(string \<Rightarrow> bool) \<Rightarrow> pyval \<Rightarrow> bool" where
  "text_where p v = (case v of PStr s \<Rightarrow> p s | _ \<Rightarrow> False)"

definition int_where :: "(int \<Rightarrow> bool) \<Rightarrow> pyval \<Rightarrow> bool" where
  "int_where p v = (case v of PInt n \<Rightarrow> p n | _ \<Rightarrow> False)"

definition nonempty_text :: "pyval \<Rightarrow> bool" where
  "nonempty_text = text_where (\<lambda>s. s \<noteq> [])"

definition nonnegative :: "pyval \<Rightarrow> bool" where
  "nonnegative = int_where (\<lambda>n. 0 \<le> n)"

text \<open>\<open>type(v) is not str or len(v.encode("utf-8", errors="strict")) > maximum\<close>\<close>

definition not_text_within :: "nat \<Rightarrow> pyval \<Rightarrow> bool result" where
  "not_text_within maximum v = (case v of PStr s \<Rightarrow> rbind (encoded_length s) (\<lambda>n. Inr (maximum < n)) | _ \<Rightarrow> Inr True)"

definition has_fields :: "string list \<Rightarrow> pyval \<Rightarrow> bool" where
  "has_fields names v = (case v of PDict d \<Rightarrow> set (keys d) = set names | _ \<Rightarrow> False)"

text \<open>\<open>v.get(key)\<close> of a value that has been seen to be a dictionary, and \<open>v.get(key) if type(v) is dict else None\<close>\<close>

definition vget :: "string \<Rightarrow> pyval \<Rightarrow> pyval" where
  "vget k v = (case v of PDict d \<Rightarrow> dget k d | _ \<Rightarrow> PNone)"

definition items_of :: "pyval \<Rightarrow> (string \<times> pyval) list" where
  "items_of v = (case v of PDict d \<Rightarrow> d | _ \<Rightarrow> [])"

definition elements_of :: "pyval \<Rightarrow> pyval list" where
  "elements_of v = (case v of PList vs \<Rightarrow> vs | _ \<Rightarrow> [])"

definition bounded_utc_timestamp :: "pyval \<Rightarrow> bool result" where
  "bounded_utc_timestamp v = (case v of
      PStr s \<Rightarrow> if s = [] \<or> last s \<noteq> CHR ''Z'' then Inr False
        else rbind (encoded_length s) (\<lambda>n. Inr (1 < n \<and> n \<le> 64))
    | _ \<Rightarrow> Inr False)"

definition bounded_json_object :: "nat \<Rightarrow> pyval \<Rightarrow> bool" where
  "bounded_json_object maximum_bytes v =
     (is_PDict v \<and> (case canonical_json v of Inl _ \<Rightarrow> False | Inr raw \<Rightarrow> length raw \<le> maximum_bytes))"

text \<open>
  \<open>sorted(set(values)) != values\<close>. Elements are hashed first; two that are neither both texts nor both
  numbers cannot be compared, and sorting compares some two such elements when there are any.
\<close>

fun number_of :: "pyval \<Rightarrow> int option" where
  "number_of (PInt n) = Some n"
| "number_of (PBool b) = Some (of_bool b)"
| "number_of _ = None"

definition not_sorted_set :: "pyval list \<Rightarrow> bool result" where
  "not_sorted_set vs =
     (if list_ex unhashable vs then Inl (Type_Error ''unhashable type'')
      else if list_all (text_where (\<lambda>_. True)) vs
        then Inr (let ss = concat (map (\<lambda>v. case v of PStr s \<Rightarrow> [s] | _ \<Rightarrow> []) vs) in \<not> (sorted ss \<and> distinct ss))
      else if list_all (\<lambda>v. number_of v \<noteq> None) vs
        then Inr (let ns = map (\<lambda>v. the (number_of v)) vs in \<not> (sorted ns \<and> distinct ns))
      else if length (remdups vs) = 1 then Inr (length vs \<noteq> 1)
      else Inl (Type_Error ''not supported between instances''))"

section \<open>Stop proof, outcome and error\<close>

definition STOP_PROOF_FIELDS :: "string list" where
  "STOP_PROOF_FIELDS = [''stopped'', ''reason'', ''forced'', ''process_group_id'', ''detail'']"

definition validate_stop_proof :: "string \<Rightarrow> pyval \<Rightarrow> bool option result" where
  "validate_stop_proof session_id value =
     (if value = PNone then Inr None
      else if \<not> has_fields STOP_PROOF_FIELDS value then Inl (receipt_error ''stop_proof '' session_id)
      else
        let stopped = vget ''stopped'' value; process_group_id = vget ''process_group_id'' value
        in rbind (refuse_if
          [Inr (\<not> is_PBool stopped), Inr (\<not> is_PBool (vget ''forced'' value)),
           Inr (\<not> text_where is_TERMINAL_REASON (vget ''reason'' value)),
           Inr (process_group_id \<noteq> PNone \<and> \<not> int_where (\<lambda>n. 0 < n) process_group_id),
           not_text_within 2048 (vget ''detail'' value)]
          (receipt_error ''stop_proof '' session_id)) (\<lambda>_. Inr (Some (stopped = PBool True))))"

definition RECEIPT_OUTCOME_FIELDS :: "string list" where
  "RECEIPT_OUTCOME_FIELDS =
     [''success'', ''terminal_reason'', ''summary'', ''usage'', ''evidence'', ''contribution_count'', ''contribution_sha256'']"

definition validate_receipt_outcome :: "string \<Rightarrow> pyval \<Rightarrow> bool option result" where
  "validate_receipt_outcome session_id value =
     (if value = PNone then Inr None
      else if \<not> has_fields RECEIPT_OUTCOME_FIELDS value then Inl (receipt_error ''outcome '' session_id)
      else
        let success = vget ''success'' value; contribution_count = vget ''contribution_count'' value;
            contribution_sha256 = vget ''contribution_sha256'' value
        in rbind (refuse_if
          [Inr (\<not> is_PBool success), Inr (\<not> text_where is_TERMINAL_REASON (vget ''terminal_reason'' value)),
           not_text_within 65536 (vget ''summary'' value),
           Inr (\<not> bounded_json_object 1048576 (vget ''usage'' value)),
           Inr (\<not> bounded_json_object 1048576 (vget ''evidence'' value)),
           Inr (\<not> int_where (\<lambda>n. 0 \<le> n \<and> n \<le> 64) contribution_count),
           Inr (\<not> is_PList contribution_sha256),
           Inr (\<not> int_where (\<lambda>n. int (length (elements_of contribution_sha256)) = n) contribution_count),
           Inr (\<not> list_all (text_where matches_sha256) (elements_of contribution_sha256))]
          (receipt_error ''outcome '' session_id)) (\<lambda>_. Inr (Some (success = PBool True))))"

definition ERROR_FIELDS :: "string list" where
  "ERROR_FIELDS = [''code'', ''type'']"

definition validate_receipt_error :: "string \<Rightarrow> pyval \<Rightarrow> unit result" where
  "validate_receipt_error session_id value =
     (if value = PNone then Inr ()
      else if \<not> has_fields ERROR_FIELDS value then Inl (receipt_error ''error '' session_id)
      else refuse_if
        [Inr (\<not> nonempty_text (vget ''code'' value)), not_text_within 128 (vget ''code'' value),
         if vget ''type'' value = PNone then Inr False else not_text_within 512 (vget ''type'' value)]
        (receipt_error ''error '' session_id))"

section \<open>Resource evidence\<close>

definition resource_nonnegative_object :: "string list \<Rightarrow> pyval \<Rightarrow> bool" where
  "resource_nonnegative_object names value =
     (has_fields names value \<and> list_all (\<lambda>field. nonnegative (vget field value)) names)"

definition RESOURCE_EVENT_FIELDS :: "string list" where
  "RESOURCE_EVENT_FIELDS =
     [''code'', ''scope'', ''target'', ''phase'', ''disposition'', ''session_id'', ''uncertain'', ''observed'', ''limits'', ''detail'']"

definition not_bounded_counts :: "pyval \<Rightarrow> bool" where
  "not_bounded_counts v = (\<not> is_PDict v \<or> 4 < length (items_of v) \<or> \<not> list_all (\<lambda>(_, n). nonnegative n) (items_of v))"

definition validate_resource_event :: "string \<Rightarrow> pyval \<Rightarrow> unit result" where
  "validate_resource_event session_id value =
     (if \<not> has_fields RESOURCE_EVENT_FIELDS value then Inl (receipt_error ''resource event '' session_id)
      else
        let event_session = vget ''session_id'' value; scope = vget ''scope'' value;
            disposition = vget ''disposition'' value; uncertain = vget ''uncertain'' value
        in refuse_if
          [Inr (\<not> text_where is_TERMINAL_REASON (vget ''code'' value)),
           not_member [''SESSION'', ''COHORT''] scope,
           not_member [''host_filesystem'', ''workspace'', ''cache''] (vget ''target'' value),
           not_member [''INITIAL'', ''LIVE'', ''TERMINAL''] (vget ''phase'' value),
           (if disposition = PNone then Inr False else not_member [''SESSION_STOP'', ''JOB_STOP'', ''REJECT'', ''WARN''] disposition),
           Inr (event_session \<noteq> PNone \<and> \<not> text_where is_ID event_session),
           Inr (\<not> is_PBool uncertain),
           Inr (scope = PStr ''SESSION'' \<and> event_session \<noteq> PStr session_id),
           Inr (uncertain = PBool True \<and> disposition \<noteq> PNone),
           Inr (uncertain \<noteq> PBool True \<and> disposition = PNone),
           Inr (not_bounded_counts (vget ''observed'' value)),
           Inr (not_bounded_counts (vget ''limits'' value)),
           not_text_within 512 (vget ''detail'' value)]
          (receipt_error ''resource event '' session_id))"

definition RESOURCE_GUARD_FIELDS :: "string list" where
  "RESOURCE_GUARD_FIELDS = [''schema'', ''checks'', ''latest'', ''terminal_event'', ''warnings'']"

definition RESOURCE_CHECK_FIELDS :: "string list" where
  "RESOURCE_CHECK_FIELDS = [''disk'', ''workspace'', ''cache'']"

definition RESOURCE_TREE_SNAPSHOT_FIELDS :: "string list" where
  "RESOURCE_TREE_SNAPSHOT_FIELDS = [''total_bytes'', ''entries'', ''maximum_depth'']"

definition RESOURCE_DISK_SNAPSHOT_FIELDS :: "string list" where
  "RESOURCE_DISK_SNAPSHOT_FIELDS = [''total_bytes'', ''available_bytes'', ''required_free_bytes'']"

definition not_latest :: "string list \<Rightarrow> pyval \<Rightarrow> bool" where
  "not_latest names v = (v \<noteq> PNone \<and> \<not> resource_nonnegative_object names v)"

fun validate_warnings :: "string \<Rightarrow> pyval list \<Rightarrow> unit result" where
  "validate_warnings session_id [] = Inr ()"
| "validate_warnings session_id (warning # ws) =
     rbind (validate_resource_event session_id warning) (\<lambda>_.
       if vget ''disposition'' warning \<noteq> PStr ''WARN'' then Inl (receipt_error ''resource_guard '' session_id)
       else validate_warnings session_id ws)"

definition validate_resource_guard :: "string \<Rightarrow> pyval \<Rightarrow> unit result" where
  "validate_resource_guard session_id value =
     (if \<not> has_fields RESOURCE_GUARD_FIELDS value then Inl (receipt_error ''resource_guard '' session_id)
      else
        let latest = vget ''latest'' value; terminal = vget ''terminal_event'' value; warnings = vget ''warnings'' value
        in rbind (refuse_if
             [Inr (vget ''schema'' value \<noteq> PStr ''PMW_RUNTIME_RESOURCE_EVIDENCE_1''),
              Inr (\<not> resource_nonnegative_object RESOURCE_CHECK_FIELDS (vget ''checks'' value)),
              Inr (\<not> has_fields RESOURCE_CHECK_FIELDS latest),
              Inr (not_latest RESOURCE_DISK_SNAPSHOT_FIELDS (vget ''disk'' latest)),
              Inr (not_latest RESOURCE_TREE_SNAPSHOT_FIELDS (vget ''workspace'' latest)),
              Inr (not_latest RESOURCE_TREE_SNAPSHOT_FIELDS (vget ''cache'' latest)),
              Inr (\<not> is_PList warnings \<or> 4 < length (elements_of warnings))]
             (receipt_error ''resource_guard '' session_id)) (\<lambda>_.
           rbind (if terminal = PNone then Inr ()
                  else rbind (validate_resource_event session_id terminal) (\<lambda>_.
                    if vget ''disposition'' terminal = PStr ''WARN'' then Inl (receipt_error ''resource_guard '' session_id) else Inr ()))
             (\<lambda>_. validate_warnings session_id (elements_of warnings))))"

section \<open>Verifier kit\<close>

definition MAXIMUM_VERIFIER_KIT_LAUNCH_BYTES :: nat where
  "MAXIMUM_VERIFIER_KIT_LAUNCH_BYTES = 8192"

definition IN_SESSION_VERIFIER_AUTHORITY :: string where
  "IN_SESSION_VERIFIER_AUTHORITY = ''ADVISORY_IN_SESSION_VERIFICATION''"

definition SETTLEMENT_VERIFIER_AUTHORITY :: string where
  "SETTLEMENT_VERIFIER_AUTHORITY = ''HOST_REEXECUTED_PINNED_AMF_VERIFIER''"

definition VERIFIER_KIT_EVIDENCE_FIELDS :: "string list" where
  "VERIFIER_KIT_EVIDENCE_FIELDS =
     [''schema'', ''mode'', ''authority'', ''settlement_authority'', ''counting_authority'', ''evidence_directory'',
      ''kit_content_sha256'', ''ledger'', ''invocation_count'', ''verdict_counts'', ''rejected_entries'', ''truncated'']"

text \<open>The hash of a canonical document is compared with a text of the launch.\<close>

definition digest_differs :: "(string \<Rightarrow> string) \<Rightarrow> string \<Rightarrow> pyval \<Rightarrow> bool" where
  "digest_differs sha256 raw expected = (expected \<noteq> PStr (sha256 raw))"

definition validate_launch_verifier_kit :: "(string \<Rightarrow> string) \<Rightarrow> pyval \<Rightarrow> unit result" where
  "validate_launch_verifier_kit sha256 launch =
     (let value = vget ''verifier_kit'' launch
      in if \<not> is_PDict value then Inl (launch_error ''verifier_kit'')
         else rbind (canonical_json value) (\<lambda>raw.
           rbind (refuse_if
             [Inr (vget ''schema'' value \<noteq> PStr ''PMW_IN_SESSION_VERIFIER_KIT_LAUNCH_1''),
              not_member [''MATERIALIZED'', ''DISABLED''] (vget ''mode'' value),
              Inr (vget ''authority'' value \<noteq> PStr IN_SESSION_VERIFIER_AUTHORITY),
              Inr (vget ''settlement_authority'' value \<noteq> PStr SETTLEMENT_VERIFIER_AUTHORITY),
              Inr (MAXIMUM_VERIFIER_KIT_LAUNCH_BYTES < length raw),
              Inr (digest_differs sha256 raw (vget ''verifier_kit_sha256'' launch))]
             (launch_error ''verifier_kit'')) (\<lambda>_.
           if vget ''mode'' value \<noteq> PStr ''MATERIALIZED'' then Inr ()
           else case find (\<lambda>label. \<not> text_where matches_sha256 (vget label value))
                  [''kit_sha256'', ''content_sha256'', ''manifest_sha256'', ''interpreter_sha256'', ''target_ids_sha256''] of
               Some label \<Rightarrow> Inl (launch_error (''verifier_kit.'' @ label))
             | None \<Rightarrow> refuse_if
                 [Inr (vget ''credential_material'' value \<noteq> PBool False),
                  Inr (\<not> int_where (\<lambda>n. 1 \<le> n) (vget ''file_count'' value)),
                  Inr (\<not> int_where (\<lambda>n. 1 \<le> n) (vget ''total_bytes'' value)),
                  Inr (\<not> int_where (\<lambda>n. 1 \<le> n) (vget ''target_count'' value)),
                  Inr (\<not> nonempty_text (vget ''entrypoint'' value))]
                 (launch_error ''verifier_kit identity''))))"

definition validate_verifier_kit_evidence :: "string \<Rightarrow> pyval \<Rightarrow> pyval \<Rightarrow> unit result" where
  "validate_verifier_kit_evidence session_id launch value =
     (if \<not> has_fields VERIFIER_KIT_EVIDENCE_FIELDS value then Inl (receipt_error ''verifier_kit '' session_id)
      else
        let counts = vget ''verdict_counts'' value; kit_digest = vget ''kit_content_sha256'' value;
            invocation_count = vget ''invocation_count'' value; mode = vget ''mode'' value; ledger = vget ''ledger'' value;
            kit = vget ''verifier_kit'' launch
        in rbind (refuse_if
             [Inr (vget ''schema'' value \<noteq> PStr ''PMW_IN_SESSION_VERIFIER_KIT_SESSION_EVIDENCE_1''),
              not_member [''MATERIALIZED'', ''DISABLED''] mode,
              Inr (vget ''authority'' value \<noteq> PStr IN_SESSION_VERIFIER_AUTHORITY),
              Inr (vget ''settlement_authority'' value \<noteq> PStr SETTLEMENT_VERIFIER_AUTHORITY),
              Inr (\<not> nonempty_text (vget ''counting_authority'' value)),
              Inr (\<not> nonempty_text (vget ''evidence_directory'' value)),
              not_member [''OBSERVED'', ''ABSENT'', ''UNREADABLE'', ''NOT_MATERIALIZED''] ledger,
              Inr (\<not> is_PBool (vget ''truncated'' value)),
              Inr (\<not> nonnegative invocation_count),
              Inr (\<not> nonnegative (vget ''rejected_entries'' value)),
              Inr (\<not> has_fields [''PASS'', ''REJECTED'', ''APPARATUS_ERROR''] counts),
              Inr (\<not> list_all (\<lambda>(_, n). nonnegative n) (items_of counts)),
              Inr (invocation_count \<noteq> PInt (sum_list (map (\<lambda>(_, n). case n of PInt i \<Rightarrow> i | _ \<Rightarrow> 0) (items_of counts)))),
              Inr (kit_digest \<noteq> PNone \<and> \<not> text_where matches_sha256 kit_digest)]
             (receipt_error ''verifier_kit '' session_id)) (\<lambda>_.
           if \<not> py_eq mode (vget ''mode'' kit) then Inl (receipt_error ''verifier_kit mode '' session_id)
           else if mode = PStr ''MATERIALIZED'' then
             (if \<not> py_eq kit_digest (vget ''content_sha256'' kit) \<or> ledger = PStr ''NOT_MATERIALIZED''
              then Inl (receipt_error ''verifier_kit binding '' session_id) else Inr ())
           else if kit_digest \<noteq> PNone \<or> ledger \<noteq> PStr ''NOT_MATERIALIZED''
             then Inl (receipt_error ''verifier_kit binding '' session_id)
           else Inr ()))"

section \<open>Sessions of a launch\<close>

definition MAXIMUM_SESSIONS :: nat where
  "MAXIMUM_SESSIONS = 4096"

definition rt_identifier :: "string \<Rightarrow> pyval \<Rightarrow> string result" where
  "rt_identifier label value = (case value of
      PStr s \<Rightarrow> if is_ID s then Inr s else Inl (store_fail ''MALFORMED_RUNTIME_IDENTIFIER'' label)
    | _ \<Rightarrow> Inl (store_fail ''MALFORMED_RUNTIME_IDENTIFIER'' label))"

definition validate_session_ids :: "pyval list \<Rightarrow> string list result" where
  "validate_session_ids session_ids = rbind (rmap (rt_identifier ''session_id'') session_ids) (\<lambda>selected.
     if length selected < 1 \<or> MAXIMUM_SESSIONS < length selected \<or> \<not> distinct selected
     then Inl (store_fail ''MALFORMED_SESSION_SET'' []) else Inr selected)"

definition session_of_row :: "pyval \<Rightarrow> pyval result" where
  "session_of_row row = (case row of
      PStr s \<Rightarrow> Inr (PStr s)
    | PDict d \<Rightarrow> Inr (dget ''session_id'' d)
    | _ \<Rightarrow> Inl (store_fail ''MALFORMED_LAUNCH_SESSION_SET'' ''sessions''))"

definition launch_session_ids :: "pyval \<Rightarrow> string list result" where
  "launch_session_ids launch =
     (let direct = vget ''session_ids'' launch; sessions = vget ''sessions'' launch
      in rbind (if direct = PNone then Inr []
                else if \<not> is_PList direct then Inl (store_fail ''MALFORMED_LAUNCH_SESSION_SET'' ''session_ids'')
                else rbind (validate_session_ids (elements_of direct)) (\<lambda>ids. Inr [ids])) (\<lambda>first.
         rbind (if sessions = PNone then Inr []
                else if \<not> is_PList sessions then Inl (store_fail ''MALFORMED_LAUNCH_SESSION_SET'' ''sessions'')
                else rbind (rmap session_of_row (elements_of sessions)) (\<lambda>extracted.
                  rbind (validate_session_ids extracted) (\<lambda>ids. Inr [ids]))) (\<lambda>second.
         case first @ second of
           [] \<Rightarrow> Inl (store_fail ''MALFORMED_LAUNCH_SESSION_SET'' [])
         | ids # rest \<Rightarrow> if list_ex (\<lambda>other. other \<noteq> ids) rest then Inl (store_fail ''MALFORMED_LAUNCH_SESSION_SET'' [])
             else Inr ids)))"

section \<open>Agenda arm\<close>

definition MAXIMUM_AGENDA_ARM_LAUNCH_BYTES :: nat where
  "MAXIMUM_AGENDA_ARM_LAUNCH_BYTES = 262144"

definition MAXIMUM_AGENDA_ARM_EVIDENCE_BYTES :: nat where
  "MAXIMUM_AGENDA_ARM_EVIDENCE_BYTES = 262144"

definition MAXIMUM_AGENDA_ARM_DECISIONS :: nat where
  "MAXIMUM_AGENDA_ARM_DECISIONS = 64"

definition is_AGENDA_VERDICT_CODE :: "string \<Rightarrow> bool" where
  "is_AGENDA_VERDICT_CODE = matches_ident is_upper (\<lambda>c. is_upper c \<or> is_digit c \<or> c = CHR ''_'') 63"

definition AGENDA_ARM_LAUNCH_FIELDS :: "string list" where
  "AGENDA_ARM_LAUNCH_FIELDS =
     [''schema'', ''mode'', ''arm'', ''instruments'', ''admitted_payload_schemas'', ''coordinator_session_ids'',
      ''admitting_slots'', ''open_admission'', ''require_claim_for_primary_action'', ''enforce_directive_citation'',
      ''agenda_clock'', ''lease_release'', ''enforcement'', ''rejection_semantics'']"

definition AGENDA_ARM_LAUNCH_ABSENT_FIELDS :: "string list" where
  "AGENDA_ARM_LAUNCH_ABSENT_FIELDS = [''schema'', ''mode'', ''reason'', ''enforcement'']"

definition AGENDA_ARM_EVIDENCE_FIELDS :: "string list" where
  "AGENDA_ARM_EVIDENCE_FIELDS =
     [''schema'', ''mode'', ''arm'', ''arm_sha256'', ''reviewed'', ''admitted'', ''rejected'', ''verdicts'',
      ''instrument_attempts'', ''records_by_schema'', ''route_declarations'', ''lease_release'', ''agenda_clock'',
      ''decisions'', ''truncated'', ''publication_divergences'', ''rejection_semantics'']"

definition AGENDA_ARM_EVIDENCE_ABSENT_FIELDS :: "string list" where
  "AGENDA_ARM_EVIDENCE_ABSENT_FIELDS =
     [''schema'', ''mode'', ''arm'', ''arm_sha256'', ''reviewed'', ''admitted'', ''rejected'', ''reason'']"

definition AGENDA_ARM_ROUTE_FIELDS :: "string list" where
  "AGENDA_ARM_ROUTE_FIELDS =
     [''count'', ''with_peer_trigger_refs'', ''resolved_peer_trigger_refs'', ''dangling_rejected'', ''differentiation_notes'']"

definition AGENDA_ARM_DECISION_FIELDS :: "string list" where
  "AGENDA_ARM_DECISION_FIELDS =
     [''ordinal'', ''kind'', ''payload_schema'', ''instrument'', ''code'', ''admitted'', ''detail'']"

definition text_elements :: "pyval \<Rightarrow> string list" where
  "text_elements v = concat (map (\<lambda>x. case x of PStr s \<Rightarrow> [s] | _ \<Rightarrow> []) (elements_of v))"

text \<open>\<open>set(values) <= session_ids\<close>, after the elements have been hashed\<close>

definition not_subset :: "string list \<Rightarrow> pyval \<Rightarrow> bool" where
  "not_subset session_ids v = (\<not> list_all (\<lambda>x. x \<in> PStr ` set session_ids) (elements_of v))"

definition not_text_list :: "pyval \<Rightarrow> bool" where
  "not_text_list v = (\<not> list_all nonempty_text (elements_of v))"

definition is_text :: "pyval \<Rightarrow> bool" where
  "is_text = text_where (\<lambda>_. True)"

definition validate_launch_agenda_arm :: "(string \<Rightarrow> string) \<Rightarrow> pyval \<Rightarrow> unit result" where
  "validate_launch_agenda_arm sha256 launch =
     (let value = vget ''agenda_arm'' launch
      in if \<not> is_PDict value then Inl (launch_error ''agenda_arm'')
         else rbind (canonical_json value) (\<lambda>raw.
           rbind (refuse_if
             [Inr (vget ''schema'' value \<noteq> PStr ''PMW_AGENDA_ARM_LAUNCH_1''),
              not_member [''ENFORCED'', ''NOT_CONFIGURED''] (vget ''mode'' value),
              Inr (MAXIMUM_AGENDA_ARM_LAUNCH_BYTES < length raw),
              Inr (digest_differs sha256 raw (vget ''agenda_arm_sha256'' launch))]
             (launch_error ''agenda_arm'')) (\<lambda>_.
           if vget ''mode'' value = PStr ''NOT_CONFIGURED''
           then (if has_fields AGENDA_ARM_LAUNCH_ABSENT_FIELDS value then Inr () else Inl (launch_error ''agenda_arm''))
           else if \<not> has_fields AGENDA_ARM_LAUNCH_FIELDS value then Inl (launch_error ''agenda_arm'')
           else rbind (launch_session_ids launch) (\<lambda>session_ids.
             let instruments = vget ''instruments'' value; schemas = vget ''admitted_payload_schemas'' value;
                 coordinators = vget ''coordinator_session_ids'' value; admitting = vget ''admitting_slots'' value
             in rbind (refuse_if
               [Inr (\<not> nonempty_text (vget ''arm'' value)),
                Inr (\<not> is_PList instruments \<or> elements_of instruments = []),
                Inr (not_text_list instruments),
                Inr (\<not> distinct (text_elements instruments)),
                Inr (\<not> is_PList schemas), not_sorted_set (elements_of schemas), Inr (not_text_list schemas),
                Inr (\<not> is_PList coordinators), not_sorted_set (elements_of coordinators), Inr (not_subset session_ids coordinators),
                Inr (\<not> is_PBool (vget ''open_admission'' value)),
                Inr (\<not> is_PBool (vget ''require_claim_for_primary_action'' value)),
                Inr (\<not> is_PBool (vget ''enforce_directive_citation'' value)),
                Inr (\<not> is_text (vget ''agenda_clock'' value)), Inr (\<not> is_text (vget ''lease_release'' value)),
                Inr (\<not> is_text (vget ''enforcement'' value)), Inr (\<not> is_text (vget ''rejection_semantics'' value))]
               (launch_error ''agenda_arm identity'')) (\<lambda>_.
             if vget ''open_admission'' value = PBool True
             then (if admitting \<noteq> PStr ''ALL_SESSIONS'' then Inl (launch_error ''agenda_arm admitting_slots'') else Inr ())
             else refuse_if
               [Inr (\<not> is_PList admitting), not_sorted_set (elements_of admitting), Inr (not_subset session_ids admitting)]
               (launch_error ''agenda_arm admitting_slots''))))))"

text \<open>\<open>_agenda_counts\<close>: the total of a map of counts, \<open>None\<close> when it is none.\<close>

fun agenda_total :: "(string \<times> pyval) list \<Rightarrow> int option result" where
  "agenda_total [] = Inr (Some 0)"
| "agenda_total ((key, n) # d) =
     rbind (any_of [Inr (key = []), rbind (encoded_length key) (\<lambda>m. Inr (128 < m)), Inr (\<not> nonnegative n)]) (\<lambda>bad.
       if bad then Inr None
       else rbind (agenda_total d) (\<lambda>total. Inr (map_option (\<lambda>t. (case n of PInt i \<Rightarrow> i | _ \<Rightarrow> 0) + t) total)))"

definition agenda_counts :: "string list option \<Rightarrow> pyval \<Rightarrow> int option result" where
  "agenda_counts expected value =
     (if \<not> is_PDict value then Inr None
      else if (case expected of None \<Rightarrow> False | Some names \<Rightarrow> \<not> has_fields names value) then Inr None
      else agenda_total (items_of value))"

definition not_counts :: "string list option \<Rightarrow> pyval \<Rightarrow> bool result" where
  "not_counts expected value = rbind (agenda_counts expected value) (\<lambda>total. Inr (total = None))"

definition validate_agenda_lease_release :: "string \<Rightarrow> pyval \<Rightarrow> unit result" where
  "validate_agenda_lease_release session_id value =
     (let references = vget ''released_claim_refs'' value; released_at = vget ''released_at_tick'' value
      in refuse_if
        [Inr (\<not> has_fields [''authority'', ''released_claim_refs'', ''released_at_tick''] value),
         Inr (\<not> nonempty_text (vget ''authority'' value)),
         Inr (\<not> is_PList references \<or> MAXIMUM_AGENDA_ARM_DECISIONS < length (elements_of references)),
         not_sorted_set (elements_of references),
         Inr (not_text_list references),
         Inr (released_at \<noteq> PNone \<and> \<not> nonnegative released_at),
         Inr (elements_of references \<noteq> [] \<and> released_at = PNone)]
        (receipt_error ''agenda_arm lease_release '' session_id))"

definition validate_agenda_clock :: "string \<Rightarrow> pyval \<Rightarrow> unit result" where
  "validate_agenda_clock session_id value =
     (if \<not> has_fields [''semantics'', ''base_tick'', ''settled_tick''] value
      then Inl (receipt_error ''agenda_arm clock '' session_id)
      else
        let base = vget ''base_tick'' value; settled = vget ''settled_tick'' value
        in refuse_if
          [Inr (\<not> nonempty_text (vget ''semantics'' value)), Inr (\<not> nonnegative base),
           Inr (\<not> int_where (\<lambda>n. int_where (\<lambda>b. b \<le> n) base) settled)]
          (receipt_error ''agenda_arm clock '' session_id))"

definition not_decision_row :: "int \<Rightarrow> pyval \<Rightarrow> bool" where
  "not_decision_row ordinal row =
     (\<not> has_fields AGENDA_ARM_DECISION_FIELDS row \<or> \<not> py_eq (vget ''ordinal'' row) (PInt ordinal) \<or>
      \<not> is_text (vget ''kind'' row) \<or> \<not> text_where is_AGENDA_VERDICT_CODE (vget ''code'' row) \<or>
      vget ''admitted'' row \<noteq> PBool (vget ''code'' row = PStr ''ACCEPTED'') \<or> \<not> is_text (vget ''detail'' row) \<or>
      (vget ''payload_schema'' row \<noteq> PNone \<and> \<not> is_text (vget ''payload_schema'' row)) \<or>
      (vget ''instrument'' row \<noteq> PNone \<and> \<not> is_text (vget ''instrument'' row)))"

definition int_of :: "pyval \<Rightarrow> int" where
  "int_of v = (case v of PInt n \<Rightarrow> n | _ \<Rightarrow> 0)"

definition validate_agenda_decisions :: "string \<Rightarrow> pyval \<Rightarrow> unit result" where
  "validate_agenda_decisions session_id value =
     (let decisions = vget ''decisions'' value; n = length (elements_of decisions); reviewed = int_of (vget ''reviewed'' value)
      in refuse_if
        [Inr (\<not> is_PList decisions), Inr (MAXIMUM_AGENDA_ARM_DECISIONS < n),
         Inr (int n < reviewed \<and> vget ''truncated'' value \<noteq> PBool True), Inr (reviewed < int n),
         Inr (\<not> list_all (\<lambda>(i, row). \<not> not_decision_row (int i) row) (enumerate 1 (elements_of decisions)))]
        (receipt_error ''agenda_arm decisions '' session_id))"

definition validate_agenda_absent :: "string \<Rightarrow> pyval \<Rightarrow> int result" where
  "validate_agenda_absent session_id value =
     (if \<not> has_fields AGENDA_ARM_EVIDENCE_ABSENT_FIELDS value \<or> vget ''arm'' value \<noteq> PNone \<or> vget ''arm_sha256'' value \<noteq> PNone \<or>
        int_of (vget ''reviewed'' value) \<noteq> 0 \<or> \<not> nonempty_text (vget ''reason'' value)
      then Inl (receipt_error ''agenda_arm '' session_id) else Inr 0)"

definition validate_agenda_verdicts :: "string \<Rightarrow> pyval \<Rightarrow> unit result" where
  "validate_agenda_verdicts session_id value =
     (let verdicts = vget ''verdicts'' value; e = receipt_error ''agenda_arm verdicts '' session_id
      in rbind (agenda_counts None verdicts) (\<lambda>total.
         if total \<noteq> Some (int_of (vget ''reviewed'' value)) then Inl e
         else if \<not> list_all is_AGENDA_VERDICT_CODE (keys (items_of verdicts)) then Inl e
         else if (if ''ACCEPTED'' \<in> set (keys (items_of verdicts)) then int_of (vget ''ACCEPTED'' verdicts) else 0)
             \<noteq> int_of (vget ''admitted'' value) then Inl e
         else Inr ()))"

definition validate_agenda_arm_evidence :: "string \<Rightarrow> pyval \<Rightarrow> pyval \<Rightarrow> int result" where
  "validate_agenda_arm_evidence session_id launch value =
     (if \<not> is_PDict value then Inl (receipt_error ''agenda_arm '' session_id)
      else
        let arm = vget ''agenda_arm'' launch; reviewed = vget ''reviewed'' value; admitted = vget ''admitted'' value;
            rejected = vget ''rejected'' value; mode = vget ''mode'' value
        in rbind (refuse_if
             [Inr (vget ''schema'' value \<noteq> PStr ''PMW_AGENDA_ARM_SESSION_EVIDENCE_1''),
              not_member [''ENFORCED'', ''NOT_CONFIGURED''] mode, Inr (\<not> py_eq mode (vget ''mode'' arm)),
              Inr (\<not> nonnegative reviewed), Inr (\<not> nonnegative admitted), Inr (\<not> nonnegative rejected),
              Inr (int_of admitted + int_of rejected \<noteq> int_of reviewed),
              rbind (canonical_json value) (\<lambda>raw. Inr (MAXIMUM_AGENDA_ARM_EVIDENCE_BYTES < length raw))]
             (receipt_error ''agenda_arm '' session_id)) (\<lambda>_.
           if mode = PStr ''NOT_CONFIGURED'' then validate_agenda_absent session_id value
           else rbind (refuse_if
             [Inr (\<not> has_fields AGENDA_ARM_EVIDENCE_FIELDS value), Inr (\<not> py_eq (vget ''arm'' value) (vget ''arm'' arm)),
              Inr (\<not> py_eq (vget ''arm_sha256'' value) (vget ''agenda_arm_sha256'' launch)),
              Inr (\<not> is_PBool (vget ''truncated'' value)), Inr (\<not> nonnegative (vget ''publication_divergences'' value)),
              Inr (\<not> py_eq (vget ''rejection_semantics'' value) (vget ''rejection_semantics'' arm))]
             (receipt_error ''agenda_arm binding '' session_id)) (\<lambda>_.
           rbind (validate_agenda_verdicts session_id value) (\<lambda>_.
           rbind (refuse_if [not_counts None (vget ''instrument_attempts'' value)] (receipt_error ''agenda_arm instruments '' session_id)) (\<lambda>_.
           rbind (refuse_if [not_counts None (vget ''records_by_schema'' value)] (receipt_error ''agenda_arm records '' session_id)) (\<lambda>_.
           rbind (refuse_if [not_counts (Some AGENDA_ARM_ROUTE_FIELDS) (vget ''route_declarations'' value)]
             (receipt_error ''agenda_arm route '' session_id)) (\<lambda>_.
           rbind (validate_agenda_lease_release session_id (vget ''lease_release'' value)) (\<lambda>_.
           rbind (validate_agenda_clock session_id (vget ''agenda_clock'' value)) (\<lambda>_.
           rbind (validate_agenda_decisions session_id value) (\<lambda>_. Inr (int_of rejected)))))))))))"

section \<open>Inversion\<close>

lemma any_of_False: "any_of ms = Inr False \<longleftrightarrow> list_all (\<lambda>m. m = Inr False) ms"
proof (induction ms)
  case (Cons m ms)
  show ?case
  proof (cases m)
    case (Inr b)
    with Cons show ?thesis by (cases b) auto
  qed simp
qed simp

lemma refuse_if_Inr [result_dests]: "refuse_if ms e = Inr u \<longleftrightarrow> list_all (\<lambda>m. m = Inr False) ms"
  using any_of_False [of ms] by (cases "any_of ms") (auto simp: refuse_if_def)

lemma not_member_False [result_dests]: "not_member ss v = Inr False \<longleftrightarrow> (\<exists>s \<in> set ss. v = PStr s)"
  by (auto simp: not_member_def member_of_def unhashable_def)

lemma not_text_within_False [result_dests]:
  "not_text_within n v = Inr False \<longleftrightarrow> (\<exists>s. v = PStr s \<and> utf8_valid s \<and> length s \<le> n)"
  by (cases v) (auto simp: not_text_within_def encoded_length_def)

lemma text_where_iff [result_dests]: "text_where p v \<longleftrightarrow> (\<exists>s. v = PStr s \<and> p s)"
  by (cases v) (simp_all add: text_where_def)

lemma int_where_iff [result_dests]: "int_where p v \<longleftrightarrow> (\<exists>n. v = PInt n \<and> p n)"
  by (cases v) (simp_all add: int_where_def)

lemma is_PBool_iff [result_dests]: "is_PBool v \<longleftrightarrow> (\<exists>b. v = PBool b)"
  by (cases v) (simp_all add: is_PBool_def)

lemma vget_simps [simp]: "vget k (PDict d) = dget k d" "vget k PNone = PNone"
  by (simp_all add: vget_def)

lemma items_of_simps [simp]: "items_of (PDict d) = d" "elements_of (PList vs) = vs"
  by (simp_all add: items_of_def elements_of_def)

lemma has_fields_dict: "has_fields names (PDict d) \<longleftrightarrow> set (keys d) = set names"
  by (simp add: has_fields_def)

end
