(* ===== verification/Runtime_Store.thy ===== *)
theory Runtime_Store
  imports Receipt_Blocks World_Store Usage
begin

text \<open>
  The durable store of a launch, \<^verbatim>\<open>runtime/store.py\<close>: canonical documents, publication without
  replacement, session states, terminal receipts and the settlement. The launch is the document that
  \<open>read_launch\<close> returns, which never changes once created. A path is relative to the runtime root. The hash
  is a parameter, and so is what the disk answers to a publication.
\<close>

section \<open>Documents\<close>

definition MAXIMUM_RUNTIME_DOCUMENT_BYTES :: nat where
  "MAXIMUM_RUNTIME_DOCUMENT_BYTES = 16777216"

definition MAXIMUM_STATE_BYTES :: nat where
  "MAXIMUM_STATE_BYTES = 1048576"

definition newline :: char where
  "newline = CHR 0x0A"

definition canonical_document :: "nat \<Rightarrow> (string \<times> pyval) list \<Rightarrow> string result" where
  "canonical_document maximum_bytes d = (case canonical_json (PDict d) of
      Inl _ \<Rightarrow> Inl (store_fail ''MALFORMED_RUNTIME_DOCUMENT'' [])
    | Inr encoded \<Rightarrow>
        let raw = encoded @ [newline]
        in if maximum_bytes < length raw then Inl (store_fail ''RUNTIME_DOCUMENT_SIZE_INVALID'' []) else Inr raw)"

text \<open>
  A decoder that accepts repeated keys tells a repeated key from the other faults; a document with a
  repeated key and a later syntax error is reported as malformed here.
\<close>

definition repeating_hooks :: json_hooks where
  "repeating_hooks = content_hooks\<lparr>object_hook := \<lambda>d. Some (fold (\<lambda>(k, v). AList.update k v) d [])\<rparr>"

definition strict_document :: "nat \<Rightarrow> string \<Rightarrow> string \<Rightarrow> (string \<times> pyval) list result" where
  "strict_document maximum_bytes label raw =
     (if raw = [] \<or> maximum_bytes < length raw then Inl (store_fail ''RUNTIME_DOCUMENT_SIZE_INVALID'' label)
      else if \<not> utf8_valid raw then Inl (store_fail ''MALFORMED_RUNTIME_DOCUMENT'' label)
      else (case json_loads content_hooks raw of
          None \<Rightarrow> Inl (if json_loads repeating_hooks raw = None then store_fail ''MALFORMED_RUNTIME_DOCUMENT'' label
                       else store_fail ''NONCANONICAL_RUNTIME_DOCUMENT'' (''duplicate key in '' @ label))
        | Some (PDict d) \<Rightarrow> (case canonical_json (PDict d) of
              Inl _ \<Rightarrow> Inl (store_fail ''MALFORMED_RUNTIME_DOCUMENT'' label)
            | Inr canonical \<Rightarrow> if raw \<noteq> canonical @ [newline] then Inl (store_fail ''NONCANONICAL_RUNTIME_DOCUMENT'' label) else Inr d)
        | Some _ \<Rightarrow> Inl (store_fail ''MALFORMED_RUNTIME_DOCUMENT'' (label @ '' root''))))"

text \<open>
  \<open>_publish_exclusive\<close> with \<open>idempotent=True\<close> on the bytes at the destination: the disk may refuse, or fail
  once the link is in place.
\<close>

datatype disk_answer = Disk_Writes | Disk_Refuses | Disk_Fails_Late

definition publish_exclusive :: "disk_answer \<Rightarrow> string \<Rightarrow> string \<Rightarrow> string \<Rightarrow> string option \<Rightarrow> unit result \<times> string option" where
  "publish_exclusive disk conflict_code path raw existing =
     (if disk = Disk_Refuses then (Inl (store_fail ''RUNTIME_WRITE_FAILED'' path), existing)
      else (case existing of
          Some bytes \<Rightarrow> (if bytes = raw then Inr () else Inl (store_fail conflict_code path), existing)
        | None \<Rightarrow> (if disk = Disk_Fails_Late then Inl (store_fail ''RUNTIME_WRITE_FAILED'' path) else Inr (), Some raw)))"

section \<open>The store\<close>

record runtime_store =
  st_launch :: pyval
  st_launch_sha256 :: string
  st_sessions :: "string list"
  st_states :: "string \<Rightarrow> string option"
  st_receipts :: "string \<Rightarrow> string option"
  st_settlement :: "string option"

definition session_paths :: "string \<Rightarrow> runtime_store \<Rightarrow> unit result" where
  "session_paths session_id st = rbind (rt_identifier ''session_id'' (PStr session_id)) (\<lambda>selected.
     if selected \<in> set (st_sessions st) then Inr () else Inl (store_fail ''UNSAFE_RUNTIME_PATH'' (''session '' @ selected)))"

definition state_path :: "string \<Rightarrow> string" where
  "state_path s = ''sessions/'' @ s @ ''/state.json''"

definition receipt_path :: "string \<Rightarrow> string" where
  "receipt_path s = ''sessions/'' @ s @ ''/receipt.json''"

section \<open>Session states\<close>

definition RUNTIME_STATE_SCHEMA :: string where
  "RUNTIME_STATE_SCHEMA = ''PMW_RUNTIME_SESSION_STATE_1''"

definition write_state :: "disk_answer \<Rightarrow> string \<Rightarrow> (string \<times> pyval) list \<Rightarrow> runtime_store \<Rightarrow> unit result \<times> runtime_store" where
  "write_state disk session_id d st =
     (case rbind (session_paths session_id st) (\<lambda>_.
        if dget ''schema'' d \<noteq> PStr RUNTIME_STATE_SCHEMA then Inl (store_fail ''MALFORMED_SESSION_STATE'' ''schema'')
        else if dget ''session_id'' d \<noteq> PStr session_id then Inl (store_fail ''MALFORMED_SESSION_STATE'' ''session_id'')
        else if dget ''launch_sha256'' d \<noteq> PStr (st_launch_sha256 st) then Inl (store_fail ''MALFORMED_SESSION_STATE'' ''launch_sha256'')
        else if \<not> is_text (dget ''state'' d) then Inl (store_fail ''MALFORMED_SESSION_STATE'' ''state'')
        else canonical_document MAXIMUM_STATE_BYTES d) of
       Inl e \<Rightarrow> (Inl e, st)
     | Inr raw \<Rightarrow>
         if disk = Disk_Refuses then (Inl (store_fail ''RUNTIME_WRITE_FAILED'' (state_path session_id)), st)
         else (if disk = Disk_Fails_Late then Inl (store_fail ''RUNTIME_WRITE_FAILED'' (state_path session_id)) else Inr (),
               st\<lparr>st_states := (st_states st)(session_id := Some raw)\<rparr>))"

definition read_state :: "string \<Rightarrow> runtime_store \<Rightarrow> (string \<times> pyval) list result" where
  "read_state session_id st = rbind (session_paths session_id st) (\<lambda>_. case st_states st session_id of
      None \<Rightarrow> Inl (store_fail ''SESSION_STATE_UNAVAILABLE'' session_id)
    | Some raw \<Rightarrow> rbind (strict_document MAXIMUM_STATE_BYTES (''state '' @ session_id) raw) (\<lambda>d.
        if dget ''schema'' d \<noteq> PStr RUNTIME_STATE_SCHEMA \<or> dget ''session_id'' d \<noteq> PStr session_id \<or>
           dget ''launch_sha256'' d \<noteq> PStr (st_launch_sha256 st) \<or> \<not> is_text (dget ''state'' d)
        then Inl (store_fail ''MALFORMED_SESSION_STATE'' session_id) else Inr d))"

section \<open>Receipts\<close>

definition RUNTIME_RECEIPT_SCHEMA :: string where
  "RUNTIME_RECEIPT_SCHEMA = ''PMW_RUNTIME_SESSION_RECEIPT_1''"

definition TERMINAL_STATUSES :: "string list" where
  "TERMINAL_STATUSES = [''SUCCEEDED'', ''FAILED'', ''CANCELLED'', ''UNKNOWN'']"

definition RECEIPT_FIELDS :: "string list" where
  "RECEIPT_FIELDS =
     [''schema'', ''launch_sha256'', ''plan_sha256'', ''cohort_id'', ''session_id'', ''world_id'', ''world_ref'',
      ''base_snapshot_ref'', ''backend_sha256'', ''status'', ''terminal_reason'', ''started_at'', ''finished_at'',
      ''stop_proof'', ''outcome'', ''publications'', ''error'', ''resource_guard'', ''usage'', ''verifier_kit'',
      ''agenda_arm'', ''context_window'']"

definition RECEIPT_CONTEXT_WINDOW_FIELDS :: "string list" where
  "RECEIPT_CONTEXT_WINDOW_FIELDS = [''semantics'', ''configured_tokens'', ''backend_control'', ''strict_pre_http_input_gate'']"

definition check_receipt_header :: "string \<Rightarrow> runtime_store \<Rightarrow> (string \<times> pyval) list \<Rightarrow> unit result" where
  "check_receipt_header session_id st d =
     (let bound = (\<lambda>label. Inr (\<not> py_eq (dget label d) (vget label (st_launch st))))
      in refuse_if
        ([Inr (set (keys d) \<noteq> set RECEIPT_FIELDS), Inr (dget ''schema'' d \<noteq> PStr RUNTIME_RECEIPT_SCHEMA),
          Inr (dget ''session_id'' d \<noteq> PStr session_id), Inr (dget ''launch_sha256'' d \<noteq> PStr (st_launch_sha256 st))] @
         map bound [''plan_sha256'', ''backend_sha256'', ''cohort_id'', ''world_id'', ''world_ref'', ''base_snapshot_ref''] @
         [not_member TERMINAL_STATUSES (dget ''status'' d), Inr (\<not> text_where is_TERMINAL_REASON (dget ''terminal_reason'' d)),
          (if dget ''started_at'' d = PNone then Inr False
           else rbind (bounded_utc_timestamp (dget ''started_at'' d)) (\<lambda>b. Inr (\<not> b))),
          rbind (bounded_utc_timestamp (dget ''finished_at'' d)) (\<lambda>b. Inr (\<not> b)),
          Inr (\<not> is_PList (dget ''publications'' d)), Inr (64 < length (elements_of (dget ''publications'' d)))])
        (receipt_error [] session_id))"

text \<open>The window of a session in the policy that the launch holds: the first row that names it.\<close>

definition effective_tokens :: "string \<Rightarrow> pyval \<Rightarrow> pyval" where
  "effective_tokens session_id launch =
     (case find (\<lambda>row. is_PDict row \<and> vget ''session_id'' row = PStr session_id)
        (elements_of (vget ''effective_sessions'' (vget ''context_window_policy'' launch))) of
       None \<Rightarrow> PNone
     | Some row \<Rightarrow> vget ''context_window_tokens'' row)"

definition check_context_window :: "string \<Rightarrow> pyval \<Rightarrow> pyval \<Rightarrow> unit result" where
  "check_context_window session_id launch value = refuse_if
     [Inr (\<not> has_fields RECEIPT_CONTEXT_WINDOW_FIELDS value),
      Inr (vget ''semantics'' value \<noteq> PStr CONTEXT_WINDOW_SEMANTICS),
      Inr (\<not> py_eq (vget ''configured_tokens'' value) (effective_tokens session_id launch)),
      Inr (\<not> py_eq (vget ''backend_control'' value) (vget ''backend_context_window_control'' launch)),
      Inr (vget ''strict_pre_http_input_gate'' value \<noteq> PBool False)]
     (receipt_error ''context_window '' session_id)"

text \<open>What the terminal invariants of a receipt read of it, after the checks of its blocks.\<close>

record receipt_facts =
  rf_status :: string
  rf_terminal_reason :: string
  rf_started :: bool
  rf_stopped :: "bool option"
  rf_succeeded :: "bool option"
  rf_error :: bool
  rf_publications :: nat
  rf_contribution_count :: "int option"
  rf_rejected :: int
  rf_accounting_unknown :: bool
  rf_publishing :: bool

definition terminal_invariants_broken :: "receipt_facts \<Rightarrow> bool" where
  "terminal_invariants_broken f =
     (rf_status f = ''SUCCEEDED'' \<and> (rf_stopped f \<noteq> Some True \<or> rf_succeeded f \<noteq> Some True \<or> rf_error f) \<or>
      rf_status f = ''CANCELLED'' \<and> rf_stopped f \<noteq> Some True \<or>
      rf_status f = ''FAILED'' \<and> rf_stopped f = Some False \<or>
      rf_started f \<and> rf_status f \<noteq> ''UNKNOWN'' \<and> rf_stopped f \<noteq> Some True \<or>
      \<not> rf_publishing f \<and> rf_publications f \<noteq> 0 \<or>
      (case rf_contribution_count f of
         None \<Rightarrow> rf_publications f \<noteq> 0 \<or> rf_rejected f \<noteq> 0
       | Some n \<Rightarrow> n < int (rf_publications f) + rf_rejected f) \<or>
      rf_status f = ''SUCCEEDED'' \<and>
        (case rf_contribution_count f of
           None \<Rightarrow> True
         | Some n \<Rightarrow> int (rf_publications f) + rf_rejected f \<noteq> n \<or> \<not> rf_publishing f \<and> n \<noteq> 0) \<or>
      rf_status f = ''UNKNOWN'' \<and> rf_stopped f = Some True \<and>
        (rf_terminal_reason f \<noteq> ''RESOURCE_ACCOUNTING_UNCERTAIN'' \<or> \<not> rf_accounting_unknown f))"

definition text_of :: "pyval \<Rightarrow> string" where
  "text_of v = (case v of PStr s \<Rightarrow> s | _ \<Rightarrow> [])"

definition facts_of :: "pyval \<Rightarrow> (string \<times> pyval) list \<Rightarrow> bool option \<Rightarrow> bool option \<Rightarrow> int \<Rightarrow> receipt_facts" where
  "facts_of launch d stopped succeeded declined =
     (let outcome = dget ''outcome'' d; event = vget ''terminal_event'' (dget ''resource_guard'' d)
      in \<lparr>rf_status = text_of (dget ''status'' d), rf_terminal_reason = text_of (dget ''terminal_reason'' d),
        rf_started = (dget ''started_at'' d \<noteq> PNone), rf_stopped = stopped, rf_succeeded = succeeded,
        rf_error = (dget ''error'' d \<noteq> PNone), rf_publications = length (elements_of (dget ''publications'' d)),
        rf_contribution_count = (case vget ''contribution_count'' outcome of PInt n \<Rightarrow> Some n | _ \<Rightarrow> None), rf_rejected = declined,
        rf_accounting_unknown = (vget ''code'' event = PStr ''RESOURCE_ACCOUNTING_UNCERTAIN'' \<and> vget ''uncertain'' event = PBool True),
        rf_publishing = (vget ''mode'' (vget ''publication'' launch) \<noteq> PStr ''DISABLED'')\<rparr>)"

definition validate_receipt_value :: "string \<Rightarrow> runtime_store \<Rightarrow> (string \<times> pyval) list \<Rightarrow> unit result" where
  "validate_receipt_value session_id st d =
     (let launch = st_launch st
      in rbind (check_receipt_header session_id st d) (\<lambda>_.
         rbind (validate_stop_proof session_id (dget ''stop_proof'' d)) (\<lambda>stopped.
         rbind (validate_receipt_outcome session_id (dget ''outcome'' d)) (\<lambda>succeeded.
         rbind (validate_receipt_error session_id (dget ''error'' d)) (\<lambda>_.
         rbind (validate_resource_guard session_id (dget ''resource_guard'' d)) (\<lambda>_.
         rbind (usage_evidence_value_is_valid (dget ''usage'' d)) (\<lambda>usage_valid.
         if \<not> usage_valid then Inl (receipt_error ''usage '' session_id)
         else
         rbind (validate_verifier_kit_evidence session_id launch (dget ''verifier_kit'' d)) (\<lambda>_.
         rbind (validate_agenda_arm_evidence session_id launch (dget ''agenda_arm'' d)) (\<lambda>declined.
         rbind (check_context_window session_id launch (dget ''context_window'' d)) (\<lambda>_.
         if terminal_invariants_broken (facts_of launch d stopped succeeded declined)
         then Inl (receipt_error ''terminal invariants '' session_id)
         else Inr ()))))))))))"

definition write_receipt ::
  "(string \<Rightarrow> string) \<Rightarrow> disk_answer \<Rightarrow> string \<Rightarrow> (string \<times> pyval) list \<Rightarrow> runtime_store \<Rightarrow> string result \<times> runtime_store" where
  "write_receipt sha256 disk session_id receipt st =
     (case rbind (session_paths session_id st) (\<lambda>_. rbind (validate_receipt_value session_id st receipt) (\<lambda>_.
        canonical_document MAXIMUM_RUNTIME_DOCUMENT_BYTES receipt)) of
       Inl e \<Rightarrow> (Inl e, st)
     | Inr raw \<Rightarrow>
         let (answer, file) = publish_exclusive disk ''SESSION_RECEIPT_CONFLICT'' (receipt_path session_id) raw (st_receipts st session_id)
         in (rbind answer (\<lambda>_. Inr (sha256 raw)), st\<lparr>st_receipts := (st_receipts st)(session_id := file)\<rparr>))"

definition stored_receipt :: "string \<Rightarrow> runtime_store \<Rightarrow> (string \<times> (string \<times> pyval) list) option result" where
  "stored_receipt session_id st = rbind (session_paths session_id st) (\<lambda>_. case st_receipts st session_id of
      None \<Rightarrow> Inr None
    | Some raw \<Rightarrow> rbind (strict_document MAXIMUM_RUNTIME_DOCUMENT_BYTES (''receipt '' @ session_id) raw) (\<lambda>d.
        rbind (validate_receipt_value session_id st d) (\<lambda>_. Inr (Some (raw, d)))))"

definition read_receipt :: "string \<Rightarrow> runtime_store \<Rightarrow> (string \<times> pyval) list option result" where
  "read_receipt session_id st = rbind (stored_receipt session_id st) (\<lambda>r. Inr (map_option snd r))"

definition receipt_sha256 :: "(string \<Rightarrow> string) \<Rightarrow> string \<Rightarrow> runtime_store \<Rightarrow> string option result" where
  "receipt_sha256 sha256 session_id st = rbind (stored_receipt session_id st) (\<lambda>r. Inr (map_option (\<lambda>(raw, _). sha256 raw) r))"

section \<open>Settlement\<close>

definition RUNTIME_SETTLEMENT_SCHEMA :: string where
  "RUNTIME_SETTLEMENT_SCHEMA = ''PMW_RUNTIME_SETTLEMENT_1''"

definition SETTLEMENT_FIELDS :: "string list" where
  "SETTLEMENT_FIELDS = [''schema'', ''launch_sha256'', ''plan_sha256'', ''cohort_id'', ''finished_at'', ''outcome'', ''counts'', ''receipts'']"

definition SETTLEMENT_RECEIPT_FIELDS :: "string list" where
  "SETTLEMENT_RECEIPT_FIELDS = [''session_id'', ''status'', ''receipt_sha256'']"

text \<open>One row of the index against the receipt on disk; its status as text.\<close>

definition check_settlement_row :: "(string \<Rightarrow> string) \<Rightarrow> runtime_store \<Rightarrow> string \<times> pyval \<Rightarrow> string result" where
  "check_settlement_row sha256 st = (\<lambda>(expected_id, row).
     if \<not> has_fields SETTLEMENT_RECEIPT_FIELDS row \<or> vget ''session_id'' row \<noteq> PStr expected_id
     then Inl (store_fail ''MALFORMED_SETTLEMENT'' ''receipt order'')
     else let digest = vget ''receipt_sha256'' row
       in if \<not> text_where matches_sha256 digest then Inl (store_fail ''MALFORMED_SETTLEMENT'' (''receipt digest '' @ expected_id))
          else rbind (receipt_sha256 sha256 expected_id st) (\<lambda>actual. case actual of
              None \<Rightarrow> Inl (store_fail ''SETTLEMENT_INCOMPLETE'' expected_id)
            | Some h \<Rightarrow>
                if PStr h \<noteq> digest then Inl (store_fail ''SETTLEMENT_RECEIPT_MISMATCH'' expected_id)
                else rbind (read_receipt expected_id st) (\<lambda>receipt. case receipt of
                    None \<Rightarrow> Inl (store_fail ''SETTLEMENT_RECEIPT_MISMATCH'' (''status '' @ expected_id))
                  | Some r \<Rightarrow>
                      if \<not> py_eq (vget ''status'' row) (dget ''status'' r)
                      then Inl (store_fail ''SETTLEMENT_RECEIPT_MISMATCH'' (''status '' @ expected_id))
                      else Inr (text_of (dget ''status'' r)))))"

definition expected_counts :: "string list \<Rightarrow> pyval" where
  "expected_counts statuses = PDict (map (\<lambda>status. (status, PInt (int (count_list statuses status)))) (sort TERMINAL_STATUSES))"

definition expected_outcome :: "string list \<Rightarrow> string" where
  "expected_outcome statuses =
     (if ''UNKNOWN'' \<in> set statuses then ''UNSAFE''
      else if ''CANCELLED'' \<in> set statuses then ''CANCELLED''
      else if ''FAILED'' \<in> set statuses then ''COMPLETED_WITH_FAILURES''
      else ''SUCCEEDED'')"

definition validate_settlement_value :: "(string \<Rightarrow> string) \<Rightarrow> runtime_store \<Rightarrow> (string \<times> pyval) list \<Rightarrow> unit result" where
  "validate_settlement_value sha256 st d =
     rbind (launch_session_ids (st_launch st)) (\<lambda>session_ids.
     if set (keys d) \<noteq> set SETTLEMENT_FIELDS \<or> dget ''schema'' d \<noteq> PStr RUNTIME_SETTLEMENT_SCHEMA
     then Inl (store_fail ''MALFORMED_SETTLEMENT'' ''schema'')
     else if dget ''launch_sha256'' d \<noteq> PStr (st_launch_sha256 st) then Inl (store_fail ''MALFORMED_SETTLEMENT'' ''launch_sha256'')
     else case find (\<lambda>label. \<not> py_eq (dget label d) (vget label (st_launch st))) [''plan_sha256'', ''cohort_id''] of
       Some label \<Rightarrow> Inl (store_fail ''MALFORMED_SETTLEMENT'' label)
     | None \<Rightarrow> rbind (bounded_utc_timestamp (dget ''finished_at'' d)) (\<lambda>ok.
         let rows = dget ''receipts'' d
         in if \<not> ok then Inl (store_fail ''MALFORMED_SETTLEMENT'' ''finished_at'')
            else if \<not> is_PList rows \<or> length (elements_of rows) \<noteq> length session_ids
            then Inl (store_fail ''MALFORMED_SETTLEMENT'' ''receipts'')
            else rbind (rmap (check_settlement_row sha256 st) (zip session_ids (elements_of rows))) (\<lambda>statuses.
              if \<not> py_eq (dget ''counts'' d) (expected_counts statuses) then Inl (store_fail ''MALFORMED_SETTLEMENT'' ''counts'')
              else if dget ''outcome'' d \<noteq> PStr (expected_outcome statuses)
              then Inl (store_fail ''MALFORMED_SETTLEMENT'' ''outcome/status mismatch'')
              else Inr ())))"

definition write_settlement ::
  "(string \<Rightarrow> string) \<Rightarrow> disk_answer \<Rightarrow> (string \<times> pyval) list \<Rightarrow> runtime_store \<Rightarrow> string result \<times> runtime_store" where
  "write_settlement sha256 disk settlement st =
     (case rbind (validate_settlement_value sha256 st settlement) (\<lambda>_.
        canonical_document MAXIMUM_RUNTIME_DOCUMENT_BYTES settlement) of
       Inl e \<Rightarrow> (Inl e, st)
     | Inr raw \<Rightarrow>
         let (answer, file) = publish_exclusive disk ''SETTLEMENT_CONFLICT'' ''settlement.json'' raw (st_settlement st)
         in (rbind answer (\<lambda>_. Inr (sha256 raw)), st\<lparr>st_settlement := file\<rparr>))"

definition read_settlement :: "(string \<Rightarrow> string) \<Rightarrow> runtime_store \<Rightarrow> (string \<times> pyval) list option result" where
  "read_settlement sha256 st = (case st_settlement st of
      None \<Rightarrow> Inr None
    | Some raw \<Rightarrow> rbind (strict_document MAXIMUM_RUNTIME_DOCUMENT_BYTES ''settlement'' raw) (\<lambda>d.
        rbind (validate_settlement_value sha256 st d) (\<lambda>_. Inr (Some d))))"

definition session_status_row :: "(string \<Rightarrow> string) \<Rightarrow> runtime_store \<Rightarrow> string \<Rightarrow> pyval result" where
  "session_status_row sha256 st session_id =
     rbind (read_state session_id st) (\<lambda>state. rbind (read_receipt session_id st) (\<lambda>receipt.
     rbind (receipt_sha256 sha256 session_id st) (\<lambda>digest. Inr (PDict
       [(''session_id'', PStr session_id), (''state'', dget ''state'' state),
        (''receipt_status'', case receipt of None \<Rightarrow> PNone | Some r \<Rightarrow> dget ''status'' r),
        (''receipt_sha256'', opt_text digest)]))))"

definition read_status :: "(string \<Rightarrow> string) \<Rightarrow> runtime_store \<Rightarrow> pyval result" where
  "read_status sha256 st =
     rbind (launch_session_ids (st_launch st)) (\<lambda>session_ids.
     rbind (rmap (session_status_row sha256 st) session_ids) (\<lambda>sessions.
     rbind (read_settlement sha256 st) (\<lambda>settlement. Inr (PDict
       [(''launch_sha256'', PStr (st_launch_sha256 st)), (''sessions'', PList sessions), (''settled'', PBool (settlement \<noteq> None)),
        (''settlement_sha256'', if settlement = None then PNone else opt_text (map_option sha256 (st_settlement st)))]))))"

end
