(* ===== verification/Safety.thy ===== *)
theory Safety
  imports Json
begin

text \<open>
  The safety policy and the bounded capture of process output, \<^verbatim>\<open>runtime/safety.py\<close>: which action a
  profile maps a condition to, the limits of a tree, and the accumulator that keeps a prefix and a tail of
  a stream while it counts and hashes all of it. The lemmas show that an accumulator depends only on the
  bytes observed and not on how they were cut into chunks.
\<close>

section \<open>Profiles\<close>

datatype disposition = SESSION_STOP | JOB_STOP | REJECT | WARN

fun disposition_value :: "disposition \<Rightarrow> string" where
  "disposition_value SESSION_STOP = ''SESSION_STOP''"
| "disposition_value JOB_STOP = ''JOB_STOP''"
| "disposition_value REJECT = ''REJECT''"
| "disposition_value WARN = ''WARN''"

definition REQUIRED_SAFETY_CODES :: "string list" where
  "REQUIRED_SAFETY_CODES =
     [''ARTIFACT_INVALID'', ''ARTIFACT_TOO_LARGE'', ''CONTEXT_HARD_LIMIT'', ''CREDENTIAL_BOUNDARY_VIOLATION'',
      ''CROSS_SESSION_BOUNDARY_VIOLATION'', ''DISK_RESERVE_BREACHED'', ''NETWORK_BOUNDARY_VIOLATION'',
      ''OBSERVED_OUTPUT_SAFETY_CAP'', ''OUTPUT_READ_INVALID'', ''OUTPUT_TRUNCATED'', ''PMW_AUTHORITY_VIOLATION'',
      ''PROCESS_GROUP_CLEANUP_FAILED'', ''PROVIDER_ACCOUNTING_INVALID'', ''PROVIDER_REQUEST_BUDGET_EXCEEDED'',
      ''RUNTIME_ARTIFACT_DRIFT'', ''RUNTIME_CACHE_CHURN'', ''RUNTIME_CACHE_ENTRY_LIMIT_EXCEEDED'',
      ''RUNTIME_CACHE_FILE_SIZE_EXCEEDED'', ''RUNTIME_CACHE_MOUNT_BOUNDARY'', ''RUNTIME_CACHE_ROOT_DRIFT'',
      ''RUNTIME_CACHE_SPECIAL_FILE_REJECTED'', ''RUNTIME_CACHE_TOTAL_BYTES_EXCEEDED'', ''SANDBOX_CONTAINMENT_DRIFT'',
      ''SESSION_WALL_LIMIT'', ''TOOL_CANCELLED'', ''TOOL_SPAWN_FAILED'', ''TOOL_TIMEOUT'', ''VERIFIER_OUTPUT_TOO_LARGE'',
      ''WORKSPACE_DEPTH_LIMIT_EXCEEDED'', ''WORKSPACE_ENTRY_LIMIT_EXCEEDED'', ''WORKSPACE_FILE_SIZE_EXCEEDED'',
      ''WORKSPACE_HARDLINK_OBSERVED'', ''WORKSPACE_LIVE_CHURN'', ''WORKSPACE_MOUNT_BOUNDARY'',
      ''WORKSPACE_QUIESCENT_SCAN_FAILED'', ''WORKSPACE_ROOT_DRIFT'', ''WORKSPACE_SPECIAL_FILE_REJECTED'',
      ''WORKSPACE_TOTAL_BYTES_EXCEEDED'', ''WORKSPACE_UNSAFE_SYMLINK'']"

definition is_SAFETY_CODE :: "string \<Rightarrow> bool" where
  "is_SAFETY_CODE = matches_ident is_upper (\<lambda>c. is_upper c \<or> is_digit c \<or> c = CHR ''_'') 127"

definition is_PROFILE_NAME :: "string \<Rightarrow> bool" where
  "is_PROFILE_NAME = matches_ident is_lower (\<lambda>c. is_lower c \<or> is_digit c \<or> c = CHR ''-'') 63"

text \<open>The live interval only paces the scans, so it is left out: a scan mode says whether there is one.\<close>

datatype scan_mode = QUIESCENT | LIVE_LATCHED

record tree_limits =
  tl_maximum_total_bytes :: int
  tl_maximum_entries :: int
  tl_maximum_file_bytes :: "int option"
  tl_maximum_depth :: int
  tl_scan_mode :: scan_mode

definition tree_limits_init :: "int \<Rightarrow> int \<Rightarrow> int option \<Rightarrow> int \<Rightarrow> scan_mode \<Rightarrow> tree_limits result" where
  "tree_limits_init total_bytes entries file depth mode =
     (if total_bytes \<le> 0 then Inl (Value_Error ''maximum_total_bytes must be a positive integer'')
      else if entries \<le> 0 then Inl (Value_Error ''maximum_entries must be a positive integer'')
      else if depth \<le> 0 then Inl (Value_Error ''maximum_depth must be a positive integer'')
      else if (case file of None \<Rightarrow> False | Some n \<Rightarrow> \<not> (0 < n \<and> n \<le> total_bytes)) then Inl (Value_Error ''maximum_file_bytes is invalid'')
      else Inr \<lparr>tl_maximum_total_bytes = total_bytes, tl_maximum_entries = entries, tl_maximum_file_bytes = file,
        tl_maximum_depth = depth, tl_scan_mode = mode\<rparr>)"

record capture_limits =
  cl_maximum_retained_bytes :: nat
  cl_maximum_observed_bytes :: nat
  cl_tail_bytes :: nat

definition capture_limits_init :: "int \<Rightarrow> int \<Rightarrow> int \<Rightarrow> capture_limits result" where
  "capture_limits_init retained observed tail =
     (if retained \<le> 0 then Inl (Value_Error ''maximum_retained_bytes must be a positive integer'')
      else if observed \<le> 0 then Inl (Value_Error ''maximum_observed_bytes must be a positive integer'')
      else if tail \<le> 0 then Inl (Value_Error ''tail_bytes must be a positive integer'')
      else if observed < retained then Inl (Value_Error ''retained cap exceeds observed cap'')
      else if retained < tail then Inl (Value_Error ''tail exceeds retained cap'')
      else Inr \<lparr>cl_maximum_retained_bytes = nat retained, cl_maximum_observed_bytes = nat observed, cl_tail_bytes = nat tail\<rparr>)"

text \<open>
  The reserve of a disk guard is a product of floating-point numbers, so \<open>required_free_bytes\<close> is a function of
  the size of the filesystem that the profile carries; the code raises on a size that is not positive.
\<close>

record safety_profile =
  pf_name :: string
  pf_sha256 :: string
  pf_dispositions :: "(string \<times> disposition) list"
  pf_reserve :: "int \<Rightarrow> int"
  pf_workspace :: tree_limits
  pf_runtime_cache :: tree_limits
  pf_legacy_captures :: "(string \<times> capture_limits) list"

definition required_free_bytes :: "safety_profile \<Rightarrow> int \<Rightarrow> int result" where
  "required_free_bytes p total_bytes =
     (if total_bytes \<le> 0 then Inl (Value_Error ''filesystem_total_bytes must be a positive integer'') else Inr (pf_reserve p total_bytes))"

text \<open>The checks of \<open>SafetyProfile.__post_init__\<close>; the field types give the other ones.\<close>

definition check_profile :: "safety_profile \<Rightarrow> safety_profile result" where
  "check_profile p =
     (if \<not> is_PROFILE_NAME (pf_name p) then Inl (Value_Error ''profile name is invalid'')
      else if \<not> matches_sha256 (pf_sha256 p) then Inl (Value_Error ''profile digest is invalid'')
      else if set (keys (pf_dispositions p)) \<noteq> set REQUIRED_SAFETY_CODES then Inl (Value_Error ''profile dispositions are incomplete'')
      else if map_of (pf_dispositions p) ''OBSERVED_OUTPUT_SAFETY_CAP'' \<noteq> Some JOB_STOP
      then Inl (Value_Error ''observed output safety cap must be JOB_STOP'')
      else if set (keys (pf_legacy_captures p)) \<noteq> {''bash'', ''long_job''} then Inl (Value_Error ''capture limits are incomplete'')
      else Inr p)"

definition profile_disposition :: "safety_profile \<Rightarrow> string \<Rightarrow> disposition result" where
  "profile_disposition p code =
     (if \<not> is_SAFETY_CODE code then Inl (Key_Error code)
      else (case map_of (pf_dispositions p) code of
          Some d \<Rightarrow> Inr d
        | None \<Rightarrow> Inl (Key_Error (''unclassified safety code: '' @ code))))"

definition legacy_file_limit_disposition :: "safety_profile \<Rightarrow> tree_limits \<Rightarrow> int \<Rightarrow> string \<Rightarrow> disposition option result" where
  "legacy_file_limit_disposition p limits file_size code =
     (if file_size < 0 then Inl (Value_Error ''size must be a non-negative integer'')
      else (case tl_maximum_file_bytes limits of
          None \<Rightarrow> Inr None
        | Some n \<Rightarrow> if file_size \<le> n then Inr None else rbind (profile_disposition p code) (\<lambda>d. Inr (Some d))))"

definition legacy_capture_limits :: "safety_profile \<Rightarrow> string \<Rightarrow> capture_limits result" where
  "legacy_capture_limits p kind = (case map_of (pf_legacy_captures p) kind of
      Some l \<Rightarrow> Inr l
    | None \<Rightarrow> Inl (Key_Error (''unknown capture kind: '' @ kind)))"

section \<open>Captures\<close>

text \<open>The digest object is the bytes fed to it so far.\<close>

record capture =
  ca_limits :: capture_limits
  ca_cap_disposition :: disposition
  ca_observed_bytes :: nat
  ca_retained_bytes :: nat
  ca_retained :: "string option"
  ca_tail :: string
  ca_digest :: string
  ca_cap_exceeded :: bool
  ca_finalized :: bool

definition capture_init :: "capture_limits \<Rightarrow> disposition \<Rightarrow> bool \<Rightarrow> capture result" where
  "capture_init limits cap_disposition retain_content =
     (if cap_disposition \<noteq> JOB_STOP then Inl (Value_Error ''observed output safety cap must be JOB_STOP'')
      else Inr \<lparr>ca_limits = limits, ca_cap_disposition = cap_disposition, ca_observed_bytes = 0, ca_retained_bytes = 0,
        ca_retained = (if retain_content then Some [] else None), ca_tail = [], ca_digest = [], ca_cap_exceeded = False,
        ca_finalized = False\<rparr>)"

definition new_legacy_capture :: "safety_profile \<Rightarrow> string \<Rightarrow> capture result" where
  "new_legacy_capture p kind =
     rbind (legacy_capture_limits p kind) (\<lambda>limits.
     rbind (profile_disposition p ''OBSERVED_OUTPUT_SAFETY_CAP'') (\<lambda>d. capture_init limits d True))"

record append_outcome =
  ao_observed_bytes_added :: nat
  ao_retained_bytes_added :: nat
  ao_truncated :: bool
  ao_safety_cap_crossed :: bool
  ao_disposition :: "disposition option"

text \<open>\<open>tail[:] = selected[-n:]\<close>, or \<open>extend\<close> and \<open>del tail[:overflow]\<close>.\<close>

definition extend_tail :: "nat \<Rightarrow> string \<Rightarrow> string \<Rightarrow> string" where
  "extend_tail n tail selected =
     (if n \<le> length selected then drop (length selected - n) selected
      else drop (length (tail @ selected) - n) (tail @ selected))"

definition capture_append :: "string \<Rightarrow> capture \<Rightarrow> (append_outcome \<times> capture) result" where
  "capture_append selected c =
     (if ca_finalized c then Inl (Runtime_Error ''capture is finalized'')
      else
        let limits = ca_limits c;
            observed = ca_observed_bytes c + length selected;
            room = cl_maximum_retained_bytes limits - ca_retained_bytes c;
            added = (if 0 < room then min room (length selected) else 0);
            retained = ca_retained_bytes c + added;
            tail = (if cl_tail_bytes limits \<noteq> 0 then extend_tail (cl_tail_bytes limits) (ca_tail c) selected else ca_tail c);
            was_exceeded = ca_cap_exceeded c;
            exceeded = was_exceeded \<or> cl_maximum_observed_bytes limits < observed
        in Inr
          (\<lparr>ao_observed_bytes_added = length selected, ao_retained_bytes_added = added, ao_truncated = (retained < observed),
            ao_safety_cap_crossed = (exceeded \<and> \<not> was_exceeded),
            ao_disposition = (if exceeded then Some (ca_cap_disposition c) else None)\<rparr>,
           c\<lparr>ca_observed_bytes := observed, ca_retained_bytes := retained,
             ca_retained := map_option (\<lambda>r. r @ take added selected) (ca_retained c), ca_tail := tail,
             ca_digest := ca_digest c @ selected, ca_cap_exceeded := exceeded\<rparr>))"

record capture_snapshot =
  cs_observed_bytes :: nat
  cs_retained_bytes :: nat
  cs_retained :: "string option"
  cs_tail :: string
  cs_observed_sha256 :: string
  cs_truncated :: bool
  cs_cap_exceeded :: bool
  cs_terminal_disposition :: "disposition option"

definition take_capture_snapshot :: "(string \<Rightarrow> string) \<Rightarrow> capture \<Rightarrow> capture_snapshot" where
  "take_capture_snapshot sha256 c =
     \<lparr>cs_observed_bytes = ca_observed_bytes c, cs_retained_bytes = ca_retained_bytes c, cs_retained = ca_retained c,
      cs_tail = ca_tail c, cs_observed_sha256 = sha256 (ca_digest c), cs_truncated = (ca_retained_bytes c < ca_observed_bytes c),
      cs_cap_exceeded = ca_cap_exceeded c, cs_terminal_disposition = (if ca_cap_exceeded c then Some (ca_cap_disposition c) else None)\<rparr>"

definition capture_finalize :: "(string \<Rightarrow> string) \<Rightarrow> capture \<Rightarrow> capture_snapshot \<times> capture" where
  "capture_finalize sha256 c = (let c = c\<lparr>ca_finalized := True\<rparr> in (take_capture_snapshot sha256 c, c))"

section \<open>Correctness\<close>

fun append_all :: "string list \<Rightarrow> capture \<Rightarrow> (append_outcome list \<times> capture) result" where
  "append_all [] c = Inr ([], c)"
| "append_all (chunk # chunks) c = rbind (capture_append chunk c) (\<lambda>(x, c).
     rbind (append_all chunks c) (\<lambda>(xs, c). Inr (x # xs, c)))"

text \<open>The accumulator that has observed the bytes of a stream.\<close>

definition suffix :: "nat \<Rightarrow> string \<Rightarrow> string" where
  "suffix n s = drop (length s - n) s"

definition captured :: "capture_limits \<Rightarrow> bool \<Rightarrow> string \<Rightarrow> capture" where
  "captured limits retain s =
     \<lparr>ca_limits = limits, ca_cap_disposition = JOB_STOP, ca_observed_bytes = length s,
      ca_retained_bytes = min (cl_maximum_retained_bytes limits) (length s),
      ca_retained = (if retain then Some (take (cl_maximum_retained_bytes limits) s) else None),
      ca_tail = suffix (cl_tail_bytes limits) s, ca_digest = s,
      ca_cap_exceeded = (cl_maximum_observed_bytes limits < length s), ca_finalized = False\<rparr>"

lemma extend_tail_suffix: "extend_tail n (suffix n s) t = suffix n (s @ t)"
proof (cases "n \<le> length t")
  case True
  then show ?thesis by (simp add: extend_tail_def suffix_def)
next
  case False
  show ?thesis
  proof (cases "length s \<le> n")
    case True
    with False show ?thesis by (simp add: extend_tail_def suffix_def)
  next
    case longer: False
    with False have "length (suffix n s @ t) - n = length t" by (simp add: suffix_def)
    with False longer show ?thesis by (simp add: extend_tail_def suffix_def add.commute)
  qed
qed

lemma capture_append_captured:
  "capture_append t (captured limits retain s) = Inr
     (\<lparr>ao_observed_bytes_added = length t,
       ao_retained_bytes_added = min (cl_maximum_retained_bytes limits) (length (s @ t)) - min (cl_maximum_retained_bytes limits) (length s),
       ao_truncated = (cl_maximum_retained_bytes limits < length (s @ t)),
       ao_safety_cap_crossed = (length s \<le> cl_maximum_observed_bytes limits \<and> cl_maximum_observed_bytes limits < length (s @ t)),
       ao_disposition = (if cl_maximum_observed_bytes limits < length (s @ t) then Some JOB_STOP else None)\<rparr>,
      captured limits retain (s @ t))"
proof -
  let ?m = "cl_maximum_retained_bytes limits" and ?o = "cl_maximum_observed_bytes limits"
  let ?added = "if 0 < ?m - min ?m (length s) then min (?m - min ?m (length s)) (length t) else 0"
  define added where "added = ?added"
  have size: "added = min ?m (length s + length t) - min ?m (length s)" by (auto simp: added_def min_def)
  have retained: "min ?m (length s) + added = min ?m (length s + length t)" by (auto simp: added_def min_def)
  have kept: "take ?m s @ take added t = take ?m (s @ t)" by (auto simp: added_def min_def)
  have tail: "(if cl_tail_bytes limits \<noteq> 0 then extend_tail (cl_tail_bytes limits) (suffix (cl_tail_bytes limits) s) t
      else suffix (cl_tail_bytes limits) s) = suffix (cl_tail_bytes limits) (s @ t)"
    by (simp add: extend_tail_suffix) (simp add: suffix_def)
  have exceeded: "?o < length s \<or> ?o < length s + length t \<longleftrightarrow> ?o < length s + length t" by auto
  have crossed: "?o < length s + length t \<and> \<not> ?o < length s \<longleftrightarrow> length s \<le> ?o \<and> ?o < length s + length t" by auto
  have truncated: "min ?m (length s + length t) < length s + length t \<longleftrightarrow> ?m < length s + length t" by auto
  show ?thesis
    unfolding capture_append_def captured_def Let_def capture.select_convs added_def [symmetric]
    unfolding retained tail exceeded crossed truncated
    by (simp add: kept size [symmetric])
qed

lemma append_all_captured:
  "\<exists>xs. append_all chunks (captured limits retain s) = Inr (xs, captured limits retain (s @ concat chunks)) \<and>
     length (filter ao_safety_cap_crossed xs) =
       (if length s \<le> cl_maximum_observed_bytes limits \<and> cl_maximum_observed_bytes limits < length (s @ concat chunks) then 1 else 0) \<and>
     sum_list (map ao_observed_bytes_added xs) = length (concat chunks)"
proof (induction chunks arbitrary: s)
  case (Cons t chunks)
  obtain xs where "append_all chunks (captured limits retain (s @ t)) = Inr (xs, captured limits retain ((s @ t) @ concat chunks))"
    "length (filter ao_safety_cap_crossed xs) =
       (if length (s @ t) \<le> cl_maximum_observed_bytes limits \<and> cl_maximum_observed_bytes limits < length ((s @ t) @ concat chunks) then 1 else 0)"
    "sum_list (map ao_observed_bytes_added xs) = length (concat chunks)"
    using Cons [of "s @ t"] by blast
  then show ?case by (simp add: capture_append_captured) auto
qed simp

end
