(* ===== verification/Resource_Guard.thy ===== *)
theory Resource_Guard
  imports Safety Contracts
begin

text \<open>
  The resource monitors of a cohort, \<^verbatim>\<open>runtime/resource_guard.py\<close>: the disk reserve, the
  aggregate accounting of a tree, and the guard that latches the first terminal event of a session or of
  the cohort. The monitors are coroutines of one event loop, so the guard is a step relation whose steps
  go from one suspension to the next; what the filesystem answers is an argument of a step.
\<close>

definition RESOURCE_EVIDENCE_SCHEMA :: string where
  "RESOURCE_EVIDENCE_SCHEMA = ''PMW_RUNTIME_RESOURCE_EVIDENCE_1''"

definition MAXIMUM_RESOURCE_WARNINGS :: nat where
  "MAXIMUM_RESOURCE_WARNINGS = 4"

section \<open>Observations\<close>

record disk_snapshot =
  dk_total_bytes :: int
  dk_available_bytes :: int
  dk_required_free_bytes :: int

definition disk_snapshot_to_value :: "disk_snapshot \<Rightarrow> pyval" where
  "disk_snapshot_to_value d = PDict
     [(''total_bytes'', PInt (dk_total_bytes d)), (''available_bytes'', PInt (dk_available_bytes d)),
      (''required_free_bytes'', PInt (dk_required_free_bytes d))]"

record tree_snapshot =
  ts_total_bytes :: int
  ts_entries :: int
  ts_maximum_depth :: int

definition tree_snapshot_to_value :: "tree_snapshot \<Rightarrow> pyval" where
  "tree_snapshot_to_value t = PDict
     [(''total_bytes'', PInt (ts_total_bytes t)), (''entries'', PInt (ts_entries t)),
      (''maximum_depth'', PInt (ts_maximum_depth t))]"

datatype event_scope = Session_Scope | Cohort_Scope
datatype target = Host_Filesystem | Workspace | Cache
datatype phase = Initial | Live | Terminal

fun scope_value :: "event_scope \<Rightarrow> string" where
  "scope_value Session_Scope = ''SESSION''"
| "scope_value Cohort_Scope = ''COHORT''"

fun target_value :: "target \<Rightarrow> string" where
  "target_value Host_Filesystem = ''host_filesystem''"
| "target_value Workspace = ''workspace''"
| "target_value Cache = ''cache''"

fun phase_value :: "phase \<Rightarrow> string" where
  "phase_value Initial = ''INITIAL''"
| "phase_value Live = ''LIVE''"
| "phase_value Terminal = ''TERMINAL''"

record resource_event =
  ev_code :: string
  ev_scope :: event_scope
  ev_target :: target
  ev_phase :: phase
  ev_disposition :: "disposition option"
  ev_session_id :: "string option"
  ev_uncertain :: bool
  ev_observed :: "(string \<times> int) list"
  ev_limits :: "(string \<times> int) list"
  ev_detail :: string

definition event_counts :: "(string \<times> int) list \<Rightarrow> pyval" where
  "event_counts ns = PDict (map (\<lambda>(k, n). (k, PInt n)) ns)"

definition resource_event_to_value :: "resource_event \<Rightarrow> pyval" where
  "resource_event_to_value e = PDict
     [(''code'', PStr (ev_code e)), (''scope'', PStr (scope_value (ev_scope e))), (''target'', PStr (target_value (ev_target e))),
      (''phase'', PStr (phase_value (ev_phase e))), (''disposition'', opt_text (map_option disposition_value (ev_disposition e))),
      (''session_id'', opt_text (ev_session_id e)), (''uncertain'', PBool (ev_uncertain e)),
      (''observed'', event_counts (ev_observed e)), (''limits'', event_counts (ev_limits e)),
      (''detail'', PStr (cp_take 512 (ev_detail e)))]"

text \<open>\<open>read_disk_snapshot\<close> on the fields of \<open>os.statvfs\<close>; a failure is the qualified name of the exception.\<close>

record statvfs =
  f_frsize :: int
  f_bsize :: int
  f_blocks :: int
  f_bavail :: int

definition accounting_error :: string where
  "accounting_error = ''pmw_platform.runtime.resource_guard.ResourceAccountingError''"

definition read_disk_snapshot :: "safety_profile \<Rightarrow> statvfs option \<Rightarrow> string + disk_snapshot" where
  "read_disk_snapshot p answer = (case answer of
      None \<Rightarrow> Inl accounting_error
    | Some v \<Rightarrow>
        let fragment = (if f_frsize v \<noteq> 0 then f_frsize v else f_bsize v);
            total_bytes = f_blocks v * fragment;
            available = f_bavail v * fragment
        in (case required_free_bytes p total_bytes of
            Inl _ \<Rightarrow> Inl accounting_error
          | Inr required \<Rightarrow>
              if total_bytes \<le> 0 \<or> available < 0 \<or> total_bytes < available then Inl accounting_error
              else Inr \<lparr>dk_total_bytes = total_bytes, dk_available_bytes = available, dk_required_free_bytes = required\<rparr>))"

definition resource_error_detail :: "string \<Rightarrow> string" where
  "resource_error_detail qualified_name = cp_take 512 qualified_name"

section \<open>The guard\<close>

text \<open>
  Where the coroutine of a session is: before \<open>activate\<close>, in a scan of \<open>activate\<close> or \<open>finish\<close> (the head of the list),
  joining its cancelled monitors, or not in the guard. A live monitor of a tree sleeps or scans.
\<close>

datatype guard_control = Outside | Activating "target list" | Joining | Finishing "target list"

datatype monitor = Sleeping | Scanning

record resource_guard =
  gd_profile :: safety_profile
  gd_session_ids :: "string list"
  gd_signals :: "string set"
  gd_session_terminal :: "string \<Rightarrow> resource_event option"
  gd_global_terminal :: "resource_event option"
  gd_warnings :: "string \<Rightarrow> resource_event list"
  gd_latest_disk :: "disk_snapshot option"
  gd_latest_tree :: "string \<Rightarrow> target \<Rightarrow> tree_snapshot option"
  gd_tree_checks :: "string \<Rightarrow> target \<Rightarrow> nat"
  gd_disk_checks :: nat
  gd_disk_monitor :: bool
  gd_tree_monitors :: "string \<Rightarrow> target \<Rightarrow> monitor option"
  gd_control :: "string \<Rightarrow> guard_control"
  gd_activated :: "string set"
  gd_finished :: "string set"
  gd_started :: bool
  gd_closed :: bool

definition guard_init :: "safety_profile \<Rightarrow> string list \<Rightarrow> resource_guard result" where
  "guard_init profile session_ids =
     (if session_ids = [] \<or> \<not> distinct session_ids then Inl (Value_Error ''session_ids must be nonempty and unique'')
      else Inr \<lparr>gd_profile = profile, gd_session_ids = session_ids, gd_signals = {}, gd_session_terminal = (\<lambda>_. None),
        gd_global_terminal = None, gd_warnings = (\<lambda>_. []), gd_latest_disk = None, gd_latest_tree = (\<lambda>_ _. None),
        gd_tree_checks = (\<lambda>_ _. 0), gd_disk_checks = 0, gd_disk_monitor = False, gd_tree_monitors = (\<lambda>_ _. None),
        gd_control = (\<lambda>_. Outside), gd_activated = {}, gd_finished = {}, gd_started = False, gd_closed = False\<rparr>)"

definition require_session :: "string \<Rightarrow> resource_guard \<Rightarrow> unit result" where
  "require_session s g = require (s \<in> set (gd_session_ids g)) (Key_Error s)"

definition latched_event :: "resource_guard \<Rightarrow> string \<Rightarrow> resource_event option" where
  "latched_event g s = (case gd_global_terminal g of Some e \<Rightarrow> Some e | None \<Rightarrow> gd_session_terminal g s)"

definition event_for :: "resource_guard \<Rightarrow> string \<Rightarrow> resource_event option result" where
  "event_for g s = rbind (require_session s g) (\<lambda>_. Inr (latched_event g s))"

text \<open>\<open>_latch\<close>\<close>

definition add_warning :: "resource_event \<Rightarrow> string \<Rightarrow> resource_guard \<Rightarrow> resource_guard" where
  "add_warning e s g =
     (if length (gd_warnings g s) < MAXIMUM_RESOURCE_WARNINGS
      then g\<lparr>gd_warnings := (gd_warnings g)(s := gd_warnings g s @ [e])\<rparr> else g)"

definition latch :: "resource_event \<Rightarrow> resource_guard \<Rightarrow> resource_guard result" where
  "latch e g =
     (if ev_disposition e = Some WARN \<and> \<not> ev_uncertain e
      then Inr (fold (add_warning e) (case ev_session_id e of None \<Rightarrow> gd_session_ids g | Some s \<Rightarrow> [s]) g)
      else (case ev_scope e of
          Cohort_Scope \<Rightarrow> Inr (if gd_global_terminal g = None
            then g\<lparr>gd_global_terminal := Some e, gd_signals := set (gd_session_ids g)\<rparr> else g)
        | Session_Scope \<Rightarrow> (case ev_session_id e of
            None \<Rightarrow> Inl (Assertion_Error ''session-scoped resource event lacks a session'')
          | Some s \<Rightarrow> Inr (if gd_session_terminal g s = None
              then g\<lparr>gd_session_terminal := (gd_session_terminal g)(s := Some e), gd_signals := insert s (gd_signals g)\<rparr>
              else g))))"

definition uncertain_event :: "target \<Rightarrow> phase \<Rightarrow> string option \<Rightarrow> string \<Rightarrow> resource_event" where
  "uncertain_event target phase session_id qualified_name =
     \<lparr>ev_code = ''RESOURCE_ACCOUNTING_UNCERTAIN'', ev_scope = Cohort_Scope, ev_target = target, ev_phase = phase,
      ev_disposition = None, ev_session_id = session_id, ev_uncertain = True, ev_observed = [], ev_limits = [],
      ev_detail = resource_error_detail qualified_name\<rparr>"

type_synonym checked = "(resource_event option \<times> resource_guard) result"

definition latch_event :: "resource_event \<Rightarrow> resource_guard \<Rightarrow> checked" where
  "latch_event e g = rbind (latch e g) (\<lambda>g. Inr (Some e, g))"

text \<open>\<open>_check_disk\<close> has no suspension.\<close>

definition check_disk :: "phase \<Rightarrow> string + disk_snapshot \<Rightarrow> resource_guard \<Rightarrow> checked" where
  "check_disk phase answer g =
     (let g = g\<lparr>gd_disk_checks := Suc (gd_disk_checks g)\<rparr>
      in case answer of
          Inl name \<Rightarrow> latch_event (uncertain_event Host_Filesystem phase None name) g
        | Inr d \<Rightarrow>
            let g = g\<lparr>gd_latest_disk := Some d\<rparr>
            in if dk_required_free_bytes d \<le> dk_available_bytes d then Inr (None, g)
               else rbind (profile_disposition (gd_profile g) ''DISK_RESERVE_BREACHED'') (\<lambda>disposition.
                 latch_event
                   \<lparr>ev_code = ''DISK_RESERVE_BREACHED'', ev_scope = Cohort_Scope, ev_target = Host_Filesystem, ev_phase = phase,
                    ev_disposition = Some disposition, ev_session_id = None, ev_uncertain = False,
                    ev_observed = [(''available_bytes'', dk_available_bytes d)],
                    ev_limits = [(''required_free_bytes'', dk_required_free_bytes d)], ev_detail = []\<rparr> g))"

definition limit_rows :: "target \<Rightarrow> tree_snapshot \<Rightarrow> tree_limits \<Rightarrow> (int \<times> int \<times> string \<times> string \<times> string) list" where
  "limit_rows target snapshot limits =
     (let prefix = (if target = Workspace then ''WORKSPACE'' else ''RUNTIME_CACHE'')
      in [(ts_total_bytes snapshot, tl_maximum_total_bytes limits, prefix @ ''_TOTAL_BYTES_EXCEEDED'', ''total_bytes'', ''maximum_total_bytes''),
          (ts_entries snapshot, tl_maximum_entries limits, prefix @ ''_ENTRY_LIMIT_EXCEEDED'', ''entries'', ''maximum_entries''),
          (ts_maximum_depth snapshot, tl_maximum_depth limits,
           if target = Workspace then ''WORKSPACE_DEPTH_LIMIT_EXCEEDED'' else ''RUNTIME_CACHE_ENTRY_LIMIT_EXCEEDED'',
           ''maximum_depth'', ''maximum_depth'')])"

definition tree_limit_event ::
  "safety_profile \<Rightarrow> string \<Rightarrow> target \<Rightarrow> phase \<Rightarrow> tree_snapshot \<Rightarrow> tree_limits \<Rightarrow> resource_event option result" where
  "tree_limit_event profile session_id target phase snapshot limits =
     (case find (\<lambda>(observed, limit, _). limit < observed) (limit_rows target snapshot limits) of
        None \<Rightarrow> Inr None
      | Some (observed, limit, code, observed_label, limit_label) \<Rightarrow>
          rbind (profile_disposition profile code) (\<lambda>disposition. Inr (Some
            \<lparr>ev_code = code, ev_scope = Session_Scope, ev_target = target, ev_phase = phase, ev_disposition = Some disposition,
             ev_session_id = Some session_id, ev_uncertain = False, ev_observed = [(observed_label, observed)],
             ev_limits = [(limit_label, limit)], ev_detail = []\<rparr>)))"

definition target_limits :: "safety_profile \<Rightarrow> target \<Rightarrow> tree_limits" where
  "target_limits p target = (if target = Workspace then pf_workspace p else pf_runtime_cache p)"

text \<open>\<open>_check_tree\<close> before and after its scan, during which it may be suspended.\<close>

definition begin_tree :: "string \<Rightarrow> target \<Rightarrow> resource_guard \<Rightarrow> resource_guard" where
  "begin_tree s target g = g\<lparr>gd_tree_checks := (gd_tree_checks g)(s := (gd_tree_checks g s)(target := Suc (gd_tree_checks g s target)))\<rparr>"

definition end_tree :: "string \<Rightarrow> target \<Rightarrow> phase \<Rightarrow> string + tree_snapshot \<Rightarrow> resource_guard \<Rightarrow> checked" where
  "end_tree s target phase answer g = (case answer of
      Inl name \<Rightarrow> latch_event (uncertain_event target phase (Some s) name) g
    | Inr t \<Rightarrow>
        let g = g\<lparr>gd_latest_tree := (gd_latest_tree g)(s := (gd_latest_tree g s)(target := Some t))\<rparr>
        in rbind (tree_limit_event (gd_profile g) s target phase t (target_limits (gd_profile g) target)) (\<lambda>event.
          case event of None \<Rightarrow> Inr (None, g) | Some e \<Rightarrow> latch_event e g))"

abbreviation lifecycle_error :: exn where
  "lifecycle_error \<equiv> Runtime_Error ''resource guard lifecycle is invalid''"

definition set_control :: "string \<Rightarrow> guard_control \<Rightarrow> resource_guard \<Rightarrow> resource_guard" where
  "set_control s c g = g\<lparr>gd_control := (gd_control g)(s := c)\<rparr>"

definition set_monitor :: "string \<Rightarrow> target \<Rightarrow> monitor option \<Rightarrow> resource_guard \<Rightarrow> resource_guard" where
  "set_monitor s target m g = g\<lparr>gd_tree_monitors := (gd_tree_monitors g)(s := (gd_tree_monitors g s)(target := m))\<rparr>"

text \<open>\<open>start\<close>\<close>

definition guard_start :: "string + disk_snapshot \<Rightarrow> resource_guard \<Rightarrow> checked" where
  "guard_start answer g =
     (if gd_started g \<or> gd_closed g then Inl lifecycle_error
      else rbind (check_disk Initial answer (g\<lparr>gd_started := True\<rparr>)) (\<lambda>(event, g).
        Inr (event, if event = None then g\<lparr>gd_disk_monitor := True\<rparr> else g)))"

text \<open>A wake-up of \<open>_disk_loop\<close>: the loop condition is read again after the check only.\<close>

definition disk_wakes :: "string + disk_snapshot \<Rightarrow> resource_guard \<Rightarrow> checked" where
  "disk_wakes answer g = rbind (check_disk Live answer g) (\<lambda>(event, g).
     Inr (event, g\<lparr>gd_disk_monitor := (gd_global_terminal g = None)\<rparr>))"

text \<open>\<open>activate\<close> up to its first scan, and after each scan\<close>

definition activate_begin :: "string \<Rightarrow> resource_guard \<Rightarrow> checked" where
  "activate_begin s g = rbind (require_session s g) (\<lambda>_.
     if \<not> gd_started g \<or> gd_closed g \<or> s \<in> gd_activated g then Inl lifecycle_error
     else
       let g = g\<lparr>gd_activated := insert s (gd_activated g)\<rparr>
       in case gd_global_terminal g of
           Some e \<Rightarrow> Inr (Some e, g)
         | None \<Rightarrow> Inr (None, set_control s (Activating [Workspace, Cache]) (begin_tree s Workspace g)))"

definition start_monitors :: "string \<Rightarrow> resource_guard \<Rightarrow> resource_guard" where
  "start_monitors s g = fold (\<lambda>target g.
     if tl_scan_mode (target_limits (gd_profile g) target) = LIVE_LATCHED then set_monitor s target (Some Sleeping) g else g)
     [Workspace, Cache] g"

definition activate_scanned :: "string \<Rightarrow> string + tree_snapshot \<Rightarrow> resource_guard \<Rightarrow> checked" where
  "activate_scanned s answer g = (case gd_control g s of
      Activating (target # targets) \<Rightarrow>
        rbind (end_tree s target Initial answer g) (\<lambda>(event, g).
          if (case event of None \<Rightarrow> False | Some e \<Rightarrow> ev_disposition e \<noteq> Some WARN)
          then Inr (latched_event g s, set_control s Outside g)
          else (case targets of
              next # _ \<Rightarrow> Inr (None, set_control s (Activating targets) (begin_tree s next g))
            | [] \<Rightarrow>
                let g = set_control s Outside (start_monitors s g)
                in Inr (latched_event g s, g)))
    | _ \<Rightarrow> Inl lifecycle_error)"

text \<open>A wake-up and the end of a scan of \<open>_tree_loop\<close>\<close>

definition tree_wakes :: "string \<Rightarrow> target \<Rightarrow> resource_guard \<Rightarrow> resource_guard" where
  "tree_wakes s target g = set_monitor s target (Some Scanning) (begin_tree s target g)"

definition tree_scanned :: "string \<Rightarrow> target \<Rightarrow> string + tree_snapshot \<Rightarrow> resource_guard \<Rightarrow> checked" where
  "tree_scanned s target answer g = rbind (end_tree s target Live answer g) (\<lambda>(event, g).
     Inr (event, set_monitor s target (if latched_event g s = None then Some Sleeping else None) g))"

text \<open>\<open>finish\<close>: cancelling the monitors, the quiescent measurements, the end\<close>

definition finish_begin :: "string \<Rightarrow> resource_guard \<Rightarrow> checked" where
  "finish_begin s g = rbind (require_session s g) (\<lambda>_.
     if s \<in> gd_finished g then Inr (latched_event g s, g)
     else if s \<notin> gd_activated g then Inr (latched_event g s, g\<lparr>gd_finished := insert s (gd_finished g)\<rparr>)
     else Inr (None, set_control s Joining (g\<lparr>gd_tree_monitors := (gd_tree_monitors g)(s := (\<lambda>_. None))\<rparr>)))"

definition finish_joined :: "string \<Rightarrow> string + disk_snapshot \<Rightarrow> resource_guard \<Rightarrow> checked" where
  "finish_joined s answer g = rbind (check_disk Terminal answer g) (\<lambda>(event, g).
     Inr (None, set_control s (Finishing [Workspace, Cache]) (begin_tree s Workspace g)))"

definition finish_scanned :: "string \<Rightarrow> string + tree_snapshot \<Rightarrow> resource_guard \<Rightarrow> checked" where
  "finish_scanned s answer g = (case gd_control g s of
      Finishing (target # targets) \<Rightarrow>
        rbind (end_tree s target Terminal answer g) (\<lambda>(_, g). case targets of
            next # _ \<Rightarrow> Inr (None, set_control s (Finishing targets) (begin_tree s next g))
          | [] \<Rightarrow> Inr (latched_event g s, set_control s Outside (g\<lparr>gd_finished := insert s (gd_finished g)\<rparr>)))
    | _ \<Rightarrow> Inl lifecycle_error)"

text \<open>\<open>wait\<close>: blocked until the signal of the session is set\<close>

definition guard_wait :: "string \<Rightarrow> resource_guard \<Rightarrow> resource_event result option" where
  "guard_wait s g = (case require_session s g of
      Inl e \<Rightarrow> Some (Inl e)
    | Inr _ \<Rightarrow>
        if s \<notin> gd_signals g then None
        else Some (case latched_event g s of
            None \<Rightarrow> Inl (Assertion_Error ''resource signal lacks an event'')
          | Some e \<Rightarrow> Inr e))"

definition guard_close :: "resource_guard \<Rightarrow> resource_guard" where
  "guard_close g = (if gd_closed g then g
     else g\<lparr>gd_closed := True, gd_disk_monitor := False, gd_tree_monitors := (\<lambda>_ _. None)\<rparr>)"

definition opt_value :: "('a \<Rightarrow> pyval) \<Rightarrow> 'a option \<Rightarrow> pyval" where
  "opt_value f x = (case x of None \<Rightarrow> PNone | Some y \<Rightarrow> f y)"

definition guard_evidence :: "resource_guard \<Rightarrow> string \<Rightarrow> pyval result" where
  "guard_evidence g s = rbind (require_session s g) (\<lambda>_. Inr (PDict
     [(''schema'', PStr RESOURCE_EVIDENCE_SCHEMA),
      (''checks'', PDict [(''disk'', PInt (int (gd_disk_checks g))), (''workspace'', PInt (int (gd_tree_checks g s Workspace))),
         (''cache'', PInt (int (gd_tree_checks g s Cache)))]),
      (''latest'', PDict [(''disk'', opt_value disk_snapshot_to_value (gd_latest_disk g)),
         (''workspace'', opt_value tree_snapshot_to_value (gd_latest_tree g s Workspace)),
         (''cache'', opt_value tree_snapshot_to_value (gd_latest_tree g s Cache))]),
      (''terminal_event'', opt_value resource_event_to_value (latched_event g s)),
      (''warnings'', PList (map resource_event_to_value (gd_warnings g s)))]))"

section \<open>Steps\<close>

text \<open>
  What is assumed of the answers: the accounting calls measure sizes that are not negative, and the
  qualified name of an exception class is ASCII.
\<close>

definition ascii :: "string \<Rightarrow> bool" where
  "ascii s \<longleftrightarrow> list_all (\<lambda>c. cc c < 128) s"

definition disk_answer_ok :: "safety_profile \<Rightarrow> string + disk_snapshot \<Rightarrow> bool" where
  "disk_answer_ok p a \<longleftrightarrow> (case a of Inl name \<Rightarrow> ascii name | Inr _ \<Rightarrow> (\<exists>v. read_disk_snapshot p v = a))"

definition tree_answer_ok :: "string + tree_snapshot \<Rightarrow> bool" where
  "tree_answer_ok a \<longleftrightarrow> (case a of
      Inl name \<Rightarrow> ascii name
    | Inr t \<Rightarrow> 0 \<le> ts_total_bytes t \<and> 0 \<le> ts_entries t \<and> 0 \<le> ts_maximum_depth t)"

inductive guard_step :: "resource_guard \<Rightarrow> resource_guard \<Rightarrow> bool" where
  gs_start: "disk_answer_ok (gd_profile g) a \<Longrightarrow> guard_start a g = Inr (e, g') \<Longrightarrow> guard_step g g'"
| gs_disk: "gd_disk_monitor g \<Longrightarrow> disk_answer_ok (gd_profile g) a \<Longrightarrow> disk_wakes a g = Inr (e, g') \<Longrightarrow> guard_step g g'"
| gs_activate: "activate_begin s g = Inr (e, g') \<Longrightarrow> guard_step g g'"
| gs_activating: "tree_answer_ok a \<Longrightarrow> activate_scanned s a g = Inr (e, g') \<Longrightarrow> guard_step g g'"
| gs_tree: "gd_tree_monitors g s t = Some Sleeping \<Longrightarrow> guard_step g (tree_wakes s t g)"
| gs_scanned: "gd_tree_monitors g s t = Some Scanning \<Longrightarrow> tree_answer_ok a \<Longrightarrow> tree_scanned s t a g = Inr (e, g') \<Longrightarrow>
    guard_step g g'"
| gs_finish: "gd_control g s = Outside \<Longrightarrow> finish_begin s g = Inr (e, g') \<Longrightarrow> guard_step g g'"
| gs_joined: "gd_control g s = Joining \<Longrightarrow> disk_answer_ok (gd_profile g) a \<Longrightarrow> finish_joined s a g = Inr (e, g') \<Longrightarrow>
    guard_step g g'"
| gs_finishing: "tree_answer_ok a \<Longrightarrow> finish_scanned s a g = Inr (e, g') \<Longrightarrow> guard_step g g'"
| gs_close: "guard_step g (guard_close g)"

inductive guard_reachable :: "resource_guard \<Rightarrow> resource_guard \<Rightarrow> bool" for g where
  gr_start: "guard_reachable g g"
| gr_step: "guard_reachable g h \<Longrightarrow> guard_step h k \<Longrightarrow> guard_reachable g k"

section \<open>Correctness\<close>

definition profile_ok :: "safety_profile \<Rightarrow> bool" where
  "profile_ok p \<longleftrightarrow> check_profile p = Inr p \<and> (\<forall>n > 0. 0 < pf_reserve p n) \<and>
     (\<forall>l \<in> {pf_workspace p, pf_runtime_cache p}. 0 < tl_maximum_total_bytes l \<and> 0 < tl_maximum_entries l \<and> 0 < tl_maximum_depth l)"

definition counts_ok :: "(string \<times> int) list \<Rightarrow> bool" where
  "counts_ok ns \<longleftrightarrow> length ns \<le> 4 \<and> distinct (keys ns) \<and> (\<forall>(k, n) \<in> set ns. ascii k \<and> 0 \<le> n)"

text \<open>An event that ends a session, and not a warning.\<close>

definition stops :: "resource_event \<Rightarrow> bool" where
  "stops e \<longleftrightarrow> \<not> (ev_disposition e = Some WARN \<and> \<not> ev_uncertain e)"

definition event_ok :: "string set \<Rightarrow> resource_event \<Rightarrow> bool" where
  "event_ok ids e \<longleftrightarrow> is_TERMINAL_REASON (ev_code e) \<and> ev_uncertain e = (ev_disposition e = None) \<and>
     (ev_scope e = Session_Scope \<longrightarrow> ev_session_id e \<noteq> None) \<and> (ev_uncertain e \<longrightarrow> ev_scope e = Cohort_Scope) \<and>
     ev_uncertain e = (ev_code e = ''RESOURCE_ACCOUNTING_UNCERTAIN'') \<and>
     pred_option (\<lambda>s. s \<in> ids) (ev_session_id e) \<and> counts_ok (ev_observed e) \<and> counts_ok (ev_limits e) \<and>
     ascii (ev_detail e) \<and> length (ev_detail e) \<le> 512"

definition disk_ok :: "disk_snapshot \<Rightarrow> bool" where
  "disk_ok d \<longleftrightarrow> 0 \<le> dk_total_bytes d \<and> 0 \<le> dk_available_bytes d \<and> 0 \<le> dk_required_free_bytes d"

definition tree_ok :: "tree_snapshot \<Rightarrow> bool" where
  "tree_ok t \<longleftrightarrow> 0 \<le> ts_total_bytes t \<and> 0 \<le> ts_entries t \<and> 0 \<le> ts_maximum_depth t"

definition guard_inv :: "resource_guard \<Rightarrow> bool" where
  "guard_inv g \<longleftrightarrow> profile_ok (gd_profile g) \<and>
     gd_signals g = {s \<in> set (gd_session_ids g). latched_event g s \<noteq> None} \<and>
     (\<forall>e. gd_global_terminal g = Some e \<longrightarrow> event_ok (set (gd_session_ids g)) e \<and> ev_scope e = Cohort_Scope \<and> stops e) \<and>
     (\<forall>s e. gd_session_terminal g s = Some e \<longrightarrow>
        event_ok (set (gd_session_ids g)) e \<and> ev_scope e = Session_Scope \<and> ev_session_id e = Some s \<and> stops e) \<and>
     (\<forall>s. length (gd_warnings g s) \<le> MAXIMUM_RESOURCE_WARNINGS \<and> (\<forall>e \<in> set (gd_warnings g s).
        event_ok (set (gd_session_ids g)) e \<and> \<not> stops e \<and> (ev_scope e = Session_Scope \<longrightarrow> ev_session_id e = Some s))) \<and>
     pred_option disk_ok (gd_latest_disk g) \<and> (\<forall>s t. pred_option tree_ok (gd_latest_tree g s t)) \<and>
     (\<forall>s. gd_control g s \<noteq> Outside \<longrightarrow> s \<in> set (gd_session_ids g)) \<and>
     (\<forall>s t. gd_tree_monitors g s t \<noteq> None \<longrightarrow> s \<in> set (gd_session_ids g))"

text \<open>What a check leaves as it is, and what it never takes back.\<close>

definition frame :: "resource_guard \<Rightarrow> resource_guard \<Rightarrow> bool" where
  "frame g g' \<longleftrightarrow> gd_profile g' = gd_profile g \<and> gd_session_ids g' = gd_session_ids g \<and> gd_control g' = gd_control g \<and>
     gd_tree_monitors g' = gd_tree_monitors g"

definition keeps :: "resource_guard \<Rightarrow> resource_guard \<Rightarrow> bool" where
  "keeps g g' \<longleftrightarrow> (\<forall>e. gd_global_terminal g = Some e \<longrightarrow> gd_global_terminal g' = Some e) \<and>
     (\<forall>s e. gd_session_terminal g s = Some e \<longrightarrow> gd_session_terminal g' s = Some e)"

lemma keeps_refl [simp]: "keeps g g"
  by (simp add: keeps_def)

lemma keeps_trans: "keeps g h \<Longrightarrow> keeps h k \<Longrightarrow> keeps g k"
  by (simp add: keeps_def)

lemma frame_trans: "frame g h \<Longrightarrow> frame h k \<Longrightarrow> frame g k"
  by (simp add: frame_def)

lemma frame_refl [simp]: "frame g g"
  by (simp add: frame_def)

lemma latched_event_updates [simp]:
  "latched_event (g\<lparr>gd_signals := x_signals\<rparr>) = latched_event g"
  "latched_event (g\<lparr>gd_warnings := x_warnings\<rparr>) = latched_event g"
  "latched_event (g\<lparr>gd_latest_disk := x_latest_disk\<rparr>) = latched_event g"
  "latched_event (g\<lparr>gd_latest_tree := x_latest_tree\<rparr>) = latched_event g"
  "latched_event (g\<lparr>gd_tree_checks := x_tree_checks\<rparr>) = latched_event g"
  "latched_event (g\<lparr>gd_disk_checks := x_disk_checks\<rparr>) = latched_event g"
  "latched_event (g\<lparr>gd_disk_monitor := x_disk_monitor\<rparr>) = latched_event g"
  "latched_event (g\<lparr>gd_tree_monitors := x_tree_monitors\<rparr>) = latched_event g"
  "latched_event (g\<lparr>gd_control := x_control\<rparr>) = latched_event g"
  "latched_event (g\<lparr>gd_activated := x_activated\<rparr>) = latched_event g"
  "latched_event (g\<lparr>gd_finished := x_finished\<rparr>) = latched_event g"
  "latched_event (g\<lparr>gd_started := x_started\<rparr>) = latched_event g"
  "latched_event (g\<lparr>gd_closed := x_closed\<rparr>) = latched_event g"
  by (rule ext; cases "gd_global_terminal g"; simp add: latched_event_def)+

lemma add_warning_inv:
  assumes "guard_inv g" "event_ok (set (gd_session_ids g)) e" "\<not> stops e" "ev_scope e = Session_Scope \<longrightarrow> ev_session_id e = Some s"
  shows "guard_inv (add_warning e s g)"
  using assms by (simp add: guard_inv_def add_warning_def MAXIMUM_RESOURCE_WARNINGS_def)

lemma add_warning_frame: "frame g (add_warning e s g) \<and> keeps g (add_warning e s g)"
  by (simp add: add_warning_def frame_def keeps_def)

lemma add_warnings:
  assumes "guard_inv g" "event_ok (set (gd_session_ids g)) e" "\<not> stops e"
    and "\<And>s. s \<in> set ss \<Longrightarrow> ev_scope e = Session_Scope \<longrightarrow> ev_session_id e = Some s"
  shows "guard_inv (fold (add_warning e) ss g) \<and> frame g (fold (add_warning e) ss g) \<and> keeps g (fold (add_warning e) ss g)"
  using assms
proof (induction ss arbitrary: g)
  case (Cons s ss)
  let ?h = "add_warning e s g"
  have h: "guard_inv ?h" by (rule add_warning_inv) (use Cons.prems in auto)
  have f: "frame g ?h" "keeps g ?h" using add_warning_frame by blast+
  then have "event_ok (set (gd_session_ids ?h)) e" using Cons.prems(2) by (simp add: frame_def)
  with Cons.IH [OF h] Cons.prems(3,4) f show ?case by (auto intro: frame_trans keeps_trans)
qed simp

text \<open>Where an event that stops is seen.\<close>

definition seen :: "resource_event \<Rightarrow> resource_guard \<Rightarrow> bool" where
  "seen e g \<longleftrightarrow> (case ev_scope e of
      Cohort_Scope \<Rightarrow> gd_global_terminal g \<noteq> None
    | Session_Scope \<Rightarrow> (\<forall>s. ev_session_id e = Some s \<longrightarrow> gd_session_terminal g s \<noteq> None))"

lemma latch_ok:
  assumes "guard_inv g" "event_ok (set (gd_session_ids g)) e"
  shows "\<exists>g'. latch e g = Inr g' \<and> guard_inv g' \<and> frame g g' \<and> keeps g g' \<and> (stops e \<longrightarrow> seen e g')"
proof (cases "stops e")
  case False
  let ?ss = "case ev_session_id e of None \<Rightarrow> gd_session_ids g | Some s \<Rightarrow> [s]"
  have "latch e g = Inr (fold (add_warning e) ?ss g)" using False by (simp add: latch_def stops_def)
  moreover have "ev_scope e = Session_Scope \<longrightarrow> ev_session_id e = Some s" if "s \<in> set ?ss" for s
    using assms(2) that by (auto simp: event_ok_def split: option.splits)
  then have "guard_inv (fold (add_warning e) ?ss g) \<and> frame g (fold (add_warning e) ?ss g) \<and> keeps g (fold (add_warning e) ?ss g)"
    using assms False by (intro add_warnings)
  ultimately show ?thesis using False by blast
next
  case stop: True
  show ?thesis
  proof (cases "ev_scope e")
    case Cohort_Scope
    let ?g = "g\<lparr>gd_global_terminal := Some e, gd_signals := set (gd_session_ids g)\<rparr>"
    have "guard_inv ?g" if "gd_global_terminal g = None"
      using assms stop Cohort_Scope by (simp add: guard_inv_def latched_event_def)
    with assms stop Cohort_Scope show ?thesis
      by (auto simp: latch_def stops_def frame_def keeps_def seen_def)
  next
    case Session_Scope
    with assms(2) obtain s where s: "ev_session_id e = Some s" "s \<in> set (gd_session_ids g)" by (auto simp: event_ok_def)
    let ?g = "g\<lparr>gd_session_terminal := (gd_session_terminal g)(s := Some e), gd_signals := insert s (gd_signals g)\<rparr>"
    have "guard_inv ?g" if "gd_session_terminal g s = None"
      using assms stop Session_Scope s by (auto simp: guard_inv_def latched_event_def split: option.splits)
    with assms stop Session_Scope s show ?thesis
      by (auto simp: latch_def stops_def frame_def keeps_def seen_def)
  qed
qed

lemma latch_event_ok:
  assumes "guard_inv g" "event_ok (set (gd_session_ids g)) e"
  shows "\<exists>g'. latch_event e g = Inr (Some e, g') \<and> guard_inv g' \<and> frame g g' \<and> keeps g g' \<and> (stops e \<longrightarrow> seen e g')"
  using latch_ok [OF assms] by (auto simp: latch_event_def)

lemma ascii_cp_take: "ascii s \<Longrightarrow> cp_take n s = take n s"
proof (induction n s rule: cp_take.induct)
  case (2 n c s)
  then show ?case by (cases n) (auto simp: ascii_def is_cont_def)
qed simp

lemma uncertain_event_ok: "ascii name \<Longrightarrow> pred_option (\<lambda>s. s \<in> ids) s \<Longrightarrow> event_ok ids (uncertain_event t ph s name)"
proof -
  assume name: "ascii name" "pred_option (\<lambda>s. s \<in> ids) s"
  have "is_TERMINAL_REASON ''RESOURCE_ACCOUNTING_UNCERTAIN''" by code_simp
  with name show ?thesis
    by (auto simp: event_ok_def uncertain_event_def counts_ok_def resource_error_detail_def ascii_cp_take ascii_def
        dest: in_set_takeD simp: list_all_iff)
qed

text \<open>Every code of an event is in the vocabulary of a profile.\<close>

lemma profile_known:
  assumes "profile_ok p" "code \<in> set REQUIRED_SAFETY_CODES"
  shows "\<exists>d. profile_disposition p code = Inr d \<and> is_TERMINAL_REASON code \<and> code \<noteq> ''RESOURCE_ACCOUNTING_UNCERTAIN''"
proof -
  have "list_all (\<lambda>c. is_SAFETY_CODE c \<and> is_TERMINAL_REASON c \<and> c \<noteq> ''RESOURCE_ACCOUNTING_UNCERTAIN'') REQUIRED_SAFETY_CODES" by code_simp
  then have code: "is_SAFETY_CODE code" "is_TERMINAL_REASON code" "code \<noteq> ''RESOURCE_ACCOUNTING_UNCERTAIN''"
    using assms(2) by (auto simp: list_all_iff)
  have "set (keys (pf_dispositions p)) = set REQUIRED_SAFETY_CODES"
    using assms(1) by (auto simp: profile_ok_def check_profile_def split: if_splits)
  with assms(2) have "code \<in> set (keys (pf_dispositions p))" by simp
  then obtain d where "map_of (pf_dispositions p) code = Some d" unfolding keys_map_of by blast
  with code show ?thesis by (simp add: profile_disposition_def)
qed

lemma limit_codes: "(observed, limit, code, l1, l2) \<in> set (limit_rows t snapshot limits) \<Longrightarrow>
    code \<in> set REQUIRED_SAFETY_CODES \<and> ascii l1 \<and> ascii l2"
  by (auto simp: limit_rows_def Let_def REQUIRED_SAFETY_CODES_def ascii_def cc_def split: if_splits)

definition within_limits :: "tree_snapshot \<Rightarrow> tree_limits \<Rightarrow> bool" where
  "within_limits t l \<longleftrightarrow> ts_total_bytes t \<le> tl_maximum_total_bytes l \<and> ts_entries t \<le> tl_maximum_entries l \<and>
     ts_maximum_depth t \<le> tl_maximum_depth l"

lemma tree_limit_event_ok:
  assumes "profile_ok p" "tree_ok t" "s \<in> ids" "limits \<in> {pf_workspace p, pf_runtime_cache p}"
  shows "\<exists>r. tree_limit_event p s target ph t limits = Inr r \<and> (r = None \<longleftrightarrow> within_limits t limits) \<and>
    (\<forall>e. r = Some e \<longrightarrow> event_ok ids e \<and> ev_scope e = Session_Scope \<and> ev_session_id e = Some s)"
proof (cases "find (\<lambda>(observed, limit, _). limit < observed) (limit_rows target t limits)")
  case None
  then have "within_limits t limits"
    by (simp add: limit_rows_def Let_def within_limits_def not_less split: if_splits)
  with None show ?thesis by (simp add: tree_limit_event_def)
next
  case (Some row)
  obtain observed limit code l1 l2 where row: "row = (observed, limit, code, l1, l2)" by (cases row)
  have mem: "(observed, limit, code, l1, l2) \<in> set (limit_rows target t limits)" "limit < observed"
    using Some row by (auto simp: find_Some_iff dest: nth_mem)
  obtain d where d: "profile_disposition p code = Inr d" "is_TERMINAL_REASON code" "code \<noteq> ''RESOURCE_ACCOUNTING_UNCERTAIN''"
    using profile_known [OF assms(1)] limit_codes [OF mem(1)] by blast
  have "\<not> within_limits t limits" using mem by (auto simp: limit_rows_def Let_def within_limits_def)
  moreover have "0 < tl_maximum_total_bytes limits \<and> 0 < tl_maximum_entries limits \<and> 0 < tl_maximum_depth limits"
    using assms(1,4) unfolding profile_ok_def by blast
  then have "0 \<le> observed" "0 \<le> limit"
    using mem(1) assms(2) by (auto simp: limit_rows_def Let_def tree_ok_def less_imp_le)
  ultimately show ?thesis
    using Some row d assms(3) limit_codes [OF mem(1)] by (simp add: tree_limit_event_def event_ok_def counts_ok_def ascii_def)
qed

lemma disk_answer_ok_Inr:
  assumes "disk_answer_ok p (Inr d)" "profile_ok p"
  shows "disk_ok d"
proof -
  obtain v where v: "read_disk_snapshot p (Some v) = Inr d"
    using assms(1) by (auto simp: disk_answer_ok_def read_disk_snapshot_def split: option.splits)
  have "\<forall>n > 0. 0 < pf_reserve p n" using assms(2) unfolding profile_ok_def by blast
  then have "required_free_bytes p n = Inr r \<Longrightarrow> 0 \<le> r" for n r
    by (auto simp: required_free_bytes_def less_imp_le split: if_splits)
  with v show ?thesis
    by (auto simp: read_disk_snapshot_def Let_def disk_ok_def split: sum.splits if_splits)
qed

lemma guard_inv_updates [simp]:
  "guard_inv (g\<lparr>gd_disk_checks := n\<rparr>) = guard_inv g"
  "guard_inv (g\<lparr>gd_tree_checks := f\<rparr>) = guard_inv g"
  "guard_inv (g\<lparr>gd_disk_monitor := b\<rparr>) = guard_inv g"
  "guard_inv (g\<lparr>gd_activated := x\<rparr>) = guard_inv g"
  "guard_inv (g\<lparr>gd_finished := x\<rparr>) = guard_inv g"
  "guard_inv (g\<lparr>gd_started := b\<rparr>) = guard_inv g"
  "guard_inv (g\<lparr>gd_closed := b\<rparr>) = guard_inv g"
  by (simp_all add: guard_inv_def)

lemma guard_inv_latest:
  "guard_inv g \<Longrightarrow> disk_ok d \<Longrightarrow> guard_inv (g\<lparr>gd_latest_disk := Some d\<rparr>)"
  "guard_inv g \<Longrightarrow> tree_ok t \<Longrightarrow> guard_inv (g\<lparr>gd_latest_tree := (gd_latest_tree g)(s := (gd_latest_tree g s)(x := Some t))\<rparr>)"
  by (simp_all add: guard_inv_def)

lemma check_disk_ok:
  assumes "guard_inv g" "disk_answer_ok (gd_profile g) a"
  shows "\<exists>event g'. check_disk ph a g = Inr (event, g') \<and> guard_inv g' \<and> frame g g' \<and> keeps g g' \<and>
    (\<forall>e. event = Some e \<longrightarrow> ev_scope e = Cohort_Scope \<and> (stops e \<longrightarrow> seen e g'))"
proof -
  let ?g = "g\<lparr>gd_disk_checks := Suc (gd_disk_checks g)\<rparr>"
  have g: "guard_inv ?g" "frame g ?g" "keeps g ?g" using assms(1) by (simp_all add: frame_def keeps_def)
  show ?thesis
  proof (cases a)
    case (Inl name)
    then have "event_ok (set (gd_session_ids ?g)) (uncertain_event Host_Filesystem ph None name)"
      using assms(2) by (intro uncertain_event_ok) (simp_all add: disk_answer_ok_def)
    from latch_event_ok [OF g(1) this] g(2,3) Inl show ?thesis
      by (auto simp: check_disk_def Let_def uncertain_event_def intro: frame_trans keeps_trans)
  next
    case (Inr d)
    have p: "profile_ok (gd_profile g)" using assms(1) by (simp add: guard_inv_def)
    then have d: "disk_ok d" using disk_answer_ok_Inr assms(2) Inr by blast
    let ?h = "?g\<lparr>gd_latest_disk := Some d\<rparr>"
    have h: "guard_inv ?h" "frame g ?h" "keeps g ?h" using guard_inv_latest(1) [OF g(1) d] g(2,3) by (simp_all add: frame_def keeps_def)
    show ?thesis
    proof (cases "dk_required_free_bytes d \<le> dk_available_bytes d")
      case True
      with h Inr show ?thesis by (simp add: check_disk_def Let_def)
    next
      case False
      have "''DISK_RESERVE_BREACHED'' \<in> set REQUIRED_SAFETY_CODES" by code_simp
      then obtain q where q: "profile_disposition (gd_profile g) ''DISK_RESERVE_BREACHED'' = Inr q" "is_TERMINAL_REASON ''DISK_RESERVE_BREACHED''"
        using profile_known [OF p] by blast
      let ?e = "\<lparr>ev_code = ''DISK_RESERVE_BREACHED'', ev_scope = Cohort_Scope, ev_target = Host_Filesystem, ev_phase = ph,
        ev_disposition = Some q, ev_session_id = None, ev_uncertain = False, ev_observed = [(''available_bytes'', dk_available_bytes d)],
        ev_limits = [(''required_free_bytes'', dk_required_free_bytes d)], ev_detail = []\<rparr>"
      have "event_ok (set (gd_session_ids ?h)) ?e"
        using q(2) d by (simp add: event_ok_def counts_ok_def ascii_def cc_def disk_ok_def)
      from latch_event_ok [OF h(1) this] h(2,3) Inr False q(1) show ?thesis
        by (auto simp: check_disk_def Let_def intro: frame_trans keeps_trans)
    qed
  qed
qed

lemma end_tree_ok:
  assumes "guard_inv g" "tree_answer_ok a" "s \<in> set (gd_session_ids g)"
  shows "\<exists>event g'. end_tree s t ph a g = Inr (event, g') \<and> guard_inv g' \<and> frame g g' \<and> keeps g g' \<and>
    (\<forall>e. event = Some e \<and> stops e \<longrightarrow> latched_event g' s \<noteq> None) \<and>
    (event = None \<longleftrightarrow> (\<exists>n. a = Inr n \<and> within_limits n (target_limits (gd_profile g) t)))"
proof -
  have visible: "latched_event h s \<noteq> None" if "seen e h" "ev_scope e = Cohort_Scope \<or> ev_session_id e = Some s" for e h
    using that by (auto simp: seen_def latched_event_def split: event_scope.splits option.splits)
  show ?thesis
  proof (cases a)
    case (Inl name)
    let ?e = "uncertain_event t ph (Some s) name"
    have "event_ok (set (gd_session_ids g)) ?e"
      using assms(2,3) Inl by (intro uncertain_event_ok) (simp_all add: tree_answer_ok_def)
    from latch_event_ok [OF assms(1) this] obtain h where h: "latch_event ?e g = Inr (Some ?e, h)" "guard_inv h" "frame g h" "keeps g h"
      "stops ?e \<longrightarrow> seen ?e h" by blast
    have "stops ?e \<longrightarrow> latched_event h s \<noteq> None" using h(5) visible [of ?e h] by (simp add: uncertain_event_def)
    with h Inl show ?thesis by (auto simp: end_tree_def)
  next
    case (Inr n)
    have p: "profile_ok (gd_profile g)" using assms(1) by (simp add: guard_inv_def)
    have n: "tree_ok n" using assms(2) Inr by (simp add: tree_answer_ok_def tree_ok_def)
    let ?g = "g\<lparr>gd_latest_tree := (gd_latest_tree g)(s := (gd_latest_tree g s)(t := Some n))\<rparr>"
    have g: "guard_inv ?g" "frame g ?g" "keeps g ?g" using guard_inv_latest(2) [OF assms(1) n] by (simp_all add: frame_def keeps_def)
    have "target_limits (gd_profile g) t \<in> {pf_workspace (gd_profile g), pf_runtime_cache (gd_profile g)}"
      by (simp add: target_limits_def)
    from tree_limit_event_ok [OF p n assms(3) this] obtain r where
      r: "tree_limit_event (gd_profile g) s t ph n (target_limits (gd_profile g) t) = Inr r"
        "r = None \<longleftrightarrow> within_limits n (target_limits (gd_profile g) t)"
        "\<And>e. r = Some e \<Longrightarrow> event_ok (set (gd_session_ids g)) e \<and> ev_scope e = Session_Scope \<and> ev_session_id e = Some s" by blast
    show ?thesis
    proof (cases r)
      case None
      with r g Inr show ?thesis by (simp add: end_tree_def Let_def)
    next
      case (Some e)
      then have "event_ok (set (gd_session_ids ?g)) e" using r(3) by simp
      from latch_event_ok [OF g(1) this] obtain h where h: "latch_event e ?g = Inr (Some e, h)" "guard_inv h" "frame ?g h" "keeps ?g h"
        "stops e \<longrightarrow> seen e h" by blast
      have "stops e \<longrightarrow> latched_event h s \<noteq> None" using h(5) visible r(3) [OF Some] by blast
      with h g r(1,2) Some Inr show ?thesis by (auto simp: end_tree_def Let_def intro: frame_trans keeps_trans)
    qed
  qed
qed

text \<open>The bookkeeping of a coroutine.\<close>

lemma bookkeeping_inv:
  assumes "guard_inv g"
  shows "guard_inv (begin_tree s t g)" "s \<in> set (gd_session_ids g) \<Longrightarrow> guard_inv (set_control s c g)" "guard_inv (set_control s Outside g)"
    "s \<in> set (gd_session_ids g) \<Longrightarrow> guard_inv (set_monitor s t m g)" "guard_inv (set_monitor s t None g)"
    "guard_inv (g\<lparr>gd_tree_monitors := (gd_tree_monitors g)(s := (\<lambda>_. None))\<rparr>)" "guard_inv (guard_close g)"
  using assms by (auto simp: guard_inv_def begin_tree_def set_control_def set_monitor_def guard_close_def) blast+

lemma bookkeeping_keeps [simp]:
  "keeps g (begin_tree s t h) = keeps g h" "keeps g (set_control s c h) = keeps g h" "keeps g (set_monitor s t m h) = keeps g h"
  "keeps g (h\<lparr>gd_tree_monitors := f\<rparr>) = keeps g h" "keeps g (h\<lparr>gd_started := b\<rparr>) = keeps g h"
  "keeps g (h\<lparr>gd_disk_monitor := b\<rparr>) = keeps g h" "keeps g (h\<lparr>gd_activated := x\<rparr>) = keeps g h"
  "keeps g (h\<lparr>gd_finished := x\<rparr>) = keeps g h" "keeps g (guard_close h) = keeps g h"
  by (simp_all add: keeps_def begin_tree_def set_control_def set_monitor_def guard_close_def)

lemma bookkeeping_ids [simp]:
  "gd_session_ids (begin_tree s t h) = gd_session_ids h" "gd_session_ids (set_control s c h) = gd_session_ids h"
  "gd_session_ids (set_monitor s t m h) = gd_session_ids h" "gd_session_ids (guard_close h) = gd_session_ids h"
  "gd_profile (begin_tree s t h) = gd_profile h" "gd_profile (set_control s c h) = gd_profile h"
  "gd_profile (set_monitor s t m h) = gd_profile h" "gd_profile (guard_close h) = gd_profile h"
  by (simp_all add: begin_tree_def set_control_def set_monitor_def guard_close_def)

lemma start_monitors_inv:
  "guard_inv g \<Longrightarrow> s \<in> set (gd_session_ids g) \<Longrightarrow>
     guard_inv (start_monitors s g) \<and> keeps h (start_monitors s g) = keeps h g \<and> gd_session_ids (start_monitors s g) = gd_session_ids g"
  by (simp add: start_monitors_def bookkeeping_inv)

text \<open>A step keeps the invariant, the sessions, and every event that was latched.\<close>

definition good_step :: "resource_guard \<Rightarrow> resource_guard \<Rightarrow> bool" where
  "good_step g g' \<longleftrightarrow> guard_inv g' \<and> keeps g g' \<and> gd_session_ids g' = gd_session_ids g"

lemma control_id: "guard_inv g \<Longrightarrow> gd_control g s \<noteq> Outside \<Longrightarrow> s \<in> set (gd_session_ids g)"
  by (simp add: guard_inv_def)

lemma monitor_id: "guard_inv g \<Longrightarrow> gd_tree_monitors g s t \<noteq> None \<Longrightarrow> s \<in> set (gd_session_ids g)"
  unfolding guard_inv_def by blast

lemma activate_scanned_good:
  assumes "guard_inv g" "tree_answer_ok a" "activate_scanned s a g = Inr (e, g')"
  shows "good_step g g'"
proof -
  obtain t ts where c: "gd_control g s = Activating (t # ts)"
    using assms(3) by (auto simp: activate_scanned_def split: guard_control.splits list.splits)
  have s: "s \<in> set (gd_session_ids g)" by (rule control_id [OF assms(1)]) (simp add: c)
  obtain event h where h: "end_tree s t Initial a g = Inr (event, h)" "guard_inv h" "frame g h" "keeps g h"
    using end_tree_ok [OF assms(1,2) s] by blast
  have ids: "gd_session_ids h = gd_session_ids g" using h(3) by (simp add: frame_def)
  show ?thesis
    using assms(3) c h s ids bookkeeping_inv [OF h(2)] start_monitors_inv [OF h(2), of s g]
      bookkeeping_inv(1) [OF bookkeeping_inv(1) [OF h(2)]] bookkeeping_inv(2) [OF bookkeeping_inv(1) [OF h(2)]]
    by (auto simp: activate_scanned_def good_step_def Let_def bookkeeping_inv split: if_splits list.splits)
qed

lemma finish_scanned_good:
  assumes "guard_inv g" "tree_answer_ok a" "finish_scanned s a g = Inr (e, g')"
  shows "good_step g g'"
proof -
  obtain t ts where c: "gd_control g s = Finishing (t # ts)"
    using assms(3) by (auto simp: finish_scanned_def split: guard_control.splits list.splits)
  have s: "s \<in> set (gd_session_ids g)" by (rule control_id [OF assms(1)]) (simp add: c)
  obtain event h where h: "end_tree s t Terminal a g = Inr (event, h)" "guard_inv h" "frame g h" "keeps g h"
    using end_tree_ok [OF assms(1,2) s] by blast
  have ids: "gd_session_ids h = gd_session_ids g" using h(3) by (simp add: frame_def)
  show ?thesis
    using assms(3) c h s ids bookkeeping_inv(2) [OF bookkeeping_inv(1) [OF h(2)]]
    by (auto simp: finish_scanned_def good_step_def bookkeeping_inv split: list.splits)
qed

lemma guard_step_good: "guard_step g g' \<Longrightarrow> guard_inv g \<Longrightarrow> good_step g g'"
proof (induction rule: guard_step.induct)
  case (gs_start g a e g')
  then have "guard_inv (g\<lparr>gd_started := True\<rparr>)" "disk_answer_ok (gd_profile (g\<lparr>gd_started := True\<rparr>)) a" by simp_all
  from check_disk_ok [OF this, of Initial] obtain event h where
    h: "check_disk Initial a (g\<lparr>gd_started := True\<rparr>) = Inr (event, h)" "guard_inv h" "frame (g\<lparr>gd_started := True\<rparr>) h"
      "keeps (g\<lparr>gd_started := True\<rparr>) h" by blast
  then have "keeps g h" by (auto simp: keeps_def)
  with gs_start.hyps(2) h show ?case by (auto simp: guard_start_def good_step_def frame_def split: if_splits)
next
  case (gs_disk g a e g')
  from check_disk_ok [OF gs_disk.prems gs_disk.hyps(2), of Live] obtain event h where
    h: "check_disk Live a g = Inr (event, h)" "guard_inv h" "frame g h" "keeps g h" by blast
  with gs_disk.hyps(3) show ?case by (auto simp: disk_wakes_def good_step_def frame_def)
next
  case (gs_activate s g e g')
  then show ?case
    by (auto simp: activate_begin_def good_step_def require_session_def result_dests Let_def bookkeeping_inv split: option.splits)
next
  case (gs_activating a s g e g')
  then show ?case by (intro activate_scanned_good)
next
  case (gs_tree g s t)
  have "s \<in> set (gd_session_ids g)" by (rule monitor_id [OF gs_tree.prems, of s t]) (simp add: gs_tree.hyps)
  with gs_tree.prems show ?case by (simp add: tree_wakes_def good_step_def bookkeeping_inv)
next
  case (gs_scanned g s t a e g')
  have s: "s \<in> set (gd_session_ids g)" by (rule monitor_id [OF gs_scanned.prems, of s t]) (simp add: gs_scanned.hyps(1))
  from end_tree_ok [OF gs_scanned.prems gs_scanned.hyps(2) s, of t Live] obtain event h where
    h: "end_tree s t Live a g = Inr (event, h)" "guard_inv h" "frame g h" "keeps g h" by blast
  with gs_scanned.hyps(3) s show ?case by (auto simp: tree_scanned_def good_step_def frame_def bookkeeping_inv)
next
  case (gs_finish g s e g')
  then show ?case
    by (auto simp: finish_begin_def good_step_def require_session_def result_dests bookkeeping_inv split: if_splits)
next
  case (gs_joined g s a e g')
  have s: "s \<in> set (gd_session_ids g)" by (rule control_id [OF gs_joined.prems]) (simp add: gs_joined.hyps(1))
  from check_disk_ok [OF gs_joined.prems gs_joined.hyps(2), of Terminal] obtain event h where
    h: "check_disk Terminal a g = Inr (event, h)" "guard_inv h" "frame g h" "keeps g h" by blast
  with gs_joined.hyps(3) s bookkeeping_inv(1) [OF h(2)] show ?case
    by (auto simp: finish_joined_def good_step_def frame_def bookkeeping_inv)
next
  case (gs_finishing a s g e g')
  then show ?case by (intro finish_scanned_good)
next
  case (gs_close g)
  then show ?case by (simp add: good_step_def bookkeeping_inv)
qed

lemma guard_init_inv: "guard_init p ids = Inr g \<Longrightarrow> profile_ok p \<Longrightarrow> guard_inv g \<and> gd_session_ids g = ids"
  by (auto simp: guard_init_def guard_inv_def latched_event_def MAXIMUM_RESOURCE_WARNINGS_def split: if_splits)

lemma guard_reachable_good: "guard_reachable g h \<Longrightarrow> guard_inv g \<Longrightarrow> good_step g h"
proof (induction rule: guard_reachable.induct)
  case (gr_step h k)
  then have "good_step g h" "good_step h k" using guard_step_good [of h k] by (auto simp: good_step_def)
  then show ?case by (auto simp: good_step_def intro: keeps_trans)
qed (simp add: good_step_def)

lemma guard_reachable_trans: "guard_reachable h k \<Longrightarrow> guard_reachable g h \<Longrightarrow> guard_reachable g k"
  by (induction rule: guard_reachable.induct) (auto intro: gr_step)

text \<open>The events that a session can see only ever become more, and one that concerns the cohort stays.\<close>

lemma keeps_event: "keeps g h \<Longrightarrow> latched_event g s \<noteq> None \<Longrightarrow> latched_event h s \<noteq> None"
  by (auto simp: keeps_def latched_event_def split: option.splits)

lemma keeps_cohort_event:
  assumes "keeps g h" "guard_inv g" "latched_event g s = Some e" "ev_scope e = Cohort_Scope"
  shows "latched_event h s = Some e"
proof -
  have "gd_global_terminal g = Some e"
  proof (cases "gd_global_terminal g")
    case None
    with assms(3) have "gd_session_terminal g s = Some e" by (simp add: latched_event_def)
    with assms(2,4) have False by (auto simp: guard_inv_def)
    then show ?thesis ..
  qed (use assms(3) in \<open>simp add: latched_event_def\<close>)
  with assms(1) show ?thesis by (simp add: keeps_def latched_event_def)
qed

end
