(* ===== verification/Store_Blocks.thy ===== *)
theory Store_Blocks
  imports Runtime_Store Resource_Guard
begin

text \<open>
  The blocks of a receipt that the host writes pass the validators of the store: a stop proof, and the evidence of
  the resource guard in every state that satisfies its invariant.
\<close>

section \<open>What a validated block says\<close>

lemma validate_stop_proof_Inr:
  assumes "validate_stop_proof s v = Inr r"
  shows "r = (case vget ''stopped'' v of PBool b \<Rightarrow> Some b | _ \<Rightarrow> None) \<and> (v = PNone \<longleftrightarrow> r = None)"
  using assms by (auto simp: validate_stop_proof_def Let_def result_dests split: if_splits)

lemma validate_receipt_outcome_Inr:
  assumes "validate_receipt_outcome s v = Inr r"
  shows "r = (case vget ''success'' v of PBool b \<Rightarrow> Some b | _ \<Rightarrow> None) \<and>
    (v \<noteq> PNone \<longrightarrow> (\<exists>n. vget ''contribution_count'' v = PInt n \<and> 0 \<le> n \<and> n \<le> 64))"
  using assms by (auto simp: validate_receipt_outcome_def Let_def result_dests split: if_splits)

section \<open>The blocks that the host writes\<close>

lemma stop_proof_accepted:
  "stop_proof_ok p \<Longrightarrow> validate_stop_proof s (stop_proof_to_value p) = Inr (Some (sp_stopped p))"
  by (cases "sp_process_group_id p")
    (auto simp: validate_stop_proof_def stop_proof_to_value_def stop_proof_ok_def has_fields_dict STOP_PROOF_FIELDS_def
      dget_def opt_int_def MAXIMUM_STOP_DETAIL_BYTES_def refuse_if_def is_PBool_def text_where_def int_where_def
      not_text_within_def encoded_length_def)

lemma nonnegative_PInt [simp]: "nonnegative (PInt n) \<longleftrightarrow> 0 \<le> n"
  by (simp add: nonnegative_def int_where_def)

lemma event_counts_accepted: "counts_ok ns \<Longrightarrow> \<not> not_bounded_counts (event_counts ns)"
  by (auto simp: counts_ok_def not_bounded_counts_def event_counts_def list_all_iff)

lemma utf8_valid_ascii_text: "ascii s \<Longrightarrow> utf8_valid s"
  using utf8_valid_ascii_list by (simp add: ascii_def)

lemma scope_value_inject: "scope_value a = ''SESSION'' \<longleftrightarrow> a = Session_Scope"
  by (cases a) simp_all

lemma event_accepted:
  assumes "event_ok ids e" "\<forall>t \<in> ids. is_ID t" "ev_scope e = Session_Scope \<longrightarrow> ev_session_id e = Some s"
  shows "validate_resource_event s (resource_event_to_value e) = Inr ()"
proof -
  have detail: "cp_take 512 (ev_detail e) = ev_detail e" "utf8_valid (ev_detail e)" "length (ev_detail e) \<le> 512"
    using assms(1) ascii_cp_take utf8_valid_ascii_text by (auto simp: event_ok_def)
  have scope: "scope_value (ev_scope e) \<in> {''SESSION'', ''COHORT''}" by (cases "ev_scope e") simp_all
  have target: "target_value (ev_target e) \<in> {''host_filesystem'', ''workspace'', ''cache''}" by (cases "ev_target e") simp_all
  have phase: "phase_value (ev_phase e) \<in> {''INITIAL'', ''LIVE'', ''TERMINAL''}" by (cases "ev_phase e") simp_all
  have disp: "disposition_value d \<in> {''SESSION_STOP'', ''JOB_STOP'', ''REJECT'', ''WARN''}" for d by (cases d) simp_all
  have sid: "ev_session_id e = Some t \<Longrightarrow> is_ID t" for t using assms(1,2) by (auto simp: event_ok_def)
  show ?thesis
    using assms detail scope target phase disp sid event_counts_accepted [of "ev_observed e"] event_counts_accepted [of "ev_limits e"]
    by (cases "ev_disposition e"; cases "ev_session_id e")
      (auto simp: validate_resource_event_def resource_event_to_value_def has_fields_dict RESOURCE_EVENT_FIELDS_def dget_def
        opt_text_def Let_def result_dests event_ok_def scope_value_inject)
qed

lemma resource_nonnegative_snapshot:
  "disk_ok d \<Longrightarrow> resource_nonnegative_object RESOURCE_DISK_SNAPSHOT_FIELDS (disk_snapshot_to_value d)"
  "tree_ok t \<Longrightarrow> resource_nonnegative_object RESOURCE_TREE_SNAPSHOT_FIELDS (tree_snapshot_to_value t)"
  by (simp_all add: resource_nonnegative_object_def has_fields_dict RESOURCE_DISK_SNAPSHOT_FIELDS_def
      RESOURCE_TREE_SNAPSHOT_FIELDS_def disk_snapshot_to_value_def tree_snapshot_to_value_def disk_ok_def tree_ok_def dget_def)

lemma latest_accepted:
  "pred_option disk_ok d \<Longrightarrow> \<not> not_latest RESOURCE_DISK_SNAPSHOT_FIELDS (opt_value disk_snapshot_to_value d)"
  "pred_option tree_ok t \<Longrightarrow> \<not> not_latest RESOURCE_TREE_SNAPSHOT_FIELDS (opt_value tree_snapshot_to_value t)"
  by (cases d; cases t; simp add: not_latest_def opt_value_def resource_nonnegative_snapshot)+

lemma event_disposition: "vget ''disposition'' (resource_event_to_value e) = opt_text (map_option disposition_value (ev_disposition e))"
  by (simp add: resource_event_to_value_def dget_def)

lemma event_disposition_WARN:
  "event_ok ids e \<Longrightarrow> opt_text (map_option disposition_value (ev_disposition e)) = PStr ''WARN'' \<longleftrightarrow> \<not> stops e"
proof -
  have "disposition_value d = ''WARN'' \<longleftrightarrow> d = WARN" for d by (cases d) simp_all
  moreover assume "event_ok ids e"
  ultimately show ?thesis by (cases "ev_disposition e") (auto simp: opt_text_def stops_def event_ok_def)
qed

lemma warnings_accepted:
  assumes "\<forall>e \<in> set ws. event_ok ids e \<and> \<not> stops e \<and> (ev_scope e = Session_Scope \<longrightarrow> ev_session_id e = Some s)" "\<forall>t \<in> ids. is_ID t"
  shows "validate_warnings s (map resource_event_to_value ws) = Inr ()"
  using assms(1)
proof (induction ws)
  case (Cons e ws)
  then show ?case
    using event_accepted [of ids e s] assms(2) event_disposition_WARN [of ids e]
    by (simp add: event_disposition)
qed simp

lemma resource_event_not_None: "resource_event_to_value e \<noteq> PNone"
  by (simp add: resource_event_to_value_def)

lemma guard_evidence_accepted:
  assumes "guard_inv g" "s \<in> set (gd_session_ids g)" "\<forall>t \<in> set (gd_session_ids g). is_ID t"
  shows "\<exists>v. guard_evidence g s = Inr v \<and> validate_resource_guard s v = Inr () \<and> is_PDict v \<and>
    vget ''terminal_event'' v = opt_value resource_event_to_value (latched_event g s)"
proof -
  let ?ids = "set (gd_session_ids g)"
  let ?t = "opt_value resource_event_to_value (latched_event g s)"
  have inv: "pred_option disk_ok (gd_latest_disk g)" "pred_option tree_ok (gd_latest_tree g s t)"
    "length (gd_warnings g s) \<le> 4" "\<forall>e \<in> set (gd_warnings g s). event_ok ?ids e \<and> \<not> stops e \<and>
       (ev_scope e = Session_Scope \<longrightarrow> ev_session_id e = Some s)" for t
    using assms(1) by (simp_all add: guard_inv_def MAXIMUM_RESOURCE_WARNINGS_def)
  have event: "event_ok ?ids e \<and> stops e \<and> (ev_scope e = Session_Scope \<longrightarrow> ev_session_id e = Some s)" if "latched_event g s = Some e" for e
    using that assms(1) by (auto simp: guard_inv_def latched_event_def split: option.splits)
  have terminal: "(if ?t = PNone then Inr ()
      else rbind (validate_resource_event s ?t) (\<lambda>_.
        if vget ''disposition'' ?t = PStr ''WARN'' then Inl (receipt_error ''resource_guard '' s) else Inr ())) = Inr ()"
  proof (cases "latched_event g s")
    case (Some e)
    with event [OF Some] event_accepted [of ?ids e s] assms(3) event_disposition_WARN [of ?ids e]
    show ?thesis by (simp add: opt_value_def event_disposition resource_event_not_None)
  qed (simp add: opt_value_def)
  show ?thesis
    using assms(2) inv terminal warnings_accepted [OF inv(4) assms(3)] latest_accepted
    unfolding validate_resource_guard_def guard_evidence_def require_session_def
    by (simp add: has_fields_dict RESOURCE_GUARD_FIELDS_def dget_def Let_def refuse_if_def
        RESOURCE_EVIDENCE_SCHEMA_def resource_nonnegative_object_def RESOURCE_CHECK_FIELDS_def insert_commute)
qed

end
