(* ===== verification/Kit_Evidence.thy ===== *)
theory Kit_Evidence
  imports Receipt_Blocks World_Store
begin

text \<open>
  What the host says of an in-session verifier kit, \<^verbatim>\<open>verifier_kit.py\<close>: the launch block, the announcement of
  an absent kit, and the evidence read off the advisory ledger in a session's workspace. Building a kit and
  writing it into a workspace are not modelled; a kit is its public identity. The lemmas show that the
  evidence of every ledger passes the store's validator and that every entry is counted once.
\<close>

definition VERIFIER_KIT_SCHEMA :: string where
  "VERIFIER_KIT_SCHEMA = ''PMW_IN_SESSION_VERIFIER_KIT_1''"

definition VERIFIER_KIT_INVOCATION_SCHEMA :: string where
  "VERIFIER_KIT_INVOCATION_SCHEMA = ''PMW_IN_SESSION_VERIFIER_INVOCATION_1''"

definition VERDICT_STATUSES :: "string list" where
  "VERDICT_STATUSES = [''PASS'', ''REJECTED'', ''APPARATUS_ERROR'']"

definition KIT_EVIDENCE_DIRECTORY_NAME :: string where
  "KIT_EVIDENCE_DIRECTORY_NAME = ''.pmw-verifier-evidence''"

definition LEDGER_COUNTING_AUTHORITY :: string where
  "LEDGER_COUNTING_AUTHORITY = ''HOST_OBSERVED_SESSION_LOCAL_ADVISORY_LEDGER_NOT_TAMPER_PROOF''"

definition MAXIMUM_LEDGER_ENTRIES :: nat where
  "MAXIMUM_LEDGER_ENTRIES = 100000"

definition MAXIMUM_LEDGER_ENTRY_BYTES :: nat where
  "MAXIMUM_LEDGER_ENTRY_BYTES = 1048576"

text \<open>A kit: the length of each of its files, its digests and its targets.\<close>

record verifier_kit =
  vk_file_bytes :: "nat list"
  vk_content_sha256 :: string
  vk_manifest_sha256 :: string
  vk_sha256 :: string
  vk_target_ids :: "string list"
  vk_source_commit :: string
  vk_source_tree_sha256 :: string
  vk_registry_sha256 :: string
  vk_interpreter_sha256 :: string

definition kit_launch_value :: "(string \<Rightarrow> string) \<Rightarrow> verifier_kit \<Rightarrow> pyval result" where
  "kit_launch_value sha256 kit = rbind (canonical_json (texts (sort (vk_target_ids kit)))) (\<lambda>targets. Inr (PDict
     [(''schema'', PStr ''PMW_IN_SESSION_VERIFIER_KIT_LAUNCH_1''), (''mode'', PStr ''MATERIALIZED''),
      (''authority'', PStr IN_SESSION_VERIFIER_AUTHORITY), (''settlement_authority'', PStr SETTLEMENT_VERIFIER_AUTHORITY),
      (''kit_directory'', PStr ''.pmw-verifier-kit''), (''evidence_directory'', PStr KIT_EVIDENCE_DIRECTORY_NAME),
      (''entrypoint'', PStr ''.pmw-verifier-kit/bin/amf-verify''), (''kit_sha256'', PStr (vk_sha256 kit)),
      (''content_sha256'', PStr (vk_content_sha256 kit)), (''manifest_sha256'', PStr (vk_manifest_sha256 kit)),
      (''file_count'', PInt (int (length (vk_file_bytes kit)))), (''total_bytes'', PInt (int (sum_list (vk_file_bytes kit)))),
      (''source_commit'', PStr (vk_source_commit kit)), (''source_tree_sha256'', PStr (vk_source_tree_sha256 kit)),
      (''registry_sha256'', PStr (vk_registry_sha256 kit)), (''interpreter_sha256'', PStr (vk_interpreter_sha256 kit)),
      (''target_count'', PInt (int (length (vk_target_ids kit)))), (''target_ids_sha256'', PStr (sha256 targets)),
      (''credential_material'', PBool False)]))"

definition disabled_verifier_kit_launch_value :: pyval where
  "disabled_verifier_kit_launch_value = PDict
     [(''schema'', PStr ''PMW_IN_SESSION_VERIFIER_KIT_LAUNCH_1''), (''mode'', PStr ''DISABLED''),
      (''authority'', PStr IN_SESSION_VERIFIER_AUTHORITY), (''settlement_authority'', PStr SETTLEMENT_VERIFIER_AUTHORITY),
      (''reason'', PStr ''NO_IN_SESSION_VERIFIER_KIT_MATERIALIZED'')]"

definition absent_verifier_kit_announcement :: pyval where
  "absent_verifier_kit_announcement = PDict
     [(''schema'', PStr VERIFIER_KIT_SCHEMA), (''available'', PBool False),
      (''authority'', PStr IN_SESSION_VERIFIER_AUTHORITY), (''settlement_authority'', PStr SETTLEMENT_VERIFIER_AUTHORITY),
      (''statements'', texts [''This launch materialized no in-session verifier kit.'',
         ''Verification remains a host operation performed after settlement.''])]"

definition session_evidence_value :: "string \<Rightarrow> string \<Rightarrow> string option \<Rightarrow> (string \<Rightarrow> nat) \<Rightarrow> nat \<Rightarrow> bool \<Rightarrow> pyval" where
  "session_evidence_value mode ledger kit_content_sha256 counts rejected_entries truncated = PDict
     [(''schema'', PStr ''PMW_IN_SESSION_VERIFIER_KIT_SESSION_EVIDENCE_1''), (''mode'', PStr mode),
      (''authority'', PStr IN_SESSION_VERIFIER_AUTHORITY), (''settlement_authority'', PStr SETTLEMENT_VERIFIER_AUTHORITY),
      (''counting_authority'', PStr LEDGER_COUNTING_AUTHORITY), (''evidence_directory'', PStr KIT_EVIDENCE_DIRECTORY_NAME),
      (''kit_content_sha256'', opt_text kit_content_sha256), (''ledger'', PStr ledger),
      (''invocation_count'', PInt (int (sum_list (map counts VERDICT_STATUSES)))),
      (''verdict_counts'', PDict (map (\<lambda>status. (status, PInt (int (counts status)))) VERDICT_STATUSES)),
      (''rejected_entries'', PInt (int rejected_entries)), (''truncated'', PBool truncated)]"

definition disabled_verifier_kit_session_evidence :: pyval where
  "disabled_verifier_kit_session_evidence = session_evidence_value ''DISABLED'' ''NOT_MATERIALIZED'' None (\<lambda>_. 0) 0 False"

definition empty_ledger_value :: "verifier_kit \<Rightarrow> string \<Rightarrow> pyval" where
  "empty_ledger_value kit ledger = session_evidence_value ''MATERIALIZED'' ledger (Some (vk_content_sha256 kit)) (\<lambda>_. 0) 0 False"

text \<open>\<open>json.loads\<close> without hooks: any float, the last of repeated keys. The constants that are not JSON, which it also
  reads, are refused here.\<close>

definition default_hooks :: json_hooks where
  "default_hooks = \<lparr>object_hook = \<lambda>d. Some (fold (\<lambda>(k, v). AList.update k v) d []), int_hook = short_int,
     float_hook = \<lambda>_ _. Some (POther ''float'')\<rparr>"

definition ledger_entry_status :: "string \<Rightarrow> string \<Rightarrow> string option" where
  "ledger_entry_status kit_content_sha256 raw =
     (if \<not> utf8_valid raw then None
      else case json_loads default_hooks raw of
          Some (PDict d) \<Rightarrow>
            if dget ''schema'' d \<noteq> PStr VERIFIER_KIT_INVOCATION_SCHEMA \<or>
               dget ''authority'' d \<noteq> PStr IN_SESSION_VERIFIER_AUTHORITY \<or>
               dget ''kit_content_sha256'' d \<noteq> PStr kit_content_sha256
            then None
            else (case dget ''status'' d of PStr s \<Rightarrow> if s \<in> set VERDICT_STATUSES then Some s else None | _ \<Rightarrow> None)
        | _ \<Rightarrow> None)"

text \<open>The ledger: there is no directory, it cannot be listed, or the regular files in it with what reading each gives.\<close>

datatype ledger_answer = No_Ledger | Ledger_Unreadable | Ledger_Files "(string \<times> string option) list"

definition entry_status :: "string \<Rightarrow> string option \<Rightarrow> string option" where
  "entry_status kit_content_sha256 answer = (case answer of
      None \<Rightarrow> None
    | Some raw \<Rightarrow> if MAXIMUM_LEDGER_ENTRY_BYTES < length raw then None else ledger_entry_status kit_content_sha256 raw)"

definition read_session_verifier_kit_evidence :: "verifier_kit \<Rightarrow> ledger_answer \<Rightarrow> pyval" where
  "read_session_verifier_kit_evidence kit answer = (case answer of
      No_Ledger \<Rightarrow> empty_ledger_value kit ''ABSENT''
    | Ledger_Unreadable \<Rightarrow> empty_ledger_value kit ''UNREADABLE''
    | Ledger_Files files \<Rightarrow>
        let names = sort_key fst files;
            statuses = map (\<lambda>(_, answer). entry_status (vk_content_sha256 kit) answer) (take MAXIMUM_LEDGER_ENTRIES names)
        in session_evidence_value ''MATERIALIZED'' ''OBSERVED'' (Some (vk_content_sha256 kit))
             (\<lambda>status. count_list statuses (Some status)) (count_list statuses None) (MAXIMUM_LEDGER_ENTRIES < length names))"

section \<open>Correctness\<close>

text \<open>What the launch says of the kit.\<close>

definition kit_block_ok :: "verifier_kit option \<Rightarrow> pyval \<Rightarrow> bool" where
  "kit_block_ok kit launch \<longleftrightarrow> (case kit of
      None \<Rightarrow> vget ''mode'' (vget ''verifier_kit'' launch) = PStr ''DISABLED''
    | Some k \<Rightarrow> matches_sha256 (vk_content_sha256 k) \<and> vget ''mode'' (vget ''verifier_kit'' launch) = PStr ''MATERIALIZED'' \<and>
        vget ''content_sha256'' (vget ''verifier_kit'' launch) = PStr (vk_content_sha256 k))"

lemma session_evidence_value_accepted:
  assumes "kit_block_ok kit launch" "mode = (if kit = None then ''DISABLED'' else ''MATERIALIZED'')"
    and "digest = map_option vk_content_sha256 kit"
    and "ledger \<in> (if kit = None then {''NOT_MATERIALIZED''} else {''OBSERVED'', ''ABSENT'', ''UNREADABLE''})"
  shows "validate_verifier_kit_evidence s launch (session_evidence_value mode ledger digest counts n truncated) = Inr ()"
  using assms
  by (cases kit)
    (auto simp: kit_block_ok_def validate_verifier_kit_evidence_def session_evidence_value_def has_fields_dict
      VERIFIER_KIT_EVIDENCE_FIELDS_def VERDICT_STATUSES_def dget_def Let_def result_dests opt_text_def nonempty_text_def text_where_def
      nonnegative_def int_where_def is_PBool_def IN_SESSION_VERIFIER_AUTHORITY_def SETTLEMENT_VERIFIER_AUTHORITY_def
      LEDGER_COUNTING_AUTHORITY_def KIT_EVIDENCE_DIRECTORY_NAME_def)

text \<open>The host's evidence: none, or the ledger of the session's workspace.\<close>

definition verifier_kit_evidence :: "verifier_kit option \<Rightarrow> ledger_answer \<Rightarrow> pyval" where
  "verifier_kit_evidence kit answer = (case kit of
      None \<Rightarrow> disabled_verifier_kit_session_evidence
    | Some k \<Rightarrow> read_session_verifier_kit_evidence k answer)"

lemma verifier_kit_evidence_accepted:
  assumes "kit_block_ok kit launch"
  shows "validate_verifier_kit_evidence s launch (verifier_kit_evidence kit answer) = Inr ()"
  using assms
  by (cases kit; cases answer)
    (simp_all add: verifier_kit_evidence_def disabled_verifier_kit_session_evidence_def read_session_verifier_kit_evidence_def
      empty_ledger_value_def Let_def session_evidence_value_accepted [where kit = kit])

lemma count_statuses:
  assumes "\<forall>x \<in> set xs. x = None \<or> x \<in> Some ` set VERDICT_STATUSES"
  shows "sum_list (map (\<lambda>status. count_list xs (Some status)) VERDICT_STATUSES) + count_list xs None = length xs"
  using assms by (induction xs) (auto simp: VERDICT_STATUSES_def)

lemma entry_status_known: "entry_status h answer = None \<or> entry_status h answer \<in> Some ` set VERDICT_STATUSES"
  by (auto simp: entry_status_def ledger_entry_status_def split: option.splits pyval.splits if_splits)

lemma ledger_counts_add_up:
  assumes "read_session_verifier_kit_evidence kit (Ledger_Files files) = PDict d"
  shows "int_of (dget ''invocation_count'' d) + int_of (dget ''rejected_entries'' d) = int (min (length files) MAXIMUM_LEDGER_ENTRIES) \<and>
    dget ''truncated'' d = PBool (MAXIMUM_LEDGER_ENTRIES < length files)"
proof -
  let ?xs = "map (\<lambda>(_, answer). entry_status (vk_content_sha256 kit) answer) (take MAXIMUM_LEDGER_ENTRIES (sort_key fst files))"
  have known: "\<forall>x \<in> set ?xs. x = None \<or> x \<in> Some ` set VERDICT_STATUSES"
    using entry_status_known [of "vk_content_sha256 kit"] by (simp only: set_map ball_simps split_beta) blast
  have "int_of (dget ''invocation_count'' d) = int (sum_list (map (\<lambda>status. count_list ?xs (Some status)) VERDICT_STATUSES))"
    "int_of (dget ''rejected_entries'' d) = int (count_list ?xs None)" "dget ''truncated'' d = PBool (MAXIMUM_LEDGER_ENTRIES < length files)"
    using assms by (auto simp: read_session_verifier_kit_evidence_def session_evidence_value_def Let_def dget_def int_of_def)
  with count_statuses [OF known] show ?thesis by (simp flip: of_nat_add)
qed

end
