(* ===== verification/Session_Run.thy ===== *)
theory Session_Run
  imports Store_Blocks Kit_Evidence Session_Model Cohort_Runner Agenda_Arm
begin

text \<open>
  The controller of a cohort, \<^verbatim>\<open>runtime/orchestrator.py\<close>: \<open>_Controller\<close> with its workers, \<open>run_one\<close>,
  \<open>_start\<close>, \<open>_publish\<close>, \<open>_persist\<close>, the sessions that never ran, and the settlement. All coroutines share one
  event loop, so the relation \<open>host_step\<close> has one rule for what a coroutine does from one suspension to the
  next; where the coroutine of a session is suspended is its control. The backend, the publisher, the disk
  and the clock answer anything; the guard moves by its own steps between any two others.
\<close>

section \<open>Errors and answers\<close>

text \<open>What the host reads of an exception: its \<open>code\<close> when that is a text, and the name of its type.\<close>

record session_error =
  er_code :: "string option"
  er_type :: string

definition cp_length :: "string \<Rightarrow> nat" where
  "cp_length s = length (filter (\<lambda>c. \<not> is_cont c) s)"

definition error_code :: "session_error \<Rightarrow> string \<Rightarrow> string" where
  "error_code error fallback = (case er_code error of
      Some c \<Rightarrow> if c \<noteq> [] \<and> cp_length c \<le> 128 then c else fallback
    | None \<Rightarrow> fallback)"

definition safe_type :: "string \<Rightarrow> string" where
  "safe_type name = cp_take 512 name"

definition orchestration_error :: "string \<Rightarrow> session_error" where
  "orchestration_error code =
     \<lparr>er_code = Some code, er_type = ''pmw_platform.runtime.orchestrator.RuntimeOrchestrationError''\<rparr>"

definition timeout_error :: session_error where
  "timeout_error = \<lparr>er_code = None, er_type = ''builtins.TimeoutError''\<rparr>"

definition publication_error :: "string \<Rightarrow> session_error" where
  "publication_error code =
     \<lparr>er_code = Some code, er_type = ''pmw_platform.runtime.orchestrator.RuntimePublicationError''\<rparr>"

text \<open>\<open>_stop\<close>: whatever the adapter does, there is a proof.\<close>

datatype stop_answer = Stop_Proof stop_proof | Stop_Invalid string | Stop_Raises string

definition unproven :: "string \<Rightarrow> stop_proof" where
  "unproven detail = \<lparr>sp_stopped = False, sp_reason = ''STOP_UNPROVEN'', sp_forced = False, sp_process_group_id = None, sp_detail = detail\<rparr>"

definition not_started_proof :: stop_proof where
  "not_started_proof = \<lparr>sp_stopped = True, sp_reason = ''NOT_STARTED'', sp_forced = False, sp_process_group_id = None, sp_detail = []\<rparr>"

fun stop_session :: "stop_answer \<Rightarrow> stop_proof" where
  "stop_session (Stop_Proof p) = p"
| "stop_session (Stop_Invalid name) = unproven (''invalid stop proof type: '' @ safe_type name)"
| "stop_session (Stop_Raises name) = unproven (safe_type name)"

text \<open>\<open>_public_result\<close> on the JSON value of a publisher's answer\<close>

definition public_result :: "(string \<Rightarrow> string) \<Rightarrow> pyval \<Rightarrow> pyval result" where
  "public_result sha256 value = rbind (canonical_json value) (\<lambda>encoded.
     if 65536 < length encoded
     then Inr (PDict [(''projected'', PBool True), (''bytes'', PInt (int (length encoded))), (''sha256'', PStr (sha256 encoded))])
     else (case json_loads plain_hooks encoded of Some v \<Rightarrow> Inr v | None \<Rightarrow> Inl (Value_Error ''JSONDecodeError'')))"

definition outcome_receipt_value :: "(string \<Rightarrow> string) \<Rightarrow> backend_outcome \<Rightarrow> pyval result" where
  "outcome_receipt_value sha256 o' =
     rbind (bo_usage o') (\<lambda>usage. rbind (bo_evidence o') (\<lambda>evidence.
     rbind (rmap (\<lambda>item. rbind (contribution_to_value item) (\<lambda>v. rbind (canonical_json v) (\<lambda>raw. Inr (PStr (sha256 raw)))))
       (bo_contributions o')) (\<lambda>digests. Inr (PDict
       [(''success'', PBool (bo_success o')), (''terminal_reason'', PStr (bo_terminal_reason o')), (''summary'', PStr (bo_summary o')),
        (''usage'', PDict usage), (''evidence'', PDict evidence),
        (''contribution_count'', PInt (int (length (bo_contributions o')))), (''contribution_sha256'', PList digests)]))))"

section \<open>Starting a backend\<close>

text \<open>\<open>_start\<close>: what the start task gave, whether the backend still has its identity, and what stopping a handle
  that is not kept answers. The result says whether there is a handle, the error and the proof.\<close>

datatype start_result = Handle | Not_A_Handle | Start_Raised session_error "stop_proof option"

type_synonym start_answer = "bool \<times> session_error option \<times> stop_proof option"

definition accept_result :: "start_result \<Rightarrow> bool \<Rightarrow> stop_answer \<Rightarrow> start_answer" where
  "accept_result selected identity_matches drift_stop = (case selected of
      Start_Raised e proof \<Rightarrow> (False, Some e, proof)
    | Not_A_Handle \<Rightarrow> (False, Some (orchestration_error ''BACKEND_HANDLE_INVALID''), None)
    | Handle \<Rightarrow>
        if \<not> identity_matches
        then (False, Some (orchestration_error ''BACKEND_IDENTITY_DRIFT''), Some (stop_session drift_stop))
        else (True, None, None))"

definition cancel_and_join ::
  "start_result \<Rightarrow> bool \<Rightarrow> stop_answer \<Rightarrow> stop_answer \<Rightarrow> session_error \<Rightarrow> start_answer" where
  "cancel_and_join selected identity_matches drift_stop late_stop error =
     (let (accepted, returned_error, proof) = accept_result selected identity_matches drift_stop
      in (False, Some (case returned_error of None \<Rightarrow> error | Some e \<Rightarrow> e),
          if accepted then Some (stop_session late_stop) else proof))"

datatype start_wait = Task_Done | Timed_Out | Signalled

definition start_session ::
  "resource_event option \<Rightarrow> bool \<Rightarrow> start_wait \<Rightarrow> start_result \<Rightarrow> bool \<Rightarrow> stop_answer \<Rightarrow> stop_answer \<Rightarrow> start_answer" where
  "start_session event identity_before wait selected identity_matches drift_stop late_stop =
     (if \<not> identity_before
      then (False, Some (orchestration_error ''BACKEND_IDENTITY_DRIFT''), Some not_started_proof)
      else (case wait of
          Task_Done \<Rightarrow> accept_result selected identity_matches drift_stop
        | Timed_Out \<Rightarrow> cancel_and_join selected identity_matches drift_stop late_stop timeout_error
        | Signalled \<Rightarrow> cancel_and_join selected identity_matches drift_stop late_stop
            (orchestration_error (case event of Some e \<Rightarrow> ev_code e | None \<Rightarrow> ''COHORT_STOP''))))"

section \<open>The controller\<close>

record persist_args =
  pa_status :: session_status
  pa_terminal_reason :: string
  pa_started_at :: "string option"
  pa_outcome :: "backend_outcome option"
  pa_stop_proof :: "stop_proof option"
  pa_publications :: "pyval list"
  pa_error :: "session_error option"
  pa_error_code :: "string option"

text \<open>
  What a session does with the proof of a stop, and where its coroutine is. From \<open>Awaiting_Outcome\<close> on there is
  a handle, and the text is the time at which it was published. The flag of \<open>Persisting\<close> is set inside the
  handler of a host failure, where a further exception ends the worker.
\<close>

datatype stop_purpose =
    Early_Stop "resource_event option"
  | Wait_Failed session_error
  | Completed backend_outcome
  | Interrupted "resource_event option" bool
  | Host_Failed session_error

datatype session_control =
    Unstarted
  | Awaiting_Activation
  | Awaiting_Start
  | Awaiting_Outcome string
  | Stopping string stop_purpose
  | Draining string "resource_event option" bool stop_proof
  | Measuring string backend_outcome stop_proof
  | Publishing string backend_outcome stop_proof "research_contribution list" "pyval list"
  | Publisher_Called string backend_outcome stop_proof research_contribution "research_contribution list" "pyval list"
  | Persisting bool persist_args
  | Persisted
  | Crashed

text \<open>The agenda arm as the orchestrator knows it: a protocol over its own state.\<close>

record 'a arm_protocol =
  ap_review :: "session_spec \<Rightarrow> research_contribution \<Rightarrow> 'a \<Rightarrow> ('a \<times> pyval) result"
  ap_observe :: "session_spec \<Rightarrow> research_contribution \<Rightarrow> pyval \<Rightarrow> 'a \<Rightarrow> 'a result"
  ap_settle :: "session_spec \<Rightarrow> 'a \<Rightarrow> 'a result"
  ap_session_evidence :: "session_spec \<Rightarrow> 'a \<Rightarrow> ('a \<times> pyval) result"

record 'a host_env =
  he_specs :: "session_spec list"
  he_concurrency :: nat
  he_plan_sha256 :: string
  he_launch_sha256 :: string
  he_backend_sha256 :: string
  he_policy :: context_policy
  he_window_control :: string
  he_publisher :: bool
  he_kit :: "verifier_kit option"
  he_arm :: "'a arm_protocol option"
  he_sha256 :: "string \<Rightarrow> string"

record 'a controller =
  co_guard :: resource_guard
  co_arm :: 'a
  co_lock :: "string option"
  co_store :: runtime_store
  co_stop_new :: bool
  co_unsafe :: bool
  co_store_failed :: bool
  co_receipts :: "string \<Rightarrow> ((string \<times> pyval) list \<times> string) option"
  co_revisions :: "string \<Rightarrow> nat"
  co_cursor :: nat
  co_control :: "string \<Rightarrow> session_control"
  co_idle :: nat
  co_missing :: nat

definition observe_resource_event :: "resource_event option \<Rightarrow> 'a controller \<Rightarrow> 'a controller" where
  "observe_resource_event event c = (case event of
      None \<Rightarrow> c
    | Some e \<Rightarrow>
        if ev_uncertain e then c\<lparr>co_unsafe := True, co_stop_new := True\<rparr>
        else if ev_scope e = Cohort_Scope then c\<lparr>co_stop_new := True\<rparr>
        else c)"

definition resource_status :: "resource_event \<Rightarrow> stop_proof option \<Rightarrow> session_status \<times> string" where
  "resource_status event proof =
     (if ev_uncertain event then (UNKNOWN, ''RESOURCE_ACCOUNTING_UNCERTAIN'')
      else if (case proof of None \<Rightarrow> False | Some p \<Rightarrow> \<not> sp_stopped p) then (UNKNOWN, ''STOP_UNPROVEN'')
      else (FAILED, ev_code event))"

definition become :: "string \<Rightarrow> session_control \<Rightarrow> 'a controller \<Rightarrow> 'a controller" where
  "become s k c = c\<lparr>co_control := (co_control c)(s := k)\<rparr>"

definition mark_unproven :: "stop_proof \<Rightarrow> 'a controller \<Rightarrow> 'a controller" where
  "mark_unproven p c = (if sp_stopped p then c else c\<lparr>co_unsafe := True, co_stop_new := True\<rparr>)"

definition event_code :: "resource_event option \<Rightarrow> string option" where
  "event_code = map_option ev_code"

text \<open>\<open>_transition\<close>\<close>

definition transition ::
  "'a host_env \<Rightarrow> disk_answer \<Rightarrow> string \<Rightarrow> string \<Rightarrow> string \<Rightarrow> string \<Rightarrow> 'a controller \<Rightarrow> unit result \<times> 'a controller" where
  "transition he disk now s state reason c =
     (let revision = Suc (co_revisions c s);
          (answer, st) = write_state disk s
            [(''schema'', PStr RUNTIME_STATE_SCHEMA), (''launch_sha256'', PStr (he_launch_sha256 he)),
             (''plan_sha256'', PStr (he_plan_sha256 he)), (''session_id'', PStr s), (''state'', PStr state), (''reason'', PStr reason),
             (''revision'', PInt (int revision)), (''updated_at'', PStr now)] (co_store c)
      in (answer, c\<lparr>co_revisions := (co_revisions c)(s := revision), co_store := st\<rparr>))"

text \<open>An exception outside \<open>_persist\<close>: with a handle the session is stopped first.\<close>

definition host_failure_args :: "string option \<Rightarrow> stop_proof option \<Rightarrow> session_error \<Rightarrow> persist_args" where
  "host_failure_args started_at proof error =
     (let proven = (case proof of None \<Rightarrow> True | Some p \<Rightarrow> sp_stopped p)
      in \<lparr>pa_status = (if proven then FAILED else UNKNOWN),
          pa_terminal_reason = (if proven then ''HOST_SESSION_FAILED'' else ''STOP_UNPROVEN''),
          pa_started_at = started_at, pa_outcome = None, pa_stop_proof = proof, pa_publications = [],
          pa_error = Some error, pa_error_code = Some ''HOST_SESSION_FAILED''\<rparr>)"

definition host_failed :: "string option \<Rightarrow> session_error \<Rightarrow> string \<Rightarrow> 'a controller \<Rightarrow> 'a controller" where
  "host_failed handle error s c = (case handle of
      None \<Rightarrow> become s (Persisting True (host_failure_args None None error)) c
    | Some t \<Rightarrow> become s (Stopping t (Host_Failed error)) c)"

definition simple_args :: "session_status \<Rightarrow> string \<Rightarrow> string option \<Rightarrow> stop_proof option \<Rightarrow> string option \<Rightarrow> persist_args" where
  "simple_args status reason started_at proof code =
     \<lparr>pa_status = status, pa_terminal_reason = reason, pa_started_at = started_at, pa_outcome = None, pa_stop_proof = proof,
      pa_publications = [], pa_error = None, pa_error_code = code\<rparr>"

definition not_started_args :: persist_args where
  "not_started_args = simple_args CANCELLED ''NOT_STARTED'' None (Some not_started_proof) None"

section \<open>\<open>run_one\<close>\<close>

text \<open>A worker takes the next session: the state file, and the inputs, whose writing may raise.\<close>

definition prepare_session ::
  "'a host_env \<Rightarrow> disk_answer \<Rightarrow> string \<Rightarrow> session_error \<Rightarrow> session_error option \<Rightarrow> string \<Rightarrow> 'a controller \<Rightarrow> 'a controller" where
  "prepare_session he disk now store_error request_error s c =
     (case transition he disk now s ''PREPARING'' ''INPUT_MATERIALIZATION'' c of
        (Inl _, c) \<Rightarrow> host_failed None store_error s c
      | (Inr _, c) \<Rightarrow> (case request_error of
            Some e \<Rightarrow> host_failed None e s c
          | None \<Rightarrow> become s Awaiting_Activation c))"

definition session_activated ::
  "'a host_env \<Rightarrow> disk_answer \<Rightarrow> string \<Rightarrow> session_error \<Rightarrow> string \<Rightarrow> 'a controller \<Rightarrow> 'a controller" where
  "session_activated he disk now store_error s c =
     (let event = latched_event (co_guard c) s; c = observe_resource_event event c
      in case event of
          Some e \<Rightarrow>
            let (status, reason) = resource_status e (Some not_started_proof)
            in become s (Persisting False (simple_args status reason None (Some not_started_proof) (Some (ev_code e)))) c
        | None \<Rightarrow>
            if co_stop_new c then become s (Persisting False not_started_args) c
            else (case transition he disk now s ''STARTING'' ''BACKEND_START'' c of
                (Inl _, c) \<Rightarrow> host_failed None store_error s c
              | (Inr _, c) \<Rightarrow> become s Awaiting_Start c))"

text \<open>No handle: the classification of a session that never ran.\<close>

definition start_failure_args ::
  "bool \<Rightarrow> resource_event option \<Rightarrow> session_error option \<Rightarrow> stop_proof option \<Rightarrow> persist_args" where
  "start_failure_args stop_new event error proof =
     (let proven = (case proof of None \<Rightarrow> False | Some p \<Rightarrow> sp_stopped p);
          code = (case event of
              Some e \<Rightarrow> ev_code e
            | None \<Rightarrow> (case error of Some e \<Rightarrow> error_code e ''BACKEND_START_FAILED'' | None \<Rightarrow> ''BACKEND_START_FAILED''));
          (status, reason) = (case event of
              Some e \<Rightarrow>
                if ev_uncertain e \<or> \<not> proven
                then (UNKNOWN, if ev_uncertain e \<and> proven then ''RESOURCE_ACCOUNTING_UNCERTAIN'' else ''STOP_UNPROVEN'')
                else (if ev_scope e = Cohort_Scope then CANCELLED else FAILED, ev_code e)
            | None \<Rightarrow>
                (if stop_new \<and> proven then CANCELLED else if proven then FAILED else UNKNOWN,
                 if stop_new \<and> proven then ''NOT_STARTED''
                 else if proven \<and> code = ''BACKEND_IDENTITY_DRIFT'' then ''BACKEND_IDENTITY_DRIFT''
                 else if proven then ''BACKEND_START_FAILED''
                 else ''BACKEND_START_UNPROVEN''))
      in \<lparr>pa_status = status, pa_terminal_reason = reason, pa_started_at = None, pa_outcome = None, pa_stop_proof = proof,
          pa_publications = [], pa_error = error, pa_error_code = Some code\<rparr>)"

definition session_started ::
  "'a host_env \<Rightarrow> disk_answer \<Rightarrow> string \<Rightarrow> session_error \<Rightarrow> start_answer \<Rightarrow> string \<Rightarrow> 'a controller \<Rightarrow> 'a controller" where
  "session_started he disk now store_error answer s c =
     (let (handle, error, proof) = answer; event = latched_event (co_guard c) s
      in if \<not> handle then
           let c = observe_resource_event event c;
               c = (if (case proof of None \<Rightarrow> False | Some p \<Rightarrow> sp_stopped p) then c else c\<lparr>co_unsafe := True, co_stop_new := True\<rparr>)
           in become s (Persisting False (start_failure_args (co_stop_new c) event error proof)) c
         else (case transition he disk now s ''RUNNING'' ''BACKEND_HANDLE_PUBLISHED'' c of
             (Inl _, c) \<Rightarrow> host_failed (Some now) store_error s c
           | (Inr _, c) \<Rightarrow>
               if co_stop_new c \<or> event \<noteq> None then become s (Stopping now (Early_Stop event)) c
               else become s (Awaiting_Outcome now) c))"

text \<open>The arbiter: the session completed, or a signal came first.\<close>

definition session_completed :: "string \<Rightarrow> session_error + backend_outcome \<Rightarrow> string \<Rightarrow> 'a controller \<Rightarrow> 'a controller" where
  "session_completed t result s c = (case result of
      Inl e \<Rightarrow> become s (Stopping t (Wait_Failed e)) c
    | Inr o' \<Rightarrow> become s (Stopping t (Completed o')) c)"

definition stop_reason :: "resource_event option \<Rightarrow> bool \<Rightarrow> string" where
  "stop_reason event wall = (case event of Some e \<Rightarrow> ev_code e | None \<Rightarrow> if wall then ''SESSION_WALL_LIMIT'' else ''COHORT_STOP'')"

definition session_signalled ::
  "'a host_env \<Rightarrow> disk_answer \<Rightarrow> string \<Rightarrow> session_error \<Rightarrow> string \<Rightarrow> resource_event option \<Rightarrow> bool \<Rightarrow> string \<Rightarrow> 'a controller \<Rightarrow>
   'a controller" where
  "session_signalled he disk now store_error t event wall s c =
     (let c = observe_resource_event event c
      in case transition he disk now s ''STOPPING'' (stop_reason event wall) c of
          (Inl _, c) \<Rightarrow> host_failed (Some t) store_error s c
        | (Inr _, c) \<Rightarrow> become s (Stopping t (Interrupted event wall)) c)"

definition interrupted_args ::
  "string \<Rightarrow> resource_event option \<Rightarrow> bool \<Rightarrow> stop_proof \<Rightarrow> backend_outcome option \<Rightarrow> persist_args" where
  "interrupted_args t event wall proof outcome =
     (let (status, reason, code) = (case event of
          Some e \<Rightarrow> let (status, reason) = resource_status e (Some proof) in (status, reason, Some (ev_code e))
        | None \<Rightarrow>
            (if wall \<and> sp_stopped proof then FAILED else if sp_stopped proof then CANCELLED else UNKNOWN,
             if sp_stopped proof then stop_reason event wall else ''STOP_UNPROVEN'',
             if wall then Some (stop_reason event wall) else None))
      in \<lparr>pa_status = status, pa_terminal_reason = reason, pa_started_at = Some t, pa_outcome = outcome,
          pa_stop_proof = Some proof, pa_publications = [], pa_error = None, pa_error_code = code\<rparr>)"

definition early_stop_args :: "string \<Rightarrow> resource_event option \<Rightarrow> stop_proof \<Rightarrow> persist_args" where
  "early_stop_args t event proof =
     (let (status, reason) = (case event of
          Some e \<Rightarrow> resource_status e (Some proof)
        | None \<Rightarrow> (if sp_stopped proof then CANCELLED else UNKNOWN, if sp_stopped proof then ''COHORT_CANCELLED'' else ''STOP_UNPROVEN''))
      in simple_args status reason (Some t) (Some proof) (event_code event))"

definition wait_failed_args :: "string \<Rightarrow> session_error \<Rightarrow> stop_proof \<Rightarrow> persist_args" where
  "wait_failed_args t error proof =
     (simple_args (if sp_stopped proof then FAILED else UNKNOWN)
       (if sp_stopped proof then ''BACKEND_WAIT_FAILED'' else ''STOP_UNPROVEN'') (Some t) (Some proof) (Some ''BACKEND_WAIT_FAILED''))
     \<lparr>pa_error := Some error\<rparr>"

definition with_outcome :: "backend_outcome \<Rightarrow> persist_args \<Rightarrow> persist_args" where
  "with_outcome o' args = args\<lparr>pa_outcome := Some o'\<rparr>"

definition session_stopped :: "string \<Rightarrow> stop_purpose \<Rightarrow> stop_proof \<Rightarrow> string \<Rightarrow> 'a controller \<Rightarrow> 'a controller" where
  "session_stopped t purpose proof s c =
     (let c = mark_unproven proof c
      in case purpose of
          Early_Stop event \<Rightarrow>
            become s (Persisting False (early_stop_args t event proof)) (observe_resource_event event c)
        | Wait_Failed e \<Rightarrow> become s (Persisting False (wait_failed_args t e proof)) c
        | Completed o' \<Rightarrow>
            if \<not> sp_stopped proof
            then become s (Persisting False (with_outcome o' (simple_args UNKNOWN ''STOP_UNPROVEN'' (Some t) (Some proof) None))) c
            else become s (Measuring t o' proof) c
        | Interrupted event wall \<Rightarrow>
            if sp_stopped proof then become s (Draining t event wall proof) c
            else become s (Persisting False (interrupted_args t event wall proof None)) c
        | Host_Failed e \<Rightarrow> become s (Persisting True (host_failure_args (Some t) (Some proof) e)) c)"

section \<open>\<open>_publish\<close>\<close>

definition publish_failed_args :: "string \<Rightarrow> backend_outcome \<Rightarrow> stop_proof \<Rightarrow> session_error \<Rightarrow> pyval list \<Rightarrow> persist_args" where
  "publish_failed_args t o' proof error published =
     \<lparr>pa_status = FAILED, pa_terminal_reason = ''PMW_PUBLISH_FAILED'', pa_started_at = Some t, pa_outcome = Some o',
      pa_stop_proof = Some proof, pa_publications = published, pa_error = Some error,
      pa_error_code = Some (error_code error ''PMW_PUBLISH_FAILED'')\<rparr>"

definition publish_raises :: "string \<Rightarrow> backend_outcome \<Rightarrow> stop_proof \<Rightarrow> session_error \<Rightarrow> pyval list \<Rightarrow> session_control" where
  "publish_raises t o' proof error published =
     Persisting False (publish_failed_args t o' proof (publication_error (error_code error ''PMW_PUBLISH_FAILED'')) published)"

definition published_args :: "string \<Rightarrow> backend_outcome \<Rightarrow> stop_proof \<Rightarrow> pyval list \<Rightarrow> persist_args" where
  "published_args t o' proof published =
     \<lparr>pa_status = SUCCEEDED, pa_terminal_reason = bo_terminal_reason o', pa_started_at = Some t, pa_outcome = Some o',
      pa_stop_proof = Some proof, pa_publications = published, pa_error = None, pa_error_code = None\<rparr>"

text \<open>The quiescent measurement is done: classify, or start publishing.\<close>

definition session_measured :: "'a host_env \<Rightarrow> string \<Rightarrow> backend_outcome \<Rightarrow> stop_proof \<Rightarrow> string \<Rightarrow> 'a controller \<Rightarrow> 'a controller" where
  "session_measured he t o' proof s c =
     (let event = latched_event (co_guard c) s; c = observe_resource_event event c
      in case event of
          Some e \<Rightarrow>
            let (status, reason) = resource_status e (Some proof)
            in become s (Persisting False (with_outcome o' (simple_args status reason (Some t) (Some proof) (Some (ev_code e))))) c
        | None \<Rightarrow>
            if \<not> bo_success o'
            then become s (Persisting False (with_outcome o' (simple_args FAILED (bo_terminal_reason o') (Some t) (Some proof) None))) c
            else if bo_contributions o' = [] then become s (Persisting False (published_args t o' proof [])) c
            else if \<not> he_publisher he
            then become s (Persisting False (publish_failed_args t o' proof (orchestration_error ''PMW_PUBLISH_UNAVAILABLE'') [])) c
            else become s (Publishing t o' proof (bo_contributions o') []) c)"

definition arm_admits :: "pyval \<Rightarrow> bool option" where
  "arm_admits admitted = (case admitted of PBool b \<Rightarrow> Some b | _ \<Rightarrow> None)"

text \<open>One contribution up to the call of the publisher. The lock is held from the review to the observation.\<close>

definition publish_next ::
  "'a host_env \<Rightarrow> bool \<Rightarrow> session_error \<Rightarrow> session_spec \<Rightarrow> string \<Rightarrow> backend_outcome \<Rightarrow> stop_proof \<Rightarrow>
   research_contribution \<Rightarrow> research_contribution list \<Rightarrow> pyval list \<Rightarrow> 'a controller \<Rightarrow> 'a controller" where
  "publish_next he identity_matches review_error spec t o' proof x xs published c =
     (let s = ss_session_id spec
      in if \<not> identity_matches
         then become s (publish_raises t o' proof (orchestration_error ''PUBLICATION_IDENTITY_DRIFT'') published) c
         else (case he_arm he of
             None \<Rightarrow> become s (Publisher_Called t o' proof x xs published) c
           | Some arm \<Rightarrow> (case ap_review arm spec x (co_arm c) of
                 Inl _ \<Rightarrow> become s (publish_raises t o' proof review_error published) c
               | Inr (a, admitted) \<Rightarrow>
                   let c = c\<lparr>co_arm := a\<rparr>
                   in case arm_admits admitted of
                       None \<Rightarrow> become s (publish_raises t o' proof (orchestration_error ''AGENDA_ARM_DECISION_INVALID'') published) c
                     | Some False \<Rightarrow> become s (Publishing t o' proof xs published) c
                     | Some True \<Rightarrow> become s (Publisher_Called t o' proof x xs published) (c\<lparr>co_lock := Some s\<rparr>))))"

definition publisher_answers ::
  "'a host_env \<Rightarrow> session_error + pyval \<Rightarrow> bool \<Rightarrow> session_error \<Rightarrow> session_spec \<Rightarrow> string \<Rightarrow> backend_outcome \<Rightarrow> stop_proof \<Rightarrow>
   research_contribution \<Rightarrow> research_contribution list \<Rightarrow> pyval list \<Rightarrow> 'a controller \<Rightarrow> 'a controller" where
  "publisher_answers he answer identity_matches host_error spec t o' proof x xs published c =
     (let s = ss_session_id spec;
          c = (if co_lock c = Some s then c\<lparr>co_lock := None\<rparr> else c)
      in case answer of
          Inl e \<Rightarrow> become s (publish_raises t o' proof e published) c
        | Inr v \<Rightarrow> (case public_result (he_sha256 he) v of
              Inl _ \<Rightarrow> become s (publish_raises t o' proof host_error published) c
            | Inr shown \<Rightarrow>
                let published = published @ [shown]
                in case (case he_arm he of None \<Rightarrow> Inr (co_arm c) | Some arm \<Rightarrow> ap_observe arm spec x v (co_arm c)) of
                    Inl _ \<Rightarrow> become s (publish_raises t o' proof host_error published) c
                  | Inr a \<Rightarrow>
                      let c = c\<lparr>co_arm := a\<rparr>
                      in if \<not> identity_matches
                         then become s (publish_raises t o' proof (orchestration_error ''PUBLICATION_IDENTITY_DRIFT'') published) c
                         else become s (Publishing t o' proof xs published) c))"

section \<open>\<open>_persist\<close>\<close>

fun status_value :: "session_status \<Rightarrow> string" where
  "status_value SUCCEEDED = ''SUCCEEDED''"
| "status_value FAILED = ''FAILED''"
| "status_value CANCELLED = ''CANCELLED''"
| "status_value UNKNOWN = ''UNKNOWN''"

text \<open>A resource event found by the last measurement takes precedence over what the session was.\<close>

definition overridden :: "resource_event option \<Rightarrow> persist_args \<Rightarrow> persist_args" where
  "overridden event args = (case event of
      None \<Rightarrow> args
    | Some e \<Rightarrow>
        if ev_uncertain e
        then args\<lparr>pa_status := UNKNOWN, pa_terminal_reason := ''RESOURCE_ACCOUNTING_UNCERTAIN'',
          pa_error_code := Some ''RESOURCE_ACCOUNTING_UNCERTAIN''\<rparr>
        else if pa_started_at args \<noteq> None \<and> pa_status args \<noteq> UNKNOWN
        then args\<lparr>pa_status := FAILED, pa_terminal_reason := ev_code e, pa_error_code := Some (ev_code e)\<rparr>
        else if pa_terminal_reason args = ''NOT_STARTED''
        then args\<lparr>pa_terminal_reason := ev_code e, pa_error_code := Some (ev_code e)\<rparr>
        else args)"

definition error_value :: "persist_args \<Rightarrow> pyval" where
  "error_value args =
     (if pa_error args = None \<and> pa_error_code args = None then PNone
      else PDict
        [(''code'', PStr (case pa_error_code args of
            Some c \<Rightarrow> c
          | None \<Rightarrow> (case pa_error args of Some e \<Rightarrow> error_code e ''RUNTIME_SESSION_FAILED'' | None \<Rightarrow> []))),
         (''type'', opt_text (map_option (\<lambda>e. safe_type (er_type e)) (pa_error args)))])"

definition no_outcome_usage :: "usage_evidence result" where
  "no_outcome_usage = unmeasured (PStr ''NO_BACKEND_OUTCOME'') (PStr ''no backend outcome was produced for this session'')"

definition usage_block :: "backend_outcome option \<Rightarrow> pyval result" where
  "usage_block outcome = (case outcome of
      None \<Rightarrow> rbind no_outcome_usage (\<lambda>e. Inr (usage_to_value e))
    | Some o' \<Rightarrow> Inr (usage_to_value (bo_usage_evidence o')))"

text \<open>\<open>_agenda_arm_evidence\<close>: the leases are released before the evidence is read.\<close>

definition arm_evidence :: "'a host_env \<Rightarrow> session_spec \<Rightarrow> 'a \<Rightarrow> ('a \<times> pyval) result" where
  "arm_evidence he spec a = (case he_arm he of
      None \<Rightarrow> Inr (a, not_configured_agenda_arm_session_evidence)
    | Some arm \<Rightarrow> rbind (ap_settle arm spec a) (\<lambda>a. rbind (ap_session_evidence arm spec a) (\<lambda>(a, v).
        if is_PDict v then Inr (a, v) else Inl (Orchestration_Error ''AGENDA_ARM_EVIDENCE_INVALID'' []))))"

definition receipt_items ::
  "'a host_env \<Rightarrow> session_spec \<Rightarrow> persist_args \<Rightarrow> string \<Rightarrow> pyval \<Rightarrow> pyval \<Rightarrow> pyval \<Rightarrow> pyval \<Rightarrow> pyval \<Rightarrow> (string \<times> pyval) list" where
  "receipt_items he spec args finished_at outcome guard usage kit arm =
     [(''schema'', PStr RUNTIME_RECEIPT_SCHEMA), (''launch_sha256'', PStr (he_launch_sha256 he)),
      (''plan_sha256'', PStr (he_plan_sha256 he)), (''cohort_id'', PStr (li_cohort_id spec)),
      (''session_id'', PStr (ss_session_id spec)), (''world_id'', PStr (li_world_id spec)), (''world_ref'', PStr (li_world_ref spec)),
      (''base_snapshot_ref'', PStr (li_base_snapshot_ref spec)), (''backend_sha256'', PStr (he_backend_sha256 he)),
      (''status'', PStr (status_value (pa_status args))), (''terminal_reason'', PStr (pa_terminal_reason args)),
      (''started_at'', opt_text (pa_started_at args)), (''finished_at'', PStr finished_at),
      (''stop_proof'', opt_value stop_proof_to_value (pa_stop_proof args)), (''outcome'', outcome),
      (''publications'', PList (pa_publications args)), (''error'', error_value args), (''resource_guard'', guard),
      (''usage'', usage), (''verifier_kit'', kit), (''agenda_arm'', arm),
      (''context_window'', PDict
        [(''semantics'', PStr CONTEXT_WINDOW_SEMANTICS),
         (''configured_tokens'', opt_int (window_for_session (he_policy he) (ss_session_id spec))),
         (''backend_control'', PStr (he_window_control he)), (''strict_pre_http_input_gate'', PBool False)])]"

definition persist_receipt ::
  "'a host_env \<Rightarrow> ledger_answer \<Rightarrow> string \<Rightarrow> session_spec \<Rightarrow> persist_args \<Rightarrow> 'a controller \<Rightarrow>
   ((string \<times> pyval) list \<times> 'a) result" where
  "persist_receipt he ledger finished_at spec args c =
     (let s = ss_session_id spec
      in rbind (case pa_outcome args of None \<Rightarrow> Inr PNone | Some o' \<Rightarrow> outcome_receipt_value (he_sha256 he) o') (\<lambda>outcome.
         rbind (guard_evidence (co_guard c) s) (\<lambda>guard.
         rbind (usage_block (pa_outcome args)) (\<lambda>usage.
         rbind (arm_evidence he spec (co_arm c)) (\<lambda>(a, arm).
           Inr (receipt_items he spec args finished_at outcome guard usage (verifier_kit_evidence (he_kit he) ledger) arm, a))))))"

text \<open>\<open>_persist\<close> once the guard has finished the session: only a raise of the arm leaves it.\<close>

definition persist_session ::
  "'a host_env \<Rightarrow> ledger_answer \<Rightarrow> disk_answer \<Rightarrow> disk_answer \<Rightarrow> string \<Rightarrow> session_spec \<Rightarrow> persist_args \<Rightarrow> 'a controller \<Rightarrow>
   'a controller result" where
  "persist_session he ledger disk disk' now spec args c =
     (let s = ss_session_id spec; event = latched_event (co_guard c) s;
          c = observe_resource_event event c; args = overridden event args
      in rbind (persist_receipt he ledger now spec args c) (\<lambda>(receipt, a).
         let c = c\<lparr>co_arm := a\<rparr>
         in case write_receipt (he_sha256 he) disk s receipt (co_store c) of
             (Inl _, st) \<Rightarrow> Inr (c\<lparr>co_store := st, co_store_failed := True, co_stop_new := True\<rparr>)
           | (Inr digest, st) \<Rightarrow>
               let c = c\<lparr>co_store := st, co_receipts := (co_receipts c)(s := Some (receipt, digest))\<rparr>
               in Inr (snd (transition he disk' now s (status_value (pa_status args)) (pa_terminal_reason args) c))))"

definition session_persisted ::
  "'a host_env \<Rightarrow> ledger_answer \<Rightarrow> disk_answer \<Rightarrow> disk_answer \<Rightarrow> string \<Rightarrow> session_error \<Rightarrow> session_spec \<Rightarrow> bool \<Rightarrow> persist_args \<Rightarrow>
   'a controller \<Rightarrow> 'a controller" where
  "session_persisted he ledger disk disk' now raised spec handling args c =
     (let s = ss_session_id spec
      in case persist_session he ledger disk disk' now spec args c of
          Inr c \<Rightarrow> become s Persisted (c\<lparr>co_idle := Suc (co_idle c)\<rparr>)
        | Inl _ \<Rightarrow>
            if handling then become s Crashed c
            else host_failed (pa_started_at args) raised s c)"

section \<open>The cohort\<close>

definition spec_of :: "'a host_env \<Rightarrow> string \<Rightarrow> session_spec option" where
  "spec_of he s = find (\<lambda>spec. ss_session_id spec = s) (he_specs he)"

definition session_ids_of :: "'a host_env \<Rightarrow> string list" where
  "session_ids_of he = map ss_session_id (he_specs he)"

definition controller_init :: "'a host_env \<Rightarrow> resource_event option \<Rightarrow> resource_guard \<Rightarrow> 'a \<Rightarrow> runtime_store \<Rightarrow> 'a controller" where
  "controller_init he initial_event g a st = observe_resource_event initial_event
     \<lparr>co_guard = g, co_arm = a, co_lock = None, co_store = st, co_stop_new = False, co_unsafe = False, co_store_failed = False,
      co_receipts = (\<lambda>_. None), co_revisions = (\<lambda>_. 0), co_cursor = 0, co_control = (\<lambda>_. Unstarted),
      co_idle = he_concurrency he, co_missing = 0\<rparr>"

text \<open>A worker is idle, in the coroutine of one session, or gone.\<close>

definition active :: "session_control \<Rightarrow> bool" where
  "active k \<longleftrightarrow> k \<noteq> Unstarted \<and> k \<noteq> Persisted \<and> k \<noteq> Crashed"

definition workers_done :: "'a host_env \<Rightarrow> 'a controller \<Rightarrow> bool" where
  "workers_done he c \<longleftrightarrow> co_idle c = 0 \<and> list_all (\<lambda>s. \<not> active (co_control c s)) (session_ids_of he)"

text \<open>
  What is awaited of the guard: \<open>activate\<close> has returned when it left its scans, \<open>finish\<close> when the session is
  finished there. An event that a signal task delivers is one that is latched for the session or the cohort.
\<close>

definition guard_activated :: "string \<Rightarrow> 'a controller \<Rightarrow> bool" where
  "guard_activated s c \<longleftrightarrow> s \<in> gd_activated (co_guard c) \<and> gd_control (co_guard c) s = Outside"

definition guard_finished :: "string \<Rightarrow> 'a controller \<Rightarrow> bool" where
  "guard_finished s c \<longleftrightarrow> s \<in> gd_finished (co_guard c)"

definition delivered :: "resource_event option \<Rightarrow> string \<Rightarrow> 'a controller \<Rightarrow> bool" where
  "delivered event s c \<longleftrightarrow>
     (\<forall>e. event = Some e \<longrightarrow> gd_global_terminal (co_guard c) = Some e \<or> gd_session_terminal (co_guard c) s = Some e)"

text \<open>A host failure can also come from a call that is not modelled, wherever \<open>run_one\<close> does not catch it itself.\<close>

definition may_fail :: "session_control \<Rightarrow> string option option" where
  "may_fail k = (case k of
      Awaiting_Activation \<Rightarrow> Some None
    | Awaiting_Start \<Rightarrow> Some None
    | Awaiting_Outcome t \<Rightarrow> Some (Some t)
    | Stopping t (Host_Failed _) \<Rightarrow> None
    | Stopping t _ \<Rightarrow> Some (Some t)
    | Measuring t _ _ \<Rightarrow> Some (Some t)
    | _ \<Rightarrow> None)"

text \<open>What the answers are: proofs and outcomes of the classes of \<open>contracts.py\<close>, times in the format of the host, and
  ASCII names in exceptions.\<close>

definition error_ok :: "session_error \<Rightarrow> bool" where
  "error_ok e \<longleftrightarrow> ascii (er_type e) \<and> pred_option ascii (er_code e)"

definition time_ok :: "string \<Rightarrow> bool" where
  "time_ok t \<longleftrightarrow> ascii t \<and> 1 < length t \<and> length t \<le> 64 \<and> last t = CHR ''Z''"

definition backend_outcome_ok :: "backend_outcome \<Rightarrow> bool" where
  "backend_outcome_ok o' \<longleftrightarrow> outcome_ok o' \<and> evidence_ok (bo_usage_evidence o')"

fun stop_answer_ok :: "stop_answer \<Rightarrow> bool" where
  "stop_answer_ok (Stop_Proof p) = stop_proof_ok p"
| "stop_answer_ok (Stop_Invalid name) = ascii name"
| "stop_answer_ok (Stop_Raises name) = ascii name"

fun start_result_ok :: "start_result \<Rightarrow> bool" where
  "start_result_ok (Start_Raised e proof) = (error_ok e \<and> pred_option stop_proof_ok proof)"
| "start_result_ok r = True"

inductive host_step :: "'a host_env \<Rightarrow> 'a controller \<Rightarrow> 'a controller \<Rightarrow> bool" for he where
  hs_guard: "guard_step (co_guard c) g \<Longrightarrow> host_step he c (c\<lparr>co_guard := g\<rparr>)"
| hs_cancel: "host_step he c (c\<lparr>co_stop_new := True\<rparr>)"
| hs_take: "0 < co_idle c \<Longrightarrow> \<not> co_stop_new c \<Longrightarrow> co_cursor c < length (he_specs he) \<Longrightarrow>
    s = ss_session_id (he_specs he ! co_cursor c) \<Longrightarrow> error_ok e \<Longrightarrow> pred_option error_ok e' \<Longrightarrow> time_ok t \<Longrightarrow>
    host_step he c (prepare_session he d t e e' s (c\<lparr>co_cursor := Suc (co_cursor c), co_idle := co_idle c - 1\<rparr>))"
| hs_leave: "0 < co_idle c \<Longrightarrow> co_stop_new c \<or> length (he_specs he) \<le> co_cursor c \<Longrightarrow>
    host_step he c (c\<lparr>co_idle := co_idle c - 1\<rparr>)"
| hs_activated: "co_control c s = Awaiting_Activation \<Longrightarrow> guard_activated s c \<Longrightarrow> error_ok e \<Longrightarrow> time_ok t \<Longrightarrow>
    host_step he c (session_activated he d t e s c)"
| hs_start_signal: "co_control c s = Awaiting_Start \<Longrightarrow> delivered event s c \<Longrightarrow>
    host_step he c (observe_resource_event event c)"
| hs_started: "co_control c s = Awaiting_Start \<Longrightarrow> start_result_ok r \<Longrightarrow> stop_answer_ok a \<Longrightarrow> stop_answer_ok b \<Longrightarrow>
    error_ok e \<Longrightarrow> time_ok t \<Longrightarrow>
    host_step he c (session_started he d t e (start_session (latched_event (co_guard c) s) i w r j a b) s c)"
| hs_completed: "co_control c s = Awaiting_Outcome t \<Longrightarrow> pred_sum error_ok backend_outcome_ok r \<Longrightarrow>
    host_step he c (session_completed t r s c)"
| hs_signalled: "co_control c s = Awaiting_Outcome t \<Longrightarrow> event \<noteq> None \<or> wall \<or> co_stop_new c \<Longrightarrow> delivered event s c \<Longrightarrow>
    error_ok e \<Longrightarrow> time_ok t' \<Longrightarrow> host_step he c (session_signalled he d t' e t event wall s c)"
| hs_stopped: "co_control c s = Stopping t p \<Longrightarrow> stop_answer_ok a \<Longrightarrow> host_step he c (session_stopped t p (stop_session a) s c)"
| hs_drained: "co_control c s = Draining t event wall p \<Longrightarrow> pred_option backend_outcome_ok outcome \<Longrightarrow>
    host_step he c (become s (Persisting False (interrupted_args t event wall p outcome)) c)"
| hs_measured: "co_control c s = Measuring t outcome p \<Longrightarrow> guard_finished s c \<Longrightarrow>
    host_step he c (session_measured he t outcome p s c)"
| hs_publish: "co_control c s = Publishing t outcome p (x # xs) ys \<Longrightarrow> he_arm he = None \<or> co_lock c = None \<Longrightarrow>
    spec_of he s = Some spec \<Longrightarrow> error_ok e \<Longrightarrow> host_step he c (publish_next he i e spec t outcome p x xs ys c)"
| hs_answers: "co_control c s = Publisher_Called t outcome p x xs ys \<Longrightarrow> spec_of he s = Some spec \<Longrightarrow>
    pred_sum error_ok (\<lambda>_. True) r \<Longrightarrow> error_ok e \<Longrightarrow> host_step he c (publisher_answers he r i e spec t outcome p x xs ys c)"
| hs_published: "co_control c s = Publishing t outcome p [] ys \<Longrightarrow>
    host_step he c (become s (Persisting False (published_args t outcome p ys)) c)"
| hs_fails: "may_fail (co_control c s) = Some handle \<Longrightarrow> error_ok e \<Longrightarrow> host_step he c (host_failed handle e s c)"
| hs_persisted: "co_control c s = Persisting handling args \<Longrightarrow> guard_finished s c \<Longrightarrow> spec_of he s = Some spec \<Longrightarrow>
    error_ok e \<Longrightarrow> time_ok t \<Longrightarrow> host_step he c (session_persisted he l d d' t e spec handling args c)"
| hs_worker_errors: "workers_done he c \<Longrightarrow> co_control c s = Crashed \<Longrightarrow>
    host_step he c (c\<lparr>co_unsafe := True, co_stop_new := True\<rparr>)"
| hs_recorded: "workers_done he c \<Longrightarrow> co_missing c < length (he_specs he) \<Longrightarrow>
    co_receipts c (ss_session_id (he_specs he ! co_missing c)) \<noteq> None \<Longrightarrow> host_step he c (c\<lparr>co_missing := Suc (co_missing c)\<rparr>)"
| hs_missing: "workers_done he c \<Longrightarrow> co_missing c < length (he_specs he) \<Longrightarrow> spec = he_specs he ! co_missing c \<Longrightarrow>
    co_receipts c (ss_session_id spec) = None \<Longrightarrow> guard_finished (ss_session_id spec) c \<Longrightarrow> time_ok t \<Longrightarrow>
    persist_session he l d d' t spec not_started_args c = Inr c' \<Longrightarrow>
    host_step he c (c'\<lparr>co_missing := Suc (co_missing c')\<rparr>)"

inductive host_reachable :: "'a host_env \<Rightarrow> 'a controller \<Rightarrow> 'a controller \<Rightarrow> bool" for he c where
  hr_start: "host_reachable he c c"
| hr_step: "host_reachable he c d \<Longrightarrow> host_step he d e \<Longrightarrow> host_reachable he c e"

text \<open>\<open>settlement_value\<close>: the rows of the receipts that were written, their counts and the outcome.\<close>

definition settlement_rows :: "'a host_env \<Rightarrow> 'a controller \<Rightarrow> pyval list" where
  "settlement_rows he c = concat (map (\<lambda>s. case co_receipts c s of
      None \<Rightarrow> []
    | Some (receipt, digest) \<Rightarrow> [PDict [(''session_id'', PStr s), (''status'', dget ''status'' receipt), (''receipt_sha256'', PStr digest)]])
      (session_ids_of he))"

definition settlement_statuses :: "'a host_env \<Rightarrow> 'a controller \<Rightarrow> string list" where
  "settlement_statuses he c = map (\<lambda>row. text_of (vget ''status'' row)) (settlement_rows he c)"

definition settlement_outcome :: "'a host_env \<Rightarrow> 'a controller \<Rightarrow> string" where
  "settlement_outcome he c =
     (let statuses = settlement_statuses he c
      in if co_store_failed c \<or> length statuses \<noteq> length (he_specs he) then ''SETTLEMENT_INCOMPLETE''
         else if co_unsafe c \<or> ''UNKNOWN'' \<in> set statuses then ''UNSAFE''
         else if ''CANCELLED'' \<in> set statuses then ''CANCELLED''
         else if ''FAILED'' \<in> set statuses then ''COMPLETED_WITH_FAILURES''
         else ''SUCCEEDED'')"

definition settlement_value :: "'a host_env \<Rightarrow> string \<Rightarrow> string \<Rightarrow> 'a controller \<Rightarrow> (string \<times> pyval) list" where
  "settlement_value he cohort_id now c =
     [(''schema'', PStr RUNTIME_SETTLEMENT_SCHEMA), (''launch_sha256'', PStr (he_launch_sha256 he)),
      (''plan_sha256'', PStr (he_plan_sha256 he)), (''cohort_id'', PStr cohort_id), (''finished_at'', PStr now),
      (''outcome'', PStr (settlement_outcome he c)),
      (''counts'', PDict (map (\<lambda>status. (status_value status, PInt (int (count_list (settlement_statuses he c) (status_value status)))))
         [SUCCEEDED, FAILED, CANCELLED, UNKNOWN])),
      (''receipts'', PList (settlement_rows he c))]"

end
