(* ===== verification/Receipt_Accepted.thy ===== *)
theory Receipt_Accepted
  imports Session_Run
begin

text \<open>
  The receipt that the host builds against the validator of the store: block by block, and the terminal
  invariants from \<open>args_ok\<close>, which says what is true of the arguments of every \<open>_persist\<close>. The two modules do not
  import each other, so that this is where their vocabularies are compared.
\<close>

section \<open>The blocks\<close>

lemma ascii_ident:
  assumes "matches_ident p q n s" "\<And>c. p c \<Longrightarrow> cc c < 128" "\<And>c. q c \<Longrightarrow> cc c < 128"
  shows "ascii s \<and> s \<noteq> [] \<and> length s \<le> Suc n"
  using assms by (cases s) (auto simp: ascii_def list_all_iff)

lemma reason_ascii: "is_TERMINAL_REASON s \<Longrightarrow> ascii s \<and> s \<noteq> [] \<and> length s \<le> 128"
  using ascii_ident [of _ _ 127 s] unfolding is_TERMINAL_REASON_def
  by (auto simp: is_upper_def is_digit_def cc_def elim!: ascii_ident [THEN conjE])

lemma json_able_texts: "json_able (texts ss) \<longleftrightarrow> list_all utf8_valid ss"
  by (induction ss) (auto simp: texts_def)

lemma contribution_encodes:
  assumes "contribution_ok c"
  shows "\<exists>v raw. contribution_to_value c = Inr v \<and> canonical_json v = Inr raw"
proof -
  obtain d where d: "\<And>what. decode_payload what (co_payload_bytes c) = Inr d" "validate_payload (PDict d) = Inr (co_payload_bytes c)"
    using assms by (auto simp: contribution_ok_def elim: payload_bytes_okE)
  from d(2) have "payload_fits 0 (PDict d)" unfolding validate_payload_Inr by blast
  then have "json_able (PDict d)" by (rule payload_fits_json_able)
  moreover have "list_all utf8_valid RESEARCH_KINDS" "utf8_valid RESEARCH_CONTRIBUTION_SCHEMA" by code_simp+
  moreover have "list_all utf8_valid (co_problem_ids c)" "list_all utf8_valid (co_parent_refs c)" "list_all utf8_valid (co_artifact_refs c)"
    using assms ident_text ref_text by (auto simp: contribution_ok_def sorted_refs_def list_all_iff)
  moreover have "utf8_valid (co_title c)" "utf8_valid (co_body c)" using assms by (simp_all add: contribution_ok_def text_ok_def)
  moreover have "co_kind c \<in> set RESEARCH_KINDS" using assms by (simp add: contribution_ok_def)
  moreover have "list_all utf8_valid [''schema'', ''kind'', ''problem_ids'', ''parent_refs'', ''title'', ''body'', ''artifact_refs'', ''payload'']"
    by code_simp
  ultimately show ?thesis
    by (auto simp: contribution_to_value_def co_payload_def d(1) canonical_json_def json_able_texts list_all_iff)
qed

lemma outcome_accepted:
  assumes "outcome_ok o'" "\<And>x. matches_sha256 (sha256 x)"
  shows "\<exists>v. outcome_receipt_value sha256 o' = Inr v \<and> validate_receipt_outcome s v = Inr (Some (bo_success o')) \<and>
    vget ''contribution_count'' v = PInt (int (length (bo_contributions o'))) \<and> v \<noteq> PNone"
proof -
  let ?f = "\<lambda>item. rbind (contribution_to_value item) (\<lambda>v. rbind (canonical_json v) (\<lambda>raw. Inr (PStr (sha256 raw))))"
  obtain du where du: "bo_usage o' = Inr du" "canonical_json (PDict du) = Inr (bo_usage_bytes o')"
    "length (bo_usage_bytes o') \<le> MAXIMUM_BACKEND_METADATA_BYTES"
    using assms(1) unfolding bo_usage_def by (auto simp: outcome_ok_def elim: metadata_okE)
  obtain de where de: "bo_evidence o' = Inr de" "canonical_json (PDict de) = Inr (bo_evidence_bytes o')"
    "length (bo_evidence_bytes o') \<le> MAXIMUM_BACKEND_METADATA_BYTES"
    using assms(1) unfolding bo_evidence_def by (auto simp: outcome_ok_def elim: metadata_okE)
  have "\<forall>c \<in> set (bo_contributions o'). \<exists>raw. ?f c = Inr (PStr (sha256 raw))"
  proof
    fix c assume "c \<in> set (bo_contributions o')"
    then have "contribution_ok c" using assms(1) by (simp add: outcome_ok_def)
    from contribution_encodes [OF this] show "\<exists>raw. ?f c = Inr (PStr (sha256 raw))" by auto
  qed
  then obtain g where "\<And>c. c \<in> set (bo_contributions o') \<Longrightarrow> ?f c = Inr (PStr (sha256 (g c)))" by metis
  then have digests: "rmap ?f (bo_contributions o') = Inr (map (\<lambda>c. PStr (sha256 (g c))) (bo_contributions o'))"
    by (intro rmap_all_Inr)
  show ?thesis
    using assms du de digests
    by (auto simp: outcome_receipt_value_def validate_receipt_outcome_def has_fields_dict RECEIPT_OUTCOME_FIELDS_def dget_def
        result_dests Let_def bounded_json_object_def outcome_ok_def MAXIMUM_BACKEND_METADATA_BYTES_def MAXIMUM_CONTRIBUTIONS_def
        MAXIMUM_BACKEND_SUMMARY_BYTES_def list_all_iff)
qed

lemma no_outcome_usage_Inr: "\<exists>e. no_outcome_usage = Inr e \<and> evidence_ok e"
proof -
  have "\<not> isl no_outcome_usage" by code_simp
  then have e: "no_outcome_usage = Inr (projr no_outcome_usage)" by (metis sum.collapse(2))
  have "usage_from_value (usage_to_value (projr no_outcome_usage)) = Inr (projr no_outcome_usage)" by code_simp
  from usage_from_value_ok [OF this] e show ?thesis by blast
qed

lemma usage_accepted:
  assumes "pred_option backend_outcome_ok outcome"
  shows "\<exists>v. usage_block outcome = Inr v \<and> usage_evidence_value_is_valid v = Inr True"
proof -
  have valid: "usage_evidence_value_is_valid (usage_to_value e) = Inr True" if "evidence_ok e" for e
    using usage_from_value_to_value [OF that] by (simp add: usage_evidence_value_is_valid_def)
  show ?thesis
  proof (cases outcome)
    case None
    obtain e where e: "no_outcome_usage = Inr e" "evidence_ok e" using no_outcome_usage_Inr by blast
    have "usage_block outcome = Inr (usage_to_value e)" unfolding None usage_block_def e(1) option.case rbind_simps ..
    with valid [OF e(2)] show ?thesis by blast
  next
    case (Some o')
    with assms valid show ?thesis by (simp add: usage_block_def backend_outcome_ok_def)
  qed
qed

definition code_ok :: "string \<Rightarrow> bool" where
  "code_ok c \<longleftrightarrow> ascii c \<and> c \<noteq> [] \<and> length c \<le> 128"

lemma ascii_cp_length: "ascii s \<Longrightarrow> cp_length s = length s"
  unfolding cp_length_def ascii_def is_cont_def by (induction s) auto

lemma error_code_ok: "error_ok e \<Longrightarrow> code_ok default' \<Longrightarrow> code_ok (error_code e default')"
  by (cases "er_code e") (auto simp: error_code_def code_ok_def error_ok_def ascii_cp_length)

lemma error_accepted:
  assumes "pred_option error_ok (pa_error args)" "pred_option code_ok (pa_error_code args)"
  shows "validate_receipt_error s (error_value args) = Inr ()"
proof -
  have type: "utf8_valid (safe_type n) \<and> length (safe_type n) \<le> 512" if "ascii n" for n
  proof -
    have "ascii (take 512 n)" using that set_take_subset [of 512 n] unfolding ascii_def list_all_iff by blast
    with that show ?thesis by (simp add: safe_type_def ascii_cp_take utf8_valid_ascii_text)
  qed
  have c: "code_ok c \<Longrightarrow> utf8_valid c \<and> c \<noteq> [] \<and> length c \<le> 128" for c by (simp add: code_ok_def utf8_valid_ascii_text)
  have "code_ok ''RUNTIME_SESSION_FAILED''" by code_simp
  then have "pa_error args = Some e \<Longrightarrow> code_ok (error_code e ''RUNTIME_SESSION_FAILED'')" for e
    using assms(1) error_code_ok by auto
  then show ?thesis
    using assms type c
    by (cases "pa_error args"; cases "pa_error_code args")
      (auto simp: validate_receipt_error_def error_value_def has_fields_dict ERROR_FIELDS_def dget_def result_dests opt_text_def
        nonempty_text_def error_ok_def)
qed

lemma not_configured_accepted:
  assumes "vget ''mode'' (vget ''agenda_arm'' launch) = PStr ''NOT_CONFIGURED''"
  shows "validate_agenda_arm_evidence s launch not_configured_agenda_arm_session_evidence = Inr 0"
proof -
  have "case canonical_json not_configured_agenda_arm_session_evidence of Inl _ \<Rightarrow> False | Inr raw \<Rightarrow> length raw \<le> MAXIMUM_AGENDA_ARM_EVIDENCE_BYTES"
    by code_simp
  then obtain raw where "canonical_json not_configured_agenda_arm_session_evidence = Inr raw" "length raw \<le> MAXIMUM_AGENDA_ARM_EVIDENCE_BYTES"
    by (auto split: sum.splits)
  with assms show ?thesis
    unfolding validate_agenda_arm_evidence_def
    by (auto simp: not_configured_agenda_arm_session_evidence_def dget_def result_dests Let_def validate_agenda_absent_def
        has_fields_dict AGENDA_ARM_EVIDENCE_ABSENT_FIELDS_def nonempty_text_def int_of_def AGENDA_ARM_EVIDENCE_SCHEMA_def
        ARM_MODE_NOT_CONFIGURED_def nonnegative_def)
qed

lemma event_visible:
  assumes "guard_inv g" "latched_event g s = Some e"
  shows "event_ok (set (gd_session_ids g)) e" "ev_uncertain e \<longleftrightarrow> ev_code e = ''RESOURCE_ACCOUNTING_UNCERTAIN''"
    "ev_uncertain e \<Longrightarrow> gd_global_terminal g = Some e" "is_TERMINAL_REASON (ev_code e)"
    "gd_global_terminal g = Some e \<or> gd_session_terminal g s = Some e"
proof -
  have e: "gd_global_terminal g = Some e \<or> gd_global_terminal g = None \<and> gd_session_terminal g s = Some e"
    using assms(2) by (auto simp: latched_event_def split: option.splits)
  then show ok: "event_ok (set (gd_session_ids g)) e" using assms(1) by (auto simp: guard_inv_def)
  then show "ev_uncertain e \<longleftrightarrow> ev_code e = ''RESOURCE_ACCOUNTING_UNCERTAIN''" "is_TERMINAL_REASON (ev_code e)"
    unfolding event_ok_def by blast+
  show "gd_global_terminal g = Some e" if "ev_uncertain e"
  proof -
    have "ev_scope e = Cohort_Scope" using ok that unfolding event_ok_def by blast
    moreover have "gd_session_terminal g s = Some e \<Longrightarrow> ev_scope e = Session_Scope" using assms(1) unfolding guard_inv_def by blast
    ultimately show ?thesis using e by auto
  qed
  from e show "gd_global_terminal g = Some e \<or> gd_session_terminal g s = Some e" by blast
qed

section \<open>The arguments of \<open>_persist\<close>\<close>

definition stopped :: "stop_proof option \<Rightarrow> bool" where
  "stopped p \<longleftrightarrow> (\<exists>q. p = Some q \<and> sp_stopped q)"

lemma stopped_simps [simp]: "\<not> stopped None" "stopped (Some p) = sp_stopped p"
  by (simp_all add: stopped_def)

text \<open>The cohort's accounting is known to be uncertain.\<close>

definition accounting_lost :: "resource_guard \<Rightarrow> bool" where
  "accounting_lost g \<longleftrightarrow> (\<exists>e. gd_global_terminal g = Some e \<and> ev_uncertain e)"

definition contributed :: "backend_outcome option \<Rightarrow> nat" where
  "contributed outcome = (case outcome of None \<Rightarrow> 0 | Some o' \<Rightarrow> length (bo_contributions o'))"

lemma contributed_simps [simp]: "contributed None = 0" "contributed (Some o') = length (bo_contributions o')"
  by (simp_all add: contributed_def)

text \<open>What is true of the arguments of every \<open>_persist\<close>: \<open>publishing\<close> says whether there is a publisher, \<open>refused\<close> how many
  contributions of the session the arm refused, \<open>lost\<close> whether the accounting is uncertain.\<close>

definition args_ok :: "bool \<Rightarrow> nat \<Rightarrow> bool \<Rightarrow> persist_args \<Rightarrow> bool" where
  "args_ok publishing refused lost args \<longleftrightarrow>
     is_TERMINAL_REASON (pa_terminal_reason args) \<and> pred_option time_ok (pa_started_at args) \<and>
     pred_option backend_outcome_ok (pa_outcome args) \<and> pred_option stop_proof_ok (pa_stop_proof args) \<and>
     pred_option error_ok (pa_error args) \<and> pred_option code_ok (pa_error_code args) \<and>
     (pa_status args = SUCCEEDED \<longrightarrow> stopped (pa_stop_proof args) \<and> pa_started_at args \<noteq> None \<and> pa_error args = None \<and>
        pa_error_code args = None \<and>
        (\<exists>o'. pa_outcome args = Some o' \<and> bo_success o' \<and> length (pa_publications args) + refused = length (bo_contributions o') \<and>
          (\<not> publishing \<longrightarrow> bo_contributions o' = []))) \<and>
     (pa_status args = CANCELLED \<longrightarrow> stopped (pa_stop_proof args)) \<and>
     (pa_status args = FAILED \<longrightarrow> pa_stop_proof args = None \<or> stopped (pa_stop_proof args)) \<and>
     (pa_started_at args \<noteq> None \<and> pa_status args \<noteq> UNKNOWN \<longrightarrow> stopped (pa_stop_proof args)) \<and>
     (pa_status args = UNKNOWN \<and> stopped (pa_stop_proof args) \<longrightarrow>
        pa_terminal_reason args = ''RESOURCE_ACCOUNTING_UNCERTAIN'' \<and> lost) \<and>
     (\<not> publishing \<longrightarrow> pa_publications args = []) \<and>
     length (pa_publications args) + refused \<le> contributed (pa_outcome args)"

lemma code_ok_reason: "is_TERMINAL_REASON s \<Longrightarrow> code_ok s"
  using reason_ascii by (simp add: code_ok_def)

lemma accounting_lost_event:
  assumes "guard_inv g" "accounting_lost g"
  shows "\<exists>e. latched_event g s = Some e \<and> ev_uncertain e \<and> ev_code e = ''RESOURCE_ACCOUNTING_UNCERTAIN''"
proof -
  obtain e where e: "gd_global_terminal g = Some e" "ev_uncertain e" using assms(2) by (auto simp: accounting_lost_def)
  then have "latched_event g s = Some e" by (simp add: latched_event_def)
  with event_visible(2) [OF assms(1) this] e show ?thesis by blast
qed

lemma lost_event: "guard_inv g \<Longrightarrow> latched_event g s = Some e \<Longrightarrow> ev_uncertain e \<Longrightarrow> accounting_lost g"
  using event_visible(3) unfolding accounting_lost_def by blast

lemma overridden_ok:
  assumes "args_ok publishing n (accounting_lost g) args" "guard_inv g" "latched_event g s = event"
  shows "args_ok publishing n (accounting_lost g) (overridden event args)"
    "pa_status (overridden event args) = SUCCEEDED \<Longrightarrow> event = None"
    "pa_outcome (overridden event args) = pa_outcome args" "pa_publications (overridden event args) = pa_publications args"
proof -
  have code: "is_TERMINAL_REASON ''RESOURCE_ACCOUNTING_UNCERTAIN''" by code_simp
  have e: "is_TERMINAL_REASON (ev_code e) \<and> (ev_uncertain e \<longrightarrow> accounting_lost g)" if "event = Some e" for e
    using event_visible(4) [OF assms(2), of s e] lost_event [OF assms(2), of s e] assms(3) that by simp
  show "args_ok publishing n (accounting_lost g) (overridden event args)"
  proof (cases event)
    case (Some v)
    have v: "is_TERMINAL_REASON (ev_code v)" "code_ok (ev_code v)" "ev_uncertain v \<Longrightarrow> accounting_lost g"
      using e [OF Some] code_ok_reason by blast+
    note a = assms(1) [unfolded args_ok_def]
    show ?thesis
    proof (cases "ev_uncertain v")
      case True
      then show ?thesis using a v(3) [OF True] code code_ok_reason [OF code]
        by (simp add: Some overridden_def args_ok_def)
    next
      case False
      show ?thesis
      proof (cases "pa_started_at args \<noteq> None \<and> pa_status args \<noteq> UNKNOWN")
        case True
        then show ?thesis using a v(1,2) False by (simp add: Some overridden_def args_ok_def)
      next
        case other: False
        then have status: "pa_status args \<noteq> SUCCEEDED" using a by auto
        show ?thesis
        proof (cases "pa_terminal_reason args = ''NOT_STARTED''")
          case True
          have "pa_status args = UNKNOWN \<Longrightarrow> \<not> stopped (pa_stop_proof args)" using a True by (simp split: if_splits)
          then show ?thesis using a v(1,2) False other status
            by (cases "pa_status args = UNKNOWN") (simp_all add: Some True overridden_def args_ok_def)
        qed (use assms(1) False other in \<open>auto simp: Some overridden_def\<close>)
      qed
    qed
  qed (use assms(1) in \<open>simp add: overridden_def\<close>)
  show "pa_status (overridden event args) = SUCCEEDED \<Longrightarrow> event = None"
    using assms(1) by (cases event) (auto simp: overridden_def args_ok_def split: if_splits)
  show "pa_outcome (overridden event args) = pa_outcome args" "pa_publications (overridden event args) = pa_publications args"
    by (auto simp: overridden_def split: option.splits)
qed

text \<open>The launch that the store holds is the one the controller runs.\<close>

definition launch_matches :: "'a host_env \<Rightarrow> runtime_store \<Rightarrow> bool" where
  "launch_matches he st \<longleftrightarrow> (let launch = st_launch st in
     st_launch_sha256 st = he_launch_sha256 he \<and> set (session_ids_of he) \<subseteq> set (st_sessions st) \<and>
     vget ''plan_sha256'' launch = PStr (he_plan_sha256 he) \<and> vget ''backend_sha256'' launch = PStr (he_backend_sha256 he) \<and>
     (\<forall>spec \<in> set (he_specs he). is_ID (ss_session_id spec) \<and> vget ''cohort_id'' launch = PStr (li_cohort_id spec) \<and>
        vget ''world_id'' launch = PStr (li_world_id spec) \<and> vget ''world_ref'' launch = PStr (li_world_ref spec) \<and>
        vget ''base_snapshot_ref'' launch = PStr (li_base_snapshot_ref spec) \<and>
        effective_tokens (ss_session_id spec) launch = opt_int (window_for_session (he_policy he) (ss_session_id spec))) \<and>
     vget ''backend_context_window_control'' launch = PStr (he_window_control he) \<and>
     he_publisher he = (vget ''mode'' (vget ''publication'' launch) \<noteq> PStr ''DISABLED'') \<and>
     kit_block_ok (he_kit he) launch \<and>
     (he_arm he = None \<longrightarrow> vget ''mode'' (vget ''agenda_arm'' launch) = PStr ''NOT_CONFIGURED''))"

lemma py_eq_opt_int: "py_eq (opt_int n) (opt_int n)"
  by (cases n) (simp_all add: opt_int_def)

lemma time_accepted: "time_ok t \<Longrightarrow> bounded_utc_timestamp (PStr t) = Inr True"
  by (auto simp: time_ok_def bounded_utc_timestamp_def encoded_length_def utf8_valid_ascii_text)

lemma status_member: "\<exists>s \<in> set TERMINAL_STATUSES. status_value st = s"
  by (cases st) (simp_all add: TERMINAL_STATUSES_def)

lemma started_accepted:
  assumes "pred_option time_ok t"
  shows "(if opt_text t = PNone then Inr False else rbind (bounded_utc_timestamp (opt_text t)) (\<lambda>b. Inr (\<not> b))) = Inr False"
  using assms time_accepted by (cases t) (simp_all add: opt_text_def)

lemma receipt_items_get [simp]:
  fixes he spec args now outcome guard usage kit arm
  defines "d \<equiv> receipt_items he spec args now outcome guard usage kit arm"
  shows "dget ''schema'' d = PStr RUNTIME_RECEIPT_SCHEMA" "dget ''launch_sha256'' d = PStr (he_launch_sha256 he)"
    "dget ''plan_sha256'' d = PStr (he_plan_sha256 he)" "dget ''cohort_id'' d = PStr (li_cohort_id spec)"
    "dget ''session_id'' d = PStr (ss_session_id spec)" "dget ''world_id'' d = PStr (li_world_id spec)"
    "dget ''world_ref'' d = PStr (li_world_ref spec)" "dget ''base_snapshot_ref'' d = PStr (li_base_snapshot_ref spec)"
    "dget ''backend_sha256'' d = PStr (he_backend_sha256 he)" "dget ''status'' d = PStr (status_value (pa_status args))"
    "dget ''terminal_reason'' d = PStr (pa_terminal_reason args)" "dget ''started_at'' d = opt_text (pa_started_at args)"
    "dget ''finished_at'' d = PStr now" "dget ''stop_proof'' d = opt_value stop_proof_to_value (pa_stop_proof args)"
    "dget ''outcome'' d = outcome" "dget ''publications'' d = PList (pa_publications args)" "dget ''error'' d = error_value args"
    "dget ''resource_guard'' d = guard" "dget ''usage'' d = usage" "dget ''verifier_kit'' d = kit" "dget ''agenda_arm'' d = arm"
    "dget ''context_window'' d = PDict
        [(''semantics'', PStr CONTEXT_WINDOW_SEMANTICS),
         (''configured_tokens'', opt_int (window_for_session (he_policy he) (ss_session_id spec))),
         (''backend_control'', PStr (he_window_control he)), (''strict_pre_http_input_gate'', PBool False)]"
    "set (keys d) = set RECEIPT_FIELDS"
  by (simp_all add: d_def receipt_items_def dget_def RECEIPT_FIELDS_def insert_commute)

lemma launch_matches_at:
  assumes "launch_matches he st" "spec \<in> set (he_specs he)"
  shows "st_launch_sha256 st = he_launch_sha256 he" "vget ''plan_sha256'' (st_launch st) = PStr (he_plan_sha256 he)"
    "vget ''backend_sha256'' (st_launch st) = PStr (he_backend_sha256 he)" "vget ''cohort_id'' (st_launch st) = PStr (li_cohort_id spec)"
    "vget ''world_id'' (st_launch st) = PStr (li_world_id spec)" "vget ''world_ref'' (st_launch st) = PStr (li_world_ref spec)"
    "vget ''base_snapshot_ref'' (st_launch st) = PStr (li_base_snapshot_ref spec)"
    "effective_tokens (ss_session_id spec) (st_launch st) = opt_int (window_for_session (he_policy he) (ss_session_id spec))"
    "vget ''backend_context_window_control'' (st_launch st) = PStr (he_window_control he)"
    "he_publisher he = (vget ''mode'' (vget ''publication'' (st_launch st)) \<noteq> PStr ''DISABLED'')"
    "kit_block_ok (he_kit he) (st_launch st)"
    "he_arm he = None \<Longrightarrow> vget ''mode'' (vget ''agenda_arm'' (st_launch st)) = PStr ''NOT_CONFIGURED''"
    "is_ID (ss_session_id spec)" "ss_session_id spec \<in> set (st_sessions st)"
  using assms unfolding launch_matches_def Let_def by (auto simp: session_ids_of_def)

lemma header_accepted:
  assumes m: "launch_matches he st" "spec \<in> set (he_specs he)"
    and "is_TERMINAL_REASON (pa_terminal_reason args)" "pred_option time_ok (pa_started_at args)" "time_ok now"
    and "length (pa_publications args) \<le> 64"
  shows "check_receipt_header (ss_session_id spec) st (receipt_items he spec args now outcome guard usage kit arm) = Inr ()"
proof -
  have status: "not_member TERMINAL_STATUSES (PStr (status_value (pa_status args))) = Inr False"
    using status_member [of "pa_status args"] by (simp add: not_member_False)
  show ?thesis
    unfolding check_receipt_header_def Let_def refuse_if_Inr receipt_items_get
    by (simp only: list_all_append list.map list.pred_inject append.simps receipt_items_get launch_matches_at(1-7) [OF m] status
        started_accepted [OF assms(4)] time_accepted [OF assms(5)] rbind_simps text_where_def pyval.case assms(3) items_of_simps)
      (use assms(6) in simp)
qed

lemma window_accepted:
  assumes m: "launch_matches he st" "spec \<in> set (he_specs he)"
  shows "check_context_window (ss_session_id spec) (st_launch st)
     (dget ''context_window'' (receipt_items he spec args now outcome guard usage kit arm)) = Inr ()"
  unfolding check_context_window_def refuse_if_Inr receipt_items_get
  by (simp add: launch_matches_at(8,9) [OF m] dget_def RECEIPT_CONTEXT_WINDOW_FIELDS_def has_fields_dict insert_commute py_eq_opt_int)

section \<open>The receipt\<close>

lemma stop_block_accepted:
  "pred_option stop_proof_ok p \<Longrightarrow> validate_stop_proof s (opt_value stop_proof_to_value p) = Inr (map_option sp_stopped p)"
  by (cases p, simp add: opt_value_def validate_stop_proof_def, simp add: opt_value_def stop_proof_accepted)

lemma outcome_block_accepted:
  assumes "pred_option backend_outcome_ok outcome" "\<And>x. matches_sha256 (sha256 x)"
  shows "\<exists>v. (case outcome of None \<Rightarrow> Inr PNone | Some o' \<Rightarrow> outcome_receipt_value sha256 o') = Inr v \<and>
    validate_receipt_outcome s v = Inr (map_option bo_success outcome) \<and>
    (case vget ''contribution_count'' v of PInt n \<Rightarrow> Some n | _ \<Rightarrow> None) = map_option (\<lambda>o'. int (length (bo_contributions o'))) outcome"
proof (cases outcome)
  case None
  then show ?thesis by (simp add: validate_receipt_outcome_def)
next
  case (Some o')
  then have "outcome_ok o'" using assms(1) by (simp add: backend_outcome_ok_def)
  then obtain v where "outcome_receipt_value sha256 o' = Inr v" "validate_receipt_outcome s v = Inr (Some (bo_success o'))"
    "vget ''contribution_count'' v = PInt (int (length (bo_contributions o')))"
    using outcome_accepted [of o' sha256 s] assms(2) by blast
  with Some show ?thesis by simp
qed

lemma status_value_inject [simp]:
  "status_value x = ''SUCCEEDED'' \<longleftrightarrow> x = SUCCEEDED" "status_value x = ''CANCELLED'' \<longleftrightarrow> x = CANCELLED"
  "status_value x = ''FAILED'' \<longleftrightarrow> x = FAILED" "status_value x = ''UNKNOWN'' \<longleftrightarrow> x = UNKNOWN"
  by (cases x; simp)+

lemma stopped_iff: "stopped p \<longleftrightarrow> map_option sp_stopped p = Some True"
  by (cases p) simp_all

lemma invariants_hold:
  assumes "args_ok publishing refused lost args" "lost \<longrightarrow> accounting"
  shows "\<not> terminal_invariants_broken
    \<lparr>rf_status = status_value (pa_status args), rf_terminal_reason = pa_terminal_reason args,
     rf_started = (pa_started_at args \<noteq> None), rf_stopped = map_option sp_stopped (pa_stop_proof args),
     rf_succeeded = map_option bo_success (pa_outcome args), rf_error = (error_value args \<noteq> PNone),
     rf_publications = length (pa_publications args),
     rf_contribution_count = map_option (\<lambda>o'. int (length (bo_contributions o'))) (pa_outcome args), rf_rejected = int refused,
     rf_accounting_unknown = accounting, rf_publishing = publishing\<rparr>"
proof -
  note a = assms(1) [unfolded args_ok_def]
  have error: "error_value args = PNone" if "pa_status args = SUCCEEDED" using a that by (simp add: error_value_def)
  have size: "length (pa_publications args) + refused \<le> contributed (pa_outcome args)" using a by blast
  have success: "\<exists>o'. pa_outcome args = Some o' \<and> bo_success o' \<and> length (pa_publications args) + refused = length (bo_contributions o') \<and>
      (\<not> publishing \<longrightarrow> bo_contributions o' = [])" if "pa_status args = SUCCEEDED"
    using a that by blast
  have proofs: "pa_status args = SUCCEEDED \<or> pa_status args = CANCELLED \<Longrightarrow> stopped (pa_stop_proof args)"
    "pa_status args = FAILED \<Longrightarrow> pa_stop_proof args = None \<or> stopped (pa_stop_proof args)"
    "pa_started_at args \<noteq> None \<and> pa_status args \<noteq> UNKNOWN \<Longrightarrow> stopped (pa_stop_proof args)"
    "pa_status args = UNKNOWN \<and> stopped (pa_stop_proof args) \<Longrightarrow> pa_terminal_reason args = ''RESOURCE_ACCOUNTING_UNCERTAIN'' \<and> accounting"
    "\<not> publishing \<Longrightarrow> pa_publications args = []"
    using a assms(2) by blast+
  show ?thesis
    using proofs error size success
    unfolding terminal_invariants_broken_def receipt_facts.select_convs status_value_inject
    by (cases "pa_status args"; cases "pa_outcome args"; cases "pa_stop_proof args"; cases "pa_started_at args"; simp; (linarith | blast)?)
qed

lemma receipt_accepted:
  assumes matches: "launch_matches he st" "spec \<in> set (he_specs he)"
    and guard: "guard_inv (co_guard c)" "set (gd_session_ids (co_guard c)) = set (session_ids_of he)"
    and args: "args_ok (he_publisher he) refused (accounting_lost (co_guard c)) args" and now: "time_ok now"
    and sha: "\<And>x. matches_sha256 (he_sha256 he x)"
    and arm: "arm_evidence he spec (co_arm c) = Inr (a, v)"
    and refused: "\<And>n. validate_agenda_arm_evidence (ss_session_id spec) (st_launch st) v = Inr n \<Longrightarrow> n = int refused"
  shows "\<exists>receipt. persist_receipt he ledger now spec args c = Inr (receipt, a) \<and>
    validate_receipt_value (ss_session_id spec) st receipt =
      rbind (validate_agenda_arm_evidence (ss_session_id spec) (st_launch st) v) (\<lambda>_. Inr ()) \<and>
    dget ''status'' receipt = PStr (status_value (pa_status args)) \<and> dget ''agenda_arm'' receipt = v"
proof -
  let ?s = "ss_session_id spec" and ?g = "co_guard c"
  note a = args [unfolded args_ok_def]
  have ids: "?s \<in> set (gd_session_ids ?g)" "\<forall>t \<in> set (gd_session_ids ?g). is_ID t"
    using guard(2) matches launch_matches_at(13) by (auto simp: session_ids_of_def)
  have oks: "pred_option backend_outcome_ok (pa_outcome args)" "pred_option stop_proof_ok (pa_stop_proof args)"
    "pred_option error_ok (pa_error args)" "pred_option code_ok (pa_error_code args)" "is_TERMINAL_REASON (pa_terminal_reason args)"
    "pred_option time_ok (pa_started_at args)" "length (pa_publications args) + refused \<le> contributed (pa_outcome args)"
    using a by blast+
  have small: "length (pa_publications args) \<le> 64"
    using oks(1,7) by (cases "pa_outcome args") (auto simp: backend_outcome_ok_def outcome_ok_def MAXIMUM_CONTRIBUTIONS_def)
  obtain outcome where outcome: "(case pa_outcome args of None \<Rightarrow> Inr PNone | Some o' \<Rightarrow> outcome_receipt_value (he_sha256 he) o') = Inr outcome"
    "validate_receipt_outcome ?s outcome = Inr (map_option bo_success (pa_outcome args))"
    "(case vget ''contribution_count'' outcome of PInt n \<Rightarrow> Some n | _ \<Rightarrow> None) =
       map_option (\<lambda>o'. int (length (bo_contributions o'))) (pa_outcome args)"
    using outcome_block_accepted [OF oks(1)] sha by blast
  obtain guard_value where g: "guard_evidence ?g ?s = Inr guard_value" "validate_resource_guard ?s guard_value = Inr ()"
    "vget ''terminal_event'' guard_value = opt_value resource_event_to_value (latched_event ?g ?s)"
    using guard_evidence_accepted [OF guard(1) ids] by blast
  obtain usage where usage: "usage_block (pa_outcome args) = Inr usage" "usage_evidence_value_is_valid usage = Inr True"
    using usage_accepted [OF oks(1)] by blast
  let ?kit = "verifier_kit_evidence (he_kit he) ledger"
  let ?d = "receipt_items he spec args now outcome guard_value usage ?kit v"
  let ?event = "opt_value resource_event_to_value (latched_event ?g ?s)"
  have persist: "persist_receipt he ledger now spec args c = Inr (?d, a)"
    unfolding persist_receipt_def Let_def outcome(1) g(1) usage(1) arm rbind_simps by simp
  have lost: "accounting_lost ?g \<longrightarrow> vget ''code'' ?event = PStr ''RESOURCE_ACCOUNTING_UNCERTAIN'' \<and> vget ''uncertain'' ?event = PBool True"
    using accounting_lost_event [OF guard(1), of ?s] by (auto simp: opt_value_def resource_event_to_value_def dget_def)
  have started: "opt_text (pa_started_at args) \<noteq> PNone \<longleftrightarrow> pa_started_at args \<noteq> None"
    by (cases "pa_started_at args") (simp_all add: opt_text_def)
  have facts: "\<not> terminal_invariants_broken (facts_of (st_launch st) ?d (map_option sp_stopped (pa_stop_proof args))
      (map_option bo_success (pa_outcome args)) (int refused))"
    using invariants_hold [OF args lost]
    unfolding facts_of_def Let_def receipt_items_get text_of_def pyval.case g(3) outcome(3) started items_of_simps
      launch_matches_at(10) [OF matches, symmetric] .
  have "validate_receipt_value ?s st ?d = rbind (validate_agenda_arm_evidence ?s (st_launch st) v) (\<lambda>_. Inr ())"
    unfolding validate_receipt_value_def Let_def header_accepted [OF matches oks(5,6) now small] rbind_simps receipt_items_get(14-21)
      stop_block_accepted [OF oks(2)] outcome(2) error_accepted [OF oks(3,4)] g(2) usage(2)
      verifier_kit_evidence_accepted [OF launch_matches_at(11) [OF matches]]
    using facts refused window_accepted [OF matches, of args now outcome guard_value usage ?kit v]
    by (cases "validate_agenda_arm_evidence ?s (st_launch st) v") simp_all
  with persist show ?thesis by simp
qed

end
