(* ===== verification/Host_Control.thy ===== *)
theory Host_Control
  imports Receipt_Accepted
begin

text \<open>
  The control of one session: the arguments of every \<open>_persist\<close> satisfy \<open>args_ok\<close>, and every step of \<open>run_one\<close> takes
  a session from an admissible control to another and declares the cohort unsafe only when the session will
  end as unknown or the accounting is lost.
\<close>

section \<open>What is true of the control of a session\<close>

definition event_fine :: "bool \<Rightarrow> resource_event option \<Rightarrow> bool" where
  "event_fine lost event \<longleftrightarrow> pred_option (\<lambda>e. is_TERMINAL_REASON (ev_code e) \<and>
     (ev_uncertain e \<longrightarrow> lost \<and> ev_code e = ''RESOURCE_ACCOUNTING_UNCERTAIN'')) event"

definition purpose_ok :: "bool \<Rightarrow> stop_purpose \<Rightarrow> bool" where
  "purpose_ok lost p \<longleftrightarrow> (case p of
      Early_Stop event \<Rightarrow> event_fine lost event
    | Wait_Failed e \<Rightarrow> error_ok e
    | Completed o' \<Rightarrow> backend_outcome_ok o'
    | Interrupted event wall \<Rightarrow> event_fine lost event
    | Host_Failed e \<Rightarrow> error_ok e)"

definition completed_ok :: "string \<Rightarrow> backend_outcome \<Rightarrow> stop_proof \<Rightarrow> bool" where
  "completed_ok t o' p \<longleftrightarrow> time_ok t \<and> backend_outcome_ok o' \<and> stop_proof_ok p \<and> sp_stopped p"

definition control_ok :: "bool \<Rightarrow> bool \<Rightarrow> nat \<Rightarrow> session_control \<Rightarrow> bool" where
  "control_ok publishing lost refused k \<longleftrightarrow> (case k of
      Awaiting_Outcome t \<Rightarrow> time_ok t \<and> refused = 0
    | Stopping t p \<Rightarrow> time_ok t \<and> purpose_ok lost p \<and> refused = 0
    | Draining t event wall p \<Rightarrow> time_ok t \<and> event_fine lost event \<and> stop_proof_ok p \<and> sp_stopped p \<and> refused = 0
    | Measuring t o' p \<Rightarrow> completed_ok t o' p \<and> refused = 0
    | Publishing t o' p xs ys \<Rightarrow> completed_ok t o' p \<and> bo_success o' \<and> publishing \<and> set xs \<subseteq> set (bo_contributions o') \<and>
        length xs + length ys + refused = length (bo_contributions o')
    | Publisher_Called t o' p x xs ys \<Rightarrow> completed_ok t o' p \<and> bo_success o' \<and> publishing \<and>
        set (x # xs) \<subseteq> set (bo_contributions o') \<and> Suc (length xs + length ys + refused) = length (bo_contributions o')
    | Persisting handling args \<Rightarrow> args_ok publishing refused lost args
    | Persisted \<Rightarrow> True
    | Crashed \<Rightarrow> False
    | _ \<Rightarrow> refused = 0)"

lemma control_ok_simps [simp]:
  "control_ok b l n Unstarted = (n = 0)" "control_ok b l n Awaiting_Activation = (n = 0)" "control_ok b l n Awaiting_Start = (n = 0)"
  "control_ok b l n (Awaiting_Outcome t) = (time_ok t \<and> n = 0)"
  "control_ok b l n (Stopping t p) = (time_ok t \<and> purpose_ok l p \<and> n = 0)"
  "control_ok b l n (Draining t event wall q) = (time_ok t \<and> event_fine l event \<and> stop_proof_ok q \<and> sp_stopped q \<and> n = 0)"
  "control_ok b l n (Measuring t o' q) = (completed_ok t o' q \<and> n = 0)"
  "control_ok b l n (Publishing t o' q xs ys) = (completed_ok t o' q \<and> bo_success o' \<and> b \<and> set xs \<subseteq> set (bo_contributions o') \<and>
     length xs + length ys + n = length (bo_contributions o'))"
  "control_ok b l n (Publisher_Called t o' q x xs ys) = (completed_ok t o' q \<and> bo_success o' \<and> b \<and>
     set (x # xs) \<subseteq> set (bo_contributions o') \<and> Suc (length xs + length ys + n) = length (bo_contributions o'))"
  "control_ok b l n (Persisting h args) = args_ok b n l args" "control_ok b l n Persisted" "\<not> control_ok b l n Crashed"
  by (simp_all add: control_ok_def)

lemma args_ok_mono: "args_ok b n l args \<Longrightarrow> (l \<longrightarrow> l') \<Longrightarrow> args_ok b n l' args"
  unfolding args_ok_def by blast

lemma event_fine_mono: "event_fine l e \<Longrightarrow> (l \<longrightarrow> l') \<Longrightarrow> event_fine l' e"
  by (cases e) (auto simp: event_fine_def)

lemma control_ok_mono: "control_ok b l n k \<Longrightarrow> (l \<longrightarrow> l') \<Longrightarrow> control_ok b l' n k"
proof (cases k)
  case (Stopping t p)
  assume "control_ok b l n k" "l \<longrightarrow> l'"
  with Stopping event_fine_mono show ?thesis by (cases p) (auto simp: purpose_ok_def)
next
  case (Draining t e w p)
  assume "control_ok b l n k" "l \<longrightarrow> l'"
  with Draining event_fine_mono show ?thesis by auto
next
  case (Persisting h args)
  assume "control_ok b l n k" "l \<longrightarrow> l'"
  with Persisting args_ok_mono show ?thesis by auto
qed (simp_all add: control_ok_def)

section \<open>The arguments of each call of \<open>_persist\<close>\<close>

lemma reasons:
  "list_all is_TERMINAL_REASON [''NOT_STARTED'', ''STOP_UNPROVEN'', ''HOST_SESSION_FAILED'', ''BACKEND_START_FAILED'',
     ''BACKEND_IDENTITY_DRIFT'', ''BACKEND_START_UNPROVEN'', ''RESOURCE_ACCOUNTING_UNCERTAIN'', ''SESSION_WALL_LIMIT'', ''COHORT_STOP'',
     ''COHORT_CANCELLED'', ''BACKEND_WAIT_FAILED'', ''PMW_PUBLISH_FAILED'', ''PMW_PUBLISH_UNAVAILABLE'', ''BACKEND_HANDLE_INVALID'',
     ''PUBLICATION_IDENTITY_DRIFT'', ''AGENDA_ARM_DECISION_INVALID'']"
  by code_simp

lemma reason_codes [simp]:
  "is_TERMINAL_REASON ''STOP_UNPROVEN''" "is_TERMINAL_REASON ''HOST_SESSION_FAILED''" "is_TERMINAL_REASON ''BACKEND_START_FAILED''"
  "is_TERMINAL_REASON ''BACKEND_IDENTITY_DRIFT''" "is_TERMINAL_REASON ''BACKEND_START_UNPROVEN''"
  "is_TERMINAL_REASON ''RESOURCE_ACCOUNTING_UNCERTAIN''" "is_TERMINAL_REASON ''SESSION_WALL_LIMIT''"
  "is_TERMINAL_REASON ''COHORT_STOP''" "is_TERMINAL_REASON ''COHORT_CANCELLED''" "is_TERMINAL_REASON ''BACKEND_WAIT_FAILED''"
  "is_TERMINAL_REASON ''PMW_PUBLISH_FAILED''" "is_TERMINAL_REASON ''PMW_PUBLISH_UNAVAILABLE''" "is_TERMINAL_REASON ''NOT_STARTED''"
  "is_TERMINAL_REASON ''BACKEND_HANDLE_INVALID''" "is_TERMINAL_REASON ''PUBLICATION_IDENTITY_DRIFT''"
  "is_TERMINAL_REASON ''AGENDA_ARM_DECISION_INVALID''"
  using reasons by simp_all

lemma code_ok_codes [simp]: "is_TERMINAL_REASON c \<Longrightarrow> code_ok c"
  by (rule code_ok_reason)

lemma code_ascii: "code_ok c \<Longrightarrow> ascii c"
  by (simp add: code_ok_def)

lemma orchestration_error_ok: "is_TERMINAL_REASON c \<Longrightarrow> error_ok (orchestration_error c)"
proof -
  assume "is_TERMINAL_REASON c"
  moreover have "ascii ''pmw_platform.runtime.orchestrator.RuntimeOrchestrationError''" by code_simp
  ultimately show ?thesis using reason_ascii by (simp add: error_ok_def orchestration_error_def)
qed

lemma publication_error_ok: "code_ok c \<Longrightarrow> error_ok (publication_error c)"
proof -
  have "ascii ''pmw_platform.runtime.orchestrator.RuntimePublicationError''" by code_simp
  then show "code_ok c \<Longrightarrow> error_ok (publication_error c)" by (simp add: error_ok_def publication_error_def code_ok_def)
qed

lemma timeout_error_ok: "error_ok timeout_error"
proof -
  have "ascii ''builtins.TimeoutError''" by code_simp
  then show ?thesis by (simp add: error_ok_def timeout_error_def)
qed

lemma stop_proof_oks:
  "stop_proof_ok not_started_proof" "ascii name \<Longrightarrow> stop_proof_ok (unproven (safe_type name))"
  "ascii name \<Longrightarrow> stop_proof_ok (unproven (''invalid stop proof type: '' @ safe_type name))"
proof -
  have empty: "utf8_valid []" by code_simp
  then show "stop_proof_ok not_started_proof" by (simp add: stop_proof_ok_def not_started_proof_def)
  have prefix: "ascii ''invalid stop proof type: ''" by code_simp
  have s: "ascii (take 512 name)" if "ascii name"
    using that set_take_subset [of 512 name] unfolding ascii_def list_all_iff by blast
  { assume n: "ascii name"
    from s [OF n] show "stop_proof_ok (unproven (safe_type name))"
      by (simp add: stop_proof_ok_def unproven_def safe_type_def ascii_cp_take [OF n] utf8_valid_ascii_text MAXIMUM_STOP_DETAIL_BYTES_def)
    have "ascii (''invalid stop proof type: '' @ take 512 name)" using s [OF n] prefix unfolding ascii_def list_all_append by blast
    then show "stop_proof_ok (unproven (''invalid stop proof type: '' @ safe_type name))"
      using utf8_valid_ascii_text [of "''invalid stop proof type: '' @ take 512 name"]
      by (simp add: stop_proof_ok_def unproven_def safe_type_def ascii_cp_take [OF n] MAXIMUM_STOP_DETAIL_BYTES_def) }
qed

lemma stop_session_ok: "stop_answer_ok a \<Longrightarrow> stop_proof_ok (stop_session a)"
  by (cases a) (simp_all only: stop_answer_ok.simps stop_session.simps stop_proof_oks)

lemma not_started_proof_stopped [simp]: "sp_stopped not_started_proof"
  by (simp add: not_started_proof_def)

definition start_answer_ok :: "start_answer \<Rightarrow> bool" where
  "start_answer_ok answer \<longleftrightarrow> pred_option error_ok (fst (snd answer)) \<and> pred_option stop_proof_ok (snd (snd answer))"

lemma accept_result_ok:
  assumes "start_result_ok r" "stop_answer_ok a"
  shows "start_answer_ok (accept_result r j a)"
  using assms by (cases r) (auto simp: accept_result_def start_answer_ok_def orchestration_error_ok stop_session_ok)

lemma cancel_and_join_ok:
  assumes "start_result_ok r" "stop_answer_ok a" "stop_answer_ok b" "error_ok e"
  shows "start_answer_ok (cancel_and_join r j a b e)"
  using accept_result_ok [OF assms(1,2), of j] assms(3,4) stop_session_ok
  by (auto simp: cancel_and_join_def start_answer_ok_def split: prod.splits option.splits)

lemma start_session_ok:
  assumes "start_result_ok r" "stop_answer_ok a" "stop_answer_ok b" "event_fine lost event"
  shows "start_answer_ok (start_session event i w r j a b)"
proof -
  have "error_ok (orchestration_error (case event of Some e \<Rightarrow> ev_code e | None \<Rightarrow> ''COHORT_STOP''))"
    using assms(4) by (cases event) (auto simp: event_fine_def orchestration_error_ok)
  with accept_result_ok [OF assms(1,2)] cancel_and_join_ok [OF assms(1-3)] timeout_error_ok show ?thesis
    by (auto simp: start_session_def start_answer_ok_def [of "(False, _)"] orchestration_error_ok stop_proof_oks split: start_wait.splits)
qed

lemma event_fine_simps [simp]: "event_fine l None"
  "event_fine l (Some e) \<longleftrightarrow> is_TERMINAL_REASON (ev_code e) \<and> (ev_uncertain e \<longrightarrow> l \<and> ev_code e = ''RESOURCE_ACCOUNTING_UNCERTAIN'')"
  by (simp_all add: event_fine_def)

lemma proof_ok_simps: "pred_option stop_proof_ok (Some p) = stop_proof_ok p" by simp

lemma resource_status_ok:
  assumes "event_fine l (Some e)"
  shows "fst (resource_status e p) \<noteq> SUCCEEDED \<and> fst (resource_status e p) \<noteq> CANCELLED \<and>
    is_TERMINAL_REASON (snd (resource_status e p)) \<and>
    (fst (resource_status e p) = FAILED \<longrightarrow> p = None \<or> stopped p) \<and>
    (fst (resource_status e p) = UNKNOWN \<and> stopped p \<longrightarrow> snd (resource_status e p) = ''RESOURCE_ACCOUNTING_UNCERTAIN'' \<and> l) \<and>
    (p \<noteq> None \<and> \<not> stopped p \<longrightarrow> fst (resource_status e p) = UNKNOWN)"
  using assms by (cases p) (auto simp: resource_status_def)

lemma args_ok_failed:
  assumes "pa_status args \<noteq> SUCCEEDED" "is_TERMINAL_REASON (pa_terminal_reason args)" "pred_option time_ok (pa_started_at args)"
    and "pred_option backend_outcome_ok (pa_outcome args)" "pred_option stop_proof_ok (pa_stop_proof args)"
    and "pred_option error_ok (pa_error args)" "pred_option code_ok (pa_error_code args)"
    and "pa_status args = CANCELLED \<Longrightarrow> stopped (pa_stop_proof args)"
    and "pa_status args = FAILED \<Longrightarrow> pa_started_at args = None \<and> pa_stop_proof args = None \<or> stopped (pa_stop_proof args)"
    and "pa_status args = UNKNOWN \<Longrightarrow> stopped (pa_stop_proof args) \<Longrightarrow> pa_terminal_reason args = ''RESOURCE_ACCOUNTING_UNCERTAIN'' \<and> l"
    and "\<not> b \<Longrightarrow> pa_publications args = []" "length (pa_publications args) + n \<le> contributed (pa_outcome args)"
  shows "args_ok b n l args"
proof -
  have "pa_started_at args \<noteq> None \<and> pa_status args \<noteq> UNKNOWN \<longrightarrow> stopped (pa_stop_proof args)"
    using assms(1,8,9) by (cases "pa_status args") auto
  then show ?thesis using assms unfolding args_ok_def by blast
qed

lemma not_started_ok: "args_ok b 0 l not_started_args"
  by (rule args_ok_failed) (simp_all add: not_started_args_def simple_args_def stop_proof_oks)

lemma host_failure_ok:
  assumes "error_ok e" "pred_option time_ok t" "pred_option stop_proof_ok p" "t \<noteq> None \<Longrightarrow> p \<noteq> None"
  shows "args_ok b 0 l (host_failure_args t p e)"
  using assms
  by (cases p; cases t; intro args_ok_failed) (auto simp: host_failure_args_def Let_def split: if_splits)

lemma event_args_ok:
  assumes "event_fine l (Some e)" "pred_option time_ok t" "stop_proof_ok p" "resource_status e (Some p) = (status, reason)"
  shows "args_ok b 0 l (simple_args status reason t (Some p) (Some (ev_code e)))"
  using assms(2,3) resource_status_ok [OF assms(1), of "Some p"] assms(1,4)
  by (intro args_ok_failed) (auto simp: simple_args_def)

lemma early_stop_ok:
  assumes "event_fine l event" "time_ok t" "stop_proof_ok p"
  shows "args_ok b 0 l (early_stop_args t event p)"
proof (cases event)
  case None
  show ?thesis using assms(2,3) by (intro args_ok_failed) (auto simp: None early_stop_args_def simple_args_def event_code_def split: if_splits)
next
  case (Some e)
  obtain status reason where r: "resource_status e (Some p) = (status, reason)" by (cases "resource_status e (Some p)")
  from event_args_ok [OF assms(1) [unfolded Some] _ assms(3) r, of "Some t"] assms(2) r show ?thesis
    by (simp add: Some early_stop_args_def event_code_def)
qed

lemma wait_failed_ok:
  assumes "error_ok e" "time_ok t" "stop_proof_ok p"
  shows "args_ok b 0 l (wait_failed_args t e p)"
  using assms by (intro args_ok_failed) (auto simp: wait_failed_args_def simple_args_def split: if_splits)

lemma with_outcome_ok:
  assumes "args_ok b 0 l args" "backend_outcome_ok o'" "pa_status args \<noteq> SUCCEEDED" "pa_publications args = []"
  shows "args_ok b 0 l (with_outcome o' args)"
  using assms unfolding args_ok_def with_outcome_def by simp

lemma interrupted_ok:
  assumes "event_fine l event" "time_ok t" "stop_proof_ok p" "pred_option backend_outcome_ok outcome"
  shows "args_ok b 0 l (interrupted_args t event wall p outcome)"
proof (cases event)
  case None
  show ?thesis using assms(2-4)
    by (intro args_ok_failed) (auto simp: None interrupted_args_def stop_reason_def split: if_splits)
next
  case (Some e)
  obtain status reason where r: "resource_status e (Some p) = (status, reason)" by (cases "resource_status e (Some p)")
  show ?thesis using assms(2-4) resource_status_ok [OF assms(1) [unfolded Some], of "Some p"] assms(1) r
    by (intro args_ok_failed) (auto simp: Some interrupted_args_def)
qed

lemma start_failure_ok:
  assumes "event_fine l event" "pred_option error_ok e" "pred_option stop_proof_ok p"
  shows "args_ok b 0 l (start_failure_args stop_new event e p)"
    "\<not> stopped p \<Longrightarrow> pa_status (start_failure_args stop_new event e p) = UNKNOWN"
proof -
  let ?code = "case event of Some v \<Rightarrow> ev_code v
    | None \<Rightarrow> (case e of Some x \<Rightarrow> error_code x ''BACKEND_START_FAILED'' | None \<Rightarrow> ''BACKEND_START_FAILED'')"
  have code: "code_ok ?code"
    using assms(1,2) error_code_ok by (auto split: option.splits)
  have proven: "(case p of None \<Rightarrow> False | Some q \<Rightarrow> sp_stopped q) = stopped p" by (cases p) simp_all
  show "\<not> stopped p \<Longrightarrow> pa_status (start_failure_args stop_new event e p) = UNKNOWN"
    by (cases event) (auto simp: start_failure_args_def proven Let_def)
  show "args_ok b 0 l (start_failure_args stop_new event e p)"
  proof (cases event)
    case None
    show ?thesis
    proof (rule args_ok_failed)
      show "pred_option code_ok (pa_error_code (start_failure_args stop_new event e p))"
        using code by (simp add: start_failure_args_def proven Let_def split: prod.splits)
    qed (use assms in \<open>auto simp: None start_failure_args_def proven Let_def split: if_splits\<close>)
  next
    case (Some v)
    show ?thesis
    proof (rule args_ok_failed)
      show "pred_option code_ok (pa_error_code (start_failure_args stop_new event e p))"
        using code by (simp add: start_failure_args_def proven Let_def split: prod.splits)
    qed (use assms in \<open>auto simp: Some start_failure_args_def proven Let_def split: if_splits\<close>)
  qed
qed

lemma publish_failed_ok:
  assumes "completed_ok t o' p" "error_ok e" "b" "length ys + n \<le> length (bo_contributions o')"
  shows "args_ok b n l (publish_failed_args t o' p e ys)"
  using assms error_code_ok [of e "''PMW_PUBLISH_FAILED''"]
  by (intro args_ok_failed) (auto simp: publish_failed_args_def completed_ok_def)

lemma publish_unavailable_ok:
  assumes "completed_ok t o' p"
  shows "args_ok b 0 l (publish_failed_args t o' p (orchestration_error ''PMW_PUBLISH_UNAVAILABLE'') [])"
  using assms orchestration_error_ok [of "''PMW_PUBLISH_UNAVAILABLE''"]
    error_code_ok [of "orchestration_error ''PMW_PUBLISH_UNAVAILABLE''" "''PMW_PUBLISH_FAILED''"]
  by (intro args_ok_failed) (auto simp: publish_failed_args_def completed_ok_def)

lemma publish_raises_ok:
  assumes "completed_ok t o' p" "error_ok e" "b" "length ys + n \<le> length (bo_contributions o')"
  shows "control_ok b l n (publish_raises t o' p e ys)"
proof -
  have "error_ok (publication_error (error_code e ''PMW_PUBLISH_FAILED''))"
    using error_code_ok [OF assms(2)] publication_error_ok by simp
  with assms show ?thesis by (simp add: publish_raises_def publish_failed_ok)
qed

lemma published_ok:
  assumes "completed_ok t o' p" "bo_success o'" "length ys + n = length (bo_contributions o')" "b \<or> bo_contributions o' = []"
  shows "args_ok b n l (published_args t o' p ys)"
  using assms by (auto simp: args_ok_def published_args_def completed_ok_def backend_outcome_ok_def outcome_ok_def)

section \<open>Moves of one session\<close>

definition same_store :: "runtime_store \<Rightarrow> runtime_store \<Rightarrow> bool" where
  "same_store st st' \<longleftrightarrow> st_launch st' = st_launch st \<and> st_launch_sha256 st' = st_launch_sha256 st \<and>
     st_sessions st' = st_sessions st \<and> st_receipts st' = st_receipts st"

lemma same_store_refl [simp]: "same_store st st"
  by (simp add: same_store_def)

lemma write_state_same: "write_state disk s d st = (r, st') \<Longrightarrow> same_store st st'"
  by (auto simp: write_state_def same_store_def split: sum.splits if_splits)

definition host_frame :: "string \<Rightarrow> 'a controller \<Rightarrow> 'a controller \<Rightarrow> bool" where
  "host_frame s c c' \<longleftrightarrow> co_guard c' = co_guard c \<and> co_receipts c' = co_receipts c \<and> same_store (co_store c) (co_store c') \<and>
     co_store_failed c' = co_store_failed c \<and> co_cursor c' = co_cursor c \<and> co_idle c' = co_idle c \<and> co_missing c' = co_missing c \<and>
     (\<forall>t. t \<noteq> s \<longrightarrow> co_control c' t = co_control c t)"

definition will_be_unknown :: "session_control \<Rightarrow> bool" where
  "will_be_unknown k \<longleftrightarrow> (\<exists>h args. k = Persisting h args \<and> pa_status args = UNKNOWN)"

text \<open>A step of one session that does not end it, and that declares the cohort unsafe only for a reason.\<close>

definition moves :: "'a host_env \<Rightarrow> string \<Rightarrow> (string \<Rightarrow> 'a \<Rightarrow> nat) \<Rightarrow> 'a controller \<Rightarrow> 'a controller \<Rightarrow> bool" where
  "moves he s refusals c c' \<longleftrightarrow> host_frame s c c' \<and>
     control_ok (he_publisher he) (accounting_lost (co_guard c)) (refusals s (co_arm c')) (co_control c' s) \<and>
     active (co_control c' s) \<and>
     (co_unsafe c' \<longrightarrow> co_unsafe c \<or> accounting_lost (co_guard c) \<or> will_be_unknown (co_control c' s))"

lemma active_simps [simp]:
  "active Awaiting_Activation" "active Awaiting_Start" "active (Awaiting_Outcome t)" "active (Stopping t p)" "active (Draining t e w q)"
  "active (Measuring t o' q)" "active (Publishing t o' q xs ys)" "active (Publisher_Called t o' q x xs ys)" "active (Persisting h args)"
  "\<not> active Unstarted" "\<not> active Persisted" "\<not> active Crashed"
  by (simp_all add: active_def)

lemma become_simps [simp]:
  "co_guard (become s k c) = co_guard c" "co_arm (become s k c) = co_arm c" "co_unsafe (become s k c) = co_unsafe c"
  "co_control (become s k c) s = k" "host_frame s d (become s k c) = host_frame s d c" "co_stop_new (become s k c) = co_stop_new c"
  by (auto simp: become_def host_frame_def)

lemma host_frame_refl [simp]: "host_frame s c c"
  by (simp add: host_frame_def)

lemma host_frame_trans: "host_frame s c d \<Longrightarrow> host_frame s d e \<Longrightarrow> host_frame s c e"
  by (simp add: host_frame_def same_store_def)

lemma transition_frame:
  assumes "transition he disk now s state reason c = (r, c')"
  shows "host_frame s c c'" "co_arm c' = co_arm c" "co_unsafe c' = co_unsafe c" "co_stop_new c' = co_stop_new c"
    "co_guard c' = co_guard c" "co_control c' = co_control c" "co_receipts c' = co_receipts c"
  using assms write_state_same
  by (auto simp: transition_def host_frame_def Let_def split: prod.splits)

lemma observe_event_frame [simp]:
  "host_frame s d (observe_resource_event event c) = host_frame s d c" "co_arm (observe_resource_event event c) = co_arm c"
  "co_guard (observe_resource_event event c) = co_guard c" "co_store (observe_resource_event event c) = co_store c"
  "co_receipts (observe_resource_event event c) = co_receipts c" "co_control (observe_resource_event event c) = co_control c"
  by (auto simp: observe_resource_event_def host_frame_def split: option.splits)

lemma host_frame_flags [simp]: "host_frame s d (c\<lparr>co_unsafe := x, co_stop_new := y\<rparr>) = host_frame s d c"
  by (simp add: host_frame_def)

lemma observe_event_unsafe: "event_fine l event \<Longrightarrow> co_unsafe (observe_resource_event event c) \<Longrightarrow> co_unsafe c \<or> l"
  by (cases event) (auto simp: observe_resource_event_def split: if_splits)

lemma mark_unproven_frame [simp]:
  "host_frame s d (mark_unproven p c) = host_frame s d c" "co_arm (mark_unproven p c) = co_arm c" "co_guard (mark_unproven p c) = co_guard c"
  by (auto simp: mark_unproven_def host_frame_def)

lemma mark_unproven_unsafe: "co_unsafe (mark_unproven p c) \<longleftrightarrow> co_unsafe c \<or> \<not> sp_stopped p"
  by (simp add: mark_unproven_def)

lemma latched_fine:
  assumes "guard_inv g" "latched_event g s = event"
  shows "event_fine (accounting_lost g) event"
  using assms event_visible(2,4) [OF assms(1), of s] lost_event [OF assms(1), of s] by (cases event) auto

lemma delivered_fine:
  assumes "guard_inv (co_guard c)" "delivered event s c"
  shows "event_fine (accounting_lost (co_guard c)) event"
proof (cases event)
  case (Some e)
  have "gd_global_terminal (co_guard c) = Some e \<or> gd_session_terminal (co_guard c) s = Some e"
    using assms(2) by (simp add: delivered_def Some)
  then show ?thesis
  proof
    assume "gd_global_terminal (co_guard c) = Some e"
    then have "latched_event (co_guard c) s = Some e" by (simp add: latched_event_def)
    with latched_fine [OF assms(1)] Some show ?thesis by blast
  next
    assume t: "gd_session_terminal (co_guard c) s = Some e"
    have "event_ok (set (gd_session_ids (co_guard c))) e" "ev_scope e = Session_Scope"
      using assms(1) t by (auto simp: guard_inv_def)
    then show ?thesis by (simp add: Some event_ok_def) metis
  qed
qed simp

section \<open>The steps of \<open>run_one\<close>\<close>

lemma host_failed_moves:
  assumes "host_frame s c d" "error_ok e" "pred_option time_ok handle" "refusals s (co_arm d) = 0"
    and "co_unsafe d \<Longrightarrow> co_unsafe c \<or> accounting_lost (co_guard c)"
  shows "moves he s refusals c (host_failed handle e s d)"
  using assms host_failure_ok [OF assms(2), of None None]
  by (cases handle) (auto simp: host_failed_def moves_def purpose_ok_def)

lemma prepare_moves:
  assumes "error_ok e" "pred_option error_ok e'" "time_ok now" "refusals s (co_arm c) = 0"
  shows "moves he s refusals c (prepare_session he disk now e e' s c)"
proof -
  obtain r d where t: "transition he disk now s ''PREPARING'' ''INPUT_MATERIALIZATION'' c = (r, d)" by force
  note f = transition_frame [OF t]
  have "moves he s refusals c (host_failed None x s d)" if "error_ok x" for x
    using host_failed_moves [OF f(1) that] f(2,3) assms(4) by simp
  with t f assms show ?thesis
    by (auto simp: prepare_session_def moves_def [of _ _ _ _ "become _ _ _"] split: sum.splits option.splits)
qed

lemma activated_moves:
  assumes "guard_inv (co_guard c)" "error_ok e" "time_ok now" "refusals s (co_arm c) = 0"
  shows "moves he s refusals c (session_activated he disk now e s c)"
proof (cases "latched_event (co_guard c) s")
  case (Some v)
  let ?l = "accounting_lost (co_guard c)"
  have fine: "event_fine ?l (Some v)" using latched_fine [OF assms(1) Some] .
  obtain status reason where r: "resource_status v (Some not_started_proof) = (status, reason)" by force
  from event_args_ok [OF fine _ stop_proof_oks(1) r, of None] observe_event_unsafe [OF fine] assms(4) r
  show ?thesis by (auto simp: session_activated_def Some moves_def Let_def)
next
  case None
  obtain q d where t: "transition he disk now s ''STARTING'' ''BACKEND_START'' c = (q, d)" by force
  note f = transition_frame [OF t]
  have "moves he s refusals c (host_failed None e s d)"
    using host_failed_moves [OF f(1) assms(2)] f(2,3) assms(4) by simp
  with None t f assms(4) not_started_ok show ?thesis
    by (auto simp: session_activated_def moves_def [of _ _ _ _ "become _ _ _"] Let_def observe_resource_event_def split: sum.splits)
qed

lemma started_moves:
  assumes "guard_inv (co_guard c)" "error_ok e" "time_ok now" "refusals s (co_arm c) = 0" "start_answer_ok answer"
  shows "moves he s refusals c (session_started he disk now e answer s c)"
proof -
  obtain handle error proof' where a: "answer = (handle, error, proof')" by (cases answer)
  define event where "event = latched_event (co_guard c) s"
  have fine: "event_fine (accounting_lost (co_guard c)) event" unfolding event_def using latched_fine [OF assms(1)] by blast
  have ok: "pred_option error_ok error" "pred_option stop_proof_ok proof'" using assms(5) by (simp_all add: a start_answer_ok_def)
  show ?thesis
  proof (cases handle)
    case False
    have proven: "(case proof' of None \<Rightarrow> False | Some q \<Rightarrow> sp_stopped q) = stopped proof'" by (cases proof') simp_all
    show ?thesis
      using False assms(4) start_failure_ok [OF fine ok] observe_event_unsafe [OF fine]
      by (auto simp: session_started_def a event_def [symmetric] proven Let_def moves_def will_be_unknown_def)
  next
    case True
    obtain q d where t: "transition he disk now s ''RUNNING'' ''BACKEND_HANDLE_PUBLISHED'' c = (q, d)" by force
    note f = transition_frame [OF t]
    have "moves he s refusals c (host_failed (Some now) e s d)"
      using host_failed_moves [OF f(1) assms(2), of "Some now"] f(2,3) assms(3,4) by simp
    with True t f assms(3,4) fine show ?thesis
      by (auto simp: session_started_def a event_def [symmetric] moves_def [of _ _ _ _ "become _ _ _"] purpose_ok_def Let_def split: sum.splits)
  qed
qed

lemma completed_moves:
  assumes "time_ok t" "pred_sum error_ok backend_outcome_ok r" "refusals s (co_arm c) = 0"
  shows "moves he s refusals c (session_completed t r s c)"
  using assms by (cases r) (auto simp: session_completed_def moves_def purpose_ok_def)

lemma signalled_moves:
  assumes "event_fine (accounting_lost (co_guard c)) event" "time_ok t" "error_ok e" "refusals s (co_arm c) = 0"
  shows "moves he s refusals c (session_signalled he disk now e t event wall s c)"
proof -
  obtain q d where t: "transition he disk now s ''STOPPING'' (stop_reason event wall) (observe_resource_event event c) = (q, d)" by force
  note f = transition_frame [OF t]
  have d: "host_frame s c d" using f(1) host_frame_trans [of s c "observe_resource_event event c" d] by simp
  have u: "co_unsafe d \<Longrightarrow> co_unsafe c \<or> accounting_lost (co_guard c)" using f(3) observe_event_unsafe [OF assms(1)] by simp
  have "moves he s refusals c (host_failed (Some t) e s d)"
    using host_failed_moves [OF d assms(3), of "Some t"] f(2) u assms(2,4) by simp
  with t f(2) d u assms show ?thesis
    by (auto simp: session_signalled_def moves_def [of _ _ _ _ "become _ _ _"] purpose_ok_def split: sum.splits)
qed

lemma stopped_moves:
  assumes "purpose_ok (accounting_lost (co_guard c)) p" "time_ok t" "stop_proof_ok q" "refusals s (co_arm c) = 0"
  shows "moves he s refusals c (session_stopped t p q s c)"
proof (cases p)
  case (Early_Stop event)
  then have fine: "event_fine (accounting_lost (co_guard c)) event" using assms(1) by (simp add: purpose_ok_def)
  have "\<not> sp_stopped q \<Longrightarrow> pa_status (early_stop_args t event q) = UNKNOWN"
    by (auto simp: early_stop_args_def simple_args_def resource_status_def split: option.splits)
  with Early_Stop assms early_stop_ok [OF fine assms(2,3)] observe_event_unsafe [OF fine, of "mark_unproven q c"] show ?thesis
    by (auto simp: session_stopped_def moves_def mark_unproven_unsafe will_be_unknown_def Let_def)
next
  case (Wait_Failed e)
  with assms wait_failed_ok [of e t q] show ?thesis
    by (auto simp: session_stopped_def moves_def mark_unproven_unsafe will_be_unknown_def Let_def purpose_ok_def wait_failed_args_def simple_args_def)
next
  case (Completed o')
  have o': "backend_outcome_ok o'" using assms(1) Completed by (simp add: purpose_ok_def)
  have "args_ok b 0 l (with_outcome o' (simple_args UNKNOWN ''STOP_UNPROVEN'' (Some t) (Some q) None))" if "\<not> sp_stopped q" for b l
    using that assms(2,3) o' by (intro with_outcome_ok args_ok_failed) (simp_all add: simple_args_def)
  with Completed assms o' show ?thesis
    by (auto simp: session_stopped_def moves_def mark_unproven_unsafe will_be_unknown_def Let_def completed_ok_def with_outcome_def simple_args_def)
next
  case (Interrupted event wall)
  then have fine: "event_fine (accounting_lost (co_guard c)) event" using assms(1) by (simp add: purpose_ok_def)
  have "\<not> sp_stopped q \<Longrightarrow> pa_status (interrupted_args t event wall q None) = UNKNOWN"
    by (auto simp: interrupted_args_def resource_status_def Let_def split: option.splits)
  with Interrupted assms fine interrupted_ok [OF fine assms(2,3), of None] show ?thesis
    by (auto simp: session_stopped_def moves_def mark_unproven_unsafe will_be_unknown_def Let_def)
next
  case (Host_Failed e)
  then have "error_ok e" using assms(1) by (simp add: purpose_ok_def)
  with Host_Failed assms host_failure_ok [of e "Some t" "Some q"] show ?thesis
    by (auto simp: session_stopped_def moves_def mark_unproven_unsafe will_be_unknown_def Let_def host_failure_args_def)
qed

lemma drained_moves:
  assumes "event_fine (accounting_lost (co_guard c)) event" "time_ok t" "stop_proof_ok q" "refusals s (co_arm c) = 0"
    and "pred_option backend_outcome_ok outcome"
  shows "moves he s refusals c (become s (Persisting False (interrupted_args t event wall q outcome)) c)"
  using assms interrupted_ok [OF assms(1-3,5)] by (simp add: moves_def)

lemma measured_moves:
  assumes "guard_inv (co_guard c)" "completed_ok t o' q" "refusals s (co_arm c) = 0"
  shows "moves he s refusals c (session_measured he t o' q s c)"
proof (cases "latched_event (co_guard c) s")
  case (Some v)
  have fine: "event_fine (accounting_lost (co_guard c)) (Some v)" using latched_fine [OF assms(1) Some] .
  obtain status reason where r: "resource_status v (Some q) = (status, reason)" by force
  have ok: "time_ok t" "stop_proof_ok q" "backend_outcome_ok o'" using assms(2) by (simp_all add: completed_ok_def)
  have "status \<noteq> SUCCEEDED" using resource_status_ok [OF fine, of "Some q"] r by simp
  then have "args_ok b 0 (accounting_lost (co_guard c)) (with_outcome o' (simple_args status reason (Some t) (Some q) (Some (ev_code v))))" for b
    using event_args_ok [OF fine _ ok(2) r, of "Some t"] ok by (intro with_outcome_ok) (simp_all add: simple_args_def)
  with Some r assms(3) observe_event_unsafe [OF fine] show ?thesis
    by (auto simp: session_measured_def moves_def Let_def)
next
  case None
  have ok: "time_ok t" "stop_proof_ok q" "backend_outcome_ok o'" "sp_stopped q" using assms(2) by (simp_all add: completed_ok_def)
  have "args_ok b 0 l (with_outcome o' (simple_args FAILED (bo_terminal_reason o') (Some t) (Some q) None))" for b l
    using ok by (intro with_outcome_ok args_ok_failed) (simp_all add: simple_args_def backend_outcome_ok_def outcome_ok_def)
  moreover have "args_ok b 0 l (published_args t o' q [])" if "bo_contributions o' = []" "bo_success o'" for b l
    using published_ok [OF assms(2) that(2), of "[]" 0] that(1) by simp
  ultimately show ?thesis
    using None assms publish_unavailable_ok [OF assms(2)]
    by (auto simp: session_measured_def moves_def Let_def observe_resource_event_def)
qed

end
