(* ===== verification/Arm_Contract.thy ===== *)
theory Arm_Contract
  imports Receipt_Accepted Arm_Answers
begin

text \<open>
  The agenda arm behind its protocol: the locale states what the orchestrator relies on of any arm, with the
  number of contributions that the arm refused as the only observation; it is interpreted on a host without an
  arm and on the agenda arm of \<^verbatim>\<open>experiments/agenda_arm.py\<close>.
\<close>

section \<open>The contract\<close>

locale arm_contract =
  fixes he :: "'a host_env" and launch :: pyval and arm_inv :: "'a \<Rightarrow> bool" and refusals :: "string \<Rightarrow> 'a \<Rightarrow> nat"
  assumes review: "he_arm he = Some p \<Longrightarrow> arm_inv a \<Longrightarrow> contribution_ok x \<Longrightarrow> ap_review p spec x a = Inr (b, v) \<Longrightarrow>
      arm_inv b \<and> (\<exists>d. v = PBool d \<and> (\<forall>t. refusals t b = refusals t a + (if t = ss_session_id spec \<and> \<not> d then 1 else 0)))"
    and observe: "he_arm he = Some p \<Longrightarrow> arm_inv a \<Longrightarrow> contribution_ok x \<Longrightarrow> ap_observe p spec x v a = Inr b \<Longrightarrow>
      arm_inv b \<and> (\<forall>t. refusals t b = refusals t a)"
    and evidence: "spec \<in> set (he_specs he) \<Longrightarrow> arm_inv a \<Longrightarrow> \<exists>b v. arm_evidence he spec a = Inr (b, v) \<and> arm_inv b \<and>
      (\<forall>t. refusals t b = refusals t a) \<and>
      (\<forall>n. validate_agenda_arm_evidence (ss_session_id spec) launch v = Inr n \<longrightarrow> n = int (refusals (ss_session_id spec) a))"

text \<open>Without an arm nothing is refused.\<close>

lemma validate_agenda_Inr:
  assumes "validate_agenda_arm_evidence s launch v = Inr n"
  shows "n = (if vget ''mode'' v = PStr ''NOT_CONFIGURED'' then 0 else int_of (vget ''rejected'' v))"
  using assms
  by (auto simp: validate_agenda_arm_evidence_def Let_def result_dests validate_agenda_absent_def split: if_splits)

interpretation no_arm: arm_contract "he\<lparr>he_arm := None\<rparr>" launch "\<lambda>_. True" "\<lambda>_ _. 0" for he :: "'a host_env" and launch
proof
  fix spec and a :: 'a
  have "vget ''mode'' not_configured_agenda_arm_session_evidence = PStr ''NOT_CONFIGURED''"
    by (simp add: not_configured_agenda_arm_session_evidence_def dget_def ARM_MODE_NOT_CONFIGURED_def)
  then show "\<exists>b v. arm_evidence (he\<lparr>he_arm := None\<rparr>) spec a = Inr (b, v) \<and> True \<and> (\<forall>t. (0::nat) = 0) \<and>
      (\<forall>n. validate_agenda_arm_evidence (ss_session_id spec) launch v = Inr n \<longrightarrow> n = int 0)"
    by (auto simp: arm_evidence_def dest: validate_agenda_Inr)
qed simp_all

section \<open>The agenda arm\<close>

definition agenda_protocol :: "(string \<Rightarrow> string) \<Rightarrow> agenda_arm arm_protocol" where
  "agenda_protocol sha256 =
     \<lparr>ap_review = \<lambda>spec x a. rbind (review spec (Contribution x) a) (\<lambda>(a, d). Inr (a, PBool (admitted d))),
      ap_observe = \<lambda>spec x v a. observe sha256 spec (Contribution x) v a,
      ap_settle = \<lambda>spec a. rbind (settle spec a) (\<lambda>(a, _). Inr a),
      ap_session_evidence = session_evidence\<rparr>"

definition agenda_inv :: "session_spec list \<Rightarrow> agenda_arm \<Rightarrow> bool" where
  "agenda_inv specs a \<longleftrightarrow> ledger_ok a \<and> cache_ok a \<and> ss_session_id ` set specs \<subseteq> set (ar_session_ids a)"

definition agenda_refusals :: "string \<Rightarrow> agenda_arm \<Rightarrow> nat" where
  "agenda_refusals s a = length (filter (\<lambda>d. \<not> admitted d) (decisions_of a s))"

lemma agenda_inv_quiet:
  assumes "quiet a b" "agenda_inv specs a"
  shows "agenda_inv specs b"
proof -
  have "same_world a b" "cache_ok b" using assms by (simp_all add: quiet_def agenda_inv_def)
  moreover from this(1) have "ledger_ok b = ledger_ok a" "ar_session_ids b = ar_session_ids a"
    by (rule same_world_ledger, simp add: same_world_def)
  ultimately show ?thesis using assms(2) by (simp add: agenda_inv_def)
qed

lemma decisions_sessions: "ar_sessions b = ar_sessions a \<Longrightarrow> decisions_of b y = decisions_of a y"
  by (simp add: decisions_of_def get_ledger_def)

lemma append_entry_sessions: "append_entry r content a = Inr b \<Longrightarrow> ar_sessions b = ar_sessions a"
  by (auto simp: append_entry_def Let_def split: if_splits)

lemma decisions_put: "lg_decisions l = decisions_of a x \<Longrightarrow> decisions_of (put_ledger x l a) y = decisions_of a y"
  by (simp add: decisions_of_def)

lemma decisions_observe:
  assumes "observe sha256 spec candidate v a = Inr b"
  shows "decisions_of b y = decisions_of a y"
proof (cases "publication_identity v")
  case (Pair ref reported)
  show ?thesis
  proof (cases ref)
    case None
    with assms Pair show ?thesis by (auto simp: observe_def rbind_Inr_iff intro: decisions_sessions)
  next
    case (Some r)
    from assms Pair Some obtain content where
      rest: "rbind (append_entry r content
          (if content = PNone then a\<lparr>ar_divergences := Suc (ar_divergences a)\<rparr> else a)) (\<lambda>a.
        rbind (is_claim_candidate candidate) (\<lambda>claims.
          if claims then Inr (put_ledger (ss_session_id spec)
            ((get_ledger a (ss_session_id spec))\<lparr>lg_claim_refs := lg_claim_refs (get_ledger a (ss_session_id spec)) @ [r]\<rparr>) a)
          else Inr a)) = Inr b"
      unfolding observe_def Let_def
      by (auto simp: launch_session_Inr rbind_Inr_iff [of "launch_session a spec"]
          rbind_Inr_iff [of "observed_content sha256 spec candidate reported"])
    from rest obtain a2 where
      a2: "append_entry r content (if content = PNone then a\<lparr>ar_divergences := Suc (ar_divergences a)\<rparr> else a) = Inr a2"
      and b: "b = a2 \<or> b = put_ledger (ss_session_id spec)
        ((get_ledger a2 (ss_session_id spec))\<lparr>lg_claim_refs := lg_claim_refs (get_ledger a2 (ss_session_id spec)) @ [r]\<rparr>) a2"
      by (auto simp: rbind_Inr_iff split: if_splits)
    have "decisions_of b y = decisions_of a2 y" using b decisions_put by (auto simp: decisions_of_def)
    also have "decisions_of a2 y = decisions_of a y"
      using append_entry_sessions [OF a2] by (intro decisions_sessions) (simp split: if_splits)
    finally show ?thesis .
  qed
qed

lemma decisions_settle:
  assumes "settle spec a = Inr (b, refs)"
  shows "decisions_of b y = decisions_of a y"
proof -
  let ?x = "ss_session_id spec"
  let ?l = "get_ledger a ?x"
  let ?a1 = "put_ledger ?x ?l a"
  have a1: "decisions_of ?a1 y = decisions_of a y" by simp
  show ?thesis
  proof (cases "?x \<in> set (ar_settled a)")
    case True
    with assms a1 show ?thesis by (auto simp: settle_def Let_def rbind_Inr_iff launch_session_Inr)
  next
    case False
    with assms obtain a2 s where s: "arm_snapshot ?a1 = Inr (a2, s)"
      and refs: "refs = take MAXIMUM_RELEASED_CLAIM_REFS (sort (filter (\<lambda>ref. claim_occupies s ref (ar_roles a2)) (lg_claim_refs ?l)))"
      and b: "b = put_ledger ?x (?l\<lparr>lg_released_claim_refs := refs, lg_released_at_tick := Some (ar_now_tick a2),
          lg_settled_tick := Some (ar_now_tick a2)\<rparr>) (a2\<lparr>ar_settled := ?x # ar_settled a2\<rparr>)"
      by (auto simp: settle_def Let_def launch_session_Inr rbind_Inr_iff)
    have "decisions_of (a2\<lparr>ar_settled := ?x # ar_settled a2\<rparr>) z = decisions_of a z" for z
      using decisions_snapshot [OF s, of z] decisions_sessions [of "a2\<lparr>ar_settled := ?x # ar_settled a2\<rparr>" a2 z] by simp
    then show ?thesis unfolding b by (simp add: decisions_of_def)
  qed
qed

lemma observe_ids:
  assumes "observe sha256 spec candidate v a = Inr b" "ledger_ok a" "candidate_ok candidate"
  shows "ar_session_ids b = ar_session_ids a"
  using assms by (cases rule: observe_cases) (simp_all add: same_world_def grown_def)

lemma rejected_count: "length ds - admitted_count ds = length (filter (\<lambda>d. \<not> admitted d) ds)"
  using sum_length_filter_compl [of admitted ds] by (simp add: admitted_count_filter)

lemma session_evidence_rejected:
  assumes "session_evidence spec a = Inr (b, v)"
  shows "vget ''mode'' v = PStr ''ENFORCED''" "int_of (vget ''rejected'' v) = int (agenda_refusals (ss_session_id spec) a)"
    "is_PDict v" "decisions_of b t = decisions_of a t"
  using assms rejected_count
  by (auto simp: session_evidence_def Let_def rbind_Inr_iff launch_session_Inr evidence_value_def ARM_MODE_ENFORCED_def dget_def
      int_of_def agenda_refusals_def decisions_of_def)

lemma agenda_evidence:
  assumes "agenda_inv (he_specs he) a" "spec \<in> set (he_specs he)" "he_arm he = Some (agenda_protocol sha256)"
  shows "\<exists>b v. arm_evidence he spec a = Inr (b, v) \<and> agenda_inv (he_specs he) b \<and> (\<forall>t. agenda_refusals t b = agenda_refusals t a) \<and>
    vget ''mode'' v = PStr ''ENFORCED'' \<and> int_of (vget ''rejected'' v) = int (agenda_refusals (ss_session_id spec) a)"
proof -
  have a: "ledger_ok a" "cache_ok a" "ss_session_id spec \<in> set (ar_session_ids a)" using assms(1,2) by (auto simp: agenda_inv_def)
  obtain b refs where b: "settle spec a = Inr (b, refs)" using settle_total [OF a(1,3)] by blast
  note w = settle_world [OF b a(2)]
  have arm_inv: "agenda_inv (he_specs he) b" using assms(1) a w by (simp add: agenda_inv_def)
  obtain c v where c: "session_evidence spec b = Inr (c, v)" using a(3) w(4) by (simp add: session_evidence_def launch_session_def Let_def)
  have "quiet b c" by (rule session_evidence_quiet [OF c])
  then have "agenda_inv (he_specs he) c" using agenda_inv_quiet arm_inv by blast
  moreover have "agenda_refusals t c = agenda_refusals t a" for t
    using session_evidence_rejected(4) [OF c] decisions_settle [OF b] by (simp add: agenda_refusals_def)
  ultimately show ?thesis
    using b c session_evidence_rejected [OF c] decisions_settle [OF b] assms(3)
    by (simp add: arm_evidence_def agenda_protocol_def agenda_refusals_def)
qed

definition agenda_host :: "(string \<Rightarrow> string) \<Rightarrow> agenda_arm host_env \<Rightarrow> agenda_arm host_env" where
  "agenda_host sha256 he = he\<lparr>he_arm := Some (agenda_protocol sha256)\<rparr>"

lemma agenda_host_simps [simp]: "he_arm (agenda_host sha256 he) = Some (agenda_protocol sha256)" "he_specs (agenda_host sha256 he) = he_specs he"
  by (simp_all add: agenda_host_def)

interpretation agenda: arm_contract "agenda_host sha256 he" launch "agenda_inv (he_specs he)" agenda_refusals for sha256 he launch
proof
  fix p spec x a b v
  assume p: "he_arm (agenda_host sha256 he) = Some p" and a: "agenda_inv (he_specs he) a" and x: "contribution_ok x"
  { assume "ap_review p spec x a = Inr (b, v)"
    with p obtain d where d: "review spec (Contribution x) a = Inr (b, d)" "v = PBool (admitted d)"
      by (auto simp: agenda_protocol_def rbind_Inr_iff)
    have "agenda_inv (he_specs he) b" using agenda_inv_quiet [OF review_quiet [OF d(1)] a] .
    with d show "agenda_inv (he_specs he) b \<and> (\<exists>d. v = PBool d \<and>
        (\<forall>t. agenda_refusals t b = agenda_refusals t a + (if t = ss_session_id spec \<and> \<not> d then 1 else 0)))"
      using review_records [OF d(1)] by (auto simp: agenda_refusals_def) }
  { assume "ap_observe p spec x v a = Inr b"
    with p have o': "observe sha256 spec (Contribution x) v a = Inr b" by (auto simp: agenda_protocol_def)
    have ok: "candidate_ok (Contribution x)" using x by (simp add: candidate_ok_def)
    with observe_ledger [OF o'] observe_ids [OF o'] a show "agenda_inv (he_specs he) b \<and> (\<forall>t. agenda_refusals t b = agenda_refusals t a)"
      using decisions_observe [OF o'] by (auto simp: agenda_inv_def agenda_refusals_def) }
next
  fix spec a
  assume "spec \<in> set (he_specs (agenda_host sha256 he))" "agenda_inv (he_specs he) a"
  from agenda_evidence [of "agenda_host sha256 he", OF _ this(1)] this(2)
  show "\<exists>b v. arm_evidence (agenda_host sha256 he) spec a = Inr (b, v) \<and> agenda_inv (he_specs he) b \<and>
    (\<forall>t. agenda_refusals t b = agenda_refusals t a) \<and>
    (\<forall>n. validate_agenda_arm_evidence (ss_session_id spec) launch v = Inr n \<longrightarrow> n = int (agenda_refusals (ss_session_id spec) a))"
    using validate_agenda_Inr by fastforce
qed

end
