(* ===== verification/Host_Invariant.thy ===== *)
theory Host_Invariant
  imports Host_Control Arm_Contract
begin

text \<open>
  The invariant of the controller of a cohort, for every arm that satisfies the contract: each step keeps it,
  and in every state that satisfies it a session can persist, and the outcome of a complete settlement is the
  one that the store derives from the statuses.
\<close>

section \<open>The invariant of the controller\<close>

definition receipt_row :: "(string \<Rightarrow> string) \<Rightarrow> runtime_store \<Rightarrow> string \<Rightarrow> (string \<times> pyval) list \<times> string \<Rightarrow> bool" where
  "receipt_row sha256 st s row \<longleftrightarrow> (\<exists>status raw. dget ''status'' (fst row) = PStr (status_value status) \<and>
     canonical_document MAXIMUM_RUNTIME_DOCUMENT_BYTES (fst row) = Inr raw \<and> st_receipts st s = Some raw \<and> snd row = sha256 raw)"

definition pending :: "'a controller \<Rightarrow> string \<Rightarrow> bool" where
  "pending c s \<longleftrightarrow> co_receipts c s = None \<and> (accounting_lost (co_guard c) \<or> will_be_unknown (co_control c s))"

definition known_unknown :: "'a controller \<Rightarrow> string \<Rightarrow> bool" where
  "known_unknown c s \<longleftrightarrow> (\<exists>row. co_receipts c s = Some row \<and> dget ''status'' (fst row) = PStr ''UNKNOWN'')"

definition controls_ok :: "'a host_env \<Rightarrow> (string \<Rightarrow> 'a \<Rightarrow> nat) \<Rightarrow> 'a controller \<Rightarrow> bool" where
  "controls_ok he refusals c \<longleftrightarrow>
     (\<forall>s. control_ok (he_publisher he) (accounting_lost (co_guard c)) (refusals s (co_arm c)) (co_control c s))"

definition places_ok :: "'a host_env \<Rightarrow> 'a controller \<Rightarrow> bool" where
  "places_ok he c \<longleftrightarrow> (\<forall>s. co_control c s \<noteq> Unstarted \<longrightarrow> s \<in> set (session_ids_of he)) \<and>
     (\<forall>i. co_cursor c \<le> i \<and> i < length (session_ids_of he) \<longrightarrow> co_control c (session_ids_of he ! i) = Unstarted) \<and>
     (\<forall>s. active (co_control c s) \<longrightarrow> co_receipts c s = None) \<and>
     (co_missing c = 0 \<longrightarrow> (\<forall>s. co_control c s = Unstarted \<longrightarrow> co_receipts c s = None)) \<and>
     (0 < co_missing c \<longrightarrow> workers_done he c)"

definition rows_ok :: "'a host_env \<Rightarrow> 'a controller \<Rightarrow> bool" where
  "rows_ok he c \<longleftrightarrow> (\<forall>s row. co_receipts c s = Some row \<longrightarrow> receipt_row (he_sha256 he) (co_store c) s row) \<and>
     (\<forall>i < co_missing c. i < length (session_ids_of he) \<longrightarrow> co_receipts c (session_ids_of he ! i) \<noteq> None \<or> co_store_failed c)"

definition unsafe_ok :: "'a host_env \<Rightarrow> 'a controller \<Rightarrow> bool" where
  "unsafe_ok he c \<longleftrightarrow> (co_unsafe c \<longrightarrow> co_store_failed c \<or> (\<exists>s \<in> set (session_ids_of he). pending c s \<or> known_unknown c s))"

definition host_inv ::
  "'a host_env \<Rightarrow> pyval \<Rightarrow> ('a \<Rightarrow> bool) \<Rightarrow> (string \<Rightarrow> 'a \<Rightarrow> nat) \<Rightarrow> 'a controller \<Rightarrow> bool" where
  "host_inv he launch arm_inv refusals c \<longleftrightarrow>
     guard_inv (co_guard c) \<and> gd_session_ids (co_guard c) = session_ids_of he \<and> distinct (session_ids_of he) \<and>
     launch_matches he (co_store c) \<and> st_launch (co_store c) = launch \<and> arm_inv (co_arm c) \<and>
     controls_ok he refusals c \<and> places_ok he c \<and> rows_ok he c \<and> unsafe_ok he c"

lemma launch_matches_same: "same_store st st' \<Longrightarrow> launch_matches he st' = launch_matches he st"
  by (simp add: launch_matches_def same_store_def)

lemma receipt_row_same: "st_receipts st' s = st_receipts st s \<Longrightarrow> receipt_row sha256 st' s row = receipt_row sha256 st s row"
  by (simp add: receipt_row_def)

lemma control_cases:
  assumes "host_inv he launch arm_inv refusals c"
  shows "control_ok (he_publisher he) (accounting_lost (co_guard c)) (refusals s (co_arm c)) (co_control c s)"
  using assms by (simp add: host_inv_def controls_ok_def)

lemma active_facts:
  assumes "host_inv he launch arm_inv refusals c" "active (co_control c s)"
  shows "s \<in> set (session_ids_of he)" "co_receipts c s = None" "co_missing c = 0"
    "\<And>i. co_cursor c \<le> i \<Longrightarrow> i < length (session_ids_of he) \<Longrightarrow> session_ids_of he ! i \<noteq> s"
proof -
  have p: "places_ok he c" using assms(1) by (simp add: host_inv_def)
  have "co_control c s \<noteq> Unstarted" using assms(2) by (auto simp: active_def)
  with p show id: "s \<in> set (session_ids_of he)" "co_receipts c s = None" using assms(2) unfolding places_ok_def by blast+
  show "co_missing c = 0" using p id(1) assms(2) unfolding places_ok_def workers_done_def list_all_iff by fastforce
  show "session_ids_of he ! i \<noteq> s" if "co_cursor c \<le> i" "i < length (session_ids_of he)" for i
    using p that assms(2) unfolding places_ok_def by force
qed

text \<open>A move of a session that has no receipt keeps the invariant.\<close>

lemma moves_inv:
  assumes inv: "host_inv he launch arm_inv refusals c" and m: "moves he s refusals c c'"
    and s: "s \<in> set (session_ids_of he)" "co_receipts c s = None" "co_missing c = 0" "\<not> will_be_unknown (co_control c s)"
    and after: "\<And>i. co_cursor c \<le> i \<Longrightarrow> i < length (session_ids_of he) \<Longrightarrow> session_ids_of he ! i \<noteq> s"
    and arm: "arm_inv (co_arm c')" "\<And>t. t \<noteq> s \<Longrightarrow> refusals t (co_arm c') = refusals t (co_arm c)"
  shows "host_inv he launch arm_inv refusals c'"
proof -
  have f: "host_frame s c c'" using m by (simp add: moves_def)
  then have eqs: "co_guard c' = co_guard c" "co_receipts c' = co_receipts c" "same_store (co_store c) (co_store c')"
    "co_store_failed c' = co_store_failed c" "co_cursor c' = co_cursor c" "co_idle c' = co_idle c" "co_missing c' = co_missing c"
    "\<And>t. t \<noteq> s \<Longrightarrow> co_control c' t = co_control c t" by (simp_all add: host_frame_def)
  have "controls_ok he refusals c'"
    using control_cases [OF inv] m eqs(1,8) arm(2) unfolding controls_ok_def moves_def by metis
  moreover have p: "places_ok he c" using inv by (simp add: host_inv_def)
  have "places_ok he c'"
    using p s after m eqs(8) unfolding places_ok_def eqs(2,5,7) moves_def by (metis active_simps(10) neq0_conv)
  moreover have "rows_ok he c'"
    using inv eqs(3) s(3) unfolding host_inv_def rows_ok_def receipt_row_def same_store_def eqs(2,4,7) by auto
  moreover have "unsafe_ok he c'"
  proof -
    have u: "unsafe_ok he c" using inv by (simp add: host_inv_def)
    have new: "pending c' s" if "accounting_lost (co_guard c) \<or> will_be_unknown (co_control c' s)"
      using that s(2) by (simp add: pending_def eqs(1,2))
    have old: "pending c' t \<or> known_unknown c' t" if "pending c t \<or> known_unknown c t" for t
      using that s(4) eqs(8) [of t] by (cases "t = s") (auto simp: pending_def known_unknown_def eqs(1,2))
    show ?thesis using u m new old s(1) unfolding unsafe_ok_def moves_def eqs(4) by blast
  qed
  ultimately show ?thesis
    using inv arm(1) eqs(1) launch_matches_same [OF eqs(3), of he] eqs(3) by (simp add: host_inv_def same_store_def)
qed

lemma not_unknown_control: "\<not> will_be_unknown k" if "\<And>h args. k \<noteq> Persisting h args"
  using that by (auto simp: will_be_unknown_def)

lemma guard_inv_step:
  assumes "host_inv he launch arm_inv refusals c" "guard_step (co_guard c) g"
  shows "host_inv he launch arm_inv refusals (c\<lparr>co_guard := g\<rparr>)"
proof -
  have g: "guard_inv g" "keeps (co_guard c) g" "gd_session_ids g = gd_session_ids (co_guard c)"
    using guard_step_good [OF assms(2)] assms(1) by (auto simp: host_inv_def good_step_def)
  then have l: "accounting_lost (co_guard c) \<longrightarrow> accounting_lost g" by (auto simp: accounting_lost_def keeps_def)
  have "controls_ok he refusals (c\<lparr>co_guard := g\<rparr>)"
    using control_ok_mono [OF control_cases [OF assms(1)] l] by (simp add: controls_ok_def)
  moreover have "unsafe_ok he (c\<lparr>co_guard := g\<rparr>)"
  proof -
    have "pending (c\<lparr>co_guard := g\<rparr>) t \<or> known_unknown (c\<lparr>co_guard := g\<rparr>) t" if "pending c t \<or> known_unknown c t" for t
      using that l by (auto simp: pending_def known_unknown_def)
    then show ?thesis using assms(1) unfolding host_inv_def unsafe_ok_def by auto
  qed
  ultimately show ?thesis using assms(1) g
    by (simp add: host_inv_def places_ok_def rows_ok_def workers_done_def)
qed

lemma flag_inv:
  assumes "host_inv he launch arm_inv refusals c"
  shows "host_inv he launch arm_inv refusals (c\<lparr>co_stop_new := b\<rparr>)"
  using assms by (simp add: host_inv_def places_ok_def rows_ok_def workers_done_def controls_ok_def unsafe_ok_def pending_def known_unknown_def)

lemma observe_inv:
  assumes "host_inv he launch arm_inv refusals c" "event_fine (accounting_lost (co_guard c)) event" "s \<in> set (session_ids_of he)" "co_receipts c s = None"
  shows "host_inv he launch arm_inv refusals (observe_resource_event event c)"
proof -
  let ?c = "observe_resource_event event c"
  have eqs: "co_store_failed ?c = co_store_failed c" "co_cursor ?c = co_cursor c" "co_idle ?c = co_idle c" "co_missing ?c = co_missing c"
    by (auto simp: observe_resource_event_def split: option.splits)
  have "unsafe_ok he ?c"
  proof -
    have u: "unsafe_ok he c" using assms(1) by (simp add: host_inv_def)
    have "pending c s" if "accounting_lost (co_guard c)" using that assms(4) by (simp add: pending_def)
    then show ?thesis
      using u observe_event_unsafe [OF assms(2), of c] assms(3) by (auto simp: unsafe_ok_def eqs pending_def known_unknown_def)
  qed
  then show ?thesis
    using assms(1) by (simp add: host_inv_def places_ok_def rows_ok_def workers_done_def controls_ok_def eqs)
qed

lemma worker_inv:
  assumes "host_inv he launch arm_inv refusals c" "0 < co_idle c" "co_missing c = 0" "co_cursor c \<le> n"
  shows "host_inv he launch arm_inv refusals (c\<lparr>co_cursor := n, co_idle := k\<rparr>)"
  using assms by (auto simp: host_inv_def places_ok_def rows_ok_def controls_ok_def unsafe_ok_def pending_def known_unknown_def)

lemma idle_missing: "host_inv he launch arm_inv refusals c \<Longrightarrow> 0 < co_idle c \<Longrightarrow> co_missing c = 0"
  by (auto simp: host_inv_def places_ok_def workers_done_def)

lemma overridden_status:
  "pa_status args = UNKNOWN \<Longrightarrow> pa_status (overridden event args) = UNKNOWN"
  "event = Some e \<Longrightarrow> ev_uncertain e \<Longrightarrow> pa_status (overridden event args) = UNKNOWN"
  by (auto simp: overridden_def split: option.splits)

lemma write_receipt_cases:
  assumes "write_receipt sha256 disk s d st = (answer, st')"
  shows "st_launch st' = st_launch st" "st_launch_sha256 st' = st_launch_sha256 st" "st_sessions st' = st_sessions st"
    "\<And>t. t \<noteq> s \<Longrightarrow> st_receipts st' t = st_receipts st t" "st_states st' = st_states st" "st_settlement st' = st_settlement st"
    "\<And>digest. answer = Inr digest \<Longrightarrow> \<exists>raw. session_paths s st = Inr () \<and> validate_receipt_value s st d = Inr () \<and>
      canonical_document MAXIMUM_RUNTIME_DOCUMENT_BYTES d = Inr raw \<and> st_receipts st' s = Some raw \<and> digest = sha256 raw \<and>
      (st_receipts st s = None \<or> st_receipts st s = Some raw)"
    "\<And>raw. st_receipts st s = Some raw \<Longrightarrow> st_receipts st' s = Some raw"
  using assms
  by (auto simp: write_receipt_def publish_exclusive_def Let_def rbind_Inr_iff split: sum.splits option.splits if_splits prod.splits)

lemma spec_of_Some: "spec_of he s = Some spec \<Longrightarrow> spec \<in> set (he_specs he) \<and> ss_session_id spec = s"
  by (auto simp: spec_of_def find_Some_iff dest: nth_mem)

text \<open>What a finished \<open>_persist\<close> leaves behind.\<close>

definition persisted_as :: "'a host_env \<Rightarrow> string \<Rightarrow> persist_args \<Rightarrow> 'a controller \<Rightarrow> 'a controller \<Rightarrow> bool" where
  "persisted_as he s args c c' \<longleftrightarrow>
     co_guard c' = co_guard c \<and> co_control c' = co_control c \<and> co_cursor c' = co_cursor c \<and> co_idle c' = co_idle c \<and>
     co_missing c' = co_missing c \<and> st_launch (co_store c') = st_launch (co_store c) \<and>
     st_launch_sha256 (co_store c') = st_launch_sha256 (co_store c) \<and> st_sessions (co_store c') = st_sessions (co_store c) \<and>
     (\<forall>t. t \<noteq> s \<longrightarrow> co_receipts c' t = co_receipts c t \<and> st_receipts (co_store c') t = st_receipts (co_store c) t) \<and>
     (co_store_failed c \<longrightarrow> co_store_failed c') \<and>
     (co_unsafe c' \<longrightarrow> co_unsafe c \<or> accounting_lost (co_guard c)) \<and>
     (co_receipts c' s = co_receipts c s \<and> co_store_failed c' \<or>
      (\<exists>row. co_receipts c' s = Some row \<and> receipt_row (he_sha256 he) (co_store c') s row \<and>
         dget ''status'' (fst row) = PStr (status_value (pa_status (overridden (latched_event (co_guard c) s) args)))))"

lemma persist_receipt_status:
  assumes "persist_receipt he ledger now spec args c = Inr (receipt, a)"
  shows "dget ''status'' receipt = PStr (status_value (pa_status args))"
    "\<exists>v. arm_evidence he spec (co_arm c) = Inr (a, v)"
  using assms by (auto simp: persist_receipt_def Let_def rbind_Inr_iff split: prod.splits)

lemma persist_session_as:
  assumes "persist_session he ledger disk disk' now spec args c = Inr c'" "guard_inv (co_guard c)"
  shows "persisted_as he (ss_session_id spec) args c c'" "\<exists>v. arm_evidence he spec (co_arm c) = Inr (co_arm c', v)"
proof -
  define s where "s = ss_session_id spec"
  define event where "event = latched_event (co_guard c) s"
  define d where "d = observe_resource_event event c"
  define args' where "args' = overridden event args"
  have d: "co_guard d = co_guard c" "co_control d = co_control c" "co_cursor d = co_cursor c" "co_idle d = co_idle c"
    "co_missing d = co_missing c" "co_store d = co_store c" "co_receipts d = co_receipts c" "co_store_failed d = co_store_failed c"
    "co_arm d = co_arm c"
    by (auto simp: d_def observe_resource_event_def split: option.splits)
  have u: "co_unsafe d \<Longrightarrow> co_unsafe c \<or> accounting_lost (co_guard c)"
    using observe_event_unsafe latched_fine [OF assms(2)] unfolding d_def event_def by blast
  have "rbind (persist_receipt he ledger now spec args' d) (\<lambda>(receipt, a).
         let c = d\<lparr>co_arm := a\<rparr>
         in case write_receipt (he_sha256 he) disk s receipt (co_store c) of
             (Inl _, st) \<Rightarrow> Inr (c\<lparr>co_store := st, co_store_failed := True, co_stop_new := True\<rparr>)
           | (Inr digest, st) \<Rightarrow>
               let c = c\<lparr>co_store := st, co_receipts := (co_receipts c)(s := Some (receipt, digest))\<rparr>
               in Inr (snd (transition he disk' now s (status_value (pa_status args')) (pa_terminal_reason args') c))) =
      (Inr c' :: 'a controller result)"
    using assms(1) unfolding persist_session_def s_def event_def d_def args'_def Let_def .
  then obtain ra where ra: "persist_receipt he ledger now spec args' d = Inr ra"
    "(\<lambda>(receipt, a). let c = d\<lparr>co_arm := a\<rparr>
         in case write_receipt (he_sha256 he) disk s receipt (co_store c) of
             (Inl _, st) \<Rightarrow> Inr (c\<lparr>co_store := st, co_store_failed := True, co_stop_new := True\<rparr>)
           | (Inr digest, st) \<Rightarrow>
               let c = c\<lparr>co_store := st, co_receipts := (co_receipts c)(s := Some (receipt, digest))\<rparr>
               in Inr (snd (transition he disk' now s (status_value (pa_status args')) (pa_terminal_reason args') c))) ra =
      (Inr c' :: 'a controller result)"
    unfolding rbind_Inr_iff by blast
  obtain receipt a where r': "ra = (receipt, a)" by force
  note r = ra(1) [unfolded r'] and rest = ra(2) [unfolded r' prod.case]
  obtain answer st where w: "write_receipt (he_sha256 he) disk s receipt (co_store c) = (answer, st)" by force
  note wr = write_receipt_cases [OF w]
  note status = persist_receipt_status [OF r, unfolded d(9)]
  have "persisted_as he s args c c' \<and> co_arm c' = a"
  proof (cases answer)
    case (Inl e)
    with rest w have "c' = d\<lparr>co_arm := a, co_store := st, co_store_failed := True, co_stop_new := True\<rparr>" by (simp add: d(6))
    then show ?thesis using wr(1-4) u by (simp add: persisted_as_def d)
  next
    case (Inr digest)
    define e where "e = d\<lparr>co_arm := a, co_store := st, co_receipts := (co_receipts d)(s := Some (receipt, digest))\<rparr>"
    obtain q f where t: "transition he disk' now s (status_value (pa_status args')) (pa_terminal_reason args') e = (q, f)" by force
    with rest w Inr have c': "c' = f" by (simp add: d(6,7) e_def)
    have f: "co_guard f = co_guard e" "co_control f = co_control e" "co_cursor f = co_cursor e" "co_idle f = co_idle e"
      "co_missing f = co_missing e" "same_store (co_store e) (co_store f)" "co_receipts f = co_receipts e"
      "co_store_failed f = co_store_failed e" "co_arm f = co_arm e" "co_unsafe f = co_unsafe e"
      using transition_frame [OF t] by (simp_all add: host_frame_def)
    have "receipt_row (he_sha256 he) st s (receipt, digest)"
      using wr(7) [OF Inr] status(1) by (auto simp: receipt_row_def)
    then show ?thesis using f wr(1-4) u status(1)
      by (simp add: c' e_def d persisted_as_def same_store_def receipt_row_def args'_def event_def)
  qed
  with status(2) show "persisted_as he (ss_session_id spec) args c c'" "\<exists>v. arm_evidence he spec (co_arm c) = Inr (co_arm c', v)"
    by (simp_all add: s_def)
qed

lemma launch_matches_cong:
  "st_launch st' = st_launch st \<Longrightarrow> st_launch_sha256 st' = st_launch_sha256 st \<Longrightarrow> st_sessions st' = st_sessions st \<Longrightarrow>
     launch_matches he st' = launch_matches he st"
  by (simp add: launch_matches_def)

context arm_contract begin

abbreviation "hinv \<equiv> host_inv he launch arm_inv refusals"

lemma evidence_laws:
  assumes "spec \<in> set (he_specs he)" "arm_inv a" "arm_evidence he spec a = Inr (b, v)"
  shows "arm_inv b" "refusals t b = refusals t a"
  using evidence [OF assms(1,2)] assms(3) by auto

text \<open>Persisting a session never fails, whatever the store answers, and the store accepts the receipt unless it refuses
  the evidence of the arm.\<close>

lemma persist_total:
  assumes "hinv c" "spec \<in> set (he_specs he)" "time_ok now" "\<And>x. matches_sha256 (he_sha256 he x)"
    and "args_ok (he_publisher he) (refusals (ss_session_id spec) (co_arm c)) (accounting_lost (co_guard c)) args"
  shows "\<exists>receipt a. persist_receipt he ledger now spec (overridden (latched_event (co_guard c) (ss_session_id spec)) args) c = Inr (receipt, a) \<and>
    validate_receipt_value (ss_session_id spec) (co_store c) receipt =
      rbind (validate_agenda_arm_evidence (ss_session_id spec) launch (dget ''agenda_arm'' receipt)) (\<lambda>_. Inr ())"
proof -
  have i: "guard_inv (co_guard c)" "set (gd_session_ids (co_guard c)) = set (session_ids_of he)" "launch_matches he (co_store c)"
    "st_launch (co_store c) = launch" "arm_inv (co_arm c)" using assms(1) by (simp_all add: host_inv_def)
  obtain b v where v: "arm_evidence he spec (co_arm c) = Inr (b, v)"
    "\<And>n. validate_agenda_arm_evidence (ss_session_id spec) (st_launch (co_store c)) v = Inr n \<Longrightarrow> n = int (refusals (ss_session_id spec) (co_arm c))"
    using evidence [OF assms(2) i(5)] i(4) by blast
  have ok: "args_ok (he_publisher he) (refusals (ss_session_id spec) (co_arm c)) (accounting_lost (co_guard c))
      (overridden (latched_event (co_guard c) (ss_session_id spec)) args)"
    by (rule overridden_ok(1) [OF assms(5) i(1) refl])
  from receipt_accepted [OF i(3) assms(2) i(1,2) ok assms(3) assms(4) v, of ledger] obtain receipt where
    "persist_receipt he ledger now spec (overridden (latched_event (co_guard c) (ss_session_id spec)) args) c = Inr (receipt, b)"
    "validate_receipt_value (ss_session_id spec) (co_store c) receipt =
      rbind (validate_agenda_arm_evidence (ss_session_id spec) (st_launch (co_store c)) v) (\<lambda>_. Inr ())" "dget ''agenda_arm'' receipt = v"
    by blast
  then show ?thesis using i(4) by (intro exI [of _ receipt] exI [of _ b]) simp
qed

lemma persist_session_total:
  assumes "hinv c" "spec \<in> set (he_specs he)" "time_ok now" "\<And>x. matches_sha256 (he_sha256 he x)"
    and "args_ok (he_publisher he) (refusals (ss_session_id spec) (co_arm c)) (accounting_lost (co_guard c)) args"
  shows "\<exists>c'. persist_session he ledger disk disk' now spec args c = Inr c'"
proof -
  let ?event = "latched_event (co_guard c) (ss_session_id spec)"
  have "persist_receipt he ledger now spec (overridden ?event args) (observe_resource_event ?event c) =
      persist_receipt he ledger now spec (overridden ?event args) c"
    by (simp add: persist_receipt_def)
  with persist_total [OF assms, of ledger] show ?thesis
    by (auto simp: persist_session_def Let_def split: prod.splits sum.splits)
qed

lemma persisted_inv:
  assumes inv: "hinv c" and k: "co_control c s = Persisting handling args" and spec: "spec_of he s = Some spec"
    and ok: "time_ok t" "\<And>x. matches_sha256 (he_sha256 he x)"
  shows "hinv (session_persisted he l d d' t e spec handling args c)"
proof -
  note sp = spec_of_Some [OF spec]
  have a: "args_ok (he_publisher he) (refusals (ss_session_id spec) (co_arm c)) (accounting_lost (co_guard c)) args"
    using control_cases [OF inv, of s] k sp by simp
  obtain c' where p: "persist_session he l d d' t spec args c = Inr c'"
    using persist_session_total [OF inv _ ok a] sp by blast
  have g: "guard_inv (co_guard c)" "arm_inv (co_arm c)" using inv by (simp_all add: host_inv_def)
  note pa = persist_session_as(1) [OF p g(1), unfolded persisted_as_def] and pe = persist_session_as(2) [OF p g(1)]
  have act: "active (co_control c s)" by (simp add: k)
  note facts = active_facts [OF inv act]
  let ?c = "become s Persisted (c'\<lparr>co_idle := Suc (co_idle c')\<rparr>)"
  have r: "session_persisted he l d d' t e spec handling args c = ?c" using p sp by (simp add: session_persisted_def)
  have ctl: "co_control ?c = (co_control c)(s := Persisted)" using pa by (simp add: become_def)
  have same: "co_guard ?c = co_guard c" "co_store ?c = co_store c'" "co_receipts ?c = co_receipts c'" "co_arm ?c = co_arm c'"
    "co_cursor ?c = co_cursor c" "co_missing ?c = 0" "co_store_failed ?c = co_store_failed c'" "co_unsafe ?c = co_unsafe c'"
    using pa facts(3) by (simp_all add: become_def)
  have arm: "arm_inv (co_arm c')" "\<And>x. refusals x (co_arm c') = refusals x (co_arm c)"
    using pe evidence_laws sp g(2) by blast+
  have "controls_ok he refusals ?c"
    using control_cases [OF inv] arm(2) unfolding controls_ok_def ctl same by (simp add: fun_upd_def)
  moreover have "places_ok he ?c"
  proof -
    have "places_ok he c" using inv by (simp add: host_inv_def)
    then show ?thesis using facts pa sp unfolding places_ok_def ctl same by (auto simp: fun_upd_def)
  qed
  moreover have "rows_ok he ?c"
  proof -
    have "rows_ok he c" using inv by (simp add: host_inv_def)
    moreover have "receipt_row h (co_store c') x row = receipt_row h (co_store c) x row" if "x \<noteq> s" for h x row
      using pa that sp by (simp add: receipt_row_def)
    ultimately show ?thesis using pa sp facts(2) unfolding rows_ok_def same by (metis not_less0 option.inject option.distinct(1))
  qed
  moreover have "unsafe_ok he ?c"
  proof -
    have u: "unsafe_ok he c" using inv by (simp add: host_inv_def)
    have new: "co_store_failed c' \<or> known_unknown ?c s" if "pending c s \<or> accounting_lost (co_guard c)"
    proof -
      have "pa_status (overridden (latched_event (co_guard c) s) args) = UNKNOWN"
        using that accounting_lost_event [OF g(1), of s] overridden_status k
        by (auto simp: pending_def will_be_unknown_def)
      moreover have "known_unknown ?c s \<longleftrightarrow> (\<exists>row. co_receipts c' s = Some row \<and> dget ''status'' (fst row) = PStr ''UNKNOWN'')"
        by (simp only: known_unknown_def same)
      ultimately show ?thesis using pa sp by (metis status_value.simps(4))
    qed
    have old: "pending ?c x \<or> known_unknown ?c x" if "pending c x \<or> known_unknown c x" "x \<noteq> s" for x
      using that pa sp unfolding pending_def known_unknown_def same ctl by auto
    have "known_unknown c s \<Longrightarrow> False" using facts(2) by (simp add: known_unknown_def)
    then show ?thesis using u pa new old facts(1) unfolding unsafe_ok_def same by metis
  qed
  moreover have "launch_matches he (co_store c')"
    using inv pa launch_matches_cong [of "co_store c'" "co_store c" he] unfolding host_inv_def by metis
  ultimately show ?thesis unfolding r using inv arm(1) same pa by (simp add: host_inv_def)
qed

lemma missing_inv:
  assumes inv: "hinv c" and gone: "workers_done he c" and i: "co_missing c < length (he_specs he)" "spec = he_specs he ! co_missing c"
    and none: "co_receipts c (ss_session_id spec) = None" and p: "persist_session he l d d' t spec args c = Inr c'"
  shows "hinv (c'\<lparr>co_missing := Suc (co_missing c')\<rparr>)"
proof -
  define s where "s = ss_session_id spec"
  have sp: "spec \<in> set (he_specs he)" "s \<in> set (session_ids_of he)" "session_ids_of he ! co_missing c = s"
    using i by (auto simp: s_def session_ids_of_def)
  have g: "guard_inv (co_guard c)" "arm_inv (co_arm c)" using inv by (simp_all add: host_inv_def)
  note pa = persist_session_as(1) [OF p g(1), folded s_def, unfolded persisted_as_def] and pe = persist_session_as(2) [OF p g(1)]
  let ?c = "c'\<lparr>co_missing := Suc (co_missing c')\<rparr>"
  have same: "co_guard ?c = co_guard c" "co_control ?c = co_control c" "co_missing ?c = Suc (co_missing c)" "co_cursor ?c = co_cursor c"
    "co_idle ?c = co_idle c" "co_store ?c = co_store c'" "co_receipts ?c = co_receipts c'" "co_arm ?c = co_arm c'"
    "co_store_failed ?c = co_store_failed c'" "co_unsafe ?c = co_unsafe c'"
    using pa by simp_all
  have arm: "arm_inv (co_arm c')" "\<And>x. refusals x (co_arm c') = refusals x (co_arm c)"
    using pe evidence_laws sp(1) g(2) by blast+
  have idle: "\<not> active (co_control c s)" using gone sp(2) by (simp add: workers_done_def list_all_iff)
  have "controls_ok he refusals ?c" using control_cases [OF inv] arm(2) by (simp add: controls_ok_def same)
  moreover have "places_ok he ?c"
  proof -
    have "places_ok he c" using inv by (simp add: host_inv_def)
    moreover have "workers_done he ?c" using gone by (simp add: workers_done_def same)
    ultimately show ?thesis using pa idle unfolding places_ok_def same by (metis nat.simps(3))
  qed
  moreover have "rows_ok he ?c"
  proof -
    have rows: "rows_ok he c" using inv by (simp add: host_inv_def)
    moreover have other: "receipt_row h (co_store c') x row = receipt_row h (co_store c) x row" if "x \<noteq> s" for h x row
      using pa that by (simp add: receipt_row_def)
    have "co_receipts c' (session_ids_of he ! j) \<noteq> None \<or> co_store_failed c'"
      if "j < Suc (co_missing c)" "j < length (session_ids_of he)" for j
    proof (cases "session_ids_of he ! j = s")
      case True
      with pa none s_def show ?thesis by auto
    next
      case False
      with that sp(3) have "j < co_missing c" by (metis less_SucE)
      with rows that(2) have "co_receipts c (session_ids_of he ! j) \<noteq> None \<or> co_store_failed c" by (auto simp: rows_ok_def)
      with False pa show ?thesis by auto
    qed
    moreover have "receipt_row (he_sha256 he) (co_store c') x row" if "co_receipts c' x = Some row" for x row
    proof (cases "x = s")
      case True
      with pa that none s_def show ?thesis by (metis option.distinct(1) option.inject)
    next
      case False
      with pa that have "co_receipts c x = Some row" by metis
      with rows have "receipt_row (he_sha256 he) (co_store c) x row" unfolding rows_ok_def by blast
      then show ?thesis unfolding other [OF False] .
    qed
    ultimately show ?thesis unfolding rows_ok_def same by blast
  qed
  moreover have "unsafe_ok he ?c"
  proof -
    have u: "unsafe_ok he c" using inv by (simp add: host_inv_def)
    have lost: "co_store_failed c' \<or> known_unknown ?c s" if "accounting_lost (co_guard c)"
    proof -
      have "pa_status (overridden (latched_event (co_guard c) s) args) = UNKNOWN"
        using accounting_lost_event [OF g(1) that, of s] overridden_status by blast
      moreover have "known_unknown ?c s \<longleftrightarrow> (\<exists>row. co_receipts c' s = Some row \<and> dget ''status'' (fst row) = PStr ''UNKNOWN'')"
        by (simp only: known_unknown_def same)
      ultimately show ?thesis using pa by (metis status_value.simps(4))
    qed
    have "\<not> will_be_unknown (co_control c s)" using idle by (auto simp: will_be_unknown_def)
    then have new: "co_store_failed c' \<or> known_unknown ?c s" if "pending c s" using that lost by (simp add: pending_def)
    have old: "pending ?c x \<or> known_unknown ?c x" if "pending c x \<or> known_unknown c x" "x \<noteq> s" for x
      using that pa unfolding pending_def known_unknown_def same by auto
    have "\<not> known_unknown c s" using none by (simp add: known_unknown_def s_def)
    then show ?thesis using u pa lost new old sp(2) unfolding unsafe_ok_def same by metis
  qed
  moreover have "launch_matches he (co_store c')"
    using inv pa launch_matches_cong [of "co_store c'" "co_store c" he] unfolding host_inv_def by metis
  ultimately show ?thesis using inv arm(1) same pa by (simp add: host_inv_def)
qed

end

lemma host_frame_arm [simp]:
  "host_frame s d (c\<lparr>co_arm := a\<rparr>) = host_frame s d c" "host_frame s d (c\<lparr>co_lock := x\<rparr>) = host_frame s d c"
  by (simp_all add: host_frame_def)

lemma public_result_cases: "error_ok e \<Longrightarrow> completed_ok t o' q \<Longrightarrow> b \<Longrightarrow> length ys + n \<le> length (bo_contributions o') \<Longrightarrow>
   control_ok b l n (publish_raises t o' q e ys) \<and> active (publish_raises t o' q e ys)"
  using publish_raises_ok by (simp add: publish_raises_def)

context arm_contract begin

lemma publish_next_moves:
  assumes inv: "hinv c" and k: "co_control c s = Publishing t o' q (x # xs) ys" and spec: "ss_session_id spec = s" and e: "error_ok e"
  shows "moves he s refusals c (publish_next he i e spec t o' q x xs ys c) \<and> arm_inv (co_arm (publish_next he i e spec t o' q x xs ys c)) \<and>
    (\<forall>u. u \<noteq> s \<longrightarrow> refusals u (co_arm (publish_next he i e spec t o' q x xs ys c)) = refusals u (co_arm c))"
proof -
  let ?n = "refusals s (co_arm c)"
  have a: "arm_inv (co_arm c)" using inv by (simp add: host_inv_def)
  have ok: "completed_ok t o' q" "bo_success o'" "he_publisher he" "set (x # xs) \<subseteq> set (bo_contributions o')"
    "length (x # xs) + length ys + ?n = length (bo_contributions o')"
    using control_cases [OF inv, of s] by (simp_all add: k)
  have x: "contribution_ok x"
    using ok(1,4) by (auto simp: completed_ok_def backend_outcome_ok_def outcome_ok_def)
  note raises = public_result_cases [OF _ ok(1,3)]
  note ids = orchestration_error_ok [OF reason_codes(15)] orchestration_error_ok [OF reason_codes(16)]
  show ?thesis
  proof (cases i)
    case False
    then show ?thesis using raises [OF ids(1), of ys ?n] ok a spec by (simp add: publish_next_def moves_def)
  next
    case i: True
    show ?thesis
    proof (cases "he_arm he")
      case None
      then show ?thesis using i ok a spec by (simp add: publish_next_def moves_def)
    next
      case (Some p)
      show ?thesis
      proof (cases "ap_review p spec x (co_arm c)")
        case (Inl err)
        then show ?thesis using raises [OF e, of ys ?n] ok a spec i Some by (simp add: publish_next_def moves_def)
      next
        case (Inr r)
        obtain b v where r: "r = (b, v)" by (cases r)
        from review [OF Some a x Inr [unfolded r]] obtain d where d: "arm_inv b" "v = PBool d"
          "\<And>u. refusals u b = refusals u (co_arm c) + (if u = ss_session_id spec \<and> \<not> d then 1 else 0)" by blast
        show ?thesis using Some Inr r i d spec ok
          by (cases d) (simp_all add: publish_next_def moves_def arm_admits_def Let_def)
      qed
    qed
  qed
qed

lemma publisher_answers_moves:
  assumes inv: "hinv c" and k: "co_control c s = Publisher_Called t o' q x xs ys" and spec: "ss_session_id spec = s" and e: "error_ok e"
    and r: "pred_sum error_ok (\<lambda>_. True) r"
  shows "moves he s refusals c (publisher_answers he r i e spec t o' q x xs ys c) \<and>
    arm_inv (co_arm (publisher_answers he r i e spec t o' q x xs ys c)) \<and>
    (\<forall>u. u \<noteq> s \<longrightarrow> refusals u (co_arm (publisher_answers he r i e spec t o' q x xs ys c)) = refusals u (co_arm c))"
proof -
  let ?n = "refusals s (co_arm c)"
  define d where "d = (if co_lock c = Some s then c\<lparr>co_lock := None\<rparr> else c)"
  have d: "host_frame s c d" "co_arm d = co_arm c" "co_unsafe d = co_unsafe c" by (simp_all add: d_def)
  have a: "arm_inv (co_arm c)" using inv by (simp add: host_inv_def)
  have ok: "completed_ok t o' q" "bo_success o'" "he_publisher he" "set (x # xs) \<subseteq> set (bo_contributions o')"
    "Suc (length xs + length ys + ?n) = length (bo_contributions o')"
    using control_cases [OF inv, of s] by (simp_all add: k)
  have x: "contribution_ok x"
    using ok(1,4) by (auto simp: completed_ok_def backend_outcome_ok_def outcome_ok_def)
  note raises = public_result_cases [OF _ ok(1,3)]
  note drift = orchestration_error_ok [OF reason_codes(15)]
  show ?thesis
  proof (cases r)
    case (Inl err)
    then show ?thesis using raises [of err ys ?n] assms(5) ok a spec d by (simp add: publisher_answers_def d_def [symmetric] moves_def)
  next
    case answer: (Inr v)
    show ?thesis
    proof (cases "public_result (he_sha256 he) v")
      case (Inl err)
      then show ?thesis using raises [OF e, of ys ?n] ok a spec d answer by (simp add: publisher_answers_def d_def [symmetric] moves_def)
    next
      case shown: (Inr w)
      have n: "length (ys @ [w]) + ?n \<le> length (bo_contributions o')" using ok(5) by simp
      define obs where "obs = (case he_arm he of None \<Rightarrow> Inr (co_arm d) | Some arm \<Rightarrow> ap_observe arm spec x v (co_arm d))"
      show ?thesis
      proof (cases obs)
        case (Inl err)
        then show ?thesis using raises [OF e n] ok a spec d answer shown
          by (simp add: publisher_answers_def d_def [symmetric] obs_def [symmetric] moves_def)
      next
        case (Inr b)
        then have b: "arm_inv b \<and> (\<forall>u. refusals u b = refusals u (co_arm c))"
          using observe [OF _ a x, of _ spec v b] a by (cases "he_arm he") (auto simp: obs_def d(2))
        have "publisher_answers he r i e spec t o' q x xs ys c =
            (if \<not> i then become s (publish_raises t o' q (orchestration_error ''PUBLICATION_IDENTITY_DRIFT'') (ys @ [w])) (d\<lparr>co_arm := b\<rparr>)
             else become s (Publishing t o' q xs (ys @ [w])) (d\<lparr>co_arm := b\<rparr>))"
          unfolding publisher_answers_def Let_def spec d_def [symmetric] answer sum.case shown obs_def [symmetric] Inr ..
        then show ?thesis using raises [OF drift n] ok a d b by (cases i) (simp_all add: moves_def)
      qed
    qed
  qed
qed

text \<open>Where the control of a session allows the step, the move keeps the invariant.\<close>

lemma active_moves:
  assumes inv: "hinv c" and m: "moves he s refusals c c'" and k: "active (co_control c s)" "\<not> will_be_unknown (co_control c s)"
    and arm: "co_arm c' = co_arm c \<or> arm_inv (co_arm c') \<and> (\<forall>u. u \<noteq> s \<longrightarrow> refusals u (co_arm c') = refusals u (co_arm c))"
  shows "hinv c'"
proof -
  have "arm_inv (co_arm c)" using inv by (simp add: host_inv_def)
  then show ?thesis using arm by (intro moves_inv [OF inv m] active_facts [OF inv k(1)] k(2)) auto
qed

end

lemma host_failed_arm [simp]: "co_arm (host_failed handle e s c) = co_arm c"
  by (simp add: host_failed_def split: option.splits)

lemma step_arm [simp]:
  "co_arm (session_activated he d t e s c) = co_arm c" "co_arm (session_started he d t e answer s c) = co_arm c"
  "co_arm (session_completed t r s c) = co_arm c" "co_arm (session_signalled he d t' e t event wall s c) = co_arm c"
  "co_arm (session_stopped t p q s c) = co_arm c" "co_arm (session_measured he t o' q s c) = co_arm c"
  "co_arm (prepare_session he d t e e' s c) = co_arm c"
  by (auto dest!: transition_frame(2) simp: session_activated_def session_started_def session_completed_def session_signalled_def session_stopped_def
      session_measured_def prepare_session_def Let_def split: option.splits sum.splits prod.splits stop_purpose.splits)

context arm_contract begin

lemma taken_inv:
  assumes inv: "hinv c" and idle: "0 < co_idle c" and cur: "co_cursor c < length (he_specs he)" and s: "s = ss_session_id (he_specs he ! co_cursor c)"
    and ok: "error_ok e" "pred_option error_ok e'" "time_ok t"
  shows "hinv (prepare_session he d t e e' s (c\<lparr>co_cursor := Suc (co_cursor c), co_idle := co_idle c - 1\<rparr>))"
proof -
  let ?c = "c\<lparr>co_cursor := Suc (co_cursor c), co_idle := co_idle c - 1\<rparr>"
  have w: "hinv ?c" by (rule worker_inv [OF inv idle idle_missing [OF inv idle]]) simp
  have at: "session_ids_of he ! co_cursor c = s" "co_cursor c < length (session_ids_of he)"
    using cur s by (simp_all add: session_ids_of_def)
  have p: "places_ok he c" "distinct (session_ids_of he)" using inv by (simp_all add: host_inv_def)
  have k: "co_control c s = Unstarted" using p(1) at unfolding places_ok_def by blast
  have r: "co_receipts c s = None" using p(1) k idle_missing [OF inv idle] by (simp add: places_ok_def)
  have z: "refusals s (co_arm c) = 0" using control_cases [OF inv, of s] k by simp
  show ?thesis
  proof (rule moves_inv [OF w])
    show "moves he s refusals ?c (prepare_session he d t e e' s ?c)" by (rule prepare_moves [OF ok]) (simp add: z)
    show "s \<in> set (session_ids_of he)" using at nth_mem by blast
    show "co_receipts ?c s = None" "co_missing ?c = 0" "\<not> will_be_unknown (co_control ?c s)"
      using r idle_missing [OF inv idle] k by (simp_all add: will_be_unknown_def)
    show "session_ids_of he ! i \<noteq> s" if "co_cursor ?c \<le> i" "i < length (session_ids_of he)" for i
      using that at p(2) nth_eq_iff_index_eq by fastforce
    show "arm_inv (co_arm (prepare_session he d t e e' s ?c))" using inv by (simp add: host_inv_def)
    show "refusals u (co_arm (prepare_session he d t e e' s ?c)) = refusals u (co_arm ?c)" for u by simp
  qed
qed

lemma host_step_inv:
  assumes "host_step he c c'" "hinv c" "\<forall>x. matches_sha256 (he_sha256 he x)"
  shows "hinv c'"
  using assms(1,2)
proof (induction rule: host_step.induct)
  case (hs_guard c g)
  then show ?case using guard_inv_step by blast
next
  case (hs_cancel c)
  then show ?case by (rule flag_inv)
next
  case (hs_take c s e e' t d)
  then show ?case by (intro taken_inv)
next
  case (hs_leave c)
  then show ?case using worker_inv [OF hs_leave.prems hs_leave.hyps(1) idle_missing [OF hs_leave.prems hs_leave.hyps(1)] order.refl] by simp
next
  case (hs_activated c s e t d)
  have "guard_inv (co_guard c)" "refusals s (co_arm c) = 0"
    using hs_activated.prems control_cases [OF hs_activated.prems, of s] hs_activated.hyps(1) by (simp_all add: host_inv_def)
  from activated_moves [OF this(1) hs_activated.hyps(3,4), of refusals, OF this(2)] show ?case
    by (rule active_moves [OF hs_activated.prems]) (simp_all add: hs_activated.hyps(1) not_unknown_control)
next
  case (hs_start_signal c s event)
  have "guard_inv (co_guard c)" using hs_start_signal.prems by (simp add: host_inv_def)
  from delivered_fine [OF this hs_start_signal.hyps(2)] show ?case
    using active_facts [OF hs_start_signal.prems, of s] hs_start_signal.hyps(1) by (intro observe_inv [OF hs_start_signal.prems]) simp_all
next
  case (hs_started c s r a b e t d i w j)
  let ?event = "latched_event (co_guard c) s"
  have g: "guard_inv (co_guard c)" "refusals s (co_arm c) = 0"
    using hs_started.prems control_cases [OF hs_started.prems, of s] hs_started.hyps(1) by (simp_all add: host_inv_def)
  have "start_answer_ok (start_session ?event i w r j a b)"
    by (rule start_session_ok [OF hs_started.hyps(2-4) latched_fine [OF g(1) refl]])
  from started_moves [OF g(1) hs_started.hyps(5,6), of refusals, OF g(2) this] show ?case
    by (rule active_moves [OF hs_started.prems]) (simp_all add: hs_started.hyps(1) not_unknown_control)
next
  case (hs_completed c s t r)
  have "time_ok t" "refusals s (co_arm c) = 0" using control_cases [OF hs_completed.prems, of s] hs_completed.hyps(1) by simp_all
  from completed_moves [OF this(1) hs_completed.hyps(2), of refusals, OF this(2)] show ?case
    by (rule active_moves [OF hs_completed.prems]) (simp_all add: hs_completed.hyps(1) not_unknown_control)
next
  case (hs_signalled c s t event wall e t' d)
  have "guard_inv (co_guard c)" using hs_signalled.prems by (simp add: host_inv_def)
  note fine = delivered_fine [OF this hs_signalled.hyps(3)]
  have "time_ok t" "refusals s (co_arm c) = 0" using control_cases [OF hs_signalled.prems, of s] hs_signalled.hyps(1) by simp_all
  from signalled_moves [OF fine this(1) hs_signalled.hyps(4), of refusals, OF this(2)] show ?case
    by (rule active_moves [OF hs_signalled.prems]) (simp_all add: hs_signalled.hyps(1) not_unknown_control)
next
  case (hs_stopped c s t p a)
  have "time_ok t" "purpose_ok (accounting_lost (co_guard c)) p" "refusals s (co_arm c) = 0"
    using control_cases [OF hs_stopped.prems, of s] hs_stopped.hyps(1) by simp_all
  from stopped_moves [OF this(2,1) stop_session_ok [OF hs_stopped.hyps(2)], of refusals, OF this(3)] show ?case
    by (rule active_moves [OF hs_stopped.prems]) (simp_all add: hs_stopped.hyps(1) not_unknown_control)
next
  case (hs_drained c s t event wall p outcome)
  have "event_fine (accounting_lost (co_guard c)) event" "time_ok t" "stop_proof_ok p" "refusals s (co_arm c) = 0"
    using control_cases [OF hs_drained.prems, of s] hs_drained.hyps(1) by simp_all
  from drained_moves [OF this(1-3), of refusals, OF this(4) hs_drained.hyps(2)] show ?case
    by (rule active_moves [OF hs_drained.prems]) (simp_all add: hs_drained.hyps(1) not_unknown_control)
next
  case (hs_measured c s t outcome p)
  have "guard_inv (co_guard c)" "completed_ok t outcome p" "refusals s (co_arm c) = 0"
    using hs_measured.prems control_cases [OF hs_measured.prems, of s] hs_measured.hyps(1) by (simp_all add: host_inv_def)
  from measured_moves [OF this(1,2), of refusals, OF this(3)] show ?case
    by (rule active_moves [OF hs_measured.prems]) (simp_all add: hs_measured.hyps(1) not_unknown_control)
next
  case (hs_publish c s t outcome p x xs ys spec e i)
  have sp: "ss_session_id spec = s" using spec_of_Some [OF hs_publish.hyps(3)] by simp
  note m = publish_next_moves [OF hs_publish.prems hs_publish.hyps(1) sp hs_publish.hyps(4), of i]
  show ?case
    by (rule active_moves [OF hs_publish.prems m [THEN conjunct1]]) (simp_all add: hs_publish.hyps(1) not_unknown_control m)
next
  case (hs_answers c s t outcome p x xs ys spec r e i)
  have sp: "ss_session_id spec = s" using spec_of_Some [OF hs_answers.hyps(2)] by simp
  note m = publisher_answers_moves [OF hs_answers.prems hs_answers.hyps(1) sp hs_answers.hyps(4,3), of i]
  show ?case
    by (rule active_moves [OF hs_answers.prems m [THEN conjunct1]]) (simp_all add: hs_answers.hyps(1) not_unknown_control m)
next
  case (hs_published c s t outcome p ys)
  have ok: "completed_ok t outcome p" "bo_success outcome" "length ys + refusals s (co_arm c) = length (bo_contributions outcome)" "he_publisher he"
    using control_cases [OF hs_published.prems, of s] hs_published.hyps(1) by simp_all
  have "moves he s refusals c (become s (Persisting False (published_args t outcome p ys)) c)"
    using published_ok [OF ok(1-3)] ok(4) by (simp add: moves_def)
  then show ?case by (rule active_moves [OF hs_published.prems]) (simp_all add: hs_published.hyps(1) not_unknown_control)
next
  case (hs_fails c s handle e)
  have k: "active (co_control c s)" "\<not> will_be_unknown (co_control c s)"
    using hs_fails.hyps(1) by (auto simp: may_fail_def will_be_unknown_def active_def split: session_control.splits)
  have "pred_option time_ok handle \<and> refusals s (co_arm c) = 0"
    using hs_fails.hyps(1) control_cases [OF hs_fails.prems, of s]
    by (auto simp: may_fail_def completed_ok_def split: session_control.splits stop_purpose.splits)
  then have "moves he s refusals c (host_failed handle e s c)"
    using host_failed_moves [OF host_frame_refl hs_fails.hyps(2), of handle refusals s c] by simp
  then show ?case by (rule active_moves [OF hs_fails.prems _ k]) simp
next
  case (hs_persisted c s handling args spec e t l d d')
  then show ?case using persisted_inv assms(3) by blast
next
  case (hs_worker_errors c s)
  then show ?case using control_cases [OF hs_worker_errors.prems, of s] by simp
next
  case (hs_recorded c)
  then show ?case
    by (auto simp: host_inv_def places_ok_def rows_ok_def workers_done_def controls_ok_def unsafe_ok_def pending_def known_unknown_def
        session_ids_of_def less_Suc_eq)
next
  case (hs_missing c spec t l d d' c')
  then show ?case using missing_inv by blast
qed

lemma host_reachable_inv:
  "host_reachable he c c' \<Longrightarrow> hinv c \<Longrightarrow> \<forall>x. matches_sha256 (he_sha256 he x) \<Longrightarrow> hinv c'"
  by (induction rule: host_reachable.induct) (auto intro: host_step_inv)

end

text \<open>The guard that \<open>run_prepared_cohort\<close> starts.\<close>

definition guard_opened :: "'a host_env \<Rightarrow> safety_profile \<Rightarrow> string + disk_snapshot \<Rightarrow> resource_event option \<Rightarrow> resource_guard \<Rightarrow> bool" where
  "guard_opened he profile answer event g \<longleftrightarrow> profile_ok profile \<and> disk_answer_ok profile answer \<and>
     (\<exists>g0. guard_init profile (session_ids_of he) = Inr g0 \<and> guard_start answer g0 = Inr (event, g))"

lemma guard_opened_ok:
  assumes "guard_opened he profile answer event g"
  shows "guard_inv g" "gd_session_ids g = session_ids_of he" "distinct (session_ids_of he)" "session_ids_of he \<noteq> []"
    "event_fine (accounting_lost g) event"
proof -
  obtain g0 where g0: "guard_init profile (session_ids_of he) = Inr g0" "guard_start answer g0 = Inr (event, g)"
    "profile_ok profile" "disk_answer_ok profile answer"
    using assms by (auto simp: guard_opened_def)
  note i = guard_init_inv [OF g0(1,3)]
  have f: "gd_profile g0 = profile" "gd_global_terminal g0 = None"
    using g0(1) by (auto simp: guard_init_def split: if_splits)
  have step: "guard_step g0 g" using g0(2,4) f(1) gs_start by blast
  have good: "good_step g0 g" using guard_step_good [OF step] i by blast
  then show "guard_inv g" "gd_session_ids g = session_ids_of he" using i by (simp_all add: good_step_def)
  show "distinct (session_ids_of he)" "session_ids_of he \<noteq> []" using g0(1) by (auto simp: guard_init_def split: if_splits)
  let ?g = "g0\<lparr>gd_started := True\<rparr>"
  obtain h where h: "check_disk Initial answer ?g = Inr (event, h)" "gd_global_terminal g = gd_global_terminal h"
    using g0(2) by (auto simp: guard_start_def rbind_Inr_iff split: if_splits)
  have "''DISK_RESERVE_BREACHED'' \<in> set REQUIRED_SAFETY_CODES" by code_simp
  then have code: "is_TERMINAL_REASON ''DISK_RESERVE_BREACHED''" using profile_known [OF g0(3)] by blast
  show "event_fine (accounting_lost g) event"
  proof (cases answer)
    case (Inl name)
    with h f have "event = Some (uncertain_event Host_Filesystem Initial None name)"
      "gd_global_terminal h = Some (uncertain_event Host_Filesystem Initial None name)"
      by (auto simp: check_disk_def Let_def latch_event_def latch_def uncertain_event_def)
    with h(2) show ?thesis by (simp add: accounting_lost_def uncertain_event_def)
  next
    case (Inr d)
    with h code show ?thesis
      by (auto simp: check_disk_def Let_def latch_event_def latch_def rbind_Inr_iff split: if_splits)
  qed
qed

context arm_contract begin

lemma host_init_inv:
  assumes "guard_opened he profile answer event g" "launch_matches he st" "st_launch st = launch" "arm_inv a" "\<And>s. refusals s a = 0"
  shows "hinv (controller_init he event g a st)"
proof -
  note g = guard_opened_ok [OF assms(1)]
  let ?c = "\<lparr>co_guard = g, co_arm = a, co_lock = None, co_store = st, co_stop_new = False, co_unsafe = False, co_store_failed = False,
      co_receipts = (\<lambda>_. None), co_revisions = (\<lambda>_. 0), co_cursor = 0, co_control = (\<lambda>_. Unstarted),
      co_idle = he_concurrency he, co_missing = 0\<rparr>"
  have "hinv ?c"
    using g assms(2-5) by (simp add: host_inv_def controls_ok_def places_ok_def rows_ok_def unsafe_ok_def)
  moreover have "hd (session_ids_of he) \<in> set (session_ids_of he)" using g(4) by simp
  ultimately show ?thesis unfolding controller_init_def using g(5) by (intro observe_inv) simp_all
qed

text \<open>No worker is ever lost to an exception in \<open>_persist\<close>.\<close>

lemma never_crashed: "hinv c \<Longrightarrow> co_control c s \<noteq> Crashed"
  using control_cases [of he launch arm_inv refusals c s] by auto

lemma session_receipt:
  assumes "hinv c" "co_control c s = Persisting handling args" "spec_of he s = Some spec" "time_ok now" "\<forall>x. matches_sha256 (he_sha256 he x)"
  shows "\<exists>receipt a. persist_receipt he ledger now spec (overridden (latched_event (co_guard c) s) args) c = Inr (receipt, a) \<and>
    validate_receipt_value s (co_store c) receipt =
      rbind (validate_agenda_arm_evidence s launch (dget ''agenda_arm'' receipt)) (\<lambda>_. Inr ())"
proof -
  have sp: "spec \<in> set (he_specs he)" "ss_session_id spec = s" using spec_of_Some [OF assms(3)] by simp_all
  have "args_ok (he_publisher he) (refusals (ss_session_id spec) (co_arm c)) (accounting_lost (co_guard c)) args"
    using control_cases [OF assms(1), of s] assms(2) sp(2) by simp
  from persist_total [OF assms(1) sp(1) assms(4) _ this, of ledger] assms(5) show ?thesis unfolding sp(2) by blast
qed

lemma concat_rows:
  "\<forall>s \<in> set ids. co_receipts c s \<noteq> None \<Longrightarrow>
   concat (map (\<lambda>s. case co_receipts c s of None \<Rightarrow> []
      | Some (receipt, digest) \<Rightarrow> [PDict [(''session_id'', PStr s), (''status'', dget ''status'' receipt), (''receipt_sha256'', PStr digest)]]) ids) =
   map (\<lambda>s. PDict [(''session_id'', PStr s), (''status'', dget ''status'' (fst (the (co_receipts c s)))),
      (''receipt_sha256'', PStr (snd (the (co_receipts c s))))]) ids"
  by (induction ids) auto

lemma all_recorded:
  assumes "hinv c" "co_missing c = length (he_specs he)" "\<not> co_store_failed c" "s \<in> set (session_ids_of he)"
  shows "\<exists>row. co_receipts c s = Some row \<and> receipt_row (he_sha256 he) (co_store c) s row"
proof -
  have n: "length (session_ids_of he) = length (he_specs he)" by (simp add: session_ids_of_def)
  obtain i where i: "i < length (he_specs he)" "session_ids_of he ! i = s" using assms(4) n by (metis in_set_conv_nth)
  have "rows_ok he c" using assms(1) by (simp add: host_inv_def)
  then have "co_receipts c s \<noteq> None" "\<And>row. co_receipts c s = Some row \<Longrightarrow> receipt_row (he_sha256 he) (co_store c) s row"
    using i n assms(2,3) unfolding rows_ok_def by metis+
  then show ?thesis by (cases "co_receipts c s") auto
qed

text \<open>The settlement that the host computes is the one the store derives from the statuses, over one row for every session.\<close>

lemma settlement_outcome_expected:
  assumes "hinv c" "co_missing c = length (he_specs he)" "\<not> co_store_failed c"
  shows "settlement_outcome he c = expected_outcome (settlement_statuses he c)"
    "list_all2 (\<lambda>s row. \<exists>status raw. row = PDict [(''session_id'', PStr s), (''status'', PStr (status_value status)),
         (''receipt_sha256'', PStr (he_sha256 he raw))] \<and> st_receipts (co_store c) s = Some raw) (session_ids_of he) (settlement_rows he c)"
proof -
  let ?ids = "session_ids_of he"
  note rec = all_recorded [OF assms]
  then have rows: "settlement_rows he c = map (\<lambda>s. PDict [(''session_id'', PStr s),
      (''status'', dget ''status'' (fst (the (co_receipts c s)))), (''receipt_sha256'', PStr (snd (the (co_receipts c s))))]) ?ids"
    unfolding settlement_rows_def using rec by (intro concat_rows) blast
  have at: "\<exists>status raw. dget ''status'' (fst (the (co_receipts c s))) = PStr (status_value status) \<and>
      snd (the (co_receipts c s)) = he_sha256 he raw \<and> st_receipts (co_store c) s = Some raw" if "s \<in> set ?ids" for s
    using rec [OF that] by (auto simp: receipt_row_def)
  show "list_all2 (\<lambda>s row. \<exists>status raw. row = PDict [(''session_id'', PStr s), (''status'', PStr (status_value status)),
         (''receipt_sha256'', PStr (he_sha256 he raw))] \<and> st_receipts (co_store c) s = Some raw) ?ids (settlement_rows he c)"
    unfolding rows list_all2_map2 by (rule list_all2_same [THEN iffD2]) (use at in \<open>simp; blast\<close>)
  have n: "length (settlement_statuses he c) = length (he_specs he)"
    by (simp add: settlement_statuses_def rows session_ids_of_def)
  have st: "settlement_statuses he c = map (\<lambda>s. text_of (dget ''status'' (fst (the (co_receipts c s))))) ?ids"
    by (simp add: settlement_statuses_def rows dget_def [of _ "_ # _"] comp_def)
  have unknown: "''UNKNOWN'' \<in> set (settlement_statuses he c)" if unsafe: "co_unsafe c"
  proof -
    have "unsafe_ok he c" using assms(1) by (simp add: host_inv_def)
    then obtain s where s: "s \<in> set ?ids" "pending c s \<or> known_unknown c s" using unsafe assms(3) by (auto simp: unsafe_ok_def)
    with rec [OF s(1)] have "known_unknown c s" by (auto simp: pending_def)
    then have "text_of (dget ''status'' (fst (the (co_receipts c s)))) = ''UNKNOWN''" by (auto simp: known_unknown_def text_of_def)
    with s(1) show ?thesis unfolding st by force
  qed
  show "settlement_outcome he c = expected_outcome (settlement_statuses he c)"
    using unknown n assms(3) by (auto simp: settlement_outcome_def expected_outcome_def Let_def)
qed

end

end
