(* ===== verification/Runtime_Examples.thy ===== *)
theory Runtime_Examples
  imports Host_Invariant Arm_Examples
begin

text \<open>
  A launch with one session, a guard, a store and a host for it, and runs of its controller: the data of the
  concrete instances in \<^verbatim>\<open>Runtime_Properties\<close>.
\<close>

section \<open>A launch\<close>

definition runtime_digest :: "string \<Rightarrow> string" where
  "runtime_digest raw = replicate 64 (CHR ''0'')"

definition sample_limits :: tree_limits where
  "sample_limits = \<lparr>tl_maximum_total_bytes = 1000, tl_maximum_entries = 10, tl_maximum_file_bytes = None, tl_maximum_depth = 5,
     tl_scan_mode = QUIESCENT\<rparr>"

definition sample_capture_limits :: capture_limits where
  "sample_capture_limits = \<lparr>cl_maximum_retained_bytes = 3, cl_maximum_observed_bytes = 4, cl_tail_bytes = 2\<rparr>"

definition sample_profile :: safety_profile where
  "sample_profile = \<lparr>pf_name = ''safe'', pf_sha256 = replicate 64 (CHR ''1''),
     pf_dispositions = map (\<lambda>c. (c, if c = ''OBSERVED_OUTPUT_SAFETY_CAP'' then JOB_STOP else SESSION_STOP)) REQUIRED_SAFETY_CODES,
     pf_reserve = (\<lambda>_. 10), pf_workspace = sample_limits, pf_runtime_cache = sample_limits,
     pf_legacy_captures = [(''bash'', sample_capture_limits), (''long_job'', sample_capture_limits)]\<rparr>"

definition sample_launch :: pyval where
  "sample_launch = PDict
     [(''plan_sha256'', PStr (replicate 64 (CHR ''4''))), (''backend_sha256'', PStr (replicate 64 (CHR ''5''))),
      (''cohort_id'', PStr ''cohort''), (''world_id'', PStr ''w''), (''world_ref'', PStr ''refs/pmw/w''),
      (''base_snapshot_ref'', PStr (''snapshot/sha256/'' @ replicate 64 (CHR ''0''))),
      (''session_ids'', texts [''b'']), (''backend_context_window_control'', PStr ''ENFORCED''),
      (''publication'', PDict [(''mode'', PStr ''WORLD'')]), (''verifier_kit'', PDict [(''mode'', PStr ''DISABLED'')]),
      (''agenda_arm'', PDict [(''mode'', PStr ''NOT_CONFIGURED'')])]"

definition sample_host :: "agenda_arm host_env" where
  "sample_host = \<lparr>he_specs = [sample_spec ''b''], he_concurrency = 1, he_plan_sha256 = replicate 64 (CHR ''4''),
     he_launch_sha256 = replicate 64 (CHR ''6''), he_backend_sha256 = replicate 64 (CHR ''5''),
     he_policy = \<lparr>cw_default_tokens = None, cw_overrides = []\<rparr>, he_window_control = ''ENFORCED'', he_publisher = True,
     he_kit = None, he_arm = None, he_sha256 = runtime_digest\<rparr>"

definition sample_store :: runtime_store where
  "sample_store = \<lparr>st_launch = sample_launch, st_launch_sha256 = replicate 64 (CHR ''6''), st_sessions = [''b''],
     st_states = (\<lambda>_. None), st_receipts = (\<lambda>_. None), st_settlement = None\<rparr>"

definition sample_guard0 :: resource_guard where
  "sample_guard0 = projr (guard_init sample_profile [''b''])"

definition sample_guard :: resource_guard where
  "sample_guard = snd (projr (guard_start (Inr \<lparr>dk_total_bytes = 100, dk_available_bytes = 50, dk_required_free_bytes = 10\<rparr>) sample_guard0))"

lemma runtime_digest_ok: "matches_sha256 (runtime_digest raw)"
proof -
  have "matches_sha256 (replicate 64 (CHR ''0''))" by code_simp
  then show ?thesis by (simp add: runtime_digest_def)
qed

lemma sample_profile_ok: "profile_ok sample_profile"
proof -
  have "set (keys (pf_dispositions sample_profile)) = set REQUIRED_SAFETY_CODES"
    by (simp add: sample_profile_def keys_def comp_def)
  moreover have "map_of (pf_dispositions sample_profile) ''OBSERVED_OUTPUT_SAFETY_CAP'' = Some JOB_STOP"
    "is_PROFILE_NAME (pf_name sample_profile)" "matches_sha256 (pf_sha256 sample_profile)"
    "set (keys (pf_legacy_captures sample_profile)) = {''bash'', ''long_job''}"
    by code_simp+
  ultimately show ?thesis
    by (simp add: profile_ok_def check_profile_def) (simp add: sample_profile_def sample_limits_def)
qed

lemma sample_guard_init: "guard_init sample_profile [''b''] = Inr sample_guard0"
  by (simp add: sample_guard0_def guard_init_def)

lemma sample_disk_ok: "disk_answer_ok sample_profile (Inr \<lparr>dk_total_bytes = 100, dk_available_bytes = 50, dk_required_free_bytes = 10\<rparr>)"
proof -
  have "read_disk_snapshot sample_profile (Some \<lparr>f_frsize = 1, f_bsize = 1, f_blocks = 100, f_bavail = 50\<rparr>) =
      Inr \<lparr>dk_total_bytes = 100, dk_available_bytes = 50, dk_required_free_bytes = 10\<rparr>"
    by (simp add: read_disk_snapshot_def required_free_bytes_def sample_profile_def Let_def)
  then show ?thesis unfolding disk_answer_ok_def by auto
qed

lemma sample_guard_start:
  "guard_start (Inr \<lparr>dk_total_bytes = 100, dk_available_bytes = 50, dk_required_free_bytes = 10\<rparr>) sample_guard0 = Inr (None, sample_guard)"
  by (simp add: sample_guard_def sample_guard0_def guard_init_def guard_start_def check_disk_def Let_def)

lemma sample_guard_opened: "session_ids_of he = [''b''] \<Longrightarrow>
    guard_opened he sample_profile (Inr \<lparr>dk_total_bytes = 100, dk_available_bytes = 50, dk_required_free_bytes = 10\<rparr>) None sample_guard"
  using sample_profile_ok sample_disk_ok sample_guard_init sample_guard_start by (auto simp: guard_opened_def)

lemma sample_session_ids: "session_ids_of sample_host = [''b'']" "session_ids_of (agenda_host sha256 sample_host) = [''b'']"
  "session_ids_of (sample_host\<lparr>he_arm := x\<rparr>) = [''b'']"
  by (simp_all add: session_ids_of_def sample_host_def sample_spec_def agenda_host_def)

lemma sample_launch_matches: "launch_matches (sample_host\<lparr>he_arm := x\<rparr>) sample_store"
proof -
  have "is_ID ''b''" by code_simp
  moreover have "effective_tokens ''b'' sample_launch = PNone"
    by (simp add: effective_tokens_def sample_launch_def dget_def elements_of_def)
  ultimately show ?thesis
    by (simp add: launch_matches_def sample_store_def session_ids_of_def sample_host_def sample_spec_def window_for_session_def
        kit_block_ok_def sample_launch_def dget_def opt_int_def Let_def)
qed

section \<open>A host with the agenda arm\<close>

lemma agenda_host_ids [simp]: "session_ids_of (agenda_host sha256 he) = session_ids_of he" "he_sha256 (agenda_host sha256 he) = he_sha256 he"
  by (simp_all add: session_ids_of_def agenda_host_def)

lemma agenda_run:
  assumes "guard_opened he profile answer event g" "launch_matches (agenda_host sha256 he) st"
    and "arm_init sha256' cf session_ids base = Inr a" "base_ok base" "set (session_ids_of he) \<subseteq> set (ar_session_ids a)"
    and "\<forall>x. matches_sha256 (he_sha256 he x)"
    and "host_reachable (agenda_host sha256 he) (controller_init (agenda_host sha256 he) event g a st) c"
  shows "agenda.hinv sha256 he (st_launch st) c"
proof -
  note i = arm_init_Inr [OF assms(3,4)]
  have "guard_opened (agenda_host sha256 he) profile answer event g" using assms(1) by (simp add: guard_opened_def)
  moreover have "agenda_inv (he_specs he) a" using i(1,2) assms(5) by (auto simp: agenda_inv_def session_ids_of_def)
  moreover have "agenda_refusals s a = 0" for s
    using i(5) by (simp add: agenda_refusals_def decisions_of_def get_ledger_def empty_ledger_def)
  ultimately have "agenda.hinv sha256 he (st_launch st) (controller_init (agenda_host sha256 he) event g a st)"
    using agenda.host_init_inv [OF _ assms(2) refl] by blast
  from agenda.host_reachable_inv [OF assms(7) this] assms(6) show ?thesis by simp
qed

lemma sample_ids_known: "set (session_ids_of sample_host) \<subseteq> set (ar_session_ids sample_arm)"
  by (simp add: sample_session_ids sample_ids)

lemma sample_agenda_matches: "launch_matches (agenda_host sha256 sample_host) sample_store"
  unfolding agenda_host_def by (rule sample_launch_matches)

lemma sample_spec_of: "spec_of sample_host ''b'' = Some (sample_spec ''b'')"
  by (simp add: spec_of_def sample_host_def sample_spec_def)

definition sample_run :: "agenda_arm controller" where
  "sample_run = controller_init (agenda_host runtime_digest sample_host) None sample_guard sample_arm sample_store"

section \<open>Runs\<close>

definition sample_failure :: session_error where
  "sample_failure = \<lparr>er_code = None, er_type = ''builtins.OSError''\<rparr>"

lemma sample_failure_ok: "error_ok sample_failure" "time_ok ''2026-01-01T00:00:00Z''"
  by (simp_all add: error_ok_def sample_failure_def ascii_def time_ok_def cc_def)

lemma sample_init_run: "controller_init (agenda_host runtime_digest sample_host) None sample_guard sample_arm sample_store = sample_run"
  by (simp add: sample_run_def)

lemma sample_reachable:
  "host_reachable (agenda_host runtime_digest sample_host) sample_run c \<Longrightarrow>
   host_reachable (agenda_host runtime_digest sample_host) (controller_init (agenda_host runtime_digest sample_host) None sample_guard sample_arm sample_store) c"
  by (simp only: sample_init_run)

lemmas sample_reach = sample_guard_opened [OF sample_session_ids(1)] sample_agenda_matches sample_arm_init sample_base_ok sample_ids_known

lemma sample_host_sha: "\<forall>x. matches_sha256 (he_sha256 sample_host x)"
  by (simp add: sample_host_def runtime_digest_ok)

definition sample_prepared :: "agenda_arm controller" where
  "sample_prepared = prepare_session (agenda_host runtime_digest sample_host) Disk_Writes ''2026-01-01T00:00:00Z'' sample_failure
     (Some sample_failure) ''b'' (sample_run\<lparr>co_cursor := 1, co_idle := 0\<rparr>)"

lemma sample_run_simps [simp]: "co_idle sample_run = 1" "\<not> co_stop_new sample_run" "co_cursor sample_run = 0"
  "co_missing sample_run = 0" "co_control sample_run = (\<lambda>_. Unstarted)" "co_guard sample_run = sample_guard" "co_arm sample_run = sample_arm"
  "co_receipts sample_run = (\<lambda>_. None)" "co_store_failed sample_run = False" "co_store sample_run = sample_store"
  by (simp_all add: sample_run_def controller_init_def observe_resource_event_def agenda_host_def sample_host_def)

lemma sample_prepared_reachable: "host_reachable (agenda_host runtime_digest sample_host) sample_run sample_prepared"
proof -
  have "host_step (agenda_host runtime_digest sample_host) sample_run (prepare_session (agenda_host runtime_digest sample_host) Disk_Writes
      ''2026-01-01T00:00:00Z'' sample_failure (Some sample_failure) ''b''
      (sample_run\<lparr>co_cursor := Suc (co_cursor sample_run), co_idle := co_idle sample_run - 1\<rparr>))"
    using sample_failure_ok by (intro hs_take) (simp_all add: sample_host_def sample_spec_def)
  then show ?thesis by (auto simp: sample_prepared_def intro: hr_step hr_start)
qed

lemma sample_prepared_control:
  "co_control sample_prepared ''b'' = Persisting True (host_failure_args None None sample_failure)"
  by (simp add: sample_prepared_def prepare_session_def host_failed_def become_def split: prod.splits sum.splits)

text \<open>The run of a launch that is cancelled before it starts\<close>

definition sample_idle :: "agenda_arm controller" where
  "sample_idle = sample_run\<lparr>co_stop_new := True, co_idle := 0, co_guard := sample_guard\<lparr>gd_finished := {''b''}\<rparr>\<rparr>"

lemma sample_idle_reachable: "host_reachable (agenda_host runtime_digest sample_host) sample_run sample_idle"
proof -
  let ?he = "agenda_host runtime_digest sample_host"
  have a: "host_step ?he sample_run (sample_run\<lparr>co_stop_new := True\<rparr>)" by (rule hs_cancel)
  have b: "host_step ?he (sample_run\<lparr>co_stop_new := True\<rparr>) (sample_run\<lparr>co_stop_new := True, co_idle := 0\<rparr>)"
    using hs_leave [of "sample_run\<lparr>co_stop_new := True\<rparr>" ?he] by simp
  have "finish_begin ''b'' sample_guard = Inr (None, sample_guard\<lparr>gd_finished := {''b''}\<rparr>)" "gd_control sample_guard ''b'' = Outside"
    by (simp_all add: sample_guard_def sample_guard0_def guard_init_def guard_start_def check_disk_def Let_def finish_begin_def
        require_session_def latched_event_def)
  then have "guard_step sample_guard (sample_guard\<lparr>gd_finished := {''b''}\<rparr>)" by (rule gs_finish [rotated])
  then have c: "host_step ?he (sample_run\<lparr>co_stop_new := True, co_idle := 0\<rparr>) sample_idle"
    using hs_guard [of "sample_run\<lparr>co_stop_new := True, co_idle := 0\<rparr>" "sample_guard\<lparr>gd_finished := {''b''}\<rparr>" ?he]
    by (simp add: sample_idle_def)
  show ?thesis by (rule hr_step [OF hr_step [OF hr_step [OF hr_start a] b] c])
qed

lemma sample_settled: "\<exists>c. host_reachable (agenda_host runtime_digest sample_host) sample_run c \<and> co_missing c = length (he_specs sample_host)"
proof -
  let ?he = "agenda_host runtime_digest sample_host" and ?t = "''2026-01-01T00:00:00Z''"
  have reach: "host_reachable ?he (controller_init ?he None sample_guard sample_arm sample_store) sample_idle"
    using sample_idle_reachable by (simp add: sample_init_run)
  have inv: "agenda.hinv runtime_digest sample_host (st_launch sample_store) sample_idle"
    by (rule agenda_run [OF sample_reach sample_host_sha reach])
  have spec: "sample_spec ''b'' \<in> set (he_specs ?he)" "he_specs sample_host = [sample_spec ''b'']" by (simp_all add: sample_host_def)
  have id: "ss_session_id (sample_spec ''b'') = ''b''" by (simp add: sample_spec_def)
  have none: "agenda_refusals ''b'' sample_arm = 0"
    using sample_arm(5) by (simp add: agenda_refusals_def decisions_of_def get_ledger_def empty_ledger_def)
  have ok: "args_ok (he_publisher ?he) (agenda_refusals (ss_session_id (sample_spec ''b'')) (co_arm sample_idle))
      (accounting_lost (co_guard sample_idle)) not_started_args"
    unfolding id by (simp add: sample_idle_def none not_started_ok)
  have sha: "\<And>x. matches_sha256 (he_sha256 ?he x)" using sample_host_sha by simp
  obtain c where c: "persist_session ?he No_Ledger Disk_Writes Disk_Writes ?t (sample_spec ''b'') not_started_args sample_idle = Inr c"
    using agenda.persist_session_total [OF inv spec(1) sample_failure_ok(2) sha ok] by blast
  have m: "co_missing sample_idle = 0" "co_receipts sample_idle ''b'' = None" "guard_finished ''b'' sample_idle" "workers_done ?he sample_idle"
    by (simp_all add: sample_idle_def guard_finished_def workers_done_def sample_session_ids)
  have cm: "co_missing c = 0"
    using persist_session_as(1) [OF c] inv m(1) by (simp add: persisted_as_def host_inv_def)
  have step: "host_step ?he sample_idle (c\<lparr>co_missing := Suc (co_missing c)\<rparr>)"
    by (rule hs_missing [OF m(4) _ _ _ _ sample_failure_ok(2) c]) (simp_all add: m spec id)
  show ?thesis
    by (rule exI [of _ "c\<lparr>co_missing := Suc (co_missing c)\<rparr>"])
      (use hr_step [OF sample_idle_reachable step] cm spec(2) in simp)
qed

definition sample_lost_guard :: resource_guard where
  "sample_lost_guard = snd (projr (guard_start (Inl ''E'') sample_guard0))"

lemma sample_lost_start: "guard_start (Inl ''E'') sample_guard0 = Inr (Some (uncertain_event Host_Filesystem Initial None ''E''), sample_lost_guard)"
  by (simp add: sample_lost_guard_def sample_guard0_def guard_init_def guard_start_def check_disk_def latch_event_def latch_def
      uncertain_event_def Let_def)

definition sample_outcome_of :: "research_contribution list \<Rightarrow> backend_outcome" where
  "sample_outcome_of xs = projr (backend_outcome_init (PBool True) (PStr ''COMPLETED'') (PStr ''done'') xs PNone PNone None)"

lemma sample_outcome_init:
  "backend_outcome_init (PBool True) (PStr ''COMPLETED'') (PStr ''done'') [] PNone PNone None = Inr (sample_outcome_of [])"
  "backend_outcome_init (PBool True) (PStr ''COMPLETED'') (PStr ''done'') [sample_contribution] PNone PNone None =
     Inr (sample_outcome_of [sample_contribution])"
proof -
  have "\<not> isl (backend_outcome_init (PBool True) (PStr ''COMPLETED'') (PStr ''done'') [] PNone PNone None)"
    "\<not> isl (backend_outcome_init (PBool True) (PStr ''COMPLETED'') (PStr ''done'') [sample_contribution] PNone PNone None)" by code_simp+
  then show "backend_outcome_init (PBool True) (PStr ''COMPLETED'') (PStr ''done'') [] PNone PNone None = Inr (sample_outcome_of [])"
    "backend_outcome_init (PBool True) (PStr ''COMPLETED'') (PStr ''done'') [sample_contribution] PNone PNone None =
     Inr (sample_outcome_of [sample_contribution])"
    by (simp_all add: sample_outcome_of_def)
qed

definition sample_kit :: verifier_kit where
  "sample_kit = \<lparr>vk_file_bytes = [3], vk_content_sha256 = replicate 64 (CHR ''7''), vk_manifest_sha256 = replicate 64 (CHR ''7''),
     vk_sha256 = replicate 64 (CHR ''7''), vk_target_ids = [''t''], vk_source_commit = replicate 40 (CHR ''7''),
     vk_source_tree_sha256 = replicate 64 (CHR ''7''), vk_registry_sha256 = replicate 64 (CHR ''7''), vk_interpreter_sha256 = replicate 64 (CHR ''7'')\<rparr>"

end
