(* ===== verification/Runtime_Properties.thy ===== *)
theory Runtime_Properties
  imports Runtime_Examples
begin

text \<open>
  The properties of the runtime: the receipts and the settlement of a cohort, the resource guard, captures, the
  values of backends, and the evidence of a verifier kit, each with a concrete instance.
\<close>

section \<open>The controller\<close>



text \<open>C4: When the sessions of a cohort have all been gone through, the settlement that the host computes is incomplete if a receipt
  could not be written, and otherwise has one row for every session in plan order, with the digest of the receipt file, and the
  outcome that the store derives from the statuses of the receipts.\<close>

theorem settlement_agrees:
  assumes "guard_opened he profile answer event g" "launch_matches (agenda_host sha256 he) st"
    and "arm_init sha256' cf session_ids base = Inr a" "base_ok base" "set (session_ids_of he) \<subseteq> set (ar_session_ids a)"
    and "\<forall>x. matches_sha256 (he_sha256 he x)"
    and "host_reachable (agenda_host sha256 he) (controller_init (agenda_host sha256 he) event g a st) c"
    and "co_missing c = length (he_specs he)"
  shows "if co_store_failed c then settlement_outcome (agenda_host sha256 he) c = ''SETTLEMENT_INCOMPLETE''
    else settlement_outcome (agenda_host sha256 he) c = expected_outcome (settlement_statuses (agenda_host sha256 he) c) \<and>
      list_all2 (\<lambda>s row. \<exists>status raw. row = PDict [(''session_id'', PStr s), (''status'', PStr (status_value status)),
          (''receipt_sha256'', PStr (he_sha256 he raw))] \<and> st_receipts (co_store c) s = Some raw)
        (session_ids_of he) (settlement_rows (agenda_host sha256 he) c)"
proof (cases "co_store_failed c")
  case True
  then show ?thesis by (simp add: settlement_outcome_def Let_def)
next
  case False
  have inv: "agenda.hinv sha256 he (st_launch st) c" by (rule agenda_run [OF assms(1-7)])
  have missing: "co_missing c = length (he_specs (agenda_host sha256 he))" using assms(8) by simp
  from agenda.settlement_outcome_expected [OF inv missing False] False show ?thesis by simp
qed

lemma settlement_agrees_witness: "\<exists>c. host_reachable (agenda_host runtime_digest sample_host) sample_run c \<and> co_missing c = 1 \<and>
   settlement_outcome (agenda_host runtime_digest sample_host) c \<in>
     {''SETTLEMENT_INCOMPLETE'', expected_outcome (settlement_statuses (agenda_host runtime_digest sample_host) c)}"
proof -
  obtain c where c: "host_reachable (agenda_host runtime_digest sample_host) sample_run c" "co_missing c = length (he_specs sample_host)"
    using sample_settled by blast
  from settlement_agrees [OF sample_reach sample_host_sha sample_reachable [OF c(1)] c(2)] c show ?thesis
    by (intro exI [of _ c]) (auto simp: sample_host_def split: if_splits)
qed

text \<open>What the store keeps through the operations of the controller\<close>

definition receipts_kept :: "'a controller \<Rightarrow> 'a controller \<Rightarrow> bool" where
  "receipts_kept c c' \<longleftrightarrow> (\<forall>s raw. st_receipts (co_store c) s = Some raw \<longrightarrow> st_receipts (co_store c') s = Some raw)"

lemma kept_refl [simp]: "receipts_kept c c"
  by (simp add: receipts_kept_def)

lemma kept_same: "st_receipts (co_store c') = st_receipts (co_store c) \<Longrightarrow> receipts_kept c c'"
  by (simp add: receipts_kept_def)

lemma same_receipts_simps [simp]:
  "co_store (become s k c) = co_store c" "co_store (host_failed h e s c) = co_store c"
  "co_store (mark_unproven p c) = co_store c" "co_store (observe_resource_event event c) = co_store c"
  by (auto simp: become_def host_failed_def mark_unproven_def observe_resource_event_def split: option.splits)

lemma transition_receipts: "transition he d t s state reason c = (r, c') \<Longrightarrow> st_receipts (co_store c') = st_receipts (co_store c)"
  using write_state_same by (fastforce simp: transition_def Let_def same_store_def split: prod.splits)

lemma transition_snd: "st_receipts (co_store (snd (transition he d t s state reason c))) = st_receipts (co_store c)"
  by (rule transition_receipts [OF surjective_pairing])

lemma operation_receipts:
  "st_receipts (co_store (prepare_session he d t e e' s c)) = st_receipts (co_store c)"
  "st_receipts (co_store (session_activated he d t e s c)) = st_receipts (co_store c)"
  "st_receipts (co_store (session_started he d t e answer s c)) = st_receipts (co_store c)"
  "st_receipts (co_store (session_signalled he d t' e t event wall s c)) = st_receipts (co_store c)"
  by (auto simp: prepare_session_def session_activated_def session_started_def session_signalled_def Let_def
      dest: transition_receipts split: prod.splits sum.splits option.splits)

lemma operation_store:
  "co_store (session_completed t r s c) = co_store c" "co_store (session_stopped t purpose q s c) = co_store c"
  "co_store (session_measured he t outcome q s c) = co_store c"
  "co_store (publish_next he i e spec t outcome p x xs ys c) = co_store c"
  "co_store (publisher_answers he response i e spec t outcome p x xs ys c) = co_store c"
  by (auto simp: session_completed_def session_stopped_def session_measured_def publish_next_def publisher_answers_def Let_def
      split: sum.splits stop_purpose.splits option.splits prod.splits bool.splits)

lemma persist_kept:
  assumes "persist_session he l d d' t spec args c = Inr c'"
  shows "receipts_kept c c'"
proof -
  let ?s = "ss_session_id spec" and ?c = "observe_resource_event (latched_event (co_guard c) (ss_session_id spec)) c"
  obtain receipt a where ra: "(case write_receipt (he_sha256 he) d ?s receipt (co_store c) of
             (Inl _, st) \<Rightarrow> Inr (?c\<lparr>co_arm := a, co_store := st, co_store_failed := True, co_stop_new := True\<rparr>)
           | (Inr digest, st) \<Rightarrow>
               Inr (snd (transition he d' t ?s (status_value (pa_status (overridden (latched_event (co_guard c) ?s) args)))
                 (pa_terminal_reason (overridden (latched_event (co_guard c) ?s) args))
                 (?c\<lparr>co_arm := a, co_store := st, co_receipts := (co_receipts (?c\<lparr>co_arm := a\<rparr>))(?s := Some (receipt, digest))\<rparr>)))) = (Inr c' :: 'a controller result)"
    using assms unfolding persist_session_def Let_def by (auto simp: rbind_Inr_iff)
  obtain answer st where w: "write_receipt (he_sha256 he) d ?s receipt (co_store c) = (answer, st)" by force
  have kept: "st_receipts st u = Some raw" if "st_receipts (co_store c) u = Some raw" for u raw
    using write_receipt_cases(4) [OF w, of u] write_receipt_cases(8) [OF w, of raw] that by (cases "u = ?s") simp_all
  have "st_receipts (co_store c') = st_receipts st"
    using ra w by (cases answer) (auto simp: transition_snd)
  with kept show ?thesis by (simp add: receipts_kept_def)
qed

lemma step_kept: "host_step he c c' \<Longrightarrow> receipts_kept c c'"
proof (induction rule: host_step.induct)
  case (hs_persisted c s handling args spec e t l d d')
  show ?case
    using persist_kept [of he l d d' t spec args c]
    by (auto simp: session_persisted_def Let_def receipts_kept_def split: sum.splits)
next
  case (hs_missing c spec t l d d' c')
  then show ?case using persist_kept [OF hs_missing.hyps(7)] by (simp add: receipts_kept_def)
qed (simp_all add: kept_same operation_receipts operation_store)

text \<open>C10: A receipt that is on disk is final: no step of the controller, and no further receipt of the same session, replaces it.\<close>

theorem receipts_final:
  assumes "host_reachable he c c'" "st_receipts (co_store c) s = Some raw"
  shows "st_receipts (co_store c') s = Some raw"
  using assms
proof (induction rule: host_reachable.induct)
  case (hr_step d e)
  with step_kept show ?case unfolding receipts_kept_def by blast
qed

lemma receipts_final_witness: "\<exists>c c'. host_reachable sample_host c c' \<and> c' \<noteq> c \<and> st_receipts (co_store c') ''b'' = Some ''x''"
proof -
  let ?c = "sample_run\<lparr>co_store := sample_store\<lparr>st_receipts := (\<lambda>_. Some ''x'')\<rparr>\<rparr>"
  have "host_step sample_host ?c (?c\<lparr>co_stop_new := True\<rparr>)" by (rule hs_cancel)
  then have reach: "host_reachable sample_host ?c (?c\<lparr>co_stop_new := True\<rparr>)" by (auto intro: hr_step hr_start)
  have "?c\<lparr>co_stop_new := True\<rparr> \<noteq> ?c" using arg_cong [of _ _ co_stop_new] by fastforce
  with receipts_final [OF reach, of "''b''" "''x''"] reach show ?thesis
    by (intro exI [of _ ?c] exI [of _ "?c\<lparr>co_stop_new := True\<rparr>"]) simp
qed

section \<open>Receipts\<close>

text \<open>C9: A receipt that the store accepts is bound to its session and launch; a success means a proven stop, a successful outcome, no
  error and every contribution either published or declined by the arm; a cancellation, and any known status of a session that
  ran, means a proven stop; a launch without publication has none.\<close>

theorem receipt_meaning:
  assumes "validate_receipt_value s st d = Inr ()"
  shows "dget ''session_id'' d = PStr s \<and> dget ''launch_sha256'' d = PStr (st_launch_sha256 st) \<and>
    (\<exists>n. validate_agenda_arm_evidence s (st_launch st) (dget ''agenda_arm'' d) = Inr n \<and>
      (dget ''status'' d = PStr ''SUCCEEDED'' \<longrightarrow>
         vget ''stopped'' (dget ''stop_proof'' d) = PBool True \<and> vget ''success'' (dget ''outcome'' d) = PBool True \<and>
         dget ''error'' d = PNone \<and>
         vget ''contribution_count'' (dget ''outcome'' d) = PInt (int (length (elements_of (dget ''publications'' d))) + n)) \<and>
      (dget ''status'' d = PStr ''CANCELLED'' \<or> dget ''started_at'' d \<noteq> PNone \<and> dget ''status'' d \<noteq> PStr ''UNKNOWN'' \<longrightarrow>
         vget ''stopped'' (dget ''stop_proof'' d) = PBool True) \<and>
      (vget ''mode'' (vget ''publication'' (st_launch st)) = PStr ''DISABLED'' \<longrightarrow> elements_of (dget ''publications'' d) = []))"
proof -
  obtain stopped succeeded n where v: "check_receipt_header s st d = Inr ()"
    "validate_stop_proof s (dget ''stop_proof'' d) = Inr stopped" "validate_receipt_outcome s (dget ''outcome'' d) = Inr succeeded"
    "validate_agenda_arm_evidence s (st_launch st) (dget ''agenda_arm'' d) = Inr n"
    "\<not> terminal_invariants_broken (facts_of (st_launch st) d stopped succeeded n)"
    using assms by (auto simp: validate_receipt_value_def Let_def rbind_Inr_iff split: if_splits)
  have h: "dget ''session_id'' d = PStr s" "dget ''launch_sha256'' d = PStr (st_launch_sha256 st)"
    "not_member TERMINAL_STATUSES (dget ''status'' d) = Inr False"
    using v(1) by (auto simp: check_receipt_header_def Let_def result_dests)
  have st: "\<exists>x. dget ''status'' d = PStr x" using h(3) by (auto simp: not_member_def member_of_def result_dests TERMINAL_STATUSES_def split: pyval.splits)
  have stop: "stopped = Some True \<longleftrightarrow> vget ''stopped'' (dget ''stop_proof'' d) = PBool True"
    using validate_stop_proof_Inr [OF v(2)] by (auto split: pyval.splits)
  have succ: "succeeded = Some True \<longleftrightarrow> vget ''success'' (dget ''outcome'' d) = PBool True"
    using validate_receipt_outcome_Inr [OF v(3)] by (auto split: pyval.splits)
  show ?thesis
    using v(4,5) h(1,2) st stop succ
    unfolding terminal_invariants_broken_def facts_of_def Let_def text_of_def
    by (auto split: pyval.splits option.splits)
qed

lemma receipt_meaning_witness:
  "\<exists>d. validate_receipt_value ''b'' sample_store d = Inr () \<and> dget ''status'' d = PStr ''SUCCEEDED'' \<and>
     vget ''stopped'' (dget ''stop_proof'' d) = PBool True"
proof -
  let ?c = "controller_init sample_host None sample_guard sample_arm sample_store" and ?spec = "sample_spec ''b''"
  have he: "sample_host\<lparr>he_arm := None\<rparr> = sample_host" by (simp add: sample_host_def)
  have c: "co_guard ?c = sample_guard" "co_arm ?c = sample_arm" by (simp_all add: controller_init_def observe_resource_event_def)
  have matches: "launch_matches sample_host sample_store" using sample_launch_matches [of None] by (simp only: he)
  have spec: "?spec \<in> set (he_specs sample_host)" "ss_session_id ?spec = ''b''" by (simp_all add: sample_host_def sample_spec_def)
  have guard: "guard_inv (co_guard ?c)" "set (gd_session_ids (co_guard ?c)) = set (session_ids_of sample_host)"
    using guard_opened_ok(1,2) [OF sample_guard_opened [OF sample_session_ids(1)]] by (simp_all add: c)
  have out: "outcome_ok (sample_outcome_of [])" "no_usage_evidence = Inr (bo_usage_evidence (sample_outcome_of []))"
    using backend_outcome_init_ok [OF sample_outcome_init(1)] by simp_all
  have "usage_from_value (usage_to_value (projr no_usage_evidence)) = Inr (projr no_usage_evidence)" by code_simp
  from usage_from_value_ok [OF this] have "evidence_ok (bo_usage_evidence (sample_outcome_of []))"
    using out(2) by (metis sum.sel(2))
  with out(1) have "backend_outcome_ok (sample_outcome_of [])" by (simp add: backend_outcome_ok_def)
  then have "completed_ok ''2026-01-01T00:00:00Z'' (sample_outcome_of []) not_started_proof"
    using sample_failure_ok(2) stop_proof_oks by (simp add: completed_ok_def)
  moreover have "bo_success (sample_outcome_of []) \<and> bo_contributions (sample_outcome_of []) = []" by code_simp
  ultimately have args: "args_ok (he_publisher sample_host) 0 (accounting_lost (co_guard ?c))
      (published_args ''2026-01-01T00:00:00Z'' (sample_outcome_of []) not_started_proof [])"
    by (intro published_ok) simp_all
  have sha: "\<And>x. matches_sha256 (he_sha256 sample_host x)" using sample_host_sha by blast
  have arm: "arm_evidence sample_host ?spec (co_arm ?c) = Inr (sample_arm, not_configured_agenda_arm_session_evidence)"
    unfolding c(2) by (simp add: arm_evidence_def sample_host_def)
  have mode: "vget ''mode'' (vget ''agenda_arm'' (st_launch sample_store)) = PStr ''NOT_CONFIGURED''"
    by (simp add: sample_store_def sample_launch_def dget_def)
  note valid = not_configured_accepted [OF mode, of "''b''"]
  obtain d where "validate_receipt_value ''b'' sample_store d = Inr ()" "dget ''status'' d = PStr (status_value SUCCEEDED)"
    using receipt_accepted [OF matches spec(1) guard args sample_failure_ok(2) sha arm, of No_Ledger] valid spec(2)
    by (auto simp: published_args_def)
  with receipt_meaning [OF this(1)] show ?thesis by auto
qed

section \<open>The resource guard\<close>

text \<open>C11: The guard never takes an event back: a session that has a terminal event keeps one, an event of the cohort stays the same,
  waiting returns exactly the latched event and blocks when there is none, and a warning is never latched.\<close>

theorem guard_events_latch:
  assumes "guard_init profile ids = Inr g0" "profile_ok profile" "guard_reachable g0 g" "guard_reachable g h" "s \<in> set ids"
  shows "(latched_event g s \<noteq> None \<longrightarrow> latched_event h s \<noteq> None) \<and>
    (\<forall>e. latched_event g s = Some e \<and> ev_scope e = Cohort_Scope \<longrightarrow> latched_event h s = Some e) \<and>
    guard_wait s h = map_option Inr (latched_event h s) \<and>
    (\<forall>e. latched_event h s = Some e \<longrightarrow> \<not> (ev_disposition e = Some WARN \<and> \<not> ev_uncertain e))"
proof -
  have i: "guard_inv g0" "gd_session_ids g0 = ids" using guard_init_inv [OF assms(1,2)] by simp_all
  have g: "guard_inv g" "gd_session_ids g = ids" using guard_reachable_good [OF assms(3) i(1)] i(2) by (simp_all add: good_step_def)
  have h: "guard_inv h" "keeps g h" "gd_session_ids h = ids"
    using guard_reachable_good [OF assms(4) g(1)] g(2) by (simp_all add: good_step_def)
  have "gd_signals h = {s \<in> set ids. latched_event h s \<noteq> None}" using h(1,3) by (simp add: guard_inv_def)
  then have "guard_wait s h = map_option Inr (latched_event h s)"
    using assms(5) h(3) by (cases "latched_event h s") (auto simp: guard_wait_def require_session_def)
  moreover have "stops e" if "latched_event h s = Some e" for e
  proof (cases "gd_global_terminal h")
    case None
    with that have "gd_session_terminal h s = Some e" by (simp add: latched_event_def)
    with h(1) show ?thesis by (simp add: guard_inv_def)
  qed (use h(1) that in \<open>simp add: guard_inv_def latched_event_def\<close>)
  ultimately show ?thesis
    using keeps_event [OF h(2), of s] keeps_cohort_event [OF h(2) g(1), of s] unfolding stops_def by blast
qed

lemma guard_events_latch_witness:
  "guard_reachable sample_guard0 sample_lost_guard \<and> guard_reachable sample_lost_guard (guard_close sample_lost_guard) \<and>
   guard_wait ''b'' (guard_close sample_lost_guard) = Some (Inr (uncertain_event Host_Filesystem Initial None ''E''))"
proof -
  have "guard_step sample_guard0 sample_lost_guard"
    by (rule gs_start [OF _ sample_lost_start]) (simp add: disk_answer_ok_def ascii_def cc_def)
  then have a: "guard_reachable sample_guard0 sample_lost_guard" by (auto intro: gr_step gr_start)
  have b: "guard_reachable sample_lost_guard (guard_close sample_lost_guard)" by (auto intro: gr_step gr_start gs_close)
  have e: "latched_event sample_lost_guard ''b'' = Some (uncertain_event Host_Filesystem Initial None ''E'')"
    by (simp add: sample_lost_guard_def sample_guard0_def guard_init_def guard_start_def check_disk_def latch_event_def latch_def
      uncertain_event_def latched_event_def Let_def)
  have s: "ev_scope (uncertain_event Host_Filesystem Initial None ''E'') = Cohort_Scope" by (simp add: uncertain_event_def)
  from guard_events_latch [OF sample_guard_init sample_profile_ok a b, of "''b''"] a b e s show ?thesis by simp
qed

lemma end_tree_warning:
  assumes "end_tree s target phase answer g = Inr (Some e, h)" "ev_disposition e = Some WARN" "\<not> ev_uncertain e"
    and "guard_inv g" "tree_answer_ok answer" "s \<in> set (gd_session_ids g)"
  shows "latched_event h = latched_event g \<and> gd_signals h = gd_signals g \<and>
    gd_warnings h = (gd_warnings g)(s := take MAXIMUM_RESOURCE_WARNINGS (gd_warnings g s @ [e]))"
proof (cases answer)
  case (Inl name)
  with assms(1,3) show ?thesis by (auto simp: end_tree_def latch_event_def rbind_Inr_iff uncertain_event_def)
next
  case (Inr n)
  let ?g = "g\<lparr>gd_latest_tree := (gd_latest_tree g)(s := (gd_latest_tree g s)(target := Some n))\<rparr>"
  have p: "profile_ok (gd_profile g)" "length (gd_warnings g s) \<le> MAXIMUM_RESOURCE_WARNINGS"
    using assms(4,6) by (simp_all add: guard_inv_def)
  have n: "tree_ok n" using assms(5) Inr by (simp add: tree_answer_ok_def tree_ok_def)
  have "target_limits (gd_profile g) target \<in> {pf_workspace (gd_profile g), pf_runtime_cache (gd_profile g)}"
    by (simp add: target_limits_def)
  from tree_limit_event_ok [OF p(1) n assms(6) this] obtain r where
    r: "tree_limit_event (gd_profile g) s target phase n (target_limits (gd_profile g) target) = Inr r"
      "\<And>e. r = Some e \<Longrightarrow> ev_session_id e = Some s" by blast
  with assms(1) Inr have "r = Some e" "latch e ?g = Inr h"
    by (auto simp: end_tree_def Let_def latch_event_def rbind_Inr_iff split: option.splits)
  then have "h = add_warning e s ?g" using assms(2,3) r(2) by (simp add: latch_def)
  with p(2) show ?thesis by (auto simp: add_warning_def latched_event_def fun_eq_iff split: option.split)
qed


text \<open>C12: In every state that the guard can reach, a scan of a tree reports nothing exactly when it measured a tree within the limits.
  Whatever it reports is visible to the session as a terminal event and signalled, unless the profile makes it a warning: a warning
  latches and signals nothing, and is added to the warnings of the session while fewer than the maximum are kept.\<close>

theorem breach_is_latched:
  assumes "guard_init profile ids = Inr g0" "profile_ok profile" "guard_reachable g0 g" "s \<in> set ids" "tree_answer_ok answer"
  shows "\<exists>event h. end_tree s target phase answer g = Inr (event, h) \<and>
    (event = None \<longleftrightarrow> (\<exists>t. answer = Inr t \<and> within_limits t (target_limits (gd_profile g) target))) \<and>
    (\<forall>e. event = Some e \<and> \<not> (ev_disposition e = Some WARN \<and> \<not> ev_uncertain e) \<longrightarrow>
       latched_event h s \<noteq> None \<and> s \<in> gd_signals h) \<and>
    (\<forall>e. event = Some e \<and> ev_disposition e = Some WARN \<and> \<not> ev_uncertain e \<longrightarrow>
       latched_event h = latched_event g \<and> gd_signals h = gd_signals g \<and>
       gd_warnings h = (gd_warnings g)(s := take MAXIMUM_RESOURCE_WARNINGS (gd_warnings g s @ [e])))"
proof -
  have i: "guard_inv g0" "gd_session_ids g0 = ids" using guard_init_inv [OF assms(1,2)] by simp_all
  have g: "guard_inv g" "gd_session_ids g = ids" using guard_reachable_good [OF assms(3) i(1)] i(2) by (simp_all add: good_step_def)
  obtain event h where h: "end_tree s target phase answer g = Inr (event, h)" "guard_inv h" "frame g h"
    "\<forall>e. event = Some e \<and> stops e \<longrightarrow> latched_event h s \<noteq> None"
    "event = None \<longleftrightarrow> (\<exists>n. answer = Inr n \<and> within_limits n (target_limits (gd_profile g) target))"
    using end_tree_ok [OF g(1) assms(5), of s target phase] assms(4) g(2) by blast
  have "gd_signals h = {s \<in> set ids. latched_event h s \<noteq> None}" using h(2,3) g(2) by (simp add: guard_inv_def frame_def)
  with h(4) assms(4) have stop: "\<forall>e. event = Some e \<and> \<not> (ev_disposition e = Some WARN \<and> \<not> ev_uncertain e) \<longrightarrow>
      latched_event h s \<noteq> None \<and> s \<in> gd_signals h"
    unfolding stops_def by blast
  have warn: "latched_event h = latched_event g \<and> gd_signals h = gd_signals g \<and>
      gd_warnings h = (gd_warnings g)(s := take MAXIMUM_RESOURCE_WARNINGS (gd_warnings g s @ [e]))"
    if "event = Some e" "ev_disposition e = Some WARN" "\<not> ev_uncertain e" for e
    using end_tree_warning [OF h(1) [unfolded that(1)] that(2,3) g(1) assms(5)] assms(4) g(2) by simp
  show ?thesis
    by (rule exI [of _ event], rule exI [of _ h], intro conjI h(1,5) stop) (use warn in blast)
qed

lemma breach_is_latched_witness:
  "\<exists>event h. end_tree ''b'' Workspace Live (Inr \<lparr>ts_total_bytes = 1001, ts_entries = 1, ts_maximum_depth = 1\<rparr>) sample_guard0 = Inr (Some event, h) \<and>
     ev_code event = ''WORKSPACE_TOTAL_BYTES_EXCEEDED'' \<and> ''b'' \<in> gd_signals h"
proof -
  let ?a = "Inr \<lparr>ts_total_bytes = 1001, ts_entries = 1, ts_maximum_depth = 1\<rparr>"
  have d: "profile_disposition sample_profile ''WORKSPACE_TOTAL_BYTES_EXCEEDED'' = Inr SESSION_STOP" by code_simp
  have p: "gd_profile sample_guard0 = sample_profile" by (simp add: sample_guard0_def guard_init_def)
  have ok: "tree_answer_ok ?a" by (simp add: tree_answer_ok_def)
  obtain event h where h: "end_tree ''b'' Workspace Live ?a sample_guard0 = Inr (event, h)"
    "event = None \<longleftrightarrow> within_limits \<lparr>ts_total_bytes = 1001, ts_entries = 1, ts_maximum_depth = 1\<rparr> (target_limits sample_profile Workspace)"
    "\<forall>e. event = Some e \<and> \<not> (ev_disposition e = Some WARN \<and> \<not> ev_uncertain e) \<longrightarrow> latched_event h ''b'' \<noteq> None \<and> ''b'' \<in> gd_signals h"
    using breach_is_latched [OF sample_guard_init sample_profile_ok gr_start _ ok, of "''b''" Workspace Live] p by auto
  have "\<not> within_limits \<lparr>ts_total_bytes = 1001, ts_entries = 1, ts_maximum_depth = 1\<rparr> (target_limits sample_profile Workspace)"
    by (simp add: within_limits_def target_limits_def sample_profile_def sample_limits_def)
  with h(2) obtain e where e: "event = Some e" by auto
  have "ev_code e = ''WORKSPACE_TOTAL_BYTES_EXCEEDED'' \<and> ev_disposition e = Some SESSION_STOP"
    using h(1) d p unfolding e
    by (auto simp: end_tree_def Let_def tree_limit_event_def limit_rows_def target_limits_def latch_event_def rbind_Inr_iff
        sample_limits_def [THEN arg_cong [of _ _ tl_maximum_total_bytes]] sample_profile_def [THEN arg_cong [of _ _ pf_workspace]])
  with h(1,3) e show ?thesis by auto
qed

text \<open>The evidence of every state of the guard passes the checks of the store.\<close>

theorem guard_evidence_valid:
  assumes "guard_init profile ids = Inr g0" "profile_ok profile" "guard_reachable g0 g" "s \<in> set ids" "\<forall>t \<in> set ids. is_ID t"
  shows "\<exists>v. guard_evidence g s = Inr v \<and> validate_resource_guard s v = Inr () \<and>
    vget ''terminal_event'' v = opt_value resource_event_to_value (latched_event g s)"
proof -
  have i: "guard_inv g0" "gd_session_ids g0 = ids" using guard_init_inv [OF assms(1,2)] by simp_all
  have g: "guard_inv g" "gd_session_ids g = ids" using guard_reachable_good [OF assms(3) i(1)] i(2) by (simp_all add: good_step_def)
  with guard_evidence_accepted [OF g(1), of s] assms(4,5) show ?thesis by blast
qed

lemma guard_evidence_valid_witness:
  "\<exists>v. guard_evidence sample_guard0 ''b'' = Inr v \<and> validate_resource_guard ''b'' v = Inr () \<and> vget ''terminal_event'' v = PNone"
proof -
  have "is_ID ''b''" by code_simp
  then have "\<forall>t \<in> set [''b'']. is_ID t" by simp
  moreover have "latched_event sample_guard0 ''b'' = None" by (simp add: sample_guard0_def guard_init_def latched_event_def)
  ultimately show ?thesis
    using guard_evidence_valid [OF sample_guard_init sample_profile_ok gr_start, of "''b''"] by (simp add: opt_value_def)
qed

lemma add_warning_keeps: "gd_global_terminal (fold (add_warning e) ss g) = gd_global_terminal g \<and>
    gd_disk_monitor (fold (add_warning e) ss g) = gd_disk_monitor g"
  by (induction ss arbitrary: g) (simp_all add: add_warning_def)

lemma latch_warning:
  assumes "latch_event e g = Inr (x, h)"
  shows "x = Some e" "ev_disposition e = Some WARN \<Longrightarrow> \<not> ev_uncertain e \<Longrightarrow>
    gd_global_terminal h = gd_global_terminal g \<and> gd_disk_monitor h = gd_disk_monitor g"
  using assms add_warning_keeps by (auto simp: latch_event_def latch_def rbind_Inr_iff)

text \<open>A warning at the start of the guard latches nothing, but no disk monitor is started and the controller takes no session.\<close>

theorem initial_warning_stops_cohort:
  assumes "guard_start answer g0 = Inr (Some e, g)" "ev_disposition e = Some WARN" "\<not> ev_uncertain e"
  shows "gd_global_terminal g = gd_global_terminal g0 \<and> gd_disk_monitor g = gd_disk_monitor g0 \<and>
    co_stop_new (controller_init he (Some e) g a st)"
proof -
  have "check_disk Initial answer (g0\<lparr>gd_started := True\<rparr>) = Inr (Some e, g)"
    using assms(1) by (auto simp: guard_start_def rbind_Inr_iff split: if_splits)
  then obtain e0 h where h: "latch_event e0 h = Inr (Some e, g)" "ev_scope e0 = Cohort_Scope"
    "gd_global_terminal h = gd_global_terminal g0" "gd_disk_monitor h = gd_disk_monitor g0"
    by (auto simp: check_disk_def Let_def rbind_Inr_iff uncertain_event_def split: sum.splits if_splits)
  with latch_warning [OF h(1)] assms(2,3) show ?thesis by (simp add: controller_init_def observe_resource_event_def)
qed

lemma initial_warning_stops_cohort_witness:
  "\<exists>e g. guard_start (Inr \<lparr>dk_total_bytes = 100, dk_available_bytes = 5, dk_required_free_bytes = 10\<rparr>)
      (sample_guard0\<lparr>gd_profile := sample_profile\<lparr>pf_dispositions := [(''DISK_RESERVE_BREACHED'', WARN)]\<rparr>\<rparr>) = Inr (Some e, g) \<and>
     gd_global_terminal g = None \<and> co_stop_new (controller_init sample_host (Some e) g sample_arm sample_store)"
proof -
  let ?g0 = "sample_guard0\<lparr>gd_profile := sample_profile\<lparr>pf_dispositions := [(''DISK_RESERVE_BREACHED'', WARN)]\<rparr>\<rparr>"
  have s: "is_SAFETY_CODE ''DISK_RESERVE_BREACHED''" by code_simp
  have none: "gd_global_terminal ?g0 = None" by (simp add: sample_guard0_def guard_init_def)
  obtain e g where e: "guard_start (Inr \<lparr>dk_total_bytes = 100, dk_available_bytes = 5, dk_required_free_bytes = 10\<rparr>) ?g0 = Inr (Some e, g)"
    "ev_disposition e = Some WARN" "\<not> ev_uncertain e"
    using s by (simp add: guard_start_def check_disk_def Let_def profile_disposition_def latch_event_def latch_def sample_guard0_def
        guard_init_def)
  from initial_warning_stops_cohort [OF e, of sample_host sample_arm sample_store] none e(1) show ?thesis by auto
qed

section \<open>Captures, backends and kits\<close>

text \<open>C13: However a stream is cut into chunks, the capture of it counts, retains, digests and classifies the stream as a whole, the
  safety cap is crossed once, and a finalized capture accepts nothing.\<close>

theorem capture_exact:
  "\<exists>c xs c'. capture_init limits JOB_STOP retain = Inr c \<and> append_all chunks c = Inr (xs, c') \<and>
     length (filter ao_safety_cap_crossed xs) = (if cl_maximum_observed_bytes limits < length (concat chunks) then 1 else 0) \<and>
     fst (capture_finalize sha256 c') =
       \<lparr>cs_observed_bytes = length (concat chunks), cs_retained_bytes = min (cl_maximum_retained_bytes limits) (length (concat chunks)),
        cs_retained = (if retain then Some (take (cl_maximum_retained_bytes limits) (concat chunks)) else None),
        cs_tail = drop (length (concat chunks) - cl_tail_bytes limits) (concat chunks), cs_observed_sha256 = sha256 (concat chunks),
        cs_truncated = (cl_maximum_retained_bytes limits < length (concat chunks)),
        cs_cap_exceeded = (cl_maximum_observed_bytes limits < length (concat chunks)),
        cs_terminal_disposition = (if cl_maximum_observed_bytes limits < length (concat chunks) then Some JOB_STOP else None)\<rparr> \<and>
     capture_append chunk (snd (capture_finalize sha256 c')) = Inl (Runtime_Error ''capture is finalized'')"
proof -
  have init: "capture_init limits JOB_STOP retain = Inr (captured limits retain [])"
    by (simp add: capture_init_def captured_def Safety.suffix_def)
  obtain xs where xs: "append_all chunks (captured limits retain []) = Inr (xs, captured limits retain (concat chunks))"
    "length (filter ao_safety_cap_crossed xs) = (if cl_maximum_observed_bytes limits < length (concat chunks) then 1 else 0)"
    using append_all_captured [of chunks limits retain "[]"] by auto
  have trunc: "min m n < n \<longleftrightarrow> m < n" for m n :: nat by linarith
  show ?thesis
    by (rule exI [of _ "captured limits retain []"], rule exI [of _ xs], rule exI [of _ "captured limits retain (concat chunks)"])
      (simp add: init xs capture_finalize_def take_capture_snapshot_def Let_def capture_append_def, simp add: captured_def Safety.suffix_def trunc)
qed

text \<open>C14: The public configuration of an identity that was constructed reads back as the key-sorted configuration it was given, within the
  size limit, and has no key that names a secret at any depth.\<close>

theorem identity_holds_no_secret:
  assumes "backend_identity_init name protocol public_config = Inr i" "json_wf (\<lambda>_. True) public_config"
  shows "\<exists>config. bi_public_config i = Inr config \<and> secret_free (PDict config) \<and> PDict config = sort_json public_config \<and>
    canonical_json (PDict config) = Inr (bi_public_config_bytes i) \<and> length (bi_public_config_bytes i) \<le> MAXIMUM_PUBLIC_CONFIG_BYTES"
proof -
  obtain d c where d: "public_config = PDict d"
    and c: "json_clone (PDict d) MAXIMUM_PUBLIC_CONFIG_BYTES ''public_config'' = Inr c" "reject_sensitive_keys [c] = Inr ()"
      "canonical_json c = Inr (bi_public_config_bytes i)"
    using assms(1) by (auto simp: backend_identity_init_def result_dests split: pyval.splits)
  have wf: "json_wf (\<lambda>_. True) (PDict d)" using assms(2) d by simp
  have e: "sort_json (PDict d) = PDict (sort_key fst (sort_json_items d))" by simp
  have cs: "c = sort_json (PDict d)" using json_clone_Inr [OF wf] c(1) by blast
  have "bi_public_config i = Inr (sort_key fst (sort_json_items d))"
    using json_clone_dict(1) [OF wf c(1,3)] by (simp add: bi_public_config_def)
  moreover have "secret_free c" using c(2) by (simp add: reject_sensitive_keys_Inr)
  ultimately show ?thesis
    using c(3) json_clone_dict(3) [OF wf c(1,3)] unfolding d e [symmetric] cs by (intro exI [of _ "sort_key fst (sort_json_items d)"]) (simp only: e) 
qed

lemma identity_holds_no_secret_witness:
  "\<exists>i config. backend_identity_init (PStr ''pi'') (PStr ''PMW_BACKEND_1'') (PDict [(''model'', PStr ''m'')]) = Inr i \<and>
     bi_public_config i = Inr config \<and> secret_free (PDict config)"
proof -
  have "\<not> isl (backend_identity_init (PStr ''pi'') (PStr ''PMW_BACKEND_1'') (PDict [(''model'', PStr ''m'')]))" by code_simp
  then obtain i where i: "backend_identity_init (PStr ''pi'') (PStr ''PMW_BACKEND_1'') (PDict [(''model'', PStr ''m'')]) = Inr i"
    by (metis sum.collapse(2))
  have "json_wf (\<lambda>_. True) (PDict [(''model'', PStr ''m'')])" by (simp add: keys_def)
  from identity_holds_no_secret [OF i this] i show ?thesis by blast
qed

text \<open>C15: A backend outcome reads back from its wire value; only its typed usage evidence, which the wire value does not carry, is the
  one that declares no evidence.\<close>

theorem outcome_roundtrip:
  assumes "backend_outcome_init success terminal_reason summary contributions usage evidence usage_evidence = Inr o'"
    and "\<forall>c \<in> set contributions. contribution_ok c" "json_wf (\<lambda>_. True) usage" "json_wf (\<lambda>_. True) evidence"
  shows "\<exists>e. no_usage_evidence = Inr e \<and>
    rbind (backend_outcome_to_value o') backend_outcome_from_value = Inr (o'\<lparr>bo_usage_evidence := e\<rparr>) \<and>
    (usage_evidence = None \<longrightarrow> rbind (backend_outcome_to_value o') backend_outcome_from_value = Inr o')"
proof -
  obtain e where e: "no_usage_evidence = Inr e" using no_usage_evidence_Inr by blast
  note ok = backend_outcome_init_ok [OF assms]
  have "bo_usage_evidence o' = e" if "usage_evidence = None" using ok that e by (metis sum.inject(2))
  then have "o'\<lparr>bo_usage_evidence := e\<rparr> = o'" if "usage_evidence = None" using that by (cases o') simp
  with e outcome_reads_back [OF _ e, of o'] ok show ?thesis by auto
qed

lemma outcome_roundtrip_witness:
  "rbind (backend_outcome_to_value (sample_outcome_of [sample_contribution])) backend_outcome_from_value =
     Inr (sample_outcome_of [sample_contribution])"
  using outcome_roundtrip [OF sample_outcome_init(2)] sample_contribution_ok by auto

text \<open>C16: The evidence that the host counts of any session ledger is accepted by the store, counts every entry up to the limit exactly
  once, as a verdict or as rejected, and says whether it was truncated.\<close>

theorem kit_evidence_counted:
  assumes "kit_block_ok (Some kit) launch"
  shows "\<exists>d. read_session_verifier_kit_evidence kit (Ledger_Files files) = PDict d \<and>
    validate_verifier_kit_evidence s launch (PDict d) = Inr () \<and>
    int_of (dget ''invocation_count'' d) + int_of (dget ''rejected_entries'' d) = int (min (length files) MAXIMUM_LEDGER_ENTRIES) \<and>
    dget ''truncated'' d = PBool (MAXIMUM_LEDGER_ENTRIES < length files)"
proof -
  obtain d where d: "read_session_verifier_kit_evidence kit (Ledger_Files files) = PDict d"
    by (simp add: read_session_verifier_kit_evidence_def session_evidence_value_def Let_def)
  have "validate_verifier_kit_evidence s launch (PDict d) = Inr ()"
    using verifier_kit_evidence_accepted [OF assms, of s "Ledger_Files files"] d by (simp add: verifier_kit_evidence_def)
  with d ledger_counts_add_up [OF d] show ?thesis by blast
qed

lemma kit_evidence_counted_witness:
  "\<exists>d. read_session_verifier_kit_evidence sample_kit (Ledger_Files [(''x'', None), (''a'', Some ''{}'')]) = PDict d \<and>
     int_of (dget ''invocation_count'' d) + int_of (dget ''rejected_entries'' d) = 2 \<and> dget ''truncated'' d = PBool False"
proof -
  let ?launch = "PDict [(''verifier_kit'', PDict [(''mode'', PStr ''MATERIALIZED''), (''content_sha256'', PStr (replicate 64 (CHR ''7'')))])]"
  have "matches_sha256 (replicate 64 (CHR ''7''))" by code_simp
  then have "kit_block_ok (Some sample_kit) ?launch"
    by (simp add: kit_block_ok_def dget_def sample_kit_def [THEN arg_cong [of _ _ vk_content_sha256]])
  from kit_evidence_counted [OF this, of "[(''x'', None), (''a'', Some ''{}'')]"] show ?thesis
    by (auto simp: MAXIMUM_LEDGER_ENTRIES_def)
qed

end
