(* ===== verification/Spec2Isabelle.thy ===== *)
theory Spec2Isabelle
  imports World_Properties Agenda_Properties Arm_Properties Observable_Properties World_Store_Properties
    Usage_Properties Context_Window Cohort_Properties Situation_Properties Runtime_Properties
begin

text \<open>
  A verification development for the PMW research platform, the Python package under
  \<^verbatim>\<open>src/pmw_platform\<close>.

  The program. A cohort of research sessions runs against one world, an append-only store of
  admissions that a broker of another package keeps. \<^verbatim>\<open>world/\<close> holds the records that sessions write,
  their canonical JSON, the client of the broker and the briefing of a cohort. \<^verbatim>\<open>sessions/\<close> holds the
  plan of a cohort and a pool of workers for it. \<^verbatim>\<open>experiments/agenda_treatments/\<close> validates typed
  payloads (tasks, claims with leases, directives, decompositions, routes) against a snapshot of the world;
  \<^verbatim>\<open>experiments/agenda_arm.py\<close> is the arm of one launch, which reviews what a session wants to publish and
  records its verdicts, and \<^verbatim>\<open>experiments/agenda_observables.py\<close> reads a finished ledger. \<^verbatim>\<open>runtime/\<close> runs
  the sessions on a backend: \<^verbatim>\<open>orchestrator.py\<close> starts and stops them, publishes their contributions through the
  arm, and writes one receipt per session and one settlement through \<^verbatim>\<open>store.py\<close>, whose validators decide
  what may become durable; \<^verbatim>\<open>resource_guard.py\<close> watches disk and directories for it.

  How code is modelled. A Python value is a \<open>pyval\<close>, where \<open>POther t\<close> is an object of a type that the
  validators only refuse; a dictionary is an association list in insertion order. A text is kept as the bytes
  of its UTF-8 form, with a lone surrogate as the three bytes that it would have (\<open>Py_Text\<close>). A raised
  exception is the left side of \<open>'a result = exn + 'a\<close>, and \<open>rbind\<close> is the order of evaluation (\<open>Prelude\<close>).
  A class is a record with its fields, a method a function that returns the changed object. Coroutines that share
  an event loop are a step relation whose steps go from one suspension to the next.

  The world. \<open>Json\<close> and \<open>Json_Roundtrip\<close>: \<open>canonical_json\<close>, the decoders of \<open>json.loads\<close> with their hooks,
  and the locale \<open>json_decoder\<close> under which a decoder inverts the encoder; the decoder has fuel twice the
  length of the text plus one, and \<open>json_loads_decides\<close> shows that it never runs out, because each call consumes
  a character or returns after one that did. \<open>Records\<close>: \<^verbatim>\<open>world/records.py\<close>, whose bounded walk over a payload
  is an explicit stack, shown equal to a structural recursion. \<open>World_Store\<close>, \<open>World_Correct\<close>,
  \<open>World_Publish\<close>: \<^verbatim>\<open>world/store.py\<close> over a broker that is a parameter \<open>core\<close>; locale \<open>bounded_cache\<close>;
  reads are transparent and a publication asks the broker exactly when the gate holds
  (\<open>World_Store_Properties\<close>). \<open>Legacy_Frontier\<close>, \<open>Situation\<close>: \<^verbatim>\<open>world/legacy_frontier.py\<close> and
  \<^verbatim>\<open>world/situation.py\<close> (\<open>Situation_Properties\<close>: a briefing is complete, a projection bounded in all but
  its keys and numbers). \<open>Session_Model\<close>: \<^verbatim>\<open>sessions/model.py\<close>.
  \<open>Cohort_Runner\<close>: \<^verbatim>\<open>sessions/runner.py\<close> (\<open>Cohort_Properties\<close>: failure isolation, accounting of started
  sessions, termination of every run, and the cancellation after which a receipt is lost). \<open>World_Properties\<close> has the round trips.

  The agenda. \<open>Verdict\<close>, \<open>Schemas\<close>, \<open>Schema_Codecs\<close>, \<open>Candidates\<close>, \<open>Snapshot\<close>, \<open>Worklist\<close>, \<open>Central\<close>,
  \<open>Adaptive\<close>: one theory per module of \<^verbatim>\<open>agenda_treatments/\<close> (the last with \<^verbatim>\<open>route.py\<close>).
  \<open>Worklist_Correct\<close> reads the executable scans as statements about single entries; \<open>Agenda_Properties\<close> has
  exclusivity, the finality of an ended lease, and the exact conditions of each validator. \<open>Agenda_Arm\<close> and
  \<open>Arm_Controller\<close>: \<^verbatim>\<open>experiments/agenda_arm.py\<close>. \<open>Arm_Correct\<close> has the invariant of its ledger, \<open>Arm_Runtime\<close>
  the orchestrator's use of it as a step relation that refines an abstract lease machine, \<open>Arm_Answers\<close> that every
  review ends with a recorded decision and what exactly the observation of a publication leaves in the ledger
  (\<open>Arm_Properties\<close>). \<open>Observables\<close>, \<open>Observable_Properties\<close>: the series of
  a ledger.

  The runtime. \<open>Usage\<close>, \<open>Context_Window\<close>, \<open>Contracts\<close>, \<open>Safety\<close>, \<open>Kit_Evidence\<close>: \<^verbatim>\<open>runtime/usage.py\<close>,
  \<^verbatim>\<open>context.py\<close>, \<^verbatim>\<open>contracts.py\<close>, \<^verbatim>\<open>safety.py\<close> and \<^verbatim>\<open>verifier_kit.py\<close>. \<open>Resource_Guard\<close>:
  \<^verbatim>\<open>resource_guard.py\<close> with the relation \<open>guard_step\<close> over its monitors and calls, and its invariant
  \<open>guard_inv\<close>. \<open>Receipt_Blocks\<close> and \<open>Runtime_Store\<close>: the validators and operations of \<^verbatim>\<open>store.py\<close>; a file is
  \<open>Some\<close> of its bytes, and \<open>disk_answer\<close> says whether a write is refused before or after the file appears.
  \<open>Session_Run\<close>: \<open>_Controller\<close> of \<^verbatim>\<open>orchestrator.py\<close>; \<open>session_control\<close> is where the coroutine of a session
  is suspended, and \<open>host_step\<close> has one rule for what happens from one suspension to the next, with what backend,
  publisher, disk and clock answer as free variables of the rule.

  The runtime's correctness joins two modules that do not call each other's checks: the controller builds a
  receipt, the store decides. \<open>Store_Blocks\<close> and \<open>Receipt_Accepted\<close> show, block by block, that the
  validator accepts what the controller builds from arguments that satisfy \<open>args_ok\<close>; \<open>Host_Control\<close> shows that
  every step of a session leads to such arguments; the locale \<open>arm_contract\<close> of \<open>Arm_Contract\<close> says what is needed of
  an arm, with the number of refused contributions as its only observation, and is interpreted on a host
  without an arm and on the agenda arm; \<open>Host_Invariant\<close> proves the invariant of all steps inside it.
  \<open>Runtime_Properties\<close> states what follows over the model's own definitions.

  What is assumed, where a property names it: proofs, outcomes and contributions that a backend hands over were made
  by their constructors; names of exception classes are ASCII; SHA-256 is a function to 64 hexadecimal digits; the
  reserve of a disk guard, computed with floats, is a function of the total bytes; a broker keeps what it
  admitted and never changes a snapshot. Answers of disks, publishers, ledgers and accounting calls are arbitrary.

  Not modelled: floats (contents with floats are foreign objects, and the limits of a launch, its manifest and
  the creation and validation of the launch document are left out with them), dictionaries with keys that are not
  texts, the recursion limit and the limit of digits of the interpreter in the encoder, the indented form
  of plans, all checks of directories and file identities, the claim file of a running launch, the invocation
  document and the input files of a session, time, and the adapters around processes and command lines. A
  document with both a repeated key and a syntax error is reported as malformed. Base64 is read as by interpreters
  from version 3.11 on.
\<close>

end
